(* ===== verification/Madcap_Prelude.thy ===== *)
theory Madcap_Prelude
  imports Main "HOL-Library.Word" "HOL-Library.Monad_Syntax"
begin

unbundle bit_operations_syntax

text \<open>
  Shared vocabulary of the development: the fixed-width integers of the C sources, the
  kernel's error numbers, byte order on the little-endian machines the drivers are built
  for, and the lemma collections the component theories extend.

  \<^item> \<open>heap_simps\<close> collects the rewriting rules for explicit stores;
  \<^item> \<open>slot_simps\<close> collects the rules for the fixed arrays of device slots;
  \<^item> \<open>wire_simps\<close> collects the rules for packet bytes and byte order.
\<close>

named_theorems heap_simps \<open>reading and updating explicit stores\<close>
named_theorems slot_simps \<open>fixed arrays of device slots\<close>
named_theorems wire_simps \<open>packet bytes and byte order\<close>

section \<open>Machine integers and error numbers\<close>

type_synonym u8 = "8 word"
type_synonym u16 = "16 word"
type_synonym u32 = "32 word"
type_synonym u64 = "64 word"

text \<open>Objects the kernel hands out by pointer (devices, nodes, FIB entries) are addressed
  by a number; \<open>None\<close> is the null pointer.\<close>

type_synonym addr = nat
type_synonym ptr = "addr option"

text \<open>The kernel's errno values; a C function reports failure by returning the negation.\<close>

abbreviation (input) ENOENT :: int where "ENOENT \<equiv> 2"
abbreviation (input) ENOMEM :: int where "ENOMEM \<equiv> 12"
abbreviation (input) EFAULT :: int where "EFAULT \<equiv> 14"
abbreviation (input) EEXIST :: int where "EEXIST \<equiv> 17"
abbreviation (input) ENODEV :: int where "ENODEV \<equiv> 19"
abbreviation (input) EINVAL :: int where "EINVAL \<equiv> 22"
abbreviation (input) EMSGSIZE :: int where "EMSGSIZE \<equiv> 90"
abbreviation (input) EOPNOTSUPP :: int where "EOPNOTSUPP \<equiv> 95"
abbreviation (input) ENOTSUPP :: int where "ENOTSUPP \<equiv> 524"

section \<open>Bytes in memory\<close>

text \<open>A word in memory is the list of its bytes, least significant first; network order is
  the reverse. A field of type \<^verbatim>\<open>__be16\<close> or \<^verbatim>\<open>__be32\<close> is modelled by the word the machine
  reads from it, so \<open>htons\<close> and \<open>htonl\<close> convert to and from the number it stands for.\<close>

definition le_bytes :: "nat \<Rightarrow> 'a::len word \<Rightarrow> u8 list" where
  "le_bytes n w = map (\<lambda>i. ucast (drop_bit (8 * i) w)) [0..<n]"

fun le_word :: "u8 list \<Rightarrow> 'a::len word" where
  "le_word [] = 0"
| "le_word (b # bs) = ucast b OR push_bit 8 (le_word bs)"

definition htons :: "u16 \<Rightarrow> u16" where
  "htons w = le_word (rev (le_bytes 2 w))"

definition htonl :: "u32 \<Rightarrow> u32" where
  "htonl w = le_word (rev (le_bytes 4 w))"

lemma length_le_bytes [simp]: "length (le_bytes n w) = n"
  by (simp add: le_bytes_def)

lemma bit_le_word:
  "bit (le_word bs :: 'a::len word) k \<longleftrightarrow> k < LENGTH('a) \<and> k div 8 < length bs \<and> bit (bs ! (k div 8)) (k mod 8)"
proof (induction bs arbitrary: k)
  case (Cons b bs)
  show ?case
  proof (cases "k < 8")
    case True
    then show ?thesis
      by (auto simp: bit_or_iff bit_push_bit_iff bit_ucast_iff)
  next
    case False
    then obtain m where k: "k = 8 + m" using le_Suc_ex linorder_not_less by blast
    have "\<not> bit b (8 + m)" using bit_imp_le_length [of b "8 + m"] by auto
    moreover have "(8 + m) div 8 = Suc (m div 8)" by simp
    ultimately show ?thesis
      using Cons.IH [of m] by (auto simp: k bit_or_iff bit_push_bit_iff bit_ucast_iff)
  qed
qed simp

lemma le_word_le_bytes [wire_simps]:
  assumes "LENGTH('a) \<le> 8 * n"
  shows "le_word (le_bytes n w) = (w :: 'a::len word)"
proof (rule bit_word_eqI)
  fix k assume "k < LENGTH('a)"
  moreover from this assms have "k div 8 < n" by simp
  moreover have "k div 8 * 8 + k mod 8 = k" by simp
  ultimately show "bit (le_word (le_bytes n w) :: 'a word) k = bit w k"
    by (simp add: bit_le_word le_bytes_def bit_ucast_iff bit_drop_bit_eq mult.commute)
qed

lemma le_bytes_le_word [wire_simps]:
  assumes "length bs = n" "8 * n \<le> LENGTH('a)"
  shows "le_bytes n (le_word bs :: 'a::len word) = bs"
proof (rule nth_equalityI)
  fix i assume "i < length (le_bytes n (le_word bs :: 'a word))"
  then have i: "i < n" by simp
  show "le_bytes n (le_word bs :: 'a word) ! i = bs ! i"
  proof (rule bit_word_eqI)
    fix j assume j: "j < LENGTH(8)"
    have "8 * i + j < 8 * n" using i j by simp
    then have "8 * i + j < LENGTH('a)" using assms(2) by linarith
    with i j show "bit (le_bytes n (le_word bs :: 'a word) ! i) j = bit (bs ! i) j"
      using assms by (simp add: le_bytes_def bit_ucast_iff bit_drop_bit_eq bit_le_word)
  qed
qed (use assms in simp)

lemma htons_htons [simp]: "htons (htons w) = w"
  by (simp add: htons_def wire_simps)

lemma htonl_htonl [simp]: "htonl (htonl w) = w"
  by (simp add: htonl_def wire_simps)

lemma htons_eq_iff [simp]: "htons x = htons y \<longleftrightarrow> x = y"
  by (metis htons_htons)

lemma htonl_eq_iff [simp]: "htonl x = htonl y \<longleftrightarrow> x = y"
  by (metis htonl_htonl)

text \<open>Reading \<open>n\<close> bytes at an offset; \<open>None\<close> is a read past the end of the buffer.\<close>

definition read_bytes :: "u8 list \<Rightarrow> nat \<Rightarrow> nat \<Rightarrow> u8 list option" where
  "read_bytes bs off n = (if off + n \<le> length bs then Some (take n (drop off bs)) else None)"

text \<open>The loop \<^verbatim>\<open>for (i = 0; i < n; i++) id >>= 1\<close> by which the drivers cut an identifier out.\<close>

fun shift_loop :: "nat \<Rightarrow> u64 \<Rightarrow> u64" where
  "shift_loop 0 i = i"
| "shift_loop (Suc n) i = shift_loop n (drop_bit 1 i)"

lemma shift_loop_drop: "shift_loop n i = drop_bit n i"
  by (induction n arbitrary: i) (simp_all add: drop_bit_drop_bit)

section \<open>Slots\<close>

text \<open>The loop \<^verbatim>\<open>for (n = 0; n < MAX; n++) if (a[n] == x)\<close> over a fixed array: the first index
  that holds \<open>x\<close>.\<close>

fun first_slot :: "'a \<Rightarrow> 'a list \<Rightarrow> nat option" where
  "first_slot x [] = None"
| "first_slot x (y # ys) = (if y = x then Some 0 else map_option Suc (first_slot x ys))"

lemma first_slot_None [slot_simps]: "first_slot x ys = None \<longleftrightarrow> x \<notin> set ys"
  by (induction ys) auto

lemma first_slot_Some:
  "first_slot x ys = Some n \<longleftrightarrow> n < length ys \<and> ys ! n = x \<and> (\<forall>i < n. ys ! i \<noteq> x)"
proof (induction ys arbitrary: n)
  case (Cons y ys)
  then show ?case by (cases n) (auto simp: less_Suc_eq_0_disj)
qed simp

lemma first_slot_in: "x \<in> set ys \<Longrightarrow> \<exists>n. first_slot x ys = Some n"
  by (metis first_slot_None not_None_eq)

lemma first_slot_mem: "first_slot x ys = Some n \<Longrightarrow> x \<in> set ys"
  by (auto simp: first_slot_Some)

text \<open>Slots hold optional values; the occupied ones are pairwise different.\<close>

definition slots_distinct :: "'a option list \<Rightarrow> bool" where
  "slots_distinct ys \<longleftrightarrow> (\<forall>i < length ys. \<forall>j < length ys. ys ! i = ys ! j \<and> ys ! i \<noteq> None \<longrightarrow> i = j)"

lemma slots_distinct_replicate [slot_simps]: "slots_distinct (replicate n None)"
  by (simp add: slots_distinct_def)

lemma slots_distinct_store:
  assumes "slots_distinct ys" "v \<noteq> None \<longrightarrow> v \<notin> set ys"
  shows "slots_distinct (ys[n := v])"
proof (cases "n < length ys")
  case True
  have new: "ys ! i \<noteq> v" if "i < length ys" "v \<noteq> None" for i using that assms(2) nth_mem by blast
  show ?thesis
    unfolding slots_distinct_def length_list_update
  proof (intro allI impI)
    fix i j assume "i < length ys" "j < length ys"
      and "ys[n := v] ! i = ys[n := v] ! j \<and> ys[n := v] ! i \<noteq> None"
    then show "i = j"
      using True new [of i] new [of j] assms(1) by (cases "i = n"; cases "j = n") (auto simp: slots_distinct_def)
  qed
qed (use assms in \<open>simp add: linorder_not_less list_update_beyond\<close>)

lemmas slots_distinct_clear = slots_distinct_store [where v = None, simplified]

lemma slots_clear_gone:
  "slots_distinct ys \<Longrightarrow> n < length ys \<Longrightarrow> ys ! n = Some x \<Longrightarrow> Some x \<notin> set (ys[n := None])"
  by (auto simp: slots_distinct_def in_set_conv_nth nth_list_update split: if_splits)

lemma set_store: "n < length ys \<Longrightarrow> x \<in> set (ys[n := x])"
  by (metis nth_list_update_eq length_list_update nth_mem)

section \<open>Decimal numbers\<close>

text \<open>\<^verbatim>\<open>%u\<close> and \<^verbatim>\<open>%llu\<close>\<close>

fun dec :: "nat \<Rightarrow> string" where
  "dec n = (if n < 10 then [char_of (48 + n)] else dec (n div 10) @ [char_of (48 + n mod 10)])"

declare dec.simps [simp del]

lemma dec_length: "n < 10 ^ Suc k \<Longrightarrow> length (dec n) \<le> Suc k"
proof (induction k arbitrary: n)
  case 0
  then show ?case by (subst dec.simps) simp
next
  case (Suc k)
  then have "n div 10 < 10 ^ Suc k" by (simp add: div_less_iff_less_mult mult.commute)
  from Suc.IH [OF this] show ?case by (subst dec.simps) simp
qed

end
