(* ===== verification/Madcap_Obj.thy ===== *)
theory Madcap_Obj
  imports Madcap_Prelude
begin

text \<open>
  The objects of \<^verbatim>\<open>include/madcap.h\<close> that the user-space tool, the madcap core and the
  drivers exchange: the configuration of a locator-lookup table, one entry of it, and the
  UDP encapsulation parameters, with their layout in memory (they travel as raw bytes in
  netlink attributes). Padding is zero: the tool clears the objects before it fills them.
\<close>

section \<open>Objects\<close>

abbreviation (input) MADCAP_OBJ_ID_UNDEFINED :: u32 where "MADCAP_OBJ_ID_UNDEFINED \<equiv> 0"
abbreviation (input) MADCAP_OBJ_ID_LLT_CONFIG :: u32 where "MADCAP_OBJ_ID_LLT_CONFIG \<equiv> 1"
abbreviation (input) MADCAP_OBJ_ID_LLT_ENTRY :: u32 where "MADCAP_OBJ_ID_LLT_ENTRY \<equiv> 2"
abbreviation (input) MADCAP_OBJ_ID_UDP :: u32 where "MADCAP_OBJ_ID_UDP \<equiv> 3"

record madcap_obj =
  obj_id :: u32
  tb_id :: u16

record madcap_obj_config =
  oc_obj :: madcap_obj
  oc_offset :: u16
  oc_length :: u16
  oc_proto :: u8
  oc_src :: u32

record madcap_obj_entry =
  oe_obj :: madcap_obj
  oe_id :: u64
  oe_dst :: u32

record madcap_obj_udp =
  ou_obj :: madcap_obj
  encap_enable :: u32
  src_hash_enable :: u32
  dst_port :: u16
  src_port :: u16

text \<open>What a \<^verbatim>\<open>struct madcap_obj *\<close> points into.\<close>

datatype any_obj = Config madcap_obj_config | Entry madcap_obj_entry | Udp madcap_obj_udp

fun hdr_of :: "any_obj \<Rightarrow> madcap_obj" where
  "hdr_of (Config oc) = oc_obj oc"
| "hdr_of (Entry oe) = oe_obj oe"
| "hdr_of (Udp ou) = ou_obj ou"

section \<open>Layout\<close>

definition enc_obj :: "madcap_obj \<Rightarrow> u8 list" where
  "enc_obj ob = le_bytes 4 (obj_id ob) @ le_bytes 2 (tb_id ob) @ [0, 0]"

definition enc_config :: "madcap_obj_config \<Rightarrow> u8 list" where
  "enc_config oc = enc_obj (oc_obj oc) @ le_bytes 2 (oc_offset oc) @ le_bytes 2 (oc_length oc) @
     [oc_proto oc, 0, 0, 0] @ le_bytes 4 (oc_src oc)"

definition enc_entry :: "madcap_obj_entry \<Rightarrow> u8 list" where
  "enc_entry oe = enc_obj (oe_obj oe) @ le_bytes 8 (oe_id oe) @ le_bytes 4 (oe_dst oe) @ [0, 0, 0, 0]"

definition enc_udp :: "madcap_obj_udp \<Rightarrow> u8 list" where
  "enc_udp ou = enc_obj (ou_obj ou) @ le_bytes 4 (encap_enable ou) @ le_bytes 4 (src_hash_enable ou) @
     le_bytes 2 (dst_port ou) @ le_bytes 2 (src_port ou)"

text \<open>A field of \<open>n\<close> bytes at offset \<open>off\<close>.\<close>

definition field :: "u8 list \<Rightarrow> nat \<Rightarrow> nat \<Rightarrow> 'a::len word" where
  "field bs off n = le_word (take n (drop off bs))"

definition dec_obj :: "u8 list \<Rightarrow> madcap_obj" where
  "dec_obj bs = \<lparr>obj_id = field bs 0 4, tb_id = field bs 4 2\<rparr>"

definition dec_config :: "u8 list \<Rightarrow> madcap_obj_config" where
  "dec_config bs = \<lparr>oc_obj = dec_obj bs, oc_offset = field bs 8 2, oc_length = field bs 10 2,
     oc_proto = field bs 12 1, oc_src = field bs 16 4\<rparr>"

definition dec_entry :: "u8 list \<Rightarrow> madcap_obj_entry" where
  "dec_entry bs = \<lparr>oe_obj = dec_obj bs, oe_id = field bs 8 8, oe_dst = field bs 16 4\<rparr>"

definition dec_udp :: "u8 list \<Rightarrow> madcap_obj_udp" where
  "dec_udp bs = \<lparr>ou_obj = dec_obj bs, encap_enable = field bs 8 4, src_hash_enable = field bs 12 4,
     dst_port = field bs 16 2, src_port = field bs 18 2\<rparr>"

abbreviation (input) sizeof_config :: nat where "sizeof_config \<equiv> 20"
abbreviation (input) sizeof_entry :: nat where "sizeof_entry \<equiv> 24"
abbreviation (input) sizeof_udp :: nat where "sizeof_udp \<equiv> 20"

fun sizeof_obj :: "any_obj \<Rightarrow> nat" where
  "sizeof_obj (Config oc) = sizeof_config"
| "sizeof_obj (Entry oe) = sizeof_entry"
| "sizeof_obj (Udp ou) = sizeof_udp"

text \<open>An object cleared with \<^verbatim>\<open>memset\<close>.\<close>

definition zero_config :: madcap_obj_config where
  "zero_config = dec_config (replicate sizeof_config 0)"

definition zero_udp :: madcap_obj_udp where
  "zero_udp = dec_udp (replicate sizeof_udp 0)"

section \<open>Round trips\<close>

lemma le_word_one [wire_simps]: "le_word [b] = (b :: u8)"
  by (simp add: bit_eq_iff)

lemma length_enc [simp]:
  "length (enc_obj ob) = 8" "length (enc_config oc) = 20" "length (enc_entry oe) = 24" "length (enc_udp ou) = 20"
  by (simp_all add: enc_obj_def enc_config_def enc_entry_def enc_udp_def)

lemma dec_enc_obj [wire_simps]: "dec_obj (enc_obj ob @ bs) = ob"
  by (simp add: dec_obj_def enc_obj_def field_def wire_simps)

lemma dec_enc_config [simp]: "dec_config (enc_config oc) = oc"
  by (simp add: dec_config_def enc_config_def wire_simps) (simp add: field_def enc_obj_def wire_simps)

lemma dec_enc_entry [simp]: "dec_entry (enc_entry oe) = oe"
  by (simp add: dec_entry_def enc_entry_def wire_simps) (simp add: field_def enc_obj_def wire_simps)

lemma dec_enc_udp [simp]: "dec_udp (enc_udp ou) = ou"
  by (simp add: dec_udp_def enc_udp_def wire_simps) (simp add: field_def enc_obj_def wire_simps)

lemma zero_objs [simp]: "obj_id (oc_obj zero_config) = 0" "obj_id (ou_obj zero_udp) = 0"
  by (simp_all add: zero_config_def zero_udp_def dec_config_def dec_udp_def dec_obj_def field_def
      numeral_nat replicate_Suc [symmetric])

end
