(* ===== verification/Madcap_Core.thy ===== *)
theory Madcap_Core
  imports Madcap_Obj "HOL-Library.Multiset"
begin

text \<open>
  \<^verbatim>\<open>madcap/madcap.c\<close>: the registry that maps a network device to the madcap operations its
  driver provides, the dispatch of every madcap call through it, and the generic netlink
  family by which user space configures and dumps the drivers' tables.

  The state of the drivers is a type variable \<open>'w\<close>: an operation takes it and returns it
  changed. The services of the kernel (looking a device up by index, room in a netlink
  message) are the fields of \<open>genl_env\<close>. One network namespace is modelled; its
  \<^verbatim>\<open>rwlock\<close> is not, each function is one step.
\<close>

section \<open>Operations and registry\<close>

record 'w madcap_ops =
  mco_acquire_dev :: "(addr \<Rightarrow> addr \<Rightarrow> 'w \<Rightarrow> int \<times> 'w) option"
  mco_release_dev :: "(addr \<Rightarrow> addr \<Rightarrow> 'w \<Rightarrow> int \<times> 'w) option"
  mco_llt_cfg :: "(addr \<Rightarrow> madcap_obj_config \<Rightarrow> 'w \<Rightarrow> int \<times> 'w) option"
  mco_llt_entry_add :: "(addr \<Rightarrow> madcap_obj_entry \<Rightarrow> 'w \<Rightarrow> int \<times> 'w) option"
  mco_llt_entry_del :: "(addr \<Rightarrow> madcap_obj_entry \<Rightarrow> 'w \<Rightarrow> int \<times> 'w) option"
  mco_udp_cfg :: "(addr \<Rightarrow> madcap_obj_udp \<Rightarrow> 'w \<Rightarrow> int \<times> 'w) option"
  mco_llt_entry_dump :: "(addr \<Rightarrow> nat \<Rightarrow> 'w \<Rightarrow> madcap_obj_entry option \<times> nat) option"
  mco_llt_config_get :: "(addr \<Rightarrow> 'w \<Rightarrow> madcap_obj_config option) option"
  mco_udp_config_get :: "(addr \<Rightarrow> 'w \<Rightarrow> madcap_obj_udp option) option"

abbreviation (input) MADCAPDEV_PERNET_NUM :: nat where "MADCAPDEV_PERNET_NUM \<equiv> 16"

text \<open>\<open>kept_dst\<close> are the devices \<^verbatim>\<open>netif_keep_dst\<close> was called for.\<close>

record 'w madcap_net =
  net_ops :: "'w madcap_ops option list"
  net_dev :: "ptr list"
  kept_dst :: "addr set"

definition madcap_init_net :: "'w madcap_net" where
  "madcap_init_net = \<lparr>net_ops = replicate MADCAPDEV_PERNET_NUM None,
     net_dev = replicate MADCAPDEV_PERNET_NUM None, kept_dst = {}\<rparr>"

definition get_madcap_ops :: "'w madcap_net \<Rightarrow> addr \<Rightarrow> 'w madcap_ops option" where
  "get_madcap_ops net d =
     (case first_slot (Some d) (net_dev net) of Some n \<Rightarrow> net_ops net ! n | None \<Rightarrow> None)"

definition madcap_register_device ::
  "'w madcap_net \<Rightarrow> addr \<Rightarrow> 'w madcap_ops \<Rightarrow> int \<times> 'w madcap_net" where
  "madcap_register_device net d mc_ops =
     (if get_madcap_ops net d \<noteq> None then (- EEXIST, net)
      else let net = net\<lparr>kept_dst := insert d (kept_dst net)\<rparr> in
        (case first_slot None (net_dev net) of
           Some n \<Rightarrow> (0, net\<lparr>net_ops := (net_ops net)[n := Some mc_ops], net_dev := (net_dev net)[n := Some d]\<rparr>)
         | None \<Rightarrow> (- ENOMEM, net)))"

text \<open>The loop of \<^verbatim>\<open>madcap_unregister_device\<close> has no \<^verbatim>\<open>break\<close>; it returns its counter.\<close>

function unregister_loop :: "addr \<Rightarrow> nat \<Rightarrow> 'w madcap_net \<Rightarrow> nat \<times> 'w madcap_net" where
  "unregister_loop d n net =
     (if n < MADCAPDEV_PERNET_NUM then
        unregister_loop d (Suc n)
          (if net_dev net ! n = Some d
           then net\<lparr>net_dev := (net_dev net)[n := None], net_ops := (net_ops net)[n := None]\<rparr> else net)
      else (n, net))"
  by pat_completeness auto
termination
  by (relation "measure (\<lambda>(d, n, net). MADCAPDEV_PERNET_NUM - n)") auto

definition madcap_unregister_device :: "'w madcap_net \<Rightarrow> addr \<Rightarrow> int \<times> 'w madcap_net" where
  "madcap_unregister_device net d =
     (let (n, net) = unregister_loop d 0 net in
      if \<not> n < MADCAPDEV_PERNET_NUM then (- ENOENT, net) else (0, net))"

section \<open>Dispatch\<close>

text \<open>\<^verbatim>\<open>if (mc_ops && mc_ops->mco_f) return mc_ops->mco_f (...); return -EOPNOTSUPP;\<close>\<close>

definition dispatch :: "'w madcap_net \<Rightarrow> addr \<Rightarrow> ('w madcap_ops \<Rightarrow> 'f option) \<Rightarrow> 'f option" where
  "dispatch net d sel = (case get_madcap_ops net d of Some mc_ops \<Rightarrow> sel mc_ops | None \<Rightarrow> None)"

definition madcap_acquire_dev :: "'w madcap_net \<Rightarrow> addr \<Rightarrow> addr \<Rightarrow> 'w \<Rightarrow> int \<times> 'w" where
  "madcap_acquire_dev net d vdev w =
     (case dispatch net d mco_acquire_dev of Some f \<Rightarrow> f d vdev w | None \<Rightarrow> (- EOPNOTSUPP, w))"

definition madcap_release_dev :: "'w madcap_net \<Rightarrow> addr \<Rightarrow> addr \<Rightarrow> 'w \<Rightarrow> int \<times> 'w" where
  "madcap_release_dev net d vdev w =
     (case dispatch net d mco_release_dev of Some f \<Rightarrow> f d vdev w | None \<Rightarrow> (- EOPNOTSUPP, w))"

definition madcap_llt_cfg :: "'w madcap_net \<Rightarrow> addr \<Rightarrow> madcap_obj_config \<Rightarrow> 'w \<Rightarrow> int \<times> 'w" where
  "madcap_llt_cfg net d oc w =
     (case dispatch net d mco_llt_cfg of Some f \<Rightarrow> f d oc w | None \<Rightarrow> (- EOPNOTSUPP, w))"

definition madcap_llt_entry_add :: "'w madcap_net \<Rightarrow> addr \<Rightarrow> madcap_obj_entry \<Rightarrow> 'w \<Rightarrow> int \<times> 'w" where
  "madcap_llt_entry_add net d oe w =
     (case dispatch net d mco_llt_entry_add of Some f \<Rightarrow> f d oe w | None \<Rightarrow> (- EOPNOTSUPP, w))"

definition madcap_llt_entry_del :: "'w madcap_net \<Rightarrow> addr \<Rightarrow> madcap_obj_entry \<Rightarrow> 'w \<Rightarrow> int \<times> 'w" where
  "madcap_llt_entry_del net d oe w =
     (case dispatch net d mco_llt_entry_del of Some f \<Rightarrow> f d oe w | None \<Rightarrow> (- EOPNOTSUPP, w))"

definition madcap_udp_cfg :: "'w madcap_net \<Rightarrow> addr \<Rightarrow> madcap_obj_udp \<Rightarrow> 'w \<Rightarrow> int \<times> 'w" where
  "madcap_udp_cfg net d ou w =
     (case dispatch net d mco_udp_cfg of Some f \<Rightarrow> f d ou w | None \<Rightarrow> (- EOPNOTSUPP, w))"

definition madcap_llt_config_get :: "'w madcap_net \<Rightarrow> addr \<Rightarrow> 'w \<Rightarrow> madcap_obj_config option" where
  "madcap_llt_config_get net d w =
     (case dispatch net d mco_llt_config_get of Some f \<Rightarrow> f d w | None \<Rightarrow> None)"

definition madcap_udp_config_get :: "'w madcap_net \<Rightarrow> addr \<Rightarrow> 'w \<Rightarrow> madcap_obj_udp option" where
  "madcap_udp_config_get net d w =
     (case dispatch net d mco_udp_config_get of Some f \<Rightarrow> f d w | None \<Rightarrow> None)"

text \<open>The second component is \<^verbatim>\<open>cb->args[0]\<close>, which only the driver writes.\<close>

definition madcap_llt_entry_dump ::
  "'w madcap_net \<Rightarrow> addr \<Rightarrow> nat \<Rightarrow> 'w \<Rightarrow> madcap_obj_entry option \<times> nat" where
  "madcap_llt_entry_dump net d args0 w =
     (case dispatch net d mco_llt_entry_dump of Some f \<Rightarrow> f d args0 w | None \<Rightarrow> (None, args0))"

section \<open>The netlink family\<close>

abbreviation (input) MADCAP_ATTR_OBJ_CONFIG :: nat where "MADCAP_ATTR_OBJ_CONFIG \<equiv> 2"
abbreviation (input) MADCAP_ATTR_OBJ_ENTRY :: nat where "MADCAP_ATTR_OBJ_ENTRY \<equiv> 3"
abbreviation (input) MADCAP_ATTR_OBJ_UDP :: nat where "MADCAP_ATTR_OBJ_UDP \<equiv> 4"
abbreviation (input) MADCAP_CMD_LLT_CONFIG_GET :: nat where "MADCAP_CMD_LLT_CONFIG_GET \<equiv> 1"
abbreviation (input) MADCAP_CMD_LLT_ENTRY_GET :: nat where "MADCAP_CMD_LLT_ENTRY_GET \<equiv> 4"
abbreviation (input) MADCAP_CMD_UDP_CONFIG_GET :: nat where "MADCAP_CMD_UDP_CONFIG_GET \<equiv> 6"

text \<open>Parsed attributes of a request, and a reply: \<open>gm_len\<close> bytes from the object.\<close>

record genl_attrs =
  at_ifindex :: "u32 option"
  at_config :: "u8 list option"
  at_entry :: "u8 list option"
  at_udp :: "u8 list option"

record genl_msg =
  gm_cmd :: nat
  gm_attr :: nat
  gm_len :: nat
  gm_obj :: any_obj
  gm_ifindex :: "u32 option"

record nlskb =
  nl_len :: nat
  nl_msgs :: "genl_msg list"

record genl_env =
  dev_get_by_index :: "u32 \<Rightarrow> addr option"
  dev_ifindex :: "addr \<Rightarrow> u32"
  hdr_fits :: "nlskb \<Rightarrow> bool"
  attr_fits :: "nlskb \<Rightarrow> nat \<Rightarrow> bool"
  msg_bytes :: "genl_msg \<Rightarrow> nat"

text \<open>\<^verbatim>\<open>nla_memcpy\<close>: a short attribute leaves the rest of the destination as it was.\<close>

definition nla_memcpy :: "u8 list \<Rightarrow> u8 list \<Rightarrow> u8 list" where
  "nla_memcpy dst src = take (length dst) src @ drop (length src) dst"

definition genl_madcap_obj_send ::
  "genl_env \<Rightarrow> nlskb \<Rightarrow> nat \<Rightarrow> any_obj \<Rightarrow> u32 \<Rightarrow> int \<times> nlskb" where
  "genl_madcap_obj_send env skb cmd ob ifindex =
     (if \<not> hdr_fits env skb then (- EMSGSIZE, skb)
      else
        (let sel = (if obj_id (hdr_of ob) = MADCAP_OBJ_ID_LLT_CONFIG then Some (sizeof_config, MADCAP_ATTR_OBJ_CONFIG)
                    else if obj_id (hdr_of ob) = MADCAP_OBJ_ID_LLT_ENTRY then Some (sizeof_entry, MADCAP_ATTR_OBJ_ENTRY)
                    else if obj_id (hdr_of ob) = MADCAP_OBJ_ID_UDP then Some (sizeof_udp, MADCAP_ATTR_OBJ_UDP)
                    else None) in
         case sel of
           None \<Rightarrow> (- 1, skb)
         | Some (len, attr) \<Rightarrow>
             if \<not> attr_fits env skb len then (- 1, skb)
             else if ifindex \<noteq> 0 \<and> \<not> attr_fits env skb (len + 4) then (- 1, skb)
             else let m = \<lparr>gm_cmd = cmd, gm_attr = attr, gm_len = len, gm_obj = ob,
                           gm_ifindex = (if ifindex \<noteq> 0 then Some ifindex else None)\<rparr> in
                  (0, skb\<lparr>nl_len := nl_len skb + msg_bytes env m, nl_msgs := nl_msgs skb @ [m]\<rparr>)))"

text \<open>The requests. \<open>stk\<close> is what the local object holds before the attribute is copied in;
  only \<^verbatim>\<open>madcap_nl_cmd_llt_config\<close> clears it.\<close>

definition nl_target :: "genl_env \<Rightarrow> genl_attrs \<Rightarrow> int + addr" where
  "nl_target env attrs =
     (case at_ifindex attrs of
        None \<Rightarrow> Inl (- EINVAL)
      | Some ifindex \<Rightarrow> (case dev_get_by_index env ifindex of None \<Rightarrow> Inl (- ENODEV) | Some d \<Rightarrow> Inr d))"

definition madcap_nl_cmd_llt_config ::
  "genl_env \<Rightarrow> 'w madcap_net \<Rightarrow> genl_attrs \<Rightarrow> 'w \<Rightarrow> int \<times> 'w" where
  "madcap_nl_cmd_llt_config env net attrs w =
     (case nl_target env attrs of
        Inl e \<Rightarrow> (e, w)
      | Inr d \<Rightarrow> (case at_config attrs of
          None \<Rightarrow> (- EINVAL, w)
        | Some bs \<Rightarrow> madcap_llt_cfg net d (dec_config (nla_memcpy (replicate sizeof_config 0) bs)) w))"

definition madcap_nl_cmd_llt_entry_add ::
  "genl_env \<Rightarrow> u8 list \<Rightarrow> 'w madcap_net \<Rightarrow> genl_attrs \<Rightarrow> 'w \<Rightarrow> int \<times> 'w" where
  "madcap_nl_cmd_llt_entry_add env stk net attrs w =
     (case nl_target env attrs of
        Inl e \<Rightarrow> (e, w)
      | Inr d \<Rightarrow> (case at_entry attrs of
          None \<Rightarrow> (- EINVAL, w)
        | Some bs \<Rightarrow> madcap_llt_entry_add net d (dec_entry (nla_memcpy stk bs)) w))"

definition madcap_nl_cmd_llt_entry_del ::
  "genl_env \<Rightarrow> u8 list \<Rightarrow> 'w madcap_net \<Rightarrow> genl_attrs \<Rightarrow> 'w \<Rightarrow> int \<times> 'w" where
  "madcap_nl_cmd_llt_entry_del env stk net attrs w =
     (case nl_target env attrs of
        Inl e \<Rightarrow> (e, w)
      | Inr d \<Rightarrow> (case at_entry attrs of
          None \<Rightarrow> (- EINVAL, w)
        | Some bs \<Rightarrow> madcap_llt_entry_del net d (dec_entry (nla_memcpy stk bs)) w))"

definition madcap_nl_cmd_udp_config ::
  "genl_env \<Rightarrow> u8 list \<Rightarrow> 'w madcap_net \<Rightarrow> genl_attrs \<Rightarrow> 'w \<Rightarrow> int \<times> 'w" where
  "madcap_nl_cmd_udp_config env stk net attrs w =
     (case nl_target env attrs of
        Inl e \<Rightarrow> (e, w)
      | Inr d \<Rightarrow> (case at_udp attrs of
          None \<Rightarrow> (- EINVAL, w)
        | Some bs \<Rightarrow> madcap_udp_cfg net d (dec_udp (nla_memcpy stk bs)) w))"

text \<open>The scan over the slots that both configuration dumps make: skip empty slots and other
  devices, count past the ones already sent, and read the object of the next.\<close>

fun config_scan ::
  "genl_env \<Rightarrow> (addr \<Rightarrow> 'o option) \<Rightarrow> nat \<Rightarrow> u32 \<Rightarrow> nat \<Rightarrow> (ptr \<times> 'w madcap_ops option) list
     \<Rightarrow> 'o option \<times> u32 \<times> nat" where
  "config_scan env get idx ifindex cnt [] = (None, ifindex, cnt)"
| "config_scan env get idx ifindex cnt ((dp, mc_ops) # rest) =
     (case dp of
        None \<Rightarrow> config_scan env get idx ifindex cnt rest
      | Some d \<Rightarrow>
          if mc_ops = None \<or> ifindex \<noteq> 0 \<and> dev_ifindex env d \<noteq> ifindex
          then config_scan env get idx ifindex cnt rest
          else if idx > cnt then config_scan env get idx ifindex (Suc cnt) rest
          else (get d, dev_ifindex env d, cnt))"

abbreviation slots :: "'w madcap_net \<Rightarrow> (ptr \<times> 'w madcap_ops option) list" where
  "slots net \<equiv> zip (net_dev net) (net_ops net)"

text \<open>A dump step takes \<^verbatim>\<open>cb->args\<close> and the message under construction; \<open>None\<close> for the
  attributes is a request that does not parse. The result is the return value, the new
  \<^verbatim>\<open>cb->args[0]\<close> and the message.\<close>

definition madcap_nl_cmd_llt_config_dump ::
  "genl_env \<Rightarrow> 'w madcap_net \<Rightarrow> genl_attrs option \<Rightarrow> nat \<Rightarrow> nlskb \<Rightarrow> 'w \<Rightarrow> int \<times> nat \<times> nlskb" where
  "madcap_nl_cmd_llt_config_dump env net attrs idx skb w =
     (case attrs of
        None \<Rightarrow> (- 1, idx, skb)
      | Some at \<Rightarrow>
          let (ob, ifindex, cnt) = config_scan env (\<lambda>d. madcap_llt_config_get net d w) idx
                 (case at_ifindex at of Some i \<Rightarrow> i | None \<Rightarrow> 0) 0 (slots net) in
          case ob of
            None \<Rightarrow> (int (nl_len skb), Suc cnt, skb)
          | Some oc \<Rightarrow>
              let (rc, skb) = genl_madcap_obj_send env skb MADCAP_CMD_LLT_CONFIG_GET (Config oc) ifindex in
              if rc < 0 then (rc, idx, skb) else (int (nl_len skb), Suc cnt, skb))"

definition madcap_nl_cmd_udp_config_dump ::
  "genl_env \<Rightarrow> 'w madcap_net \<Rightarrow> genl_attrs option \<Rightarrow> nat \<Rightarrow> nlskb \<Rightarrow> 'w \<Rightarrow> int \<times> nat \<times> nlskb" where
  "madcap_nl_cmd_udp_config_dump env net attrs idx skb w =
     (case attrs of
        None \<Rightarrow> (- 1, idx, skb)
      | Some at \<Rightarrow>
          let (ob, ifindex, cnt) = config_scan env (\<lambda>d. madcap_udp_config_get net d w) idx
                 (case at_ifindex at of Some i \<Rightarrow> i | None \<Rightarrow> 0) 0 (slots net) in
          case ob of
            None \<Rightarrow> (int (nl_len skb), Suc cnt, skb)
          | Some ou \<Rightarrow>
              let (rc, skb) = genl_madcap_obj_send env skb MADCAP_CMD_UDP_CONFIG_GET (Udp ou) ifindex in
              if rc < 0 then (- 1, idx, skb) else (int (nl_len skb), Suc cnt, skb))"

text \<open>The scan of \<^verbatim>\<open>madcap_nl_cmd_llt_entry_dump\<close>. When a device has no more entries the code
  sets \<^verbatim>\<open>n = -1\<close> and starts over with the next device; \<open>None\<close> would be an endless loop.\<close>

partial_function (option) entry_scan ::
  "genl_env \<Rightarrow> 'w madcap_net \<Rightarrow> 'w \<Rightarrow> u32 \<Rightarrow> nat \<Rightarrow> nat \<Rightarrow> nat \<Rightarrow> nat \<Rightarrow> nat
     \<Rightarrow> ((madcap_obj_entry \<times> u32) option \<times> nat \<times> nat) option" where
  "entry_scan env net w ifindex n cnt idx args0 args1 =
     (if n < MADCAPDEV_PERNET_NUM then
        (case net_dev net ! n of
           None \<Rightarrow> entry_scan env net w ifindex (Suc n) cnt idx args0 args1
         | Some d \<Rightarrow>
             if net_ops net ! n = None \<or> ifindex \<noteq> 0 \<and> dev_ifindex env d \<noteq> ifindex
             then entry_scan env net w ifindex (Suc n) cnt idx args0 args1
             else if idx > cnt then entry_scan env net w ifindex (Suc n) (Suc cnt) idx args0 args1
             else (case madcap_llt_entry_dump net d args0 w of
                 (None, _) \<Rightarrow> entry_scan env net w ifindex 0 0 (Suc idx) 0 (Suc idx)
               | (Some oe, a) \<Rightarrow> Some (Some (oe, dev_ifindex env d), a, args1)))
      else Some (None, args0, args1))"

definition madcap_nl_cmd_llt_entry_dump ::
  "genl_env \<Rightarrow> 'w madcap_net \<Rightarrow> genl_attrs option \<Rightarrow> nat \<Rightarrow> nat \<Rightarrow> nlskb \<Rightarrow> 'w
     \<Rightarrow> (int \<times> nat \<times> nat \<times> nlskb) option" where
  "madcap_nl_cmd_llt_entry_dump env net attrs args0 args1 skb w =
     (case attrs of
        None \<Rightarrow> Some (0, args0, args1, skb)
      | Some at \<Rightarrow> do {
          (found, a0, a1) \<leftarrow> entry_scan env net w (case at_ifindex at of Some i \<Rightarrow> i | None \<Rightarrow> 0) 0 0 args1 args0 args1;
          (case found of
             None \<Rightarrow> Some (int (nl_len skb), a0, a1, skb)
           | Some (oe, ifindex) \<Rightarrow>
               let (rc, skb) = genl_madcap_obj_send env skb MADCAP_CMD_LLT_ENTRY_GET (Entry oe) ifindex in
               if rc < 0 then Some (- 1, a0, a1, skb) else Some (int (nl_len skb), a0, a1, skb)) })"

section \<open>Command table and module\<close>

text \<open>The commands of \<^verbatim>\<open>madcap_nl_ops\<close> with a \<^verbatim>\<open>doit\<close> handler; generic netlink refuses a request for any
  other command. \<open>stk n\<close> is what an object of \<open>n\<close> bytes on the handler's stack holds.\<close>

abbreviation (input) MADCAP_CMD_LLT_CONFIG :: nat where "MADCAP_CMD_LLT_CONFIG \<equiv> 0"
abbreviation (input) MADCAP_CMD_LLT_ENTRY_ADD :: nat where "MADCAP_CMD_LLT_ENTRY_ADD \<equiv> 2"
abbreviation (input) MADCAP_CMD_LLT_ENTRY_DEL :: nat where "MADCAP_CMD_LLT_ENTRY_DEL \<equiv> 3"
abbreviation (input) MADCAP_CMD_UDP_CONFIG :: nat where "MADCAP_CMD_UDP_CONFIG \<equiv> 5"

definition madcap_nl_doit ::
  "genl_env \<Rightarrow> (nat \<Rightarrow> u8 list) \<Rightarrow> 'w madcap_net \<Rightarrow> nat \<Rightarrow> genl_attrs \<Rightarrow> 'w \<Rightarrow> int \<times> 'w" where
  "madcap_nl_doit env stk net cmd attrs w =
     (if cmd = MADCAP_CMD_LLT_CONFIG then madcap_nl_cmd_llt_config env net attrs w
      else if cmd = MADCAP_CMD_LLT_ENTRY_ADD then madcap_nl_cmd_llt_entry_add env (stk sizeof_entry) net attrs w
      else if cmd = MADCAP_CMD_LLT_ENTRY_DEL then madcap_nl_cmd_llt_entry_del env (stk sizeof_entry) net attrs w
      else if cmd = MADCAP_CMD_UDP_CONFIG then madcap_nl_cmd_udp_config env (stk sizeof_udp) net attrs w
      else (- EOPNOTSUPP, w))"

text \<open>The commands with a \<^verbatim>\<open>dumpit\<close> handler, on both elements of \<^verbatim>\<open>cb->args\<close>; the configuration dumps use
  only the first.\<close>

definition madcap_nl_dumpit ::
  "genl_env \<Rightarrow> 'w madcap_net \<Rightarrow> nat \<Rightarrow> genl_attrs option \<Rightarrow> 'w \<Rightarrow> nat \<Rightarrow> nat \<Rightarrow> nlskb
     \<Rightarrow> (int \<times> nat \<times> nat \<times> nlskb) option" where
  "madcap_nl_dumpit env net cmd attrs w args0 args1 skb =
     (if cmd = MADCAP_CMD_LLT_CONFIG_GET then
        (case madcap_nl_cmd_llt_config_dump env net attrs args0 skb w of (rc, a, skb) \<Rightarrow> Some (rc, a, args1, skb))
      else if cmd = MADCAP_CMD_LLT_ENTRY_GET then madcap_nl_cmd_llt_entry_dump env net attrs args0 args1 skb w
      else if cmd = MADCAP_CMD_UDP_CONFIG_GET then
        (case madcap_nl_cmd_udp_config_dump env net attrs args0 skb w of (rc, a, skb) \<Rightarrow> Some (rc, a, args1, skb))
      else Some (- EOPNOTSUPP, args0, args1, skb))"

text \<open>What the module has registered, given the results of the two registrations.\<close>

record madcap_module =
  netns_registered :: bool
  family_registered :: bool

definition madcap_init_module :: "int \<Rightarrow> int \<Rightarrow> madcap_module \<Rightarrow> int \<times> madcap_module" where
  "madcap_init_module pernet_rc genl_rc m =
     (if pernet_rc < 0 then (pernet_rc, m)
      else let m = m\<lparr>netns_registered := True\<rparr> in
      if genl_rc < 0 then (genl_rc, m\<lparr>netns_registered := False\<rparr>)
      else (0, m\<lparr>family_registered := True\<rparr>))"

definition madcap_exit_module :: "madcap_module \<Rightarrow> madcap_module" where
  "madcap_exit_module m = m\<lparr>family_registered := False, netns_registered := False\<rparr>"

end
