(* ===== verification/Madcap_Contract.thy ===== *)
theory Madcap_Contract
  imports Madcap_Core
begin

text \<open>
  What the madcap core promises. The registry is a partial map from devices to operations:
  \<open>get_madcap_ops\<close> reads it, registration adds one binding unless the device is bound or the
  sixteen slots are taken, unregistration removes one. The dumps enumerate the registered
  devices in slot order. The locale \<open>llt_driver\<close> is the contract a driver's table operations
  are held to; what the core's clients may conclude from it is proved inside the locale and
  obtained for each driver by interpreting it.
\<close>

section \<open>The registry as a map\<close>

definition madnet_wf :: "'w madcap_net \<Rightarrow> bool" where
  "madnet_wf net \<longleftrightarrow> length (net_ops net) = MADCAPDEV_PERNET_NUM \<and>
     length (net_dev net) = MADCAPDEV_PERNET_NUM \<and> slots_distinct (net_dev net) \<and>
     (\<forall>n < MADCAPDEV_PERNET_NUM. net_dev net ! n = None \<longleftrightarrow> net_ops net ! n = None)"

lemma madnet_wfD:
  assumes "madnet_wf net"
  shows "length (net_ops net) = MADCAPDEV_PERNET_NUM" "length (net_dev net) = MADCAPDEV_PERNET_NUM"
    "slots_distinct (net_dev net)"
    "n < MADCAPDEV_PERNET_NUM \<Longrightarrow> net_dev net ! n = None \<longleftrightarrow> net_ops net ! n = None"
  using assms by (auto simp: madnet_wf_def)

lemma get_madcap_ops_slot:
  assumes "madnet_wf net" "n < MADCAPDEV_PERNET_NUM" "net_dev net ! n = Some d"
  shows "get_madcap_ops net d = net_ops net ! n"
proof -
  have "first_slot (Some d) (net_dev net) = Some n"
    using assms(2,3) madnet_wfD(2,3) [OF assms(1)]
    unfolding first_slot_Some slots_distinct_def by (metis less_trans option.distinct(1) less_irrefl)
  then show ?thesis by (simp add: get_madcap_ops_def)
qed

lemma get_madcap_ops_absent: "Some d \<notin> set (net_dev net) \<Longrightarrow> get_madcap_ops net d = None"
  by (simp add: get_madcap_ops_def first_slot_None [THEN iffD2])

lemma get_madcap_ops_iff:
  assumes "madnet_wf net"
  shows "get_madcap_ops net d = Some mc_ops \<longleftrightarrow>
    (\<exists>n < MADCAPDEV_PERNET_NUM. net_dev net ! n = Some d \<and> net_ops net ! n = Some mc_ops)"
proof (cases "Some d \<in> set (net_dev net)")
  case True
  then obtain n where n: "n < MADCAPDEV_PERNET_NUM" "net_dev net ! n = Some d"
    using madnet_wfD(2) [OF assms] by (auto simp: in_set_conv_nth)
  then show ?thesis
    using get_madcap_ops_slot [OF assms] by metis
next
  case False
  then show ?thesis
    using madnet_wfD(2) [OF assms] get_madcap_ops_absent [OF False] by (metis nth_mem option.distinct(1))
qed

lemma get_madcap_ops_None:
  assumes "madnet_wf net"
  shows "get_madcap_ops net d = None \<longleftrightarrow> Some d \<notin> set (net_dev net)"
proof
  assume none: "get_madcap_ops net d = None"
  show "Some d \<notin> set (net_dev net)"
  proof
    assume "Some d \<in> set (net_dev net)"
    then obtain n where n: "n < MADCAPDEV_PERNET_NUM" "net_dev net ! n = Some d"
      using madnet_wfD(2) [OF assms] by (auto simp: in_set_conv_nth)
    with none get_madcap_ops_slot [OF assms n] madnet_wfD(4) [OF assms n(1)] show False by simp
  qed
qed (rule get_madcap_ops_absent)

lemma init_wf: "madnet_wf madcap_init_net"
  by (simp add: madnet_wf_def madcap_init_net_def slot_simps)

lemma store_wf:
  assumes "madnet_wf net" "get_madcap_ops net d = None" "n < MADCAPDEV_PERNET_NUM"
  shows "madnet_wf (net\<lparr>net_ops := (net_ops net)[n := Some mc_ops], net_dev := (net_dev net)[n := Some d], kept_dst := K\<rparr>)"
  using madnet_wfD [OF assms(1)] slots_distinct_store [of "net_dev net" "Some d" n]
    get_madcap_ops_None [OF assms(1)] assms(2,3)
  by (simp add: madnet_wf_def nth_list_update)

lemma register_spec:
  assumes wf: "madnet_wf net" and "madcap_register_device net d mc_ops = (rc, net')"
  shows "madnet_wf net' \<and>
    rc = (if get_madcap_ops net d \<noteq> None then - EEXIST
          else if None \<in> set (net_dev net) then 0 else - ENOMEM) \<and>
    (\<forall>e. get_madcap_ops net' e = (if rc = 0 \<and> e = d then Some mc_ops else get_madcap_ops net e))"
proof (cases "get_madcap_ops net d = None \<and> None \<in> set (net_dev net)")
  case True
  then obtain n where n: "first_slot None (net_dev net) = Some n" using first_slot_in by metis
  then have nn: "n < MADCAPDEV_PERNET_NUM" "net_dev net ! n = None"
    using madnet_wfD(2) [OF wf] by (auto simp: first_slot_Some)
  let ?net = "net\<lparr>net_ops := (net_ops net)[n := Some mc_ops], net_dev := (net_dev net)[n := Some d],
    kept_dst := insert d (kept_dst net)\<rparr>"
  have res: "rc = 0" "net' = ?net" using assms(2) True n by (auto simp: madcap_register_device_def Let_def)
  have wf': "madnet_wf ?net" using store_wf [OF wf _ nn(1)] True by simp
  have old: "net_ops net ! n = None" using madnet_wfD(4) [OF wf nn(1)] nn(2) by simp
  have new: "net_ops ?net ! i = (if i = n then Some mc_ops else net_ops net ! i)"
      "net_dev ?net ! i = (if i = n then Some d else net_dev net ! i)" if "i < MADCAPDEV_PERNET_NUM" for i
    using that madnet_wfD(1,2) [OF wf] nn(1) by (simp_all add: nth_list_update)
  have "get_madcap_ops ?net e = Some z \<longleftrightarrow> (if e = d then Some mc_ops else get_madcap_ops net e) = Some z" for e z
  proof (cases "e = d")
    case True
    then show ?thesis using get_madcap_ops_slot [OF wf' nn(1), of d] new [OF nn(1)] by auto
  next
    case False
    then show ?thesis
      unfolding get_madcap_ops_iff [OF wf'] using new old False nn
      by (simp add: get_madcap_ops_iff [OF wf] cong: conj_cong) (metis option.distinct(1))
  qed
  then have "get_madcap_ops ?net e = (if e = d then Some mc_ops else get_madcap_ops net e)" for e
    by (metis not_None_eq)
  with wf' res True show ?thesis by simp
next
  case False
  have "madnet_wf (net\<lparr>kept_dst := K\<rparr>)" "get_madcap_ops (net\<lparr>kept_dst := K\<rparr>) e = get_madcap_ops net e" for K e
    using wf by (simp_all add: madnet_wf_def get_madcap_ops_def split: option.split)
  with False assms show ?thesis
    by (auto simp: madcap_register_device_def Let_def split: if_splits option.splits dest: first_slot_mem)
qed

declare unregister_loop.simps [simp del]

lemma unregister_loop_spec:
  assumes "n \<le> MADCAPDEV_PERNET_NUM" "length (net_ops net) = MADCAPDEV_PERNET_NUM" "length (net_dev net) = MADCAPDEV_PERNET_NUM"
  shows "\<exists>net'. unregister_loop d n net = (MADCAPDEV_PERNET_NUM, net') \<and>
    length (net_ops net') = MADCAPDEV_PERNET_NUM \<and> length (net_dev net') = MADCAPDEV_PERNET_NUM \<and>
    (\<forall>i < MADCAPDEV_PERNET_NUM. net_dev net' ! i = (if n \<le> i \<and> net_dev net ! i = Some d then None else net_dev net ! i) \<and>
      net_ops net' ! i = (if n \<le> i \<and> net_dev net ! i = Some d then None else net_ops net ! i))"
  using assms
proof (induction "MADCAPDEV_PERNET_NUM - n" arbitrary: n net)
  case 0
  then have n: "n = MADCAPDEV_PERNET_NUM" by simp
  have "unregister_loop d n net = (n, net)" by (subst unregister_loop.simps) (simp add: n)
  then show ?case using 0 n by (intro exI [of _ net]) simp
next
  case (Suc k)
  then have n: "n < MADCAPDEV_PERNET_NUM" "k = MADCAPDEV_PERNET_NUM - Suc n" "Suc n \<le> MADCAPDEV_PERNET_NUM" by simp_all
  let ?m = "if net_dev net ! n = Some d
    then net\<lparr>net_dev := (net_dev net)[n := None], net_ops := (net_ops net)[n := None]\<rparr> else net"
  have step: "unregister_loop d n net = unregister_loop d (Suc n) ?m"
    using n(1) by (subst unregister_loop.simps) simp
  have len: "length (net_ops ?m) = MADCAPDEV_PERNET_NUM" "length (net_dev ?m) = MADCAPDEV_PERNET_NUM"
    using Suc.prems by simp_all
  have dev: "net_dev ?m ! i = (if i = n \<and> net_dev net ! n = Some d then None else net_dev net ! i)"
      "net_ops ?m ! i = (if i = n \<and> net_dev net ! n = Some d then None else net_ops net ! i)"
    if "i < MADCAPDEV_PERNET_NUM" for i
    using that Suc.prems by (auto simp: nth_list_update)
  obtain net' where net': "unregister_loop d (Suc n) ?m = (MADCAPDEV_PERNET_NUM, net')"
      "length (net_ops net') = MADCAPDEV_PERNET_NUM" "length (net_dev net') = MADCAPDEV_PERNET_NUM"
      "\<forall>i < MADCAPDEV_PERNET_NUM. net_dev net' ! i = (if Suc n \<le> i \<and> net_dev ?m ! i = Some d then None else net_dev ?m ! i) \<and>
        net_ops net' ! i = (if Suc n \<le> i \<and> net_dev ?m ! i = Some d then None else net_ops ?m ! i)"
    using Suc.hyps(1) [OF n(2,3) len] by blast
  have "net_dev net' ! i = (if n \<le> i \<and> net_dev net ! i = Some d then None else net_dev net ! i) \<and>
      net_ops net' ! i = (if n \<le> i \<and> net_dev net ! i = Some d then None else net_ops net ! i)"
    if "i < MADCAPDEV_PERNET_NUM" for i
    using net'(4) [rule_format, OF that] dev [OF that] by (auto simp: Suc_le_eq le_less split: if_splits)
  with net'(1-3) step show ?case by auto
qed

text \<open>Unregistering always reports that there was no such device, although it removes it.\<close>

lemma unregister_spec:
  assumes wf: "madnet_wf net" and "madcap_unregister_device net d = (rc, net')"
  shows "rc = - ENOENT \<and> madnet_wf net' \<and>
    (\<forall>e. get_madcap_ops net' e = (if e = d then None else get_madcap_ops net e))"
proof -
  note W = madnet_wfD [OF wf]
  obtain m where m: "unregister_loop d 0 net = (MADCAPDEV_PERNET_NUM, m)"
      "length (net_ops m) = MADCAPDEV_PERNET_NUM" "length (net_dev m) = MADCAPDEV_PERNET_NUM"
      and nth: "\<And>i. i < MADCAPDEV_PERNET_NUM \<Longrightarrow> net_dev m ! i = (if net_dev net ! i = Some d then None else net_dev net ! i)"
      "\<And>i. i < MADCAPDEV_PERNET_NUM \<Longrightarrow> net_ops m ! i = (if net_dev net ! i = Some d then None else net_ops net ! i)"
    using unregister_loop_spec [of 0 net d] W(1,2) by auto
  have res: "rc = - ENOENT" "net' = m" using assms(2) m(1) by (auto simp: madcap_unregister_device_def)
  have "slots_distinct (net_dev m)"
    unfolding slots_distinct_def m(3)
    using W(2,3) nth(1) by (auto simp: slots_distinct_def split: if_splits)
  then have wf': "madnet_wf m" using m(2,3) nth W(4) by (simp add: madnet_wf_def)
  have "get_madcap_ops m e = Some z \<longleftrightarrow> e \<noteq> d \<and> get_madcap_ops net e = Some z" for e z
    unfolding get_madcap_ops_iff [OF wf'] get_madcap_ops_iff [OF wf]
    using nth by (auto split: if_splits)
  then have "get_madcap_ops m e = (if e = d then None else get_madcap_ops net e)" for e
    by (metis not_None_eq)
  with res wf' show ?thesis by blast
qed

section \<open>Dumps\<close>

text \<open>The devices a dump visits, in slot order: those registered, or the one asked for.\<close>

fun dump_devs :: "genl_env \<Rightarrow> u32 \<Rightarrow> (ptr \<times> 'w madcap_ops option) list \<Rightarrow> addr list" where
  "dump_devs env ifindex [] = []"
| "dump_devs env ifindex ((dp, mc_ops) # rest) =
     (case dp of
        None \<Rightarrow> dump_devs env ifindex rest
      | Some d \<Rightarrow>
          if mc_ops = None \<or> ifindex \<noteq> 0 \<and> dev_ifindex env d \<noteq> ifindex then dump_devs env ifindex rest
          else d # dump_devs env ifindex rest)"

lemma config_scan_spec:
  "cnt \<le> idx \<Longrightarrow> config_scan env get idx ifindex cnt sl =
    (let ds = dump_devs env ifindex sl in
     if idx - cnt < length ds then (get (ds ! (idx - cnt)), dev_ifindex env (ds ! (idx - cnt)), idx)
     else (None, ifindex, cnt + length ds))"
proof (induction env get idx ifindex cnt sl rule: config_scan.induct)
  case (2 env get idx ifindex cnt dp mc_ops rest)
  show ?case
  proof (cases "dp = None \<or> mc_ops = None \<or> ifindex \<noteq> 0 \<and> dev_ifindex env (the dp) \<noteq> ifindex")
    case True
    with 2 show ?thesis by (auto split: option.split)
  next
    case False
    then obtain d where d: "dp = Some d" "mc_ops \<noteq> None" "ifindex = 0 \<or> dev_ifindex env d = ifindex" by auto
    show ?thesis
    proof (cases "cnt < idx")
      case True
      then have "idx - cnt = Suc (idx - Suc cnt)" by simp
      with True d 2 show ?thesis by (auto simp: Let_def)
    next
      case False
      with d "2.prems" show ?thesis by auto
    qed
  qed
qed simp

text \<open>The entry dump on the list of the devices it visits: leave a device when its driver has
  no more entries, and start the next one at index 0.\<close>

fun entry_walk ::
  "(addr \<Rightarrow> nat \<Rightarrow> madcap_obj_entry option \<times> nat) \<Rightarrow> addr list \<Rightarrow> nat \<Rightarrow> nat
     \<Rightarrow> (madcap_obj_entry \<times> addr) option \<times> nat \<times> nat" where
  "entry_walk f [] i a = (None, a, i)"
| "entry_walk f (d # ds) i a =
     (case f d a of (None, _) \<Rightarrow> entry_walk f ds (Suc i) 0 | (Some oe, a') \<Rightarrow> (Some (oe, d), a', i))"

lemma drop_slots:
  assumes "madnet_wf net" "n < MADCAPDEV_PERNET_NUM"
  shows "drop n (slots net) = (net_dev net ! n, net_ops net ! n) # drop (Suc n) (slots net)"
  using assms madnet_wfD(1,2) [OF assms(1)] by (simp add: Cons_nth_drop_Suc [symmetric])

lemma entry_scan_find:
  assumes wf: "madnet_wf net"
  shows "n \<le> MADCAPDEV_PERNET_NUM \<Longrightarrow> cnt \<le> idx \<Longrightarrow> entry_scan env net w ifindex n cnt idx a0 a1 =
    (let ds = dump_devs env ifindex (drop n (slots net)) in
     if idx - cnt < length ds then
       (case madcap_llt_entry_dump net (ds ! (idx - cnt)) a0 w of
          (None, _) \<Rightarrow> entry_scan env net w ifindex 0 0 (Suc idx) 0 (Suc idx)
        | (Some oe, a) \<Rightarrow> Some (Some (oe, dev_ifindex env (ds ! (idx - cnt))), a, a1))
     else Some (None, a0, a1))"
proof (induction "MADCAPDEV_PERNET_NUM - n" arbitrary: n cnt)
  case 0
  then have "n = MADCAPDEV_PERNET_NUM" by simp
  with madnet_wfD(1,2) [OF wf] show ?case by (subst entry_scan.simps) (simp add: drop_all)
next
  case (Suc k)
  then have n: "n < MADCAPDEV_PERNET_NUM" by simp
  have IH: "entry_scan env net w ifindex (Suc n) c idx a0 a1 =
      (let ds = dump_devs env ifindex (drop (Suc n) (slots net)) in
       if idx - c < length ds then
         (case madcap_llt_entry_dump net (ds ! (idx - c)) a0 w of
            (None, _) \<Rightarrow> entry_scan env net w ifindex 0 0 (Suc idx) 0 (Suc idx)
          | (Some oe, a) \<Rightarrow> Some (Some (oe, dev_ifindex env (ds ! (idx - c))), a, a1))
       else Some (None, a0, a1))" if "c \<le> idx" for c
    by (rule Suc.hyps(1)) (use Suc n that in simp_all)
  note sl = drop_slots [OF wf n]
  show ?case
  proof (cases "net_dev net ! n = None \<or> net_ops net ! n = None \<or>
      ifindex \<noteq> 0 \<and> dev_ifindex env (the (net_dev net ! n)) \<noteq> ifindex")
    case True
    then have "entry_scan env net w ifindex n cnt idx a0 a1 = entry_scan env net w ifindex (Suc n) cnt idx a0 a1"
      using n by (subst entry_scan.simps) (auto split: option.split)
    moreover have "dump_devs env ifindex (drop n (slots net)) = dump_devs env ifindex (drop (Suc n) (slots net))"
      unfolding sl using True by (auto split: option.split)
    ultimately show ?thesis using IH [OF Suc.prems(2)] by simp
  next
    case False
    then obtain d where d: "net_dev net ! n = Some d" "net_ops net ! n \<noteq> None" "ifindex = 0 \<or> dev_ifindex env d = ifindex"
      by auto
    have ds: "dump_devs env ifindex (drop n (slots net)) = d # dump_devs env ifindex (drop (Suc n) (slots net))"
      unfolding sl using d by auto
    show ?thesis
    proof (cases "cnt < idx")
      case True
      then have "entry_scan env net w ifindex n cnt idx a0 a1 = entry_scan env net w ifindex (Suc n) (Suc cnt) idx a0 a1"
        using n d by (subst entry_scan.simps) auto
      moreover have "idx - cnt = Suc (idx - Suc cnt)" using True by simp
      ultimately show ?thesis using IH [of "Suc cnt"] True by (auto simp: ds Let_def split: prod.split option.split)
    next
      case False
      then show ?thesis
        using n d Suc.prems by (subst entry_scan.simps) (auto simp: ds split: prod.split option.split)
    qed
  qed
qed

lemma entry_scan_walk:
  fixes env :: genl_env and ifindex :: u32 and net :: "'w madcap_net"
  assumes wf: "madnet_wf net"
  defines "ds \<equiv> dump_devs env ifindex (slots net)"
  shows "entry_scan env net w ifindex 0 0 idx a0 idx =
    Some (map_prod (map_option (map_prod id (dev_ifindex env))) id
      (entry_walk (\<lambda>d a. madcap_llt_entry_dump net d a w) (drop idx ds) idx a0))"
proof (induction "length ds - idx" arbitrary: idx a0)
  case 0
  then show ?case using entry_scan_find [OF wf, of 0 0 idx env w ifindex a0 idx] by (simp add: ds_def)
next
  case (Suc k)
  then have i: "idx < length ds" by simp
  have "drop idx ds = ds ! idx # drop (Suc idx) ds" using i by (simp add: Cons_nth_drop_Suc)
  moreover have "entry_scan env net w ifindex 0 0 (Suc idx) 0 (Suc idx) =
    Some (map_prod (map_option (map_prod id (dev_ifindex env))) id
      (entry_walk (\<lambda>d a. madcap_llt_entry_dump net d a w) (drop (Suc idx) ds) (Suc idx) 0))"
    by (rule Suc.hyps(1)) (use Suc.hyps(2) in simp)
  ultimately show ?case
    using entry_scan_find [OF wf, of 0 0 idx env w ifindex a0 idx] i
    by (auto simp: ds_def [symmetric] split: prod.split option.split)
qed

section \<open>The contract of a driver\<close>

text \<open>The table of a device is the list of its entries in dump order. Adding an entry succeeds
  with exactly that entry more, or fails and changes nothing; deleting takes out one entry
  with the given identifier; dumping reads the list by index.\<close>

locale llt_driver =
  fixes add_op :: "addr \<Rightarrow> madcap_obj_entry \<Rightarrow> 'w \<Rightarrow> int \<times> 'w"
    and del_op :: "addr \<Rightarrow> madcap_obj_entry \<Rightarrow> 'w \<Rightarrow> int \<times> 'w"
    and dump_op :: "addr \<Rightarrow> nat \<Rightarrow> 'w \<Rightarrow> madcap_obj_entry option \<times> nat"
    and inv :: "addr \<Rightarrow> 'w \<Rightarrow> bool"
    and table :: "addr \<Rightarrow> 'w \<Rightarrow> madcap_obj_entry list"
  assumes add_inv: "inv d w \<Longrightarrow> inv d (snd (add_op d oe w))"
    and add_ok: "inv d w \<Longrightarrow> fst (add_op d oe w) = 0 \<Longrightarrow>
      mset (table d (snd (add_op d oe w))) = add_mset oe (mset (table d w))"
    and add_fail: "inv d w \<Longrightarrow> fst (add_op d oe w) \<noteq> 0 \<Longrightarrow>
      fst (add_op d oe w) < 0 \<and> table d (snd (add_op d oe w)) = table d w"
    and del_inv: "inv d w \<Longrightarrow> inv d (snd (del_op d oe w))"
    and del_none: "inv d w \<Longrightarrow> oe_id oe \<notin> oe_id ` set (table d w) \<Longrightarrow> del_op d oe w = (- ENOENT, w)"
    and del_some: "inv d w \<Longrightarrow> oe_id oe \<in> oe_id ` set (table d w) \<Longrightarrow> fst (del_op d oe w) = 0 \<and>
      (\<exists>x \<in> set (table d w). oe_id x = oe_id oe \<and>
         mset (table d (snd (del_op d oe w))) = mset (table d w) - {#x#})"
    and dump_nth: "inv d w \<Longrightarrow> dump_op d i w =
      (if i < length (table d w) then (Some (table d w ! i), Suc i) else (None, Suc (length (table d w))))"
begin

lemma add_then_listed:
  assumes "inv d w" "add_op d oe w = (0, w')"
  shows "oe \<in> set (table d w') \<and> set (table d w') = insert oe (set (table d w))"
  using add_ok [of d w oe] assms by (metis fst_conv insert_iff set_mset_add_mset_insert set_mset_mset snd_conv)

lemma add_then_del:
  assumes "inv d w" "add_op d oe w = (0, w')"
  shows "fst (del_op d oe w') = 0"
proof -
  have "inv d w'" using add_inv [OF assms(1), of oe] assms(2) by simp
  moreover have "oe_id oe \<in> oe_id ` set (table d w')" using add_then_listed [OF assms] by blast
  ultimately show ?thesis using del_some by blast
qed

text \<open>Dumping until the driver reports the end returns the table from index \<open>i\<close> on.\<close>

lemma dump_end: "inv d w \<Longrightarrow> fst (dump_op d i w) = None \<longleftrightarrow> length (table d w) \<le> i"
  by (simp add: dump_nth)

end

text \<open>A driver that refuses a second entry for an identifier is a map from identifiers.\<close>

definition llt_map :: "madcap_obj_entry list \<Rightarrow> u64 \<rightharpoonup> madcap_obj_entry" where
  "llt_map oes = map_of (map (\<lambda>oe. (oe_id oe, oe)) oes)"

lemma llt_map_Some:
  assumes "distinct (map oe_id oes)"
  shows "llt_map oes i = Some oe \<longleftrightarrow> oe \<in> set oes \<and> oe_id oe = i"
  unfolding llt_map_def using assms by (subst map_of_eq_Some_iff) (auto simp: o_def)

lemma llt_map_None: "llt_map oes i = None \<longleftrightarrow> i \<notin> oe_id ` set oes"
  by (simp add: llt_map_def map_of_eq_None_iff image_image)

lemma llt_map_add:
  assumes "distinct (map oe_id oes')" "mset oes' = add_mset oe (mset oes)"
  shows "llt_map oes' = (llt_map oes)(oe_id oe \<mapsto> oe)"
proof -
  have m: "mset (map oe_id oes') = mset (map oe_id (oe # oes))" using assms(2) by simp
  then have d: "distinct (map oe_id (oe # oes))" using assms(1) mset_eq_imp_distinct_iff by blast
  have "llt_map oes' = llt_map (oe # oes)"
    unfolding llt_map_def
  proof (rule map_of_inject_set [THEN iffD2])
    show "set (map (\<lambda>oe. (oe_id oe, oe)) oes') = set (map (\<lambda>oe. (oe_id oe, oe)) (oe # oes))"
      using mset_eq_setD [of oes' "oe # oes"] assms(2) by simp
  qed (use assms(1) d in \<open>simp_all add: o_def\<close>)
  then show ?thesis by (simp add: llt_map_def)
qed

locale llt_map_driver = llt_driver +
  assumes add_dup: "inv d w \<Longrightarrow> oe_id oe \<in> oe_id ` set (table d w) \<Longrightarrow> fst (add_op d oe w) = - EEXIST"
    and table_map: "inv d w \<Longrightarrow> distinct (map oe_id (table d w))"
begin

lemma add_del_same:
  assumes "inv d w" "add_op d oe w = (0, w')"
  shows "mset (table d (snd (del_op d oe w'))) = mset (table d w)"
proof -
  have inv: "inv d w'" using add_inv [OF assms(1), of oe] assms(2) by simp
  have ms: "mset (table d w') = add_mset oe (mset (table d w))" using add_ok [of d w oe] assms by simp
  have listed: "oe \<in> set (table d w')" using add_then_listed [OF assms] by blast
  then have "oe_id oe \<in> oe_id ` set (table d w')" by blast
  then obtain x where x: "x \<in> set (table d w')" "oe_id x = oe_id oe"
      "mset (table d (snd (del_op d oe w'))) = mset (table d w') - {#x#}"
    using del_some [OF inv] by blast
  have "x = oe" using table_map [OF inv] x(1,2) listed by (auto simp: distinct_map inj_on_def)
  with x(3) ms show ?thesis by simp
qed

lemma add_refines:
  assumes "inv d w"
  shows "(oe_id oe \<in> dom (llt_map (table d w)) \<longrightarrow> fst (add_op d oe w) = - EEXIST) \<and>
    llt_map (table d (snd (add_op d oe w))) =
      (if fst (add_op d oe w) = 0 then (llt_map (table d w))(oe_id oe \<mapsto> oe) else llt_map (table d w))"
proof -
  have "distinct (map oe_id (table d (snd (add_op d oe w))))" using table_map add_inv assms by blast
  then show ?thesis
    using llt_map_add [of "table d (snd (add_op d oe w))" oe "table d w"] add_ok [OF assms, of oe] add_fail [OF assms, of oe]
      add_dup [OF assms, of oe] by (auto simp: llt_map_None domIff)
qed

lemma del_refines:
  assumes "inv d w"
  shows "fst (del_op d oe w) = (if oe_id oe \<in> dom (llt_map (table d w)) then 0 else - ENOENT) \<and>
    llt_map (table d (snd (del_op d oe w))) = (llt_map (table d w))(oe_id oe := None)"
proof (cases "oe_id oe \<in> oe_id ` set (table d w)")
  case True
  let ?w = "snd (del_op d oe w)"
  obtain x where x: "x \<in> set (table d w)" "oe_id x = oe_id oe" "mset (table d ?w) = mset (table d w) - {#x#}"
      "fst (del_op d oe w) = 0"
    using del_some [OF assms True] by blast
  have m: "mset (table d w) = add_mset x (mset (table d ?w))" using x(1,3) by simp
  have "mset (map oe_id (table d w)) = mset (map oe_id (x # table d ?w))" using m by simp
  then have "distinct (map oe_id (x # table d ?w))" using table_map [OF assms] mset_eq_imp_distinct_iff by blast
  then have none: "llt_map (table d ?w) (oe_id oe) = None" using x(2) by (auto simp: llt_map_None)
  have "llt_map (table d w) = (llt_map (table d ?w))(oe_id oe \<mapsto> x)"
    using llt_map_add [OF table_map [OF assms] m] x(2) by simp
  then have "(llt_map (table d w))(oe_id oe := None) = llt_map (table d ?w)" using none by auto
  moreover have "oe_id oe \<in> dom (llt_map (table d w))" using True by (simp add: domIff llt_map_None)
  ultimately show ?thesis using x(4) by simp
next
  case False
  then have "llt_map (table d w) (oe_id oe) = None" by (simp add: llt_map_None)
  with del_none [OF assms False] show ?thesis by (auto simp: domIff)
qed

end


section \<open>A complete dump\<close>

text \<open>Netlink calls a dump handler again and again, each time with an empty message, until one
  comes back empty. \<open>llt_dump_calls\<close> are the messages of \<open>k\<close> such calls.\<close>

abbreviation empty_skb :: nlskb where "empty_skb \<equiv> \<lparr>nl_len = 0, nl_msgs = []\<rparr>"

fun llt_dump_calls ::
  "genl_env \<Rightarrow> 'w madcap_net \<Rightarrow> genl_attrs option \<Rightarrow> 'w \<Rightarrow> nat \<Rightarrow> nat \<Rightarrow> nat \<Rightarrow> genl_msg list list option" where
  "llt_dump_calls env net attrs w 0 args0 args1 = Some []"
| "llt_dump_calls env net attrs w (Suc k) args0 args1 = do {
     (rc, a0, a1, skb) \<leftarrow> madcap_nl_cmd_llt_entry_dump env net attrs args0 args1 empty_skb w;
     rest \<leftarrow> llt_dump_calls env net attrs w k a0 a1;
     Some (nl_msgs skb # rest) }"

text \<open>What is left to send from index \<open>a\<close> of the first device on.\<close>

fun left_over :: "(addr \<Rightarrow> madcap_obj_entry list) \<Rightarrow> addr list \<Rightarrow> nat \<Rightarrow> (madcap_obj_entry \<times> addr) list" where
  "left_over T [] a = []"
| "left_over T (d # ds) a = map (\<lambda>oe. (oe, d)) (drop a (T d)) @ left_over T ds 0"

definition reads_table ::
  "(addr \<Rightarrow> nat \<Rightarrow> madcap_obj_entry option \<times> nat) \<Rightarrow> (addr \<Rightarrow> madcap_obj_entry list) \<Rightarrow> addr \<Rightarrow> bool" where
  "reads_table f T d \<longleftrightarrow> (\<forall>a. f d a =
     (if a < length (T d) then (Some (T d ! a), Suc a) else (None, Suc (length (T d)))))"

lemma entry_walk_left_over:
  assumes "\<forall>d \<in> set ds. reads_table f T d"
  obtains i' a' where "entry_walk f ds i a = (case left_over T ds a of [] \<Rightarrow> None | x # xs \<Rightarrow> Some x, a', i')"
    "i \<le> i'" "left_over T (drop (i' - i) ds) a' = tl (left_over T ds a)"
  using assms
proof (induction ds arbitrary: i a thesis)
  case (Cons d ds)
  have f: "f d a = (if a < length (T d) then (Some (T d ! a), Suc a) else (None, Suc (length (T d))))"
    using Cons.prems(2) by (simp add: reads_table_def)
  show ?case
  proof (cases "a < length (T d)")
    case True
    then have "drop a (T d) = T d ! a # drop (Suc a) (T d)" by (simp add: Cons_nth_drop_Suc)
    with True f show ?thesis by (intro Cons.prems(1) [of "Suc a" i]) auto
  next
    case False
    obtain i' a' where r: "entry_walk f ds (Suc i) 0 = (case left_over T ds 0 of [] \<Rightarrow> None | x # xs \<Rightarrow> Some x, a', i')"
        "Suc i \<le> i'" "left_over T (drop (i' - Suc i) ds) a' = tl (left_over T ds 0)"
      using Cons.IH [of "Suc i" 0] Cons.prems(2) by auto
    moreover have "i' - i = Suc (i' - Suc i)" using r(2) by simp
    ultimately show ?thesis using False f by (intro Cons.prems(1) [of a' i']) auto
  qed
qed simp

text \<open>An empty message buffer has room for one message: the largest object and the index.\<close>

definition roomy :: "genl_env \<Rightarrow> bool" where
  "roomy env \<longleftrightarrow> hdr_fits env empty_skb \<and> (\<forall>n \<le> 28. attr_fits env empty_skb n)"

definition entry_msg :: "genl_env \<Rightarrow> madcap_obj_entry \<times> addr \<Rightarrow> genl_msg" where
  "entry_msg env x = \<lparr>gm_cmd = MADCAP_CMD_LLT_ENTRY_GET, gm_attr = MADCAP_ATTR_OBJ_ENTRY, gm_len = sizeof_entry,
     gm_obj = Entry (fst x),
     gm_ifindex = (if dev_ifindex env (snd x) \<noteq> 0 then Some (dev_ifindex env (snd x)) else None)\<rparr>"

lemma send_entry:
  "roomy env \<Longrightarrow> obj_id (oe_obj (fst x)) = MADCAP_OBJ_ID_LLT_ENTRY \<Longrightarrow>
    genl_madcap_obj_send env empty_skb MADCAP_CMD_LLT_ENTRY_GET (Entry (fst x)) (dev_ifindex env (snd x)) =
      (0, \<lparr>nl_len = msg_bytes env (entry_msg env x), nl_msgs = [entry_msg env x]\<rparr>)"
  by (simp add: genl_madcap_obj_send_def roomy_def entry_msg_def Let_def)

abbreviation asked :: "genl_attrs \<Rightarrow> u32" where
  "asked at \<equiv> (case at_ifindex at of Some i \<Rightarrow> i | None \<Rightarrow> 0)"

text \<open>One call sends the next entry that is left, or an empty message when there is none.\<close>

lemma left_over_mem: "x \<in> set (left_over T es b) \<Longrightarrow> snd x \<in> set es \<and> fst x \<in> set (T (snd x))"
  by (induction T es b rule: left_over.induct) (auto dest: in_set_dropD)

lemma llt_dump_step:
  fixes env :: genl_env and net :: "'w madcap_net"
  assumes wf: "madnet_wf net" and room: "roomy env"
    and ds: "ds = dump_devs env (asked at) (slots net)"
    and T: "\<forall>d \<in> set ds. reads_table (\<lambda>d a. madcap_llt_entry_dump net d a w) T d"
    and ids: "\<forall>d \<in> set ds. \<forall>oe \<in> set (T d). obj_id (oe_obj oe) = MADCAP_OBJ_ID_LLT_ENTRY"
  obtains a' i' where "madcap_nl_cmd_llt_entry_dump env net (Some at) a0 i empty_skb w =
      (case left_over T (drop i ds) a0 of
         [] \<Rightarrow> Some (0, a', i', empty_skb)
       | x # xs \<Rightarrow> Some (int (msg_bytes env (entry_msg env x)), a', i',
           \<lparr>nl_len = msg_bytes env (entry_msg env x), nl_msgs = [entry_msg env x]\<rparr>))"
    "left_over T (drop i' ds) a' = tl (left_over T (drop i ds) a0)"
proof -
  have "\<forall>d \<in> set (drop i ds). reads_table (\<lambda>d a. madcap_llt_entry_dump net d a w) T d"
    using T by (meson in_set_dropD)
  then obtain i' a' where step: "entry_walk (\<lambda>d a. madcap_llt_entry_dump net d a w) (drop i ds) i a0 =
        (case left_over T (drop i ds) a0 of [] \<Rightarrow> None | x # xs \<Rightarrow> Some x, a', i')"
      "i \<le> i'" "left_over T (drop (i' - i) (drop i ds)) a' = tl (left_over T (drop i ds) a0)"
    using entry_walk_left_over by blast
  have scan: "entry_scan env net w (asked at) 0 0 i a0 i =
      Some (map_option (map_prod id (dev_ifindex env)) (case left_over T (drop i ds) a0 of [] \<Rightarrow> None | x # xs \<Rightarrow> Some x), a', i')"
    using entry_scan_walk [OF wf, of env w "asked at" i a0] step(1) by (simp add: ds)
  have rest: "left_over T (drop i' ds) a' = tl (left_over T (drop i ds) a0)" using step(2,3) by simp
  show ?thesis
  proof (cases "left_over T (drop i ds) a0")
    case Nil
    show ?thesis by (rule that [OF _ rest]) (use scan Nil in \<open>simp add: madcap_nl_cmd_llt_entry_dump_def\<close>)
  next
    case (Cons x xs)
    have "snd x \<in> set ds" "fst x \<in> set (T (snd x))"
      using left_over_mem [of x T "drop i ds" a0] Cons by (auto dest: in_set_dropD)
    then have send: "genl_madcap_obj_send env empty_skb MADCAP_CMD_LLT_ENTRY_GET (Entry (fst x)) (dev_ifindex env (snd x)) =
        (0, \<lparr>nl_len = msg_bytes env (entry_msg env x), nl_msgs = [entry_msg env x]\<rparr>)"
      using ids by (intro send_entry [OF room]) blast
    show ?thesis
      by (rule that [OF _ rest]) (use scan send in \<open>cases x; simp add: madcap_nl_cmd_llt_entry_dump_def Cons\<close>)
  qed
qed

lemma llt_dump_calls_from:
  fixes env :: genl_env and net :: "'w madcap_net"
  assumes wf: "madnet_wf net" and room: "roomy env"
    and ds: "ds = dump_devs env (asked at) (slots net)"
    and T: "\<forall>d \<in> set ds. reads_table (\<lambda>d a. madcap_llt_entry_dump net d a w) T d"
    and ids: "\<forall>d \<in> set ds. \<forall>oe \<in> set (T d). obj_id (oe_obj oe) = MADCAP_OBJ_ID_LLT_ENTRY"
  shows "llt_dump_calls env net (Some at) w k a0 i =
    Some (map (\<lambda>x. [entry_msg env x]) (take k (left_over T (drop i ds) a0)) @
          replicate (k - length (left_over T (drop i ds) a0)) [])"
proof (induction k arbitrary: a0 i)
  case (Suc k)
  obtain a' i' where step: "madcap_nl_cmd_llt_entry_dump env net (Some at) a0 i empty_skb w =
      (case left_over T (drop i ds) a0 of
         [] \<Rightarrow> Some (0, a', i', empty_skb)
       | x # xs \<Rightarrow> Some (int (msg_bytes env (entry_msg env x)), a', i',
           \<lparr>nl_len = msg_bytes env (entry_msg env x), nl_msgs = [entry_msg env x]\<rparr>))"
    "left_over T (drop i' ds) a' = tl (left_over T (drop i ds) a0)"
    using llt_dump_step [OF wf room ds T ids] by blast
  from Suc.IH [of a' i'] step show ?case
    by (cases "left_over T (drop i ds) a0") (simp_all add: replicate_app_Cons_same)
qed simp

end
