(* ===== verification/Madcap_Props.thy ===== *)
theory Madcap_Props
  imports Madcap_Contract
begin

text \<open>
  What \<^verbatim>\<open>madcap.c\<close> promises its users: the registry is a map from devices to operations, a
  netlink request reaches the driver with the object user space encoded or is refused with
  the right error, and the dumps list everything once and end.
\<close>

section \<open>The registry\<close>

text \<open>Property C14: the registry refines a map of at most 16 devices to their operations.
  Registering binds a free device, or reports that it is bound or that the slots are used up
  and leaves the map as it was; unregistering unbinds exactly that device, and reports
  \<^verbatim>\<open>-ENOENT\<close> whatever it did, because its loop never leaves early and the counter it tests is always
  at the end.\<close>

theorem registry_refines_map:
  assumes wf: "madnet_wf net"
  shows "madnet_wf (snd (madcap_register_device net d mc_ops)) \<and> madnet_wf (snd (madcap_unregister_device net d)) \<and>
    get_madcap_ops (snd (madcap_register_device net d mc_ops)) =
      (if get_madcap_ops net d = None \<and> None \<in> set (net_dev net) then (get_madcap_ops net)(d \<mapsto> mc_ops) else get_madcap_ops net) \<and>
    fst (madcap_register_device net d mc_ops) =
      (if get_madcap_ops net d \<noteq> None then - EEXIST else if None \<in> set (net_dev net) then 0 else - ENOMEM) \<and>
    get_madcap_ops (snd (madcap_unregister_device net d)) = (get_madcap_ops net)(d := None) \<and>
    fst (madcap_unregister_device net d) = - ENOENT"
proof -
  obtain rc net1 where r: "madcap_register_device net d mc_ops = (rc, net1)" by fastforce
  obtain rc' net2 where u: "madcap_unregister_device net d = (rc', net2)" by fastforce
  from register_spec [OF wf r] unregister_spec [OF wf u] show ?thesis unfolding r u by auto
qed

lemma madnet_wf_init: "madnet_wf madcap_init_net"
  by (simp add: madnet_wf_def madcap_init_net_def slot_simps)

definition no_ops :: "unit madcap_ops" where
  "no_ops = \<lparr>mco_acquire_dev = None, mco_release_dev = None, mco_llt_cfg = None, mco_llt_entry_add = None,
     mco_llt_entry_del = None, mco_udp_cfg = None, mco_llt_entry_dump = None, mco_llt_config_get = None,
     mco_udp_config_get = None\<rparr>"

theorem registry_refines_map_witness:
  "fst (madcap_register_device madcap_init_net 3 no_ops) = 0 \<and>
   get_madcap_ops (snd (madcap_register_device madcap_init_net 3 no_ops)) 3 = Some no_ops"
proof -
  have "get_madcap_ops madcap_init_net 3 = (None :: unit madcap_ops option)"
    by (auto simp: get_madcap_ops_def madcap_init_net_def split: option.splits dest: first_slot_mem)
  moreover have "None \<in> set (net_dev (madcap_init_net :: unit madcap_net))" by (simp add: madcap_init_net_def)
  ultimately show ?thesis using registry_refines_map [OF madnet_wf_init, of 3 no_ops] by simp
qed

section \<open>Requests\<close>

lemma nla_memcpy_full: "length src = length dst \<Longrightarrow> nla_memcpy dst src = src"
  by (simp add: nla_memcpy_def)

text \<open>A request that carries the index of a registered device and the object as user
  space lays it out calls the driver's operation with exactly that object, and returns what the
  driver returns.\<close>

lemma request_reaches_driver:
  assumes "nl_target env at = Inr d" "length stk = sizeof_entry" "length stk' = sizeof_udp"
  shows "(at_config at = Some (enc_config oc) \<and> dispatch net d mco_llt_cfg = Some f \<longrightarrow>
      madcap_nl_cmd_llt_config env net at w = f d oc w) \<and>
    (at_entry at = Some (enc_entry oe) \<and> dispatch net d mco_llt_entry_add = Some g \<longrightarrow>
      madcap_nl_cmd_llt_entry_add env stk net at w = g d oe w) \<and>
    (at_entry at = Some (enc_entry oe) \<and> dispatch net d mco_llt_entry_del = Some g \<longrightarrow>
      madcap_nl_cmd_llt_entry_del env stk net at w = g d oe w) \<and>
    (at_udp at = Some (enc_udp ou) \<and> dispatch net d mco_udp_cfg = Some u \<longrightarrow>
      madcap_nl_cmd_udp_config env stk' net at w = u d ou w)"
  using assms
  by (simp add: madcap_nl_cmd_llt_config_def madcap_nl_cmd_llt_entry_add_def madcap_nl_cmd_llt_entry_del_def
      madcap_nl_cmd_udp_config_def madcap_llt_cfg_def madcap_llt_entry_add_def madcap_llt_entry_del_def madcap_udp_cfg_def
      nla_memcpy_full)

text \<open>A driver whose state is the list of entries it was given, and a namespace with one device.\<close>

definition log_ops :: "madcap_obj_entry list madcap_ops" where
  "log_ops = \<lparr>mco_acquire_dev = None, mco_release_dev = None, mco_llt_cfg = None,
     mco_llt_entry_add = Some (\<lambda>d oe w. (0, w @ [oe])), mco_llt_entry_del = None, mco_udp_cfg = None,
     mco_llt_entry_dump = Some (\<lambda>d i w. if i < length w then (Some (w ! i), Suc i) else (None, Suc (length w))),
     mco_llt_config_get = Some (\<lambda>d w. Some (zero_config\<lparr>oc_obj := \<lparr>obj_id = 1, tb_id = 0\<rparr>\<rparr>)),
     mco_udp_config_get = None\<rparr>"

definition log_net :: "madcap_obj_entry list madcap_net" where
  "log_net = \<lparr>net_ops = Some log_ops # replicate 15 None, net_dev = Some 3 # replicate 15 None, kept_dst = {3}\<rparr>"

definition log_env :: genl_env where
  "log_env = \<lparr>dev_get_by_index = (\<lambda>i. if i = 2 then Some 3 else None), dev_ifindex = (\<lambda>d. 2), hdr_fits = (\<lambda>skb. True),
     attr_fits = (\<lambda>skb n. True), msg_bytes = (\<lambda>m. 64)\<rparr>"

definition entry_request :: "madcap_obj_entry \<Rightarrow> genl_attrs" where
  "entry_request oe = \<lparr>at_ifindex = Some 2, at_config = None, at_entry = Some (enc_entry oe), at_udp = None\<rparr>"

definition sample_entry :: madcap_obj_entry where
  "sample_entry = \<lparr>oe_obj = \<lparr>obj_id = 2, tb_id = 0\<rparr>, oe_id = 5, oe_dst = 9\<rparr>"

lemma log_net_ops: "get_madcap_ops log_net 3 = Some log_ops"
  by (simp add: get_madcap_ops_def log_net_def)

lemma request_reaches_driver_witness:
  "madcap_nl_cmd_llt_entry_add log_env (replicate 24 0) log_net (entry_request sample_entry) [] = (0, [sample_entry])"
proof -
  have t: "nl_target log_env (entry_request sample_entry) = Inr 3" by (simp add: nl_target_def log_env_def entry_request_def)
  have a: "at_entry (entry_request sample_entry) = Some (enc_entry sample_entry)" by (simp add: entry_request_def)
  have d: "dispatch log_net 3 mco_llt_entry_add = Some (\<lambda>d oe w. (0, w @ [oe]))"
    using log_net_ops by (simp add: dispatch_def log_ops_def)
  from request_reaches_driver [OF t, of "replicate 24 0" "replicate 20 0", of _ log_net _ _ sample_entry] a d show ?thesis by simp
qed

text \<open>A request is refused without a call to the driver, with \<^verbatim>\<open>-EINVAL\<close> when the
  index or the object is missing, with \<^verbatim>\<open>-ENODEV\<close> when there is no such device, and with
  \<^verbatim>\<open>-EOPNOTSUPP\<close> when the device is not registered or its driver lacks the operation.\<close>

lemma request_errors:
  "(at_ifindex at = None \<or> at_entry at = None \<and> nl_target env at = Inr d \<longrightarrow>
      madcap_nl_cmd_llt_entry_add env stk net at w = (- EINVAL, w) \<and> madcap_nl_cmd_llt_entry_del env stk net at w = (- EINVAL, w)) \<and>
   (at_ifindex at = None \<or> at_config at = None \<and> nl_target env at = Inr d \<longrightarrow> madcap_nl_cmd_llt_config env net at w = (- EINVAL, w)) \<and>
   (at_ifindex at = None \<or> at_udp at = None \<and> nl_target env at = Inr d \<longrightarrow> madcap_nl_cmd_udp_config env stk net at w = (- EINVAL, w)) \<and>
   (at_ifindex at = Some i \<and> dev_get_by_index env i = None \<longrightarrow>
      madcap_nl_cmd_llt_entry_add env stk net at w = (- ENODEV, w) \<and> madcap_nl_cmd_llt_entry_del env stk net at w = (- ENODEV, w) \<and>
      madcap_nl_cmd_llt_config env net at w = (- ENODEV, w) \<and> madcap_nl_cmd_udp_config env stk net at w = (- ENODEV, w)) \<and>
   (nl_target env at = Inr d \<and> get_madcap_ops net d = None \<longrightarrow>
      (at_entry at \<noteq> None \<longrightarrow> madcap_nl_cmd_llt_entry_add env stk net at w = (- EOPNOTSUPP, w) \<and>
         madcap_nl_cmd_llt_entry_del env stk net at w = (- EOPNOTSUPP, w)) \<and>
      (at_config at \<noteq> None \<longrightarrow> madcap_nl_cmd_llt_config env net at w = (- EOPNOTSUPP, w)) \<and>
      (at_udp at \<noteq> None \<longrightarrow> madcap_nl_cmd_udp_config env stk net at w = (- EOPNOTSUPP, w)))"
  by (auto simp: madcap_nl_cmd_llt_config_def madcap_nl_cmd_llt_entry_add_def madcap_nl_cmd_llt_entry_del_def
      madcap_nl_cmd_udp_config_def nl_target_def madcap_llt_cfg_def madcap_llt_entry_add_def madcap_llt_entry_del_def
      madcap_udp_cfg_def dispatch_def split: option.splits)

lemma request_errors_witness:
  "madcap_nl_cmd_llt_entry_add log_env [] (madcap_init_net :: unit madcap_net) (entry_request sample_entry) () = (- EOPNOTSUPP, ())"
proof -
  have n: "get_madcap_ops (madcap_init_net :: unit madcap_net) 3 = None"
    by (auto simp: get_madcap_ops_def madcap_init_net_def split: option.splits dest: first_slot_mem)
  have t: "nl_target log_env (entry_request sample_entry) = Inr 3" "at_entry (entry_request sample_entry) \<noteq> None"
    by (simp_all add: nl_target_def log_env_def entry_request_def)
  show ?thesis
    using request_errors [of "entry_request sample_entry" log_env 3 "[]" "madcap_init_net :: unit madcap_net" "()" 0] n t by blast
qed

text \<open>Only the configuration request clears its object first: a short entry attribute
  leaves the rest of the object as the stack had it, so what the driver is asked to add depends
  on memory the request does not control.\<close>

lemma short_attribute_leaks_stack:
  assumes "nl_target env at = Inr d" "at_entry at = Some bs" "length bs \<le> 16" "length pre = 16" "length post = 4"
    "dispatch net d mco_llt_entry_add = Some g"
  shows "\<exists>oe. madcap_nl_cmd_llt_entry_add env (pre @ le_bytes 4 x @ post) net at w = g d oe w \<and> oe_dst oe = x"
proof -
  have "dec_entry (nla_memcpy (pre @ le_bytes 4 x @ post) bs) = dec_entry (take 24 bs @ drop (length bs) pre @ le_bytes 4 x @ post)"
    using assms(3-5) by (simp add: nla_memcpy_def)
  moreover have "oe_dst (dec_entry (take 24 bs @ drop (length bs) pre @ le_bytes 4 x @ post)) = x"
    using assms(3-5) by (simp add: dec_entry_def field_def wire_simps)
  ultimately show ?thesis
    using assms by (auto simp: madcap_nl_cmd_llt_entry_add_def madcap_llt_entry_add_def)
qed

lemma short_attribute_leaks_stack_witness:
  "\<exists>oe. madcap_nl_cmd_llt_entry_add log_env (replicate 16 0 @ le_bytes 4 (0xDEAD :: u32) @ replicate 4 0) log_net
      ((entry_request sample_entry)\<lparr>at_entry := Some [2, 0, 0, 0]\<rparr>) [] = (0, [oe]) \<and> oe_dst oe = 0xDEAD"
proof -
  let ?at = "(entry_request sample_entry)\<lparr>at_entry := Some [2, 0, 0, 0]\<rparr>"
  have t: "nl_target log_env ?at = Inr 3" by (simp add: nl_target_def log_env_def entry_request_def)
  have d: "dispatch log_net 3 mco_llt_entry_add = Some (\<lambda>d oe w. (0, w @ [oe]))"
    using log_net_ops by (simp add: dispatch_def log_ops_def)
  show ?thesis
    using short_attribute_leaks_stack [OF t _ _ _ _ d, of "[2, 0, 0, 0]" "replicate 16 0" "replicate 4 0" "0xDEAD" "[]"] by simp
qed

section \<open>Dumps\<close>

text \<open>Property C21: a dump of locator entries ends and is complete: over the calls netlink makes,
  each entry of each selected device (in slot order, each device's entries in its own order)
  is sent once, in a message with its device's index, and every call after the last entry
  returns an empty message.\<close>

theorem entry_dump_complete:
  assumes "madnet_wf net" "roomy env"
    and "\<forall>d \<in> set (dump_devs env (asked at) (slots net)). reads_table (\<lambda>d a. madcap_llt_entry_dump net d a w) T d"
    and "\<forall>d \<in> set (dump_devs env (asked at) (slots net)). \<forall>oe \<in> set (T d). obj_id (oe_obj oe) = MADCAP_OBJ_ID_LLT_ENTRY"
    and "k = length (concat (map T (dump_devs env (asked at) (slots net))))"
  shows "llt_dump_calls env net (Some at) w (k + m) 0 0 =
    Some (map (\<lambda>x. [entry_msg env x]) (concat (map (\<lambda>d. map (\<lambda>oe. (oe, d)) (T d)) (dump_devs env (asked at) (slots net)))) @
      replicate m [])"
proof -
  have lo: "left_over T ds 0 = concat (map (\<lambda>d. map (\<lambda>oe. (oe, d)) (T d)) ds)" for ds by (induction ds) auto
  have len: "length (concat (map (\<lambda>d. map (\<lambda>oe. (oe, d)) (T d)) ds)) = length (concat (map T ds))" for ds
    by (induction ds) auto
  show ?thesis
    using llt_dump_calls_from [OF assms(1,2) refl assms(3,4), of "k + m" 0 0] by (simp add: lo len assms(5))
qed

lemma demo_tag: "obj_id (oe_obj sample_entry) = MADCAP_OBJ_ID_LLT_ENTRY"
  by (simp add: sample_entry_def)

lemma replicate_2: "replicate 2 x = [x, x]"
  by (simp add: numeral_2_eq_2)

theorem entry_dump_complete_witness:
  "llt_dump_calls log_env log_net (Some (entry_request sample_entry)) [sample_entry] 3 0 0 =
    Some [[entry_msg log_env (sample_entry, 3)], [], []]"
proof -
  have wf: "madnet_wf log_net"
    by (auto simp: madnet_wf_def log_net_def slots_distinct_def nth_Cons split: nat.splits)
  have room: "roomy log_env" by (simp add: roomy_def log_env_def)
  have ds: "dump_devs log_env (asked (entry_request sample_entry)) (slots log_net) = [3]"
    by (simp add: log_net_def entry_request_def log_env_def numeral_nat replicate_Suc)
  have "reads_table (\<lambda>d a. madcap_llt_entry_dump log_net d a [sample_entry]) (\<lambda>d. [sample_entry]) 3"
    using log_net_ops by (simp add: reads_table_def madcap_llt_entry_dump_def dispatch_def log_ops_def)
  then show ?thesis
    using entry_dump_complete [OF wf room, of "entry_request sample_entry" "[sample_entry]" "\<lambda>d. [sample_entry]" 1 2] ds
    by (simp add: demo_tag replicate_2 numeral_3_eq_3 del: llt_dump_calls.simps)
qed

text \<open>The messages of \<open>k\<close> calls of the configuration dump.\<close>

fun config_dump_calls :: "genl_env \<Rightarrow> 'w madcap_net \<Rightarrow> genl_attrs option \<Rightarrow> 'w \<Rightarrow> nat \<Rightarrow> nat \<Rightarrow> genl_msg list list" where
  "config_dump_calls env net attrs w 0 idx = []"
| "config_dump_calls env net attrs w (Suc k) idx =
     (case madcap_nl_cmd_llt_config_dump env net attrs idx empty_skb w of
        (rc, idx', skb) \<Rightarrow> nl_msgs skb # config_dump_calls env net attrs w k idx')"

definition config_msg :: "genl_env \<Rightarrow> addr \<Rightarrow> madcap_obj_config \<Rightarrow> genl_msg" where
  "config_msg env d oc = \<lparr>gm_cmd = MADCAP_CMD_LLT_CONFIG_GET, gm_attr = MADCAP_ATTR_OBJ_CONFIG, gm_len = sizeof_config,
     gm_obj = Config oc, gm_ifindex = (if dev_ifindex env d \<noteq> 0 then Some (dev_ifindex env d) else None)\<rparr>"

lemma config_dump_past:
  assumes "length (dump_devs env (asked at) (slots net)) \<le> idx"
  shows "config_dump_calls env net (Some at) w m idx = replicate m []"
proof (cases m)
  case (Suc k)
  have "config_dump_calls env net (Some at) w k j = replicate k []" if "j = Suc (length (dump_devs env (asked at) (slots net)))" for j
    using that by (induction k arbitrary: j) (simp_all add: madcap_nl_cmd_llt_config_dump_def config_scan_spec Let_def)
  with Suc assms show ?thesis by (simp add: madcap_nl_cmd_llt_config_dump_def config_scan_spec Let_def)
qed simp

lemma config_dump_step:
  assumes "roomy env" "idx < length (dump_devs env (asked at) (slots net))"
    and "madcap_llt_config_get net (dump_devs env (asked at) (slots net) ! idx) w = Some oc"
    and "obj_id (oc_obj oc) = MADCAP_OBJ_ID_LLT_CONFIG"
  shows "config_dump_calls env net (Some at) w (Suc k) idx =
    [config_msg env (dump_devs env (asked at) (slots net) ! idx) oc] # config_dump_calls env net (Some at) w k (Suc idx)"
  using assms by (simp add: madcap_nl_cmd_llt_config_dump_def config_scan_spec Let_def genl_madcap_obj_send_def roomy_def config_msg_def)

text \<open>A configuration dump sends the configuration of each selected device once, in
  slot order, and then empty messages.\<close>

lemma config_dump_complete:
  assumes room: "roomy env"
    and get: "\<forall>d \<in> set (dump_devs env (asked at) (slots net)). madcap_llt_config_get net d w = Some (C d) \<and>
      obj_id (oc_obj (C d)) = MADCAP_OBJ_ID_LLT_CONFIG"
  shows "config_dump_calls env net (Some at) w (length (dump_devs env (asked at) (slots net)) + m) 0 =
    map (\<lambda>d. [config_msg env d (C d)]) (dump_devs env (asked at) (slots net)) @ replicate m []"
proof -
  let ?ds = "dump_devs env (asked at) (slots net)"
  have "config_dump_calls env net (Some at) w (length ?ds - i + m) i =
      map (\<lambda>d. [config_msg env d (C d)]) (drop i ?ds) @ replicate m []" if "i \<le> length ?ds" for i
    using that
  proof (induction "length ?ds - i" arbitrary: i)
    case 0
    then show ?case using config_dump_past [of env at net i w m] by simp
  next
    case (Suc n)
    then have i: "i < length ?ds" and n: "length ?ds - Suc i = n" "length ?ds - i + m = Suc (n + m)" by simp_all
    have "madcap_llt_config_get net (?ds ! i) w = Some (C (?ds ! i))" "obj_id (oc_obj (C (?ds ! i))) = MADCAP_OBJ_ID_LLT_CONFIG"
      using get i by simp_all
    from config_dump_step [OF room i this, of "n + m"] Suc.hyps(1) [of "Suc i"] n i show ?case
      by (simp add: Cons_nth_drop_Suc [symmetric])
  qed
  from this [of 0] show ?thesis by simp
qed

lemma config_dump_complete_witness:
  "config_dump_calls log_env log_net (Some (entry_request sample_entry)) [] 2 0 =
    [[config_msg log_env 3 (zero_config\<lparr>oc_obj := \<lparr>obj_id = 1, tb_id = 0\<rparr>\<rparr>)], []]"
proof -
  have ds: "dump_devs log_env (asked (entry_request sample_entry)) (slots log_net) = [3]"
    by (simp add: log_net_def entry_request_def log_env_def numeral_nat replicate_Suc)
  have "madcap_llt_config_get log_net 3 [] = Some (zero_config\<lparr>oc_obj := \<lparr>obj_id = 1, tb_id = 0\<rparr>\<rparr>)"
    using log_net_ops by (simp add: madcap_llt_config_get_def dispatch_def log_ops_def)
  then show ?thesis
    using config_dump_complete [of log_env "entry_request sample_entry" log_net "[]"
        "\<lambda>d. zero_config\<lparr>oc_obj := \<lparr>obj_id = 1, tb_id = 0\<rparr>\<rparr>" 1] ds
    by (simp add: roomy_def log_env_def numeral_2_eq_2)
qed

text \<open>The reply trusts the object's own tag for its length: a configuration whose tag
  is that of an entry (the tag comes from the request that set it) is sent with four bytes
  that follow the configuration in the driver's memory.\<close>

lemma reply_overreads:
  assumes "roomy env" "obj_id (oc_obj oc) = MADCAP_OBJ_ID_LLT_ENTRY"
  shows "\<exists>m. genl_madcap_obj_send env empty_skb cmd (Config oc) ifindex = (0, \<lparr>nl_len = msg_bytes env m, nl_msgs = [m]\<rparr>) \<and>
    gm_len m = sizeof_obj (gm_obj m) + 4"
  using assms by (simp add: genl_madcap_obj_send_def roomy_def Let_def)

lemma reply_overreads_sample:
  "\<exists>m. genl_madcap_obj_send log_env empty_skb 1 (Config (zero_config\<lparr>oc_obj := \<lparr>obj_id = 2, tb_id = 0\<rparr>\<rparr>)) 2 =
      (0, \<lparr>nl_len = msg_bytes log_env m, nl_msgs = [m]\<rparr>) \<and> gm_len m = 24"
  using reply_overreads [of log_env "zero_config\<lparr>oc_obj := \<lparr>obj_id = 2, tb_id = 0\<rparr>\<rparr>" 1 2]
  by (simp add: roomy_def log_env_def genl_madcap_obj_send_def)

end
