(* ===== verification/Bucket_Table.thy ===== *)
theory Bucket_Table
  imports Madcap_Contract
begin

text \<open>
  The hash tables of the drivers and of the NSH module: 256 singly linked buckets
  (\<^verbatim>\<open>hlist\<close>) of entries with a key. The loops over a bucket that the sources write out with
  \<^verbatim>\<open>hlist_for_each_entry_rcu\<close> are here once, over an arbitrary entry type and key, with their
  abstraction: the entries in bucket order. The hash function is a parameter; that its value
  is a byte is the only fact used, and comes from the type.
\<close>

abbreviation (input) HASH_SIZE :: nat where "HASH_SIZE \<equiv> 256"

section \<open>Loops over buckets\<close>

fun bucket_find :: "('e \<Rightarrow> 'k) \<Rightarrow> 'k \<Rightarrow> 'e list \<Rightarrow> 'e option" where
  "bucket_find key i [] = None"
| "bucket_find key i (e # rest) = (if i = key e then Some e else bucket_find key i rest)"

text \<open>Unlinking the entry \<open>bucket_find\<close> returns, and writing it in place.\<close>

fun bucket_del :: "('e \<Rightarrow> 'k) \<Rightarrow> 'k \<Rightarrow> 'e list \<Rightarrow> 'e list" where
  "bucket_del key i [] = []"
| "bucket_del key i (e # rest) = (if i = key e then rest else e # bucket_del key i rest)"

fun bucket_upd :: "('e \<Rightarrow> 'k) \<Rightarrow> 'k \<Rightarrow> ('e \<Rightarrow> 'e) \<Rightarrow> 'e list \<Rightarrow> 'e list" where
  "bucket_upd key i f [] = []"
| "bucket_upd key i f (e # rest) = (if i = key e then f e # rest else e # bucket_upd key i f rest)"

text \<open>A dump counts past \<open>idx\<close> entries over all buckets and stops at the next one.\<close>

fun dump_bucket :: "nat \<Rightarrow> 'e list \<Rightarrow> nat \<Rightarrow> 'e option \<times> nat" where
  "dump_bucket idx [] cnt = (None, cnt)"
| "dump_bucket idx (e # rest) cnt = (if idx > cnt then dump_bucket idx rest (Suc cnt) else (Some e, cnt))"

fun dump_buckets :: "nat \<Rightarrow> 'e list list \<Rightarrow> nat \<Rightarrow> 'e option \<times> nat" where
  "dump_buckets idx [] cnt = (None, cnt)"
| "dump_buckets idx (b # rest) cnt =
     (case dump_bucket idx b cnt of
        (Some e, cnt) \<Rightarrow> (Some e, cnt)
      | (None, cnt) \<Rightarrow> dump_buckets idx rest cnt)"

section \<open>What they compute\<close>

definition buckets_ok :: "('e \<Rightarrow> 'k) \<Rightarrow> ('k \<Rightarrow> 8 word) \<Rightarrow> 'e list list \<Rightarrow> bool" where
  "buckets_ok key hash bs \<longleftrightarrow> length bs = HASH_SIZE \<and>
     (\<forall>n < HASH_SIZE. \<forall>e \<in> set (bs ! n). unat (hash (key e)) = n)"

lemma hash_bound [simp]: "unat (x :: 8 word) < HASH_SIZE"
  using unsigned_less [of x, where 'a = nat] by simp

lemma bucket_find_None: "bucket_find key i b = None \<longleftrightarrow> i \<notin> key ` set b"
  by (induction b) auto

lemma bucket_find_Some: "bucket_find key i b = Some e \<Longrightarrow> e \<in> set b \<and> key e = i"
  by (induction b) (auto split: if_splits)

lemma bucket_del_mset: "bucket_find key i b = Some e \<Longrightarrow> mset (bucket_del key i b) = mset b - {#e#}"
proof (induction b)
  case (Cons x b)
  show ?case
  proof (cases "i = key x")
    case False
    with Cons.prems have f: "bucket_find key i b = Some e" by simp
    then have "e \<in># mset b" using bucket_find_Some by fastforce
    moreover have "x \<noteq> e" using False bucket_find_Some [OF f] by auto
    ultimately show ?thesis using False f Cons.IH by simp
  qed (use Cons.prems in simp)
qed simp

lemma set_bucket_del: "set (bucket_del key i b) \<subseteq> set b"
  by (induction b) auto

lemma set_bucket_upd: "e \<in> set (bucket_upd key i f b) \<Longrightarrow> e \<in> set b \<or> (\<exists>x \<in> set b. key x = i \<and> e = f x)"
  by (induction b) (auto split: if_splits)

lemma map_bucket_upd: "(\<And>e. g (f e) = g e) \<Longrightarrow> map g (bucket_upd key i f b) = map g b"
  by (induction b) auto

lemma table_upd:
  assumes "buckets_ok key hash bs" "\<And>e. key (f e) = key e" and n: "n < length bs"
  shows "buckets_ok key hash (bs[n := bucket_upd key i f (bs ! n)])"
    "map key (concat (bs[n := bucket_upd key i f (bs ! n)])) = map key (concat bs)"
proof -
  let ?b = "bucket_upd key i f (bs ! n)"
  have m: "map key ?b = map key (bs ! n)" by (rule map_bucket_upd) (rule assms(2))
  have "map (map key) (bs[n := ?b]) = (map (map key) bs)[n := map key (bs ! n)]" by (simp only: map_update m)
  also have "\<dots> = map (map key) bs" by (metis n list_update_id nth_map)
  finally have all: "map (map key) (bs[n := ?b]) = map (map key) bs" .
  then show "map key (concat (bs[n := ?b])) = map key (concat bs)" by (simp only: map_concat)
  have keys: "key ` set (bs[n := ?b] ! k) = key ` set (bs ! k)" if "k < length bs" for k
    using arg_cong [OF all, of "\<lambda>l. set (l ! k)"] that by simp
  show "buckets_ok key hash (bs[n := ?b])"
    unfolding buckets_ok_def
  proof (intro conjI allI impI ballI)
    fix k e assume k: "k < HASH_SIZE" and e: "e \<in> set (bs[n := ?b] ! k)"
    then have "key e \<in> key ` set (bs ! k)" using keys [of k] assms(1) by (auto simp: buckets_ok_def)
    then show "unat (hash (key e)) = k" using assms(1) k by (auto simp: buckets_ok_def)
  qed (use assms(1) in \<open>simp add: buckets_ok_def\<close>)
qed

lemma buckets_empty [simp]: "buckets_ok key hash (replicate HASH_SIZE [])"
  by (simp add: buckets_ok_def)

lemma buckets_mem:
  assumes "buckets_ok key hash bs"
  shows "e \<in> set (concat bs) \<longleftrightarrow> e \<in> set (bs ! unat (hash (key e)))"
proof -
  have len: "length bs = HASH_SIZE" and ok: "\<And>n. n < HASH_SIZE \<Longrightarrow> e \<in> set (bs ! n) \<Longrightarrow> unat (hash (key e)) = n"
    using assms by (auto simp: buckets_ok_def)
  have "e \<in> set (concat bs) \<longleftrightarrow> (\<exists>n < HASH_SIZE. e \<in> set (bs ! n))"
    by (force simp: in_set_conv_nth [of _ bs] len)
  also have "\<dots> \<longleftrightarrow> e \<in> set (bs ! unat (hash (key e)))" using ok hash_bound by blast
  finally show ?thesis .
qed

lemma table_find_None:
  assumes "buckets_ok key hash bs"
  shows "bucket_find key i (bs ! unat (hash i)) = None \<longleftrightarrow> i \<notin> key ` set (concat bs)"
proof -
  have "e \<in> set (concat bs) \<and> key e = i \<longleftrightarrow> e \<in> set (bs ! unat (hash i)) \<and> key e = i" for e
    using buckets_mem [OF assms, of e] by metis
  then have "key ` set (concat bs) \<inter> {i} = key ` set (bs ! unat (hash i)) \<inter> {i}" by blast
  then show ?thesis unfolding bucket_find_None by blast
qed

lemma table_find_Some:
  assumes "buckets_ok key hash bs" "bucket_find key i (bs ! unat (hash i)) = Some e"
  shows "e \<in> set (concat bs) \<and> key e = i"
  using buckets_mem [OF assms(1), of e] bucket_find_Some [OF assms(2)] by simp

lemma mset_concat_upd:
  "n < length bs \<Longrightarrow> mset (concat (bs[n := b])) + mset (bs ! n) = mset (concat bs) + mset b"
proof (induction bs arbitrary: n)
  case (Cons x bs)
  then show ?case
  proof (cases n)
    case (Suc m)
    then have "mset (concat (bs[m := b])) + mset (bs ! m) = mset (concat bs) + mset b"
      using Cons by simp
    then show ?thesis using Suc by (simp add: union_assoc)
  qed (simp add: union_commute)
qed simp

lemma table_add:
  fixes e :: 'e
  assumes "buckets_ok key hash bs"
  defines "n \<equiv> unat (hash (key e))"
  shows "buckets_ok key hash (bs[n := e # bs ! n])"
    "mset (concat (bs[n := e # bs ! n])) = add_mset e (mset (concat bs))"
proof -
  have n: "n < length bs" using assms by (simp add: buckets_ok_def)
  show "buckets_ok key hash (bs[n := e # bs ! n])"
    using assms(1) by (auto simp: buckets_ok_def n_def nth_list_update)
  show "mset (concat (bs[n := e # bs ! n])) = add_mset e (mset (concat bs))"
    using mset_concat_upd [OF n, of "e # bs ! n"] by simp
qed

lemma table_del:
  assumes "buckets_ok key hash bs" "bucket_find key i (bs ! unat (hash i)) = Some e"
  defines "n \<equiv> unat (hash i)"
  shows "buckets_ok key hash (bs[n := bucket_del key i (bs ! n)])"
    "mset (concat (bs[n := bucket_del key i (bs ! n)])) = mset (concat bs) - {#e#}"
proof -
  have n: "n < length bs" using assms(1) by (simp add: buckets_ok_def n_def)
  show "buckets_ok key hash (bs[n := bucket_del key i (bs ! n)])"
    using assms(1) set_bucket_del [of key i "bs ! n"] by (auto simp: buckets_ok_def n_def nth_list_update)
  have "e \<in> set (bs ! n)" using bucket_find_Some [OF assms(2)] by (simp add: n_def)
  then obtain m where m: "mset (bs ! n) = add_mset e m" by (metis mset_add set_mset_mset)
  have "mset (concat (bs[n := bucket_del key i (bs ! n)])) + mset (bs ! n) = mset (concat bs) + (mset (bs ! n) - {#e#})"
    using mset_concat_upd [OF n, of "bucket_del key i (bs ! n)"] bucket_del_mset [OF assms(2)] by (simp add: n_def)
  then have "add_mset e (mset (concat (bs[n := bucket_del key i (bs ! n)]))) = mset (concat bs)" by (simp add: m)
  then show "mset (concat (bs[n := bucket_del key i (bs ! n)])) = mset (concat bs) - {#e#}"
    by (metis add_mset_remove_trivial)
qed

lemma dump_bucket_spec:
  "cnt \<le> idx \<Longrightarrow> dump_bucket idx b cnt =
    (if idx - cnt < length b then (Some (b ! (idx - cnt)), idx) else (None, cnt + length b))"
proof (induction b arbitrary: cnt)
  case (Cons e b)
  show ?case
  proof (cases "cnt < idx")
    case True
    then have "idx - cnt = Suc (idx - Suc cnt)" by simp
    with True Cons.IH [of "Suc cnt"] show ?thesis by auto
  qed (use Cons.prems in auto)
qed simp

lemma dump_buckets_spec:
  "cnt \<le> idx \<Longrightarrow> dump_buckets idx bs cnt =
    (if idx - cnt < length (concat bs) then (Some (concat bs ! (idx - cnt)), idx)
     else (None, cnt + length (concat bs)))"
proof (induction bs arbitrary: cnt)
  case (Cons b bs)
  show ?case
  proof (cases "idx - cnt < length b")
    case True
    with Cons.prems show ?thesis by (simp add: dump_bucket_spec nth_append)
  next
    case False
    then have "cnt + length b \<le> idx" "idx - cnt - length b = idx - (cnt + length b)"
      using Cons.prems by linarith+
    with False Cons.prems Cons.IH [of "cnt + length b"] show ?thesis
      by (auto simp: dump_bucket_spec nth_append)
  qed
qed simp

lemma distinct_mset_map:
  "mset xs = add_mset x (mset ys) \<Longrightarrow> distinct (map f xs) \<longleftrightarrow> f x \<notin> f ` set ys \<and> distinct (map f ys)"
proof -
  assume "mset xs = add_mset x (mset ys)"
  then have "mset (map f xs) = mset (map f (x # ys))" by simp
  then have "distinct (map f xs) = distinct (map f (x # ys))" by (rule mset_eq_imp_distinct_iff)
  then show ?thesis by simp
qed

end
