(* ===== verification/Patricia.thy ===== *)
theory Patricia
  imports Madcap_Prelude
begin

text \<open>
  The path-compressed binary trie of \<^verbatim>\<open>patricia.c\<close> and \<^verbatim>\<open>patricia.h\<close> (the same text
  is compiled into the e1000 and the ixgbe driver), modelled on an explicit store.

  Nodes and prefixes live in two stores indexed by address, as the C code allocates them
  with \<^verbatim>\<open>kmalloc\<close>; \<^verbatim>\<open>kfree\<close> removes the cell, so that every later use of the address
  is an error. Every operation returns an \<open>option\<close>: \<open>None\<close> is a null or dangling
  dereference, a read past the address bytes, an overflow of a fixed stack, or a loop that
  does not end. That an operation returns \<open>Some\<close> is therefore a safety statement.

  Bit numbers and prefix lengths are \<^verbatim>\<open>u_int\<close> and \<^verbatim>\<open>u_short\<close> in the source. They are
  only copied and compared, and the one computed value, \<^verbatim>\<open>differ_bit\<close>, is capped by two
  of them, so \<open>nat\<close> is exact. The \<^verbatim>\<open>assert\<close> macro of the kernel port only prints and
  is left out. The \<^verbatim>\<open>add\<close> union is the list of the bytes the family fills: four for
  \<^verbatim>\<open>AF_INET\<close>.
\<close>

section \<open>Data\<close>

record prefix_t =
  family :: u16
  bitlen :: nat
  ref_count :: int
  add :: "u8 list"

record patricia_node_t =
  nbit :: nat
  prefix :: ptr
  l_ptr :: ptr
  r_ptr :: ptr
  parent :: ptr
  data :: ptr

record patricia_tree_t =
  head :: ptr
  maxbits :: nat
  num_active_node :: int

text \<open>\<open>brk\<close> is the next fresh address; \<open>mem_left\<close> is how many allocations still succeed.\<close>

record pheap =
  pnodes :: "addr \<rightharpoonup> patricia_node_t"
  pprefixes :: "addr \<rightharpoonup> prefix_t"
  brk :: addr
  mem_left :: nat

definition kmalloc :: "pheap \<Rightarrow> (addr \<times> pheap) option" where
  "kmalloc h = (if mem_left h = 0 then None
     else Some (brk h, h\<lparr>brk := Suc (brk h), mem_left := mem_left h - 1\<rparr>))"

definition put_node :: "pheap \<Rightarrow> addr \<Rightarrow> patricia_node_t \<Rightarrow> pheap" where
  "put_node h a n = h\<lparr>pnodes := (pnodes h)(a \<mapsto> n)\<rparr>"

definition put_prefix :: "pheap \<Rightarrow> addr \<Rightarrow> prefix_t \<Rightarrow> pheap" where
  "put_prefix h a p = h\<lparr>pprefixes := (pprefixes h)(a \<mapsto> p)\<rparr>"

text \<open>Writing a field of the node behind a pointer: an error when the node is not there.\<close>

definition upd_node ::
  "pheap \<Rightarrow> addr \<Rightarrow> (patricia_node_t \<Rightarrow> patricia_node_t) \<Rightarrow> pheap option" where
  "upd_node h a f = do { n \<leftarrow> pnodes h a; Some (put_node h a (f n)) }"

definition free_node :: "pheap \<Rightarrow> addr \<Rightarrow> pheap option" where
  "free_node h a = do { _ \<leftarrow> pnodes h a; Some (h\<lparr>pnodes := (pnodes h)(a := None)\<rparr>) }"

definition free_prefix :: "pheap \<Rightarrow> addr \<Rightarrow> pheap option" where
  "free_prefix h a = do { _ \<leftarrow> pprefixes h a; Some (h\<lparr>pprefixes := (pprefixes h)(a := None)\<rparr>) }"

section \<open>Prefixes\<close>

abbreviation (input) AF_INET :: u16 where "AF_INET \<equiv> 2"
abbreviation (input) AF_INET6 :: u16 where "AF_INET6 \<equiv> 10"
abbreviation (input) PATRICIA_MAXBITS :: nat where "PATRICIA_MAXBITS \<equiv> 64"

definition byte_at :: "u8 list \<Rightarrow> nat \<Rightarrow> u8 option" where
  "byte_at bs i = (if i < length bs then Some (bs ! i) else None)"

definition BIT_TEST :: "u8 \<Rightarrow> u8 \<Rightarrow> bool" where
  "BIT_TEST f b = (f AND b \<noteq> 0)"

text \<open>\<^verbatim>\<open>BIT_TEST (addr[bit >> 3], 0x80 >> (bit & 0x07))\<close>\<close>

definition test_bit :: "u8 list \<Rightarrow> nat \<Rightarrow> bool option" where
  "test_bit bs k = do { c \<leftarrow> byte_at bs (k div 8); Some (BIT_TEST c (drop_bit (k mod 8) 0x80)) }"

text \<open>\<^verbatim>\<open>memcmp\<close> over the whole bytes of the mask, then the leading bits of the next byte.\<close>

definition comp_with_mask :: "u8 list \<Rightarrow> u8 list \<Rightarrow> nat \<Rightarrow> bool option" where
  "comp_with_mask ad dest mlen =
     (let n = mlen div 8; m = push_bit (8 - mlen mod 8) (- 1 :: u8) in
      if length ad < n \<or> length dest < n then None
      else if take n ad = take n dest then
        (if mlen mod 8 = 0 then Some True
         else do { x \<leftarrow> byte_at ad n; y \<leftarrow> byte_at dest n; Some (x AND m = y AND m) })
      else Some False)"

text \<open>\<^verbatim>\<open>New_Prefix2\<close>: \<open>dest\<close> is the source buffer of the copied address, \<open>None\<close> in the
  fourth argument asks for a fresh prefix. The result pointer is null when the allocation
  or the family fails; the family check comes after the allocation and frees it.\<close>

definition New_Prefix2 ::
  "pheap \<Rightarrow> u16 \<Rightarrow> u8 list \<Rightarrow> int \<Rightarrow> ptr \<Rightarrow> (ptr \<times> pheap) option" where
  "New_Prefix2 h fam dest blen pfx =
     (let fill = (\<lambda>h a dyn n.
            if length dest < n then None
            else Some (Some a, put_prefix h a
              \<lparr>family = fam, bitlen = (if blen \<ge> 0 then nat blen mod 2 ^ 16 else n * 8),
               ref_count = (if dyn then 1 else 0), add = take n dest\<rparr>));
          go = (\<lambda>h a dyn.
            if fam = AF_INET then fill h a dyn 4
            else if fam = AF_INET6 then fill h a dyn 16
            else do { h \<leftarrow> free_prefix h a; Some (None, h) })
      in case pfx of
           None \<Rightarrow> (case kmalloc h of
                     None \<Rightarrow> Some (None, h)
                   | Some (a, h) \<Rightarrow>
                       go (put_prefix h a \<lparr>family = 0, bitlen = 0, ref_count = 0, add = replicate 16 0\<rparr>)
                          a True)
         | Some a \<Rightarrow> do { _ \<leftarrow> pprefixes h a; go h a False })"

definition New_Prefix :: "pheap \<Rightarrow> u16 \<Rightarrow> u8 list \<Rightarrow> int \<Rightarrow> (ptr \<times> pheap) option" where
  "New_Prefix h fam dest blen = New_Prefix2 h fam dest blen None"

definition Ref_Prefix :: "pheap \<Rightarrow> ptr \<Rightarrow> (ptr \<times> pheap) option" where
  "Ref_Prefix h pp =
     (case pp of
        None \<Rightarrow> Some (None, h)
      | Some a \<Rightarrow> do {
          p \<leftarrow> pprefixes h a;
          if ref_count p = 0 then New_Prefix2 h (family p) (add p) (int (bitlen p)) None
          else Some (Some a, put_prefix h a (p\<lparr>ref_count := ref_count p + 1\<rparr>)) })"

definition Deref_Prefix :: "pheap \<Rightarrow> ptr \<Rightarrow> pheap option" where
  "Deref_Prefix h pp =
     (case pp of
        None \<Rightarrow> Some h
      | Some a \<Rightarrow> do {
          p \<leftarrow> pprefixes h a;
          let p' = p\<lparr>ref_count := ref_count p - 1\<rparr>;
          if ref_count p' \<le> 0 then free_prefix (put_prefix h a p') a
          else Some (put_prefix h a p') })"

text \<open>\<^verbatim>\<open>dst2prefix\<close> of \<^verbatim>\<open>patricia.h\<close>: the four address bytes in network order.\<close>

definition be32_bytes :: "u32 \<Rightarrow> u8 list" where
  "be32_bytes w = [ucast w, ucast (drop_bit 8 w), ucast (drop_bit 16 w), ucast (drop_bit 24 w)]"

definition dst2prefix :: "u32 \<Rightarrow> u16 \<Rightarrow> prefix_t" where
  "dst2prefix ad len =
     \<lparr>family = AF_INET, bitlen = unat len, ref_count = 1, add = be32_bytes ad\<rparr>"

text \<open>The result of \<^verbatim>\<open>kmalloc\<close> is cleared without a check; the object's address is not kept.\<close>

definition New_Patricia :: "pheap \<Rightarrow> nat \<Rightarrow> (patricia_tree_t \<times> pheap) option" where
  "New_Patricia h mb = do {
     (a, h) \<leftarrow> kmalloc h;
     Some (\<lparr>head = None, maxbits = mb, num_active_node = 0\<rparr>, h) }"

section \<open>Searches\<close>

partial_function (option) search_exact_loop ::
  "pheap \<Rightarrow> u8 list \<Rightarrow> nat \<Rightarrow> addr \<Rightarrow> ptr option" where
  "search_exact_loop h ad blen node = do {
     n \<leftarrow> pnodes h node;
     if nbit n < blen then do {
       b \<leftarrow> test_bit ad (nbit n);
       (case (if b then r_ptr n else l_ptr n) of
          None \<Rightarrow> Some None
        | Some a \<Rightarrow> search_exact_loop h ad blen a) }
     else Some (Some node) }"

definition patricia_search_exact ::
  "pheap \<Rightarrow> patricia_tree_t \<Rightarrow> prefix_t \<Rightarrow> ptr option" where
  "patricia_search_exact h t pfx =
     (case head t of
        None \<Rightarrow> Some None
      | Some hn \<Rightarrow> do {
          res \<leftarrow> search_exact_loop h (add pfx) (bitlen pfx) hn;
          (case res of
             None \<Rightarrow> Some None
           | Some a \<Rightarrow> do {
               n \<leftarrow> pnodes h a;
               if nbit n > bitlen pfx then Some None
               else (case prefix n of
                  None \<Rightarrow> Some None
                | Some pa \<Rightarrow> do {
                    p \<leftarrow> pprefixes h pa;
                    c \<leftarrow> comp_with_mask (add p) (add pfx) (bitlen pfx);
                    Some (if c then Some a else None) }) }) })"

text \<open>The descent of \<^verbatim>\<open>patricia_search_best2\<close>; the stack array has
  \<^verbatim>\<open>PATRICIA_MAXBITS + 1\<close> slots and its newest element is the head of the list.\<close>

definition push_stack :: "addr list \<Rightarrow> addr \<Rightarrow> addr list option" where
  "push_stack stk a = (if length stk < PATRICIA_MAXBITS + 1 then Some (a # stk) else None)"

partial_function (option) search_best_loop ::
  "pheap \<Rightarrow> u8 list \<Rightarrow> nat \<Rightarrow> addr \<Rightarrow> addr list \<Rightarrow> (ptr \<times> addr list) option" where
  "search_best_loop h ad blen node stk = do {
     n \<leftarrow> pnodes h node;
     if nbit n < blen then do {
       stk \<leftarrow> (if prefix n = None then Some stk else push_stack stk node);
       b \<leftarrow> test_bit ad (nbit n);
       (case (if b then r_ptr n else l_ptr n) of
          None \<Rightarrow> Some (None, stk)
        | Some a \<Rightarrow> search_best_loop h ad blen a stk) }
     else Some (Some node, stk) }"

fun search_best_pop :: "pheap \<Rightarrow> u8 list \<Rightarrow> nat \<Rightarrow> addr list \<Rightarrow> ptr option" where
  "search_best_pop h ad blen [] = Some None"
| "search_best_pop h ad blen (a # stk) = do {
     n \<leftarrow> pnodes h a;
     pa \<leftarrow> prefix n;
     p \<leftarrow> pprefixes h pa;
     c \<leftarrow> comp_with_mask (add p) ad (bitlen p);
     if c \<and> bitlen p \<le> blen then Some (Some a) else search_best_pop h ad blen stk }"

text \<open>\<^verbatim>\<open>if (inclusive && node && node->prefix) stack[cnt++] = node\<close>\<close>

definition search_best_end :: "pheap \<Rightarrow> bool \<Rightarrow> ptr \<Rightarrow> addr list \<Rightarrow> addr list option" where
  "search_best_end h inclusive node stk =
     (case node of
        Some a \<Rightarrow> if inclusive then do {
                    n \<leftarrow> pnodes h a;
                    if prefix n = None then Some stk else push_stack stk a }
                  else Some stk
      | None \<Rightarrow> Some stk)"

definition patricia_search_best2 ::
  "pheap \<Rightarrow> patricia_tree_t \<Rightarrow> prefix_t \<Rightarrow> bool \<Rightarrow> ptr option" where
  "patricia_search_best2 h t pfx inclusive =
     (case head t of
        None \<Rightarrow> Some None
      | Some hn \<Rightarrow> do {
          (node, stk) \<leftarrow> search_best_loop h (add pfx) (bitlen pfx) hn [];
          stk \<leftarrow> search_best_end h inclusive node stk;
          search_best_pop h (add pfx) (bitlen pfx) stk })"

definition patricia_search_best ::
  "pheap \<Rightarrow> patricia_tree_t \<Rightarrow> prefix_t \<Rightarrow> ptr option" where
  "patricia_search_best h t pfx = patricia_search_best2 h t pfx True"

section \<open>Insertion\<close>

text \<open>The descent, the first differing bit, and the walk back up of \<^verbatim>\<open>patricia_lookup\<close>.\<close>

definition lookup_dir :: "nat \<Rightarrow> u8 list \<Rightarrow> nat \<Rightarrow> bool option" where
  "lookup_dir mb ad k = (if k < mb then test_bit ad k else Some False)"

partial_function (option) lookup_descend ::
  "pheap \<Rightarrow> nat \<Rightarrow> u8 list \<Rightarrow> nat \<Rightarrow> addr \<Rightarrow> addr option" where
  "lookup_descend h mb ad blen node = do {
     n \<leftarrow> pnodes h node;
     if nbit n < blen \<or> prefix n = None then do {
       b \<leftarrow> lookup_dir mb ad (nbit n);
       (case (if b then r_ptr n else l_ptr n) of
          None \<Rightarrow> Some node
        | Some a \<Rightarrow> lookup_descend h mb ad blen a) }
     else Some node }"

function differ_j :: "u8 \<Rightarrow> nat \<Rightarrow> nat" where
  "differ_j x j = (if j < 8 \<and> \<not> BIT_TEST x (drop_bit j 0x80) then differ_j x (Suc j) else j)"
  by pat_completeness auto
termination
  by (relation "measure (\<lambda>(x, j). 8 - j)") auto

function differ_loop :: "u8 list \<Rightarrow> u8 list \<Rightarrow> nat \<Rightarrow> nat \<Rightarrow> nat \<Rightarrow> nat option" where
  "differ_loop ad test_ad check_bit i differ_bit =
     (if i * 8 < check_bit then do {
        x \<leftarrow> byte_at ad i;
        y \<leftarrow> byte_at test_ad i;
        let rr = x XOR y;
        if rr = 0 then differ_loop ad test_ad check_bit (Suc i) ((i + 1) * 8)
        else Some (i * 8 + differ_j rr 0) }
      else Some differ_bit)"
  by pat_completeness auto
termination
  by (relation "measure (\<lambda>(ad, test_ad, check_bit, i, d). check_bit - i)") auto

partial_function (option) lookup_up :: "pheap \<Rightarrow> nat \<Rightarrow> addr \<Rightarrow> addr option" where
  "lookup_up h differ_bit node = do {
     n \<leftarrow> pnodes h node;
     (case parent n of
        None \<Rightarrow> Some node
      | Some p \<Rightarrow> do {
          pn \<leftarrow> pnodes h p;
          if nbit pn \<ge> differ_bit then lookup_up h differ_bit p else Some node }) }"

text \<open>Redirecting the link that leads to \<open>node\<close> (from its parent, or from the tree head)
  to \<open>new\<close>; all three places of the source that do so have this shape.\<close>

definition relink ::
  "pheap \<Rightarrow> patricia_tree_t \<Rightarrow> ptr \<Rightarrow> addr \<Rightarrow> ptr \<Rightarrow> (patricia_tree_t \<times> pheap) option" where
  "relink h t par node new =
     (case par of
        None \<Rightarrow> Some (t\<lparr>head := new\<rparr>, h)
      | Some p \<Rightarrow> do {
          pn \<leftarrow> pnodes h p;
          Some (t, put_node h p (if r_ptr pn = Some node then pn\<lparr>r_ptr := new\<rparr> else pn\<lparr>l_ptr := new\<rparr>)) })"

definition new_patricia_node ::
  "pheap \<Rightarrow> nat \<Rightarrow> ptr \<Rightarrow> (addr \<times> pheap) option" where
  "new_patricia_node h b pfx = do {
     (a, h) \<leftarrow> kmalloc h;
     (pp, h) \<leftarrow> Ref_Prefix h pfx;
     Some (a, put_node h a \<lparr>nbit = b, prefix = pp, l_ptr = None, r_ptr = None, parent = None, data = None\<rparr>) }"

text \<open>The three ways a new node enters a non-empty trie: below \<open>node\<close>, directly above it,
  or beside it under a fresh glue node.\<close>

definition link_child ::
  "pheap \<Rightarrow> patricia_tree_t \<Rightarrow> u8 list \<Rightarrow> addr \<Rightarrow> patricia_node_t \<Rightarrow> addr
     \<Rightarrow> (patricia_tree_t \<times> pheap) option" where
  "link_child h t ad node n new_node = do {
     h \<leftarrow> upd_node h new_node (\<lambda>m. m\<lparr>parent := Some node\<rparr>);
     b \<leftarrow> lookup_dir (maxbits t) ad (nbit n);
     h \<leftarrow> upd_node h node (\<lambda>m. if b then m\<lparr>r_ptr := Some new_node\<rparr> else m\<lparr>l_ptr := Some new_node\<rparr>);
     Some (t, h) }"

definition link_above ::
  "pheap \<Rightarrow> patricia_tree_t \<Rightarrow> u8 list \<Rightarrow> nat \<Rightarrow> addr \<Rightarrow> patricia_node_t \<Rightarrow> addr
     \<Rightarrow> (patricia_tree_t \<times> pheap) option" where
  "link_above h t test_ad blen node n new_node = do {
     b \<leftarrow> lookup_dir (maxbits t) test_ad blen;
     h \<leftarrow> upd_node h new_node (\<lambda>m. (if b then m\<lparr>r_ptr := Some node\<rparr> else m\<lparr>l_ptr := Some node\<rparr>));
     h \<leftarrow> upd_node h new_node (\<lambda>m. m\<lparr>parent := parent n\<rparr>);
     (t, h) \<leftarrow> relink h t (parent n) node (Some new_node);
     h \<leftarrow> upd_node h node (\<lambda>m. m\<lparr>parent := Some new_node\<rparr>);
     Some (t, h) }"

definition link_glue ::
  "pheap \<Rightarrow> patricia_tree_t \<Rightarrow> u8 list \<Rightarrow> nat \<Rightarrow> addr \<Rightarrow> patricia_node_t \<Rightarrow> addr
     \<Rightarrow> (patricia_tree_t \<times> pheap) option" where
  "link_glue h t ad differ_bit node n new_node = do {
     (glue, h) \<leftarrow> kmalloc h;
     b \<leftarrow> lookup_dir (maxbits t) ad differ_bit;
     h \<leftarrow> upd_node (put_node h glue
            \<lparr>nbit = differ_bit, prefix = None,
             l_ptr = (if b then Some node else Some new_node),
             r_ptr = (if b then Some new_node else Some node),
             parent = parent n, data = None\<rparr>) new_node (\<lambda>m. m\<lparr>parent := Some glue\<rparr>);
     (t, h) \<leftarrow> relink h (t\<lparr>num_active_node := num_active_node t + 1\<rparr>) (parent n) node (Some glue);
     h \<leftarrow> upd_node h node (\<lambda>m. m\<lparr>parent := Some glue\<rparr>);
     Some (t, h) }"

text \<open>The first bit in which \<open>ad\<close> differs from the prefix of \<open>n\<close>, capped by both lengths.\<close>

definition lookup_differ :: "u8 list \<Rightarrow> nat \<Rightarrow> patricia_node_t \<Rightarrow> prefix_t \<Rightarrow> nat option" where
  "lookup_differ ad blen n tp =
     (let check_bit = (if nbit n < blen then nbit n else blen) in
      do { d \<leftarrow> differ_loop ad (add tp) check_bit 0 0;
           Some (if d > check_bit then check_bit else d) })"

definition patricia_lookup ::
  "pheap \<Rightarrow> patricia_tree_t \<Rightarrow> addr \<Rightarrow> (addr \<times> patricia_tree_t \<times> pheap) option" where
  "patricia_lookup h t pfx = do {
     p \<leftarrow> pprefixes h pfx;
     (case head t of
        None \<Rightarrow> do {
          (node, h) \<leftarrow> new_patricia_node h (bitlen p) (Some pfx);
          Some (node, t\<lparr>head := Some node, num_active_node := num_active_node t + 1\<rparr>, h) }
      | Some hn \<Rightarrow> do {
          node0 \<leftarrow> lookup_descend h (maxbits t) (add p) (bitlen p) hn;
          n0 \<leftarrow> pnodes h node0;
          tpa \<leftarrow> prefix n0;
          tp \<leftarrow> pprefixes h tpa;
          differ_bit \<leftarrow> lookup_differ (add p) (bitlen p) n0 tp;
          node \<leftarrow> lookup_up h differ_bit node0;
          n \<leftarrow> pnodes h node;
          if differ_bit = bitlen p \<and> nbit n = bitlen p then
            (case prefix n of
               Some _ \<Rightarrow> Some (node, t, h)
             | None \<Rightarrow> do {
                 (pp, h) \<leftarrow> Ref_Prefix h (Some pfx);
                 h \<leftarrow> upd_node h node (\<lambda>m. m\<lparr>prefix := pp\<rparr>);
                 Some (node, t, h) })
          else do {
            (new_node, h) \<leftarrow> new_patricia_node h (bitlen p) (Some pfx);
            (t, h) \<leftarrow>
              (let t = t\<lparr>num_active_node := num_active_node t + 1\<rparr> in
               if nbit n = differ_bit then link_child h t (add p) node n new_node
               else if bitlen p = differ_bit then link_above h t (add tp) (bitlen p) node n new_node
               else link_glue h t (add p) differ_bit node n new_node);
            Some (new_node, t, h) } }) }"

section \<open>Removal\<close>

definition patricia_remove ::
  "pheap \<Rightarrow> patricia_tree_t \<Rightarrow> addr \<Rightarrow> (patricia_tree_t \<times> pheap) option" where
  "patricia_remove h t node = do {
     n \<leftarrow> pnodes h node;
     (case (r_ptr n, l_ptr n) of
        (Some _, Some _) \<Rightarrow> do {
          h \<leftarrow> Deref_Prefix h (prefix n);
          h \<leftarrow> upd_node h node (\<lambda>m. m\<lparr>prefix := None, data := None\<rparr>);
          Some (t, h) }
      | (None, None) \<Rightarrow> do {
          h \<leftarrow> Deref_Prefix h (prefix n);
          h \<leftarrow> free_node h node;
          let t = t\<lparr>num_active_node := num_active_node t - 1\<rparr>;
          (case parent n of
             None \<Rightarrow> Some (t\<lparr>head := None\<rparr>, h)
           | Some p \<Rightarrow> do {
               pn \<leftarrow> pnodes h p;
               let isr = (r_ptr pn = Some node);
               let child = (if isr then l_ptr pn else r_ptr pn);
               h \<leftarrow> upd_node h p (\<lambda>m. if isr then m\<lparr>r_ptr := None\<rparr> else m\<lparr>l_ptr := None\<rparr>);
               if prefix pn \<noteq> None then Some (t, h)
               else do {
                 (t, h) \<leftarrow> relink h t (parent pn) p child;
                 c \<leftarrow> child;
                 h \<leftarrow> upd_node h c (\<lambda>m. m\<lparr>parent := parent pn\<rparr>);
                 h \<leftarrow> free_node h p;
                 Some (t\<lparr>num_active_node := num_active_node t - 1\<rparr>, h) } }) }
      | (cr, cl) \<Rightarrow> do {
          child \<leftarrow> (case cr of Some c \<Rightarrow> Some c | None \<Rightarrow> cl);
          h \<leftarrow> upd_node h child (\<lambda>m. m\<lparr>parent := parent n\<rparr>);
          h \<leftarrow> Deref_Prefix h (prefix n);
          h \<leftarrow> free_node h node;
          let t = t\<lparr>num_active_node := num_active_node t - 1\<rparr>;
          relink h t (parent n) node (Some child) }) }"

end
