(* ===== verification/Patricia_Bits.thy ===== *)
theory Patricia_Bits
  imports Patricia
begin

text \<open>
  The byte-level bit tests of \<^verbatim>\<open>patricia.c\<close> read as operations on bit strings: an address
  is the list of its bits, most significant bit of the first byte first. The key of a
  prefix is the first \<^verbatim>\<open>bitlen\<close> bits of its address.
\<close>

definition pbit :: "u8 list \<Rightarrow> nat \<Rightarrow> bool" where
  "pbit bs k = bit (bs ! (k div 8)) (7 - k mod 8)"

definition addr_bits :: "u8 list \<Rightarrow> bool list" where
  "addr_bits bs = map (pbit bs) [0..<8 * length bs]"

definition key_of :: "prefix_t \<Rightarrow> bool list" where
  "key_of p = take (bitlen p) (addr_bits (add p))"

lemma length_addr_bits [simp]: "length (addr_bits bs) = 8 * length bs"
  by (simp add: addr_bits_def)

lemma nth_addr_bits [simp]: "k < 8 * length bs \<Longrightarrow> addr_bits bs ! k = pbit bs k"
  by (simp add: addr_bits_def)

lemma less_8_cases: "(j::nat) < 8 \<Longrightarrow> j = 0 \<or> j = 1 \<or> j = 2 \<or> j = 3 \<or> j = 4 \<or> j = 5 \<or> j = 6 \<or> j = 7"
  by arith

lemma BIT_TEST_bit: "j < 8 \<Longrightarrow> BIT_TEST c (drop_bit j 0x80) = bit c (7 - j)"
proof -
  assume j: "j < 8"
  have "drop_bit j (0x80 :: u8) = 2 ^ (7 - j)"
    using less_8_cases [OF j] by (elim disjE) simp_all
  then show ?thesis
    by (simp add: BIT_TEST_def and_exp_eq_0_iff_not_bit)
qed

lemma test_bit_Some [simp]: "k < 8 * length bs \<Longrightarrow> test_bit bs k = Some (pbit bs k)"
  by (simp add: test_bit_def byte_at_def pbit_def BIT_TEST_bit div_less_iff_less_mult mult.commute)

lemma lookup_dir_Some [simp]:
  "mb \<le> 8 * length bs \<Longrightarrow> lookup_dir mb bs k = Some (k < mb \<and> pbit bs k)"
  by (simp add: lookup_dir_def)

lemma u8_eq_iff_bits: "(x :: u8) = y \<longleftrightarrow> (\<forall>j < 8. bit x (7 - j) = bit y (7 - j))"
proof
  assume a: "\<forall>j < 8. bit x (7 - j) = bit y (7 - j)"
  show "x = y"
  proof (rule bit_word_eqI)
    fix n assume "n < LENGTH(8)"
    then have "7 - n < 8" and "7 - (7 - n) = n" by simp_all
    then show "bit x n = bit y n" using a by (metis (no_types))
  qed
qed simp

lemma take_bytes_eq_iff:
  assumes "n \<le> length x" "n \<le> length y"
  shows "take n x = take n y \<longleftrightarrow> take (8 * n) (addr_bits x) = take (8 * n) (addr_bits y)"
proof -
  have "take n x = take n y \<longleftrightarrow> (\<forall>i < n. x ! i = y ! i)"
    using assms by (auto simp: list_eq_iff_nth_eq)
  also have "\<dots> \<longleftrightarrow> (\<forall>i < n. \<forall>j < 8. pbit x (8 * i + j) = pbit y (8 * i + j))"
    by (simp add: u8_eq_iff_bits pbit_def)
  also have "\<dots> \<longleftrightarrow> (\<forall>k < 8 * n. pbit x k = pbit y k)"
  proof (rule iffI; intro allI impI)
    fix k assume a: "\<forall>i < n. \<forall>j < 8. pbit x (8 * i + j) = pbit y (8 * i + j)" and k: "k < 8 * n"
    have "k div 8 < n" using k by auto
    moreover have "k mod 8 < 8" by simp
    moreover have "8 * (k div 8) + k mod 8 = k" by simp
    ultimately show "pbit x k = pbit y k" using a by metis
  qed simp
  also have "\<dots> \<longleftrightarrow> take (8 * n) (addr_bits x) = take (8 * n) (addr_bits y)"
    using assms by (auto simp: list_eq_iff_nth_eq)
  finally show ?thesis .
qed

lemma and_high_mask_eq_iff:
  assumes "k < 8"
  shows "(x AND NOT (mask (8 - k) :: u8) = y AND NOT (mask (8 - k)))
    \<longleftrightarrow> (\<forall>j < k. bit x (7 - j) = bit y (7 - j))"
proof
  assume e: "x AND NOT (mask (8 - k)) = y AND NOT (mask (8 - k))"
  show "\<forall>j < k. bit x (7 - j) = bit y (7 - j)"
  proof (intro allI impI)
    fix j assume "j < k"
    with e assms show "bit x (7 - j) = bit y (7 - j)"
      by (auto simp: bit_eq_iff bit_and_iff bit_not_iff bit_mask_iff dest!: spec [of _ "7 - j"])
  qed
next
  assume a: "\<forall>j < k. bit x (7 - j) = bit y (7 - j)"
  show "x AND NOT (mask (8 - k)) = y AND NOT (mask (8 - k))"
  proof (rule bit_word_eqI)
    fix n assume n: "n < LENGTH(8)"
    show "bit (x AND NOT (mask (8 - k))) n = bit (y AND NOT (mask (8 - k))) n"
    proof (cases "8 - k \<le> n")
      case True
      with n assms have "7 - n < k" and "7 - (7 - n) = n" by simp_all
      with a have "bit x n = bit y n" by (metis (no_types))
      then show ?thesis by (simp add: bit_and_iff)
    qed (simp add: bit_and_iff bit_not_iff bit_mask_iff)
  qed
qed

lemma take_all_less:
  "m \<le> length xs \<Longrightarrow> m \<le> length ys \<Longrightarrow> take m xs = take m ys \<longleftrightarrow> (\<forall>i < m. xs ! i = ys ! i)"
  by (auto simp: list_eq_iff_nth_eq)

lemma comp_with_mask_bits:
  assumes "m \<le> 8 * length x" "m \<le> 8 * length y"
  shows "comp_with_mask x y m = Some (take m (addr_bits x) = take m (addr_bits y))"
proof -
  let ?n = "m div 8" and ?k = "m mod 8"
  have n: "?n \<le> length x" "?n \<le> length y" using assms by auto
  have m: "m = 8 * ?n + ?k" by simp
  show ?thesis
  proof (cases "take ?n x = take ?n y")
    case False
    then have "take (8 * ?n) (addr_bits x) \<noteq> take (8 * ?n) (addr_bits y)"
      using take_bytes_eq_iff n by blast
    moreover have "8 * ?n \<le> m" by simp
    ultimately have "take m (addr_bits x) \<noteq> take m (addr_bits y)"
      by (metis min.absorb1 take_take)
    with False n show ?thesis by (simp add: comp_with_mask_def)
  next
    case whole: True
    then have pre: "\<forall>i < 8 * ?n. pbit x i = pbit y i"
      using take_bytes_eq_iff n assms by (simp add: take_all_less)
    show ?thesis
    proof (cases "?k = 0")
      case True
      then have m8: "8 * ?n = m" using m by linarith
      have "take m (addr_bits x) = take m (addr_bits y)"
        using whole take_bytes_eq_iff [OF n] unfolding m8 by blast
      with whole n True show ?thesis by (simp add: comp_with_mask_def)
    next
      case False
      have lx: "?n < length x" "?n < length y" using assms False by presburger+
      have "?k < 8" by simp
      then have "(x ! ?n AND push_bit (8 - ?k) (- 1) = y ! ?n AND push_bit (8 - ?k) (- 1))
          \<longleftrightarrow> (\<forall>j < ?k. pbit x (8 * ?n + j) = pbit y (8 * ?n + j))"
        by (simp add: and_high_mask_eq_iff pbit_def)
      also have "\<dots> \<longleftrightarrow> (\<forall>i < m. pbit x i = pbit y i)"
      proof (rule iffI; intro allI impI)
        fix i assume a: "\<forall>j < ?k. pbit x (8 * ?n + j) = pbit y (8 * ?n + j)" and i: "i < m"
        show "pbit x i = pbit y i"
        proof (cases "i < 8 * ?n")
          case False
          then obtain j where j: "i = 8 * ?n + j" by (metis add_diff_inverse_nat)
          with i m have "j < ?k" by linarith
          with a j show ?thesis by simp
        qed (use pre in simp)
      next
        fix j assume a: "\<forall>i < m. pbit x i = pbit y i" and j: "j < ?k"
        have "8 * ?n + j < m" using j m by linarith
        with a show "pbit x (8 * ?n + j) = pbit y (8 * ?n + j)" by simp
      qed
      finally show ?thesis
        using whole n False lx assms
        by (simp add: comp_with_mask_def byte_at_def take_all_less)
    qed
  qed
qed

section \<open>The first differing bit\<close>

declare differ_j.simps [simp del] differ_loop.simps [simp del]

lemma differ_j_spec:
  assumes "x \<noteq> 0" "\<forall>i < j. \<not> bit x (7 - i)" "j \<le> 7"
  shows "differ_j x j < 8 \<and> bit x (7 - differ_j x j) \<and> (\<forall>i < differ_j x j. \<not> bit x (7 - i))"
  using assms
proof (induction x j rule: differ_j.induct)
  case (1 x j)
  show ?case
  proof (cases "bit x (7 - j)")
    case True
    then have "differ_j x j = j"
      using "1.prems" by (subst differ_j.simps) (simp add: BIT_TEST_bit)
    with True "1.prems" show ?thesis by simp
  next
    case False
    then have step: "differ_j x j = differ_j x (Suc j)"
      using "1.prems" by (subst differ_j.simps) (simp add: BIT_TEST_bit)
    have pre: "\<forall>i < Suc j. \<not> bit x (7 - i)"
      using False "1.prems" by (auto simp: less_Suc_eq)
    have "Suc j \<le> 7"
    proof (rule ccontr)
      assume "\<not> Suc j \<le> 7"
      then have "\<forall>i < 8. \<not> bit x (7 - i)" using pre "1.prems"(3) by auto
      then have "x = 0" by (simp add: u8_eq_iff_bits)
      with "1.prems" show False by simp
    qed
    moreover have "j < 8 \<and> \<not> BIT_TEST x (drop_bit j 0x80)"
      using False "1.prems" by (simp add: BIT_TEST_bit)
    ultimately show ?thesis
      using "1.IH" "1.prems"(1) pre step by simp
  qed
qed

lemma differ_loop_spec:
  assumes "check \<le> 8 * length x" "check \<le> 8 * length y"
    "\<forall>k < 8 * i. pbit x k = pbit y k" "d = i * 8"
  shows "\<exists>e. differ_loop x y check i d = Some e \<and>
    (\<forall>k < e. pbit x k = pbit y k) \<and> (e < check \<longrightarrow> pbit x e \<noteq> pbit y e)"
  using assms
proof (induction x y check i d rule: differ_loop.induct)
  case (1 x y check i d)
  show ?case
  proof (cases "i * 8 < check")
    case False
    with "1.prems" show ?thesis
      by (subst differ_loop.simps) (simp add: mult.commute)
  next
    case True
    then have b: "byte_at x i = Some (x ! i)" "byte_at y i = Some (y ! i)"
      using "1.prems" by (simp_all add: byte_at_def)
    have byte: "pbit z (8 * i + j) = bit (z ! i) (7 - j)" if "j < 8" for z j
      using that by (simp add: pbit_def)
    show ?thesis
    proof (cases "x ! i XOR y ! i = 0")
      case z: True
      then have eq: "x ! i = y ! i" by (auto simp: bit_eq_iff bit_xor_iff)
      have "\<forall>k < 8 * Suc i. pbit x k = pbit y k"
      proof (intro allI impI)
        fix k assume "k < 8 * Suc i"
        then consider "k < 8 * i" | j where "j < 8" "k = 8 * i + j"
          by (metis add_less_cancel_left le_add_diff_inverse linorder_not_less mult_Suc_right add.commute)
        then show "pbit x k = pbit y k"
          by cases (use "1.prems" eq in \<open>auto simp: byte\<close>)
      qed
      then show ?thesis
        using True b z "1.IH" [OF True b refl z] "1.prems"
        by (subst differ_loop.simps) (simp add: algebra_simps)
    next
      case nz: False
      let ?j = "differ_j (x ! i XOR y ! i) 0"
      have j: "?j < 8" "bit (x ! i XOR y ! i) (7 - ?j)"
          "\<forall>k < ?j. \<not> bit (x ! i XOR y ! i) (7 - k)"
        using differ_j_spec [OF nz, of 0] by simp_all
      have "pbit x k = pbit y k" if "k < 8 * i + ?j" for k
      proof (cases "k < 8 * i")
        case False
        then obtain m where m: "k = 8 * i + m" by (metis add_diff_inverse_nat)
        with that j have "m < 8" "m < ?j" by simp_all
        with j m show ?thesis by (simp add: byte bit_xor_iff)
      qed (use "1.prems" in simp)
      moreover have "pbit x (8 * i + ?j) \<noteq> pbit y (8 * i + ?j)"
        using j by (simp add: byte bit_xor_iff)
      ultimately show ?thesis
        using True b nz by (subst differ_loop.simps) (simp add: mult.commute)
    qed
  qed
qed

text \<open>\<^verbatim>\<open>differ_bit\<close> is the length of the longest common prefix, capped by both lengths.\<close>

lemma lookup_differ_spec:
  assumes "nbit n \<le> 8 * length (add tp)" "blen \<le> 8 * length ad"
    "min (nbit n) blen \<le> 8 * length ad" "min (nbit n) blen \<le> 8 * length (add tp)"
  obtains d where "lookup_differ ad blen n tp = Some d" "d \<le> nbit n" "d \<le> blen"
    "take d (addr_bits ad) = take d (addr_bits (add tp))"
    "d < nbit n \<Longrightarrow> d < blen \<Longrightarrow> pbit ad d \<noteq> pbit (add tp) d"
proof -
  let ?c = "min (nbit n) blen"
  obtain e where e: "differ_loop ad (add tp) ?c 0 0 = Some e"
      "\<forall>k < e. pbit ad k = pbit (add tp) k" "e < ?c \<longrightarrow> pbit ad e \<noteq> pbit (add tp) e"
    using differ_loop_spec [of ?c ad "add tp" 0 0] assms by auto
  have c: "(if nbit n < blen then nbit n else blen) = ?c" by simp
  have res: "lookup_differ ad blen n tp = Some (min e ?c)"
    using e(1) by (simp add: lookup_differ_def Let_def c min_def)
  show ?thesis
  proof (rule that [OF res])
    show "take (min e ?c) (addr_bits ad) = take (min e ?c) (addr_bits (add tp))"
      using e(2) assms by (subst take_all_less) auto
  qed (use e(3) in \<open>auto simp: min_def split: if_splits\<close>)
qed

lemma key_of_dst2prefix: "unat len \<le> 32 \<Longrightarrow> length (key_of (dst2prefix a len)) = unat len"
  by (simp add: key_of_def dst2prefix_def be32_bytes_def)

end
