(* ===== verification/Patricia_Tree.thy ===== *)
theory Patricia_Tree
  imports Patricia_Bits
begin

text \<open>
  The shape behind the pointers: a tree of nodes, a position in it (a list of frames from
  the position up to the root), the invariant of the trie, and the predicate that says
  that a store holds a given tree. The operations of \<open>Patricia\<close> are related to it in
  \<open>Patricia_Search\<close>, \<open>Patricia_Insert\<close> and \<open>Patricia_Remove\<close>.
\<close>

section \<open>Trees and positions\<close>

type_synonym pkey = "(addr \<times> bool list) option"

datatype ptree = PLf | PNd addr nat pkey ptr ptree ptree

fun troot :: "ptree \<Rightarrow> ptr" where
  "troot PLf = None"
| "troot (PNd a b pf d lt rt) = Some a"

fun tbit :: "ptree \<Rightarrow> nat" where
  "tbit PLf = 0"
| "tbit (PNd a b pf d lt rt) = b"

fun taddrs :: "ptree \<Rightarrow> addr list" where
  "taddrs PLf = []"
| "taddrs (PNd a b pf d lt rt) = a # taddrs lt @ taddrs rt"

definition own_prefs :: "pkey \<Rightarrow> addr list" where
  "own_prefs pf = (case pf of None \<Rightarrow> [] | Some (pa, k) \<Rightarrow> [pa])"

fun tprefs :: "ptree \<Rightarrow> addr list" where
  "tprefs PLf = []"
| "tprefs (PNd a b pf d lt rt) = own_prefs pf @ tprefs lt @ tprefs rt"

text \<open>The content of a trie: key, node address and data of every node with a prefix.\<close>

definition own_ents :: "addr \<Rightarrow> pkey \<Rightarrow> ptr \<Rightarrow> (bool list \<times> addr \<times> ptr) set" where
  "own_ents a pf d = (case pf of None \<Rightarrow> {} | Some (pa, k) \<Rightarrow> {(k, a, d)})"

fun ents :: "ptree \<Rightarrow> (bool list \<times> addr \<times> ptr) set" where
  "ents PLf = {}"
| "ents (PNd a b pf d lt rt) = own_ents a pf d \<union> ents lt \<union> ents rt"

definition keys :: "ptree \<Rightarrow> bool list set" where
  "keys t = fst ` ents t"

datatype frame = Fr bool addr nat pkey ptr ptree

fun fill :: "frame \<Rightarrow> ptree \<Rightarrow> ptree" where
  "fill (Fr dir a b pf d s) t = (if dir then PNd a b pf d s t else PNd a b pf d t s)"

fun plug :: "frame list \<Rightarrow> ptree \<Rightarrow> ptree" where
  "plug [] t = t"
| "plug (f # fs) t = plug fs (fill f t)"

fun faddr :: "frame \<Rightarrow> addr" where "faddr (Fr dir a b pf d s) = a"
fun fbit :: "frame \<Rightarrow> nat" where "fbit (Fr dir a b pf d s) = b"
fun fdir :: "frame \<Rightarrow> bool" where "fdir (Fr dir a b pf d s) = dir"

fun top :: "frame list \<Rightarrow> ptr" where
  "top [] = None"
| "top (f # fs) = Some (faddr f)"

fun caddrs :: "frame list \<Rightarrow> addr list" where
  "caddrs [] = []"
| "caddrs (Fr dir a b pf d s # fs) = a # taddrs s @ caddrs fs"

fun cprefs :: "frame list \<Rightarrow> addr list" where
  "cprefs [] = []"
| "cprefs (Fr dir a b pf d s # fs) = own_prefs pf @ tprefs s @ cprefs fs"

fun cents :: "frame list \<Rightarrow> (bool list \<times> addr \<times> ptr) set" where
  "cents [] = {}"
| "cents (Fr dir a b pf d s # fs) = own_ents a pf d \<union> ents s \<union> cents fs"

lemma plug_append: "plug (xs @ ys) t = plug ys (plug xs t)"
  by (induction xs arbitrary: t) auto

lemma fill_not_PLf [simp]: "fill f t \<noteq> PLf"
  by (cases f) auto

lemma plug_not_PLf [simp]: "t \<noteq> PLf \<Longrightarrow> plug fs t \<noteq> PLf"
  by (induction fs arbitrary: t) auto

lemma troot_fill [simp]: "troot (fill f t) = Some (faddr f)"
  by (cases f) auto

lemma tbit_fill [simp]: "tbit (fill f t) = fbit f"
  by (cases f) auto

lemma troot_plug_Cons: "troot (plug (f # fs) t) = troot (plug (f # fs) t')"
  by (induction fs arbitrary: f t t') auto

lemma troot_None [simp]: "troot t = None \<longleftrightarrow> t = PLf"
  by (cases t) auto

lemma ents_plug: "ents (plug fs t) = ents t \<union> cents fs"
  by (induction fs arbitrary: t rule: caddrs.induct) auto

lemma keys_simps [simp]:
  "keys PLf = {}"
  "keys (PNd a b pf d lt rt) = (case pf of None \<Rightarrow> {} | Some (pa, k) \<Rightarrow> {k}) \<union> keys lt \<union> keys rt"
  by (auto simp: keys_def own_ents_def split: option.splits)

lemma keys_fill: "keys (fill (Fr dir a b pf d s) t) = keys (PNd a b pf d s t)"
  by auto

lemma distinct_taddrs_plug: "distinct (taddrs (plug fs t)) \<longleftrightarrow> distinct (taddrs t @ caddrs fs)"
  by (induction fs arbitrary: t rule: caddrs.induct) auto

lemma set_taddrs_plug: "set (taddrs (plug fs t)) = set (taddrs t) \<union> set (caddrs fs)"
  by (induction fs arbitrary: t rule: caddrs.induct) auto

lemma length_taddrs_plug: "length (taddrs (plug fs t)) = length (taddrs t) + length (caddrs fs)"
  by (induction fs arbitrary: t rule: caddrs.induct) auto

lemma distinct_tprefs_plug: "distinct (tprefs (plug fs t)) \<longleftrightarrow> distinct (tprefs t @ cprefs fs)"
  by (induction fs arbitrary: t rule: caddrs.induct) auto

lemma set_tprefs_plug: "set (tprefs (plug fs t)) = set (tprefs t) \<union> set (cprefs fs)"
  by (induction fs arbitrary: t rule: caddrs.induct) auto

lemmas plug_sets = ents_plug distinct_taddrs_plug set_taddrs_plug length_taddrs_plug
  distinct_tprefs_plug set_tprefs_plug

lemma troot_in_taddrs: "troot t = Some a \<Longrightarrow> a \<in> set (taddrs t)"
  by (cases t) auto

lemma ents_position:
  "(k, a, d) \<in> ents t \<Longrightarrow>
    \<exists>fs b pa lt rt. t = plug fs (PNd a b (Some (pa, k)) d lt rt)"
proof (induction t)
  case (PNd x b pf e lt rt)
  from PNd.prems consider
      (own) "(k, a, d) \<in> own_ents x pf e" | (left) "(k, a, d) \<in> ents lt" | (right) "(k, a, d) \<in> ents rt"
    by auto
  then show ?case
  proof cases
    case own
    then show ?thesis
      by (auto simp: own_ents_def split: option.splits intro!: exI [of _ "[]"])
  next
    case left
    then obtain fs b' pa lt' rt' where "lt = plug fs (PNd a b' (Some (pa, k)) d lt' rt')"
      using PNd.IH(1) by blast
    then have "PNd x b pf e lt rt = plug (fs @ [Fr False x b pf e rt]) (PNd a b' (Some (pa, k)) d lt' rt')"
      by (simp add: plug_append)
    then show ?thesis by blast
  next
    case right
    then obtain fs b' pa lt' rt' where "rt = plug fs (PNd a b' (Some (pa, k)) d lt' rt')"
      using PNd.IH(2) by blast
    then have "PNd x b pf e lt rt = plug (fs @ [Fr True x b pf e lt]) (PNd a b' (Some (pa, k)) d lt' rt')"
      by (simp add: plug_append)
    then show ?thesis by blast
  qed
qed simp

section \<open>The invariant of the trie\<close>

text \<open>Along every path the bit numbers grow; below a node of bit \<open>b\<close> all keys share their
  first \<open>b\<close> bits and bit \<open>b\<close> itself decides the side; a node without a prefix (glue) has
  two children and no data.\<close>

definition branch_ok :: "nat \<Rightarrow> bool \<Rightarrow> ptree \<Rightarrow> bool" where
  "branch_ok b dir t \<longleftrightarrow> (t \<noteq> PLf \<longrightarrow> b < tbit t) \<and> (\<forall>k \<in> keys t. b < length k \<and> k ! b = dir)"

definition agree :: "nat \<Rightarrow> bool list set \<Rightarrow> bool" where
  "agree b K \<longleftrightarrow> (\<forall>k1 \<in> K. \<forall>k2 \<in> K. take b k1 = take b k2)"

fun wf_trie :: "ptree \<Rightarrow> bool" where
  "wf_trie PLf \<longleftrightarrow> True"
| "wf_trie (PNd a b pf d lt rt) \<longleftrightarrow>
     wf_trie lt \<and> wf_trie rt \<and> branch_ok b False lt \<and> branch_ok b True rt \<and>
     (\<forall>pa k. pf = Some (pa, k) \<longrightarrow> length k = b) \<and>
     (pf = None \<longrightarrow> lt \<noteq> PLf \<and> rt \<noteq> PLf \<and> d = None) \<and>
     agree b (keys (PNd a b pf d lt rt))"

lemma branch_ok_PLf [simp]: "branch_ok b dir PLf"
  by (simp add: branch_ok_def)

lemma wf_keys_nonempty: "wf_trie t \<Longrightarrow> t \<noteq> PLf \<Longrightarrow> keys t \<noteq> {}"
  by (induction t) (auto split: option.splits)

lemma wf_keys_length: "wf_trie t \<Longrightarrow> k \<in> keys t \<Longrightarrow> tbit t \<le> length k"
proof (cases t)
  case (PNd a b pf d lt rt)
  assume "wf_trie t" and k: "k \<in> keys t"
  then have "branch_ok b False lt" "branch_ok b True rt" "\<forall>pa k. pf = Some (pa, k) \<longrightarrow> length k = b"
    by (simp_all add: PNd)
  with k show ?thesis
    by (auto simp: PNd branch_ok_def less_imp_le split: option.splits)
qed simp

lemma wf_keys_agree:
  "wf_trie t \<Longrightarrow> k1 \<in> keys t \<Longrightarrow> k2 \<in> keys t \<Longrightarrow> m \<le> tbit t \<Longrightarrow> take m k1 = take m k2"
proof (cases t)
  case (PNd a b pf d lt rt)
  assume w: "wf_trie t" and k: "k1 \<in> keys t" "k2 \<in> keys t" and "m \<le> tbit t"
  then have "m \<le> b" by (simp add: PNd)
  have "agree b (keys t)" using w unfolding PNd wf_trie.simps by blast
  then have "take b k1 = take b k2" using k unfolding agree_def by blast
  with \<open>m \<le> b\<close>
  show ?thesis by (metis min.absorb1 take_take)
qed simp

lemma wf_plug_sub: "wf_trie (plug fs t) \<Longrightarrow> wf_trie t"
proof (induction fs arbitrary: t)
  case (Cons f fs)
  then have "wf_trie (fill f t)" by simp
  then show ?case by (cases f) (auto split: if_splits)
qed simp

lemma wf_fill_branch: "wf_trie (fill f t) \<Longrightarrow> branch_ok (fbit f) (fdir f) t"
  by (cases f) (auto split: if_splits)

lemma keys_plug_mono: "k \<in> keys t \<Longrightarrow> k \<in> keys (plug fs t)"
  by (auto simp: keys_def ents_plug)

lemma plug_frame_branch:
  assumes "wf_trie (plug fs t)" "f \<in> set fs" "k \<in> keys t"
  shows "fbit f < length k \<and> k ! fbit f = fdir f"
  using assms
proof (induction fs arbitrary: t)
  case (Cons g fs)
  from Cons.prems have w: "wf_trie (fill g t)" by (auto intro: wf_plug_sub)
  show ?case
  proof (cases "f = g")
    case True
    with wf_fill_branch [OF w] Cons.prems show ?thesis by (auto simp: branch_ok_def)
  next
    case False
    moreover have "k \<in> keys (fill g t)" using Cons.prems by (cases g) auto
    ultimately show ?thesis using Cons.IH Cons.prems by auto
  qed
qed simp

lemma plug_bits_increase:
  assumes "wf_trie (plug fs t)" "t \<noteq> PLf" "f \<in> set fs"
  shows "fbit f < tbit t"
  using assms
proof (induction fs arbitrary: t)
  case (Cons g fs)
  from Cons.prems have w: "wf_trie (fill g t)" by (auto intro: wf_plug_sub)
  have g: "fbit g < tbit t" using wf_fill_branch [OF w] Cons.prems by (auto simp: branch_ok_def)
  show ?case
  proof (cases "f = g")
    case False
    then have "fbit f < tbit (fill g t)" using Cons.IH [of "fill g t"] Cons.prems by simp
    with g show ?thesis by simp
  qed (use g in simp)
qed simp

text \<open>Replacing the subtree at a position keeps the invariant when every key of the new
  subtree agrees with some key of the old one beyond the bits tested on the way down.\<close>

definition key_fits :: "frame list \<Rightarrow> ptree \<Rightarrow> bool list \<Rightarrow> bool" where
  "key_fits fs t k \<longleftrightarrow> (\<exists>k0 \<in> keys t. \<exists>m. (\<forall>f \<in> set fs. fbit f < m) \<and>
     m \<le> length k \<and> m \<le> length k0 \<and> take m k = take m k0)"

lemma key_fits_own: "wf_trie (plug fs t) \<Longrightarrow> k \<in> keys t \<Longrightarrow> key_fits fs t k"
  unfolding key_fits_def
  by (rule bexI [of _ k], rule exI [of _ "length k"]) (auto dest: plug_frame_branch)

lemma wf_replace:
  assumes "wf_trie (plug fs t)" "wf_trie t'" "t' \<noteq> PLf"
    "\<forall>f \<in> set fs. fbit f < tbit t'" "\<forall>k \<in> keys t'. key_fits fs t k"
  shows "wf_trie (plug fs t')"
  using assms
proof (induction fs arbitrary: t t')
  case (Cons f fs)
  obtain dir a b pf d s where f: "f = Fr dir a b pf d s" by (cases f)
  have w: "wf_trie (fill f t)" using Cons.prems(1) by (auto intro: wf_plug_sub)
  have new: "\<exists>k0 \<in> keys t. b < length k \<and> k ! b = dir \<and> take b k = take b k0" if "k \<in> keys t'" for k
  proof -
    from that Cons.prems(5) have "key_fits (f # fs) t k" by blast
    then obtain k0 m where k0: "k0 \<in> keys t" and m: "b < m" "m \<le> length k" "m \<le> length k0"
        and eq: "take m k = take m k0"
      by (auto simp: key_fits_def f)
    have "k ! b = k0 ! b" using eq m(1) by (metis nth_take)
    moreover have "k0 ! b = dir"
      using wf_fill_branch [OF w] k0 by (simp add: branch_ok_def f)
    moreover have "take b k = take b k0" using eq m(1) by (metis less_imp_le min.absorb1 take_take)
    ultimately show ?thesis using k0 m by auto
  qed
  have "branch_ok b dir t'" using new Cons.prems(4) by (auto simp: branch_ok_def f)
  moreover have "agree b (keys (fill f t'))"
  proof -
    have "\<exists>k0 \<in> keys (fill f t). take b k = take b k0" if "k \<in> keys (fill f t')" for k
      using that new [of k] by (auto simp: f split: if_splits)
    moreover have "take b k1 = take b k2" if "k1 \<in> keys (fill f t)" "k2 \<in> keys (fill f t)" for k1 k2
      using wf_keys_agree [OF w that, of b] by (simp add: f)
    ultimately show ?thesis unfolding agree_def by metis
  qed
  ultimately have w': "wf_trie (fill f t')"
    using w Cons.prems(2,3) by (auto simp: f split: if_splits)
  have "wf_trie (plug fs (fill f t'))"
  proof (rule Cons.IH [of "fill f t"])
    show "\<forall>g \<in> set fs. fbit g < tbit (fill f t')"
      using Cons.prems(1) plug_bits_increase [of fs "fill f t"] by simp
    show "\<forall>k \<in> keys (fill f t'). key_fits fs (fill f t) k"
    proof
      fix k assume k: "k \<in> keys (fill f t')"
      show "key_fits fs (fill f t) k"
      proof (cases "k \<in> keys (fill f t)")
        case True
        then show ?thesis using Cons.prems(1) by (auto intro: key_fits_own)
      next
        case False
        with k have "k \<in> keys t'" by (auto simp: f split: if_splits)
        then have "key_fits (f # fs) t k" using Cons.prems(5) by blast
        then show ?thesis unfolding key_fits_def by (fastforce simp: f)
      qed
    qed
  qed (use w' Cons.prems in auto)
  then show ?case by simp
qed simp

section \<open>A store that holds a tree\<close>

definition prefix_ok :: "pheap \<Rightarrow> nat \<Rightarrow> addr \<Rightarrow> bool list \<Rightarrow> bool" where
  "prefix_ok h mb pa k \<longleftrightarrow> (\<exists>p. pprefixes h pa = Some p \<and> key_of p = k \<and> bitlen p = length k \<and>
     bitlen p \<le> mb \<and> mb \<le> 8 * length (add p) \<and> 0 < ref_count p)"

definition pkey_ok :: "pheap \<Rightarrow> nat \<Rightarrow> pkey \<Rightarrow> bool" where
  "pkey_ok h mb pf \<longleftrightarrow> (case pf of None \<Rightarrow> True | Some (pa, k) \<Rightarrow> prefix_ok h mb pa k)"

abbreviation node_of :: "nat \<Rightarrow> pkey \<Rightarrow> ptr \<Rightarrow> ptr \<Rightarrow> ptr \<Rightarrow> ptr \<Rightarrow> patricia_node_t" where
  "node_of b pf lp rp par d \<equiv>
     \<lparr>nbit = b, prefix = map_option fst pf, l_ptr = lp, r_ptr = rp, parent = par, data = d\<rparr>"

fun rep :: "pheap \<Rightarrow> nat \<Rightarrow> ptr \<Rightarrow> ptree \<Rightarrow> bool" where
  "rep h mb par PLf \<longleftrightarrow> True"
| "rep h mb par (PNd a b pf d lt rt) \<longleftrightarrow>
     pnodes h a = Some (node_of b pf (troot lt) (troot rt) par d) \<and> pkey_ok h mb pf \<and>
     rep h mb (Some a) lt \<and> rep h mb (Some a) rt"

fun rep_ctx :: "pheap \<Rightarrow> nat \<Rightarrow> frame list \<Rightarrow> ptr \<Rightarrow> bool" where
  "rep_ctx h mb [] c \<longleftrightarrow> True"
| "rep_ctx h mb (Fr dir a b pf d s # fs) c \<longleftrightarrow>
     pnodes h a = Some (node_of b pf (if dir then troot s else c) (if dir then c else troot s) (top fs) d) \<and>
     pkey_ok h mb pf \<and> rep h mb (Some a) s \<and> rep_ctx h mb fs (Some a)"

lemma rep_plug: "rep h mb None (plug fs t) \<longleftrightarrow> rep h mb (top fs) t \<and> rep_ctx h mb fs (troot t)"
  by (induction fs arbitrary: t rule: caddrs.induct) auto

text \<open>Framing: a tree does not see changes outside its own nodes and prefixes.\<close>

definition same_prefixes :: "addr set \<Rightarrow> pheap \<Rightarrow> pheap \<Rightarrow> bool" where
  "same_prefixes A h h' \<longleftrightarrow> (\<forall>a \<in> A. pprefixes h' a = pprefixes h a)"

definition same_nodes :: "addr set \<Rightarrow> pheap \<Rightarrow> pheap \<Rightarrow> bool" where
  "same_nodes A h h' \<longleftrightarrow> (\<forall>a \<in> A. pnodes h' a = pnodes h a)"

lemma same_sets_simps [simp]:
  "same_nodes (insert a A) h h' \<longleftrightarrow> pnodes h' a = pnodes h a \<and> same_nodes A h h'"
  "same_nodes (A \<union> B) h h' \<longleftrightarrow> same_nodes A h h' \<and> same_nodes B h h'"
  "same_nodes {} h h'"
  "same_prefixes (insert a A) h h' \<longleftrightarrow> pprefixes h' a = pprefixes h a \<and> same_prefixes A h h'"
  "same_prefixes (A \<union> B) h h' \<longleftrightarrow> same_prefixes A h h' \<and> same_prefixes B h h'"
  "same_prefixes {} h h'"
  by (auto simp: same_nodes_def same_prefixes_def)

lemma pkey_ok_frame:
  "same_prefixes (set (own_prefs pf)) h h' \<Longrightarrow> pkey_ok h mb pf \<Longrightarrow> pkey_ok h' mb pf"
  by (auto simp: pkey_ok_def own_prefs_def prefix_ok_def split: option.splits)

lemma rep_frame:
  "rep h mb par t \<Longrightarrow> same_nodes (set (taddrs t)) h h' \<Longrightarrow> same_prefixes (set (tprefs t)) h h'
    \<Longrightarrow> rep h' mb par t"
  by (induction t arbitrary: par) (auto intro: pkey_ok_frame)

lemma rep_ctx_frame:
  "rep_ctx h mb fs c \<Longrightarrow> same_nodes (set (caddrs fs)) h h' \<Longrightarrow> same_prefixes (set (cprefs fs)) h h'
    \<Longrightarrow> rep_ctx h' mb fs c"
  by (induction fs arbitrary: c rule: caddrs.induct) (auto intro: pkey_ok_frame rep_frame)

lemma rep_node:
  "rep h mb par t \<Longrightarrow> troot t = Some a \<Longrightarrow>
    \<exists>b pf d lt rt. t = PNd a b pf d lt rt \<and>
      pnodes h a = Some (node_of b pf (troot lt) (troot rt) par d)"
  by (cases t) auto

lemma rep_keys_bound: "rep h mb par t \<Longrightarrow> k \<in> keys t \<Longrightarrow> length k \<le> mb"
  by (induction t arbitrary: par) (auto simp: pkey_ok_def prefix_ok_def split: option.splits)

lemma rep_tbit_bound: "rep h mb par t \<Longrightarrow> wf_trie t \<Longrightarrow> tbit t \<le> mb"
proof (cases "t = PLf")
  case False
  assume "rep h mb par t" "wf_trie t"
  with False obtain k where "k \<in> keys t" using wf_keys_nonempty by blast
  with \<open>rep h mb par t\<close> \<open>wf_trie t\<close> show ?thesis
    using rep_keys_bound wf_keys_length le_trans by blast
qed simp

text \<open>The abstraction relation of the trie: tree header, store and tree together.\<close>

definition trie_at :: "pheap \<Rightarrow> patricia_tree_t \<Rightarrow> ptree \<Rightarrow> bool" where
  "trie_at h T t \<longleftrightarrow> head T = troot t \<and> rep h (maxbits T) None t \<and> wf_trie t \<and>
     distinct (taddrs t) \<and> distinct (tprefs t) \<and>
     (\<forall>a \<in> set (taddrs t) \<union> set (tprefs t). a < brk h) \<and>
     maxbits T \<le> PATRICIA_MAXBITS \<and> num_active_node T = int (length (taddrs t))"

definition trie_rep ::
  "pheap \<Rightarrow> patricia_tree_t \<Rightarrow> (bool list \<times> addr \<times> ptr) set \<Rightarrow> addr set \<Rightarrow> bool" where
  "trie_rep h T E U \<longleftrightarrow> (\<exists>t. trie_at h T t \<and> ents t = E \<and> set (tprefs t) = U)"

end
