(* ===== verification/Patricia_Search.thy ===== *)
theory Patricia_Search
  imports Patricia_Tree
begin

text \<open>
  Correctness of the two searches of \<^verbatim>\<open>patricia.c\<close> on every store that holds a trie: they
  return (no null or dangling dereference, no read past an address, no overflow of the
  65-slot stack, no endless loop), \<^verbatim>\<open>patricia_search_exact\<close> finds the node of exactly the
  given prefix, and \<^verbatim>\<open>patricia_search_best\<close> the node of the longest stored prefix of it.

  The descents are first replayed on trees: \<open>seek\<close> is the subtree where a descent stops and
  \<open>trail\<close> the nodes with a prefix it leaves behind, newest first.
\<close>

section \<open>Descents on trees\<close>

fun seek :: "nat \<Rightarrow> (nat \<Rightarrow> bool) \<Rightarrow> ptree \<Rightarrow> ptree" where
  "seek n f PLf = PLf"
| "seek n f (PNd a b pf d lt rt) =
     (if b < n then if f b then seek n f rt else seek n f lt else PNd a b pf d lt rt)"

fun trail :: "nat \<Rightarrow> (nat \<Rightarrow> bool) \<Rightarrow> ptree \<Rightarrow> (bool list \<times> addr \<times> ptr) list" where
  "trail n f PLf = []"
| "trail n f (PNd a b pf d lt rt) =
     (if b < n then (if f b then trail n f rt else trail n f lt) @
        (case pf of None \<Rightarrow> [] | Some (pa, k) \<Rightarrow> [(k, a, d)]) else [])"

fun own_trail :: "ptree \<Rightarrow> (bool list \<times> addr \<times> ptr) list" where
  "own_trail PLf = []"
| "own_trail (PNd a b pf d lt rt) = (case pf of None \<Rightarrow> [] | Some (pa, k) \<Rightarrow> [(k, a, d)])"

text \<open>A stored prefix of the searched address, at most \<open>n\<close> bits long.\<close>

definition matches :: "nat \<Rightarrow> bool list \<Rightarrow> bool list \<Rightarrow> bool" where
  "matches n A k \<longleftrightarrow> length k \<le> n \<and> k = take (length k) A"

lemma matches_branch:
  assumes "wf_trie (PNd a b pf d lt rt)" "matches n A k" "n \<le> length A"
    "(k, x, e) \<in> ents (PNd a b pf d lt rt)"
  shows "(k, x, e) \<in> set (own_trail (PNd a b pf d lt rt)) \<and> length k = b \<or>
    b < n \<and> (k, x, e) \<in> ents (if A ! b then rt else lt)"
proof -
  have side: "b < n \<and> A ! b = dir" if "branch_ok b dir t" "(k, x, e) \<in> ents t" for dir t
  proof -
    have "k \<in> keys t" using that(2) by (force simp: keys_def)
    with that(1) have "b < length k" "k ! b = dir" by (auto simp: branch_ok_def)
    moreover from this assms(2) have "k ! b = A ! b" by (metis matches_def nth_take)
    ultimately show ?thesis using assms(2) by (auto simp: matches_def)
  qed
  have ok: "branch_ok b False lt" "branch_ok b True rt" "\<forall>pa k. pf = Some (pa, k) \<longrightarrow> length k = b"
    using assms(1) by simp_all
  from assms(4) consider "(k, x, e) \<in> own_ents a pf d" | "(k, x, e) \<in> ents lt" | "(k, x, e) \<in> ents rt"
    by auto
  then show ?thesis
  proof cases
    case 1
    then show ?thesis using ok by (auto simp: own_ents_def split: option.splits)
  next
    case 2
    then show ?thesis using side [OF ok(1)] by simp
  next
    case 3
    then show ?thesis using side [OF ok(2)] by simp
  qed
qed

text \<open>Every matching entry lies on the trail or at its end, and the trail is sorted from the
  longest key to the shortest.\<close>

lemma own_trail_subset: "set (own_trail t) \<subseteq> ents t"
  by (cases t) (auto simp: own_ents_def split: option.splits)

lemma seek_subset: "ents (seek n f t) \<subseteq> ents t"
  by (induction t) auto

lemma trail_subset: "set (trail n f t) \<subseteq> ents t"
  by (induction t) (auto simp: own_ents_def split: option.splits)

lemma trail_complete:
  assumes "wf_trie t" "matches n A k" "n \<le> length A" "(k, x, e) \<in> ents t"
  shows "(k, x, e) \<in> set (own_trail (seek n (nth A) t) @ trail n (nth A) t)"
  using assms
proof (induction t)
  case (PNd a b pf d lt rt)
  show ?case
  proof (cases "b < n")
    case True
    from matches_branch [OF PNd.prems]
    consider "(k, x, e) \<in> set (own_trail (PNd a b pf d lt rt))" | "(k, x, e) \<in> ents (if A ! b then rt else lt)"
      by blast
    then show ?thesis
      by cases (use True PNd in \<open>auto split: if_splits\<close>)
  next
    case False
    with matches_branch [OF PNd.prems] show ?thesis by auto
  qed
qed simp

lemma trail_keys_length: "wf_trie t \<Longrightarrow> (k, x, e) \<in> set (trail n f t) \<Longrightarrow> tbit t \<le> length k"
  using trail_subset wf_keys_length by (fastforce simp: keys_def)

lemma seek_keys_length: "wf_trie t \<Longrightarrow> (k, x, e) \<in> ents (seek n f t) \<Longrightarrow> tbit t \<le> length k"
  using seek_subset wf_keys_length by (fastforce simp: keys_def)

lemma falling_append:
  assumes "sorted_wrt (\<lambda>u v. length (fst v) < length (fst u)) xs"
    "sorted_wrt (\<lambda>u v. length (fst v) < length (fst u)) ys"
    "\<And>k x e. (k, x, e) \<in> set xs \<Longrightarrow> b < length k" "\<And>v. v \<in> set ys \<Longrightarrow> length (fst v) = b"
  shows "sorted_wrt (\<lambda>u v. length (fst v) < length (fst u)) (xs @ ys)"
  using assms by (force simp: sorted_wrt_append)

lemma trail_sorted:
  assumes "wf_trie t"
  shows "sorted_wrt (\<lambda>u v. length (fst v) < length (fst u)) (own_trail (seek n f t) @ trail n f t)"
  using assms
proof (induction t)
  case (PNd a b pf d lt rt)
  show ?case
  proof (cases "b < n")
    case True
    let ?c = "if f b then rt else lt"
    have ok: "wf_trie ?c" "branch_ok b (f b) ?c" "\<forall>pa k. pf = Some (pa, k) \<longrightarrow> length k = b"
      using PNd.prems by auto
    have low: "b < length k" if "(k, x, e) \<in> set (own_trail (seek n f ?c) @ trail n f ?c)" for k x e
    proof -
      have "(k, x, e) \<in> ents ?c"
        using that own_trail_subset [of "seek n f ?c"] seek_subset [of n f ?c] trail_subset [of n f ?c] by auto
      then have "k \<in> keys ?c" by (force simp: keys_def)
      with ok(2) show ?thesis by (auto simp: branch_ok_def)
    qed
    have below: "sorted_wrt (\<lambda>u v. length (fst v) < length (fst u)) (own_trail (seek n f ?c) @ trail n f ?c)"
      using PNd.IH ok(1) by (cases "f b") simp_all
    have split: "own_trail (seek n f (PNd a b pf d lt rt)) @ trail n f (PNd a b pf d lt rt) =
        (own_trail (seek n f ?c) @ trail n f ?c) @ own_trail (PNd a b pf d lt rt)"
      using True by simp
    have own: "length (fst v) = b" if "v \<in> set (own_trail (PNd a b pf d lt rt))" for v
      using that ok(3) by (auto split: option.splits)
    have single: "sorted_wrt (\<lambda>u v. length (fst v) < length (fst u)) (own_trail (PNd a b pf d lt rt))"
      by (auto split: option.splits)
    show ?thesis unfolding split by (rule falling_append [OF below single low own])
  qed (auto split: option.splits)
qed simp

text \<open>The trail fits the stack of the code: its keys have different lengths below \<open>n\<close>.\<close>

lemma trail_keys_below: "wf_trie t \<Longrightarrow> (k, x, e) \<in> set (trail n f t) \<Longrightarrow> length k < n"
  by (induction t) (auto split: if_splits option.splits)

lemma trail_length: "wf_trie t \<Longrightarrow> length (trail n f t) + tbit t \<le> n \<or> trail n f t = []"
proof (induction t)
  case (PNd a b pf d lt rt)
  let ?c = "if f b then rt else lt"
  have "branch_ok b (f b) ?c" "wf_trie ?c" using PNd.prems by auto
  then have "length (trail n f ?c) + tbit ?c \<le> n \<and> b < tbit ?c \<or> trail n f ?c = []"
    using PNd.IH by (cases "?c = PLf") (auto simp: branch_ok_def split: if_splits)
  then show ?case by (auto split: option.splits if_splits)
qed simp

section \<open>The loops follow the descents\<close>

lemma search_exact_loop_seek:
  assumes "rep h mb par t" "troot t = Some a" "blen \<le> 8 * length ad"
  shows "search_exact_loop h ad blen a = Some (troot (seek blen (pbit ad) t))"
  using assms
proof (induction t arbitrary: par a)
  case (PNd x b pf d lt rt)
  then show ?case
    by (subst search_exact_loop.simps) (auto split: option.splits)
qed simp

lemma push_stack_Some: "length stk \<le> PATRICIA_MAXBITS \<Longrightarrow> push_stack stk a = Some (a # stk)"
  by (simp add: push_stack_def)

definition trail_nodes :: "(bool list \<times> addr \<times> ptr) list \<Rightarrow> addr list" where
  "trail_nodes tr = map (fst \<circ> snd) tr"

lemma trail_nodes_simps [simp]:
  "trail_nodes [] = []" "trail_nodes (e # tr) = fst (snd e) # trail_nodes tr"
  "trail_nodes (tr @ tr') = trail_nodes tr @ trail_nodes tr'"
  by (simp_all add: trail_nodes_def)

lemma search_best_loop_trail:
  assumes "rep h mb par t" "wf_trie t" "troot t = Some a" "blen \<le> 8 * length ad"
    "length stk + (blen - tbit t) \<le> PATRICIA_MAXBITS"
  shows "search_best_loop h ad blen a stk =
    Some (troot (seek blen (pbit ad) t), trail_nodes (trail blen (pbit ad) t) @ stk)"
  using assms
proof (induction t arbitrary: par a stk)
  case (PNd x b pf d lt rt)
  show ?case
  proof (cases "b < blen")
    case False
    with PNd.prems show ?thesis by (subst search_best_loop.simps) simp
  next
    case True
    let ?c = "if pbit ad b then rt else lt"
    let ?s = "(case pf of None \<Rightarrow> stk | Some pk \<Rightarrow> x # stk)"
    have step: "search_best_loop h ad blen x stk =
        (case troot ?c of None \<Rightarrow> Some (None, ?s) | Some y \<Rightarrow> search_best_loop h ad blen y ?s)"
      using PNd.prems True
      by (subst search_best_loop.simps) (auto simp: push_stack_Some split: option.splits)
    show ?thesis
    proof (cases "troot ?c")
      case None
      then show ?thesis using PNd.prems True step by (auto split: option.splits if_splits)
    next
      case (Some y)
      have "branch_ok b (pbit ad b) ?c" using PNd.prems(2) by auto
      then have "b < tbit ?c" using Some by (cases ?c) (auto simp: branch_ok_def)
      then have len: "length ?s + (blen - tbit ?c) \<le> PATRICIA_MAXBITS"
        using PNd.prems(5) True by (auto split: option.splits)
      have "search_best_loop h ad blen y ?s =
          Some (troot (seek blen (pbit ad) ?c), trail_nodes (trail blen (pbit ad) ?c) @ ?s)"
        using PNd.IH PNd.prems Some len by (cases "pbit ad b") auto
      then show ?thesis using PNd.prems True step Some
        by (auto split: option.splits)
    qed
  qed
qed simp

lemma rep_ents_node:
  "rep h mb par t \<Longrightarrow> (k, a, d) \<in> ents t \<Longrightarrow>
    \<exists>n pa. pnodes h a = Some n \<and> prefix n = Some pa \<and> data n = d \<and> prefix_ok h mb pa k"
  by (induction t arbitrary: par)
    (auto simp: own_ents_def pkey_ok_def split: option.splits)

fun best_pop :: "nat \<Rightarrow> bool list \<Rightarrow> (bool list \<times> addr \<times> ptr) list \<Rightarrow> ptr" where
  "best_pop n A [] = None"
| "best_pop n A ((k, a, d) # tr) = (if matches n A k then Some a else best_pop n A tr)"

lemma comp_prefix_ok:
  assumes "prefix_ok h mb pa k" "pprefixes h pa = Some p" "mb \<le> 8 * length ad"
  shows "comp_with_mask (add p) ad (bitlen p) = Some (k = take (length k) (addr_bits ad))"
    and "bitlen p = length k"
  using assms by (auto simp: prefix_ok_def comp_with_mask_bits key_of_def)

lemma search_best_pop_trail:
  assumes "rep h mb par t" "set tr \<subseteq> ents t" "mb \<le> 8 * length ad"
  shows "search_best_pop h ad blen (trail_nodes tr) = Some (best_pop blen (addr_bits ad) tr)"
  using assms(2)
proof (induction tr)
  case (Cons e tr)
  obtain k a d where e: "e = (k, a, d)" by (cases e)
  with Cons.prems obtain n pa where n: "pnodes h a = Some n" "prefix n = Some pa" "prefix_ok h mb pa k"
    using rep_ents_node [OF assms(1)] by fastforce
  then obtain p where p: "pprefixes h pa = Some p" by (auto simp: prefix_ok_def)
  with Cons n e show ?case
    using comp_prefix_ok [OF n(3) p assms(3)] by (auto simp: matches_def)
qed simp

text \<open>The longest stored prefix of \<open>A\<close> with at most \<open>n\<close> bits.\<close>

definition longest_match ::
  "(bool list \<times> addr \<times> ptr) set \<Rightarrow> nat \<Rightarrow> bool list \<Rightarrow> bool list \<Rightarrow> addr \<Rightarrow> ptr \<Rightarrow> bool" where
  "longest_match E n A k a d \<longleftrightarrow> (k, a, d) \<in> E \<and> matches n A k \<and>
     (\<forall>k' a' d'. (k', a', d') \<in> E \<longrightarrow> matches n A k' \<longrightarrow> length k' \<le> length k)"

lemma longest_match_cong:
  assumes "\<And>k a d. matches n A k \<Longrightarrow> (k, a, d) \<in> E \<longleftrightarrow> (k, a, d) \<in> E'"
  shows "longest_match E n A k a d = longest_match E' n A k a d"
  using assms unfolding longest_match_def by blast

lemma best_pop_longest:
  assumes "sorted_wrt (\<lambda>u v. length (fst v) < length (fst u)) tr"
  shows "best_pop n A tr = Some a \<longleftrightarrow> (\<exists>k d. longest_match (set tr) n A k a d)"
  using assms
proof (induction tr)
  case (Cons e tr)
  obtain k0 a0 d0 where e: "e = (k0, a0, d0)" by (cases e)
  have later: "length k < length k0" if "(k, x, d) \<in> set tr" for k x d
    using Cons.prems that by (auto simp: e)
  show ?case
  proof (cases "matches n A k0")
    case True
    have "longest_match (set (e # tr)) n A k a d \<longleftrightarrow> (k, a, d) = (k0, a0, d0)" for k d
    proof
      assume l: "longest_match (set (e # tr)) n A k a d"
      then have "length k0 \<le> length k" using True by (auto simp: longest_match_def e)
      with later have "(k, a, d) \<notin> set tr" by (meson not_less)
      with l show "(k, a, d) = (k0, a0, d0)" by (auto simp: longest_match_def e)
    next
      assume "(k, a, d) = (k0, a0, d0)"
      with True later show "longest_match (set (e # tr)) n A k a d"
        by (auto simp: longest_match_def e less_imp_le)
    qed
    with True show ?thesis by (auto simp: e)
  next
    case False
    then have "longest_match (set (e # tr)) n A k a d = longest_match (set tr) n A k a d" for k d
      by (intro longest_match_cong) (auto simp: e)
    with False Cons show ?thesis by (simp add: e)
  qed
qed (simp add: longest_match_def)

section \<open>The searches\<close>

lemma pbit_nth: "k < 8 * length ad \<Longrightarrow> pbit ad k = addr_bits ad ! k"
  by simp

lemma seek_cong: "(\<And>k. k < n \<Longrightarrow> f k = g k) \<Longrightarrow> seek n f t = seek n g t"
  by (induction t) auto

lemma trail_cong: "(\<And>k. k < n \<Longrightarrow> f k = g k) \<Longrightarrow> trail n f t = trail n g t"
  by (induction t) (auto split: option.splits)

lemma seek_exact:
  assumes "wf_trie t" "n \<le> length A" "k = take n A"
  shows "(k, a, d) \<in> ents t \<longleftrightarrow>
    (k, a, d) \<in> set (own_trail (seek n (nth A) t)) \<and> tbit (seek n (nth A) t) = n"
proof
  have len: "length k = n" using assms by simp
  assume e: "(k, a, d) \<in> ents t"
  have "matches n A k" using assms len by (simp add: matches_def)
  then have "(k, a, d) \<in> set (own_trail (seek n (nth A) t) @ trail n (nth A) t)"
    using trail_complete assms e by blast
  moreover have "(k, a, d) \<notin> set (trail n (nth A) t)"
    using trail_keys_below [OF assms(1)] len by blast
  ultimately have own: "(k, a, d) \<in> set (own_trail (seek n (nth A) t))" by simp
  moreover have "wf_trie (seek n (nth A) t)" using assms(1) by (induction t) auto
  ultimately show "(k, a, d) \<in> set (own_trail (seek n (nth A) t)) \<and> tbit (seek n (nth A) t) = n"
    using len by (cases "seek n (nth A) t") (auto split: option.splits)
next
  assume "(k, a, d) \<in> set (own_trail (seek n (nth A) t)) \<and> tbit (seek n (nth A) t) = n"
  then show "(k, a, d) \<in> ents t" using own_trail_subset seek_subset by blast
qed

text \<open>A prefix fit for a trie of \<open>mb\<close> bits: its length is in range and its bytes are there.\<close>

definition prefix_fits :: "nat \<Rightarrow> prefix_t \<Rightarrow> bool" where
  "prefix_fits mb p \<longleftrightarrow> bitlen p \<le> mb \<and> mb \<le> 8 * length (add p)"

lemma rep_seek: "rep h mb par t \<Longrightarrow> \<exists>par'. rep h mb par' (seek n f t)"
  by (induction t arbitrary: par) auto

lemma wf_seek: "wf_trie t \<Longrightarrow> wf_trie (seek n f t)"
  by (induction t) auto

lemma seek_tbit: "seek n f t \<noteq> PLf \<Longrightarrow> n \<le> tbit (seek n f t)"
  by (induction t) (auto split: if_splits)

lemma search_exact_at:
  assumes "trie_at h T t" "prefix_fits (maxbits T) p"
  shows "\<exists>res. patricia_search_exact h T p = Some res \<and>
    (\<forall>a. res = Some a \<longleftrightarrow> (\<exists>d. (key_of p, a, d) \<in> ents t))"
proof -
  let ?A = "addr_bits (add p)" and ?n = "bitlen p"
  let ?s = "seek ?n (nth ?A) t"
  have T: "head T = troot t" "rep h (maxbits T) None t" "wf_trie t"
    using assms(1) by (auto simp: trie_at_def)
  have n: "?n \<le> maxbits T" "maxbits T \<le> 8 * length (add p)" "?n \<le> length ?A"
    using assms(2) by (auto simp: prefix_fits_def)
  have key: "key_of p = take ?n ?A" by (simp add: key_of_def)
  have iff: "(\<exists>d. (key_of p, a, d) \<in> ents t) \<longleftrightarrow>
      (\<exists>d. (key_of p, a, d) \<in> set (own_trail ?s) \<and> tbit ?s = ?n)" for a
    using seek_exact [OF T(3) n(3) key] by blast
  show ?thesis
  proof (cases "troot t")
    case None
    with T show ?thesis by (simp add: patricia_search_exact_def)
  next
    case (Some x)
    have "seek ?n (pbit (add p)) t = ?s" using n by (intro seek_cong) simp
    with Some T(2) n have loop: "search_exact_loop h (add p) ?n x = Some (troot ?s)"
      by (simp add: search_exact_loop_seek)
    show ?thesis
    proof (cases ?s)
      case PLf
      with Some T(1) loop iff show ?thesis by (simp add: patricia_search_exact_def)
    next
      case (PNd a b pf d lt rt)
      obtain par where r: "rep h (maxbits T) par ?s" using rep_seek [OF T(2)] by blast
      have b: "?n \<le> b" using seek_tbit [of ?n "nth ?A" t] PNd by simp
      have own: "pf = Some (pa, k) \<Longrightarrow> length k = b" for pa k
        using wf_seek [OF T(3), of ?n "nth ?A"] by (simp add: PNd)
      show ?thesis
      proof (cases "b = ?n \<and> pf \<noteq> None")
        case False
        with Some T(1) loop iff r b show ?thesis
          by (auto simp: patricia_search_exact_def PNd split: option.splits)
      next
        case True
        then obtain pa k where pf: "pf = Some (pa, k)" and bn: "b = ?n" by auto
        with r PNd have ok: "prefix_ok h (maxbits T) pa k" by (simp add: pkey_ok_def)
        then obtain q where q: "pprefixes h pa = Some q" by (auto simp: prefix_ok_def)
        have "comp_with_mask (add q) (add p) ?n = Some (k = take ?n ?A)"
          using comp_prefix_ok [OF ok q n(2)] own [OF pf] bn by simp
        with Some T(1) loop iff r bn pf q key show ?thesis
          by (auto simp: patricia_search_exact_def PNd)
      qed
    qed
  qed
qed

lemma search_best_at:
  assumes "trie_at h T t" "prefix_fits (maxbits T) p"
  shows "\<exists>res. patricia_search_best h T p = Some res \<and>
    (\<forall>a. res = Some a \<longleftrightarrow> (\<exists>k d. longest_match (ents t) (bitlen p) (addr_bits (add p)) k a d))"
proof -
  let ?A = "addr_bits (add p)" and ?n = "bitlen p"
  let ?s = "seek ?n (nth ?A) t" and ?tr = "trail ?n (nth ?A) t"
  have T: "head T = troot t" "rep h (maxbits T) None t" "wf_trie t" "maxbits T \<le> PATRICIA_MAXBITS"
    using assms(1) by (auto simp: trie_at_def)
  have n: "?n \<le> maxbits T" "maxbits T \<le> 8 * length (add p)" "?n \<le> length ?A"
    using assms(2) by (auto simp: prefix_fits_def)
  show ?thesis
  proof (cases "troot t")
    case None
    with T show ?thesis
      by (simp add: patricia_search_best_def patricia_search_best2_def longest_match_def)
  next
    case (Some x)
    have "seek ?n (pbit (add p)) t = ?s" "trail ?n (pbit (add p)) t = ?tr"
      using n by (intro seek_cong trail_cong; simp)+
    with Some T n have loop: "search_best_loop h (add p) ?n x [] = Some (troot ?s, trail_nodes ?tr)"
      by (simp add: search_best_loop_trail)
    obtain par where r: "rep h (maxbits T) par ?s" using rep_seek [OF T(2)] by blast
    have len: "length (trail_nodes ?tr) \<le> PATRICIA_MAXBITS"
      using trail_length [OF T(3), of ?n "nth ?A"] n T(4) by (auto simp: trail_nodes_def)
    have push: "search_best_end h True (troot ?s) (trail_nodes ?tr) = Some (trail_nodes (own_trail ?s @ ?tr))"
      using r len by (cases ?s) (auto simp: search_best_end_def push_stack_Some split: option.splits)
    have sub: "set (own_trail ?s @ ?tr) \<subseteq> ents t"
      using own_trail_subset [of ?s] seek_subset [of ?n "nth ?A" t] trail_subset [of ?n "nth ?A" t] by auto
    have res: "patricia_search_best h T p = Some (best_pop ?n ?A (own_trail ?s @ ?tr))"
      using Some T(1) loop push search_best_pop_trail [OF T(2) sub n(2)]
      by (simp add: patricia_search_best_def patricia_search_best2_def)
    have "longest_match (set (own_trail ?s @ ?tr)) ?n ?A k a d = longest_match (ents t) ?n ?A k a d" for k a d
      using sub trail_complete [OF T(3) _ n(3)] by (intro longest_match_cong) blast
    with res best_pop_longest [OF trail_sorted [OF T(3)]] show ?thesis by simp
  qed
qed

end
