(* ===== verification/Patricia_Insert.thy ===== *)
theory Patricia_Insert
  imports Patricia_Search
begin

text \<open>
  Correctness of \<^verbatim>\<open>patricia_lookup\<close>, which inserts a prefix: on every store that holds a
  trie it returns, keeps the invariant, and either returns the node that already holds the
  prefix or adds exactly one entry. The four ways the code links a node are four shapes of
  the subtree at the position the walk stops at.
\<close>

lemmas store_simps [heap_simps] = put_node_def upd_node_def free_node_def put_prefix_def free_prefix_def

section \<open>Keys identify nodes\<close>

lemma ents_addr: "(k, a, d) \<in> ents t \<Longrightarrow> a \<in> set (taddrs t)"
  by (induction t) (auto simp: own_ents_def split: option.splits)

lemma cents_addr: "(k, a, d) \<in> cents fs \<Longrightarrow> a \<in> set (caddrs fs)"
  by (induction fs rule: caddrs.induct) (auto simp: own_ents_def ents_addr split: option.splits)

lemma ents_key: "(k, a, d) \<in> ents t \<Longrightarrow> k \<in> keys t"
  by (force simp: keys_def)

lemma ents_key_unique:
  assumes "wf_trie t" "(k, a, d) \<in> ents t" "(k, a', d') \<in> ents t"
  shows "a = a' \<and> d = d'"
  using assms
proof (induction t)
  case (PNd x b pf e lt rt)
  have side: "b < length k \<and> k ! b = dir" if "branch_ok b dir s" "(k, y, f) \<in> ents s" for dir s y f
    using that ents_key [OF that(2)] by (auto simp: branch_ok_def)
  have own: "length k = b \<and> y = x \<and> f = e" if "(k, y, f) \<in> own_ents x pf e" for y f
    using that PNd.prems(1) by (auto simp: own_ents_def split: option.splits)
  have "branch_ok b False lt" "branch_ok b True rt" "wf_trie lt" "wf_trie rt" using PNd.prems(1) by simp_all
  note side_l = side [OF this(1)] and side_r = side [OF this(2)] and w = this(3,4)
  from PNd.prems(2,3) show ?case
    unfolding ents.simps Un_iff using own side_l side_r PNd.IH(1) [OF w(1)] PNd.IH(2) [OF w(2)] by blast
qed simp

lemma keys_ents: "k \<in> keys t \<longleftrightarrow> (\<exists>a d. (k, a, d) \<in> ents t)"
  by (force simp: keys_def)

lemma fresh_key:
  assumes "wf_trie t'" "ents t' = insert (k, a, d) (ents t)" "\<And>k' d'. (k', a, d') \<notin> ents t"
  shows "k \<notin> keys t"
proof
  assume "k \<in> keys t"
  then obtain x e where "(k, x, e) \<in> ents t" by (auto simp: keys_ents)
  moreover from this have "a = x" using ents_key_unique [OF assms(1), of k a d x e] assms(2) by simp
  ultimately show False using assms(3) by blast
qed

section \<open>The walk down and the walk up\<close>

lemma lookup_descend_spec:
  assumes "rep h mb par t" "wf_trie t" "troot t = Some x" "mb \<le> 8 * length ad"
  shows "\<exists>fs a b pa k d lt rt. lookup_descend h mb ad blen x = Some a \<and>
    t = plug fs (PNd a b (Some (pa, k)) d lt rt) \<and>
    (\<forall>f \<in> set fs. fdir f \<longleftrightarrow> fbit f < mb \<and> pbit ad (fbit f)) \<and>
    (blen \<le> b \<or> (if b < mb \<and> pbit ad b then rt else lt) = PLf)"
  using assms
proof (induction t arbitrary: par x)
  case (PNd a b pf d lt rt)
  let ?dir = "b < mb \<and> pbit ad b"
  let ?c = "if ?dir then rt else lt" and ?s = "if ?dir then lt else rt"
  have x: "x = a" and n: "pnodes h a = Some (node_of b pf (troot lt) (troot rt) par d)"
    using PNd.prems by simp_all
  have step: "lookup_descend h mb ad blen x =
      (if b < blen \<or> pf = None then case troot ?c of None \<Rightarrow> Some a | Some y \<Rightarrow> lookup_descend h mb ad blen y
       else Some a)"
    unfolding x by (subst lookup_descend.simps) (use n PNd.prems(4) in simp)
  have stop: ?case if "pf \<noteq> None" "lookup_descend h mb ad blen x = Some a" "blen \<le> b \<or> ?c = PLf"
  proof -
    from that(1) obtain pa k where pf: "pf = Some (pa, k)" by auto
    show ?thesis
      by (intro exI [of _ "[]"] exI [of _ a] exI [of _ b] exI [of _ pa] exI [of _ k] exI [of _ d]
          exI [of _ lt] exI [of _ rt]) (use pf that in auto)
  qed
  show ?case
  proof (cases "b < blen \<or> pf = None")
    case False
    with step show ?thesis by (intro stop) auto
  next
    case go: True
    show ?thesis
    proof (cases "troot ?c")
      case None
      then have "?c = PLf" by simp
      with PNd.prems(2) have "pf \<noteq> None" by (auto split: if_splits)
      with go step None \<open>?c = PLf\<close> show ?thesis by (intro stop) auto
    next
      case (Some y)
      have c: "rep h mb (Some a) ?c" "wf_trie ?c" using PNd.prems by auto
      have "\<exists>fs a b pa k d lt rt. lookup_descend h mb ad blen y = Some a \<and>
          ?c = plug fs (PNd a b (Some (pa, k)) d lt rt) \<and>
          (\<forall>f \<in> set fs. fdir f \<longleftrightarrow> fbit f < mb \<and> pbit ad (fbit f)) \<and>
          (blen \<le> b \<or> (if b < mb \<and> pbit ad b then rt else lt) = PLf)"
      proof (cases ?dir)
        case True
        then have eq: "?c = rt" by simp
        show ?thesis unfolding eq by (rule PNd.IH(2) [of "Some a"]) (use eq c Some PNd.prems(4) in simp_all)
      next
        case False
        then have eq: "?c = lt" by (rule if_not_P)
        show ?thesis unfolding eq by (rule PNd.IH(1) [of "Some a"]) (use eq c Some PNd.prems(4) in simp_all)
      qed
      then obtain fs a' b' pa k d' lt' rt' where r: "lookup_descend h mb ad blen y = Some a'"
          "?c = plug fs (PNd a' b' (Some (pa, k)) d' lt' rt')"
          "\<forall>f \<in> set fs. fdir f \<longleftrightarrow> fbit f < mb \<and> pbit ad (fbit f)"
          "blen \<le> b' \<or> (if b' < mb \<and> pbit ad b' then rt' else lt') = PLf"
        by blast
      have "PNd a b pf d lt rt = fill (Fr ?dir a b pf d ?s) ?c" by simp
      also have "\<dots> = plug (fs @ [Fr ?dir a b pf d ?s]) (PNd a' b' (Some (pa, k)) d' lt' rt')"
        unfolding r(2) by (simp add: plug_append)
      finally have eq: "PNd a b pf d lt rt =
          plug (fs @ [Fr ?dir a b pf d ?s]) (PNd a' b' (Some (pa, k)) d' lt' rt')" .
      have go_on: "lookup_descend h mb ad blen x = Some a'" using step go Some r(1) by (simp only: if_True) simp
      have dirs: "\<forall>f \<in> set (fs @ [Fr ?dir a b pf d ?s]). fdir f \<longleftrightarrow> fbit f < mb \<and> pbit ad (fbit f)"
        using r(3) by simp
      show ?thesis
        by (intro exI [of _ "fs @ [Fr ?dir a b pf d ?s]"] exI [of _ a'] exI [of _ b'] exI [of _ pa]
            exI [of _ k] exI [of _ d'] exI [of _ lt'] exI [of _ rt'] conjI)
          (fact go_on eq dirs r(4))+
    qed
  qed
qed simp

lemma lookup_up_spec:
  assumes "rep h mb (top fs) t" "rep_ctx h mb fs (troot t)" "troot t = Some x"
  shows "\<exists>fs1 fs2. fs = fs1 @ fs2 \<and> lookup_up h d x = troot (plug fs1 t) \<and>
    (\<forall>f \<in> set fs1. d \<le> fbit f) \<and> (\<forall>f fs'. fs2 = f # fs' \<longrightarrow> fbit f < d)"
  using assms
proof (induction fs arbitrary: t x rule: caddrs.induct)
  case 1
  then obtain b pf e lt rt where "pnodes h x = Some (node_of b pf (troot lt) (troot rt) None e)"
    using rep_node [OF 1(1,3)] by auto
  then have "lookup_up h d x = Some x" by (subst lookup_up.simps) simp
  with 1 show ?case by (intro exI [of _ "[]"]) simp
next
  case (2 dir a b pf e s fs)
  let ?f = "Fr dir a b pf e s"
  from "2.prems" obtain b' pf' e' lt rt where
      x: "pnodes h x = Some (node_of b' pf' (troot lt) (troot rt) (Some a) e')"
    using rep_node [OF "2.prems"(1,3)] by auto
  have a: "\<exists>n. pnodes h a = Some n \<and> nbit n = b" using "2.prems"(2) by auto
  show ?case
  proof (cases "b < d")
    case True
    then have "lookup_up h d x = Some x" using x a by (subst lookup_up.simps) auto
    with True "2.prems"(3) show ?thesis by (intro exI [of _ "[]"] exI [of _ "?f # fs"]) simp
  next
    case False
    then have step: "lookup_up h d x = lookup_up h d a" using x a by (subst lookup_up.simps) auto
    have "rep h mb (top fs) (fill ?f t)" "rep_ctx h mb fs (troot (fill ?f t))"
      using "2.prems" by auto
    then obtain fs1 fs2 where "fs = fs1 @ fs2" "lookup_up h d a = troot (plug fs1 (fill ?f t))"
        "\<forall>f \<in> set fs1. d \<le> fbit f" "\<forall>f fs'. fs2 = f # fs' \<longrightarrow> fbit f < d"
      using "2.IH" [of "fill ?f t" a] by (metis troot_fill faddr.simps)
    with step False show ?thesis
      by (intro exI [of _ "?f # fs1"] exI [of _ fs2]) auto
  qed
qed

section \<open>Redirecting a link\<close>

lemma relink_spec:
  assumes "rep_ctx h mb fs (Some c)" "c \<notin> set (caddrs fs)" "distinct (caddrs fs)"
  obtains pn where "relink h T (top fs) c new = Some (if fs = [] then T\<lparr>head := new\<rparr> else T, h\<lparr>pnodes := pn\<rparr>)"
    "rep_ctx (h\<lparr>pnodes := pn\<rparr>) mb fs new" "\<And>x. x \<notin> set (caddrs fs) \<Longrightarrow> pn x = pnodes h x"
proof (cases fs)
  case Nil
  with assms show ?thesis by (intro that [of "pnodes h"]) (simp_all add: relink_def)
next
  case (Cons f fs')
  obtain dir a b pf d s where f: "f = Fr dir a b pf d s" by (cases f)
  let ?n = "node_of b pf (if dir then troot s else new) (if dir then new else troot s) (top fs') d"
  let ?pn = "(pnodes h)(a \<mapsto> ?n)"
  have ctx: "rep h mb (Some a) s" "rep_ctx h mb fs' (Some a)" "pkey_ok h mb pf"
      "pnodes h a = Some (node_of b pf (if dir then troot s else Some c) (if dir then Some c else troot s) (top fs') d)"
    using assms(1) by (simp_all add: Cons f)
  have fr: "a \<notin> set (taddrs s)" "a \<notin> set (caddrs fs')" "troot s \<noteq> Some c"
    using assms(2,3) by (auto simp: Cons f dest: troot_in_taddrs)
  have "rep (h\<lparr>pnodes := ?pn\<rparr>) mb (Some a) s" "rep_ctx (h\<lparr>pnodes := ?pn\<rparr>) mb fs' (Some a)"
    using fr by (auto intro!: rep_frame [OF ctx(1)] rep_ctx_frame [OF ctx(2)]
        simp: same_nodes_def same_prefixes_def)
  moreover have "pkey_ok (h\<lparr>pnodes := ?pn\<rparr>) mb pf"
    using ctx(3) by (auto intro: pkey_ok_frame simp: same_prefixes_def)
  ultimately show ?thesis
    using ctx(4) fr(3)
    by (intro that [of ?pn]) (auto simp: relink_def Cons f put_node_def)
qed

section \<open>Where the walk stops\<close>

lemma prefix_fits_key:
  "prefix_fits mb p \<Longrightarrow> length (key_of p) = bitlen p"
  "prefix_fits mb p \<Longrightarrow> i < bitlen p \<Longrightarrow> key_of p ! i = pbit (add p) i"
  "prefix_fits mb p \<Longrightarrow> m \<le> bitlen p \<Longrightarrow> take m (key_of p) = take m (addr_bits (add p))"
  by (auto simp: prefix_fits_def key_of_def min_def)

lemma prefix_ok_bits:
  "prefix_ok h mb pa k \<Longrightarrow> pprefixes h pa = Some p \<Longrightarrow>
     prefix_fits mb p \<and> key_of p = k \<and> bitlen p = length k \<and> 0 < ref_count p"
  by (auto simp: prefix_ok_def prefix_fits_def)

text \<open>\<open>fs\<close> and \<open>s\<close> are the position at which the new node belongs, \<open>d\<close> is the differing bit
  and \<open>k\<close> the key of the node the walk down stopped at, which lies in \<open>s\<close>.\<close>

definition lands :: "ptree \<Rightarrow> prefix_t \<Rightarrow> nat \<Rightarrow> frame list \<Rightarrow> ptree \<Rightarrow> bool list \<Rightarrow> bool" where
  "lands t p d fs s k \<longleftrightarrow> t = plug fs s \<and> k \<in> keys s \<and> (\<forall>f \<in> set fs. fbit f < d) \<and>
     d \<le> tbit s \<and> d \<le> bitlen p \<and> take d (key_of p) = take d k \<and>
     (d < tbit s \<and> d < bitlen p \<longrightarrow> k ! d \<noteq> key_of p ! d) \<and>
     (tbit s = d \<and> d < bitlen p \<longrightarrow> (\<exists>a pf e c. s = (if key_of p ! d then PNd a d pf e c PLf else PNd a d pf e PLf c)))"

lemma frames_below:
  assumes "wf_trie (plug fs t)" "\<forall>f fs'. fs = f # fs' \<longrightarrow> fbit f < d"
  shows "\<forall>f \<in> set fs. fbit f < d"
proof (cases fs)
  case (Cons g fs')
  have "fbit f < fbit g" if "f \<in> set fs'" for f
    using plug_bits_increase [of fs' "fill g t" f] assms(1) that Cons by simp
  with assms(2) Cons show ?thesis by fastforce
qed simp

lemma lands_intro:
  assumes w: "wf_trie t" and t: "t = plug (fs1 @ fs2) (PNd a b (Some (pa, k)) e lt rt)"
    and mb: "prefix_fits mb p" "b \<le> mb"
    and dirs: "\<forall>f \<in> set (fs1 @ fs2). fdir f \<longleftrightarrow> fbit f < mb \<and> pbit (add p) (fbit f)"
    and stop: "bitlen p \<le> b \<or> (if b < mb \<and> pbit (add p) b then rt else lt) = PLf"
    and fs1: "\<forall>f \<in> set fs1. d \<le> fbit f" and fs2: "\<forall>f fs'. fs2 = f # fs' \<longrightarrow> fbit f < d"
    and d: "d \<le> b" "d \<le> bitlen p" "take d (key_of p) = take d k"
      "d < b \<Longrightarrow> d < bitlen p \<Longrightarrow> k ! d \<noteq> key_of p ! d"
  shows "lands t p d fs2 (plug fs1 (PNd a b (Some (pa, k)) e lt rt)) k"
proof -
  let ?n = "PNd a b (Some (pa, k)) e lt rt" and ?s = "plug fs1 (PNd a b (Some (pa, k)) e lt rt)"
  have t': "t = plug fs2 ?s" using t by (simp add: plug_append)
  have w1: "wf_trie ?s" using w t' wf_plug_sub by blast
  have ks: "k \<in> keys ?s" by (intro keys_plug_mono) simp
  have bits: "fbit f < b" if "f \<in> set fs1" for f using plug_bits_increase [OF w1 _ that] by simp
  have len: "bitlen p \<le> mb" using mb by (simp add: prefix_fits_def)
  have dt: "d \<le> tbit ?s"
  proof (cases fs1 rule: rev_cases)
    case (snoc gs g)
    then show ?thesis using fs1 by (simp add: plug_append)
  qed (use d in simp)
  have bt: "tbit ?s \<le> b"
  proof (cases fs1 rule: rev_cases)
    case (snoc gs g)
    then show ?thesis using bits [of g] by (simp add: plug_append)
  qed simp
  have nil: "fs1 = []" if "tbit ?s = d" "d < bitlen p"
  proof (cases fs1 rule: rev_cases)
    case (snoc gs g)
    then have g: "g \<in> set fs1" "fbit g = d" using that(1) by (simp_all add: plug_append)
    then have "k ! d = fdir g" using plug_frame_branch [OF w1, of g k] by simp
    moreover have "fdir g = pbit (add p) d" using dirs g that(2) len by auto
    moreover have "d < b" using bits g by blast
    ultimately show ?thesis using d(4) that(2) prefix_fits_key(2) [OF mb(1), of d] by simp
  qed simp
  have slot: "\<exists>a pf e c. ?s = (if key_of p ! d then PNd a d pf e c PLf else PNd a d pf e PLf c)"
    if "tbit ?s = d" "d < bitlen p"
  proof -
    have "fs1 = []" by (rule nil [OF that])
    moreover from this have "b = d" using that(1) by simp
    ultimately show ?thesis
      using stop that(2) len prefix_fits_key(2) [OF mb(1), of d] by (auto split: if_splits)
  qed
  show ?thesis
    unfolding lands_def
    using t' ks frames_below [OF _ fs2] w dt d slot bt by auto
qed

lemma lookup_lands:
  assumes T: "trie_at h T t" "head T = Some hn" and p: "prefix_fits (maxbits T) p"
  obtains node0 n0 tpa tp d node fs s k where
    "lookup_descend h (maxbits T) (add p) (bitlen p) hn = Some node0" "pnodes h node0 = Some n0"
    "prefix n0 = Some tpa" "pprefixes h tpa = Some tp"
    "lookup_differ (add p) (bitlen p) n0 tp = Some d" "lookup_up h d node0 = Some node"
    "troot s = Some node" "lands t p d fs s k" "maxbits T \<le> 8 * length (add tp)"
    "\<And>i. i < length k \<Longrightarrow> pbit (add tp) i = k ! i"
proof -
  have TT: "rep h (maxbits T) None t" "wf_trie t" "troot t = Some hn" using T by (auto simp: trie_at_def)
  have mp: "maxbits T \<le> 8 * length (add p)" "bitlen p \<le> maxbits T" using p by (auto simp: prefix_fits_def)
  obtain fs a b pa k e lt rt where desc:
      "lookup_descend h (maxbits T) (add p) (bitlen p) hn = Some a"
      "t = plug fs (PNd a b (Some (pa, k)) e lt rt)"
      "\<forall>f \<in> set fs. fdir f \<longleftrightarrow> fbit f < maxbits T \<and> pbit (add p) (fbit f)"
      "bitlen p \<le> b \<or> (if b < maxbits T \<and> pbit (add p) b then rt else lt) = PLf"
    using lookup_descend_spec [OF TT mp(1), of "bitlen p"] by blast
  let ?n = "PNd a b (Some (pa, k)) e lt rt"
  have r: "rep h (maxbits T) (top fs) ?n" "rep_ctx h (maxbits T) fs (troot ?n)"
    using TT(1) unfolding desc(2) rep_plug by blast+
  have wn: "wf_trie ?n" using TT(2) unfolding desc(2) by (rule wf_plug_sub)
  then have kb: "length k = b" by simp
  from r(1) obtain n0 where n0: "pnodes h a = Some n0" "prefix n0 = Some pa" "nbit n0 = b" by auto
  from r(1) have ok: "prefix_ok h (maxbits T) pa k" by (simp add: pkey_ok_def)
  then obtain tp where tp: "pprefixes h pa = Some tp" by (auto simp: prefix_ok_def)
  note tpf = prefix_ok_bits [OF ok tp]
  have bm: "b \<le> maxbits T" "maxbits T \<le> 8 * length (add tp)" using tpf kb by (auto simp: prefix_fits_def)
  obtain d where d: "lookup_differ (add p) (bitlen p) n0 tp = Some d" "d \<le> b" "d \<le> bitlen p"
      "take d (addr_bits (add p)) = take d (addr_bits (add tp))"
      "d < b \<Longrightarrow> d < bitlen p \<Longrightarrow> pbit (add p) d \<noteq> pbit (add tp) d"
    by (rule lookup_differ_spec [of n0 tp "bitlen p" "add p"]) (use n0 bm mp in auto)
  have kbit: "pbit (add tp) i = k ! i" if "i < length k" for i
    using tpf that prefix_fits_key(2) [of "maxbits T" tp i] by simp
  obtain fs1 fs2 where up: "fs = fs1 @ fs2" "lookup_up h d a = troot (plug fs1 ?n)"
      "\<forall>f \<in> set fs1. d \<le> fbit f" "\<forall>f fs'. fs2 = f # fs' \<longrightarrow> fbit f < d"
    using lookup_up_spec [OF r, of a d] by auto
  obtain node where node: "troot (plug fs1 ?n) = Some node" by (cases "troot (plug fs1 ?n)") auto
  have kd: "take d (key_of p) = take d k"
    using d tpf prefix_fits_key(3) [OF p d(3)] prefix_fits_key(3) [of "maxbits T" tp d] kb by simp
  have "lands t p d fs2 (plug fs1 ?n) k"
    by (rule lands_intro [OF TT(2) _ p bm(1)])
      (use desc up d kd kbit kb prefix_fits_key(2) [OF p] in \<open>auto simp del: plug.simps\<close>)
  with that [OF desc(1) n0(1,2) tp d(1)] up(2) node bm(2) kbit show ?thesis by metis
qed

section \<open>The new subtree\<close>

lemma agree_insert: "agree b K \<Longrightarrow> k \<in> K \<Longrightarrow> take b key = take b k \<Longrightarrow> agree b (insert key K)"
  unfolding agree_def by (metis insert_iff)

lemma agree_single [simp]: "agree b {k}"
  by (simp add: agree_def)

lemma wf_agree: "wf_trie s \<Longrightarrow> m \<le> tbit s \<Longrightarrow> agree m (keys s)"
  unfolding agree_def by (blast intro: wf_keys_agree)

lemma wf_branch:
  assumes "wf_trie s" "k \<in> keys s" "m < tbit s"
  shows "branch_ok m (k ! m) s"
proof -
  have "m < length k' \<and> k' ! m = k ! m" if "k' \<in> keys s" for k'
  proof -
    have "take (Suc m) k' = take (Suc m) k" using wf_keys_agree assms that Suc_leI by blast
    moreover have "m < length k'" using wf_keys_length [OF assms(1) that] assms(3) by simp
    ultimately show ?thesis by (metis lessI nth_take)
  qed
  with assms(3) show ?thesis by (auto simp: branch_ok_def)
qed

lemma lands_replace:
  assumes "wf_trie t" "lands t p d fs s k" "prefix_fits mb p"
    "wf_trie s'" "d \<le> tbit s'" "keys s' = insert (key_of p) (keys s)"
  shows "wf_trie (plug fs s')"
proof (rule wf_replace)
  show ws: "wf_trie (plug fs s)" using assms by (simp add: lands_def)
  show "\<forall>k' \<in> keys s'. key_fits fs s k'"
  proof
    fix k' assume "k' \<in> keys s'"
    then consider "k' = key_of p" | "k' \<in> keys s" using assms(6) by auto
    then show "key_fits fs s k'"
    proof cases
      case 1
      have "d \<le> length k"
        using assms(2) wf_keys_length [OF wf_plug_sub [OF ws], of k] by (auto simp: lands_def)
      with 1 assms(2) prefix_fits_key(1) [OF assms(3)] show ?thesis
        unfolding key_fits_def lands_def by (intro bexI [of _ k] exI [of _ d]) auto
    qed (rule key_fits_own [OF ws])
  qed
  show "\<forall>f \<in> set fs. fbit f < tbit s'" using assms(2,5) less_le_trans unfolding lands_def by blast
  show "s' \<noteq> PLf" using assms(6) by auto
qed (rule assms(4))

text \<open>The four shapes: the prefix of a glue node is set, the new leaf hangs below, the new
  node sits above, or both hang below a new glue node.\<close>

abbreviation leaf_of :: "addr \<Rightarrow> addr \<Rightarrow> prefix_t \<Rightarrow> ptree" where
  "leaf_of a pfx p \<equiv> PNd a (bitlen p) (Some (pfx, key_of p)) None PLf PLf"

lemma shape_set:
  assumes w: "wf_trie t" and l: "lands t p d fs s k" and fits: "prefix_fits mb p"
    and c: "s = PNd a (bitlen p) None e lt rt" "d = bitlen p"
  shows "wf_trie (plug fs (PNd a (bitlen p) (Some (pfx, key_of p)) e lt rt))"
proof (rule lands_replace [OF w l fits])
  have ws: "wf_trie s" using w l wf_plug_sub by (auto simp: lands_def)
  have "k \<in> keys s" "take (bitlen p) (key_of p) = take (bitlen p) k" using l c by (auto simp: lands_def)
  then have "agree (bitlen p) (insert (key_of p) (keys s))"
    using agree_insert wf_agree [OF ws, of "bitlen p"] c by simp
  with ws show "wf_trie (PNd a (bitlen p) (Some (pfx, key_of p)) e lt rt)"
    using c prefix_fits_key(1) [OF fits] by (simp add: insert_commute)
qed (use c in auto)

lemma shape_child:
  assumes w: "wf_trie t" and l: "lands t p d fs s k" and fits: "prefix_fits mb p"
    and c: "tbit s = d" "d < bitlen p"
    "s = (if key_of p ! d then PNd a d pf e c PLf else PNd a d pf e PLf c)"
  shows "wf_trie (plug fs (if key_of p ! d then PNd a d pf e c (leaf_of x pfx p)
                           else PNd a d pf e (leaf_of x pfx p) c))"
proof (rule lands_replace [OF w l fits])
  have ws: "wf_trie s" using w l wf_plug_sub by (auto simp: lands_def)
  have "k \<in> keys s" "take d (key_of p) = take d k" using l by (auto simp: lands_def)
  then have "agree d (insert (key_of p) (keys s))"
    using agree_insert wf_agree [OF ws, of d] c(1) by simp
  moreover have "wf_trie (leaf_of x pfx p)" "branch_ok d (key_of p ! d) (leaf_of x pfx p)"
    using c(2) prefix_fits_key(1) [OF fits] by (auto simp: branch_ok_def)
  ultimately show "wf_trie (if key_of p ! d then PNd a d pf e c (leaf_of x pfx p)
                           else PNd a d pf e (leaf_of x pfx p) c)"
    using ws c(3) by (auto simp: insert_commute Un_commute split: option.splits)
qed (use c in auto)

lemma shape_above:
  assumes w: "wf_trie t" and l: "lands t p d fs s k" and fits: "prefix_fits mb p"
    and c: "bitlen p < tbit s" "d = bitlen p"
  shows "wf_trie (plug fs (if k ! bitlen p then PNd x (bitlen p) (Some (pfx, key_of p)) None PLf s
                           else PNd x (bitlen p) (Some (pfx, key_of p)) None s PLf))"
proof (rule lands_replace [OF w l fits])
  have ws: "wf_trie s" using w l wf_plug_sub by (auto simp: lands_def)
  have k: "k \<in> keys s" "take d (key_of p) = take d k" using l by (auto simp: lands_def)
  then have "agree (bitlen p) (insert (key_of p) (keys s))"
    using agree_insert wf_agree [OF ws, of d] c by simp
  moreover have "branch_ok (bitlen p) (k ! bitlen p) s" using wf_branch [OF ws k(1) c(1)] .
  ultimately show "wf_trie (if k ! bitlen p then PNd x (bitlen p) (Some (pfx, key_of p)) None PLf s
                           else PNd x (bitlen p) (Some (pfx, key_of p)) None s PLf)"
    using ws prefix_fits_key(1) [OF fits] by auto
qed (use c in auto)

lemma shape_glue:
  assumes w: "wf_trie t" and l: "lands t p d fs s k" and fits: "prefix_fits mb p"
    and c: "d < tbit s" "d < bitlen p"
  shows "wf_trie (plug fs (if key_of p ! d then PNd g d None None s (leaf_of x pfx p)
                           else PNd g d None None (leaf_of x pfx p) s))"
proof (rule lands_replace [OF w l fits])
  have ws: "wf_trie s" using w l wf_plug_sub by (auto simp: lands_def)
  have k: "k \<in> keys s" "take d (key_of p) = take d k" "k ! d \<noteq> key_of p ! d"
    using l c by (auto simp: lands_def)
  then have "agree d (insert (key_of p) (keys s))"
    using agree_insert wf_agree [OF ws, of d] c by simp
  moreover have "branch_ok d (\<not> key_of p ! d) s" using wf_branch [OF ws k(1) c(1)] k(3) by simp
  moreover have "wf_trie (leaf_of x pfx p)" "branch_ok d (key_of p ! d) (leaf_of x pfx p)"
    using c(2) prefix_fits_key(1) [OF fits] by (auto simp: branch_ok_def)
  moreover have "s \<noteq> PLf" using k by auto
  ultimately show "wf_trie (if key_of p ! d then PNd g d None None s (leaf_of x pfx p)
                           else PNd g d None None (leaf_of x pfx p) s)"
    using ws by auto
qed (use c in auto)

section \<open>The store after linking\<close>

lemma new_node_spec:
  assumes "0 < mem_left h" "pprefixes h pfx = Some p" "0 < ref_count p"
  shows "new_patricia_node h b (Some pfx) = Some (brk h,
    h\<lparr>pnodes := (pnodes h)(brk h \<mapsto> \<lparr>nbit = b, prefix = Some pfx, l_ptr = None, r_ptr = None, parent = None, data = None\<rparr>),
      pprefixes := (pprefixes h)(pfx \<mapsto> p\<lparr>ref_count := ref_count p + 1\<rparr>),
      brk := Suc (brk h), mem_left := mem_left h - 1\<rparr>)"
  using assms by (simp add: new_patricia_node_def kmalloc_def Ref_Prefix_def heap_simps)

lemma troot_plug_eq:
  "r = troot (plug fs s) \<Longrightarrow> (if fs = [] then troot s' else r) = troot (plug fs s')"
  using troot_plug_Cons by (cases fs) auto

text \<open>A position of a stored trie, and what a changed store has to provide there.\<close>

lemma trie_at_plug:
  "trie_at h T (plug fs s) \<longleftrightarrow> head T = troot (plug fs s) \<and> rep h (maxbits T) (top fs) s \<and>
     rep_ctx h (maxbits T) fs (troot s) \<and> wf_trie (plug fs s) \<and>
     distinct (taddrs s @ caddrs fs) \<and> distinct (tprefs s @ cprefs fs) \<and>
     (\<forall>a \<in> set (taddrs s) \<union> set (caddrs fs) \<union> set (tprefs s) \<union> set (cprefs fs). a < brk h) \<and>
     maxbits T \<le> PATRICIA_MAXBITS \<and>
     num_active_node T = int (length (taddrs s) + length (caddrs fs))"
  unfolding trie_at_def plug_sets rep_plug by auto

definition kept :: "pheap \<Rightarrow> pheap \<Rightarrow> ptree \<Rightarrow> bool" where
  "kept h h' s \<longleftrightarrow> same_nodes (set (taddrs s)) h h' \<and> same_prefixes (set (tprefs s)) h h'"

definition kept_ctx :: "pheap \<Rightarrow> pheap \<Rightarrow> frame list \<Rightarrow> bool" where
  "kept_ctx h h' fs \<longleftrightarrow> same_nodes (set (caddrs fs)) h h' \<and> same_prefixes (set (cprefs fs)) h h'"

lemma rep_kept: "rep h mb par s \<Longrightarrow> kept h h' s \<Longrightarrow> rep h' mb par s"
  by (simp add: kept_def rep_frame)

lemma rep_ctx_kept: "rep_ctx h mb fs c \<Longrightarrow> kept_ctx h h' fs \<Longrightarrow> rep_ctx h' mb fs c"
  by (simp add: kept_ctx_def rep_ctx_frame)

text \<open>A subtree whose parent pointer alone was written.\<close>

lemma rep_reparent:
  assumes "rep h mb par (PNd a b pf d lt rt)" "distinct (taddrs (PNd a b pf d lt rt))"
    "pnodes h' = (pnodes h)(a \<mapsto> node_of b pf (troot lt) (troot rt) par' d)"
    "same_prefixes (set (tprefs (PNd a b pf d lt rt))) h h'"
  shows "rep h' mb par' (PNd a b pf d lt rt)"
proof -
  have "same_nodes (set (taddrs lt)) h h'" "same_nodes (set (taddrs rt)) h h'"
    using assms(2,3) by (auto simp: same_nodes_def)
  with assms show ?thesis by (auto intro: rep_frame pkey_ok_frame)
qed

definition ins_pre :: "pheap \<Rightarrow> patricia_tree_t \<Rightarrow> ptree \<Rightarrow> addr \<Rightarrow> prefix_t \<Rightarrow> bool" where
  "ins_pre h T t pfx p \<longleftrightarrow> trie_at h T t \<and> pprefixes h pfx = Some p \<and> prefix_fits (maxbits T) p \<and>
     0 < ref_count p \<and> pfx \<notin> set (tprefs t) \<and> pfx < brk h \<and> 2 \<le> mem_left h"

definition new_store ::
  "pheap \<Rightarrow> addr \<Rightarrow> prefix_t \<Rightarrow> (addr \<rightharpoonup> patricia_node_t) \<Rightarrow> nat \<Rightarrow> pheap" where
  "new_store h pfx p pn n = h\<lparr>pnodes := pn,
     pprefixes := (pprefixes h)(pfx \<mapsto> p\<lparr>ref_count := ref_count p + 1\<rparr>),
     brk := brk h + n, mem_left := mem_left h - n\<rparr>"

definition inserted ::
  "pheap \<Rightarrow> patricia_tree_t \<Rightarrow> ptree \<Rightarrow> addr \<Rightarrow> prefix_t \<Rightarrow> addr \<Rightarrow> patricia_tree_t \<Rightarrow> pheap \<Rightarrow> bool" where
  "inserted h T t pfx p a T' h' \<longleftrightarrow> (\<exists>t' pn n. trie_at h' T' t' \<and> h' = new_store h pfx p pn n \<and> n \<le> 2 \<and>
     ents t' = insert (key_of p, a, None) (ents t) \<and> key_of p \<notin> keys t \<and>
     set (tprefs t') = insert pfx (set (tprefs t)) \<and> maxbits T' = maxbits T)"

lemma new_store_simps [simp]:
  "pnodes (new_store h pfx p pn n) = pn"
  "pprefixes (new_store h pfx p pn n) = (pprefixes h)(pfx \<mapsto> p\<lparr>ref_count := ref_count p + 1\<rparr>)"
  "brk (new_store h pfx p pn n) = brk h + n"
  "(new_store h pfx p pn n)\<lparr>pnodes := pn'\<rparr> = new_store h pfx p pn' n"
  by (simp_all add: new_store_def)

lemma new_key_ok:
  "ins_pre h T t pfx p \<Longrightarrow> pkey_ok (new_store h pfx p pn n) (maxbits T) (Some (pfx, key_of p))"
  by (auto simp: ins_pre_def pkey_ok_def prefix_ok_def prefix_fits_def key_of_def)

lemma kept_new:
  "pfx \<notin> set (tprefs s) \<Longrightarrow> (\<And>x. x \<in> set (taddrs s) \<Longrightarrow> pn x = pnodes h x) \<Longrightarrow>
    kept h (new_store h pfx p pn n) s"
  "pfx \<notin> set (cprefs fs) \<Longrightarrow> (\<And>x. x \<in> set (caddrs fs) \<Longrightarrow> pn x = pnodes h x) \<Longrightarrow>
    kept_ctx h (new_store h pfx p pn n) fs"
  by (auto simp: kept_def kept_ctx_def same_nodes_def same_prefixes_def)

lemma kept_key:
  "pkey_ok h mb pf \<Longrightarrow> pfx \<notin> set (own_prefs pf) \<Longrightarrow> pkey_ok (new_store h pfx p pn n) mb pf"
  by (auto intro!: pkey_ok_frame [of pf h] simp: same_prefixes_def)

lemma insert_finish:
  assumes pre: "ins_pre h T (plug fs s) pfx p" and h': "h' = new_store h pfx p pn n" "n \<le> 2"
    and new: "wf_trie (plug fs s')" "rep h' (maxbits T) (top fs) s'" "rep_ctx h' (maxbits T) fs (troot s')"
    and T': "head T' = (if fs = [] then troot s' else head T)" "maxbits T' = maxbits T"
      "num_active_node T' = num_active_node T + int n"
    and addrs: "distinct (taddrs s')" "length (taddrs s') = length (taddrs s) + n"
      "set (taddrs s') \<subseteq> set (taddrs s) \<union> {brk h..<brk h + n}"
    and prefs: "distinct (tprefs s')" "set (tprefs s') = insert pfx (set (tprefs s))"
    and ents: "ents s' = insert (key_of p, a, None) (ents s)" "\<And>k' d'. (k', a, d') \<notin> ents (plug fs s)"
  shows "inserted h T (plug fs s) pfx p a T' h'"
proof -
  have T: "head T = troot (plug fs s)" "distinct (taddrs s @ caddrs fs)" "distinct (tprefs s @ cprefs fs)"
      "\<forall>a \<in> set (taddrs s) \<union> set (caddrs fs) \<union> set (tprefs s) \<union> set (cprefs fs). a < brk h"
      "maxbits T \<le> PATRICIA_MAXBITS" "num_active_node T = int (length (taddrs s) + length (caddrs fs))"
      "pfx \<notin> set (cprefs fs)" "pfx < brk h"
    using pre unfolding ins_pre_def trie_at_plug set_tprefs_plug by auto
  have "x \<notin> set (caddrs fs)" if "x \<in> set (taddrs s')" for x
  proof -
    from that addrs(3) consider "x \<in> set (taddrs s)" | "brk h \<le> x" by auto
    then show ?thesis
    proof cases
      case 1
      with T(2) show ?thesis by auto
    next
      case 2
      with T(4) show ?thesis by (meson UnI1 UnI2 linorder_not_less)
    qed
  qed
  then have "set (taddrs s') \<inter> set (caddrs fs) = {}" by blast
  moreover have "a < brk h + n" if "a \<in> set (taddrs s')" for a
    using that addrs(3) T(4) by (meson UnE UnI1 atLeastLessThan_iff subsetD trans_less_add1)
  ultimately have "trie_at h' T' (plug fs s')"
    unfolding trie_at_plug T'(2)
    using T T'(1,3) new addrs(1,2) prefs troot_plug_eq [OF T(1)] by (auto simp: h' trans_less_add1)
  moreover have e: "ents (plug fs s') = insert (key_of p, a, None) (ents (plug fs s))"
    by (simp add: ents_plug ents(1))
  moreover have "key_of p \<notin> keys (plug fs s)" by (rule fresh_key [OF new(1) e ents(2)])
  moreover have "set (tprefs (plug fs s')) = insert pfx (set (tprefs (plug fs s)))"
    by (simp add: set_tprefs_plug prefs(2))
  ultimately show ?thesis unfolding inserted_def using h' T'(2) by blast
qed

section \<open>The four ways to link\<close>

text \<open>What the cases share: the position read off the store, and the fresh addresses.\<close>

lemma ins_pre_position:
  assumes "ins_pre h T (plug fs s) pfx p"
  shows "rep h (maxbits T) (top fs) s" "rep_ctx h (maxbits T) fs (troot s)"
    "distinct (taddrs s)" "distinct (caddrs fs)" "set (taddrs s) \<inter> set (caddrs fs) = {}"
    "distinct (tprefs s)" "pfx \<notin> set (tprefs s)" "pfx \<notin> set (cprefs fs)"
    "\<And>x. x \<in> set (taddrs s) \<Longrightarrow> x < brk h" "\<And>x. x \<in> set (caddrs fs) \<Longrightarrow> x < brk h"
    "\<And>x k' d'. brk h \<le> x \<Longrightarrow> (k', x, d') \<notin> ents (plug fs s)"
    "maxbits T \<le> 8 * length (add p)" "pprefixes h pfx = Some p" "0 < ref_count p" "2 \<le> mem_left h"
    "wf_trie (plug fs s)" "prefix_fits (maxbits T) p"
proof -
  have at: "trie_at h T (plug fs s)" and pf: "pfx \<notin> set (tprefs (plug fs s))"
    using assms by (simp_all add: ins_pre_def)
  note at' = at [unfolded trie_at_plug]
  show "rep h (maxbits T) (top fs) s" "rep_ctx h (maxbits T) fs (troot s)" "distinct (taddrs s)"
    "distinct (caddrs fs)" "set (taddrs s) \<inter> set (caddrs fs) = {}" "distinct (tprefs s)" "wf_trie (plug fs s)"
    using at' by simp_all
  show "\<And>x. x \<in> set (taddrs s) \<Longrightarrow> x < brk h" "\<And>x. x \<in> set (caddrs fs) \<Longrightarrow> x < brk h"
    using at' by blast+
  show "(k', x, d') \<notin> ents (plug fs s)" if "brk h \<le> x" for x k' d'
  proof
    assume "(k', x, d') \<in> ents (plug fs s)"
    then have "x \<in> set (taddrs (plug fs s))" by (rule ents_addr)
    with at that show False unfolding trie_at_def by (meson UnI1 linorder_not_less)
  qed
qed (use assms in \<open>auto simp: ins_pre_def prefix_fits_def set_tprefs_plug\<close>)

lemma insert_set:
  assumes pre: "ins_pre h T (plug fs s) pfx p" and l: "lands (plug fs s) p (bitlen p) fs s k"
    and s: "s = PNd a (bitlen p) None e lt rt"
  shows "\<exists>h'. (do { (pp, h) \<leftarrow> Ref_Prefix h (Some pfx); h \<leftarrow> upd_node h a (\<lambda>m. m\<lparr>prefix := pp\<rparr>); Some (a, T, h) })
      = Some (a, T, h') \<and> inserted h T (plug fs s) pfx p a T h'"
proof -
  note P = ins_pre_position [OF pre]
  let ?pn = "(pnodes h)(a \<mapsto> node_of (bitlen p) (Some (pfx, key_of p)) (troot lt) (troot rt) (top fs) e)"
  let ?h = "new_store h pfx p ?pn 0" and ?s = "PNd a (bitlen p) (Some (pfx, key_of p)) e lt rt"
  have e: "e = None" using wf_plug_sub [OF P(16)] by (simp add: s)
  have run: "(do { (pp, h) \<leftarrow> Ref_Prefix h (Some pfx); h \<leftarrow> upd_node h a (\<lambda>m. m\<lparr>prefix := pp\<rparr>); Some (a, T, h) })
      = Some (a, T, ?h)"
    using P(1,13,14) by (simp add: s Ref_Prefix_def heap_simps new_store_def)
  have "kept h ?h lt" "kept h ?h rt" "kept_ctx h ?h fs"
    using P(3,5,7,8) by (auto intro!: kept_new simp: s)
  then have r: "rep ?h (maxbits T) (top fs) ?s" "rep_ctx ?h (maxbits T) fs (troot ?s)"
    using P(1,2) new_key_ok [OF pre] by (auto simp: s intro: rep_kept rep_ctx_kept)
  have "inserted h T (plug fs s) pfx p a T ?h"
  proof (rule insert_finish [OF pre refl _ _ r])
    show "wf_trie (plug fs ?s)" by (rule shape_set [OF P(16) l P(17) s refl])
    show "(k', a, d') \<notin> ents (plug fs s)" for k' d'
      using P(3,5) ents_addr [of k' a d' lt] ents_addr [of k' a d' rt] cents_addr [of k' a d' fs]
      by (auto simp: s ents_plug own_ents_def)
    show "head T = (if fs = [] then troot ?s else head T)" using pre by (auto simp: ins_pre_def trie_at_def s)
  qed (use P(3,6,7) in \<open>auto simp: s e own_prefs_def own_ents_def\<close>)
  with run show ?thesis by blast
qed

text \<open>The store when the new node has been allocated but not linked.\<close>

abbreviation leaf_node :: "addr \<Rightarrow> prefix_t \<Rightarrow> ptr \<Rightarrow> ptr \<Rightarrow> ptr \<Rightarrow> patricia_node_t" where
  "leaf_node pfx p lp rp par \<equiv> node_of (bitlen p) (Some (pfx, key_of p)) lp rp par None"

abbreviation leaf_store :: "pheap \<Rightarrow> addr \<Rightarrow> prefix_t \<Rightarrow> pheap" where
  "leaf_store h pfx p \<equiv> new_store h pfx p ((pnodes h)(brk h \<mapsto> leaf_node pfx p None None None)) 1"

lemma new_leaf:
  assumes "ins_pre h T t pfx p"
  shows "new_patricia_node h (bitlen p) (Some pfx) = Some (brk h, leaf_store h pfx p)"
  using assms new_node_spec [of h pfx p "bitlen p"] by (simp add: ins_pre_def new_store_def)

lemma insert_child:
  assumes pre: "ins_pre h T (plug fs s) pfx p" and l: "lands (plug fs s) p d fs s k"
    and s: "troot s = Some node" "pnodes h node = Some n" "nbit n = d" "d < bitlen p"
  shows "\<exists>T' h'. link_child (leaf_store h pfx p) (T\<lparr>num_active_node := num_active_node T + 1\<rparr>) (add p) node n (brk h)
      = Some (T', h') \<and> inserted h T (plug fs s) pfx p (brk h) T' h'"
proof -
  note P = ins_pre_position [OF pre]
  let ?dir = "key_of p ! d" and ?new = "brk h" and ?T = "T\<lparr>num_active_node := num_active_node T + 1\<rparr>"
  have td: "tbit s = d" using P(1) s(1-3) by (cases s) auto
  then obtain a pf e c where sh: "s = (if ?dir then PNd a d pf e c PLf else PNd a d pf e PLf c)"
    using l s(4) unfolding lands_def by blast
  then have a: "a = node" using s(1) by (auto split: if_splits)
  note sh = sh [unfolded a]
  let ?leaf = "leaf_of ?new pfx p"
  let ?s = "if ?dir then PNd node d pf e c ?leaf else PNd node d pf e ?leaf c"
  let ?pn = "(pnodes h)(?new \<mapsto> leaf_node pfx p None None (Some node),
      node \<mapsto> node_of d pf (if ?dir then troot c else Some ?new) (if ?dir then Some ?new else troot c) (top fs) e)"
  let ?h = "new_store h pfx p ?pn 1"
  have dir: "lookup_dir (maxbits T) (add p) d = Some ?dir"
    using P(12,17) s(4) prefix_fits_key(2) [OF P(17) s(4)] by (auto simp: prefix_fits_def)
  have nn: "node \<noteq> ?new" "node \<in> set (taddrs s)" using P(9) [of node] s(1) by (auto dest: troot_in_taddrs)
  have node: "pnodes h node = Some (node_of d pf (troot (if ?dir then c else PLf)) (troot (if ?dir then PLf else c)) (top fs) e)"
    using P(1) sh by (auto split: if_splits)
  have run: "link_child (leaf_store h pfx p) ?T (add p) node n ?new = Some (?T, ?h)"
    using dir nn(1) node s(3) by (simp add: link_child_def heap_simps new_store_def fun_upd_twist)
  have "kept h ?h c" "kept_ctx h ?h fs"
    using P(3,5,7,8) P(9,10) [of ?new] nn(1) sh by (auto intro!: kept_new split: if_splits)
  moreover have "pkey_ok ?h (maxbits T) pf"
    using P(1,7) sh by (intro kept_key) (auto split: if_splits)
  ultimately have r: "rep ?h (maxbits T) (top fs) ?s" "rep_ctx ?h (maxbits T) fs (troot ?s)"
    using P(1,2) sh new_key_ok [OF pre] nn(1) by (auto intro: rep_kept rep_ctx_kept split: if_splits)
  have "inserted h T (plug fs s) pfx p ?new ?T ?h"
  proof (rule insert_finish [OF pre refl _ _ r])
    show "wf_trie (plug fs ?s)" by (rule shape_child [OF P(16) l P(17) td s(4) sh])
    show "head ?T = (if fs = [] then troot ?s else head T)"
      using pre sh by (auto simp: ins_pre_def trie_at_def split: if_splits)
    show "(k', brk h, d') \<notin> ents (plug fs s)" for k' d' by (rule P(11)) simp
    show "distinct (taddrs ?s)" "set (taddrs ?s) \<subseteq> set (taddrs s) \<union> {brk h..<brk h + 1}"
      using P(3) P(9) [of ?new] sh nn(1) by (auto split: if_splits)
  qed (use P(6,7) sh in \<open>auto simp: own_prefs_def own_ents_def split: if_splits\<close>)
  with run show ?thesis by blast
qed

text \<open>Both other cases put a node at the position of \<open>s\<close> and hang \<open>s\<close> below it: the link
  that led to \<open>s\<close> and the parent pointer of its root change, nothing else.\<close>

lemma relink_below:
  assumes pre: "ins_pre h T (plug fs s) pfx p" and s: "s = PNd node b pf e lt rt"
    and h1: "h1 = new_store h pfx p pn1 m" "\<And>x. x < brk h \<Longrightarrow> pn1 x = pnodes h x" and up: "brk h \<le> up"
  obtains pn where
    "relink h1 T1 (top fs) node (Some up) = Some (if fs = [] then T1\<lparr>head := Some up\<rparr> else T1, h1\<lparr>pnodes := pn\<rparr>)"
    "upd_node (h1\<lparr>pnodes := pn\<rparr>) node (\<lambda>q. q\<lparr>parent := Some up\<rparr>) =
       Some (new_store h pfx p (pn(node \<mapsto> node_of b pf (troot lt) (troot rt) (Some up) e)) m)"
    "rep (new_store h pfx p (pn(node \<mapsto> node_of b pf (troot lt) (troot rt) (Some up) e)) m) (maxbits T) (Some up) s"
    "rep_ctx (new_store h pfx p (pn(node \<mapsto> node_of b pf (troot lt) (troot rt) (Some up) e)) m) (maxbits T) fs (Some up)"
    "\<And>x. brk h \<le> x \<Longrightarrow> pn x = pn1 x"
proof -
  note P = ins_pre_position [OF pre]
  have nn: "node \<in> set (taddrs s)" "node \<notin> set (caddrs fs)" using P(5) by (auto simp: s)
  have "kept_ctx h h1 fs" unfolding h1(1) using P(8,10) h1(2) by (intro kept_new) auto
  then have "rep_ctx h1 (maxbits T) fs (Some node)" using P(2) s by (auto intro: rep_ctx_kept)
  then obtain pn where pn: "relink h1 T1 (top fs) node (Some up) =
        Some (if fs = [] then T1\<lparr>head := Some up\<rparr> else T1, h1\<lparr>pnodes := pn\<rparr>)"
      "rep_ctx (h1\<lparr>pnodes := pn\<rparr>) (maxbits T) fs (Some up)" "\<And>x. x \<notin> set (caddrs fs) \<Longrightarrow> pn x = pnodes h1 x"
    using relink_spec nn(2) P(4) by blast
  let ?n = "node_of b pf (troot lt) (troot rt) (Some up) e"
  let ?h = "new_store h pfx p (pn(node \<mapsto> ?n)) m"
  have old: "pn x = pnodes h x" if "x \<in> set (taddrs s)" for x
    using pn(3) [of x] that P(5,9) h1 by (auto simp: disjoint_iff)
  have node: "pnodes h node = Some (node_of b pf (troot lt) (troot rt) (top fs) e)" using P(1) s by simp
  show ?thesis
  proof (rule that)
    show "relink h1 T1 (top fs) node (Some up) =
      Some (if fs = [] then T1\<lparr>head := Some up\<rparr> else T1, h1\<lparr>pnodes := pn\<rparr>)" by (rule pn(1))
    show "upd_node (h1\<lparr>pnodes := pn\<rparr>) node (\<lambda>q. q\<lparr>parent := Some up\<rparr>) = Some ?h"
      using old [OF nn(1)] node by (simp add: upd_node_def put_node_def h1(1))
    have "kept h ?h lt" "kept h ?h rt" using P(3,7) old by (auto intro!: kept_new simp: s)
    moreover have "pkey_ok ?h (maxbits T) pf" using P(1,7) by (intro kept_key) (auto simp: s)
    ultimately show "rep ?h (maxbits T) (Some up) s" using P(1) by (auto simp: s intro: rep_kept)
    show "rep_ctx ?h (maxbits T) fs (Some up)"
      by (rule rep_ctx_frame [OF pn(2)]) (use nn(2) h1 in \<open>auto simp: same_nodes_def same_prefixes_def\<close>)
    show "pn x = pn1 x" if "brk h \<le> x" for x
      using pn(3) [of x] P(10) [of x] that h1 by auto
  qed
qed

lemma insert_above:
  assumes pre: "ins_pre h T (plug fs s) pfx p" and l: "lands (plug fs s) p (bitlen p) fs s k"
    and s: "troot s = Some node" "pnodes h node = Some n" "bitlen p < nbit n"
    and tp: "maxbits T \<le> 8 * length (add tp)" "\<And>i. i < length k \<Longrightarrow> pbit (add tp) i = k ! i"
  shows "\<exists>T' h'. link_above (leaf_store h pfx p) (T\<lparr>num_active_node := num_active_node T + 1\<rparr>) (add tp) (bitlen p) node n (brk h)
      = Some (T', h') \<and> inserted h T (plug fs s) pfx p (brk h) T' h'"
proof -
  note P = ins_pre_position [OF pre]
  let ?new = "brk h" and ?T = "T\<lparr>num_active_node := num_active_node T + 1\<rparr>" and ?dir = "k ! bitlen p"
  obtain b pf e lt rt where sh: "s = PNd node b pf e lt rt" using s(1) by (cases s) auto
  then have n: "n = node_of b pf (troot lt) (troot rt) (top fs) e" using P(1) s(2) by simp
  have ws: "wf_trie s" by (rule wf_plug_sub [OF P(16)])
  have lt: "bitlen p < tbit s" using s(3) sh n by simp
  have "b \<le> length k" using wf_keys_length [OF ws, of k] l sh by (simp add: lands_def)
  moreover have "b \<le> maxbits T" using rep_tbit_bound [OF P(1) ws] sh by simp
  ultimately have dir: "lookup_dir (maxbits T) (add tp) (bitlen p) = Some ?dir"
    using tp lt sh by auto
  have nn: "node \<noteq> ?new" using P(9) [of node] sh by auto
  let ?leaf = "leaf_node pfx p (if ?dir then None else Some node) (if ?dir then Some node else None) (top fs)"
  let ?pn1 = "(pnodes h)(?new \<mapsto> ?leaf)"
  let ?h1 = "new_store h pfx p ?pn1 1"
  obtain pn where pn: "relink ?h1 ?T (top fs) node (Some ?new) =
        Some (if fs = [] then ?T\<lparr>head := Some ?new\<rparr> else ?T, ?h1\<lparr>pnodes := pn\<rparr>)"
      "upd_node (?h1\<lparr>pnodes := pn\<rparr>) node (\<lambda>q. q\<lparr>parent := Some ?new\<rparr>) =
        Some (new_store h pfx p (pn(node \<mapsto> node_of b pf (troot lt) (troot rt) (Some ?new) e)) 1)"
      "rep (new_store h pfx p (pn(node \<mapsto> node_of b pf (troot lt) (troot rt) (Some ?new) e)) 1) (maxbits T) (Some ?new) s"
      "rep_ctx (new_store h pfx p (pn(node \<mapsto> node_of b pf (troot lt) (troot rt) (Some ?new) e)) 1) (maxbits T) fs (Some ?new)"
      "\<And>x. brk h \<le> x \<Longrightarrow> pn x = ?pn1 x"
    by (rule relink_below [OF pre sh refl, of ?pn1 ?new 1 ?T]) auto
  let ?h = "new_store h pfx p (pn(node \<mapsto> node_of b pf (troot lt) (troot rt) (Some ?new) e)) 1"
  let ?T' = "if fs = [] then ?T\<lparr>head := Some ?new\<rparr> else ?T"
  let ?s = "if ?dir then PNd ?new (bitlen p) (Some (pfx, key_of p)) None PLf s
            else PNd ?new (bitlen p) (Some (pfx, key_of p)) None s PLf"
  let ?ha = "new_store h pfx p ((pnodes h)(?new \<mapsto> ?leaf\<lparr>parent := None\<rparr>)) 1"
  have prep: "upd_node (leaf_store h pfx p) ?new
        (\<lambda>m. if ?dir then m\<lparr>r_ptr := Some node\<rparr> else m\<lparr>l_ptr := Some node\<rparr>) = Some ?ha"
      "upd_node ?ha ?new (\<lambda>m. m\<lparr>parent := top fs\<rparr>) = Some ?h1"
    by (simp_all add: heap_simps)
  have sel: "maxbits ?T = maxbits T" "parent n = top fs" by (simp_all add: n)
  have run: "link_above (leaf_store h pfx p) ?T (add tp) (bitlen p) node n ?new = Some (?T', ?h)"
    by (simp only: link_above_def sel dir prep pn(1,2) bind.simps prod.case)
  have r: "rep ?h (maxbits T) (top fs) ?s" "rep_ctx ?h (maxbits T) fs (troot ?s)"
    using pn(3,4,5) sh nn new_key_ok [OF pre] by auto
  have "inserted h T (plug fs s) pfx p ?new ?T' ?h"
  proof (rule insert_finish [OF pre refl _ _ r])
    show "wf_trie (plug fs ?s)" by (rule shape_above [OF P(16) l P(17) lt refl])
    show "(k', brk h, d') \<notin> ents (plug fs s)" for k' d' by (rule P(11)) simp
    show "distinct (taddrs ?s)" using P(3) P(9) [of ?new] by auto
  qed (use P(6,7) in \<open>auto simp: own_prefs_def own_ents_def\<close>)
  with run show ?thesis by blast
qed

lemma insert_glue:
  assumes pre: "ins_pre h T (plug fs s) pfx p" and l: "lands (plug fs s) p d fs s k"
    and s: "troot s = Some node" "pnodes h node = Some n" "d < nbit n" "d < bitlen p"
  shows "\<exists>T' h'. link_glue (leaf_store h pfx p) (T\<lparr>num_active_node := num_active_node T + 1\<rparr>) (add p) d node n (brk h)
      = Some (T', h') \<and> inserted h T (plug fs s) pfx p (brk h) T' h'"
proof -
  note P = ins_pre_position [OF pre]
  let ?new = "brk h" and ?glue = "Suc (brk h)" and ?T = "T\<lparr>num_active_node := num_active_node T + 1\<rparr>"
  let ?TT = "?T\<lparr>num_active_node := num_active_node ?T + 1\<rparr>" and ?dir = "key_of p ! d"
  obtain b pf e lt rt where sh: "s = PNd node b pf e lt rt" using s(1) by (cases s) auto
  then have n: "n = node_of b pf (troot lt) (troot rt) (top fs) e" using P(1) s(2) by simp
  have lt: "d < tbit s" using s(3) sh n by simp
  have dir: "lookup_dir (maxbits T) (add p) d = Some ?dir"
    using P(12,17) s(4) prefix_fits_key(2) [OF P(17) s(4)] by (auto simp: prefix_fits_def)
  have nn: "node < ?new" using P(9) [of node] sh by auto
  let ?g = "\<lparr>nbit = d, prefix = None, l_ptr = (if ?dir then Some node else Some ?new),
      r_ptr = (if ?dir then Some ?new else Some node), parent = top fs, data = None\<rparr>"
  let ?pn1 = "(pnodes h)(?new \<mapsto> leaf_node pfx p None None (Some ?glue), ?glue \<mapsto> ?g)"
  let ?h1 = "new_store h pfx p ?pn1 2"
  obtain pn where pn: "relink ?h1 ?TT (top fs) node (Some ?glue) =
        Some (if fs = [] then ?TT\<lparr>head := Some ?glue\<rparr> else ?TT, ?h1\<lparr>pnodes := pn\<rparr>)"
      "upd_node (?h1\<lparr>pnodes := pn\<rparr>) node (\<lambda>q. q\<lparr>parent := Some ?glue\<rparr>) =
        Some (new_store h pfx p (pn(node \<mapsto> node_of b pf (troot lt) (troot rt) (Some ?glue) e)) 2)"
      "rep (new_store h pfx p (pn(node \<mapsto> node_of b pf (troot lt) (troot rt) (Some ?glue) e)) 2) (maxbits T) (Some ?glue) s"
      "rep_ctx (new_store h pfx p (pn(node \<mapsto> node_of b pf (troot lt) (troot rt) (Some ?glue) e)) 2) (maxbits T) fs (Some ?glue)"
      "\<And>x. brk h \<le> x \<Longrightarrow> pn x = ?pn1 x"
    by (rule relink_below [OF pre sh refl, of ?pn1 ?glue 2 ?TT]) auto
  let ?h = "new_store h pfx p (pn(node \<mapsto> node_of b pf (troot lt) (troot rt) (Some ?glue) e)) 2"
  let ?T' = "if fs = [] then ?TT\<lparr>head := Some ?glue\<rparr> else ?TT"
  let ?leaf = "leaf_of ?new pfx p"
  let ?s = "if ?dir then PNd ?glue d None None s ?leaf else PNd ?glue d None None ?leaf s"
  let ?hm = "(leaf_store h pfx p)\<lparr>brk := Suc ?glue, mem_left := mem_left h - 2\<rparr>"
  have mem: "kmalloc (leaf_store h pfx p) = Some (?glue, ?hm)"
    using P(15) by (simp add: kmalloc_def new_store_def)
  have prep: "upd_node (put_node ?hm ?glue ?g) ?new (\<lambda>m. m\<lparr>parent := Some ?glue\<rparr>) = Some ?h1"
    by (simp add: heap_simps new_store_def fun_upd_twist)
  have sel: "maxbits ?T = maxbits T" "parent n = top fs" by (simp_all add: n)
  have run: "link_glue (leaf_store h pfx p) ?T (add p) d node n ?new = Some (?T', ?h)"
    by (simp only: link_glue_def sel dir mem prep pn(1,2) bind.simps prod.case)
  have r: "rep ?h (maxbits T) (top fs) ?s" "rep_ctx ?h (maxbits T) fs (troot ?s)"
    using pn(3,4,5) sh nn new_key_ok [OF pre] by (auto simp: pkey_ok_def)
  have "inserted h T (plug fs s) pfx p ?new ?T' ?h"
  proof (rule insert_finish [OF pre refl _ _ r])
    show "wf_trie (plug fs ?s)" by (rule shape_glue [OF P(16) l P(17) lt s(4)])
    show "(k', brk h, d') \<notin> ents (plug fs s)" for k' d' by (rule P(11)) simp
    show "distinct (taddrs ?s)" using P(3) P(9) [of ?new] P(9) [of ?glue] by auto
  qed (use P(6,7) in \<open>auto simp: own_prefs_def own_ents_def\<close>)
  with run show ?thesis by blast
qed

lemma insert_empty:
  assumes pre: "ins_pre h T PLf pfx p"
  shows "inserted h T PLf pfx p (brk h) (T\<lparr>head := Some (brk h), num_active_node := num_active_node T + 1\<rparr>)
    (leaf_store h pfx p)"
proof -
  have pre': "ins_pre h T (plug [] PLf) pfx p" using pre by simp
  have "inserted h T (plug [] PLf) pfx p (brk h) (T\<lparr>head := Some (brk h), num_active_node := num_active_node T + 1\<rparr>)
      (leaf_store h pfx p)"
    by (rule insert_finish [OF pre' refl, where s' = "leaf_of (brk h) pfx p"])
      (use pre new_key_ok [OF pre] prefix_fits_key(1) in
        \<open>auto simp: own_prefs_def own_ents_def ins_pre_def trie_at_def\<close>)
  then show ?thesis by simp
qed

section \<open>Insertion\<close>

lemma lookup_at:
  assumes pre: "ins_pre h T t pfx p"
  shows "\<exists>a T' h'. patricia_lookup h T pfx = Some (a, T', h') \<and>
    ((\<exists>d. (key_of p, a, d) \<in> ents t) \<and> T' = T \<and> h' = h \<or> inserted h T t pfx p a T' h')"
proof -
  have pp: "pprefixes h pfx = Some p" and at: "trie_at h T t" and fits: "prefix_fits (maxbits T) p"
    using pre by (simp_all add: ins_pre_def)
  show ?thesis
  proof (cases "head T")
    case None
    then have t: "t = PLf" using at by (metis trie_at_def troot_None)
    show ?thesis
      using None pp new_leaf [OF pre] insert_empty [OF pre [unfolded t]]
      by (simp add: patricia_lookup_def t)
  next
    case (Some hn)
    obtain node0 n0 tpa tp d node fs s k where w:
        "lookup_descend h (maxbits T) (add p) (bitlen p) hn = Some node0" "pnodes h node0 = Some n0"
        "prefix n0 = Some tpa" "pprefixes h tpa = Some tp"
        "lookup_differ (add p) (bitlen p) n0 tp = Some d" "lookup_up h d node0 = Some node"
        "troot s = Some node" "lands t p d fs s k" "maxbits T \<le> 8 * length (add tp)"
        "\<And>i. i < length k \<Longrightarrow> pbit (add tp) i = k ! i"
      by (rule lookup_lands [OF at Some fits]) (rule that)
    have t: "t = plug fs s" and dle: "d \<le> tbit s" "d \<le> bitlen p" and ks: "k \<in> keys s"
        "take d (key_of p) = take d k"
      using w(8) by (auto simp: lands_def)
    note pre = pre [unfolded t] and l = w(8) [unfolded t]
    note P = ins_pre_position [OF pre]
    obtain b pf e lt rt where s: "s = PNd node b pf e lt rt" using w(7) by (cases s) auto
    then have n: "pnodes h node = Some (node_of b pf (troot lt) (troot rt) (top fs) e)" using P(1) by simp
    have ws: "wf_trie s" by (rule wf_plug_sub [OF P(16)])
    let ?T = "T\<lparr>num_active_node := num_active_node T + 1\<rparr>"
    note run = patricia_lookup_def pp Some w(1-6) n new_leaf [OF pre] s
    consider (same) pa k' where "d = bitlen p" "b = bitlen p" "pf = Some (pa, k')"
      | (glued) "d = bitlen p" "b = bitlen p" "pf = None"
      | (child) "b = d" "d < bitlen p" | (above) "d = bitlen p" "bitlen p < b"
      | (glue) "d < b" "d < bitlen p"
      using dle s by (cases pf) (force simp: less_le)+
    then show ?thesis
    proof cases
      case same
      have "k' \<in> keys s" "length k' = b" using ws by (auto simp: s same)
      then have "take d k' = take d k" using wf_keys_agree [OF ws _ ks(1), of k' d] dle(1) by blast
      then have "key_of p = k'"
        using ks(2) same \<open>length k' = b\<close> prefix_fits_key(1) [OF fits] by simp
      with same run show ?thesis by (auto simp: t ents_plug own_ents_def)
    next
      case glued
      then have "s = PNd node (bitlen p) None e lt rt" "lands (plug fs s) p (bitlen p) fs s k"
        using s l by simp_all
      from insert_set [OF pre this(2) this(1)] show ?thesis
        using glued run by (auto simp: t)
    next
      case child
      with insert_child [OF pre l w(7) n] run show ?thesis by (auto simp: t)
    next
      case above
      with insert_above [OF pre _ w(7) n _ w(9,10)] l run show ?thesis by (auto simp: t)
    next
      case glue
      with insert_glue [OF pre l w(7) n] run show ?thesis by (auto simp: t)
    qed
  qed
qed

end
