(* ===== verification/Patricia_Remove.thy ===== *)
theory Patricia_Remove
  imports Patricia_Insert
begin

text \<open>
  Correctness of \<^verbatim>\<open>patricia_remove\<close> and of writing a node's data: on every store that holds
  a trie, removing the node of an entry returns, keeps the invariant, takes exactly that
  entry out and drops one reference of its prefix. The cases of the code are the shapes of
  the subtree at the node: two children, one child, a leaf below a node with a prefix, a
  leaf below a glue node (which disappears as well), and the last node.
\<close>

section \<open>Writing the data of a node\<close>

lemma ents_addr_unique:
  assumes "trie_at h T t" "(k, a, d) \<in> ents t" "(x, a, e) \<in> ents t"
  shows "x = k \<and> e = d"
proof -
  obtain fs b pa lt rt where t: "t = plug fs (PNd a b (Some (pa, k)) d lt rt)"
    using ents_position [OF assms(2)] by blast
  have dist: "distinct (taddrs (PNd a b (Some (pa, k)) d lt rt) @ caddrs fs)"
    using assms(1) unfolding t trie_at_plug by blast
  have "(x, a, e) \<notin> ents lt" "(x, a, e) \<notin> ents rt" "(x, a, e) \<notin> cents fs"
    using dist ents_addr [of x a e] cents_addr [of x a e fs] by auto
  with assms(3) show ?thesis unfolding t ents_plug by (auto simp: own_ents_def)
qed

lemma set_data_at:
  assumes at: "trie_at h T t" "(k, a, d) \<in> ents t"
  shows "\<exists>t' pn. upd_node h a (\<lambda>m. m\<lparr>data := d'\<rparr>) = Some (h\<lparr>pnodes := pn\<rparr>) \<and> trie_at (h\<lparr>pnodes := pn\<rparr>) T t' \<and>
    ents t' = insert (k, a, d') (ents t - {(k, a, d)}) \<and> set (tprefs t') = set (tprefs t)"
proof -
  obtain fs b pa lt rt where t: "t = plug fs (PNd a b (Some (pa, k)) d lt rt)"
    using ents_position [OF at(2)] by blast
  let ?s = "PNd a b (Some (pa, k)) d lt rt" and ?s' = "PNd a b (Some (pa, k)) d' lt rt"
  note T = at(1) [unfolded t trie_at_plug]
  let ?pn = "(pnodes h)(a \<mapsto> node_of b (Some (pa, k)) (troot lt) (troot rt) (top fs) d')"
  let ?h = "h\<lparr>pnodes := ?pn\<rparr>"
  have "a \<notin> set (taddrs lt)" "a \<notin> set (taddrs rt)" "a \<notin> set (caddrs fs)" using T by auto
  then have "kept h ?h lt" "kept h ?h rt" "kept_ctx h ?h fs"
    by (auto simp: kept_def kept_ctx_def same_nodes_def same_prefixes_def)
  then have r: "rep ?h (maxbits T) (top fs) ?s'" "rep_ctx ?h (maxbits T) fs (troot ?s')"
    using T by (auto intro: rep_kept rep_ctx_kept pkey_ok_frame [of _ h] simp: same_prefixes_def)
  have w: "wf_trie (plug fs ?s')"
  proof (rule wf_replace)
    show "wf_trie (plug fs ?s)" using T by blast
    then have "wf_trie ?s" by (rule wf_plug_sub)
    then show "wf_trie ?s'" by simp
    show "\<forall>f \<in> set fs. fbit f < tbit ?s'"
      using plug_bits_increase [OF \<open>wf_trie (plug fs ?s)\<close>] by simp
    show "\<forall>k' \<in> keys ?s'. key_fits fs ?s k'"
      using key_fits_own [OF \<open>wf_trie (plug fs ?s)\<close>] by simp
  qed simp
  have tr: "troot (plug fs ?s') = troot (plug fs ?s)"
    by (cases fs) (auto intro: troot_plug_Cons simp del: plug.simps simp: plug.simps(1))
  have "trie_at ?h T (plug fs ?s')"
    unfolding trie_at_plug using T r w tr by simp
  moreover have "ents (plug fs ?s') = insert (k, a, d') (ents t - {(k, a, d)})"
  proof -
    have "(k, a, d) \<notin> ents lt" "(k, a, d) \<notin> ents rt" "(k, a, d) \<notin> cents fs"
      using T ents_addr [of k a d] cents_addr [of k a d fs] by auto
    then show ?thesis by (auto simp: t ents_plug own_ents_def)
  qed
  moreover have "set (tprefs (plug fs ?s')) = set (tprefs t)"
    by (simp add: t set_tprefs_plug)
  moreover have "upd_node h a (\<lambda>m. m\<lparr>data := d'\<rparr>) = Some ?h"
    using T by (simp add: heap_simps)
  ultimately show ?thesis by blast
qed

section \<open>Removing a node\<close>

definition old_store :: "pheap \<Rightarrow> addr \<Rightarrow> prefix_t \<Rightarrow> (addr \<rightharpoonup> patricia_node_t) \<Rightarrow> pheap" where
  "old_store h pa p pn = h\<lparr>pnodes := pn, pprefixes := (pprefixes h)(pa :=
     if ref_count p \<le> 1 then None else Some (p\<lparr>ref_count := ref_count p - 1\<rparr>))\<rparr>"

definition removed ::
  "pheap \<Rightarrow> patricia_tree_t \<Rightarrow> ptree \<Rightarrow> addr \<Rightarrow> prefix_t \<Rightarrow> bool list \<times> addr \<times> ptr
     \<Rightarrow> patricia_tree_t \<Rightarrow> pheap \<Rightarrow> bool" where
  "removed h T t pa p e T' h' \<longleftrightarrow> (\<exists>t' pn. trie_at h' T' t' \<and> h' = old_store h pa p pn \<and>
     ents t' = ents t - {e} \<and> set (tprefs t') = set (tprefs t) - {pa} \<and> maxbits T' = maxbits T)"

lemma old_store_simps [simp]:
  "pnodes (old_store h pa p pn) = pn"
  "pprefixes (old_store h pa p pn) = (pprefixes h)(pa :=
     if ref_count p \<le> 1 then None else Some (p\<lparr>ref_count := ref_count p - 1\<rparr>))"
  "brk (old_store h pa p pn) = brk h"
  "(old_store h pa p pn)\<lparr>pnodes := pn'\<rparr> = old_store h pa p pn'"
  by (simp_all add: old_store_def)

lemma Deref_Prefix_spec:
  "pprefixes h pa = Some p \<Longrightarrow> Deref_Prefix h (Some pa) = Some (old_store h pa p (pnodes h))"
  by (simp add: Deref_Prefix_def heap_simps old_store_def)

lemma Deref_Prefix_nodes:
  "pprefixes h pa = Some p \<Longrightarrow> Deref_Prefix (h\<lparr>pnodes := pn\<rparr>) (Some pa) = Some (old_store h pa p pn)"
  by (simp add: Deref_Prefix_def heap_simps old_store_def)

lemma kept_old:
  "pa \<notin> set (tprefs s) \<Longrightarrow> (\<And>x. x \<in> set (taddrs s) \<Longrightarrow> pn x = pnodes h x) \<Longrightarrow> kept h (old_store h pa p pn) s"
  "pa \<notin> set (cprefs fs) \<Longrightarrow> (\<And>x. x \<in> set (caddrs fs) \<Longrightarrow> pn x = pnodes h x) \<Longrightarrow>
    kept_ctx h (old_store h pa p pn) fs"
  by (auto simp: kept_def kept_ctx_def same_nodes_def same_prefixes_def old_store_def)

lemma kept_key_old:
  "pkey_ok h mb pf \<Longrightarrow> pa \<notin> set (own_prefs pf) \<Longrightarrow> pkey_ok (old_store h pa p pn) mb pf"
  by (auto intro!: pkey_ok_frame [of pf h] simp: same_prefixes_def old_store_def)

lemma agree_mono: "agree b K \<Longrightarrow> K' \<subseteq> K \<Longrightarrow> agree b K'"
  unfolding agree_def by blast

lemma wf_shrink:
  assumes "wf_trie (plug fs s)" "s \<noteq> PLf" "wf_trie s'" "s' \<noteq> PLf" "tbit s \<le> tbit s'" "keys s' \<subseteq> keys s"
  shows "wf_trie (plug fs s')"
proof (rule wf_replace [OF assms(1,3,4)])
  show "\<forall>f \<in> set fs. fbit f < tbit s'"
    using plug_bits_increase [OF assms(1,2)] assms(5) less_le_trans by blast
  show "\<forall>k \<in> keys s'. key_fits fs s k" using assms(1,6) key_fits_own by blast
qed

lemma remove_finish:
  assumes at: "trie_at h T (plug fs s)" and h': "h' = old_store h pa p pn"
    and new: "wf_trie (plug fs s')" "rep h' (maxbits T) (top fs) s'" "rep_ctx h' (maxbits T) fs (troot s')"
    and T': "head T' = (if fs = [] then troot s' else head T)" "maxbits T' = maxbits T"
      "num_active_node T' = num_active_node T - int n"
    and addrs: "distinct (taddrs s')" "length (taddrs s) = length (taddrs s') + n"
      "set (taddrs s') \<subseteq> set (taddrs s)"
    and prefs: "distinct (tprefs s')" "set (tprefs s') = set (tprefs s) - {pa}" "pa \<in> set (tprefs s)"
    and ents: "ents s' = ents s - {(k, a, d)}" "(k, a, d) \<in> ents s"
  shows "removed h T (plug fs s) pa p (k, a, d) T' h'"
proof -
  note T = at [unfolded trie_at_plug]
  have hd: "head T = troot (plug fs s)" using T by blast
  have "distinct (taddrs s' @ caddrs fs)" using T addrs by auto
  moreover have "distinct (tprefs s' @ cprefs fs)" using T prefs by auto
  moreover have "\<forall>x \<in> set (taddrs s') \<union> set (caddrs fs) \<union> set (tprefs s') \<union> set (cprefs fs). x < brk h'"
    using T addrs(3) prefs(2) unfolding h' old_store_simps by blast
  ultimately have "trie_at h' T' (plug fs s')"
    unfolding trie_at_plug T'(2) T'(1) T'(3)
    using T new addrs(2) troot_plug_eq [OF hd, of s'] by simp
  moreover have "(k, a, d) \<notin> cents fs"
    using T ents_addr [OF ents(2)] cents_addr [of k a d fs] by auto
  then have "ents (plug fs s') = ents (plug fs s) - {(k, a, d)}"
    unfolding ents_plug ents(1) by blast
  moreover have "pa \<notin> set (cprefs fs)" using T prefs(3) by auto
  then have "set (tprefs (plug fs s')) = set (tprefs (plug fs s)) - {pa}"
    unfolding set_tprefs_plug prefs(2) by blast
  ultimately show ?thesis unfolding removed_def using h' T'(2) by blast
qed

text \<open>What every case reads off the store at the position of the entry.\<close>

lemma entry_store:
  assumes "trie_at h T (plug fs s)" "s = PNd a b (Some (pa, k)) d lt rt"
  shows "pnodes h a = Some (node_of b (Some (pa, k)) (troot lt) (troot rt) (top fs) d)"
    "\<exists>p. pprefixes h pa = Some p"
    "rep h (maxbits T) (Some a) lt" "rep h (maxbits T) (Some a) rt" "rep_ctx h (maxbits T) fs (Some a)"
    "pa \<notin> set (tprefs lt)" "pa \<notin> set (tprefs rt)" "pa \<notin> set (cprefs fs)"
    "distinct (taddrs s)" "distinct (caddrs fs)" "set (taddrs s) \<inter> set (caddrs fs) = {}"
    "distinct (tprefs s)" "wf_trie (plug fs s)" "wf_trie s"
    "(k, a, d) \<notin> ents lt" "(k, a, d) \<notin> ents rt"
proof -
  note T = assms(1) [unfolded trie_at_plug]
  show "wf_trie (plug fs s)" using T by blast
  then show "wf_trie s" by (rule wf_plug_sub)
  show "(k, a, d) \<notin> ents lt" "(k, a, d) \<notin> ents rt"
    using T ents_addr [of k a d lt] ents_addr [of k a d rt] by (auto simp: assms(2))
qed (use assms(1) in \<open>auto simp: assms(2) trie_at_plug own_prefs_def pkey_ok_def prefix_ok_def\<close>)

lemma remove_both:
  assumes at: "trie_at h T (plug fs s)" and s: "s = PNd a b (Some (pa, k)) d lt rt" "lt \<noteq> PLf" "rt \<noteq> PLf"
    and p: "pprefixes h pa = Some p"
  shows "\<exists>T' h'. patricia_remove h T a = Some (T', h') \<and> removed h T (plug fs s) pa p (k, a, d) T' h'"
proof -
  note S = entry_store [OF at s(1)]
  let ?pn = "(pnodes h)(a \<mapsto> node_of b None (troot lt) (troot rt) (top fs) None)"
  let ?h = "old_store h pa p ?pn" and ?s = "PNd a b None None lt rt"
  obtain x y where xy: "troot lt = Some x" "troot rt = Some y" using s(2,3) by (metis option.exhaust troot_None)
  have run: "patricia_remove h T a = Some (T, ?h)"
    using S(1) xy Deref_Prefix_spec [OF p] by (simp add: patricia_remove_def heap_simps)
  have "kept h ?h lt" "kept h ?h rt" "kept_ctx h ?h fs"
    using S(6-11) by (auto intro!: kept_old simp: s(1))
  then have r: "rep ?h (maxbits T) (top fs) ?s" "rep_ctx ?h (maxbits T) fs (troot ?s)"
    using S(3-5) by (auto simp: pkey_ok_def intro: rep_kept rep_ctx_kept)
  have sub: "keys ?s \<subseteq> keys s" by (auto simp: s(1))
  have "agree b (keys ?s)"
    using agree_mono [OF wf_agree [OF S(14), of b] sub] by (simp add: s(1))
  then have "wf_trie ?s" using S(14) s by simp
  then have "wf_trie (plug fs ?s)" by (intro wf_shrink [OF S(13) _ _ _ _ sub]) (auto simp: s(1))
  moreover have "head T = (if fs = [] then troot ?s else head T)"
    using at by (auto simp: trie_at_def s(1))
  ultimately have "removed h T (plug fs s) pa p (k, a, d) T ?h"
    using S(6,7,9,12,15,16)
    by (intro remove_finish [OF at refl _ r, where n = 0]) (auto simp: s(1) own_prefs_def own_ents_def)
  with run show ?thesis by blast
qed

lemma remove_last:
  assumes at: "trie_at h T s" and s: "s = PNd a b (Some (pa, k)) d PLf PLf"
    and p: "pprefixes h pa = Some p"
  shows "\<exists>T' h'. patricia_remove h T a = Some (T', h') \<and> removed h T s pa p (k, a, d) T' h'"
proof -
  have at': "trie_at h T (plug [] s)" using at by simp
  note S = entry_store [OF at' s]
  let ?h = "old_store h pa p ((pnodes h)(a := None))"
  let ?T = "T\<lparr>head := None, num_active_node := num_active_node T - 1\<rparr>"
  have run: "patricia_remove h T a = Some (?T, ?h)"
    using S(1) Deref_Prefix_spec [OF p] by (simp add: patricia_remove_def heap_simps)
  have "removed h T (plug [] s) pa p (k, a, d) ?T ?h"
    by (rule remove_finish [OF at' refl, where n = 1 and s' = PLf]) (auto simp: s own_prefs_def own_ents_def)
  with run show ?thesis by auto
qed

lemma remove_leaf_kept_parent:
  assumes at: "trie_at h T (plug (f # fs) s)" and s: "s = PNd a b (Some (pa, k)) d PLf PLf"
    and f: "f = Fr dir x b' (Some (px, kx)) e sib" and p: "pprefixes h pa = Some p"
  shows "\<exists>T' h'. patricia_remove h T a = Some (T', h') \<and> removed h T (plug (f # fs) s) pa p (k, a, d) T' h'"
proof -
  note S = entry_store [OF at s]
  have at': "trie_at h T (plug fs (fill f s))" using at by simp
  let ?n = "node_of b' (Some (px, kx)) (if dir then troot sib else None) (if dir then None else troot sib) (top fs) e"
  let ?pn = "(pnodes h)(a := None, x \<mapsto> ?n)" and ?T = "T\<lparr>num_active_node := num_active_node T - 1\<rparr>"
  let ?h = "old_store h pa p ?pn" and ?s = "fill f PLf"
  have ne: "x \<noteq> a" "troot sib \<noteq> Some a" "a \<notin> set (taddrs sib)" "a \<notin> set (caddrs fs)" "x \<notin> set (taddrs sib)"
      "x \<notin> set (caddrs fs)" "pa \<notin> set (tprefs sib)" "pa \<notin> set (cprefs fs)" "pa \<noteq> px"
    using S(8,10,11) by (auto simp: s f own_prefs_def dest: troot_in_taddrs)
  have run: "patricia_remove h T a = Some (?T, ?h)"
    using S(1,5) ne(1,2) Deref_Prefix_spec [OF p] by (simp add: patricia_remove_def heap_simps s f)
  have "kept h ?h sib" "kept_ctx h ?h fs" using ne by (auto intro!: kept_old)
  moreover have "pkey_ok ?h (maxbits T) (Some (px, kx))"
    using S(5) ne by (intro kept_key_old) (auto simp: f own_prefs_def)
  ultimately have r: "rep ?h (maxbits T) (top fs) ?s" "rep_ctx ?h (maxbits T) fs (troot ?s)"
    using S(5) by (auto simp: f intro: rep_kept rep_ctx_kept)
  have wf: "wf_trie (plug fs (fill f s))" "wf_trie (fill f s)" using S(13) wf_plug_sub by auto
  have sub: "keys ?s \<subseteq> keys (fill f s)" by (auto simp: f)
  have "agree b' (keys ?s)" using agree_mono [OF wf_agree [OF wf(2), of b'] sub] by (simp add: f)
  then have "wf_trie ?s" using wf(2) by (auto simp: f split: if_splits)
  then have w: "wf_trie (plug fs ?s)" by (intro wf_shrink [OF wf(1) _ _ _ _ sub]) simp_all
  have hd: "head ?T = (if fs = [] then troot ?s else head T)" using at' by (auto simp: trie_at_def)
  have dist: "distinct (taddrs sib)" "distinct (tprefs sib)" "px \<notin> set (tprefs sib)"
    using at' unfolding trie_at_plug f fill.simps by (auto simp: own_prefs_def split: if_splits)
  have "removed h T (plug fs (fill f s)) pa p (k, a, d) ?T ?h"
    by (rule remove_finish [OF at' refl w r hd, where n = 1])
      (use dist ne ents_addr [of k a d sib] in \<open>auto simp: s f own_prefs_def own_ents_def\<close>)
  with run show ?thesis by auto
qed

text \<open>In the two remaining cases a subtree \<open>c\<close> moves up to the position of a node \<open>x\<close> that goes.\<close>

lemma moved_up:
  assumes c: "c = PNd y yb ypf yd yl yr" "rep h mb (Some x) c" "distinct (taddrs c)" "pa \<notin> set (tprefs c)"
    and pn: "\<And>z. z \<in> set (taddrs yl) \<union> set (taddrs yr) \<Longrightarrow> pn z = pnodes h z"
      "pn y = Some (node_of yb ypf (troot yl) (troot yr) par yd)"
  shows "rep (old_store h pa p pn) mb par c"
proof -
  have "kept h (old_store h pa p pn) yl" "kept h (old_store h pa p pn) yr"
    using c pn(1) by (auto intro!: kept_old)
  moreover have "pkey_ok (old_store h pa p pn) mb ypf" using c by (intro kept_key_old) auto
  ultimately show ?thesis using c pn(2) by (auto intro: rep_kept)
qed

lemma remove_one_child:
  assumes at: "trie_at h T (plug fs s)" and s: "s = PNd a b (Some (pa, k)) d lt rt"
    and c: "c = PNd y yb ypf yd yl yr" "lt = c \<and> rt = PLf \<or> lt = PLf \<and> rt = c"
    and p: "pprefixes h pa = Some p"
  shows "\<exists>T' h'. patricia_remove h T a = Some (T', h') \<and> removed h T (plug fs s) pa p (k, a, d) T' h'"
proof -
  note S = entry_store [OF at s]
  let ?T = "T\<lparr>num_active_node := num_active_node T - 1\<rparr>"
  let ?y = "node_of yb ypf (troot yl) (troot yr) (top fs) yd"
  let ?hm = "old_store h pa p ((pnodes h)(y \<mapsto> ?y, a := None))"
  have rc: "rep h (maxbits T) (Some a) c" and pc: "pa \<notin> set (tprefs c)" "distinct (tprefs c)" using S(3,4,6,7,12) c(2) s by auto
  have dc: "a \<notin> set (taddrs c)" "distinct (taddrs c)" "set (taddrs c) \<inter> set (caddrs fs) = {}" "a \<notin> set (caddrs fs)"
    using S(9,11) c(2) by (auto simp: s)
  have "kept_ctx h ?hm fs" using S(8) dc c(1) by (intro kept_old) auto
  then have ctx: "rep_ctx ?hm (maxbits T) fs (Some a)" using S(5) by (auto intro: rep_ctx_kept)
  obtain pn where pn: "relink ?hm ?T (top fs) a (Some y) =
        Some (if fs = [] then ?T\<lparr>head := Some y\<rparr> else ?T, ?hm\<lparr>pnodes := pn\<rparr>)"
      "rep_ctx (?hm\<lparr>pnodes := pn\<rparr>) (maxbits T) fs (Some y)" "\<And>x. x \<notin> set (caddrs fs) \<Longrightarrow> pn x = pnodes ?hm x"
    by (rule relink_spec [OF ctx dc(4) S(10)]) (rule that)
  let ?h = "old_store h pa p pn" and ?T' = "if fs = [] then ?T\<lparr>head := Some y\<rparr> else ?T"
  have ya: "y \<noteq> a" and hy: "pnodes h y = Some (node_of yb ypf (troot yl) (troot yr) (Some a) yd)"
    using dc rc by (auto simp: c(1))
  have run: "patricia_remove h T a = Some (?T', ?h)"
    using S(1) c(2) ya hy pn(1) Deref_Prefix_nodes [OF p]
    by (auto simp: patricia_remove_def c(1) upd_node_def put_node_def free_node_def)
  have r: "rep ?h (maxbits T) (top fs) c" "rep_ctx ?h (maxbits T) fs (troot c)"
  proof -
    show "rep_ctx ?h (maxbits T) fs (troot c)" using pn(2) c(1) by simp
    show "rep ?h (maxbits T) (top fs) c"
      by (rule moved_up [OF c(1) rc dc(2) pc(1)]) (use pn(3) dc ya in \<open>auto simp: c(1) disjoint_iff\<close>)
  qed
  have ents: "(k, a, d) \<notin> ents c" using dc(1) ents_addr by blast
  have "wf_trie c" "branch_ok b (rt = c) c" using S(14) c by (auto simp: s)
  then have "wf_trie (plug fs c)"
    using c by (intro wf_shrink [OF S(13)]) (auto simp: s branch_ok_def less_imp_le)
  moreover have "head ?T' = (if fs = [] then troot c else head T)" by (simp add: c(1))
  ultimately have "removed h T (plug fs s) pa p (k, a, d) ?T' ?h"
    by (intro remove_finish [OF at refl _ r, where n = 1])
      (use dc pc ents c(2) in \<open>auto simp: s own_prefs_def own_ents_def\<close>)
  with run show ?thesis by blast
qed

lemma remove_leaf_glue_parent:
  assumes at: "trie_at h T (plug (f # fs) s)" and s: "s = PNd a b (Some (pa, k)) d PLf PLf"
    and f: "f = Fr dir x b' None e sib" and p: "pprefixes h pa = Some p"
  shows "\<exists>T' h'. patricia_remove h T a = Some (T', h') \<and> removed h T (plug (f # fs) s) pa p (k, a, d) T' h'"
proof -
  note S = entry_store [OF at s]
  have at': "trie_at h T (plug fs (fill f s))" using at by simp
  have wf: "wf_trie (plug fs (fill f s))" "wf_trie (fill f s)" using S(13) wf_plug_sub by auto
  then have "sib \<noteq> PLf" by (auto simp: f split: if_splits)
  then obtain y yb ypf yd yl yr where c: "sib = PNd y yb ypf yd yl yr" by (cases sib) auto
  let ?T = "T\<lparr>num_active_node := num_active_node T - 1\<rparr>"
  let ?x = "node_of b' None (if dir then Some y else None) (if dir then None else Some y) (top fs) e"
  let ?hm = "old_store h pa p ((pnodes h)(a := None, x \<mapsto> ?x))"
  have ctx0: "rep h (maxbits T) (Some x) sib" "rep_ctx h (maxbits T) fs (Some x)"
      "pnodes h x = Some (node_of b' None (if dir then Some y else Some a) (if dir then Some a else Some y) (top fs) e)"
    using S(5) by (auto simp: f c)
  have ne: "x \<noteq> a" "y \<noteq> a" "a \<notin> set (taddrs sib)" "a \<notin> set (caddrs fs)" "x \<notin> set (taddrs sib)"
      "x \<notin> set (caddrs fs)" "pa \<notin> set (tprefs sib)" "pa \<notin> set (cprefs fs)" "distinct (caddrs fs)"
      "set (taddrs sib) \<inter> set (caddrs fs) = {}" "distinct (taddrs sib)"
    using S(8,10,11) by (auto simp: s f c own_prefs_def)
  have "kept_ctx h ?hm fs" using ne by (intro kept_old) auto
  then have ctx: "rep_ctx ?hm (maxbits T) fs (Some x)" using ctx0(2) by (rule rep_ctx_kept [rotated])
  obtain pn where pn: "relink ?hm ?T (top fs) x (Some y) =
        Some (if fs = [] then ?T\<lparr>head := Some y\<rparr> else ?T, ?hm\<lparr>pnodes := pn\<rparr>)"
      "rep_ctx (?hm\<lparr>pnodes := pn\<rparr>) (maxbits T) fs (Some y)" "\<And>x. x \<notin> set (caddrs fs) \<Longrightarrow> pn x = pnodes ?hm x"
    by (rule relink_spec [OF ctx ne(6) ne(9)]) (rule that)
  let ?y = "node_of yb ypf (troot yl) (troot yr) (top fs) yd"
  let ?pn = "pn(y \<mapsto> ?y, x := None)"
  let ?h = "old_store h pa p ?pn" and ?T' = "if fs = [] then ?T\<lparr>head := Some y\<rparr> else ?T"
  let ?T'' = "?T'\<lparr>num_active_node := num_active_node ?T' - 1\<rparr>"
  have old: "pn z = pnodes h z" if "z \<in> set (taddrs sib)" for z
    using pn(3) [of z] that ne by (auto simp: disjoint_iff)
  have yx: "y \<noteq> x" and py: "pn y = Some (node_of yb ypf (troot yl) (troot yr) (Some x) yd)" and px: "pn x = Some ?x"
    using ne ctx0(1) old [of y] pn(3) [of x] by (auto simp: c)
  have run: "patricia_remove h T a = Some (?T'', ?h)"
    using S(1) ctx0(3) ne(1,2) Deref_Prefix_spec [OF p] pn(1) py px yx
    by (cases dir; cases "fs = []") (simp_all add: patricia_remove_def s f c upd_node_def put_node_def free_node_def)
  have r: "rep ?h (maxbits T) (top fs) sib" "rep_ctx ?h (maxbits T) fs (troot sib)"
  proof -
    have "same_nodes (set (caddrs fs)) (?hm\<lparr>pnodes := pn\<rparr>) ?h" "same_prefixes (set (cprefs fs)) (?hm\<lparr>pnodes := pn\<rparr>) ?h"
      using ne by (auto simp: same_nodes_def same_prefixes_def c)
    with pn(2) show "rep_ctx ?h (maxbits T) fs (troot sib)" by (auto simp: c intro: rep_ctx_frame)
    show "rep ?h (maxbits T) (top fs) sib"
      by (rule moved_up [OF c ctx0(1) ne(11) ne(7)]) (use old ne yx in \<open>auto simp: c\<close>)
  qed
  have "wf_trie sib" "branch_ok b' (\<not> dir) sib" using wf(2) by (auto simp: f split: if_splits)
  then have w: "wf_trie (plug fs sib)"
    by (intro wf_shrink [OF wf(1)]) (auto simp: f c branch_ok_def less_imp_le)
  have dist: "distinct (tprefs sib)"
    using at' unfolding trie_at_plug f fill.simps by (auto split: if_splits)
  have hd: "head ?T'' = (if fs = [] then troot sib else head T)" by (simp add: c)
  have "removed h T (plug fs (fill f s)) pa p (k, a, d) ?T'' ?h"
    by (rule remove_finish [OF at' refl w r hd, where n = 2])
      (use dist ne ents_addr [of k a d sib] in \<open>auto simp: s f own_prefs_def own_ents_def\<close>)
  with run show ?thesis by auto
qed

lemma remove_at:
  assumes at: "trie_at h T t" "(k, a, d) \<in> ents t"
  shows "\<exists>T' h' pa p. patricia_remove h T a = Some (T', h') \<and> pa \<in> set (tprefs t) \<and>
    pprefixes h pa = Some p \<and> key_of p = k \<and> removed h T t pa p (k, a, d) T' h'"
proof -
  obtain fs b pa lt rt where t: "t = plug fs (PNd a b (Some (pa, k)) d lt rt)"
    using ents_position [OF at(2)] by blast
  let ?s = "PNd a b (Some (pa, k)) d lt rt"
  note S = entry_store [OF at(1) [unfolded t] refl]
  have "prefix_ok h (maxbits T) pa k" using at(1) by (auto simp: t trie_at_plug pkey_ok_def)
  then obtain p where p: "pprefixes h pa = Some p" "key_of p = k" by (auto simp: prefix_ok_def)
  have "\<exists>T' h'. patricia_remove h T a = Some (T', h') \<and> removed h T t pa p (k, a, d) T' h'"
  proof (cases "lt = PLf \<and> rt = PLf")
    case leaf: True
    note at0 = at(1) [unfolded t, simplified leaf [THEN conjunct1] leaf [THEN conjunct2]]
    show ?thesis
    proof (cases fs)
      case Nil
      with remove_last [OF _ refl p(1)] at0 leaf show ?thesis by (simp add: t)
    next
      case (Cons f fs')
      obtain dir x b' pf e sib where f: "f = Fr dir x b' pf e sib" by (cases f)
      show ?thesis
      proof (cases pf)
        case None
        with f remove_leaf_glue_parent [OF at0 [unfolded Cons] refl _ p(1)] leaf show ?thesis
          by (simp add: t Cons del: plug.simps)
      next
        case (Some q)
        with f remove_leaf_kept_parent [OF at0 [unfolded Cons] refl _ p(1)] leaf show ?thesis
          by (cases q) (simp add: t Cons del: plug.simps)
      qed
    qed
  next
    case False
    then consider "lt \<noteq> PLf" "rt \<noteq> PLf" | c where "c \<noteq> PLf" "lt = c \<and> rt = PLf \<or> lt = PLf \<and> rt = c" by auto
    then show ?thesis
    proof cases
      case 1
      with remove_both [OF at(1) [unfolded t] refl _ _ p(1)] show ?thesis by (simp add: t)
    next
      case 2
      then obtain y yb ypf yd yl yr where "c = PNd y yb ypf yd yl yr" by (cases c) auto
      with remove_one_child [OF at(1) [unfolded t] refl _ 2(2) p(1)] show ?thesis by (simp add: t)
    qed
  qed
  with p show ?thesis by (auto simp: t set_tprefs_plug own_prefs_def)
qed

end
