(* ===== verification/Patricia_Spec.thy ===== *)
theory Patricia_Spec
  imports Patricia_Remove
begin

text \<open>
  The trie as a longest-prefix-match table. The locale \<open>lpm_table\<close> is the interface the
  forwarding code relies on: a state that holds a set of entries (key, node, data), and five
  operations. It is interpreted on the operations of \<^verbatim>\<open>patricia.c\<close>, whose laws are the
  correctness lemmas of the preceding theories.
\<close>

section \<open>The interface\<close>

type_synonym lpm_entries = "(bool list \<times> addr \<times> ptr) set"

locale lpm_table =
  fixes holds :: "'s \<Rightarrow> lpm_entries \<Rightarrow> bool"
    and fits :: "'s \<Rightarrow> prefix_t \<Rightarrow> bool"
    and room :: "'s \<Rightarrow> bool"
    and exact :: "'s \<Rightarrow> prefix_t \<Rightarrow> ptr option"
    and best :: "'s \<Rightarrow> prefix_t \<Rightarrow> ptr option"
    and enter :: "'s \<Rightarrow> prefix_t \<Rightarrow> (addr \<times> 's) option"
    and set_data :: "'s \<Rightarrow> addr \<Rightarrow> ptr \<Rightarrow> 's option"
    and remove :: "'s \<Rightarrow> addr \<Rightarrow> 's option"
  assumes key_unique: "holds s E \<Longrightarrow> (k, a, d) \<in> E \<Longrightarrow> (k, a', d') \<in> E \<Longrightarrow> a = a' \<and> d = d'"
    and node_unique: "holds s E \<Longrightarrow> (k, a, d) \<in> E \<Longrightarrow> (k', a, d') \<in> E \<Longrightarrow> k = k' \<and> d = d'"
    and exact_law: "holds s E \<Longrightarrow> fits s p \<Longrightarrow>
      \<exists>r. exact s p = Some r \<and> (\<forall>a. r = Some a \<longleftrightarrow> (\<exists>d. (key_of p, a, d) \<in> E))"
    and best_law: "holds s E \<Longrightarrow> fits s p \<Longrightarrow>
      \<exists>r. best s p = Some r \<and> (\<forall>a. r = Some a \<longleftrightarrow> (\<exists>k d. longest_match E (bitlen p) (addr_bits (add p)) k a d))"
    and enter_law: "holds s E \<Longrightarrow> fits s p \<Longrightarrow> 0 < ref_count p \<Longrightarrow> room s \<Longrightarrow>
      \<exists>a s'. enter s p = Some (a, s') \<and> (\<forall>q. fits s' q = fits s q) \<and>
        ((\<exists>d. (key_of p, a, d) \<in> E) \<and> holds s' E \<or>
         key_of p \<notin> fst ` E \<and> holds s' (insert (key_of p, a, None) E))"
    and set_data_law: "holds s E \<Longrightarrow> (k, a, d) \<in> E \<Longrightarrow>
      \<exists>s'. set_data s a d' = Some s' \<and> (\<forall>q. fits s' q = fits s q) \<and> holds s' (insert (k, a, d') (E - {(k, a, d)}))"
    and remove_law: "holds s E \<Longrightarrow> (k, a, d) \<in> E \<Longrightarrow>
      \<exists>s'. remove s a = Some s' \<and> (\<forall>q. fits s' q = fits s q) \<and> holds s' (E - {(k, a, d)})"
begin

text \<open>Entering a new prefix with data binds the key and touches no other entry.\<close>

lemma enter_data:
  assumes "holds s E" "fits s p" "0 < ref_count p" "room s" "key_of p \<notin> fst ` E"
  shows "\<exists>a s1 s2. enter s p = Some (a, s1) \<and> set_data s1 a d = Some s2 \<and> (\<forall>q. fits s2 q = fits s q) \<and>
    holds s1 (insert (key_of p, a, None) E) \<and> holds s2 (insert (key_of p, a, d) E)"
proof -
  obtain a s1 where e: "enter s p = Some (a, s1)" "\<forall>q. fits s1 q = fits s q"
      "holds s1 (insert (key_of p, a, None) E)"
    using enter_law [OF assms(1-4)] assms(5) by (metis fst_conv image_eqI)
  have "insert (key_of p, a, d) (insert (key_of p, a, None) E - {(key_of p, a, None)}) = insert (key_of p, a, d) E"
    using assms(5) by force
  then show ?thesis
    using set_data_law [OF e(3), of "key_of p" a None d] e by auto
qed

lemma exact_none: "holds s E \<Longrightarrow> fits s p \<Longrightarrow> exact s p = Some None \<longleftrightarrow> key_of p \<notin> fst ` E"
  using exact_law [of s E p] by (metis (no_types, lifting) fst_conv image_iff not_None_eq option.inject surj_pair)

lemma exact_some:
  "holds s E \<Longrightarrow> fits s p \<Longrightarrow> (key_of p, a, d) \<in> E \<Longrightarrow> exact s p = Some (Some a)"
  using exact_law [of s E p] by force

lemma exact_gone:
  assumes "holds s E" "(key_of p, a, d) \<in> E" "fits s p"
  shows "\<exists>s'. remove s a = Some s' \<and> exact s' p = Some None"
proof -
  obtain s' where s': "remove s a = Some s'" "\<forall>q. fits s' q = fits s q" "holds s' (E - {(key_of p, a, d)})"
    using remove_law [OF assms(1,2)] by blast
  have "key_of p \<notin> fst ` (E - {(key_of p, a, d)})"
    using key_unique [OF assms(1,2)] by force
  with s' assms(3) show ?thesis using exact_none by auto
qed

end

section \<open>The trie provides it\<close>

type_synonym pstate = "pheap \<times> patricia_tree_t"

definition pt_holds :: "pstate \<Rightarrow> lpm_entries \<Rightarrow> bool" where
  "pt_holds s E \<longleftrightarrow> (\<exists>U. trie_rep (fst s) (snd s) E U)"

definition pt_fits :: "pstate \<Rightarrow> prefix_t \<Rightarrow> bool" where
  "pt_fits s p \<longleftrightarrow> prefix_fits (maxbits (snd s)) p"

definition pt_room :: "pstate \<Rightarrow> bool" where
  "pt_room s \<longleftrightarrow> 3 \<le> mem_left (fst s)"

text \<open>A prefix is entered by allocating it, filling it and looking it up.\<close>

definition pt_enter :: "pstate \<Rightarrow> prefix_t \<Rightarrow> (addr \<times> addr \<times> pstate) option" where
  "pt_enter s p = do {
     (pfx, h) \<leftarrow> kmalloc (fst s);
     (a, T, h) \<leftarrow> patricia_lookup (put_prefix h pfx p) (snd s) pfx;
     Some (pfx, a, (h, T)) }"

definition pt_set_data :: "pstate \<Rightarrow> addr \<Rightarrow> ptr \<Rightarrow> pstate option" where
  "pt_set_data s a d = do { h \<leftarrow> upd_node (fst s) a (\<lambda>m. m\<lparr>data := d\<rparr>); Some (h, snd s) }"

definition pt_remove :: "pstate \<Rightarrow> addr \<Rightarrow> pstate option" where
  "pt_remove s a = do { (T, h) \<leftarrow> patricia_remove (fst s) (snd s) a; Some (h, T) }"

lemma new_patricia_holds:
  "New_Patricia h mb = Some (T, h') \<Longrightarrow> mb \<le> PATRICIA_MAXBITS \<Longrightarrow> trie_rep h'' T {} {} \<and> maxbits T = mb \<and> head T = None"
  by (auto simp: trie_rep_def trie_at_def New_Patricia_def bind_eq_Some_conv intro!: exI [of _ PLf])

lemma trie_at_alloc:
  assumes "trie_at h T t" "kmalloc h = Some (pfx, h')"
  shows "trie_at (put_prefix h' pfx p) T t" "pfx \<notin> set (tprefs t)" "pfx < brk h'"
    "mem_left h = Suc (mem_left h')"
proof -
  have pfx: "pfx = brk h" "h' = h\<lparr>brk := Suc (brk h), mem_left := mem_left h - 1\<rparr>" "0 < mem_left h"
    using assms(2) by (auto simp: kmalloc_def split: if_splits)
  have low: "\<forall>a \<in> set (taddrs t) \<union> set (tprefs t). a < brk h" using assms(1) by (simp add: trie_at_def)
  then show nin: "pfx \<notin> set (tprefs t)" using pfx(1) by blast
  have "kept h (put_prefix h' pfx p) t"
    using nin by (auto simp: kept_def same_nodes_def same_prefixes_def put_prefix_def pfx(2))
  then have "rep (put_prefix h' pfx p) (maxbits T) None t"
    using assms(1) by (auto simp: trie_at_def intro: rep_kept)
  moreover have "\<forall>a \<in> set (taddrs t) \<union> set (tprefs t). a < brk (put_prefix h' pfx p)"
    using low by (auto simp: put_prefix_def pfx(2) less_SucI)
  ultimately show "trie_at (put_prefix h' pfx p) T t" using assms(1) unfolding trie_at_def by blast
  show "pfx < brk h'" "mem_left h = Suc (mem_left h')" using pfx by auto
qed

lemma pt_enter_law:
  assumes "trie_at h T t" "prefix_fits (maxbits T) p" "0 < ref_count p" "3 \<le> mem_left h"
  shows "\<exists>pfx a h' T' t'. pt_enter (h, T) p = Some (pfx, a, (h', T')) \<and> trie_at h' T' t' \<and> maxbits T' = maxbits T \<and>
    pprefixes h' pfx \<noteq> None \<and>
    ((\<exists>d. (key_of p, a, d) \<in> ents t) \<and> t' = t \<and> T' = T \<and> pfx \<notin> set (tprefs t) \<or>
     key_of p \<notin> keys t \<and> ents t' = insert (key_of p, a, None) (ents t)) \<and>
    brk h < brk h' \<and> mem_left h \<le> mem_left h' + 3"
proof -
  obtain pfx h1 where k: "kmalloc h = Some (pfx, h1)" using assms(4) by (auto simp: kmalloc_def)
  note A = trie_at_alloc(1) [OF assms(1) k, of p] trie_at_alloc(2-4) [OF assms(1) k]
  have b: "brk h < brk h1" using k by (auto simp: kmalloc_def split: if_splits)
  let ?h = "put_prefix h1 pfx p"
  have sel: "brk ?h = brk h1" "mem_left ?h = mem_left h1" "pprefixes ?h pfx = Some p"
    by (simp_all add: put_prefix_def)
  have pre: "ins_pre ?h T t pfx p"
    using A assms sel by (simp add: ins_pre_def)
  obtain a T' h' where r: "patricia_lookup ?h T pfx = Some (a, T', h')"
      "(\<exists>d. (key_of p, a, d) \<in> ents t) \<and> T' = T \<and> h' = ?h \<or> inserted ?h T t pfx p a T' h'"
    using lookup_at [OF pre] by blast
  have enter: "pt_enter (h, T) p = Some (pfx, a, (h', T'))" using k r(1) by (simp add: pt_enter_def)
  from r(2) show ?thesis
  proof
    assume "(\<exists>d. (key_of p, a, d) \<in> ents t) \<and> T' = T \<and> h' = ?h"
    with enter A b sel show ?thesis
      by (intro exI [of _ pfx] exI [of _ a] exI [of _ h'] exI [of _ T'] exI [of _ t]) auto
  next
    assume "inserted ?h T t pfx p a T' h'"
    then obtain t' pn n where i: "trie_at h' T' t'" "h' = new_store ?h pfx p pn n" "n \<le> 2"
        "ents t' = insert (key_of p, a, None) (ents t)" "key_of p \<notin> keys t" "maxbits T' = maxbits T"
      by (auto simp: inserted_def)
    with enter A b sel show ?thesis
      by (intro exI [of _ pfx] exI [of _ a] exI [of _ h'] exI [of _ T'] exI [of _ t'])
        (auto simp: new_store_def)
  qed
qed

lemma pt_enter_new:
  assumes "trie_at h T t" "prefix_fits (maxbits T) p" "0 < ref_count p" "3 \<le> mem_left h" "key_of p \<notin> keys t"
  obtains pfx a h' T' t' where "pt_enter (h, T) p = Some (pfx, a, (h', T'))" "trie_at h' T' t'" "maxbits T' = maxbits T"
    "ents t' = insert (key_of p, a, None) (ents t)" "brk h < brk h'" "mem_left h \<le> mem_left h' + 3"
proof -
  obtain pfx a h' T' t' where r: "pt_enter (h, T) p = Some (pfx, a, (h', T'))" "trie_at h' T' t'" "maxbits T' = maxbits T"
      "(\<exists>d. (key_of p, a, d) \<in> ents t) \<and> t' = t \<and> T' = T \<and> pfx \<notin> set (tprefs t) \<or>
        key_of p \<notin> keys t \<and> ents t' = insert (key_of p, a, None) (ents t)"
      "brk h < brk h'" "mem_left h \<le> mem_left h' + 3"
    using pt_enter_law [OF assms(1-4)] by blast
  moreover have "\<not> (\<exists>d. (key_of p, a, d) \<in> ents t)" using assms(5) ents_key by blast
  ultimately show ?thesis using that by blast
qed

lemma pt_enter_old:
  assumes "trie_at h T t" "prefix_fits (maxbits T) p" "0 < ref_count p" "3 \<le> mem_left h" "key_of p \<in> keys t"
  obtains pfx a h' d where "pt_enter (h, T) p = Some (pfx, a, (h', T))" "trie_at h' T t"
    "(key_of p, a, d) \<in> ents t" "pfx \<notin> set (tprefs t)" "pprefixes h' pfx \<noteq> None"
    "brk h < brk h'" "mem_left h \<le> mem_left h' + 3"
  using pt_enter_law [OF assms(1-4)] assms(5) that by blast

lemma trie_at_keys: "trie_at h T t \<Longrightarrow> keys t = fst ` ents t"
  by (simp add: keys_def)

interpretation pt: lpm_table pt_holds pt_fits pt_room
  "\<lambda>s. patricia_search_exact (fst s) (snd s)" "\<lambda>s. patricia_search_best (fst s) (snd s)"
  "\<lambda>s p. map_option snd (pt_enter s p)" pt_set_data pt_remove
proof unfold_locales
  fix s E k a d a' d' assume "pt_holds s E" "(k, a, d) \<in> E" "(k, a', d') \<in> E"
  then show "a = a' \<and> d = d'"
    using ents_key_unique by (auto simp: pt_holds_def trie_rep_def trie_at_def)
next
  fix s E k a d k' d' assume "pt_holds s E" "(k, a, d) \<in> E" "(k', a, d') \<in> E"
  then show "k = k' \<and> d = d'"
    using ents_addr_unique by (fastforce simp: pt_holds_def trie_rep_def)
next
  fix s E p assume "pt_holds s E" "pt_fits s p"
  then show "\<exists>r. patricia_search_exact (fst s) (snd s) p = Some r \<and> (\<forall>a. r = Some a \<longleftrightarrow> (\<exists>d. (key_of p, a, d) \<in> E))"
    using search_exact_at by (auto simp: pt_holds_def pt_fits_def trie_rep_def)
next
  fix s E p assume "pt_holds s E" "pt_fits s p"
  then show "\<exists>r. patricia_search_best (fst s) (snd s) p = Some r \<and>
      (\<forall>a. r = Some a \<longleftrightarrow> (\<exists>k d. longest_match E (bitlen p) (addr_bits (add p)) k a d))"
    using search_best_at by (auto simp: pt_holds_def pt_fits_def trie_rep_def)
next
  fix s E p assume "pt_holds s E" "pt_fits s p" "0 < ref_count p" "pt_room s"
  then obtain t where t: "trie_at (fst s) (snd s) t" "ents t = E" "prefix_fits (maxbits (snd s)) p" "0 < ref_count p"
      "3 \<le> mem_left (fst s)"
    by (auto simp: pt_holds_def pt_fits_def pt_room_def trie_rep_def)
  from pt_enter_law [OF t(1,3-5)] obtain pfx a h' T' t' where
      "pt_enter s p = Some (pfx, a, (h', T'))" "trie_at h' T' t'" "maxbits T' = maxbits (snd s)"
      "(\<exists>d. (key_of p, a, d) \<in> ents t) \<and> t' = t \<or> key_of p \<notin> keys t \<and> ents t' = insert (key_of p, a, None) (ents t)"
    unfolding prod.collapse by blast
  then show "\<exists>a s'. map_option snd (pt_enter s p) = Some (a, s') \<and> (\<forall>q. pt_fits s' q = pt_fits s q) \<and>
      ((\<exists>d. (key_of p, a, d) \<in> E) \<and> pt_holds s' E \<or>
       key_of p \<notin> fst ` E \<and> pt_holds s' (insert (key_of p, a, None) E))"
    using t(2) by (intro exI [of _ a] exI [of _ "(h', T')"]) (auto simp: pt_fits_def pt_holds_def trie_rep_def keys_def)
next
  fix s E k a d d' assume "pt_holds s E" "(k, a, d) \<in> E"
  then obtain t where t: "trie_at (fst s) (snd s) t" "ents t = E" "(k, a, d) \<in> ents t"
    by (auto simp: pt_holds_def trie_rep_def)
  from set_data_at [OF t(1,3), of d'] t(2)
  show "\<exists>s'. pt_set_data s a d' = Some s' \<and> (\<forall>q. pt_fits s' q = pt_fits s q) \<and>
      pt_holds s' (insert (k, a, d') (E - {(k, a, d)}))"
    by (auto simp: pt_set_data_def pt_fits_def pt_holds_def trie_rep_def)
next
  fix s E k a d assume "pt_holds s E" "(k, a, d) \<in> E"
  then obtain t where t: "trie_at (fst s) (snd s) t" "ents t = E" "(k, a, d) \<in> ents t"
    by (auto simp: pt_holds_def trie_rep_def)
  from remove_at [OF t(1,3)] t(2)
  show "\<exists>s'. pt_remove s a = Some s' \<and> (\<forall>q. pt_fits s' q = pt_fits s q) \<and> pt_holds s' (E - {(k, a, d)})"
    by (auto simp: pt_remove_def pt_fits_def pt_holds_def trie_rep_def removed_def)
qed

section \<open>The operations of \<^verbatim>\<open>patricia.c\<close>\<close>

text \<open>A store with one route, 10.0.0.0/8, whose data is the object at address 7.\<close>

abbreviation demo_prefix :: prefix_t where "demo_prefix \<equiv> dst2prefix 10 8"

definition demo_store :: pheap where
  "demo_store = \<lparr>pnodes = [1 \<mapsto> \<lparr>nbit = 8, prefix = Some 0, l_ptr = None, r_ptr = None, parent = None, data = Some 7\<rparr>],
     pprefixes = [0 \<mapsto> demo_prefix\<lparr>ref_count := 2\<rparr>, 2 \<mapsto> dst2prefix 0x010A 16], brk = 8, mem_left = 40\<rparr>"

definition demo_tree :: patricia_tree_t where
  "demo_tree = \<lparr>head = Some 1, maxbits = 32, num_active_node = 1\<rparr>"

definition demo_key :: "bool list" where
  "demo_key = [False, False, False, False, True, False, True, False]"

lemma demo_key_of: "key_of demo_prefix = demo_key"
  by code_simp

lemma demo_fits: "prefix_fits (maxbits demo_tree) demo_prefix"
  "prefix_fits (maxbits demo_tree) (dst2prefix 0x0302010A 32)"
  by (simp_all add: prefix_fits_def demo_tree_def dst2prefix_def be32_bytes_def)

lemma demo_holds: "trie_rep demo_store demo_tree {(demo_key, 1, Some 7)} {0}"
proof -
  let ?t = "PNd 1 8 (Some (0, demo_key)) (Some 7) PLf PLf"
  have "key_of (demo_prefix\<lparr>ref_count := 2\<rparr>) = demo_key" using demo_key_of by (simp add: key_of_def)
  then have "trie_at demo_store demo_tree ?t"
    by (simp add: trie_at_def demo_tree_def demo_store_def pkey_ok_def prefix_ok_def own_prefs_def demo_key_def
        dst2prefix_def be32_bytes_def)
  then show ?thesis
    unfolding trie_rep_def by (intro exI [of _ ?t]) (simp add: own_ents_def own_prefs_def)
qed

text \<open>Property C2: in every store that holds a trie, \<^verbatim>\<open>patricia_search_best\<close> returns, without a
  bad dereference or a stack overflow, the node of the longest stored prefix of the query
  (longest-prefix match), and null exactly when no stored prefix matches.\<close>

theorem search_best_longest_prefix:
  assumes "trie_rep h T E U" "prefix_fits (maxbits T) p"
  shows "\<exists>res. patricia_search_best h T p = Some res \<and>
    (\<forall>a. res = Some a \<longleftrightarrow> (\<exists>k d. longest_match E (bitlen p) (addr_bits (add p)) k a d))"
  using pt.best_law [of "(h, T)" E p] assms by (auto simp: pt_holds_def pt_fits_def)

theorem search_best_longest_prefix_witness:
  "\<exists>res. patricia_search_best demo_store demo_tree (dst2prefix 0x0302010A 32) = Some res \<and>
    (\<forall>a. res = Some a \<longleftrightarrow> (\<exists>k d. longest_match {(demo_key, 1, Some 7)} 32 (addr_bits (be32_bytes 0x0302010A)) k a d))"
  using search_best_longest_prefix [OF demo_holds demo_fits(2)]
  by (simp add: dst2prefix_def)

text \<open>Property C29: \<^verbatim>\<open>patricia_search_exact\<close> returns, and finds the node of exactly the given
  prefix: the result is a node iff the trie has an entry with that key, and is that node.\<close>

theorem search_exact_finds_key:
  assumes "trie_rep h T E U" "prefix_fits (maxbits T) p"
  shows "\<exists>res. patricia_search_exact h T p = Some res \<and> (\<forall>a. res = Some a \<longleftrightarrow> (\<exists>d. (key_of p, a, d) \<in> E))"
  using pt.exact_law [of "(h, T)" E p] assms by (auto simp: pt_holds_def pt_fits_def)

theorem search_exact_finds_key_witness:
  "patricia_search_exact demo_store demo_tree demo_prefix = Some (Some 1)"
proof -
  obtain res where res: "patricia_search_exact demo_store demo_tree demo_prefix = Some res"
      "\<forall>a. res = Some a \<longleftrightarrow> (\<exists>d. (key_of demo_prefix, a, d) \<in> {(demo_key, 1, Some (7 :: addr))})"
    using search_exact_finds_key [OF demo_holds demo_fits(1)] by (elim exE conjE) (rule that)
  have "\<exists>d. (key_of demo_prefix, 1 :: addr, d) \<in> {(demo_key, 1, Some (7 :: addr))}" by (simp only: demo_key_of) simp
  then have "res = Some 1" by (rule res(2) [rule_format, THEN iffD2])
  with res show ?thesis by simp
qed

text \<open>Property C3: \<^verbatim>\<open>patricia_lookup\<close> of a prefix object that is not in the trie returns, keeps
  the invariant of the trie (and with it the node count), and either returns the node that
  already holds the prefix and changes nothing, or adds exactly the entry of the new prefix,
  with no data, and takes one reference to the prefix object.\<close>

theorem lookup_inserts:
  assumes "trie_rep h T E U" "pprefixes h pfx = Some p" "prefix_fits (maxbits T) p" "0 < ref_count p"
    "pfx \<notin> U" "pfx < brk h" "2 \<le> mem_left h"
  shows "\<exists>a T' h'. patricia_lookup h T pfx = Some (a, T', h') \<and>
    ((\<exists>d. (key_of p, a, d) \<in> E) \<and> T' = T \<and> h' = h \<or>
     key_of p \<notin> fst ` E \<and> trie_rep h' T' (insert (key_of p, a, None) E) (insert pfx U) \<and>
     pprefixes h' = (pprefixes h)(pfx \<mapsto> p\<lparr>ref_count := ref_count p + 1\<rparr>))"
proof -
  obtain t where t: "trie_at h T t" "ents t = E" "set (tprefs t) = U" using assms(1) by (auto simp: trie_rep_def)
  then have "ins_pre h T t pfx p" using assms by (simp add: ins_pre_def)
  from lookup_at [OF this] obtain a T' h' where r: "patricia_lookup h T pfx = Some (a, T', h')"
      "(\<exists>d. (key_of p, a, d) \<in> ents t) \<and> T' = T \<and> h' = h \<or> inserted h T t pfx p a T' h'" by blast
  from r(2) show ?thesis
    using r(1) t by (auto simp: inserted_def trie_rep_def keys_def)
qed

theorem lookup_inserts_witness:
  "\<exists>a T' h'. patricia_lookup demo_store demo_tree 2 = Some (a, T', h') \<and>
    ((\<exists>d. (key_of (dst2prefix 0x010A 16), a, d) \<in> {(demo_key, 1, Some 7)}) \<and> T' = demo_tree \<and> h' = demo_store \<or>
     key_of (dst2prefix 0x010A 16) \<notin> fst ` {(demo_key, 1, Some 7)} \<and>
     trie_rep h' T' (insert (key_of (dst2prefix 0x010A 16), a, None) {(demo_key, 1, Some 7)}) (insert 2 {0}) \<and>
     pprefixes h' = (pprefixes demo_store)(2 \<mapsto> (dst2prefix 0x010A 16)\<lparr>ref_count := 2\<rparr>))"
proof -
  have "pprefixes demo_store 2 = Some (dst2prefix 0x010A 16)" "2 < brk demo_store" "2 \<le> mem_left demo_store"
    by (simp_all add: demo_store_def)
  moreover have "prefix_fits (maxbits demo_tree) (dst2prefix 0x010A 16)" "ref_count (dst2prefix 0x010A 16) = 1"
    by (simp_all add: demo_tree_def prefix_fits_def dst2prefix_def be32_bytes_def)
  ultimately show ?thesis
    using lookup_inserts [OF demo_holds, of 2 "dst2prefix 0x010A 16"] by simp
qed

text \<open>Property C4: \<^verbatim>\<open>patricia_remove\<close> of the node of an entry returns, keeps the invariant of the
  trie, takes out exactly that entry, and drops one reference of its prefix object (freeing
  it with the last one).\<close>

theorem remove_deletes:
  assumes "trie_rep h T E U" "(k, a, d) \<in> E"
  shows "\<exists>T' h' pa p. patricia_remove h T a = Some (T', h') \<and> pa \<in> U \<and> pprefixes h pa = Some p \<and> key_of p = k \<and>
    trie_rep h' T' (E - {(k, a, d)}) (U - {pa}) \<and>
    pprefixes h' = (pprefixes h)(pa := if ref_count p \<le> 1 then None else Some (p\<lparr>ref_count := ref_count p - 1\<rparr>))"
proof -
  obtain t where t: "trie_at h T t" "ents t = E" "set (tprefs t) = U" using assms(1) by (auto simp: trie_rep_def)
  from remove_at [OF t(1)] assms(2) t(2) obtain T' h' pa p where r: "patricia_remove h T a = Some (T', h')"
      "pa \<in> U" "pprefixes h pa = Some p" "key_of p = k" "removed h T t pa p (k, a, d) T' h'"
    using t(3) by blast
  then show ?thesis using t unfolding removed_def trie_rep_def by (metis old_store_simps(2))
qed

theorem remove_deletes_witness:
  "\<exists>T' h' pa p. patricia_remove demo_store demo_tree 1 = Some (T', h') \<and> pa \<in> {0::addr} \<and> pprefixes demo_store pa = Some p \<and>
    key_of p = demo_key \<and> trie_rep h' T' ({(demo_key, 1, Some 7)} - {(demo_key, 1, Some 7)}) ({0} - {pa}) \<and>
    pprefixes h' = (pprefixes demo_store)(pa := if ref_count p \<le> 1 then None else Some (p\<lparr>ref_count := ref_count p - 1\<rparr>))"
  by (rule remove_deletes [OF demo_holds]) simp

end
