(* ===== verification/Sfmc.thy ===== *)
theory Sfmc
  imports Bucket_Table Patricia_Spec
begin

text \<open>
  \<^verbatim>\<open>device-drivers-4.2.0/ixgbe/sfmc.c\<close>: the software implementation of madcap inside a NIC
  driver. Every device has a \<^verbatim>\<open>struct sfmc\<close>: the devices that acquired it, the hash table of
  locator entries, the IPv4 forwarding table (a list of \<^verbatim>\<open>sfmc_fib\<close> objects indexed by a
  patricia trie) and the configured objects.

  FIB objects, trie nodes and prefixes are allocated from one store (\<open>sfmc_mem\<close>); FIB objects
  are in \<open>fibs\<close>. A result \<open>None\<close> is a kernel crash: a null or dangling dereference, or a read
  past the packet. The hash function, the neighbour table and the devices' addresses belong
  to the kernel and are parameters. RCU and the locks are not modelled: each function is one
  step. The time stamp \<^verbatim>\<open>st->updated\<close> is written and never read, and left out.
\<close>

section \<open>State\<close>

record sfmc_table =
  st_oe :: madcap_obj_entry
  st_fib :: ptr

record sfmc_fib =
  sf_pn :: ptr
  sf_prefix :: ptr
  sf_network :: u32
  sf_len :: u8
  sf_scope :: u8
  sf_gateway :: u32
  sf_mac :: "u8 list"
  sf_nud :: u8

abbreviation (input) SFMC_HASH_SIZE :: nat where "SFMC_HASH_SIZE \<equiv> 256"
abbreviation (input) SFMC_VDEV_MAX :: nat where "SFMC_VDEV_MAX \<equiv> 16"
abbreviation (input) RT_SCOPE_LINK :: u8 where "RT_SCOPE_LINK \<equiv> 253"
abbreviation (input) NUD_VALID :: u8 where "NUD_VALID \<equiv> 0xDE"

text \<open>\<open>table_mem\<close> is how many locator entries can still be allocated, \<open>sfmc_wq\<close> the FIB objects
  whose work is queued, \<open>arp_probes\<close> the addresses \<^verbatim>\<open>neigh_event_send\<close> was called for.\<close>

record sfmc =
  sfmc_id :: "u8 list"
  sfmc_vdev :: "ptr list"
  sfmc_buckets :: "sfmc_table list list"
  fib_list :: "addr list"
  fib_tree :: patricia_tree_t
  sfmc_ou :: madcap_obj_udp
  sfmc_oc :: madcap_obj_config
  sfmc_wq :: "addr list"
  fibs :: "addr \<rightharpoonup> sfmc_fib"
  sfmc_mem :: pheap
  table_mem :: nat
  arp_probes :: "u32 list"

text \<open>The private data of every device, and the module's notifier flag.\<close>

record sfmc_world =
  netdev_priv :: "addr \<Rightarrow> sfmc"
  netevent_registered :: bool

type_synonym hash64 = "u64 \<Rightarrow> 8 word"

abbreviation netdev_get_sfmc :: "sfmc_world \<Rightarrow> addr \<Rightarrow> sfmc" where
  "netdev_get_sfmc w d \<equiv> netdev_priv w d"

definition put_sfmc :: "sfmc_world \<Rightarrow> addr \<Rightarrow> sfmc \<Rightarrow> sfmc_world" where
  "put_sfmc w d s = w\<lparr>netdev_priv := (netdev_priv w)(d := s)\<rparr>"

section \<open>The locator table\<close>

definition sfmc_table_head :: "hash64 \<Rightarrow> u64 \<Rightarrow> nat" where
  "sfmc_table_head hash key = unat (hash key)"

abbreviation st_id :: "sfmc_table \<Rightarrow> u64" where
  "st_id st \<equiv> oe_id (st_oe st)"

definition sfmc_table_find :: "hash64 \<Rightarrow> sfmc \<Rightarrow> u64 \<Rightarrow> sfmc_table option" where
  "sfmc_table_find hash s i = bucket_find st_id i (sfmc_buckets s ! sfmc_table_head hash i)"

definition sfmc_table_add :: "hash64 \<Rightarrow> sfmc \<Rightarrow> madcap_obj_entry \<Rightarrow> sfmc option" where
  "sfmc_table_add hash s oe =
     (if table_mem s = 0 then None
      else let n = sfmc_table_head hash (oe_id oe) in
        Some (s\<lparr>sfmc_buckets := (sfmc_buckets s)[n := \<lparr>st_oe = oe, st_fib = None\<rparr> # sfmc_buckets s ! n],
                table_mem := table_mem s - 1\<rparr>))"

definition sfmc_table_delete :: "hash64 \<Rightarrow> sfmc \<Rightarrow> u64 \<Rightarrow> sfmc" where
  "sfmc_table_delete hash s i =
     (let n = sfmc_table_head hash i in
      s\<lparr>sfmc_buckets := (sfmc_buckets s)[n := bucket_del st_id i (sfmc_buckets s ! n)], table_mem := table_mem s + 1\<rparr>)"

text \<open>\<^verbatim>\<open>hlist_for_each_safe\<close> over every bucket, deleting the entry at hand.\<close>

fun destroy_bucket :: "sfmc_table list \<Rightarrow> nat \<Rightarrow> nat" where
  "destroy_bucket [] n = n"
| "destroy_bucket (st # rest) n = destroy_bucket rest (Suc n)"

definition sfmc_table_destroy :: "sfmc \<Rightarrow> sfmc" where
  "sfmc_table_destroy s = s\<lparr>sfmc_buckets := map (\<lambda>b. []) (sfmc_buckets s),
     table_mem := foldl (\<lambda>n b. destroy_bucket b n) (table_mem s) (sfmc_buckets s)\<rparr>"

section \<open>The forwarding table\<close>

abbreviation fib_prefix :: "u32 \<Rightarrow> u8 \<Rightarrow> prefix_t" where
  "fib_prefix network len \<equiv> dst2prefix network (ucast len)"

definition node_data :: "sfmc \<Rightarrow> ptr \<Rightarrow> ptr option" where
  "node_data s pn = (case pn of None \<Rightarrow> Some None
     | Some a \<Rightarrow> do { n \<leftarrow> pnodes (sfmc_mem s) a; Some (data n) })"

definition sfmc_fib_find_exact :: "sfmc \<Rightarrow> u32 \<Rightarrow> u8 \<Rightarrow> ptr option" where
  "sfmc_fib_find_exact s network len = do {
     pn \<leftarrow> patricia_search_exact (sfmc_mem s) (fib_tree s) (fib_prefix network len);
     node_data s pn }"

definition sfmc_fib_find_best :: "sfmc \<Rightarrow> u32 \<Rightarrow> u8 \<Rightarrow> ptr option" where
  "sfmc_fib_find_best s network len = do {
     pn \<leftarrow> patricia_search_best (sfmc_mem s) (fib_tree s) (fib_prefix network len);
     node_data s pn }"

definition sfmc_fib_create :: "sfmc \<Rightarrow> u32 \<Rightarrow> u8 \<Rightarrow> u32 \<Rightarrow> u8 \<Rightarrow> (addr \<times> sfmc) option" where
  "sfmc_fib_create s network len gateway scope = do {
     (a, h) \<leftarrow> kmalloc (sfmc_mem s);
     Some (a, s\<lparr>sfmc_mem := h, fibs := (fibs s)(a \<mapsto>
       \<lparr>sf_pn = None, sf_prefix = None, sf_network = network, sf_len = len, sf_scope = scope,
        sf_gateway = gateway, sf_mac = replicate 6 0, sf_nud = 0\<rparr>)\<rparr>) }"

text \<open>\<^verbatim>\<open>sfmc_fib_insert\<close>: an entry that exists already is returned and the prefix freed.\<close>

definition sfmc_fib_insert :: "sfmc \<Rightarrow> addr \<Rightarrow> (ptr \<times> sfmc) option" where
  "sfmc_fib_insert s sfa = do {
     sf \<leftarrow> fibs s sfa;
     (pfx, a, (h, T)) \<leftarrow> pt_enter (sfmc_mem s, fib_tree s) (fib_prefix (sf_network sf) (sf_len sf));
     n \<leftarrow> pnodes h a;
     (case data n of
        Some other \<Rightarrow> do {
          h \<leftarrow> free_prefix h pfx;
          Some (Some other, s\<lparr>sfmc_mem := h, fib_tree := T\<rparr>) }
      | None \<Rightarrow> do {
          (h, T) \<leftarrow> pt_set_data (h, T) a (Some sfa);
          Some (Some sfa, s\<lparr>sfmc_mem := h, fib_tree := T,
            fibs := (fibs s)(sfa \<mapsto> sf\<lparr>sf_pn := Some a, sf_prefix := Some pfx\<rparr>),
            fib_list := sfa # fib_list s\<rparr>) }) }"

text \<open>\<open>Some (None, s)\<close> is the null result of a failed allocation.\<close>

definition sfmc_fib_add :: "sfmc \<Rightarrow> u32 \<Rightarrow> u8 \<Rightarrow> u32 \<Rightarrow> u8 \<Rightarrow> (ptr \<times> sfmc) option" where
  "sfmc_fib_add s network len gateway scope =
     (case sfmc_fib_create s network len gateway scope of
        None \<Rightarrow> Some (None, s)
      | Some (sfa, s) \<Rightarrow> do {
          (tmp, s) \<leftarrow> sfmc_fib_insert s sfa;
          (case tmp of
             None \<Rightarrow> Some (None, s\<lparr>fibs := (fibs s)(sfa := None)\<rparr>)
           | Some _ \<Rightarrow> Some (Some sfa, s)) })"

definition sfmc_fib_delete :: "sfmc \<Rightarrow> addr \<Rightarrow> sfmc option" where
  "sfmc_fib_delete s sfa = do {
     sf \<leftarrow> fibs s sfa;
     pn \<leftarrow> sf_pn sf;
     (h, T) \<leftarrow> pt_remove (sfmc_mem s, fib_tree s) pn;
     Some (s\<lparr>sfmc_mem := h, fib_tree := T, fib_list := remove1 sfa (fib_list s),
       sfmc_buckets := map (map (\<lambda>st. if st_fib st = Some sfa then st\<lparr>st_fib := None\<rparr> else st)) (sfmc_buckets s),
       fibs := (fibs s)(sfa := None)\<rparr>) }"

definition sfmc_fib_del :: "sfmc \<Rightarrow> u32 \<Rightarrow> u8 \<Rightarrow> (int \<times> sfmc) option" where
  "sfmc_fib_del s network len = do {
     sf \<leftarrow> sfmc_fib_find_exact s network len;
     (case sf of
        None \<Rightarrow> Some (- ENOENT, s)
      | Some sfa \<Rightarrow> do { s \<leftarrow> sfmc_fib_delete s sfa; Some (0, s) }) }"

fun fib_destroy_loop :: "addr list \<Rightarrow> sfmc \<Rightarrow> sfmc option" where
  "fib_destroy_loop [] s = Some s"
| "fib_destroy_loop (sfa # rest) s = do { s \<leftarrow> sfmc_fib_delete s sfa; fib_destroy_loop rest s }"

definition sfmc_fib_destroy :: "sfmc \<Rightarrow> sfmc option" where
  "sfmc_fib_destroy s = fib_destroy_loop (fib_list s) s"

section \<open>The madcap operations\<close>

definition sfmc_acquire_dev :: "addr \<Rightarrow> addr \<Rightarrow> sfmc_world \<Rightarrow> int \<times> sfmc_world" where
  "sfmc_acquire_dev d vdev w =
     (let s = netdev_get_sfmc w d in
      case first_slot (Some vdev) (sfmc_vdev s) of
        Some _ \<Rightarrow> (- EEXIST, w)
      | None \<Rightarrow> (case first_slot None (sfmc_vdev s) of
          Some n \<Rightarrow> (0, put_sfmc w d (s\<lparr>sfmc_vdev := (sfmc_vdev s)[n := Some vdev]\<rparr>))
        | None \<Rightarrow> (- ENOMEM, w)))"

definition sfmc_release_dev :: "addr \<Rightarrow> addr \<Rightarrow> sfmc_world \<Rightarrow> int \<times> sfmc_world" where
  "sfmc_release_dev d vdev w =
     (let s = netdev_get_sfmc w d in
      case first_slot (Some vdev) (sfmc_vdev s) of
        Some n \<Rightarrow> (0, put_sfmc w d (s\<lparr>sfmc_vdev := (sfmc_vdev s)[n := None]\<rparr>))
      | None \<Rightarrow> (- ENOENT, w))"

text \<open>\<^verbatim>\<open>memcmp (oc, &sfmc->oc, sizeof (*oc) != 0)\<close>: the length compared is the truth value
  of the comparison, one byte.\<close>

definition sfmc_llt_cfg :: "addr \<Rightarrow> madcap_obj_config \<Rightarrow> sfmc_world \<Rightarrow> int \<times> sfmc_world" where
  "sfmc_llt_cfg d oc w =
     (let s = netdev_get_sfmc w d; n = (if sizeof_config \<noteq> 0 then 1 else 0) in
      if take n (enc_config oc) \<noteq> take n (enc_config (sfmc_oc s))
      then (0, put_sfmc w d ((sfmc_table_destroy s)\<lparr>sfmc_oc := oc\<rparr>))
      else (0, w))"

definition sfmc_llt_config_get :: "addr \<Rightarrow> sfmc_world \<Rightarrow> madcap_obj_config option" where
  "sfmc_llt_config_get d w = Some (sfmc_oc (netdev_get_sfmc w d))"

definition sfmc_llt_entry_add :: "hash64 \<Rightarrow> addr \<Rightarrow> madcap_obj_entry \<Rightarrow> sfmc_world \<Rightarrow> int \<times> sfmc_world" where
  "sfmc_llt_entry_add hash d oe w =
     (let s = netdev_get_sfmc w d in
      case sfmc_table_find hash s (oe_id oe) of
        Some _ \<Rightarrow> (- EEXIST, w)
      | None \<Rightarrow> (case sfmc_table_add hash s oe of
          None \<Rightarrow> (- ENOMEM, w)
        | Some s \<Rightarrow> (0, put_sfmc w d s)))"

definition sfmc_llt_entry_del :: "hash64 \<Rightarrow> addr \<Rightarrow> madcap_obj_entry \<Rightarrow> sfmc_world \<Rightarrow> int \<times> sfmc_world" where
  "sfmc_llt_entry_del hash d oe w =
     (let s = netdev_get_sfmc w d in
      case sfmc_table_find hash s (oe_id oe) of
        None \<Rightarrow> (- ENOENT, w)
      | Some _ \<Rightarrow> (0, put_sfmc w d (sfmc_table_delete hash s (oe_id oe))))"

definition sfmc_llt_entry_dump :: "addr \<Rightarrow> nat \<Rightarrow> sfmc_world \<Rightarrow> madcap_obj_entry option \<times> nat" where
  "sfmc_llt_entry_dump d args0 w =
     (case dump_buckets args0 (sfmc_buckets (netdev_get_sfmc w d)) 0 of
        (st, cnt) \<Rightarrow> (map_option st_oe st, cnt + 1))"

definition sfmc_udp_cfg :: "addr \<Rightarrow> madcap_obj_udp \<Rightarrow> sfmc_world \<Rightarrow> int \<times> sfmc_world" where
  "sfmc_udp_cfg d ou w = (0, put_sfmc w d ((netdev_get_sfmc w d)\<lparr>sfmc_ou := ou\<rparr>))"

definition sfmc_udp_config_get :: "addr \<Rightarrow> sfmc_world \<Rightarrow> madcap_obj_udp option" where
  "sfmc_udp_config_get d w = Some (sfmc_ou (netdev_get_sfmc w d))"

definition sfmc_madcap_ops :: "hash64 \<Rightarrow> sfmc_world madcap_ops" where
  "sfmc_madcap_ops hash = \<lparr>
     mco_acquire_dev = Some sfmc_acquire_dev,
     mco_release_dev = Some sfmc_release_dev,
     mco_llt_cfg = Some sfmc_llt_cfg,
     mco_llt_entry_add = Some (sfmc_llt_entry_add hash),
     mco_llt_entry_del = Some (sfmc_llt_entry_del hash),
     mco_udp_cfg = Some sfmc_udp_cfg,
     mco_llt_entry_dump = Some sfmc_llt_entry_dump,
     mco_llt_config_get = Some sfmc_llt_config_get,
     mco_udp_config_get = Some sfmc_udp_config_get\<rparr>"

end
