(* ===== verification/Sfmc_Table.thy ===== *)
theory Sfmc_Table
  imports Sfmc
begin

text \<open>
  The locator table of \<^verbatim>\<open>sfmc.c\<close> keeps the contract of a madcap driver: it is a map from
  identifiers to entries, listed in bucket order.
\<close>

definition sfmc_inv :: "hash64 \<Rightarrow> addr \<Rightarrow> sfmc_world \<Rightarrow> bool" where
  "sfmc_inv hash d w \<longleftrightarrow> buckets_ok st_id hash (sfmc_buckets (netdev_get_sfmc w d)) \<and>
     distinct (map st_id (concat (sfmc_buckets (netdev_get_sfmc w d))))"

definition sfmc_listing :: "addr \<Rightarrow> sfmc_world \<Rightarrow> madcap_obj_entry list" where
  "sfmc_listing d w = map st_oe (concat (sfmc_buckets (netdev_get_sfmc w d)))"

lemma put_sfmc_get [simp]: "netdev_priv (put_sfmc w d s) e = (if e = d then s else netdev_priv w e)"
  by (simp add: put_sfmc_def)

lemma find_None_listing:
  assumes "sfmc_inv hash d w"
  shows "sfmc_table_find hash (netdev_get_sfmc w d) i = None \<longleftrightarrow> i \<notin> oe_id ` set (sfmc_listing d w)"
proof -
  have "buckets_ok st_id hash (sfmc_buckets (netdev_get_sfmc w d))" using assms by (simp add: sfmc_inv_def)
  from table_find_None [OF this, of i] show ?thesis
    by (simp add: sfmc_listing_def sfmc_table_find_def sfmc_table_head_def image_image)
qed

lemma sfmc_add_cases:
  assumes inv: "sfmc_inv hash d w"
  obtains (dup) "oe_id oe \<in> oe_id ` set (sfmc_listing d w)" "sfmc_llt_entry_add hash d oe w = (- EEXIST, w)"
  | (nomem) "oe_id oe \<notin> oe_id ` set (sfmc_listing d w)" "sfmc_llt_entry_add hash d oe w = (- ENOMEM, w)"
  | (added) w' where "oe_id oe \<notin> oe_id ` set (sfmc_listing d w)" "sfmc_llt_entry_add hash d oe w = (0, w')"
      "sfmc_inv hash d w'" "mset (sfmc_listing d w') = add_mset oe (mset (sfmc_listing d w))"
proof (cases "sfmc_table_find hash (netdev_get_sfmc w d) (oe_id oe)")
  case (Some st)
  with dup find_None_listing [OF inv, of "oe_id oe"] show ?thesis by (auto simp: sfmc_llt_entry_add_def)
next
  case None
  let ?s = "netdev_get_sfmc w d"
  have new: "oe_id oe \<notin> oe_id ` set (sfmc_listing d w)" using None find_None_listing [OF inv] by blast
  show ?thesis
  proof (cases "table_mem ?s = 0")
    case True
    with nomem new None show ?thesis by (simp add: sfmc_llt_entry_add_def sfmc_table_add_def)
  next
    case False
    let ?e = "\<lparr>st_oe = oe, st_fib = None\<rparr>"
    let ?n = "sfmc_table_head hash (oe_id oe)"
    let ?bs = "(sfmc_buckets ?s)[?n := ?e # sfmc_buckets ?s ! ?n]"
    let ?w = "put_sfmc w d (?s\<lparr>sfmc_buckets := ?bs, table_mem := table_mem ?s - 1\<rparr>)"
    have ok: "buckets_ok st_id hash ?bs" "mset (concat ?bs) = add_mset ?e (mset (concat (sfmc_buckets ?s)))"
      using table_add [where key = st_id and hash = hash and e = ?e] inv
      by (simp_all add: sfmc_inv_def sfmc_table_head_def)
    have "distinct (map st_id (concat ?bs))"
      using distinct_mset_map [OF ok(2), of st_id] inv new
      by (simp add: sfmc_inv_def sfmc_listing_def image_image)
    then have "sfmc_inv hash d ?w" using ok(1) by (simp add: sfmc_inv_def)
    moreover have "mset (sfmc_listing d ?w) = add_mset oe (mset (sfmc_listing d w))"
      using ok(2) by (simp add: sfmc_listing_def)
    moreover have "sfmc_llt_entry_add hash d oe w = (0, ?w)"
      using None False by (simp add: sfmc_llt_entry_add_def sfmc_table_add_def Let_def)
    ultimately show ?thesis using added new by blast
  qed
qed

lemma sfmc_del_cases:
  assumes inv: "sfmc_inv hash d w"
  obtains (absent) "oe_id oe \<notin> oe_id ` set (sfmc_listing d w)" "sfmc_llt_entry_del hash d oe w = (- ENOENT, w)"
  | (gone) x w' where "sfmc_llt_entry_del hash d oe w = (0, w')" "x \<in> set (sfmc_listing d w)" "oe_id x = oe_id oe"
      "sfmc_inv hash d w'" "mset (sfmc_listing d w') = mset (sfmc_listing d w) - {#x#}"
proof (cases "sfmc_table_find hash (netdev_get_sfmc w d) (oe_id oe)")
  case None
  with absent find_None_listing [OF inv, of "oe_id oe"] show ?thesis by (auto simp: sfmc_llt_entry_del_def)
next
  case (Some st)
  let ?s = "netdev_get_sfmc w d" and ?i = "oe_id oe"
  let ?n = "sfmc_table_head hash ?i"
  let ?bs = "(sfmc_buckets ?s)[?n := bucket_del st_id ?i (sfmc_buckets ?s ! ?n)]"
  let ?w = "put_sfmc w d (?s\<lparr>sfmc_buckets := ?bs, table_mem := table_mem ?s + 1\<rparr>)"
  have bk: "buckets_ok st_id hash (sfmc_buckets ?s)" using inv by (simp add: sfmc_inv_def)
  have f: "bucket_find st_id ?i (sfmc_buckets ?s ! unat (hash ?i)) = Some st"
    using Some by (simp add: sfmc_table_find_def sfmc_table_head_def)
  have st: "st \<in> set (concat (sfmc_buckets ?s))" "st_id st = ?i" using table_find_Some [OF bk f] by auto
  have ok: "buckets_ok st_id hash ?bs" "mset (concat ?bs) = mset (concat (sfmc_buckets ?s)) - {#st#}"
    using table_del [OF bk f] by (simp_all add: sfmc_table_head_def)
  then have eq: "mset (concat (sfmc_buckets ?s)) = add_mset st (mset (concat ?bs))" using st(1) by simp
  then have "distinct (map st_id (concat ?bs))"
    using distinct_mset_map [OF eq, of st_id] inv by (simp add: sfmc_inv_def)
  then have "sfmc_inv hash d ?w" using ok(1) by (simp add: sfmc_inv_def)
  moreover have "mset (sfmc_listing d w) = add_mset (st_oe st) (mset (sfmc_listing d ?w))"
    using eq by (simp add: sfmc_listing_def)
  then have "mset (sfmc_listing d ?w) = mset (sfmc_listing d w) - {#st_oe st#}" by simp
  moreover have "sfmc_llt_entry_del hash d oe w = (0, ?w)"
    using Some by (simp add: sfmc_llt_entry_del_def sfmc_table_delete_def Let_def)
  moreover have "st_oe st \<in> set (sfmc_listing d w)" using st(1) by (simp add: sfmc_listing_def)
  ultimately show ?thesis using gone st(2) by blast
qed

lemma sfmc_dump_nth:
  "sfmc_llt_entry_dump d i w =
    (if i < length (sfmc_listing d w) then (Some (sfmc_listing d w ! i), Suc i) else (None, Suc (length (sfmc_listing d w))))"
  by (simp add: sfmc_llt_entry_dump_def sfmc_listing_def dump_buckets_spec)

interpretation sfmc_llt: llt_map_driver "sfmc_llt_entry_add hash" "sfmc_llt_entry_del hash" sfmc_llt_entry_dump
  "sfmc_inv hash" sfmc_listing
  for hash
proof unfold_locales
  fix d w oe assume inv: "sfmc_inv hash d w"
  show "sfmc_inv hash d (snd (sfmc_llt_entry_add hash d oe w))"
    by (rule sfmc_add_cases [OF inv, of oe]) (use inv in auto)
  show "fst (sfmc_llt_entry_add hash d oe w) = 0 \<Longrightarrow>
      mset (sfmc_listing d (snd (sfmc_llt_entry_add hash d oe w))) = add_mset oe (mset (sfmc_listing d w))"
    by (rule sfmc_add_cases [OF inv, of oe]) auto
  show "fst (sfmc_llt_entry_add hash d oe w) \<noteq> 0 \<Longrightarrow> fst (sfmc_llt_entry_add hash d oe w) < 0 \<and>
      sfmc_listing d (snd (sfmc_llt_entry_add hash d oe w)) = sfmc_listing d w"
    by (rule sfmc_add_cases [OF inv, of oe]) auto
  show "sfmc_inv hash d (snd (sfmc_llt_entry_del hash d oe w))"
    by (rule sfmc_del_cases [OF inv, of oe]) (use inv in auto)
  show "oe_id oe \<notin> oe_id ` set (sfmc_listing d w) \<Longrightarrow> sfmc_llt_entry_del hash d oe w = (- ENOENT, w)"
    by (rule sfmc_del_cases [OF inv, of oe]) (auto simp: image_iff)
  show "oe_id oe \<in> oe_id ` set (sfmc_listing d w) \<Longrightarrow> fst (sfmc_llt_entry_del hash d oe w) = 0 \<and>
      (\<exists>x \<in> set (sfmc_listing d w). oe_id x = oe_id oe \<and>
        mset (sfmc_listing d (snd (sfmc_llt_entry_del hash d oe w))) = mset (sfmc_listing d w) - {#x#})"
    by (rule sfmc_del_cases [OF inv, of oe]) auto
  show "sfmc_llt_entry_dump d i w = (if i < length (sfmc_listing d w) then (Some (sfmc_listing d w ! i), Suc i)
      else (None, Suc (length (sfmc_listing d w))))" for i
    by (rule sfmc_dump_nth)
  show "oe_id oe \<in> oe_id ` set (sfmc_listing d w) \<Longrightarrow> fst (sfmc_llt_entry_add hash d oe w) = - EEXIST"
    by (rule sfmc_add_cases [OF inv, of oe]) auto
  show "distinct (map oe_id (sfmc_listing d w))"
    using inv by (simp add: sfmc_inv_def sfmc_listing_def comp_def)
qed

end
