(* ===== verification/Raven.thy ===== *)
theory Raven
  imports Bucket_Table
begin

text \<open>
  \<^verbatim>\<open>raven/raven.c\<close>: the dummy driver that measures the transmit path. It offers the madcap
  operations over its own hash table, sends a packet through the kernel's tunnel code (or only
  counts it, in drop mode), reports the time stamps of the last packet in \<^verbatim>\<open>/proc\<close>, and is
  created and removed as a link.

  The kernel's services (routing, head room, \<^verbatim>\<open>iptunnel_xmit\<close>, registration of a device) are
  the fields of \<open>raven_env\<close>. \<^verbatim>\<open>rt->dev\<close> and \<^verbatim>\<open>rt->updated\<close> are written and never read, and
  left out; locks and RCU are not modelled.
\<close>

section \<open>State\<close>

record raven_dev =
  rd_vdev :: ptr
  rd_pdev :: ptr
  rd_table :: "madcap_obj_entry list list"
  rd_ou :: madcap_obj_udp
  rd_oc :: madcap_obj_config
  rd_mem :: nat
  tx_packets :: u64
  tx_bytes :: u64
  tx_errors :: u64
  rd_mtu :: int
  tstats :: bool

record raven_world =
  raven_priv :: "addr \<Rightarrow> raven_dev"
  dev_list :: "addr list"

definition put_raven :: "raven_world \<Rightarrow> addr \<Rightarrow> raven_dev \<Rightarrow> raven_world" where
  "put_raven w d rd = w\<lparr>raven_priv := (raven_priv w)(d := rd)\<rparr>"

abbreviation (input) RAVEN_HASH_SIZE :: nat where "RAVEN_HASH_SIZE \<equiv> 256"

section \<open>The table\<close>

definition raven_table_head :: "(u64 \<Rightarrow> 8 word) \<Rightarrow> u64 \<Rightarrow> nat" where
  "raven_table_head hash key = unat (hash key)"

definition raven_table_add :: "(u64 \<Rightarrow> 8 word) \<Rightarrow> raven_dev \<Rightarrow> madcap_obj_entry \<Rightarrow> raven_dev option" where
  "raven_table_add hash rd oe =
     (if rd_mem rd = 0 then None
      else let n = raven_table_head hash (oe_id oe) in
        Some (rd\<lparr>rd_table := (rd_table rd)[n := oe # rd_table rd ! n], rd_mem := rd_mem rd - 1\<rparr>))"

definition raven_table_delete :: "(u64 \<Rightarrow> 8 word) \<Rightarrow> raven_dev \<Rightarrow> u64 \<Rightarrow> raven_dev" where
  "raven_table_delete hash rd i =
     (let n = raven_table_head hash i in
      rd\<lparr>rd_table := (rd_table rd)[n := bucket_del oe_id i (rd_table rd ! n)], rd_mem := rd_mem rd + 1\<rparr>)"

fun free_bucket :: "madcap_obj_entry list \<Rightarrow> nat \<Rightarrow> nat" where
  "free_bucket [] n = n"
| "free_bucket (oe # rest) n = free_bucket rest (Suc n)"

definition raven_table_destroy :: "raven_dev \<Rightarrow> raven_dev" where
  "raven_table_destroy rd = rd\<lparr>rd_table := map (\<lambda>b. []) (rd_table rd),
     rd_mem := foldl (\<lambda>n b. free_bucket b n) (rd_mem rd) (rd_table rd)\<rparr>"

definition raven_table_find :: "(u64 \<Rightarrow> 8 word) \<Rightarrow> raven_dev \<Rightarrow> u64 \<Rightarrow> madcap_obj_entry option" where
  "raven_table_find hash rd i = bucket_find oe_id i (rd_table rd ! raven_table_head hash i)"

section \<open>The madcap operations\<close>

definition raven_acquire_dev :: "addr \<Rightarrow> addr \<Rightarrow> raven_world \<Rightarrow> int \<times> raven_world" where
  "raven_acquire_dev d vdev w =
     (let rd = raven_priv w d in
      if rd_vdev rd \<noteq> None then (- EINVAL, w) else (0, put_raven w d (rd\<lparr>rd_vdev := Some vdev\<rparr>)))"

definition raven_release_dev :: "addr \<Rightarrow> addr \<Rightarrow> raven_world \<Rightarrow> int \<times> raven_world" where
  "raven_release_dev d vdev w =
     (let rd = raven_priv w d in
      if rd_vdev rd \<noteq> Some vdev then (- EINVAL, w) else (0, put_raven w d (rd\<lparr>rd_vdev := None\<rparr>)))"

definition raven_llt_cfg :: "addr \<Rightarrow> madcap_obj_config \<Rightarrow> raven_world \<Rightarrow> int \<times> raven_world" where
  "raven_llt_cfg d oc w =
     (let rd = raven_priv w d in
      if enc_config oc \<noteq> enc_config (rd_oc rd)
      then (0, put_raven w d ((raven_table_destroy rd)\<lparr>rd_oc := oc\<rparr>))
      else (0, w))"

definition raven_llt_config_get :: "addr \<Rightarrow> raven_world \<Rightarrow> madcap_obj_config option" where
  "raven_llt_config_get d w = Some (rd_oc (raven_priv w d))"

definition raven_llt_entry_add ::
  "(u64 \<Rightarrow> 8 word) \<Rightarrow> addr \<Rightarrow> madcap_obj_entry \<Rightarrow> raven_world \<Rightarrow> int \<times> raven_world" where
  "raven_llt_entry_add hash d oe w =
     (case raven_table_add hash (raven_priv w d) oe of
        None \<Rightarrow> (- ENOMEM, w)
      | Some rd \<Rightarrow> (0, put_raven w d rd))"

definition raven_llt_entry_del ::
  "(u64 \<Rightarrow> 8 word) \<Rightarrow> addr \<Rightarrow> madcap_obj_entry \<Rightarrow> raven_world \<Rightarrow> int \<times> raven_world" where
  "raven_llt_entry_del hash d oe w =
     (case raven_table_find hash (raven_priv w d) (oe_id oe) of
        None \<Rightarrow> (- ENOENT, w)
      | Some _ \<Rightarrow> (0, put_raven w d (raven_table_delete hash (raven_priv w d) (oe_id oe))))"

definition raven_llt_entry_dump :: "addr \<Rightarrow> nat \<Rightarrow> raven_world \<Rightarrow> madcap_obj_entry option \<times> nat" where
  "raven_llt_entry_dump d args0 w =
     (case dump_buckets args0 (rd_table (raven_priv w d)) 0 of (oe, cnt) \<Rightarrow> (oe, cnt + 1))"

definition raven_udp_cfg :: "addr \<Rightarrow> madcap_obj_udp \<Rightarrow> raven_world \<Rightarrow> int \<times> raven_world" where
  "raven_udp_cfg d ou w = (0, put_raven w d ((raven_priv w d)\<lparr>rd_ou := ou\<rparr>))"

definition raven_udp_config_get :: "addr \<Rightarrow> raven_world \<Rightarrow> madcap_obj_udp option" where
  "raven_udp_config_get d w = Some (rd_ou (raven_priv w d))"

definition raven_madcap_ops :: "(u64 \<Rightarrow> 8 word) \<Rightarrow> raven_world madcap_ops" where
  "raven_madcap_ops hash = \<lparr>
     mco_acquire_dev = Some raven_acquire_dev,
     mco_release_dev = Some raven_release_dev,
     mco_llt_cfg = Some raven_llt_cfg,
     mco_llt_entry_add = Some (raven_llt_entry_add hash),
     mco_llt_entry_del = Some (raven_llt_entry_del hash),
     mco_udp_cfg = Some raven_udp_cfg,
     mco_llt_entry_dump = Some raven_llt_entry_dump,
     mco_llt_config_get = Some raven_llt_config_get,
     mco_udp_config_get = Some raven_udp_config_get\<rparr>"

section \<open>Transmission\<close>

text \<open>What became of a packet handed to \<^verbatim>\<open>raven_xmit\<close>: it still belongs to the driver, it was freed,
  or it was handed to \<^verbatim>\<open>iptunnel_xmit\<close> with a route, addresses and protocol.\<close>

datatype skb_fate = Held | Freed | Handed addr u32 u32 u8 "u8 list"

text \<open>\<open>route\<close> is \<^verbatim>\<open>ip_route_output_key\<close> for a destination and source, \<open>cow_head\<close> the result of
  \<^verbatim>\<open>skb_cow_head\<close>, \<open>tunnel_rc\<close> that of \<^verbatim>\<open>iptunnel_xmit\<close>, and \<open>len_after\<close> what \<^verbatim>\<open>skb->len\<close> reads once the
  packet has been handed over.\<close>

record raven_env =
  rv_hash :: "u64 \<Rightarrow> 8 word"
  drop_mode :: bool
  rv_madcap_enable :: bool
  route :: "u32 \<Rightarrow> u32 \<Rightarrow> ptr"
  cow_head :: "nat \<Rightarrow> int"
  tunnel_rc :: int
  len_after :: nat

definition raven_extract_id :: "u8 list \<Rightarrow> madcap_obj_config \<Rightarrow> u64 option" where
  "raven_extract_id pkt oc = do {
     bs \<leftarrow> read_bytes pkt (unat (oc_offset oc)) 8;
     Some (shift_loop (nat (64 - int (unat (oc_length oc)))) (le_word bs)) }"

definition count_tx :: "raven_dev \<Rightarrow> nat \<Rightarrow> raven_dev" where
  "count_tx rd n = rd\<lparr>tx_packets := tx_packets rd + 1, tx_bytes := tx_bytes rd + word_of_nat n\<rparr>"

definition tx_err :: "raven_dev \<Rightarrow> raven_dev" where
  "tx_err rd = rd\<lparr>tx_errors := tx_errors rd + 1\<rparr>"

text \<open>The UDP header when it is enabled; \<^verbatim>\<open>uh->len\<close> is the length with the header.\<close>

definition raven_push_udp :: "raven_dev \<Rightarrow> u8 list \<Rightarrow> u8 list" where
  "raven_push_udp rd pkt =
     (if encap_enable (rd_ou rd) \<noteq> 0
      then le_bytes 2 (src_port (rd_ou rd)) @ le_bytes 2 (dst_port (rd_ou rd)) @
        le_bytes 2 (htons (word_of_nat (8 + length pkt))) @ [0, 0] @ pkt
      else pkt)"

text \<open>From the routing lookup on. The route \<open>irt\<close> is not released when \<^verbatim>\<open>skb_cow_head\<close> fails; the
  fourth result are the routes still referenced.\<close>

definition raven_tunnel ::
  "raven_env \<Rightarrow> raven_dev \<Rightarrow> madcap_obj_entry \<Rightarrow> u8 list \<Rightarrow> int \<times> skb_fate \<times> raven_dev \<times> addr list" where
  "raven_tunnel env rd oe pkt =
     (case route env (oe_dst oe) (oc_src (rd_oc rd)) of
        None \<Rightarrow> (- ENOMEM, Freed, rd, [])
      | Some irt \<Rightarrow>
          let headroom = (if encap_enable (rd_ou rd) \<noteq> 0 then 14 + 20 + 16 else 14 + 20) in
          if cow_head env headroom \<noteq> 0 then (- ENOMEM, Freed, rd, [irt])
          else
            let sent = Handed irt (oc_src (rd_oc rd)) (oe_dst oe) (oc_proto (rd_oc rd)) (raven_push_udp rd pkt) in
            if tunnel_rc env < 0 then (0, sent, tx_err rd, [])
            else (0, sent, count_tx rd (len_after env), []))"

definition raven_xmit ::
  "raven_env \<Rightarrow> raven_dev \<Rightarrow> u8 list \<Rightarrow> (int \<times> skb_fate \<times> raven_dev \<times> addr list) option" where
  "raven_xmit env rd pkt =
     (if drop_mode env then Some (0, Freed, count_tx rd (length pkt), [])
      else do {
        i \<leftarrow> raven_extract_id pkt (rd_oc rd);
        (case (case raven_table_find (rv_hash env) rd i of
                 Some oe \<Rightarrow> Some oe | None \<Rightarrow> raven_table_find (rv_hash env) rd 0) of
           None \<Rightarrow> Some (0, Held, tx_err rd, [])
         | Some oe \<Rightarrow> Some (raven_tunnel env rd oe pkt)) })"

section \<open>The device\<close>

definition raven_change_mtu :: "raven_dev \<Rightarrow> int \<Rightarrow> int \<times> raven_dev" where
  "raven_change_mtu rd new_mtu =
     (if \<not> (new_mtu \<ge> 46 \<and> new_mtu \<le> 65535) then (- EINVAL, rd) else (0, rd\<lparr>rd_mtu := new_mtu\<rparr>))"

definition raven_init :: "bool \<Rightarrow> raven_dev \<Rightarrow> int \<times> raven_dev" where
  "raven_init alloc_ok rd = (if alloc_ok then (0, rd\<lparr>tstats := True\<rparr>) else (- ENOMEM, rd\<lparr>tstats := False\<rparr>))"

definition raven_uninit :: "raven_dev \<Rightarrow> raven_dev" where
  "raven_uninit rd = rd\<lparr>tstats := False\<rparr>"

text \<open>\<open>rd\<close> is the private data as \<^verbatim>\<open>alloc_netdev\<close> cleared it.\<close>

definition raven_setup :: "raven_dev \<Rightarrow> raven_dev" where
  "raven_setup rd = rd\<lparr>rd_vdev := None,
     rd_ou := (rd_ou rd)\<lparr>ou_obj := (ou_obj (rd_ou rd))\<lparr>obj_id := MADCAP_OBJ_ID_UDP\<rparr>\<rparr>,
     rd_oc := (rd_oc rd)\<lparr>oc_obj := (oc_obj (rd_oc rd))\<lparr>obj_id := MADCAP_OBJ_ID_LLT_CONFIG\<rparr>\<rparr>,
     rd_table := replicate RAVEN_HASH_SIZE []\<rparr>"

text \<open>\<open>phys\<close> is the attribute with the physical device's index, \<open>reg_rc\<close> the result of
  \<^verbatim>\<open>register_netdevice\<close>.\<close>

definition raven_newlink ::
  "raven_env \<Rightarrow> (u32 \<Rightarrow> ptr) \<Rightarrow> u32 option \<Rightarrow> int \<Rightarrow> addr \<Rightarrow> raven_world madcap_net \<Rightarrow> raven_world
     \<Rightarrow> int \<times> raven_world madcap_net \<times> raven_world" where
  "raven_newlink env by_index phys reg_rc d net w =
     (let w = (case phys of None \<Rightarrow> w
               | Some i \<Rightarrow> put_raven w d ((raven_priv w d)\<lparr>rd_pdev := by_index i\<rparr>)) in
      if reg_rc \<noteq> 0 then (reg_rc, net, w)
      else
        let w = w\<lparr>dev_list := dev_list w @ [d]\<rparr>;
            (err, net) = madcap_register_device net d (raven_madcap_ops (rv_hash env)) in
        if err < 0 then (err, net, w) else (0, net, w))"

text \<open>The last component is the list \<^verbatim>\<open>unregister_netdevice_queue\<close> appends to.\<close>

definition raven_dellink ::
  "addr \<Rightarrow> raven_world madcap_net \<Rightarrow> addr list \<Rightarrow> raven_world \<Rightarrow> raven_world madcap_net \<times> addr list \<times> raven_world" where
  "raven_dellink d net queue w =
     (let w = put_raven w d (raven_table_destroy (raven_priv w d));
          w = w\<lparr>dev_list := remove1 d (dev_list w)\<rparr>;
          (rc, net) = madcap_unregister_device net d in
      (net, queue @ [d], w))"

text \<open>The attribute with the physical device's index, 0 for none; \<open>fits\<close>: the message has room.\<close>

definition raven_fill_info :: "(addr \<Rightarrow> u32) \<Rightarrow> bool \<Rightarrow> raven_dev \<Rightarrow> int \<times> u32 option" where
  "raven_fill_info ifindex fits rd =
     (let i = (case rd_pdev rd of Some p \<Rightarrow> ifindex p | None \<Rightarrow> 0) in
      if \<not> fits then (- EMSGSIZE, None) else (0, Some i))"

definition raven_init_net :: "raven_world \<Rightarrow> raven_world" where
  "raven_init_net w = w\<lparr>dev_list := []\<rparr>"

text \<open>The devices are moved to a list on the stack, which nothing reads: the result is that list
  and the unchanged state.\<close>

fun exit_net_loop :: "addr list \<Rightarrow> addr list \<Rightarrow> addr list" where
  "exit_net_loop [] queue = queue"
| "exit_net_loop (d # rest) queue = exit_net_loop rest (queue @ [d])"

definition raven_exit_net :: "raven_world \<Rightarrow> addr list \<times> raven_world" where
  "raven_exit_net w = (exit_net_loop (dev_list w) [], w)"

section \<open>The module\<close>

record raven_module =
  pernet_registered :: bool
  link_registered :: bool
  proc_created :: bool

text \<open>The arguments are the results of the registrations; the proc entry exists in builds with
  \<^verbatim>\<open>OVBENCH\<close>.\<close>

definition raven_init_module :: "int \<Rightarrow> int \<Rightarrow> bool \<Rightarrow> bool \<Rightarrow> raven_module \<Rightarrow> int \<times> raven_module" where
  "raven_init_module pernet_rc link_rc ovbench proc_ok m =
     (if pernet_rc < 0 then (pernet_rc, m)
      else let m = m\<lparr>pernet_registered := True\<rparr> in
      if link_rc < 0 then (link_rc, m\<lparr>pernet_registered := False\<rparr>)
      else let m = m\<lparr>link_registered := True\<rparr> in
      if ovbench \<and> \<not> proc_ok
      then (- ENOMEM, m\<lparr>link_registered := False, pernet_registered := False\<rparr>)
      else (0, m\<lparr>proc_created := ovbench\<rparr>))"

definition raven_exit_module :: "bool \<Rightarrow> raven_module \<Rightarrow> raven_module" where
  "raven_exit_module ovbench m =
     (let m = m\<lparr>link_registered := False, pernet_registered := False\<rparr> in
      if ovbench then m\<lparr>proc_created := False\<rparr> else m)"

end
