(* ===== verification/Raven_Proc.thy ===== *)
theory Raven_Proc
  imports Raven
begin

text \<open>
  The measurement side of \<^verbatim>\<open>raven.c\<close> (builds with \<^verbatim>\<open>OVBENCH\<close>): the time stamps of the last
  dropped packet are kept, and \<^verbatim>\<open>/proc/driver/raven\<close> prints the intervals of the transmit path,
  one table for packets encapsulated in software and one for packets left to a madcap device.

  The names of the measuring points are those of the sources; where the header of the patched
  kernel stores them, and the numbers of the encapsulation types, are parameters.
\<close>

section \<open>Time stamps\<close>

datatype ts_point =
    ip_local_out_sk_in | raven_xmit_in | ipip_tunnel_xmit_in | iptunnel_xmit_in
  | ip_routing_start | ip_routing_end | ip_local_out_sk_in_encaped | ipgre_xmit_in
  | gre_xmit_in | gre_encap_end | gre_tap_xmit_in | vxlan_xmit_in
  | vxlan_xmit_skb_in | udp_tunnel_xmit_skb_in | nsh_xmit_in | nsh_xmit_lookup_end
  | nsh_xmit_vxlan_in | nsh_xmit_vxlan_skb_in | dev_queue_xmit_in

datatype ovtype = OVTYPE_NOENCAP | OVTYPE_IPIP | OVTYPE_GRE | OVTYPE_GRETAP | OVTYPE_VXLAN | OVTYPE_NSH

text \<open>What a packet carries, and the module's copy of it with the flag of the reader.\<close>

record ov_params =
  ov_type :: u8
  ov_encaped :: u8
  ov_ts :: "ts_point \<Rightarrow> u64"

record ov_state =
  ov_last :: ov_params
  proc_red :: bool

text \<open>\<open>is_ov\<close> is \<^verbatim>\<open>SKB_OVBENCH\<close>.\<close>

definition copy_ovbench_params :: "bool \<Rightarrow> ov_params \<Rightarrow> ov_state \<Rightarrow> ov_state" where
  "copy_ovbench_params is_ov p st = (if is_ov then st\<lparr>ov_last := p\<rparr> else st)"

text \<open>\<^verbatim>\<open>#define ts(start, end) start > end ? 0 : end - start\<close>\<close>

definition ts :: "u64 \<Rightarrow> u64 \<Rightarrow> u64" where
  "ts s e = (if s > e then 0 else e - s)"

section \<open>The reports\<close>

type_synonym report_line = "string \<times> ts_point \<times> ts_point"

fun report_disabled :: "ovtype \<Rightarrow> string \<times> report_line list" where
  "report_disabled OVTYPE_NOENCAP = (''encap:             noencap'',
     [(''inner-tx:          '', ip_local_out_sk_in, raven_xmit_in),
      (''total-tx:          '', ip_local_out_sk_in, raven_xmit_in)])"
| "report_disabled OVTYPE_IPIP = (''encap:             ipip'',
     [(''inner-tx:          '', ip_local_out_sk_in, ipip_tunnel_xmit_in),
      (''protocol-path:     '', ipip_tunnel_xmit_in, iptunnel_xmit_in),
      (''routing-lookup:    '', ip_routing_start, ip_routing_end),
      (''build-outer-ip:    '', iptunnel_xmit_in, ip_local_out_sk_in_encaped),
      (''outer-tx:          '', ip_local_out_sk_in_encaped, raven_xmit_in),
      (''total-tx:          '', ip_local_out_sk_in, raven_xmit_in)])"
| "report_disabled OVTYPE_GRE = (''encap:             gre'',
     [(''inner-tx:          '', ip_local_out_sk_in, ipgre_xmit_in),
      (''protocol-path:     '', ipgre_xmit_in, iptunnel_xmit_in),
      (''build-gre:         '', gre_xmit_in, gre_encap_end),
      (''routing-lookup:    '', ip_routing_start, ip_routing_end),
      (''build-outer-ip:    '', iptunnel_xmit_in, ip_local_out_sk_in_encaped),
      (''outer-tx:          '', ip_local_out_sk_in_encaped, raven_xmit_in),
      (''total-tx:          '', ip_local_out_sk_in, raven_xmit_in)])"
| "report_disabled OVTYPE_GRETAP = (''encap:             gretap'',
     [(''inner-tx:          '', ip_local_out_sk_in, gre_tap_xmit_in),
      (''protocol-path:     '', gre_tap_xmit_in, iptunnel_xmit_in),
      (''build-gre:         '', gre_xmit_in, gre_encap_end),
      (''routing-lookup:    '', ip_routing_start, ip_routing_end),
      (''build-outer-ip:    '', iptunnel_xmit_in, ip_local_out_sk_in_encaped),
      (''outer-tx:          '', ip_local_out_sk_in_encaped, raven_xmit_in),
      (''total-tx:          '', ip_local_out_sk_in, raven_xmit_in)])"
| "report_disabled OVTYPE_VXLAN = (''encap:                 vxlan'',
     [(''inner-tx:              '', ip_local_out_sk_in, vxlan_xmit_in),
      (''protocol-path:         '', vxlan_xmit_in, iptunnel_xmit_in),
      (''routing-lookup:        '', ip_routing_start, ip_routing_end),
      (''build-vxlan:           '', vxlan_xmit_skb_in, udp_tunnel_xmit_skb_in),
      (''build-udp:             '', udp_tunnel_xmit_skb_in, iptunnel_xmit_in),
      (''build-outer-ip:        '', iptunnel_xmit_in, ip_local_out_sk_in_encaped),
      (''outer-tx:              '', ip_local_out_sk_in_encaped, raven_xmit_in),
      (''total-tx:              '', ip_local_out_sk_in, raven_xmit_in)])"
| "report_disabled OVTYPE_NSH = (''encap:                 nsh'',
     [(''inner-tx:              '', ip_local_out_sk_in, nsh_xmit_in),
      (''protocol-path:         '', nsh_xmit_in, iptunnel_xmit_in),
      (''build-nsh:             '', nsh_xmit_lookup_end, nsh_xmit_vxlan_in),
      (''routing-lookup:        '', ip_routing_start, ip_routing_end),
      (''build-vxlan:           '', nsh_xmit_vxlan_skb_in, udp_tunnel_xmit_skb_in),
      (''build-udp:             '', udp_tunnel_xmit_skb_in, iptunnel_xmit_in),
      (''build-outer-ip:        '', iptunnel_xmit_in, ip_local_out_sk_in_encaped),
      (''outer-tx:              '', ip_local_out_sk_in_encaped, raven_xmit_in),
      (''total-tx:              '', ip_local_out_sk_in, raven_xmit_in)])"

fun report_enabled :: "ovtype \<Rightarrow> string \<times> report_line list" where
  "report_enabled OVTYPE_NOENCAP = (''encap:            noencap'',
     [(''inner-tx:         '', ip_local_out_sk_in, raven_xmit_in),
      (''total-tx:         '', ip_local_out_sk_in, raven_xmit_in)])"
| "report_enabled OVTYPE_IPIP = (''encap:             ipip'',
     [(''inner-tx:          '', ip_local_out_sk_in, ipip_tunnel_xmit_in),
      (''protocol-path:     '', ipip_tunnel_xmit_in, dev_queue_xmit_in),
      (''outer-tx:          '', dev_queue_xmit_in, raven_xmit_in),
      (''total-tx:          '', ip_local_out_sk_in, raven_xmit_in)])"
| "report_enabled OVTYPE_GRE = (''encap:             gre'',
     [(''inner-tx:          '', ip_local_out_sk_in, ipgre_xmit_in),
      (''protocol-path:     '', ipgre_xmit_in, dev_queue_xmit_in),
      (''build-gre:         '', gre_xmit_in, gre_encap_end),
      (''outer-tx:          '', dev_queue_xmit_in, raven_xmit_in),
      (''total-tx:          '', ip_local_out_sk_in, raven_xmit_in)])"
| "report_enabled OVTYPE_GRETAP = (''encap:             gretap'',
     [(''inner-tx:          '', ip_local_out_sk_in, gre_tap_xmit_in),
      (''protocol-path:     '', gre_tap_xmit_in, dev_queue_xmit_in),
      (''build-gre:         '', gre_xmit_in, gre_encap_end),
      (''outer-tx:          '', dev_queue_xmit_in, raven_xmit_in),
      (''total-tx:          '', ip_local_out_sk_in, raven_xmit_in)])"
| "report_enabled OVTYPE_VXLAN = (''encap:                 vxlan'',
     [(''inner-tx:              '', ip_local_out_sk_in, vxlan_xmit_in),
      (''protocol-path:         '', vxlan_xmit_in, dev_queue_xmit_in),
      (''build-vxlan:           '', vxlan_xmit_skb_in, dev_queue_xmit_in),
      (''outer-tx:              '', dev_queue_xmit_in, raven_xmit_in),
      (''total-tx:              '', ip_local_out_sk_in, raven_xmit_in)])"
| "report_enabled OVTYPE_NSH = (''encap:                 nsh'',
     [(''inner-tx:              '', ip_local_out_sk_in, nsh_xmit_in),
      (''protocol-path:         '', nsh_xmit_in, dev_queue_xmit_in),
      (''build-nsh:             '', nsh_xmit_lookup_end, nsh_xmit_vxlan_in),
      (''build-vxlan:           '', nsh_xmit_vxlan_in, dev_queue_xmit_in),
      (''outer-tx:              '', dev_queue_xmit_in, raven_xmit_in),
      (''total-tx:              '', ip_local_out_sk_in, raven_xmit_in)])"

definition print_report :: "(ts_point \<Rightarrow> u64) \<Rightarrow> string \<times> report_line list \<Rightarrow> string" where
  "print_report tsv rep = fst rep @ [CHR 0x0A] @
     concat (map (\<lambda>(lbl, s, e). lbl @ dec (unat (ts (tsv s) (tsv e))) @ [CHR 0x0A]) (snd rep))"

text \<open>\<^verbatim>\<open>snprintf\<close> into \<open>n\<close> bytes keeps \<open>n - 1\<close> characters.\<close>

definition snprintf :: "nat \<Rightarrow> string \<Rightarrow> string" where
  "snprintf n s = take (n - 1) s"

text \<open>A read of the proc file. \<open>types\<close> gives the meaning of the type numbers, \<open>copy_ok\<close> is the result
  of \<^verbatim>\<open>copy_to_user\<close>. The result is the return value and the bytes written to the reader's buffer;
  the size of that buffer is not looked at.\<close>

definition proc_read ::
  "nat \<Rightarrow> (ovtype \<Rightarrow> string \<times> report_line list) \<Rightarrow> (u8 \<Rightarrow> ovtype option) \<Rightarrow> bool \<Rightarrow> ov_state \<Rightarrow> int \<times> string \<times> ov_state" where
  "proc_read sz report types copy_ok st =
     (if proc_red st then (0, [], st\<lparr>proc_red := False\<rparr>)
      else
        let st = st\<lparr>proc_red := True\<rparr>;
            line = snprintf sz (case types (ov_type (ov_last st)) of
               Some t \<Rightarrow> print_report (ov_ts (ov_last st)) (report t)
             | None \<Rightarrow> ''unknown-ovbench-type '' @ dec (unat (ov_type (ov_last st))) @ [CHR 0x0A]) in
        if \<not> copy_ok then (- EFAULT, [], st) else (int (length line), line, st))"

definition raven_proc_read_madcap_disabled ::
  "(u8 \<Rightarrow> ovtype option) \<Rightarrow> bool \<Rightarrow> ov_state \<Rightarrow> int \<times> string \<times> ov_state" where
  "raven_proc_read_madcap_disabled types copy_ok st = proc_read 512 report_disabled types copy_ok st"

definition raven_proc_read_madcap_enabled ::
  "(u8 \<Rightarrow> ovtype option) \<Rightarrow> bool \<Rightarrow> ov_state \<Rightarrow> int \<times> string \<times> ov_state" where
  "raven_proc_read_madcap_enabled types copy_ok st = proc_read 256 report_enabled types copy_ok st"

text \<open>\<open>bufsz\<close> is the reader's buffer; both functions take it and ignore it.\<close>

definition raven_proc_read ::
  "raven_env \<Rightarrow> (u8 \<Rightarrow> ovtype option) \<Rightarrow> bool \<Rightarrow> nat \<Rightarrow> ov_state \<Rightarrow> int \<times> string \<times> ov_state" where
  "raven_proc_read env types copy_ok bufsz st =
     (if rv_madcap_enable env then raven_proc_read_madcap_enabled types copy_ok st
      else raven_proc_read_madcap_disabled types copy_ok st)"

section \<open>Lengths\<close>

text \<open>The length of a report whose numbers have at most \<open>k\<close> digits.\<close>

definition report_bound :: "nat \<Rightarrow> string \<times> report_line list \<Rightarrow> nat" where
  "report_bound k rep = length (fst rep) + 1 + sum_list (map (\<lambda>(lbl, s, e). length lbl + k + 1) (snd rep))"

lemma print_report_length:
  assumes "\<And>s e. unat (ts (tsv s) (tsv e)) < 10 ^ Suc k"
  shows "length (print_report tsv rep) \<le> report_bound (Suc k) rep"
proof -
  have "length (concat (map (\<lambda>(lbl, s, e). lbl @ dec (unat (ts (tsv s) (tsv e))) @ [CHR 0x0A]) ls)) \<le>
      sum_list (map (\<lambda>(lbl, s, e). length lbl + Suc k + 1) ls)" for ls
  proof (induction ls)
    case (Cons x ls)
    obtain lbl s e where x: "x = (lbl, s, e)" by (cases x)
    show ?case using Cons dec_length [OF assms, of s e] by (simp add: x)
  qed simp
  then show ?thesis by (simp add: print_report_def report_bound_def)
qed

lemma report_bounds: "report_bound 20 (report_disabled t) \<le> 511" "report_bound 14 (report_enabled t) \<le> 255"
  by (cases t; simp add: report_bound_def)+

lemma unat_u64_digits: "unat (x :: u64) < 10 ^ Suc 19"
  using unsigned_less [of x, where 'a = nat] by (simp add: order_less_le_trans)

end
