(* ===== verification/Raven_Props.thy ===== *)
theory Raven_Props
  imports Raven_Proc
begin

text \<open>
  The contract of \<^verbatim>\<open>raven.c\<close>: its table is a madcap locator table that accepts an identifier
  again and then answers with the newest entry, configuration changes drop it, a packet is
  counted once, and the report fits its buffer.
\<close>

section \<open>The contract of the table\<close>

definition raven_inv :: "(u64 \<Rightarrow> 8 word) \<Rightarrow> addr \<Rightarrow> raven_world \<Rightarrow> bool" where
  "raven_inv hash d w \<longleftrightarrow> buckets_ok oe_id hash (rd_table (raven_priv w d))"

definition raven_listing :: "addr \<Rightarrow> raven_world \<Rightarrow> madcap_obj_entry list" where
  "raven_listing d w = concat (rd_table (raven_priv w d))"

lemma put_raven_get [simp]: "raven_priv (put_raven w d rd) e = (if e = d then rd else raven_priv w e)"
  by (simp add: put_raven_def)

lemma raven_add_cases:
  assumes inv: "raven_inv hash d w"
  obtains (full) "raven_llt_entry_add hash d oe w = (- ENOMEM, w)"
  | (added) w' where "raven_llt_entry_add hash d oe w = (0, w')" "raven_inv hash d w'"
      "mset (raven_listing d w') = add_mset oe (mset (raven_listing d w))"
proof (cases "rd_mem (raven_priv w d) = 0")
  case True
  then show ?thesis by (intro full) (simp add: raven_llt_entry_add_def raven_table_add_def)
next
  case False
  let ?rd = "raven_priv w d" and ?n = "raven_table_head hash (oe_id oe)"
  let ?w = "put_raven w d (?rd\<lparr>rd_table := (rd_table ?rd)[?n := oe # rd_table ?rd ! ?n], rd_mem := rd_mem ?rd - 1\<rparr>)"
  have t: "buckets_ok oe_id hash (rd_table ?rd)" using inv by (simp add: raven_inv_def)
  have "raven_llt_entry_add hash d oe w = (0, ?w)"
    using False by (simp add: raven_llt_entry_add_def raven_table_add_def Let_def)
  moreover have "raven_inv hash d ?w" "mset (raven_listing d ?w) = add_mset oe (mset (raven_listing d w))"
    using table_add [OF t, of oe] by (simp_all add: raven_inv_def raven_listing_def raven_table_head_def)
  ultimately show ?thesis by (rule added)
qed

lemma raven_find_None:
  assumes "raven_inv hash d w"
  shows "raven_table_find hash (raven_priv w d) i = None \<longleftrightarrow> i \<notin> oe_id ` set (raven_listing d w)"
  using table_find_None [of oe_id hash "rd_table (raven_priv w d)" i] assms
  by (simp add: raven_inv_def raven_listing_def raven_table_find_def raven_table_head_def)

lemma raven_del_cases:
  assumes inv: "raven_inv hash d w"
  obtains (absent) "oe_id oe \<notin> oe_id ` set (raven_listing d w)" "raven_llt_entry_del hash d oe w = (- ENOENT, w)"
  | (gone) x w' where "raven_llt_entry_del hash d oe w = (0, w')" "raven_inv hash d w'" "x \<in> set (raven_listing d w)"
      "oe_id x = oe_id oe" "mset (raven_listing d w') = mset (raven_listing d w) - {#x#}"
proof (cases "raven_table_find hash (raven_priv w d) (oe_id oe)")
  case None
  then show ?thesis
    using absent raven_find_None [OF inv, of "oe_id oe"] by (simp add: raven_llt_entry_del_def)
next
  case (Some x)
  let ?rd = "raven_priv w d" and ?i = "oe_id oe"
  let ?w = "put_raven w d (raven_table_delete hash ?rd ?i)"
  have t: "buckets_ok oe_id hash (rd_table ?rd)" using inv by (simp add: raven_inv_def)
  have f: "bucket_find oe_id ?i (rd_table ?rd ! unat (hash ?i)) = Some x"
    using Some by (simp add: raven_table_find_def raven_table_head_def)
  have "raven_llt_entry_del hash d oe w = (0, ?w)" using Some by (simp add: raven_llt_entry_del_def)
  moreover have "raven_inv hash d ?w" "mset (raven_listing d ?w) = mset (raven_listing d w) - {#x#}"
    using table_del [OF t f] by (simp_all add: raven_inv_def raven_listing_def raven_table_delete_def raven_table_head_def Let_def)
  moreover have "x \<in> set (raven_listing d w)" "oe_id x = ?i" using table_find_Some [OF t f] by (simp_all add: raven_listing_def)
  ultimately show ?thesis using gone by blast
qed

interpretation raven_llt: llt_driver "raven_llt_entry_add hash" "raven_llt_entry_del hash" raven_llt_entry_dump
  "raven_inv hash" raven_listing
  for hash
proof unfold_locales
  fix d w oe assume inv: "raven_inv hash d w"
  show "raven_inv hash d (snd (raven_llt_entry_add hash d oe w))"
    by (rule raven_add_cases [OF inv, of oe]) (use inv in auto)
  show "fst (raven_llt_entry_add hash d oe w) = 0 \<Longrightarrow>
      mset (raven_listing d (snd (raven_llt_entry_add hash d oe w))) = add_mset oe (mset (raven_listing d w))"
    by (rule raven_add_cases [OF inv, of oe]) auto
  show "fst (raven_llt_entry_add hash d oe w) \<noteq> 0 \<Longrightarrow> fst (raven_llt_entry_add hash d oe w) < 0 \<and>
      raven_listing d (snd (raven_llt_entry_add hash d oe w)) = raven_listing d w"
    by (rule raven_add_cases [OF inv, of oe]) auto
  show "raven_inv hash d (snd (raven_llt_entry_del hash d oe w))"
    by (rule raven_del_cases [OF inv, of oe]) (use inv in auto)
  show "oe_id oe \<notin> oe_id ` set (raven_listing d w) \<Longrightarrow> raven_llt_entry_del hash d oe w = (- ENOENT, w)"
    using raven_find_None [OF inv, of "oe_id oe"] by (simp add: raven_llt_entry_del_def)
  show "oe_id oe \<in> oe_id ` set (raven_listing d w) \<Longrightarrow> fst (raven_llt_entry_del hash d oe w) = 0 \<and>
      (\<exists>x \<in> set (raven_listing d w). oe_id x = oe_id oe \<and>
        mset (raven_listing d (snd (raven_llt_entry_del hash d oe w))) = mset (raven_listing d w) - {#x#})"
    by (rule raven_del_cases [OF inv, of oe]) auto
  show "raven_llt_entry_dump d i w = (if i < length (raven_listing d w) then (Some (raven_listing d w ! i), Suc i)
      else (None, Suc (length (raven_listing d w))))" for i
    by (simp add: raven_llt_entry_dump_def raven_listing_def dump_buckets_spec)
qed

section \<open>A configured device\<close>

definition raven_blank :: raven_dev where
  "raven_blank = raven_setup \<lparr>rd_vdev = None, rd_pdev = None, rd_table = [], rd_ou = zero_udp, rd_oc = zero_config,
     rd_mem = 8, tx_packets = 0, tx_bytes = 0, tx_errors = 0, rd_mtu = 1500, tstats = True\<rparr>"

definition raven_demo :: raven_world where
  "raven_demo = \<lparr>raven_priv = (\<lambda>d. raven_blank), dev_list = [1]\<rparr>"

definition low_hash :: "u64 \<Rightarrow> 8 word" where
  "low_hash k = ucast k"

lemma raven_demo_inv: "raven_inv low_hash d raven_demo"
  by (simp add: raven_inv_def raven_demo_def raven_blank_def raven_setup_def)

definition raven_entry :: "u32 \<Rightarrow> madcap_obj_entry" where
  "raven_entry dst = \<lparr>oe_obj = \<lparr>obj_id = 2, tb_id = 0\<rparr>, oe_id = 5, oe_dst = dst\<rparr>"

section \<open>Properties\<close>

text \<open>\<^verbatim>\<open>raven\<close> accepts an identifier it already has: the newest entry answers lookups,
  and deleting the identifier takes exactly that entry out again, so that the table is what
  it was before.\<close>

lemma raven_add_shadows:
  assumes inv: "raven_inv hash d w" and add: "raven_llt_entry_add hash d oe w = (0, w')"
  shows "raven_table_find hash (raven_priv w' d) (oe_id oe) = Some oe \<and>
    (\<exists>w''. raven_llt_entry_del hash d oe w' = (0, w'') \<and> rd_table (raven_priv w'' d) = rd_table (raven_priv w d) \<and>
      rd_mem (raven_priv w'' d) = rd_mem (raven_priv w d))"
proof -
  let ?rd = "raven_priv w d" and ?n = "raven_table_head hash (oe_id oe)"
  have mem: "rd_mem ?rd \<noteq> 0"
    and w': "w' = put_raven w d (?rd\<lparr>rd_table := (rd_table ?rd)[?n := oe # rd_table ?rd ! ?n], rd_mem := rd_mem ?rd - 1\<rparr>)"
    using add by (auto simp: raven_llt_entry_add_def raven_table_add_def Let_def split: if_splits)
  have n: "?n < length (rd_table ?rd)" using inv by (simp add: raven_inv_def buckets_ok_def raven_table_head_def)
  have find: "raven_table_find hash (raven_priv w' d) (oe_id oe) = Some oe"
    using n by (simp add: w' raven_table_find_def)
  have "rd_table (raven_table_delete hash (raven_priv w' d) (oe_id oe)) = rd_table ?rd"
    "rd_mem (raven_table_delete hash (raven_priv w' d) (oe_id oe)) = rd_mem ?rd"
    using n mem by (simp_all add: w' raven_table_delete_def Let_def)
  with find show ?thesis by (simp add: raven_llt_entry_del_def)
qed

lemma raven_add_shadows_witness:
  "\<exists>w'. raven_llt_entry_add low_hash 1 (raven_entry 9) raven_demo = (0, w') \<and>
    raven_table_find low_hash (raven_priv w' 1) 5 = Some (raven_entry 9)"
proof -
  have "\<exists>w'. raven_llt_entry_add low_hash 1 (raven_entry 9) raven_demo = (0, w')"
    by (simp add: raven_llt_entry_add_def raven_table_add_def raven_demo_def raven_blank_def raven_setup_def Let_def)
  then obtain w' where w': "raven_llt_entry_add low_hash 1 (raven_entry 9) raven_demo = (0, w')" by blast
  with raven_add_shadows [OF raven_demo_inv w'] show ?thesis by (simp add: raven_entry_def)
qed

lemma enc_config_eq_iff: "enc_config x = enc_config y \<longleftrightarrow> x = y"
  by (metis dec_enc_config)

text \<open>A new configuration (any field differs) empties the locator table and is
  stored; the configuration in force changes nothing. Either way the configuration read back
  is the one given.\<close>

lemma raven_reconfigures:
  "fst (raven_llt_cfg d oc w) = 0 \<and> raven_llt_config_get d (snd (raven_llt_cfg d oc w)) = Some oc \<and>
   raven_listing d (snd (raven_llt_cfg d oc w)) = (if oc = rd_oc (raven_priv w d) then raven_listing d w else [])"
proof (cases "oc = rd_oc (raven_priv w d)")
  case True
  then show ?thesis by (simp add: raven_llt_cfg_def raven_llt_config_get_def)
next
  case False
  have e: "concat (map (\<lambda>b. []) bs) = ([] :: 'x list)" for bs :: "'y list" by (induction bs) auto
  show ?thesis using False
    by (simp add: raven_llt_cfg_def raven_llt_config_get_def enc_config_eq_iff Let_def raven_listing_def raven_table_destroy_def e)
qed

text \<open>A \<^verbatim>\<open>raven\<close> device is acquired by one device at a time: an acquisition succeeds
  exactly when nobody holds it, and only the holder can release it.\<close>

lemma raven_acquired_once:
  "fst (raven_acquire_dev d v w) = (if rd_vdev (raven_priv w d) = None then 0 else - EINVAL) \<and>
   fst (raven_release_dev d v w) = (if rd_vdev (raven_priv w d) = Some v then 0 else - EINVAL) \<and>
   rd_vdev (raven_priv (snd (raven_acquire_dev d v w)) d) =
     (case rd_vdev (raven_priv w d) of None \<Rightarrow> Some v | Some u \<Rightarrow> Some u) \<and>
   rd_vdev (raven_priv (snd (raven_release_dev d v w)) d) =
     (if rd_vdev (raven_priv w d) = Some v then None else rd_vdev (raven_priv w d))"
  by (auto simp: raven_acquire_dev_def raven_release_dev_def Let_def split: option.splits)

text \<open>The locator entry of a packet, its own or the default one, and the route that stays referenced
  for ever: that of a packet with an entry and a route, when there is no head room.\<close>

definition raven_locator :: "raven_env \<Rightarrow> raven_dev \<Rightarrow> u8 list \<Rightarrow> madcap_obj_entry option" where
  "raven_locator env rd pkt = do {
     i \<leftarrow> raven_extract_id pkt (rd_oc rd);
     (if raven_table_find (rv_hash env) rd i = None then raven_table_find (rv_hash env) rd 0
      else raven_table_find (rv_hash env) rd i) }"

definition raven_headroom :: "raven_dev \<Rightarrow> nat" where
  "raven_headroom rd = (if encap_enable (rd_ou rd) \<noteq> 0 then 50 else 34)"

definition route_lost :: "raven_env \<Rightarrow> raven_dev \<Rightarrow> u8 list \<Rightarrow> addr \<Rightarrow> bool" where
  "route_lost env rd pkt irt \<longleftrightarrow> \<not> drop_mode env \<and> cow_head env (raven_headroom rd) \<noteq> 0 \<and>
     (\<exists>oe. raven_locator env rd pkt = Some oe \<and> route env (oe_dst oe) (oc_src (rd_oc rd)) = Some irt)"

lemma raven_xmit_entry:
  assumes "\<not> drop_mode env" "raven_extract_id pkt (rd_oc rd) \<noteq> None"
  shows "raven_xmit env rd pkt = Some (case raven_locator env rd pkt of
    None \<Rightarrow> (0, Held, tx_err rd, []) | Some oe \<Rightarrow> raven_tunnel env rd oe pkt)"
  using assms by (auto simp: raven_xmit_def raven_locator_def split: option.splits)

lemma raven_extract_some: "unat (oc_offset oc) + 8 \<le> length pkt \<Longrightarrow> raven_extract_id pkt oc \<noteq> None"
  by (simp add: raven_extract_id_def read_bytes_def)

lemma raven_tunnel_cases:
  assumes run: "raven_tunnel env rd oe pkt = (rc, fate, rd', refs)"
  shows "rc = 0 \<or> rc = - ENOMEM \<and> fate = Freed \<and> rd' = rd"
    "rc = 0 \<Longrightarrow> tx_packets rd' = tx_packets rd + 1 \<and> tx_errors rd' = tx_errors rd \<or>
       tx_packets rd' = tx_packets rd \<and> tx_errors rd' = tx_errors rd + 1 \<and> fate \<noteq> Freed"
    "fate \<noteq> Held" "length refs \<le> 1" "refs \<noteq> [] \<Longrightarrow> rc = - ENOMEM"
    "irt \<in> set refs \<longleftrightarrow> cow_head env (raven_headroom rd) \<noteq> 0 \<and> route env (oe_dst oe) (oc_src (rd_oc rd)) = Some irt"
  using run
  by (auto simp: raven_tunnel_def Let_def tx_err_def count_tx_def raven_headroom_def split: option.splits if_splits)

lemma no_drop_entry:
  assumes "\<not> drop_mode env" "raven_extract_id pkt (rd_oc rd) \<noteq> None"
  shows "raven_locator env rd pkt = None \<longleftrightarrow> (\<exists>i. raven_extract_id pkt (rd_oc rd) = Some i \<and>
    raven_table_find (rv_hash env) rd i = None \<and> raven_table_find (rv_hash env) rd 0 = None)"
  using assms by (auto simp: raven_locator_def split: if_splits)

text \<open>Property C37: \<^verbatim>\<open>raven_xmit\<close> returns for every packet that covers the identifier field (or in drop
  mode), and counts the packet as sent or as an error, once, or refuses it with \<^verbatim>\<open>-ENOMEM\<close> and frees
  it. But a packet without a locator entry is only counted as an error: the driver returns success
  and keeps the packet, which nothing frees. And exactly when a packet has an entry and a route but
  \<^verbatim>\<open>skb_cow_head\<close> fails for the head room of the headers, the packet is refused and the reference to
  that route is lost; no other case loses one.\<close>

theorem raven_xmit_accounting:
  assumes len: "drop_mode env \<or> unat (oc_offset (rd_oc rd)) + 8 \<le> length pkt"
  shows "\<exists>rc fate rd' refs. raven_xmit env rd pkt = Some (rc, fate, rd', refs) \<and>
    (rc = 0 \<or> rc = - ENOMEM \<and> fate = Freed \<and> rd' = rd) \<and>
    (rc = 0 \<longrightarrow> (tx_packets rd' = tx_packets rd + 1 \<and> tx_errors rd' = tx_errors rd \<and> fate \<noteq> Held) \<or>
       (tx_packets rd' = tx_packets rd \<and> tx_errors rd' = tx_errors rd + 1 \<and> fate \<noteq> Freed)) \<and>
    (fate = Held \<longleftrightarrow> \<not> drop_mode env \<and> (\<exists>i. raven_extract_id pkt (rd_oc rd) = Some i \<and>
       raven_table_find (rv_hash env) rd i = None \<and> raven_table_find (rv_hash env) rd 0 = None)) \<and>
    length refs \<le> 1 \<and> (\<forall>irt. irt \<in> set refs \<longleftrightarrow> route_lost env rd pkt irt) \<and> (refs \<noteq> [] \<longrightarrow> rc = - ENOMEM)"
proof (cases "drop_mode env")
  case True
  then show ?thesis by (simp add: raven_xmit_def count_tx_def route_lost_def)
next
  case False
  with len have i: "raven_extract_id pkt (rd_oc rd) \<noteq> None" using raven_extract_some by blast
  show ?thesis
  proof (cases "raven_locator env rd pkt")
    case None
    with no_drop_entry [OF False i] False show ?thesis
      by (simp add: raven_xmit_entry [OF False i] tx_err_def route_lost_def)
  next
    case (Some oe)
    obtain rc fate rd' refs where t: "raven_tunnel env rd oe pkt = (rc, fate, rd', refs)" by (metis prod_cases4)
    have run: "raven_xmit env rd pkt = Some (rc, fate, rd', refs)" using Some t by (simp add: raven_xmit_entry [OF False i])
    have lost: "irt \<in> set refs \<longleftrightarrow> route_lost env rd pkt irt" for irt
      using raven_tunnel_cases(6) [OF t, of irt] Some False by (simp add: route_lost_def)
    have held: "\<not> (\<exists>i. raven_extract_id pkt (rd_oc rd) = Some i \<and>
        raven_table_find (rv_hash env) rd i = None \<and> raven_table_find (rv_hash env) rd 0 = None)"
      using no_drop_entry [OF False i] Some by simp
    show ?thesis
      using run raven_tunnel_cases(1-5) [OF t] lost held by (intro exI [of _ rc] exI [of _ fate] exI [of _ rd'] exI [of _ refs]) blast
  qed
qed

text \<open>A device without entries keeps the packet; one with a default entry, a route and no head room
  refuses it and loses the route.\<close>

definition raven_env0 :: raven_env where
  "raven_env0 = \<lparr>rv_hash = low_hash, drop_mode = False, rv_madcap_enable = False, route = (\<lambda>dst src. Some 1),
     cow_head = (\<lambda>n. 0), tunnel_rc = 0, len_after = 60\<rparr>"

abbreviation default_entry :: madcap_obj_entry where
  "default_entry \<equiv> \<lparr>oe_obj = \<lparr>obj_id = MADCAP_OBJ_ID_LLT_ENTRY, tb_id = 0\<rparr>, oe_id = 0, oe_dst = 0x0900000A\<rparr>"

definition raven_default :: raven_dev where
  "raven_default = raven_blank\<lparr>rd_table := (rd_table raven_blank)[0 := [default_entry]]\<rparr>"

lemma raven_default_find: "raven_table_find low_hash raven_default i = (if i = 0 then Some default_entry else None)"
proof -
  have "rd_table raven_default ! raven_table_head low_hash i = (if low_hash i = 0 then [default_entry] else [])"
    by (simp add: raven_default_def raven_blank_def raven_setup_def raven_table_head_def nth_list_update unat_eq_0)
  then show ?thesis by (simp add: raven_table_find_def low_hash_def)
qed

theorem raven_xmit_accounting_witness:
  "(\<exists>rc rd' refs. raven_xmit raven_env0 raven_blank (replicate 60 0) = Some (rc, Held, rd', refs) \<and> (rc = 0 \<or> rd' = raven_blank)) \<and>
   (\<exists>fate rd' refs. raven_xmit (raven_env0\<lparr>cow_head := (\<lambda>n. - ENOMEM)\<rparr>) raven_default (replicate 60 0) =
      Some (- ENOMEM, fate, rd', refs) \<and> set refs = {1})"
proof
  have z: "replicate (RAVEN_HASH_SIZE) [] ! unat (low_hash i) = ([] :: madcap_obj_entry list)" for i by simp
  have f: "raven_table_find (rv_hash raven_env0) raven_blank i = None" for i
    by (simp add: raven_table_find_def raven_env0_def raven_blank_def raven_setup_def raven_table_head_def z)
  have o: "oc_offset (rd_oc raven_blank) = 0"
    by (simp add: raven_blank_def raven_setup_def zero_config_def dec_config_def field_def numeral_2_eq_2)
  then have e: "raven_extract_id (replicate 60 0) (rd_oc raven_blank) \<noteq> None" by (simp add: raven_extract_id_def read_bytes_def)
  have d: "\<not> drop_mode raven_env0" by (simp add: raven_env0_def)
  have "drop_mode raven_env0 \<or> unat (oc_offset (rd_oc raven_blank)) + 8 \<le> length (replicate 60 (0 :: u8))" using o by simp
  from raven_xmit_accounting [OF this] f e d
  show "\<exists>rc rd' refs. raven_xmit raven_env0 raven_blank (replicate 60 0) = Some (rc, Held, rd', refs) \<and> (rc = 0 \<or> rd' = raven_blank)"
    by (metis not_None_eq)
  let ?env = "raven_env0\<lparr>cow_head := (\<lambda>n. - ENOMEM)\<rparr>"
  have o': "drop_mode ?env \<or> unat (oc_offset (rd_oc raven_default)) + 8 \<le> length (replicate 60 (0 :: u8))"
    using o by (simp add: raven_default_def)
  then have "raven_extract_id (replicate 60 0) (rd_oc raven_default) \<noteq> None" using d raven_extract_some by simp
  then have "raven_locator ?env raven_default (replicate 60 0) = Some default_entry"
    using raven_default_find by (auto simp: raven_locator_def raven_env0_def)
  then have l: "route_lost ?env raven_default (replicate 60 0) irt \<longleftrightarrow> irt = 1" for irt
    by (auto simp: route_lost_def raven_env0_def)
  show "\<exists>fate rd' refs. raven_xmit ?env raven_default (replicate 60 0) = Some (- ENOMEM, fate, rd', refs) \<and> set refs = {1}"
    using raven_xmit_accounting [OF o'] unfolding l by (metis set_eqI singleton_iff set_empty insert_not_empty)
qed

lemma snprintf_full: "length s \<le> n - 1 \<Longrightarrow> snprintf n s = s"
  by (simp add: snprintf_def)

lemma unknown_fits: "length (''unknown-ovbench-type '' @ dec (unat (t :: u8)) @ [CHR 0x0A]) \<le> 25"
proof -
  have "unat t < 10 ^ Suc 2" by (rule less_le_trans [OF hash_bound]) simp
  from dec_length [OF this] show ?thesis by simp
qed

text \<open>Property C38: a read of the proc file returns the whole report: in software mode always, in
  madcap mode whenever the intervals have at most 14 digits, the text fits the buffer it is
  printed into. Every second read reports the end of the file.\<close>

theorem raven_report_complete:
  assumes "proc_red st \<or> \<not> rv_madcap_enable env \<or> (\<forall>s e. unat (ts (ov_ts (ov_last st) s) (ov_ts (ov_last st) e)) < 10 ^ 14)"
  shows "raven_proc_read env types True bufsz st =
    (if proc_red st then (0, [], st\<lparr>proc_red := False\<rparr>)
     else let txt = (case types (ov_type (ov_last st)) of
             Some t \<Rightarrow> print_report (ov_ts (ov_last st)) (if rv_madcap_enable env then report_enabled t else report_disabled t)
           | None \<Rightarrow> ''unknown-ovbench-type '' @ dec (unat (ov_type (ov_last st))) @ [CHR 0x0A]) in
       (int (length txt), txt, st\<lparr>proc_red := True\<rparr>))"
proof (cases "proc_red st")
  case True
  then show ?thesis
    by (simp add: raven_proc_read_def raven_proc_read_madcap_enabled_def raven_proc_read_madcap_disabled_def proc_read_def)
next
  case False
  let ?ts = "ov_ts (ov_last st)"
  have d: "length (print_report ?ts (report_disabled t)) \<le> 511" for t
    using print_report_length [of ?ts 19 "report_disabled t"] unat_u64_digits report_bounds(1) [of t]
    by (simp del: report_disabled.simps)
  have e: "length (print_report ?ts (report_enabled t)) \<le> 255" if "rv_madcap_enable env" for t
    using print_report_length [of ?ts 13 "report_enabled t"] assms False that report_bounds(2) [of t]
    by (simp del: report_enabled.simps)
  have u: "length (''unknown-ovbench-type '' @ dec (unat (ov_type (ov_last st))) @ [CHR 0x0A]) \<le> 255"
      "length (''unknown-ovbench-type '' @ dec (unat (ov_type (ov_last st))) @ [CHR 0x0A]) \<le> 511"
    using unknown_fits [of "ov_type (ov_last st)"] by linarith+
  show ?thesis
    using False d e u snprintf_full [of _ 512] snprintf_full [of _ 256]
    by (simp add: raven_proc_read_def raven_proc_read_madcap_enabled_def raven_proc_read_madcap_disabled_def proc_read_def Let_def
        split: option.splits)
qed

text \<open>A packet of VXLAN handed to a madcap device, with the time of the device's transmit function the
  latest that the bound allows: two intervals of the report have 14 digits. The same in software mode.\<close>

fun demo_ts :: "ts_point \<Rightarrow> u64" where
  "demo_ts vxlan_xmit_in = 4200"
| "demo_ts vxlan_xmit_skb_in = 4300"
| "demo_ts dev_queue_xmit_in = 9999"
| "demo_ts raven_xmit_in = 99999999999999"
| "demo_ts _ = 0"

abbreviation demo_ov :: ov_state where
  "demo_ov \<equiv> \<lparr>ov_last = \<lparr>ov_type = 5, ov_encaped = 0, ov_ts = demo_ts\<rparr>, proc_red = False\<rparr>"

abbreviation demo_types :: "u8 \<Rightarrow> ovtype option" where
  "demo_types \<equiv> [5 \<mapsto> OVTYPE_VXLAN]"

lemma demo_ts_le: "demo_ts p \<le> 99999999999999"
  by (cases p) simp_all

lemma demo_digits: "unat (ts (demo_ts s) (demo_ts e)) < 10 ^ 14"
proof -
  have "ts (demo_ts s) (demo_ts e) \<le> demo_ts e" by (simp add: ts_def word_sub_le not_less)
  also have "\<dots> \<le> 99999999999999" by (rule demo_ts_le)
  finally show ?thesis by (simp add: word_le_nat_alt)
qed

lemma demo_numbers: "dec 4200 = ''4200''" "dec 5799 = ''5799''" "dec 5699 = ''5699''"
  "dec 99999999990000 = ''99999999990000''" "dec 99999999999999 = ''99999999999999''"
  by (simp_all add: dec.simps char_of_def bit_iff_odd)

theorem raven_report_complete_witness:
  "\<exists>txt. raven_proc_read (raven_env0\<lparr>rv_madcap_enable := True\<rparr>) demo_types True 4096 demo_ov = (189, txt, demo_ov\<lparr>proc_red := True\<rparr>) \<and>
    txt = ''encap:                 vxlan'' @ [CHR 0x0A] @
      ''inner-tx:              4200'' @ [CHR 0x0A] @
      ''protocol-path:         5799'' @ [CHR 0x0A] @
      ''build-vxlan:           5699'' @ [CHR 0x0A] @
      ''outer-tx:              99999999990000'' @ [CHR 0x0A] @
      ''total-tx:              99999999999999'' @ [CHR 0x0A]"
proof -
  have "proc_red demo_ov \<or> \<not> rv_madcap_enable (raven_env0\<lparr>rv_madcap_enable := True\<rparr>) \<or>
      (\<forall>s e. unat (ts (ov_ts (ov_last demo_ov) s) (ov_ts (ov_last demo_ov) e)) < 10 ^ 14)"
    using demo_digits by simp
  from raven_report_complete [OF this, of demo_types 4096] show ?thesis
    by (simp add: print_report_def ts_def demo_numbers raven_env0_def)
qed

section \<open>Links and the module\<close>

text \<open>A failing step of the module's start undoes the steps before it, and stopping the
  module undoes a complete start: nothing stays registered.\<close>

lemma raven_module_atomic:
  assumes m: "m = \<lparr>pernet_registered = False, link_registered = False, proc_created = False\<rparr>"
    and run: "raven_init_module pernet_rc link_rc ovbench proc_ok m = (rc, m')"
  shows "(rc = 0 \<longrightarrow> m' = \<lparr>pernet_registered = True, link_registered = True, proc_created = ovbench\<rparr>) \<and>
    (rc \<noteq> 0 \<longrightarrow> rc < 0 \<and> m' = m) \<and> (rc = 0 \<longrightarrow> raven_exit_module ovbench m' = m)"
  using run unfolding m by (auto simp: raven_init_module_def raven_exit_module_def Let_def split: if_splits)

end
