(* ===== verification/Ipmadcap.thy ===== *)
theory Ipmadcap
  imports Madcap_Contract
begin

text \<open>
  \<^verbatim>\<open>iproute2-4.4.0/ip/ipmadcap.c\<close>: the user-space tool \<^verbatim>\<open>ip madcap\<close>. It parses its arguments, builds a
  netlink request for the madcap core, and prints the objects of a dump.

  Names of devices, numbers and addresses are parsed and printed by the C library and
  \<^verbatim>\<open>iproute2\<close>'s utilities: the fields of \<open>cli_env\<close>. The kernel is a parameter: \<open>talk\<close> performs one
  request (\<^verbatim>\<open>rtnl_talk\<close>) on a state \<open>'k\<close>, \<open>dump\<close> returns the messages of a dump. \<open>Exit\<close> is the end of the
  process, \<open>Done\<close> the return of the command; text on standard error is not modelled.
\<close>

section \<open>Arguments\<close>

record madcap_param =
  p_ifindex :: u32
  p_offset :: u16
  p_length :: u16
  p_proto :: u8
  p_id :: u64
  p_dst :: u32
  p_src :: u32
  p_udp :: bool
  p_enable :: bool
  p_disable :: bool
  p_src_port_hash :: bool
  p_dst_port :: u16
  p_src_port :: u16
  p_config :: bool
  p_f_offset :: bool
  p_f_length :: bool

definition no_param :: madcap_param where
  "no_param = \<lparr>p_ifindex = 0, p_offset = 0, p_length = 0, p_proto = 0, p_id = 0, p_dst = 0, p_src = 0, p_udp = False,
     p_enable = False, p_disable = False, p_src_port_hash = False, p_dst_port = 0, p_src_port = 0, p_config = False,
     p_f_offset = False, p_f_length = False\<rparr>"

record cli_env =
  if_nametoindex :: "string \<Rightarrow> u32"
  if_indextoname :: "u32 \<Rightarrow> string"
  get_u8 :: "string \<Rightarrow> u8 option"
  get_u16 :: "string \<Rightarrow> u16 option"
  get_u64 :: "string \<Rightarrow> u64 option"
  inet_pton :: "string \<Rightarrow> u32 option"
  inet_ntop :: "u32 \<Rightarrow> string"

abbreviation (input) IPPROTO_UDP :: u8 where "IPPROTO_UDP \<equiv> 17"
abbreviation (input) IPPROTO_IPIP :: u8 where "IPPROTO_IPIP \<equiv> 4"
abbreviation (input) IPPROTO_GRE :: u8 where "IPPROTO_GRE \<equiv> 47"

text \<open>The options without and with a value. A word that is no option is skipped.\<close>

definition flag_opt :: "string \<Rightarrow> madcap_param \<Rightarrow> madcap_param" where
  "flag_opt arg p =
     (if arg = ''udp'' then p\<lparr>p_udp := True\<rparr>
      else if arg = ''enable'' then p\<lparr>p_enable := True\<rparr>
      else if arg = ''disable'' then p\<lparr>p_disable := True\<rparr>
      else if arg = ''config'' then p\<lparr>p_config := True\<rparr>
      else p)"

definition takes_value :: "string \<Rightarrow> bool" where
  "takes_value arg \<longleftrightarrow> arg \<in> {''dev'', ''offset'', ''length'', ''proto'', ''id'', ''dst'', ''src'', ''src-port'', ''dst-port''}"

definition value_opt :: "cli_env \<Rightarrow> string \<Rightarrow> string \<Rightarrow> madcap_param \<Rightarrow> madcap_param option" where
  "value_opt env arg v p =
     (if arg = ''dev'' then
        (if if_nametoindex env v = 0 then None else Some (p\<lparr>p_ifindex := if_nametoindex env v\<rparr>))
      else if arg = ''offset'' then
        map_option (\<lambda>x. p\<lparr>p_offset := x, p_f_offset := True\<rparr>) (get_u16 env v)
      else if arg = ''length'' then
        map_option (\<lambda>x. p\<lparr>p_length := x, p_f_length := True\<rparr>) (get_u16 env v)
      else if arg = ''proto'' then
        (if v = ''udp'' then Some (p\<lparr>p_proto := IPPROTO_UDP\<rparr>)
         else if v = ''ipip'' then Some (p\<lparr>p_proto := IPPROTO_IPIP\<rparr>)
         else if v = ''gre'' then Some (p\<lparr>p_proto := IPPROTO_GRE\<rparr>)
         else map_option (\<lambda>x. p\<lparr>p_proto := x\<rparr>) (get_u8 env v))
      else if arg = ''id'' then map_option (\<lambda>x. p\<lparr>p_id := x\<rparr>) (get_u64 env v)
      else if arg = ''dst'' then map_option (\<lambda>x. p\<lparr>p_dst := x\<rparr>) (inet_pton env v)
      else if arg = ''src'' then map_option (\<lambda>x. p\<lparr>p_src := x\<rparr>) (inet_pton env v)
      else if arg = ''src-port'' then
        (if v = ''hash'' then Some (p\<lparr>p_src_port_hash := True\<rparr>)
         else map_option (\<lambda>x. p\<lparr>p_src_port := x\<rparr>) (get_u16 env v))
      else map_option (\<lambda>x. p\<lparr>p_dst_port := x\<rparr>) (get_u16 env v))"

text \<open>\<open>None\<close>: the process ends, because a value is missing or does not parse.\<close>

fun parse_loop :: "cli_env \<Rightarrow> string list \<Rightarrow> madcap_param \<Rightarrow> madcap_param option" where
  "parse_loop env [] p = Some p"
| "parse_loop env [arg] p = (if takes_value arg then None else Some (flag_opt arg p))"
| "parse_loop env (arg # v # rest) p =
     (if takes_value arg then do { p \<leftarrow> value_opt env arg v p; parse_loop env rest p }
      else parse_loop env (v # rest) (flag_opt arg p))"

definition parse_args :: "cli_env \<Rightarrow> string list \<Rightarrow> madcap_param option" where
  "parse_args env argv = parse_loop env argv no_param"

section \<open>Requests\<close>

datatype outcome = Exit int | Done int


type_synonym 'k talk = "nat \<Rightarrow> genl_attrs \<Rightarrow> 'k \<Rightarrow> int \<times> 'k"

abbreviation no_attrs :: genl_attrs where
  "no_attrs \<equiv> \<lparr>at_ifindex = None, at_config = None, at_entry = None, at_udp = None\<rparr>"

definition rtnl_talk :: "'k talk \<Rightarrow> nat \<Rightarrow> genl_attrs \<Rightarrow> 'k \<Rightarrow> outcome \<times> 'k" where
  "rtnl_talk talk cmd at k = (let (rc, k) = talk cmd at k in if rc < 0 then (Done (- 2), k) else (Done 0, k))"

definition entry_of :: "madcap_param \<Rightarrow> madcap_obj_entry" where
  "entry_of p = \<lparr>oe_obj = \<lparr>obj_id = MADCAP_OBJ_ID_LLT_ENTRY, tb_id = 0\<rparr>, oe_id = p_id p, oe_dst = p_dst p\<rparr>"

definition do_add :: "cli_env \<Rightarrow> 'k talk \<Rightarrow> string list \<Rightarrow> 'k \<Rightarrow> outcome \<times> 'k" where
  "do_add env talk argv k =
     (case parse_args env argv of
        None \<Rightarrow> (Exit (- 1), k)
      | Some p \<Rightarrow>
          if p_id p = 0 \<and> p_dst p = 0 \<or> p_ifindex p = 0 then (Exit (- 1), k)
          else rtnl_talk talk MADCAP_CMD_LLT_ENTRY_ADD
            (no_attrs\<lparr>at_ifindex := Some (p_ifindex p), at_entry := Some (enc_entry (entry_of p))\<rparr>) k)"

definition do_del :: "cli_env \<Rightarrow> 'k talk \<Rightarrow> string list \<Rightarrow> 'k \<Rightarrow> outcome \<times> 'k" where
  "do_del env talk argv k =
     (case parse_args env argv of
        None \<Rightarrow> (Exit (- 1), k)
      | Some p \<Rightarrow>
          if p_id p = 0 \<and> p_dst p = 0 \<or> p_ifindex p = 0 then (Exit (- 1), k)
          else rtnl_talk talk MADCAP_CMD_LLT_ENTRY_DEL
            (no_attrs\<lparr>at_ifindex := Some (p_ifindex p), at_entry := Some (enc_entry (entry_of p))\<rparr>) k)"

definition udp_of :: "madcap_param \<Rightarrow> madcap_obj_udp" where
  "udp_of p = \<lparr>ou_obj = \<lparr>obj_id = MADCAP_OBJ_ID_UDP, tb_id = 0\<rparr>,
     encap_enable = (if p_disable p then 0 else if p_enable p then 1 else 0),
     src_hash_enable = (if p_src_port_hash p then 1 else 0),
     dst_port = (if p_dst_port p \<noteq> 0 then htons (p_dst_port p) else 0),
     src_port = (if p_src_port p \<noteq> 0 then htons (p_src_port p) else 0)\<rparr>"

definition do_set_udp :: "'k talk \<Rightarrow> madcap_param \<Rightarrow> 'k \<Rightarrow> outcome \<times> 'k" where
  "do_set_udp talk p k =
     (if p_ifindex p = 0 then (Exit (- 1), k)
      else rtnl_talk talk MADCAP_CMD_UDP_CONFIG
        (no_attrs\<lparr>at_ifindex := Some (p_ifindex p), at_udp := Some (enc_udp (udp_of p))\<rparr>) k)"

definition config_of :: "madcap_param \<Rightarrow> madcap_obj_config" where
  "config_of p = \<lparr>oc_obj = \<lparr>obj_id = MADCAP_OBJ_ID_LLT_CONFIG, tb_id = 0\<rparr>, oc_offset = p_offset p, oc_length = p_length p,
     oc_proto = p_proto p, oc_src = p_src p\<rparr>"

definition do_set :: "cli_env \<Rightarrow> 'k talk \<Rightarrow> string list \<Rightarrow> 'k \<Rightarrow> outcome \<times> 'k" where
  "do_set env talk argv k =
     (case parse_args env argv of
        None \<Rightarrow> (Exit (- 1), k)
      | Some p \<Rightarrow>
          if p_udp p then do_set_udp talk p k
          else if p_ifindex p = 0 then (Exit (- 1), k)
          else if p_f_offset p \<and> p_f_length p then
            rtnl_talk talk MADCAP_CMD_LLT_CONFIG
              (no_attrs\<lparr>at_ifindex := Some (p_ifindex p), at_config := Some (enc_config (config_of p))\<rparr>) k
          else (Exit (- 1), k))"

section \<open>Dumps\<close>

text \<open>A message as the tool parses it: the bytes of the object's attribute and the index. The line
  printed, or \<open>None\<close> when the filter returns -1.\<close>

record dump_msg =
  dm_attr :: nat
  dm_bytes :: "u8 list"
  dm_ifindex :: "u32 option"

definition obj_entry_nlmsg :: "cli_env \<Rightarrow> dump_msg \<Rightarrow> string option" where
  "obj_entry_nlmsg env m =
     (if dm_attr m \<noteq> MADCAP_ATTR_OBJ_ENTRY then None
      else (case dm_ifindex m of
        None \<Rightarrow> None
      | Some i \<Rightarrow>
          let oe = dec_entry (dm_bytes m) in
          Some (''dev '' @ if_indextoname env i @ '' id '' @ dec (unat (oe_id oe)) @ '' dst '' @ inet_ntop env (oe_dst oe) @ [CHR 0x0A])))"

definition obj_config_nlmsg :: "cli_env \<Rightarrow> dump_msg \<Rightarrow> string option" where
  "obj_config_nlmsg env m =
     (if dm_attr m \<noteq> MADCAP_ATTR_OBJ_CONFIG then None
      else (case dm_ifindex m of
        None \<Rightarrow> None
      | Some i \<Rightarrow>
          let oc = dec_config (dm_bytes m) in
          Some (''dev '' @ if_indextoname env i @ '' offset '' @ dec (unat (oc_offset oc)) @ '' length '' @ dec (unat (oc_length oc)) @
            '' proto '' @ dec (unat (oc_proto oc)) @ '' src '' @ inet_ntop env (oc_src oc) @ [CHR 0x0A])))"

definition obj_udp_nlmsg :: "cli_env \<Rightarrow> dump_msg \<Rightarrow> string option" where
  "obj_udp_nlmsg env m =
     (if dm_attr m \<noteq> MADCAP_ATTR_OBJ_UDP then None
      else (case dm_ifindex m of
        None \<Rightarrow> None
      | Some i \<Rightarrow>
          let ou = dec_udp (dm_bytes m) in
          Some (if encap_enable ou = 0 then ''dev '' @ if_indextoname env i @ '' udp disable'' @ [CHR 0x0A]
            else ''dev '' @ if_indextoname env i @ '' udp enable dst-port '' @ dec (unat (htons (dst_port ou))) @
              '' src-port '' @ (if src_hash_enable ou \<noteq> 0 then ''hash'' else dec (unat (htons (src_port ou)))) @ [CHR 0x0A])))"

text \<open>\<^verbatim>\<open>rtnl_dump_filter\<close>: the lines printed, and whether the filter accepted every message.\<close>

fun dump_filter :: "(dump_msg \<Rightarrow> string option) \<Rightarrow> dump_msg list \<Rightarrow> string list \<times> bool" where
  "dump_filter f [] = ([], True)"
| "dump_filter f (m # rest) =
     (case f m of None \<Rightarrow> ([], False) | Some ln \<Rightarrow> (case dump_filter f rest of (lns, ok) \<Rightarrow> (ln # lns, ok)))"

text \<open>\<open>dump\<close> returns \<open>None\<close> when the request cannot be sent. With no device the whole table is asked for.\<close>

definition show_dump ::
  "(nat \<Rightarrow> genl_attrs \<Rightarrow> 'k \<Rightarrow> dump_msg list option) \<Rightarrow> nat \<Rightarrow> (dump_msg \<Rightarrow> string option) \<Rightarrow> madcap_param \<Rightarrow> 'k
     \<Rightarrow> outcome \<times> string list" where
  "show_dump dump cmd f p k =
     (case dump cmd (no_attrs\<lparr>at_ifindex := (if p_ifindex p \<noteq> 0 then Some (p_ifindex p) else None)\<rparr>) k of
        None \<Rightarrow> (Done (- 2), [])
      | Some msgs \<Rightarrow> (case dump_filter f msgs of (lns, ok) \<Rightarrow> if ok then (Done 0, lns) else (Exit 1, lns)))"

definition do_show_config where
  "do_show_config env dump p k = show_dump dump MADCAP_CMD_LLT_CONFIG_GET (obj_config_nlmsg env) p k"

definition do_show_udp where
  "do_show_udp env dump p k = show_dump dump MADCAP_CMD_UDP_CONFIG_GET (obj_udp_nlmsg env) p k"

definition do_show ::
  "cli_env \<Rightarrow> (nat \<Rightarrow> genl_attrs \<Rightarrow> 'k \<Rightarrow> dump_msg list option) \<Rightarrow> string list \<Rightarrow> 'k \<Rightarrow> outcome \<times> string list" where
  "do_show env dump argv k =
     (case parse_args env argv of
        None \<Rightarrow> (Exit (- 1), [])
      | Some p \<Rightarrow>
          if p_config p then do_show_config env dump p k
          else if p_udp p then do_show_udp env dump p k
          else show_dump dump MADCAP_CMD_LLT_ENTRY_GET (obj_entry_nlmsg env) p k)"

text \<open>\<^verbatim>\<open>matches (cmd, pattern) == 0\<close>: the command is a prefix of the pattern.\<close>

definition cmd_matches :: "string \<Rightarrow> string \<Rightarrow> bool" where
  "cmd_matches cmd pattern \<longleftrightarrow> length cmd \<le> length pattern \<and> take (length cmd) pattern = cmd"

text \<open>\<open>family\<close>: the netlink family is known or can be resolved.\<close>

definition do_ipmadcap ::
  "cli_env \<Rightarrow> bool \<Rightarrow> 'k talk \<Rightarrow> (nat \<Rightarrow> genl_attrs \<Rightarrow> 'k \<Rightarrow> dump_msg list option) \<Rightarrow> string list \<Rightarrow> 'k
     \<Rightarrow> outcome \<times> string list \<times> 'k" where
  "do_ipmadcap env family talk dump argv k =
     (if \<not> family then (Exit 1, [], k)
      else (case argv of
        [] \<Rightarrow> (Exit (- 1), [], k)
      | cmd # args \<Rightarrow>
          if cmd_matches cmd ''add'' then (case do_add env talk args k of (r, k) \<Rightarrow> (r, [], k))
          else if cmd_matches cmd ''del'' \<or> cmd_matches cmd ''delete'' then (case do_del env talk args k of (r, k) \<Rightarrow> (r, [], k))
          else if cmd_matches cmd ''set'' then (case do_set env talk args k of (r, k) \<Rightarrow> (r, [], k))
          else if cmd_matches cmd ''show'' then (case do_show env dump args k of (r, lns) \<Rightarrow> (r, lns, k))
          else if cmd_matches cmd ''help'' then (Exit (- 1), [], k)
          else (Done (- 1), [], k)))"

end
