(* ===== verification/Madcap_Stack.thy ===== *)
theory Madcap_Stack
  imports Madcap_Props Sfmc_Table Raven_Props Ipmadcap
begin

text \<open>
  The composition a user sees: the command line of \<^verbatim>\<open>ip madcap\<close>, generic netlink, the madcap core
  and a driver. The kernel side of the tool's parameters \<open>talk\<close> and \<open>dump\<close> is built from the core's
  command table. The locale \<open>madcap_stack\<close> states what the tool shows of any driver that keeps the
  contract \<open>llt_driver\<close>; it is interpreted for the drivers of \<^verbatim>\<open>sfmc.c\<close> and \<^verbatim>\<open>raven.c\<close>.
\<close>

section \<open>Netlink\<close>

text \<open>Netlink calls a dump handler with an empty message as long as the handler returns a positive
  length. \<open>None\<close>: out of fuel, or the handler does not return.\<close>

fun netlink_dump ::
  "(nat \<Rightarrow> nat \<Rightarrow> nlskb \<Rightarrow> (int \<times> nat \<times> nat \<times> nlskb) option) \<Rightarrow> nat \<Rightarrow> nat \<Rightarrow> nat \<Rightarrow> genl_msg list option" where
  "netlink_dump h 0 args0 args1 = None"
| "netlink_dump h (Suc k) args0 args1 = do {
     (rc, a0, a1, skb) \<leftarrow> h args0 args1 empty_skb;
     if rc > 0 then do { rest \<leftarrow> netlink_dump h k a0 a1; Some (nl_msgs skb @ rest) }
     else Some (nl_msgs skb) }"

fun enc_any :: "any_obj \<Rightarrow> u8 list" where
  "enc_any (Config oc) = enc_config oc"
| "enc_any (Entry oe) = enc_entry oe"
| "enc_any (Udp ou) = enc_udp ou"

text \<open>The bytes of a message: as many as its length says, from the object and what follows it in the
  driver's memory.\<close>

definition wire_msg :: "u8 list \<Rightarrow> genl_msg \<Rightarrow> dump_msg" where
  "wire_msg beyond m = \<lparr>dm_attr = gm_attr m, dm_bytes = take (gm_len m) (enc_any (gm_obj m) @ beyond), dm_ifindex = gm_ifindex m\<rparr>"

definition kernel_dump ::
  "genl_env \<Rightarrow> nat \<Rightarrow> u8 list \<Rightarrow> 'w madcap_net \<Rightarrow> nat \<Rightarrow> genl_attrs \<Rightarrow> 'w \<Rightarrow> dump_msg list option" where
  "kernel_dump env fuel beyond net cmd at w =
     map_option (map (wire_msg beyond)) (netlink_dump (madcap_nl_dumpit env net cmd (Some at) w) fuel 0 0)"

lemma netlink_dump_entries:
  fixes env :: genl_env and net :: "'w madcap_net"
  assumes wf: "madnet_wf net" and room: "roomy env" and pos: "\<And>m. 0 < msg_bytes env m"
    and ds: "ds = dump_devs env (asked at) (slots net)"
    and T: "\<forall>d \<in> set ds. reads_table (\<lambda>d a. madcap_llt_entry_dump net d a w) T d"
    and ids: "\<forall>d \<in> set ds. \<forall>oe \<in> set (T d). obj_id (oe_obj oe) = MADCAP_OBJ_ID_LLT_ENTRY"
    and fuel: "length (left_over T (drop i ds) a0) < k"
  shows "netlink_dump (madcap_nl_dumpit env net MADCAP_CMD_LLT_ENTRY_GET (Some at) w) k a0 i =
    Some (map (entry_msg env) (left_over T (drop i ds) a0))"
  using fuel
proof (induction k arbitrary: a0 i)
  case (Suc k)
  obtain a' i' where step: "madcap_nl_cmd_llt_entry_dump env net (Some at) a0 i empty_skb w =
      (case left_over T (drop i ds) a0 of
         [] \<Rightarrow> Some (0, a', i', empty_skb)
       | x # xs \<Rightarrow> Some (int (msg_bytes env (entry_msg env x)), a', i',
           \<lparr>nl_len = msg_bytes env (entry_msg env x), nl_msgs = [entry_msg env x]\<rparr>))"
    "left_over T (drop i' ds) a' = tl (left_over T (drop i ds) a0)"
    using llt_dump_step [OF wf room ds T ids] by blast
  have h: "madcap_nl_dumpit env net MADCAP_CMD_LLT_ENTRY_GET (Some at) w a0 i empty_skb =
      madcap_nl_cmd_llt_entry_dump env net (Some at) a0 i empty_skb w"
    by (simp add: madcap_nl_dumpit_def)
  show ?case
  proof (cases "left_over T (drop i ds) a0")
    case Nil
    with step(1) show ?thesis by (simp add: h)
  next
    case (Cons x xs)
    with Suc step(2) have "netlink_dump (madcap_nl_dumpit env net MADCAP_CMD_LLT_ENTRY_GET (Some at) w) k a' i' =
        Some (map (entry_msg env) xs)" by simp
    with Cons step(1) pos show ?thesis by (simp add: h)
  qed
qed simp

text \<open>The devices a dump visits when it asks for one: that one, if it is registered and its index its own.\<close>

lemma dump_devs_none:
  "\<forall>n < length sl. fst (sl ! n) \<noteq> Some d \<Longrightarrow> \<forall>e. dev_ifindex env e = i \<longrightarrow> e = d \<Longrightarrow> i \<noteq> 0 \<Longrightarrow> dump_devs env i sl = []"
proof (induction sl)
  case (Cons x sl)
  obtain dp mc_ops where x: "x = (dp, mc_ops)" by (cases x)
  have "dp \<noteq> Some d" using Cons.prems(1) x by (metis fst_conv length_Cons nth_Cons_0 zero_less_Suc)
  moreover have "\<forall>n < length sl. fst (sl ! n) \<noteq> Some d" using Cons.prems(1) by (metis Suc_less_eq length_Cons nth_Cons_Suc)
  ultimately show ?case using Cons x by (auto split: option.split)
qed simp

lemma dump_devs_one:
  assumes "n < length sl" "sl ! n = (Some d, Some mc_ops)" "\<forall>m < length sl. fst (sl ! m) = Some d \<longrightarrow> m = n"
    and "dev_ifindex env d = i" "\<forall>e. dev_ifindex env e = i \<longrightarrow> e = d" "i \<noteq> 0"
  shows "dump_devs env i sl = [d]"
  using assms(1-3)
proof (induction sl arbitrary: n)
  case (Cons x sl)
  obtain dp oo where x: "x = (dp, oo)" by (cases x)
  show ?case
  proof (cases n)
    case 0
    have "\<forall>m < length sl. fst (sl ! m) \<noteq> Some d"
      using Cons.prems(3) 0 by (metis Suc_less_eq Zero_not_Suc length_Cons nth_Cons_Suc)
    then have "dump_devs env i sl = []" using dump_devs_none assms(5,6) by blast
    with 0 Cons.prems(2) x assms(4) show ?thesis by simp
  next
    case (Suc n')
    have "dp \<noteq> Some d" using Cons.prems(3) Suc x by (metis fst_conv length_Cons nth_Cons_0 nat.distinct(1) zero_less_Suc)
    moreover have "dump_devs env i sl = [d]"
    proof (rule Cons.IH)
      show "n' < length sl" "sl ! n' = (Some d, Some mc_ops)" using Cons.prems(1,2) Suc by simp_all
      show "\<forall>m < length sl. fst (sl ! m) = Some d \<longrightarrow> m = n'"
        using Cons.prems(3) Suc by (metis Suc_less_eq length_Cons nat.inject nth_Cons_Suc)
    qed
    ultimately show ?thesis using x assms(5,6) by (auto split: option.split)
  qed
qed simp

lemma dump_devs_registered:
  assumes wf: "madnet_wf net" and reg: "get_madcap_ops net d = Some mc_ops"
    and "dev_ifindex env d = i" "\<forall>e. dev_ifindex env e = i \<longrightarrow> e = d" "i \<noteq> 0"
  shows "dump_devs env i (slots net) = [d]"
proof -
  obtain n where n: "n < MADCAPDEV_PERNET_NUM" "net_dev net ! n = Some d" "net_ops net ! n = Some mc_ops"
    using get_madcap_ops_iff [OF wf] reg by blast
  have W: "length (net_ops net) = 16" "length (net_dev net) = 16" using madnet_wfD(1,2) [OF wf] .
  have uniq: "m = n" if "m < 16" "net_dev net ! m = Some d" for m
    by (rule madnet_wfD(3) [OF wf, unfolded slots_distinct_def, rule_format]) (simp_all add: W n that)
  have "\<forall>m < length (slots net). fst (slots net ! m) = Some d \<longrightarrow> m = n"
  proof (intro allI impI)
    fix m assume "m < length (slots net)" "fst (slots net ! m) = Some d"
    then show "m = n" using W by (intro uniq) simp_all
  qed
  moreover have "n < length (slots net)" "slots net ! n = (Some d, Some mc_ops)" using W n by simp_all
  ultimately show ?thesis using assms(3-5) by (intro dump_devs_one [of n _ _ mc_ops])
qed

section \<open>The tool on a driver\<close>

text \<open>A device with the index \<open>ifx\<close>, its own, whose driver's operations \<open>mc_ops\<close> are registered.\<close>

definition attached ::
  "genl_env \<Rightarrow> (nat \<Rightarrow> u8 list) \<Rightarrow> 'w madcap_net \<Rightarrow> 'w madcap_ops \<Rightarrow> u32 \<Rightarrow> addr \<Rightarrow> bool" where
  "attached env stk net mc_ops ifx d \<longleftrightarrow> madnet_wf net \<and> get_madcap_ops net d = Some mc_ops \<and>
     dev_get_by_index env ifx = Some d \<and> dev_ifindex env d = ifx \<and> (\<forall>e. dev_ifindex env e = ifx \<longrightarrow> e = d) \<and> ifx \<noteq> 0 \<and>
     roomy env \<and> (\<forall>m. 0 < msg_bytes env m) \<and> length (stk sizeof_entry) = sizeof_entry"

definition tagged :: "madcap_obj_entry list \<Rightarrow> bool" where
  "tagged oes \<longleftrightarrow> (\<forall>oe \<in> set oes. obj_id (oe_obj oe) = MADCAP_OBJ_ID_LLT_ENTRY)"

text \<open>The entry a command line describes, and the line \<^verbatim>\<open>show\<close> prints for an entry.\<close>

definition cli_entry :: "u64 \<Rightarrow> u32 \<Rightarrow> madcap_obj_entry" where
  "cli_entry i a = \<lparr>oe_obj = \<lparr>obj_id = MADCAP_OBJ_ID_LLT_ENTRY, tb_id = 0\<rparr>, oe_id = i, oe_dst = a\<rparr>"

definition entry_line :: "cli_env \<Rightarrow> u32 \<Rightarrow> madcap_obj_entry \<Rightarrow> string" where
  "entry_line cli ifx oe =
     ''dev '' @ if_indextoname cli ifx @ '' id '' @ dec (unat (oe_id oe)) @ '' dst '' @ inet_ntop cli (oe_dst oe) @ [CHR 0x0A]"

abbreviation ip_madcap ::
  "cli_env \<Rightarrow> genl_env \<Rightarrow> (nat \<Rightarrow> u8 list) \<Rightarrow> nat \<Rightarrow> u8 list \<Rightarrow> 'w madcap_net \<Rightarrow> string list \<Rightarrow> 'w \<Rightarrow> outcome \<times> string list \<times> 'w" where
  "ip_madcap cli env stk fuel beyond net \<equiv> do_ipmadcap cli True (madcap_nl_doit env stk net) (kernel_dump env fuel beyond net)"

abbreviation entry_args :: "string \<Rightarrow> string \<Rightarrow> string \<Rightarrow> string list" where
  "entry_args i a dev \<equiv> [''id'', i, ''dst'', a, ''dev'', dev]"

lemma parse_entry_args:
  assumes "get_u64 cli istr = Some i" "inet_pton cli astr = Some a" "if_nametoindex cli dev = ifx" "ifx \<noteq> 0"
  shows "parse_args cli (entry_args istr astr dev) = Some (no_param\<lparr>p_id := i, p_dst := a, p_ifindex := ifx\<rparr>)"
  using assms by (simp add: parse_args_def takes_value_def value_opt_def)

lemma parse_dev:
  assumes "if_nametoindex cli dev = ifx" "ifx \<noteq> 0"
  shows "parse_args cli [''dev'', dev] = Some (no_param\<lparr>p_ifindex := ifx\<rparr>)"
  using assms by (simp add: parse_args_def takes_value_def value_opt_def)

lemma show_line:
  assumes "dev_ifindex env d = ifx" "ifx \<noteq> 0"
  shows "obj_entry_nlmsg cli (wire_msg beyond (entry_msg env (oe, d))) = Some (entry_line cli ifx oe)"
  using assms by (simp add: obj_entry_nlmsg_def wire_msg_def entry_msg_def entry_line_def)

locale madcap_stack = llt_driver add_op del_op dump_op inv table
  for add_op :: "addr \<Rightarrow> madcap_obj_entry \<Rightarrow> 'w \<Rightarrow> int \<times> 'w"
    and del_op :: "addr \<Rightarrow> madcap_obj_entry \<Rightarrow> 'w \<Rightarrow> int \<times> 'w"
    and dump_op :: "addr \<Rightarrow> nat \<Rightarrow> 'w \<Rightarrow> madcap_obj_entry option \<times> nat"
    and inv :: "addr \<Rightarrow> 'w \<Rightarrow> bool"
    and table :: "addr \<Rightarrow> 'w \<Rightarrow> madcap_obj_entry list" +
  fixes mc_ops :: "'w madcap_ops"
  assumes op_add: "mco_llt_entry_add mc_ops = Some add_op"
    and op_del: "mco_llt_entry_del mc_ops = Some del_op"
    and op_dump: "mco_llt_entry_dump mc_ops = Some dump_op"
begin

lemma cli_add:
  assumes at: "attached env stk net mc_ops ifx d"
    and args: "get_u64 cli istr = Some i" "inet_pton cli astr = Some a" "if_nametoindex cli dev = ifx" "i \<noteq> 0 \<or> a \<noteq> 0"
  shows "ip_madcap cli env stk fuel beyond net (''add'' # entry_args istr astr dev) w =
    (case add_op d (cli_entry i a) w of (rc, w') \<Rightarrow> (Done (if rc < 0 then - 2 else 0), [], w'))"
  using at args parse_entry_args [OF args(1-3)] op_add
  by (auto simp: attached_def do_ipmadcap_def cmd_matches_def do_add_def rtnl_talk_def madcap_nl_doit_def no_param_def
      madcap_nl_cmd_llt_entry_add_def nl_target_def madcap_llt_entry_add_def dispatch_def nla_memcpy_full entry_of_def cli_entry_def
      split: prod.split)

lemma cli_del:
  assumes at: "attached env stk net mc_ops ifx d"
    and args: "get_u64 cli istr = Some i" "inet_pton cli astr = Some a" "if_nametoindex cli dev = ifx" "i \<noteq> 0 \<or> a \<noteq> 0"
  shows "ip_madcap cli env stk fuel beyond net (''del'' # entry_args istr astr dev) w =
    (case del_op d (cli_entry i a) w of (rc, w') \<Rightarrow> (Done (if rc < 0 then - 2 else 0), [], w'))"
  using at args parse_entry_args [OF args(1-3)] op_del
  by (auto simp: attached_def do_ipmadcap_def cmd_matches_def do_del_def rtnl_talk_def madcap_nl_doit_def no_param_def
      madcap_nl_cmd_llt_entry_del_def nl_target_def madcap_llt_entry_del_def dispatch_def nla_memcpy_full entry_of_def cli_entry_def
      split: prod.split)

lemma cli_show:
  assumes at: "attached env stk net mc_ops ifx d" and inv: "inv d w" and tags: "tagged (table d w)"
    and dev: "if_nametoindex cli dev = ifx" and fuel: "length (table d w) < fuel"
  shows "ip_madcap cli env stk fuel beyond net [''show'', ''dev'', dev] w = (Done 0, map (entry_line cli ifx) (table d w), w)"
proof -
  let ?at = "no_attrs\<lparr>at_ifindex := Some ifx\<rparr>"
  have A: "madnet_wf net" "get_madcap_ops net d = Some mc_ops" "dev_ifindex env d = ifx" "\<forall>e. dev_ifindex env e = ifx \<longrightarrow> e = d"
      "ifx \<noteq> 0" "roomy env" "\<And>m. 0 < msg_bytes env m"
    using at by (auto simp: attached_def)
  have ds: "[d] = dump_devs env (asked ?at) (slots net)" using dump_devs_registered [OF A(1-5)] by simp
  have rd: "\<forall>e \<in> set [d]. reads_table (\<lambda>d a. madcap_llt_entry_dump net d a w) (\<lambda>d. table d w) e"
    using A(2) op_dump dump_nth [OF inv] by (simp add: reads_table_def madcap_llt_entry_dump_def dispatch_def)
  have lo: "left_over (\<lambda>d. table d w) (drop 0 [d]) 0 = map (\<lambda>oe. (oe, d)) (table d w)" by simp
  have "netlink_dump (madcap_nl_dumpit env net MADCAP_CMD_LLT_ENTRY_GET (Some ?at) w) fuel 0 0 =
      Some (map (\<lambda>oe. entry_msg env (oe, d)) (table d w))"
    using netlink_dump_entries [OF A(1,6,7) ds rd, of 0 0 fuel] tags fuel unfolding lo by (simp add: tagged_def)
  then have dump: "kernel_dump env fuel beyond net MADCAP_CMD_LLT_ENTRY_GET ?at w =
      Some (map (\<lambda>oe. wire_msg beyond (entry_msg env (oe, d))) (table d w))"
    by (simp add: kernel_dump_def)
  have "dump_filter (obj_entry_nlmsg cli) (map (\<lambda>oe. wire_msg beyond (entry_msg env (oe, d))) oes) = (map (entry_line cli ifx) oes, True)" for oes
    using show_line [OF A(3,5)] by (induction oes) auto
  with dump parse_dev [OF dev A(5)] A(5) show ?thesis
    by (simp add: do_ipmadcap_def cmd_matches_def do_show_def show_dump_def no_param_def)
qed

lemma cli_add_show:
  assumes at: "attached env stk net mc_ops ifx d" and inv: "inv d w" and tags: "tagged (table d w)"
    and args: "get_u64 cli istr = Some i" "inet_pton cli astr = Some a" "if_nametoindex cli dev = ifx" "i \<noteq> 0 \<or> a \<noteq> 0"
    and ok: "add_op d (cli_entry i a) w = (0, w')" and fuel: "Suc (length (table d w)) < fuel"
  shows "ip_madcap cli env stk fuel beyond net (''add'' # entry_args istr astr dev) w = (Done 0, [], w') \<and>
    (\<exists>lns. ip_madcap cli env stk fuel beyond net [''show'', ''dev'', dev] w' = (Done 0, lns, w') \<and>
       mset lns = add_mset (entry_line cli ifx (cli_entry i a)) (mset (map (entry_line cli ifx) (table d w)))) \<and>
    (\<exists>w''. ip_madcap cli env stk fuel beyond net (''del'' # entry_args istr astr dev) w' = (Done 0, [], w''))"
proof -
  let ?oe = "cli_entry i a"
  have inv': "inv d w'" using add_inv [OF inv, of ?oe] ok by simp
  have ms: "mset (table d w') = add_mset ?oe (mset (table d w))" using add_ok [OF inv, of ?oe] ok by simp
  then have "length (table d w') = Suc (length (table d w))" by (metis size_add_mset size_mset)
  moreover have "tagged (table d w')"
    using add_then_listed [OF inv ok] tags by (auto simp: tagged_def cli_entry_def)
  ultimately have "ip_madcap cli env stk fuel beyond net [''show'', ''dev'', dev] w' = (Done 0, map (entry_line cli ifx) (table d w'), w')"
    using cli_show [OF at inv' _ args(3)] fuel by simp
  moreover have "mset (map (entry_line cli ifx) (table d w')) =
      add_mset (entry_line cli ifx ?oe) (mset (map (entry_line cli ifx) (table d w)))"
    using ms by simp
  moreover obtain w'' where "del_op d ?oe w' = (0, w'')" using add_then_del [OF inv ok] by (metis prod.collapse)
  ultimately show ?thesis using cli_add [OF at args] cli_del [OF at args] ok by auto
qed

end

interpretation sfmc_stack: madcap_stack "sfmc_llt_entry_add hash" "sfmc_llt_entry_del hash" sfmc_llt_entry_dump
  "sfmc_inv hash" sfmc_listing "sfmc_madcap_ops hash"
  for hash
  by unfold_locales (simp_all add: sfmc_madcap_ops_def)

interpretation raven_stack: madcap_stack "raven_llt_entry_add hash" "raven_llt_entry_del hash" raven_llt_entry_dump
  "raven_inv hash" raven_listing "raven_madcap_ops hash"
  for hash
  by unfold_locales (simp_all add: raven_madcap_ops_def)

lemma sfmc_add_new:
  assumes "sfmc_inv hash d w" "oe_id oe \<notin> oe_id ` set (sfmc_listing d w)" "table_mem (netdev_get_sfmc w d) \<noteq> 0"
  obtains w' where "sfmc_llt_entry_add hash d oe w = (0, w')"
  using find_None_listing [OF assms(1), of "oe_id oe"] assms(2,3)
  by (simp add: sfmc_llt_entry_add_def sfmc_table_add_def Let_def)

lemma raven_add_new:
  assumes "rd_mem (raven_priv w d) \<noteq> 0"
  obtains w' where "raven_llt_entry_add hash d oe w = (0, w')"
  using assms by (simp add: raven_llt_entry_add_def raven_table_add_def Let_def)

end
