(* ===== verification/Nsh.thy ===== *)
theory Nsh
  imports Bucket_Table
begin

text \<open>
  \<^verbatim>\<open>protocol-drivers-4.2.0/nsh/nshkmod.c\<close>, data path: the network service header module. A
  pseudo device puts an NSH header with its path key (service path and service index) in front
  of a frame and sends it to the next node of the path: another pseudo device of this machine,
  a VXLAN-GPE tunnel (by the kernel's tunnel code or by a madcap device), or an Ethernet
  neighbour. Received headers are checked and the frame is handed to the path's device.

  A result \<open>None\<close> is a kernel crash (a null dereference or a read past the packet). The kernel's
  services are the fields of \<open>nsh_env\<close>. Locks, RCU and the time stamps \<^verbatim>\<open>nt->updated\<close> and
  \<^verbatim>\<open>OVBENCH\<close> are not modelled.
\<close>

section \<open>State\<close>

abbreviation (input) NSH_BASE_MDTYPE1 :: u8 where "NSH_BASE_MDTYPE1 \<equiv> 1"
abbreviation (input) NSH_BASE_MDTYPE2 :: u8 where "NSH_BASE_MDTYPE2 \<equiv> 2"
abbreviation (input) NSH_BASE_PROTO_ETH :: u8 where "NSH_BASE_PROTO_ETH \<equiv> 3"
abbreviation (input) NSH_ENCAP_TYPE_NONE :: u8 where "NSH_ENCAP_TYPE_NONE \<equiv> 0"
abbreviation (input) NSH_ENCAP_TYPE_VXLAN :: u8 where "NSH_ENCAP_TYPE_VXLAN \<equiv> 1"
abbreviation (input) NSH_ENCAP_TYPE_ETHER :: u8 where "NSH_ENCAP_TYPE_ETHER \<equiv> 2"
abbreviation (input) NSH_MDTYPE1_HLEN :: nat where "NSH_MDTYPE1_HLEN \<equiv> 24"
abbreviation (input) NSH_MDTYPE2_0_HLEN :: nat where "NSH_MDTYPE2_0_HLEN \<equiv> 8"
abbreviation (input) VXLAN_HEADROOM :: nat where "VXLAN_HEADROOM \<equiv> 50"
abbreviation (input) VXLAN_HLEN :: nat where "VXLAN_HLEN \<equiv> 16"
abbreviation (input) ETH_HLEN :: nat where "ETH_HLEN \<equiv> 14"
abbreviation (input) ETH_P_NSH :: u16 where "ETH_P_NSH \<equiv> 0x894F"
abbreviation (input) VXLAN_GPE_PORT :: u16 where "VXLAN_GPE_PORT \<equiv> htons 4790"
abbreviation (input) NSH_VXLAN_TTL :: u8 where "NSH_VXLAN_TTL \<equiv> 64"
abbreviation (input) VXLAN_GPE_FLAGS :: u32 where "VXLAN_GPE_FLAGS \<equiv> 0x0C000000"
abbreviation (input) VXLAN_GPE_PROTO_NSH :: u32 where "VXLAN_GPE_PROTO_NSH \<equiv> 0x04"

text \<open>A pseudo device with its counters.\<close>

record nsh_dev =
  nd_key :: u32
  nd_mtu :: int
  nd_tx_packets :: u64
  nd_tx_bytes :: u64
  nd_rx_packets :: u64
  nd_rx_bytes :: u64
  nd_tx_errors :: u64
  nd_tx_carrier_errors :: u64
  nd_tx_dropped :: u64
  nd_collisions :: u64

record nsh_dst =
  remote_ip :: u32
  local_ip :: u32
  vni :: u32
  lowerdev :: ptr
  eth_addr :: "u8 list"

record nsh_table =
  nt_key :: u32
  nt_spi :: u32
  nt_si :: u8
  nt_mdtype :: u8
  nt_encap_type :: u8
  nt_rdev :: ptr
  nt_rdst :: "nsh_dst option"

text \<open>A namespace; \<open>nsh_devs\<close> is the private data of the pseudo devices, \<open>nsh_mem\<close> how many objects
  can still be allocated, and \<open>nsh_sock\<close> the UDP port of the socket whose datagrams
  \<^verbatim>\<open>nsh_vxlan_udp_encap_recv\<close> receives.\<close>

record nsh_net =
  nsh_tab :: "nsh_table list list"
  nsh_dev_list :: "addr list"
  nsh_devs :: "addr \<Rightarrow> nsh_dev"
  nsh_sock :: "u16 option"
  nsh_mem :: nat

abbreviation (input) NSH_HASH_SIZE :: nat where "NSH_HASH_SIZE \<equiv> 256"

type_synonym hash32 = "u32 \<Rightarrow> 8 word"

definition upd_dev :: "nsh_net \<Rightarrow> addr \<Rightarrow> (nsh_dev \<Rightarrow> nsh_dev) \<Rightarrow> nsh_net" where
  "upd_dev nn d f = nn\<lparr>nsh_devs := (nsh_devs nn)(d := f (nsh_devs nn d))\<rparr>"

section \<open>The path table\<close>

definition nsh_table_head :: "hash32 \<Rightarrow> u32 \<Rightarrow> nat" where
  "nsh_table_head hash key = unat (hash key)"

definition nsh_find_table :: "hash32 \<Rightarrow> nsh_net \<Rightarrow> u32 \<Rightarrow> nsh_table option" where
  "nsh_find_table hash nn key = bucket_find nt_key key (nsh_tab nn ! nsh_table_head hash key)"

definition nsh_add_table ::
  "hash32 \<Rightarrow> nsh_net \<Rightarrow> u32 \<Rightarrow> u8 \<Rightarrow> u8 \<Rightarrow> ptr \<Rightarrow> nsh_dst option \<Rightarrow> int \<times> nsh_net" where
  "nsh_add_table hash nn key mdtype encap_type rdev rdst =
     (if nsh_mem nn = 0 then (- ENOMEM, nn)
      else
        let nt = \<lparr>nt_key = key, nt_spi = drop_bit 8 (htonl key), nt_si = ucast (htonl key AND 0xFF), nt_mdtype = mdtype,
                  nt_encap_type = encap_type, nt_rdev = rdev, nt_rdst = rdst\<rparr>;
            n = nsh_table_head hash key in
        (0, nn\<lparr>nsh_tab := (nsh_tab nn)[n := nt # nsh_tab nn ! n], nsh_mem := nsh_mem nn - 1\<rparr>))"

text \<open>\<^verbatim>\<open>nsh_free_table\<close> frees the entry and its destination, if it has one.\<close>

definition nsh_free_table :: "nsh_table \<Rightarrow> nat \<Rightarrow> nat" where
  "nsh_free_table nt m = (case nt_rdst nt of None \<Rightarrow> m + 1 | Some _ \<Rightarrow> m + 2)"

definition nsh_delete_table :: "hash32 \<Rightarrow> nsh_net \<Rightarrow> nsh_table \<Rightarrow> nsh_net" where
  "nsh_delete_table hash nn nt =
     (let n = nsh_table_head hash (nt_key nt) in
      nn\<lparr>nsh_tab := (nsh_tab nn)[n := bucket_del nt_key (nt_key nt) (nsh_tab nn ! n)],
         nsh_mem := nsh_free_table nt (nsh_mem nn)\<rparr>)"

text \<open>The loops with \<^verbatim>\<open>hlist_for_each_safe\<close> that delete the entries of every bucket that satisfy a
  condition: the entries that stay, and the memory.\<close>

fun purge_bucket :: "(nsh_table \<Rightarrow> bool) \<Rightarrow> nsh_table list \<Rightarrow> nat \<Rightarrow> nsh_table list \<times> nat" where
  "purge_bucket p [] m = ([], m)"
| "purge_bucket p (nt # rest) m =
     (if p nt then purge_bucket p rest (nsh_free_table nt m)
      else let (b, m) = purge_bucket p rest m in (nt # b, m))"

fun purge_buckets :: "(nsh_table \<Rightarrow> bool) \<Rightarrow> nsh_table list list \<Rightarrow> nat \<Rightarrow> nsh_table list list \<times> nat" where
  "purge_buckets p [] m = ([], m)"
| "purge_buckets p (b # rest) m =
     (let (b, m) = purge_bucket p b m; (bs, m) = purge_buckets p rest m in (b # bs, m))"

definition purge_table :: "(nsh_table \<Rightarrow> bool) \<Rightarrow> nsh_net \<Rightarrow> nsh_net" where
  "purge_table p nn = (let (bs, m) = purge_buckets p (nsh_tab nn) (nsh_mem nn) in nn\<lparr>nsh_tab := bs, nsh_mem := m\<rparr>)"

definition nsh_destroy_table :: "nsh_net \<Rightarrow> nsh_net" where
  "nsh_destroy_table nn = purge_table (\<lambda>nt. True) nn"

section \<open>Reception\<close>

text \<open>What became of a packet: still owned by the module (and leaked when the module returns),
  freed, handed to a pseudo device, or sent: by the kernel's UDP tunnel with route, source and
  destination address, TTL, source and destination port and payload, by a madcap device, or as an Ethernet frame.\<close>

datatype nsh_fate =
    NHeld | NFreed | NDelivered addr "u8 list"
  | NTunnel addr u32 u32 u8 u16 u16 "u8 list" | NMadcap addr "u8 list" | NEther addr "u8 list"

text \<open>\<open>tunnel_route\<close> is \<^verbatim>\<open>ip_route_output_key\<close> for destination, source and output interface, and
  returns the device of the route; \<open>offloads_ok\<close> tells whether \<^verbatim>\<open>udp_tunnel_handle_offloads\<close> returned
  a packet; \<open>queue_rc\<close> and \<open>udp_rc\<close> are the results of \<^verbatim>\<open>dev_queue_xmit\<close> and \<^verbatim>\<open>udp_tunnel_xmit_skb\<close>,
  and \<open>ne_mtu_ok\<close> the values \<^verbatim>\<open>eth_change_mtu\<close> accepts.\<close>

record nsh_env =
  ne_hash :: hash32
  ne_madcap_enable :: bool
  madcap_capable :: "addr \<Rightarrow> bool"
  ne_dev_by_index :: "u32 \<Rightarrow> ptr"
  ne_is_nsh :: "addr \<Rightarrow> bool"
  ne_dev_addr :: "addr \<Rightarrow> u8 list"
  ne_dev_mtu :: "addr \<Rightarrow> int"
  ne_ifindex :: "addr \<Rightarrow> u32"
  ne_cow_head :: "nat \<Rightarrow> int"
  tunnel_route :: "u32 \<Rightarrow> u32 \<Rightarrow> u32 \<Rightarrow> ptr"
  flow_src_port :: u16
  offloads_ok :: bool
  udp_rc :: int
  queue_rc :: int
  ne_mtu_ok :: "int \<Rightarrow> bool"

text \<open>\<^verbatim>\<open>rx_bytes\<close> counts what \<^verbatim>\<open>eth_type_trans\<close> leaves: the frame without its Ethernet header, when it
  has one.\<close>

definition frame_len :: "u8 list \<Rightarrow> nat" where
  "frame_len frame = (if ETH_HLEN \<le> length frame then length frame - ETH_HLEN else length frame)"

definition count_rx :: "nat \<Rightarrow> nsh_dev \<Rightarrow> nsh_dev" where
  "count_rx n nd = nd\<lparr>nd_rx_packets := nd_rx_packets nd + 1, nd_rx_bytes := nd_rx_bytes nd + word_of_nat n\<rparr>"

definition nsh_recv :: "nsh_env \<Rightarrow> nsh_net \<Rightarrow> u8 list \<Rightarrow> (int \<times> nsh_fate \<times> nsh_net) option" where
  "nsh_recv env nn pkt = do {
     base \<leftarrow> read_bytes pkt 0 8;
     let flags = base ! 0;
     let spisi = le_word (drop 4 base);
     if flags AND 0xC0 \<noteq> 0 then Some (- 1, NHeld, nn)
     else if flags AND 0x20 \<noteq> 0 then Some (- 1, NHeld, nn)
     else if base ! 3 \<noteq> NSH_BASE_PROTO_ETH then Some (- 1, NHeld, nn)
     else if htonl spisi AND 0xFF = 0 then Some (- 1, NHeld, nn)
     else (case nsh_find_table (ne_hash env) nn spisi of
        None \<Rightarrow> Some (- 1, NHeld, nn)
      | Some nt \<Rightarrow> (case nt_rdev nt of
          None \<Rightarrow> Some (- 1, NHeld, nn)
        | Some d \<Rightarrow>
            let hdrlen = unat (base ! 1 AND 0x3F) * 4 in
            if hdrlen > length pkt then None
            else let frame = drop hdrlen pkt in
              Some (0, NDelivered d frame, upd_dev nn d (count_rx (frame_len frame))))) }"

text \<open>The packet starts at the UDP header. A result of 1 gives it back to the UDP layer.\<close>

definition nsh_vxlan_udp_encap_recv :: "nsh_env \<Rightarrow> nsh_net \<Rightarrow> u8 list \<Rightarrow> (int \<times> nsh_fate \<times> nsh_net) option" where
  "nsh_vxlan_udp_encap_recv env nn pkt =
     (if length pkt < VXLAN_HLEN then Some (1, NHeld, nn)
      else if le_word (take 4 (drop 8 pkt)) \<noteq> htonl (VXLAN_GPE_FLAGS OR VXLAN_GPE_PROTO_NSH) then Some (1, NHeld, nn)
      else nsh_recv env nn (drop VXLAN_HLEN pkt))"

text \<open>\<open>other_host\<close>: the frame is for another machine; \<open>share_ok\<close>: \<^verbatim>\<open>skb_share_check\<close> returned a packet (it
  frees the packet otherwise). \<^verbatim>\<open>NET_RX_DROP\<close> is 1, too.\<close>

definition nsh_ether_encap_recv ::
  "nsh_env \<Rightarrow> bool \<Rightarrow> bool \<Rightarrow> nsh_net \<Rightarrow> u8 list \<Rightarrow> (int \<times> nsh_fate \<times> nsh_net) option" where
  "nsh_ether_encap_recv env other_host share_ok nn pkt =
     (if other_host then Some (1, NFreed, nn)
      else if \<not> share_ok then Some (1, NFreed, nn)
      else do {
        (err, fate, nn) \<leftarrow> nsh_recv env nn pkt;
        if err < 0 then Some (1, fate, nn) else Some (1, fate, nn) })"

section \<open>Transmission\<close>

definition vxlan_header :: "u32 \<Rightarrow> u8 list" where
  "vxlan_header v = le_bytes 4 (htonl (VXLAN_GPE_FLAGS OR VXLAN_GPE_PROTO_NSH)) @ le_bytes 4 (htonl (push_bit 8 v))"

definition nsh_xmit_vxlan_skb ::
  "nsh_env \<Rightarrow> addr \<Rightarrow> u8 list \<Rightarrow> u32 \<Rightarrow> u32 \<Rightarrow> u16 \<Rightarrow> u16 \<Rightarrow> u32 \<Rightarrow> (int \<times> nsh_fate) option" where
  "nsh_xmit_vxlan_skb env rt pkt src dst sport dport v =
     (if \<not> offloads_ok env then None
      else if ne_cow_head env VXLAN_HEADROOM \<noteq> 0 then Some (- ENOMEM, NFreed)
      else Some (udp_rc env, NTunnel rt src dst NSH_VXLAN_TTL sport dport (vxlan_header v @ pkt)))"

text \<open>\<^verbatim>\<open>madcap_queue_xmit\<close> of the madcap core: the packet is queued on the madcap device.\<close>

definition madcap_queue_xmit :: "nsh_env \<Rightarrow> u8 list \<Rightarrow> addr \<Rightarrow> int \<times> nsh_fate" where
  "madcap_queue_xmit env pkt dev = (queue_rc env, NMadcap dev pkt)"

definition nsh_xmit_vxlan_madcap :: "nsh_env \<Rightarrow> u8 list \<Rightarrow> addr \<Rightarrow> u32 \<Rightarrow> int \<times> nsh_fate" where
  "nsh_xmit_vxlan_madcap env pkt dev v =
     (if ne_cow_head env VXLAN_HEADROOM \<noteq> 0 then (- ENOMEM, NFreed)
      else madcap_queue_xmit env (vxlan_header v @ pkt) dev)"

definition carrier_error :: "nsh_dev \<Rightarrow> nsh_dev" where
  "carrier_error nd = nd\<lparr>nd_tx_carrier_errors := nd_tx_carrier_errors nd + 1, nd_tx_dropped := nd_tx_dropped nd + 1\<rparr>"

definition circular_route :: "nsh_dev \<Rightarrow> nsh_dev" where
  "circular_route nd = nd\<lparr>nd_collisions := nd_collisions nd + 1, nd_tx_errors := nd_tx_errors nd + 1\<rparr>"

definition nsh_xmit_vxlan ::
  "nsh_env \<Rightarrow> nsh_net \<Rightarrow> addr \<Rightarrow> nsh_dst \<Rightarrow> u16 \<Rightarrow> u8 list \<Rightarrow> (int \<times> nsh_fate \<times> nsh_net) option" where
  "nsh_xmit_vxlan env nn d dst sport pkt =
     (case tunnel_route env (remote_ip dst) (local_ip dst) (case lowerdev dst of Some ld \<Rightarrow> ne_ifindex env ld | None \<Rightarrow> 0) of
        None \<Rightarrow> Some (- ENOENT, NHeld, upd_dev nn d carrier_error)
      | Some rt \<Rightarrow> do {
          let nn = (if rt = d then upd_dev nn d circular_route else nn);
          (rc, fate) \<leftarrow> nsh_xmit_vxlan_skb env rt pkt (local_ip dst) (remote_ip dst) sport VXLAN_GPE_PORT (vni dst);
          Some (rc, fate, nn) })"

definition nsh_xmit_ether :: "nsh_env \<Rightarrow> nsh_dst option \<Rightarrow> u8 list \<Rightarrow> int \<times> nsh_fate" where
  "nsh_xmit_ether env rdst pkt =
     (if ne_cow_head env ETH_HLEN \<noteq> 0 then (- ENOMEM, NFreed)
      else (case rdst of
        None \<Rightarrow> (- ENODEV, NHeld)
      | Some dst \<Rightarrow> (case lowerdev dst of
          None \<Rightarrow> (- ENODEV, NHeld)
        | Some ld \<Rightarrow> (queue_rc env, NEther ld (eth_addr dst @ ne_dev_addr env ld @ le_bytes 2 (htons ETH_P_NSH) @ pkt)))))"

text \<open>The NSH header: base, path, and four empty context words for MD type 1.\<close>

definition nsh_header :: "u8 \<Rightarrow> u32 \<Rightarrow> nat \<Rightarrow> u8 list" where
  "nsh_header mdtype key nhlen =
     [0, word_of_nat (nhlen div 4), mdtype, NSH_BASE_PROTO_ETH] @ le_bytes 4 key @
     (if mdtype = NSH_BASE_MDTYPE1 then replicate 16 0 else [])"

definition count_nsh_tx :: "nat \<Rightarrow> nsh_dev \<Rightarrow> nsh_dev" where
  "count_nsh_tx n nd = nd\<lparr>nd_tx_packets := nd_tx_packets nd + 1, nd_tx_bytes := nd_tx_bytes nd + word_of_nat n\<rparr>"

definition count_nsh_err :: "nsh_dev \<Rightarrow> nsh_dev" where
  "count_nsh_err nd = nd\<lparr>nd_tx_errors := nd_tx_errors nd + 1\<rparr>"

text \<open>The end of \<^verbatim>\<open>nsh_xmit\<close>: the labels \<^verbatim>\<open>update_stats\<close> and \<^verbatim>\<open>tx_err\<close>.\<close>

definition xmit_end :: "addr \<Rightarrow> nat \<Rightarrow> int \<times> nsh_fate \<times> nsh_net \<Rightarrow> nsh_fate \<times> nsh_net" where
  "xmit_end d n r = (case r of (rc, fate, nn) \<Rightarrow>
     (fate, upd_dev nn d (if rc < 0 then count_nsh_err else count_nsh_tx n)))"

text \<open>\<^verbatim>\<open>madcap_on\<close> is computed before \<^verbatim>\<open>nt->rdst\<close> is known not to be null.\<close>

definition madcap_on :: "nsh_env \<Rightarrow> nsh_table \<Rightarrow> bool option" where
  "madcap_on env nt =
     (if \<not> ne_madcap_enable env then Some False
      else do {
        dst \<leftarrow> nt_rdst nt;
        Some (case lowerdev dst of None \<Rightarrow> False | Some ld \<Rightarrow> madcap_capable env ld) })"

text \<open>The next hop of a packet that carries its NSH header.\<close>

definition nsh_forward ::
  "nsh_env \<Rightarrow> nsh_net \<Rightarrow> addr \<Rightarrow> nsh_table \<Rightarrow> bool \<Rightarrow> nat \<Rightarrow> u8 list \<Rightarrow> (nsh_fate \<times> nsh_net) option" where
  "nsh_forward env nn d nt mc n pkt =
     (case nt_rdev nt of
        Some _ \<Rightarrow> do {
          (rc, fate, nn) \<leftarrow> nsh_recv env nn pkt;
          Some (xmit_end d n (0, fate, nn)) }
      | None \<Rightarrow> (case nt_rdst nt of
          None \<Rightarrow> Some (xmit_end d n (0, NHeld, nn))
        | Some dst \<Rightarrow>
            if nt_encap_type nt = NSH_ENCAP_TYPE_VXLAN then
              (if mc then (case lowerdev dst of
                   None \<Rightarrow> None
                 | Some ld \<Rightarrow> (case nsh_xmit_vxlan_madcap env pkt ld (vni dst) of
                     (rc, fate) \<Rightarrow> Some (xmit_end d n (rc, fate, nn))))
               else map_option (xmit_end d n) (nsh_xmit_vxlan env nn d dst (flow_src_port env) pkt))
            else if nt_encap_type nt = NSH_ENCAP_TYPE_ETHER then
              (case nsh_xmit_ether env (Some dst) pkt of (rc, fate) \<Rightarrow> Some (xmit_end d n (rc, fate, nn)))
            else Some (xmit_end d n (- 1, NHeld, nn))))"

definition nsh_xmit :: "nsh_env \<Rightarrow> nsh_net \<Rightarrow> addr \<Rightarrow> u8 list \<Rightarrow> (nsh_fate \<times> nsh_net) option" where
  "nsh_xmit env nn d pkt =
     (case nsh_find_table (ne_hash env) nn (nd_key (nsh_devs nn d)) of
        None \<Rightarrow> Some (xmit_end d 0 (- 1, NHeld, nn))
      | Some nt \<Rightarrow> do {
          mc \<leftarrow> madcap_on env nt;
          (case (if nt_mdtype nt = NSH_BASE_MDTYPE1 then Some NSH_MDTYPE1_HLEN
                 else if nt_mdtype nt = NSH_BASE_MDTYPE2 then Some NSH_MDTYPE2_0_HLEN else None) of
             None \<Rightarrow> Some (xmit_end d 0 (- 1, NHeld, nn))
           | Some nhlen \<Rightarrow>
               if ne_cow_head env nhlen \<noteq> 0 then Some (xmit_end d 0 (- 1, NFreed, nn))
               else nsh_forward env nn d nt mc (length pkt)
                 (nsh_header (nt_mdtype nt) (nd_key (nsh_devs nn d)) nhlen @ pkt)) })"

end
