(* ===== verification/Nsh_Ctl.thy ===== *)
theory Nsh_Ctl
  imports Nsh
begin

text \<open>
  \<^verbatim>\<open>nshkmod.c\<close>, control path: creation and removal of pseudo devices, the netlink requests that
  bind a path to its next node and a device to its path, the dumps, and the life of a namespace
  and of the module. A path through a madcap device acquires it for every pseudo device through
  the madcap core.
\<close>

section \<open>Pseudo devices\<close>

text \<open>\<^verbatim>\<open>htonl ((spi << 8) | si)\<close>\<close>

definition path_key :: "u32 \<Rightarrow> u8 \<Rightarrow> u32" where
  "path_key spi si = htonl (push_bit 8 spi OR ucast si)"

definition nsh_init :: "bool \<Rightarrow> int" where
  "nsh_init alloc_ok = (if alloc_ok then 0 else - ENOMEM)"

definition nsh_setup :: "nsh_dev \<Rightarrow> nsh_dev" where
  "nsh_setup nd = nd\<lparr>nd_key := 0\<rparr>"

text \<open>\<open>spi\<close> and \<open>si\<close> are the link attributes, \<open>reg_rc\<close> the result of \<^verbatim>\<open>register_netdevice\<close>.\<close>

definition nsh_newlink :: "u32 option \<Rightarrow> u8 option \<Rightarrow> int \<Rightarrow> addr \<Rightarrow> nsh_net \<Rightarrow> int \<times> nsh_net" where
  "nsh_newlink spi si reg_rc d nn =
     (let nn = (case (spi, si) of (Some p, Some i) \<Rightarrow> upd_dev nn d (nd_key_update (\<lambda>_. path_key p i)) | _ \<Rightarrow> nn) in
      if reg_rc \<noteq> 0 then (reg_rc, nn) else (0, nn\<lparr>nsh_dev_list := nsh_dev_list nn @ [d]\<rparr>))"

definition nsh_dellink :: "addr \<Rightarrow> addr list \<Rightarrow> nsh_net \<Rightarrow> addr list \<times> nsh_net" where
  "nsh_dellink d queue nn =
     (let nn = purge_table (\<lambda>nt. nt_rdev nt = Some d) nn in
      (queue @ [d], nn\<lparr>nsh_dev_list := remove1 d (nsh_dev_list nn)\<rparr>))"

definition nsh_fill_info :: "bool \<Rightarrow> nsh_dev \<Rightarrow> int \<times> (u32 \<times> u8) option" where
  "nsh_fill_info fits nd =
     (let spi = drop_bit 8 (htonl (nd_key nd)); si = ucast (htonl (nd_key nd) AND 0xFF) in
      if \<not> fits then (- EMSGSIZE, None) else (0, Some (spi, si)))"

definition nsh_handle_lowerdev_unregister :: "addr \<Rightarrow> nsh_net \<Rightarrow> nsh_net" where
  "nsh_handle_lowerdev_unregister dev nn =
     purge_table (\<lambda>nt. case nt_rdst nt of None \<Rightarrow> False | Some dst \<Rightarrow> lowerdev dst = Some dev) nn"

definition nsh_lowerdev_event :: "bool \<Rightarrow> addr \<Rightarrow> nsh_net \<Rightarrow> nsh_net" where
  "nsh_lowerdev_event unregister dev nn = (if unregister then nsh_handle_lowerdev_unregister dev nn else nn)"

section \<open>Paths\<close>

record nsh_attrs =
  na_ifindex :: "u32 option"
  na_spi :: "u32 option"
  na_si :: "u8 option"
  na_mdtype :: "u8 option"
  na_encap :: "u8 option"
  na_remote :: "u32 option"
  na_local :: "u32 option"
  na_vni :: "u32 option"
  na_ethaddr :: "u8 list option"

definition opt :: "'a \<Rightarrow> 'a option \<Rightarrow> 'a" where
  "opt x v = (case v of None \<Rightarrow> x | Some y \<Rightarrow> y)"

text \<open>An object allocated for a destination is not cleared: \<open>junk\<close> is what it holds. The pseudo devices
  acquire the lower device one after the other.\<close>

definition path_set_none :: "nsh_env \<Rightarrow> nsh_attrs \<Rightarrow> u32 \<Rightarrow> u8 \<Rightarrow> nsh_net \<Rightarrow> int \<times> nsh_net" where
  "path_set_none env at key mdtype nn =
     (case na_ifindex at of
        None \<Rightarrow> (- EINVAL, nn)
      | Some i \<Rightarrow> (case ne_dev_by_index env i of
          None \<Rightarrow> (- ENODEV, nn)
        | Some dev \<Rightarrow>
            if \<not> ne_is_nsh env dev then (- EINVAL, nn)
            else (0, snd (nsh_add_table (ne_hash env) nn key mdtype NSH_ENCAP_TYPE_NONE (Some dev) None))))"

definition path_set_vxlan ::
  "nsh_env \<Rightarrow> 'w madcap_net \<Rightarrow> nsh_dst \<Rightarrow> nsh_attrs \<Rightarrow> u32 \<Rightarrow> u8 \<Rightarrow> nsh_net \<Rightarrow> 'w \<Rightarrow> int \<times> nsh_net \<times> 'w" where
  "path_set_vxlan env mnet junk at key mdtype nn w =
     (case na_remote at of
        None \<Rightarrow> (- EINVAL, nn, w)
      | Some remote \<Rightarrow>
          if nsh_mem nn = 0 then (- ENOMEM, nn, w)
          else
            let nn = nn\<lparr>nsh_mem := nsh_mem nn - 1\<rparr>;
                dst = junk\<lparr>remote_ip := remote, local_ip := opt 0 (na_local at), vni := opt 0 (na_vni at)\<rparr>;
                add = (\<lambda>dst. snd (nsh_add_table (ne_hash env) nn key mdtype NSH_ENCAP_TYPE_VXLAN None (Some dst))) in
            (case na_ifindex at of
               None \<Rightarrow> (0, add dst, w)
             | Some i \<Rightarrow> (case ne_dev_by_index env i of
                 None \<Rightarrow> (- ENODEV, nn, w)
               | Some ld \<Rightarrow>
                   if ne_is_nsh env ld then (- EINVAL, nn, w)
                   else (0, add (dst\<lparr>lowerdev := Some ld\<rparr>),
                         foldl (\<lambda>w d. snd (madcap_acquire_dev mnet ld d w)) w (nsh_dev_list nn)))))"

definition path_set_ether :: "nsh_env \<Rightarrow> nsh_dst \<Rightarrow> nsh_attrs \<Rightarrow> u32 \<Rightarrow> u8 \<Rightarrow> nsh_net \<Rightarrow> int \<times> nsh_net" where
  "path_set_ether env junk at key mdtype nn =
     (case (na_ifindex at, na_ethaddr at) of
        (Some i, Some ea) \<Rightarrow>
          (case ne_dev_by_index env i of
             None \<Rightarrow> (- ENODEV, nn)
           | Some ld \<Rightarrow>
               if ne_is_nsh env ld then (- EINVAL, nn)
               else if nsh_mem nn = 0 then (- ENOMEM, nn)
               else
                 let nn = nn\<lparr>nsh_mem := nsh_mem nn - 1\<rparr>;
                     dst = junk\<lparr>lowerdev := Some ld, eth_addr := nla_memcpy (replicate 6 0) ea\<rparr> in
                 (0, snd (nsh_add_table (ne_hash env) nn key mdtype NSH_ENCAP_TYPE_ETHER None (Some dst))))
      | _ \<Rightarrow> (- EINVAL, nn))"

definition nsh_nl_cmd_path_dst_set ::
  "nsh_env \<Rightarrow> 'w madcap_net \<Rightarrow> nsh_dst \<Rightarrow> nsh_attrs \<Rightarrow> nsh_net \<Rightarrow> 'w \<Rightarrow> int \<times> nsh_net \<times> 'w" where
  "nsh_nl_cmd_path_dst_set env mnet junk at nn w =
     (case (na_spi at, na_si at) of
        (Some spi, Some si) \<Rightarrow>
          let key = path_key spi si in
          if nsh_find_table (ne_hash env) nn key \<noteq> None then (- EEXIST, nn, w)
          else
            let mdtype = opt NSH_BASE_MDTYPE1 (na_mdtype at);
                encap_type = opt NSH_ENCAP_TYPE_NONE (na_encap at) in
            if encap_type = NSH_ENCAP_TYPE_NONE then
              (let (rc, nn) = path_set_none env at key mdtype nn in (rc, nn, w))
            else if encap_type = NSH_ENCAP_TYPE_VXLAN then path_set_vxlan env mnet junk at key mdtype nn w
            else if encap_type = NSH_ENCAP_TYPE_ETHER then
              (let (rc, nn) = path_set_ether env junk at key mdtype nn in (rc, nn, w))
            else (- EINVAL, nn, w)
      | _ \<Rightarrow> (- EINVAL, nn, w))"

definition nsh_nl_cmd_path_dst_unset :: "nsh_env \<Rightarrow> nsh_attrs \<Rightarrow> nsh_net \<Rightarrow> int \<times> nsh_net" where
  "nsh_nl_cmd_path_dst_unset env at nn =
     (case (na_spi at, na_si at) of
        (Some spi, Some si) \<Rightarrow>
          (case nsh_find_table (ne_hash env) nn (path_key spi si) of
             None \<Rightarrow> (- ENOENT, nn)
           | Some nt \<Rightarrow> (0, nsh_delete_table (ne_hash env) nn nt))
      | _ \<Rightarrow> (- EINVAL, nn))"

definition change_mtu :: "nsh_env \<Rightarrow> nsh_net \<Rightarrow> addr \<Rightarrow> int \<Rightarrow> nsh_net" where
  "change_mtu env nn d mtu = (if ne_mtu_ok env mtu then upd_dev nn d (nd_mtu_update (\<lambda>_. mtu)) else nn)"

definition nsh_change_mtu_for_path :: "nsh_env \<Rightarrow> nsh_net \<Rightarrow> addr \<Rightarrow> nsh_table \<Rightarrow> nsh_net option" where
  "nsh_change_mtu_for_path env nn d nt =
     (let hlen = (if nt_mdtype nt = NSH_BASE_MDTYPE1 then NSH_MDTYPE1_HLEN else NSH_MDTYPE2_0_HLEN) in
      if nt_encap_type nt = NSH_ENCAP_TYPE_VXLAN
      then Some (change_mtu env nn d (1500 - int (hlen + VXLAN_HEADROOM)))
      else if nt_encap_type nt = NSH_ENCAP_TYPE_ETHER then do {
        dst \<leftarrow> nt_rdst nt;
        ld \<leftarrow> lowerdev dst;
        Some (change_mtu env nn d (ne_dev_mtu env ld - int (hlen + ETH_HLEN))) }
      else Some nn)"

text \<open>The device a request names, if it is a pseudo device.\<close>

definition nsh_target :: "nsh_env \<Rightarrow> u32 \<Rightarrow> int + addr" where
  "nsh_target env i =
     (case ne_dev_by_index env i of
        None \<Rightarrow> Inl (- ENODEV)
      | Some d \<Rightarrow> if \<not> ne_is_nsh env d then Inl (- EINVAL) else Inr d)"

definition nsh_nl_cmd_dev_path_set :: "nsh_env \<Rightarrow> nsh_attrs \<Rightarrow> nsh_net \<Rightarrow> (int \<times> nsh_net) option" where
  "nsh_nl_cmd_dev_path_set env at nn =
     (case (na_ifindex at, na_spi at, na_si at) of
        (Some i, Some spi, Some si) \<Rightarrow>
          (case nsh_target env i of
             Inl e \<Rightarrow> Some (e, nn)
           | Inr d \<Rightarrow> do {
               nn \<leftarrow> (case nsh_find_table (ne_hash env) nn (path_key spi si) of
                        None \<Rightarrow> Some nn | Some nt \<Rightarrow> nsh_change_mtu_for_path env nn d nt);
               Some (0, upd_dev nn d (nd_key_update (\<lambda>_. path_key spi si))) })
      | _ \<Rightarrow> Some (- EINVAL, nn))"

definition nsh_nl_cmd_dev_path_unset :: "nsh_env \<Rightarrow> nsh_attrs \<Rightarrow> nsh_net \<Rightarrow> int \<times> nsh_net" where
  "nsh_nl_cmd_dev_path_unset env at nn =
     (case na_ifindex at of
        None \<Rightarrow> (- EINVAL, nn)
      | Some i \<Rightarrow> (case nsh_target env i of
          Inl e \<Rightarrow> (e, nn)
        | Inr d \<Rightarrow> (0, upd_dev nn d (nd_key_update (\<lambda>_. 0)))))"

section \<open>Dumps\<close>

datatype nsh_attr = ASpi u32 | ASi u8 | AMdtype u8 | AEncap u8 | AIfindex u32 | ARemote u32 | AVni u32 | ALocal u32
  | AEthaddr "u8 list"

text \<open>\<open>hdr\<close>: the header fits; \<open>fits\<close>: the attributes fit. \<open>None\<close> is a null dereference.\<close>

definition table_attrs :: "nsh_env \<Rightarrow> nsh_table \<Rightarrow> nsh_attr list option" where
  "table_attrs env nt = do {
     let common = [ASpi (drop_bit 8 (htonl (nt_key nt))), ASi (ucast (htonl (nt_key nt) AND 0xFF)),
       AMdtype (nt_mdtype nt), AEncap (nt_encap_type nt)];
     rest \<leftarrow> (if nt_encap_type nt = NSH_ENCAP_TYPE_NONE then do { d \<leftarrow> nt_rdev nt; Some [AIfindex (ne_ifindex env d)] }
       else if nt_encap_type nt = NSH_ENCAP_TYPE_VXLAN then do {
         dst \<leftarrow> nt_rdst nt;
         Some ([ARemote (remote_ip dst), AVni (vni dst)] @
           (if local_ip dst \<noteq> 0 then [ALocal (local_ip dst)] else []) @
           (case lowerdev dst of Some ld \<Rightarrow> [AIfindex (ne_ifindex env ld)] | None \<Rightarrow> [])) }
       else if nt_encap_type nt = NSH_ENCAP_TYPE_ETHER then do {
         dst \<leftarrow> nt_rdst nt;
         ld \<leftarrow> lowerdev dst;
         Some [AIfindex (ne_ifindex env ld), AEthaddr (eth_addr dst)] }
       else Some []);
     Some (common @ rest) }"

definition nsh_nl_table_send ::
  "nsh_env \<Rightarrow> bool \<Rightarrow> (nsh_attr list \<Rightarrow> bool) \<Rightarrow> nsh_table \<Rightarrow> (int \<times> nsh_attr list option) option" where
  "nsh_nl_table_send env hdr fits nt =
     (if \<not> hdr then Some (- EMSGSIZE, None)
      else do {
        attrs \<leftarrow> table_attrs env nt;
        Some (if fits attrs then (0, Some attrs) else (- 1, None)) })"

text \<open>One call of the dump: result, next index, message. \<^verbatim>\<open>skb->len\<close> is abstracted to whether a
  message was sent.\<close>

definition nsh_nl_cmd_path_dump ::
  "nsh_env \<Rightarrow> bool \<Rightarrow> (nsh_attr list \<Rightarrow> bool) \<Rightarrow> nat \<Rightarrow> nsh_net \<Rightarrow> (int \<times> nat \<times> nsh_attr list option) option" where
  "nsh_nl_cmd_path_dump env hdr fits idx nn =
     (case dump_buckets idx (nsh_tab nn) 0 of
        (None, cnt) \<Rightarrow> Some (0, cnt + 1, None)
      | (Some nt, cnt) \<Rightarrow> do {
          (err, msg) \<leftarrow> nsh_nl_table_send env hdr fits nt;
          Some (if err < 0 then (- 1, idx, None) else (1, cnt + 1, msg)) })"

definition nsh_nl_dev_send ::
  "nsh_env \<Rightarrow> bool \<Rightarrow> (nsh_attr list \<Rightarrow> bool) \<Rightarrow> addr \<Rightarrow> nsh_dev \<Rightarrow> int \<times> nsh_attr list option" where
  "nsh_nl_dev_send env hdr fits d nd =
     (if \<not> hdr then (- EMSGSIZE, None)
      else let attrs = [ASpi (drop_bit 8 (htonl (nd_key nd))), ASi (ucast (htonl (nd_key nd) AND 0xFF)), AIfindex (ne_ifindex env d)] in
        if fits attrs then (0, Some attrs) else (- 1, None))"

definition nsh_nl_cmd_dev_dump ::
  "nsh_env \<Rightarrow> bool \<Rightarrow> (nsh_attr list \<Rightarrow> bool) \<Rightarrow> nat \<Rightarrow> nsh_net \<Rightarrow> int \<times> nat \<times> nsh_attr list option" where
  "nsh_nl_cmd_dev_dump env hdr fits idx nn =
     (case dump_bucket idx (nsh_dev_list nn) 0 of
        (None, cnt) \<Rightarrow> (0, cnt + 1, None)
      | (Some d, cnt) \<Rightarrow>
          (case nsh_nl_dev_send env hdr fits d (nsh_devs nn d) of
             (err, msg) \<Rightarrow> if err < 0 then (- 1, idx, None) else (1, cnt + 1, msg)))"

section \<open>Namespaces and the module\<close>

text \<open>\<open>err\<close> is the result of \<^verbatim>\<open>udp_sock_create\<close>; the socket is known by the port it is bound to.\<close>

definition nsh_vxlan_create_sock :: "int \<Rightarrow> u16 \<Rightarrow> int + u16" where
  "nsh_vxlan_create_sock err port = (if err < 0 then Inl err else Inr port)"

definition nshkmod_init_net :: "int \<Rightarrow> nsh_net \<Rightarrow> int \<times> nsh_net" where
  "nshkmod_init_net sock_err nn =
     (let nn = nn\<lparr>nsh_tab := replicate NSH_HASH_SIZE [], nsh_dev_list := []\<rparr> in
      (case nsh_vxlan_create_sock sock_err VXLAN_GPE_PORT of
         Inl _ \<Rightarrow> (- EINVAL, nn)
       | Inr port \<Rightarrow> (0, nn\<lparr>nsh_sock := Some port\<rparr>)))"

text \<open>\<open>here\<close> are the devices of the namespace with their link type, \<open>moved\<close> tells which of the module's
  devices live in another namespace; the first result is what is unregistered.\<close>

definition nshkmod_exit_net :: "(addr \<times> bool) list \<Rightarrow> (addr \<Rightarrow> bool) \<Rightarrow> nsh_net \<Rightarrow> addr list \<times> nsh_net" where
  "nshkmod_exit_net here moved nn =
     (map fst (filter snd here) @ filter moved (nsh_dev_list nn), (nsh_destroy_table nn)\<lparr>nsh_sock := None\<rparr>)"

datatype nsh_service = PernetOps | NetdevNotifier | LinkOps | GenlFamily | PacketType

text \<open>The services registered after the start, given the results of the registrations.\<close>

definition nshkmod_init_module :: "int \<Rightarrow> int \<Rightarrow> int \<Rightarrow> int \<Rightarrow> int \<times> nsh_service set" where
  "nshkmod_init_module pernet_rc notify_rc link_rc genl_rc =
     (if pernet_rc \<noteq> 0 then (pernet_rc, {})
      else let r = {PernetOps} in
      if notify_rc \<noteq> 0 then (notify_rc, r - {PernetOps})
      else let r = insert NetdevNotifier r in
      if link_rc \<noteq> 0 then (link_rc, r - {NetdevNotifier} - {PernetOps})
      else let r = insert LinkOps r in
      if genl_rc \<noteq> 0 then (genl_rc, r - {LinkOps} - {NetdevNotifier} - {PernetOps})
      else (0, insert PacketType (insert GenlFamily r)))"

definition nshkmod_exit_module :: "nsh_service set \<Rightarrow> nsh_service set" where
  "nshkmod_exit_module r = r - {LinkOps} - {NetdevNotifier} - {PernetOps} - {GenlFamily} - {PacketType}"

end
