(* ===== verification/Nsh_Props.thy ===== *)
theory Nsh_Props
  imports Nsh_Ctl
begin

text \<open>
  What \<^verbatim>\<open>nshkmod.c\<close> promises: a frame sent into a path arrives unchanged at the path's device, on
  this machine or behind a VXLAN-GPE tunnel, path keys are what the user configured, the path
  table is a map, and removing a device leaves no path to it.
\<close>

section \<open>A machine with one path\<close>

definition nsh_dev0 :: nsh_dev where
  "nsh_dev0 = \<lparr>nd_key = path_key 7 3, nd_mtu = 1500, nd_tx_packets = 0, nd_tx_bytes = 0, nd_rx_packets = 0, nd_rx_bytes = 0,
     nd_tx_errors = 0, nd_tx_carrier_errors = 0, nd_tx_dropped = 0, nd_collisions = 0\<rparr>"

definition nsh_path :: "u8 \<Rightarrow> ptr \<Rightarrow> nsh_dst option \<Rightarrow> nsh_table" where
  "nsh_path enc rdev rdst = \<lparr>nt_key = path_key 7 3, nt_spi = 7, nt_si = 3, nt_mdtype = 1, nt_encap_type = enc, nt_rdev = rdev, nt_rdst = rdst\<rparr>"

definition nsh_world :: "nsh_table list \<Rightarrow> nsh_net" where
  "nsh_world b = \<lparr>nsh_tab = (replicate 256 [])[0 := b], nsh_dev_list = [1, 2], nsh_devs = (\<lambda>d. nsh_dev0), nsh_sock = Some VXLAN_GPE_PORT, nsh_mem = 5\<rparr>"

definition nsh_env0 :: nsh_env where
  "nsh_env0 = \<lparr>ne_hash = (\<lambda>k. 0), ne_madcap_enable = False, madcap_capable = (\<lambda>d. False), ne_dev_by_index = (\<lambda>i. if i = 2 then Some 2 else None),
     ne_is_nsh = (\<lambda>d. d \<le> 2), ne_dev_addr = (\<lambda>d. replicate 6 0), ne_dev_mtu = (\<lambda>d. 1500), ne_ifindex = (\<lambda>d. word_of_nat d),
     ne_cow_head = (\<lambda>n. 0), tunnel_route = (\<lambda>dst src oif. Some 3), flow_src_port = 5000, offloads_ok = True, udp_rc = 0, queue_rc = 0,
     ne_mtu_ok = (\<lambda>m. 68 \<le> m \<and> m \<le> 1500)\<rparr>"

abbreviation nsh_peer :: nsh_dst where
  "nsh_peer \<equiv> \<lparr>remote_ip = 0x0A000002, local_ip = 0x0A000001, vni = 9, lowerdev = None, eth_addr = replicate 6 0\<rparr>"

lemma nsh_world_find: "nsh_find_table (ne_hash nsh_env0) (nsh_world [nsh_path enc rdev rdst]) (path_key 7 3) = Some (nsh_path enc rdev rdst)"
  by (simp add: nsh_find_table_def nsh_table_head_def nsh_env0_def nsh_world_def nsh_path_def)

lemma nsh_world_dev [simp]: "nsh_devs (nsh_world b) d = nsh_dev0" "nd_key nsh_dev0 = path_key 7 3"
  by (simp_all add: nsh_world_def nsh_dev0_def)

lemma demo_index: "htonl (path_key 7 3) AND 0xFF \<noteq> 0"
  by (simp add: path_key_def push_bit_eq_mult)

section \<open>Headers\<close>

definition md_hlen :: "u8 \<Rightarrow> nat" where
  "md_hlen mdtype = (if mdtype = NSH_BASE_MDTYPE1 then NSH_MDTYPE1_HLEN else NSH_MDTYPE2_0_HLEN)"

lemma length_nsh_header: "length (nsh_header mdtype key (md_hlen mdtype)) = md_hlen mdtype"
  by (simp add: nsh_header_def md_hlen_def)

lemma le_word_be32 [simp]: "le_word (le_bytes 4 key) = (key :: u32)"
  by (simp add: wire_simps)

text \<open>A header the module wrote passes the checks of \<^verbatim>\<open>nsh_recv\<close> and tells its own length.\<close>

lemma recv_header:
  assumes idx: "htonl key AND 0xFF \<noteq> 0" and find: "nsh_find_table (ne_hash env) nn key = Some nt" "nt_rdev nt = Some e"
  shows "nsh_recv env nn (nsh_header mdtype key (md_hlen mdtype) @ pkt) =
    Some (0, NDelivered e pkt, upd_dev nn e (count_rx (frame_len pkt)))"
proof -
  let ?h = "nsh_header mdtype key (md_hlen mdtype)"
  have base: "read_bytes (?h @ pkt) 0 8 = Some ([0, word_of_nat (md_hlen mdtype div 4), mdtype, NSH_BASE_PROTO_ETH] @ le_bytes 4 key)"
    by (simp add: read_bytes_def nsh_header_def)
  have hl: "unat (word_of_nat (md_hlen mdtype div 4) AND 0x3F :: u8) * 4 = md_hlen mdtype"
    by (simp add: md_hlen_def)
  show ?thesis
    unfolding nsh_recv_def base
    using idx find length_nsh_header [of mdtype key] by (simp add: hl Let_def)
qed

lemma vxlan_recv:
  assumes "length udp = 8"
  shows "nsh_vxlan_udp_encap_recv env nn (udp @ vxlan_header v @ pkt) = nsh_recv env nn pkt"
  using assms by (simp add: nsh_vxlan_udp_encap_recv_def vxlan_header_def)

section \<open>Frames\<close>

lemma xmit_forward:
  assumes "nsh_find_table (ne_hash env) nn (nd_key (nsh_devs nn d)) = Some nt"
    "nt_mdtype nt \<in> {NSH_BASE_MDTYPE1, NSH_BASE_MDTYPE2}" "\<forall>n. ne_cow_head env n = 0" "\<not> ne_madcap_enable env"
  shows "nsh_xmit env nn d pkt = nsh_forward env nn d nt False (length pkt)
    (nsh_header (nt_mdtype nt) (nd_key (nsh_devs nn d)) (md_hlen (nt_mdtype nt)) @ pkt)"
  using assms by (auto simp: nsh_xmit_def madcap_on_def md_hlen_def)

text \<open>With madcap on, the frame with its NSH and VXLAN headers is queued on the lower device.\<close>

lemma xmit_offload:
  assumes "nsh_find_table (ne_hash env) nn (nd_key (nsh_devs nn d)) = Some nt" "nt_rdev nt = None" "nt_rdst nt = Some dst"
    "nt_encap_type nt = NSH_ENCAP_TYPE_VXLAN" "lowerdev dst = Some ld"
    "nt_mdtype nt \<in> {NSH_BASE_MDTYPE1, NSH_BASE_MDTYPE2}" "\<forall>n. ne_cow_head env n = 0"
    "ne_madcap_enable env" "madcap_capable env ld" "queue_rc env \<ge> 0"
  shows "nsh_xmit env nn d pkt = Some (NMadcap ld (vxlan_header (vni dst) @
      nsh_header (nt_mdtype nt) (nd_key (nsh_devs nn d)) (md_hlen (nt_mdtype nt)) @ pkt), upd_dev nn d (count_nsh_tx (length pkt)))"
  using assms by (auto simp: nsh_xmit_def madcap_on_def md_hlen_def nsh_forward_def nsh_xmit_vxlan_madcap_def madcap_queue_xmit_def xmit_end_def)

text \<open>A frame sent by a device whose path ends at a device of this machine is delivered
  there unchanged, and both devices count it.\<close>

lemma nsh_local_roundtrip:
  assumes nt: "nsh_find_table (ne_hash env) nn (nd_key (nsh_devs nn d)) = Some nt" "nt_rdev nt = Some e"
    and idx: "htonl (nd_key (nsh_devs nn d)) AND 0xFF \<noteq> 0"
    and md: "nt_mdtype nt \<in> {NSH_BASE_MDTYPE1, NSH_BASE_MDTYPE2}"
    and room: "\<forall>n. ne_cow_head env n = 0" and off: "\<not> ne_madcap_enable env"
  shows "nsh_xmit env nn d pkt = Some (NDelivered e pkt,
    upd_dev (upd_dev nn e (count_rx (frame_len pkt))) d (count_nsh_tx (length pkt)))"
proof -
  let ?k = "nd_key (nsh_devs nn d)"
  have "nsh_xmit env nn d pkt = nsh_forward env nn d nt False (length pkt) (nsh_header (nt_mdtype nt) ?k (md_hlen (nt_mdtype nt)) @ pkt)"
    by (rule xmit_forward [OF nt(1) md room off])
  also have "\<dots> = Some (NDelivered e pkt, upd_dev (upd_dev nn e (count_rx (frame_len pkt))) d (count_nsh_tx (length pkt)))"
    using nt recv_header [OF idx nt, of "nt_mdtype nt" pkt] by (simp add: nsh_forward_def xmit_end_def)
  finally show ?thesis .
qed

lemma nsh_local_roundtrip_witness:
  "\<exists>nn'. nsh_xmit nsh_env0 (nsh_world [nsh_path 0 (Some 2) None]) 1 [1, 2, 3] = Some (NDelivered 2 [1, 2, 3], nn')"
proof -
  let ?nn = "nsh_world [nsh_path 0 (Some 2) None]"
  have "nsh_find_table (ne_hash nsh_env0) ?nn (nd_key (nsh_devs ?nn 1)) = Some (nsh_path 0 (Some 2) None)"
    using nsh_world_find by simp
  from nsh_local_roundtrip [OF this, of 2 "[1, 2, 3]"] demo_index show ?thesis
    by (simp add: nsh_path_def nsh_env0_def)
qed



section \<open>Keys\<close>

lemma key_parts:
  "htonl (path_key spi si) AND 0xFF = ucast si" "drop_bit 8 (htonl (path_key spi si)) = take_bit 24 spi"
proof -
  have m: "(0xFF :: u32) = mask 8" by (simp add: mask_eq_exp_minus_1)
  show "htonl (path_key spi si) AND 0xFF = ucast si"
    unfolding m by (rule bit_word_eqI) (auto simp: path_key_def bit_simps dest: bit_imp_le_length)
  show "drop_bit 8 (htonl (path_key spi si)) = take_bit 24 spi"
    by (rule bit_word_eqI) (auto simp: path_key_def bit_simps dest: bit_imp_le_length)
qed

text \<open>The key of a device is the path it was created with: the service index and the
  low 24 bits of the service path are what the link and the dumps report, so different
  (path, index) pairs with 24-bit paths have different keys, and a path number above 24 bits is
  silently cut.\<close>

lemma path_key_roundtrip:
  "nsh_newlink (Some spi) (Some si) 0 d nn = (0, nn') \<longrightarrow>
    nsh_fill_info True (nsh_devs nn' d) = (0, Some (take_bit 24 spi, si)) \<and>
    (path_key spi si = path_key spi' si' \<longleftrightarrow> take_bit 24 spi = take_bit 24 spi' \<and> si = si')"
proof -
  have si: "ucast (ucast si :: u32) = si" for si :: u8 by (rule bit_word_eqI) (simp add: bit_simps)
  have "path_key spi si = path_key spi' si' \<longleftrightarrow> take_bit 24 spi = take_bit 24 spi' \<and> si = si'"
  proof
    assume e: "path_key spi si = path_key spi' si'"
    then have "(ucast si :: u32) = ucast si'" "take_bit 24 spi = take_bit 24 spi'"
      using key_parts [of spi si] key_parts [of spi' si'] by metis+
    then show "take_bit 24 spi = take_bit 24 spi' \<and> si = si'" using si by metis
  next
    assume "take_bit 24 spi = take_bit 24 spi' \<and> si = si'"
    moreover have "push_bit 8 x = push_bit 8 (take_bit 24 x)" for x :: u32
      by (rule bit_word_eqI) (auto simp: bit_simps)
    ultimately show "path_key spi si = path_key spi' si'" unfolding path_key_def by metis
  qed
  then show ?thesis
    by (auto simp: nsh_newlink_def nsh_fill_info_def upd_dev_def key_parts si Let_def)
qed

lemma path_key_roundtrip_witness:
  "nsh_fill_info True (nsh_devs (snd (nsh_newlink (Some 0x1000007) (Some 3) 0 1 (nsh_world []))) 1) = (0, Some (7, 3))"
proof -
  obtain nn' where n: "nsh_newlink (Some 0x1000007) (Some 3) 0 1 (nsh_world []) = (0, nn')"
    by (simp add: nsh_newlink_def Let_def)
  have "take_bit 24 (0x1000007 :: u32) = 7" by (simp add: take_bit_eq_mod)
  with path_key_roundtrip [of "0x1000007" 3 1 "nsh_world []" nn' 0 0] n show ?thesis by simp
qed

section \<open>Paths\<close>

definition nsh_ok :: "hash32 \<Rightarrow> nsh_net \<Rightarrow> bool" where
  "nsh_ok hash nn \<longleftrightarrow> buckets_ok nt_key hash (nsh_tab nn) \<and> distinct (map nt_key (concat (nsh_tab nn)))"

lemma nsh_head_bound: "nsh_ok hash nn \<Longrightarrow> nsh_table_head hash key < length (nsh_tab nn)"
  by (simp add: nsh_ok_def buckets_ok_def nsh_table_head_def)

lemma nsh_find_None: "nsh_ok hash nn \<Longrightarrow> nsh_find_table hash nn key = None \<longleftrightarrow> key \<notin> nt_key ` set (concat (nsh_tab nn))"
  using table_find_None [of nt_key hash "nsh_tab nn" key] by (simp add: nsh_ok_def nsh_find_table_def nsh_table_head_def)

lemma nsh_find_Some:
  assumes ok: "nsh_ok hash nn"
  shows "nsh_find_table hash nn key = Some nt \<longleftrightarrow> nt \<in> set (concat (nsh_tab nn)) \<and> nt_key nt = key"
proof
  assume "nsh_find_table hash nn key = Some nt"
  then show "nt \<in> set (concat (nsh_tab nn)) \<and> nt_key nt = key"
    using table_find_Some [of nt_key hash "nsh_tab nn" key nt] ok by (simp add: nsh_ok_def nsh_find_table_def nsh_table_head_def)
next
  assume nt: "nt \<in> set (concat (nsh_tab nn)) \<and> nt_key nt = key"
  then have "key \<in> nt_key ` set (concat (nsh_tab nn))" by blast
  then obtain x where x: "nsh_find_table hash nn key = Some x" using nsh_find_None [OF ok, of key] by auto
  then have "x \<in> set (concat (nsh_tab nn)) \<and> nt_key x = key"
    using table_find_Some [of nt_key hash "nsh_tab nn" key x] ok by (simp add: nsh_ok_def nsh_find_table_def nsh_table_head_def)
  then have "x = nt" using nt ok by (auto simp: nsh_ok_def distinct_map inj_on_def)
  with x show "nsh_find_table hash nn key = Some nt" by simp
qed

lemma nsh_find_insert:
  assumes ok: "nsh_ok hash nn" "nsh_ok hash nn'" and s: "set (concat (nsh_tab nn')) = insert nt (set (concat (nsh_tab nn)))"
  shows "nsh_find_table hash nn' k = (if k = nt_key nt then Some nt else nsh_find_table hash nn k)"
proof (cases "k = nt_key nt")
  case True
  then have "nsh_find_table hash nn' k = Some nt" unfolding nsh_find_Some [OF ok(2)] s by simp
  with True show ?thesis by simp
next
  case False
  then have "nsh_find_table hash nn' k = Some x \<longleftrightarrow> nsh_find_table hash nn k = Some x" for x
    unfolding nsh_find_Some [OF ok(2)] nsh_find_Some [OF ok(1)] s by auto
  with False show ?thesis by (metis not_Some_eq)
qed

lemma nsh_add_ok:
  assumes ok: "nsh_ok hash nn" and new: "nsh_find_table hash nn key = None" and mem: "nsh_mem nn \<noteq> 0"
  shows "\<exists>nt nn'. nsh_add_table hash nn key mdtype enc rdev rdst = (0, nn') \<and> nsh_ok hash nn' \<and>
    nt_key nt = key \<and> nt_mdtype nt = mdtype \<and> nt_encap_type nt = enc \<and> nt_rdev nt = rdev \<and> nt_rdst nt = rdst \<and>
    mset (concat (nsh_tab nn')) = add_mset nt (mset (concat (nsh_tab nn))) \<and>
    (\<forall>k. nsh_find_table hash nn' k = (if k = key then Some nt else nsh_find_table hash nn k))"
proof -
  let ?nt = "\<lparr>nt_key = key, nt_spi = drop_bit 8 (htonl key), nt_si = ucast (htonl key AND 0xFF), nt_mdtype = mdtype,
      nt_encap_type = enc, nt_rdev = rdev, nt_rdst = rdst\<rparr>"
  let ?n = "nsh_table_head hash key"
  let ?nn = "nn\<lparr>nsh_tab := (nsh_tab nn)[?n := ?nt # nsh_tab nn ! ?n], nsh_mem := nsh_mem nn - 1\<rparr>"
  have bk: "buckets_ok nt_key hash (nsh_tab nn)" using ok by (simp add: nsh_ok_def)
  have m: "mset (concat (nsh_tab ?nn)) = add_mset ?nt (mset (concat (nsh_tab nn)))" "buckets_ok nt_key hash (nsh_tab ?nn)"
    using table_add [OF bk, of ?nt] by (simp_all add: nsh_table_head_def)
  have "key \<notin> nt_key ` set (concat (nsh_tab nn))" using nsh_find_None [OF ok] new by simp
  then have ok': "nsh_ok hash ?nn" using distinct_mset_map [OF m(1), of nt_key] m(2) ok by (simp add: nsh_ok_def)
  have s: "set (concat (nsh_tab ?nn)) = insert ?nt (set (concat (nsh_tab nn)))"
    using arg_cong [OF m(1), of set_mset] by simp
  have "nsh_find_table hash ?nn k = (if k = key then Some ?nt else nsh_find_table hash nn k)" for k
    using nsh_find_insert [OF ok ok' s, of k] by simp
  moreover have "nsh_add_table hash nn key mdtype enc rdev rdst = (0, ?nn)" using mem by (simp add: nsh_add_table_def Let_def)
  ultimately show ?thesis using ok' m(1) by (intro exI [of _ ?nt] exI [of _ ?nn]) simp
qed

lemma nsh_delete_ok:
  assumes ok: "nsh_ok hash nn" and f: "nsh_find_table hash nn key = Some nt"
  shows "nsh_ok hash (nsh_delete_table hash nn nt) \<and>
    mset (concat (nsh_tab nn)) = add_mset nt (mset (concat (nsh_tab (nsh_delete_table hash nn nt)))) \<and>
    (\<forall>k. nsh_find_table hash (nsh_delete_table hash nn nt) k = (if k = key then None else nsh_find_table hash nn k))"
proof -
  let ?nn = "nsh_delete_table hash nn nt"
  have nt: "nt \<in> set (concat (nsh_tab nn))" "nt_key nt = key" using f nsh_find_Some [OF ok] by blast+
  have bk: "buckets_ok nt_key hash (nsh_tab nn)" using ok by (simp add: nsh_ok_def)
  have bf: "bucket_find nt_key key (nsh_tab nn ! unat (hash key)) = Some nt"
    using f by (simp add: nsh_find_table_def nsh_table_head_def)
  have m: "mset (concat (nsh_tab ?nn)) = mset (concat (nsh_tab nn)) - {#nt#}" "buckets_ok nt_key hash (nsh_tab ?nn)"
    using table_del [OF bk bf] nt(2) by (simp_all add: nsh_delete_table_def Let_def nsh_table_head_def)
  have e: "mset (concat (nsh_tab nn)) = add_mset nt (mset (concat (nsh_tab ?nn)))" using m(1) nt(1) by simp
  then have d: "nt_key nt \<notin> nt_key ` set (concat (nsh_tab ?nn))" "distinct (map nt_key (concat (nsh_tab ?nn)))"
    using distinct_mset_map [OF e, of nt_key] ok by (simp_all add: nsh_ok_def)
  have ok': "nsh_ok hash ?nn" using m(2) d(2) by (simp add: nsh_ok_def)
  have s: "set (concat (nsh_tab nn)) = insert nt (set (concat (nsh_tab ?nn)))" using arg_cong [OF e, of set_mset] by simp
  have "nsh_find_table hash ?nn k = (if k = key then None else nsh_find_table hash nn k)" for k
  proof (cases "k = key")
    case True
    then have "k \<notin> nt_key ` set (concat (nsh_tab ?nn))" using d(1) nt(2) by simp
    then have "nsh_find_table hash ?nn k = None" using nsh_find_None [OF ok', of k] by blast
    with True show ?thesis by simp
  next
    case False
    with nsh_find_insert [OF ok' ok s, of k] nt(2) show ?thesis by simp
  qed
  with ok' e show ?thesis by blast
qed

lemma path_set_local:
  assumes ok: "nsh_ok (ne_hash env) nn" and at: "na_spi at = Some spi" "na_si at = Some si" "na_encap at = None"
    and dev: "na_ifindex at = Some i" "ne_dev_by_index env i = Some e" "ne_is_nsh env e" and mem: "nsh_mem nn \<noteq> 0"
    and new: "nsh_find_table (ne_hash env) nn (path_key spi si) = None"
  obtains nt nn' where "nsh_nl_cmd_path_dst_set env mnet junk at nn w = (0, nn', w)" "nsh_ok (ne_hash env) nn'"
    "nt_rdev nt = Some e" "nt_rdst nt = None" "nt_encap_type nt = NSH_ENCAP_TYPE_NONE"
    "\<And>k. nsh_find_table (ne_hash env) nn' k = (if k = path_key spi si then Some nt else nsh_find_table (ne_hash env) nn k)"
proof -
  let ?k = "path_key spi si"
  obtain nt nn' where a: "nsh_add_table (ne_hash env) nn ?k (opt NSH_BASE_MDTYPE1 (na_mdtype at)) NSH_ENCAP_TYPE_NONE (Some e) None = (0, nn')"
      "nsh_ok (ne_hash env) nn'" "nt_rdev nt = Some e" "nt_rdst nt = None" "nt_encap_type nt = NSH_ENCAP_TYPE_NONE"
      "\<forall>k. nsh_find_table (ne_hash env) nn' k = (if k = ?k then Some nt else nsh_find_table (ne_hash env) nn k)"
    using nsh_add_ok [OF ok new mem] by blast
  have "nsh_nl_cmd_path_dst_set env mnet junk at nn w = (0, nn', w)"
    using at dev new a(1) by (simp add: nsh_nl_cmd_path_dst_set_def path_set_none_def opt_def)
  with a that show ?thesis by blast
qed

text \<open>The path table is a map from keys: setting a path to a device binds its key, a
  bound key is refused with \<^verbatim>\<open>-EEXIST\<close>, and unsetting unbinds it, so that the table answers as
  before.\<close>

lemma path_set_unset:
  assumes ok: "nsh_ok (ne_hash env) nn" and at: "na_spi at = Some spi" "na_si at = Some si" "na_encap at = None"
    and dev: "na_ifindex at = Some i" "ne_dev_by_index env i = Some e" "ne_is_nsh env e" and mem: "nsh_mem nn \<noteq> 0"
    and new: "nsh_find_table (ne_hash env) nn (path_key spi si) = None"
  shows "\<exists>nt nn' nn''. nsh_nl_cmd_path_dst_set env mnet junk at nn w = (0, nn', w) \<and> nsh_ok (ne_hash env) nn' \<and>
    nsh_find_table (ne_hash env) nn' (path_key spi si) = Some nt \<and> nt_rdev nt = Some e \<and> nt_rdst nt = None \<and>
    nsh_nl_cmd_path_dst_set env mnet junk at nn' w = (- EEXIST, nn', w) \<and>
    nsh_nl_cmd_path_dst_unset env at nn' = (0, nn'') \<and> nsh_find_table (ne_hash env) nn'' = nsh_find_table (ne_hash env) nn"
proof -
  let ?k = "path_key spi si"
  obtain nt nn' where set_rc: "nsh_nl_cmd_path_dst_set env mnet junk at nn w = (0, nn', w)"
    and a: "nsh_ok (ne_hash env) nn'" "nt_rdev nt = Some e" "nt_rdst nt = None"
      "\<And>k. nsh_find_table (ne_hash env) nn' k = (if k = ?k then Some nt else nsh_find_table (ne_hash env) nn k)"
    using path_set_local [OF ok at dev mem new] by metis
  have f: "nsh_find_table (ne_hash env) nn' ?k = Some nt" using a(4) by simp
  have del: "nsh_nl_cmd_path_dst_unset env at nn' = (0, nsh_delete_table (ne_hash env) nn' nt)"
    using at f by (simp add: nsh_nl_cmd_path_dst_unset_def)
  have "nsh_find_table (ne_hash env) (nsh_delete_table (ne_hash env) nn' nt) = nsh_find_table (ne_hash env) nn"
    using nsh_delete_ok [OF a(1) f] a(4) new by auto
  moreover have "nsh_nl_cmd_path_dst_set env mnet junk at nn' w = (- EEXIST, nn', w)"
    using at f by (simp add: nsh_nl_cmd_path_dst_set_def)
  ultimately show ?thesis using set_rc a(1-3) f del by blast
qed

definition path_request :: nsh_attrs where
  "path_request = \<lparr>na_ifindex = Some 2, na_spi = Some 7, na_si = Some 3, na_mdtype = None, na_encap = None, na_remote = None,
     na_local = None, na_vni = None, na_ethaddr = None\<rparr>"

lemma nsh_world_empty: "nsh_ok hash (nsh_world [])"
proof -
  have "(replicate NSH_HASH_SIZE [])[0 := []] = replicate NSH_HASH_SIZE ([] :: nsh_table list)"
    by (rule list_update_same_conv [THEN iffD2]) simp_all
  then show ?thesis by (simp add: nsh_ok_def nsh_world_def)
qed

lemma path_set_unset_witness:
  "\<exists>nt nn'. nsh_nl_cmd_path_dst_set nsh_env0 (madcap_init_net :: unit madcap_net) nsh_peer path_request (nsh_world []) () = (0, nn', ()) \<and>
    nsh_find_table (ne_hash nsh_env0) nn' (path_key 7 3) = Some nt \<and> nt_rdev nt = Some 2"
proof -
  have "nsh_find_table (ne_hash nsh_env0) (nsh_world []) (path_key 7 3) = None"
    by (simp add: nsh_find_table_def nsh_world_def nsh_env0_def nsh_table_head_def)
  then have "\<exists>nt nn' nn''. nsh_nl_cmd_path_dst_set nsh_env0 (madcap_init_net :: unit madcap_net) nsh_peer path_request (nsh_world []) () = (0, nn', ()) \<and>
    nsh_ok (ne_hash nsh_env0) nn' \<and> nsh_find_table (ne_hash nsh_env0) nn' (path_key 7 3) = Some nt \<and> nt_rdev nt = Some 2 \<and> nt_rdst nt = None \<and>
    nsh_nl_cmd_path_dst_set nsh_env0 (madcap_init_net :: unit madcap_net) nsh_peer path_request nn' () = (- EEXIST, nn', ()) \<and>
    nsh_nl_cmd_path_dst_unset nsh_env0 path_request nn' = (0, nn'') \<and>
    nsh_find_table (ne_hash nsh_env0) nn'' = nsh_find_table (ne_hash nsh_env0) (nsh_world [])"
    by (intro path_set_unset [OF nsh_world_empty])
      (simp_all add: path_request_def nsh_env0_def nsh_world_def)
  then show ?thesis by blast
qed

text \<open>A path over VXLAN that names no lower device keeps whatever the fresh memory held
  as its lower device, which transmission, dumps and madcap then dereference; and a request that
  names a device that does not exist loses the destination it allocated.\<close>

lemma vxlan_path_uninitialised:
  assumes ok: "nsh_ok (ne_hash env) nn" and at: "na_spi at = Some spi" "na_si at = Some si" "na_encap at = Some NSH_ENCAP_TYPE_VXLAN"
      "na_remote at = Some ip" and mem: "2 \<le> nsh_mem nn" and new: "nsh_find_table (ne_hash env) nn (path_key spi si) = None"
  shows "(na_ifindex at = None \<longrightarrow> (\<exists>nt dst nn'. nsh_nl_cmd_path_dst_set env mnet junk at nn w = (0, nn', w) \<and>
      nsh_find_table (ne_hash env) nn' (path_key spi si) = Some nt \<and> nt_rdst nt = Some dst \<and> lowerdev dst = lowerdev junk)) \<and>
    (\<forall>i. na_ifindex at = Some i \<and> ne_dev_by_index env i = None \<longrightarrow>
      nsh_nl_cmd_path_dst_set env mnet junk at nn w = (- ENODEV, nn\<lparr>nsh_mem := nsh_mem nn - 1\<rparr>, w))"
proof -
  let ?k = "path_key spi si" and ?nn = "nn\<lparr>nsh_mem := nsh_mem nn - 1\<rparr>"
  let ?dst = "junk\<lparr>remote_ip := ip, local_ip := opt 0 (na_local at), vni := opt 0 (na_vni at)\<rparr>"
  have ok': "nsh_ok (ne_hash env) ?nn" using ok by (simp add: nsh_ok_def)
  have new': "nsh_find_table (ne_hash env) ?nn ?k = None" using new by (simp add: nsh_find_table_def)
  have "nsh_mem ?nn \<noteq> 0" using mem by simp
  from nsh_add_ok [OF ok' new' this, of "opt NSH_BASE_MDTYPE1 (na_mdtype at)" NSH_ENCAP_TYPE_VXLAN None "Some ?dst"] obtain nt nn' where
    a: "nsh_add_table (ne_hash env) ?nn ?k (opt NSH_BASE_MDTYPE1 (na_mdtype at)) NSH_ENCAP_TYPE_VXLAN None (Some ?dst) = (0, nn')"
      "nt_rdst nt = Some ?dst" "\<forall>k. nsh_find_table (ne_hash env) nn' k = (if k = ?k then Some nt else nsh_find_table (ne_hash env) ?nn k)"
    by blast
  have run: "nsh_nl_cmd_path_dst_set env mnet junk at nn w =
      path_set_vxlan env mnet junk at ?k (opt NSH_BASE_MDTYPE1 (na_mdtype at)) nn w"
    using at new by (simp add: nsh_nl_cmd_path_dst_set_def opt_def)
  have "na_ifindex at = None \<longrightarrow> nsh_nl_cmd_path_dst_set env mnet junk at nn w = (0, nn', w)"
    unfolding run path_set_vxlan_def using at mem a(1) by (simp add: Let_def)
  moreover have "lowerdev ?dst = lowerdev junk" by simp
  moreover have "na_ifindex at = Some i \<and> ne_dev_by_index env i = None \<longrightarrow>
      nsh_nl_cmd_path_dst_set env mnet junk at nn w = (- ENODEV, ?nn, w)" for i
    unfolding run path_set_vxlan_def using at mem by (simp add: Let_def)
  ultimately show ?thesis using a(2,3) by metis
qed

lemma vxlan_path_uninitialised_witness:
  "\<exists>nt dst nn'. nsh_nl_cmd_path_dst_set nsh_env0 (madcap_init_net :: unit madcap_net) (nsh_peer\<lparr>lowerdev := Some 0xDEAD\<rparr>)
      (path_request\<lparr>na_ifindex := None, na_encap := Some 1, na_remote := Some 9\<rparr>) (nsh_world []) () = (0, nn', ()) \<and>
    nsh_find_table (ne_hash nsh_env0) nn' (path_key 7 3) = Some nt \<and> nt_rdst nt = Some dst \<and> lowerdev dst = Some 0xDEAD"
proof -
  let ?at = "path_request\<lparr>na_ifindex := None, na_encap := Some 1, na_remote := Some 9\<rparr>"
  have at: "na_spi ?at = Some 7" "na_si ?at = Some 3" "na_encap ?at = Some 1" "na_remote ?at = Some 9" "na_ifindex ?at = None"
    by (simp_all add: path_request_def)
  have "nsh_find_table (ne_hash nsh_env0) (nsh_world []) (path_key 7 3) = None"
    by (simp add: nsh_find_table_def nsh_world_def nsh_env0_def nsh_table_head_def)
  moreover have "2 \<le> nsh_mem (nsh_world [])" by (simp add: nsh_world_def)
  ultimately show ?thesis
    using vxlan_path_uninitialised [OF nsh_world_empty at(1-4), of nsh_env0 "madcap_init_net :: unit madcap_net"
        "nsh_peer\<lparr>lowerdev := Some 0xDEAD\<rparr>" "()"] at(5) by simp
qed

text \<open>With madcap enabled, a path to a device of this machine is a trap: after the requests
  that set the path and assign it to a device, both of which succeed, the first frame sent on
  that device crashes the kernel, because \<^verbatim>\<open>nsh_xmit\<close> looks at the lower device of a destination
  that is null.\<close>

lemma madcap_local_path_crashes:
  assumes ok: "nsh_ok (ne_hash env) nn" and at: "na_spi at = Some spi" "na_si at = Some si" "na_encap at = None"
    and dev: "na_ifindex at = Some i" "ne_dev_by_index env i = Some e" "ne_is_nsh env e" and mem: "nsh_mem nn \<noteq> 0"
    and new: "nsh_find_table (ne_hash env) nn (path_key spi si) = None"
    and src: "ne_dev_by_index env j = Some d" "ne_is_nsh env d" and on: "ne_madcap_enable env"
  shows "\<exists>nn1 nn2. nsh_nl_cmd_path_dst_set env mnet junk at nn w = (0, nn1, w) \<and>
    nsh_nl_cmd_dev_path_set env (at\<lparr>na_ifindex := Some j\<rparr>) nn1 = Some (0, nn2) \<and> nsh_xmit env nn2 d pkt = None"
proof -
  let ?k = "path_key spi si"
  obtain nt nn1 where a: "nsh_nl_cmd_path_dst_set env mnet junk at nn w = (0, nn1, w)" "nt_rdst nt = None"
      "nt_encap_type nt = NSH_ENCAP_TYPE_NONE" "\<And>k. nsh_find_table (ne_hash env) nn1 k = (if k = ?k then Some nt else nsh_find_table (ne_hash env) nn k)"
    using path_set_local [OF ok at dev mem new] by metis
  define nn2 where "nn2 = upd_dev nn1 d (nd_key_update (\<lambda>_. ?k))"
  have "nsh_nl_cmd_dev_path_set env (at\<lparr>na_ifindex := Some j\<rparr>) nn1 = Some (0, nn2)"
    using at src a(3,4) by (simp add: nsh_nl_cmd_dev_path_set_def nsh_target_def nsh_change_mtu_for_path_def nn2_def)
  moreover have "nsh_find_table (ne_hash env) nn2 (nd_key (nsh_devs nn2 d)) = Some nt"
    using a(4) [of ?k] by (simp add: nn2_def upd_dev_def nsh_find_table_def)
  then have "nsh_xmit env nn2 d pkt = None" using on a(2) by (simp add: nsh_xmit_def madcap_on_def)
  ultimately show ?thesis using a(1) by blast
qed

lemma madcap_local_path_crashes_witness:
  "\<exists>nn1 nn2. nsh_nl_cmd_path_dst_set (nsh_env0\<lparr>ne_madcap_enable := True\<rparr>) (madcap_init_net :: unit madcap_net) nsh_peer path_request
      (nsh_world []) () = (0, nn1, ()) \<and>
    nsh_nl_cmd_dev_path_set (nsh_env0\<lparr>ne_madcap_enable := True\<rparr>) (path_request\<lparr>na_ifindex := Some 2\<rparr>) nn1 = Some (0, nn2) \<and>
    nsh_xmit (nsh_env0\<lparr>ne_madcap_enable := True\<rparr>) nn2 2 [1, 2, 3] = None"
  by (rule madcap_local_path_crashes [OF nsh_world_empty, where spi = 7 and si = 3 and i = 2 and e = 2])
    (simp_all add: path_request_def nsh_env0_def nsh_world_def nsh_find_table_def nsh_table_head_def)

section \<open>Removing devices\<close>

lemma purge_bucket_set: "fst (purge_bucket p b m) = filter (\<lambda>nt. \<not> p nt) b"
  by (induction b arbitrary: m) (simp_all add: Let_def split_def)

lemma purge_buckets_set: "fst (purge_buckets p bs m) = map (filter (\<lambda>nt. \<not> p nt)) bs"
proof (induction bs arbitrary: m)
  case (Cons b bs)
  show ?case
  proof -
    obtain b' m' where b: "purge_bucket p b m = (b', m')" by fastforce
    obtain c m'' where c: "purge_buckets p bs m' = (c, m'')" by fastforce
    show ?thesis using b c purge_bucket_set [of p b m] Cons [of m'] by simp
  qed
qed simp

lemma purge_tab: "nsh_tab (purge_table p nn) = map (filter (\<lambda>nt. \<not> p nt)) (nsh_tab nn)"
  using purge_buckets_set [of p "nsh_tab nn" "nsh_mem nn"] by (auto simp: purge_table_def split: prod.splits)

lemma purge_ok:
  assumes ok: "nsh_ok hash nn"
  shows "nsh_ok hash (purge_table p nn) \<and>
    (\<forall>k. nsh_find_table hash (purge_table p nn) k =
      (case nsh_find_table hash nn k of None \<Rightarrow> None | Some nt \<Rightarrow> if p nt then None else Some nt))"
proof -
  let ?nn = "purge_table p nn"
  have c: "concat (map (filter q) bs) = filter q (concat bs)" for q :: "nsh_table \<Rightarrow> bool" and bs by (induction bs) auto
  have tab: "concat (nsh_tab ?nn) = filter (\<lambda>nt. \<not> p nt) (concat (nsh_tab nn))" unfolding purge_tab c ..
  have ok': "nsh_ok hash ?nn"
    using ok unfolding nsh_ok_def tab by (auto simp: buckets_ok_def purge_tab distinct_map_filter)
  have "nsh_find_table hash ?nn k = Some x \<longleftrightarrow> nsh_find_table hash nn k = Some x \<and> \<not> p x" for k x
    unfolding nsh_find_Some [OF ok'] nsh_find_Some [OF ok] tab by auto
  then have "nsh_find_table hash ?nn k = (case nsh_find_table hash nn k of None \<Rightarrow> None | Some nt \<Rightarrow> if p nt then None else Some nt)" for k
    by (cases "nsh_find_table hash nn k"; cases "nsh_find_table hash ?nn k") (auto, metis option.distinct(1))
  with ok' show ?thesis by blast
qed

text \<open>Removing a pseudo device leaves no path to it, and the removal of a lower device
  leaves no path through it; every other path is kept.\<close>

lemma removal_leaves_no_path:
  assumes ok: "nsh_ok hash nn"
  shows "nsh_ok hash (snd (nsh_dellink d queue nn)) \<and> nsh_ok hash (nsh_lowerdev_event True ld nn) \<and>
    (\<forall>k. nsh_find_table hash (snd (nsh_dellink d queue nn)) k =
      (case nsh_find_table hash nn k of None \<Rightarrow> None | Some nt \<Rightarrow> if nt_rdev nt = Some d then None else Some nt)) \<and>
    (\<forall>k. nsh_find_table hash (nsh_lowerdev_event True ld nn) k =
      (case nsh_find_table hash nn k of None \<Rightarrow> None
       | Some nt \<Rightarrow> if map_option lowerdev (nt_rdst nt) = Some (Some ld) then None else Some nt))"
proof -
  let ?p = "\<lambda>nt. nt_rdev nt = Some d"
  have t: "nsh_tab (snd (nsh_dellink d queue nn)) = nsh_tab (purge_table ?p nn)" by (simp add: nsh_dellink_def Let_def)
  have f: "nsh_find_table hash (snd (nsh_dellink d queue nn)) k = nsh_find_table hash (purge_table ?p nn) k" for k
    unfolding nsh_find_table_def t ..
  have o: "nsh_ok hash (snd (nsh_dellink d queue nn)) \<longleftrightarrow> nsh_ok hash (purge_table ?p nn)" unfolding nsh_ok_def t ..
  show ?thesis
    using purge_ok [OF ok, of ?p] purge_ok [OF ok, of "\<lambda>nt. case nt_rdst nt of None \<Rightarrow> False | Some dst \<Rightarrow> lowerdev dst = Some ld"]
    unfolding f o nsh_lowerdev_event_def nsh_handle_lowerdev_unregister_def
    by (auto split: option.splits if_splits)
qed

lemma removal_leaves_no_path_witness:
  "nsh_find_table (ne_hash nsh_env0) (snd (nsh_dellink 2 [] (nsh_world [nsh_path 0 (Some 2) None]))) (path_key 7 3) = None"
proof -
  have "nsh_ok (ne_hash nsh_env0) (nsh_world [nsh_path 0 (Some 2) None])"
  proof -
    have "concat ((replicate 256 [])[0 := [x]]) = [x]" for x :: nsh_table by (simp add: numeral_nat replicate_Suc)
    then show ?thesis
      by (simp add: nsh_ok_def nsh_world_def buckets_ok_def nth_list_update nsh_env0_def)
  qed
  from removal_leaves_no_path [OF this, of 2 "[]"] nsh_world_find [of 0 "Some 2" None] show ?thesis by (simp add: nsh_path_def)
qed

end
