(* ===== verification/Ipnsh.thy ===== *)
theory Ipnsh
  imports Nsh_Ctl Ipmadcap
begin

text \<open>
  The user side of the NSH module: \<^verbatim>\<open>ip/ipnsh.c\<close>, the command \<^verbatim>\<open>ip nsh\<close> that binds paths to their next
  node and devices to their paths and prints both, and \<^verbatim>\<open>ip/iplink_nsh.c\<close> and \<^verbatim>\<open>ip/iplink_raven.c\<close>, the
  link options of \<^verbatim>\<open>ip link add ... type nsh\<close> and \<^verbatim>\<open>type raven\<close> (the first two in the \<^verbatim>\<open>iproute2-3.19.0\<close> of
  the NSH module, the last in \<^verbatim>\<open>iproute2-4.4.0\<close>).

  The parsers and printers of \<^verbatim>\<open>iproute2\<close> and of the C library are the fields of \<open>nsh_cli\<close>. The kernel is
  a parameter: \<open>talk\<close> performs a request on a state \<open>'k\<close>, \<open>dump\<close> returns the messages of a dump. A result
  \<open>None\<close> is a crash, of the kernel or of the tool.
\<close>

section \<open>Arguments\<close>

record nsh_param =
  np_ifindex :: u32
  np_spi :: u32
  np_si :: u8
  np_mdtype :: u8
  np_remote :: u32
  np_local :: u32
  np_encap_type :: u8
  np_vni :: u32
  np_mac :: "u8 list"
  np_f_spisi :: nat
  np_f_encap :: nat
  np_f_dev :: nat
  np_f_remote :: nat
  np_f_mac :: nat
  np_f_link :: nat

definition no_nsh_param :: nsh_param where
  "no_nsh_param = \<lparr>np_ifindex = 0, np_spi = 0, np_si = 0, np_mdtype = 0, np_remote = 0, np_local = 0, np_encap_type = 0, np_vni = 0,
     np_mac = replicate 6 0, np_f_spisi = 0, np_f_encap = 0, np_f_dev = 0, np_f_remote = 0, np_f_mac = 0, np_f_link = 0\<rparr>"

text \<open>\<open>nc_name\<close> is \<^verbatim>\<open>if_indextoname\<close>, \<open>None\<close> for an index that no device has; \<open>nc_lladdr\<close> is \<^verbatim>\<open>ll_addr_a2n\<close>: the
  bytes it stores, at most six of which are used.\<close>

record nsh_cli =
  nc_index :: "string \<Rightarrow> u32"
  nc_name :: "u32 \<Rightarrow> string option"
  nc_u8 :: "string \<Rightarrow> u8 option"
  nc_u32 :: "string \<Rightarrow> u32 option"
  nc_pton :: "string \<Rightarrow> u32 option"
  nc_ntop :: "u32 \<Rightarrow> string option"
  nc_lladdr :: "string \<Rightarrow> u8 list option"

definition ipnsh_options :: "string set" where
  "ipnsh_options = {''dev'', ''spi'', ''si'', ''mdtype'', ''encap'', ''remote'', ''local'', ''vni'', ''dst'', ''link''}"

definition ipnsh_index :: "nsh_cli \<Rightarrow> string \<Rightarrow> u32 option" where
  "ipnsh_index cli v = (if nc_index cli v = 0 then None else Some (nc_index cli v))"

definition ipnsh_encap :: "string \<Rightarrow> u8 option" where
  "ipnsh_encap v =
     (if v = ''none'' then Some NSH_ENCAP_TYPE_NONE
      else if v = ''vxlan'' then Some NSH_ENCAP_TYPE_VXLAN
      else if v = ''ether'' then Some NSH_ENCAP_TYPE_ETHER
      else None)"

text \<open>One option with its value; \<open>None\<close>: \<^verbatim>\<open>invarg\<close>, which ends the process with -1.\<close>

definition ipnsh_option :: "nsh_cli \<Rightarrow> string \<Rightarrow> string \<Rightarrow> nsh_param \<Rightarrow> nsh_param option" where
  "ipnsh_option cli arg v p =
     (if arg = ''dev'' then
        map_option (\<lambda>x. p\<lparr>np_ifindex := x, np_f_dev := np_f_dev p + 1\<rparr>) (ipnsh_index cli v)
      else if arg = ''spi'' then
        map_option (\<lambda>x. p\<lparr>np_spi := x, np_f_spisi := np_f_spisi p + 1\<rparr>) (nc_u32 cli v)
      else if arg = ''si'' then
        map_option (\<lambda>x. p\<lparr>np_si := x, np_f_spisi := np_f_spisi p + 1\<rparr>) (nc_u8 cli v)
      else if arg = ''mdtype'' then
        (case nc_u8 cli v of
           None \<Rightarrow> None
         | Some x \<Rightarrow> if x \<noteq> 1 \<and> x \<noteq> 2 then None else Some (p\<lparr>np_mdtype := x\<rparr>))
      else if arg = ''encap'' then
        map_option (\<lambda>x. p\<lparr>np_encap_type := x, np_f_encap := np_f_encap p + 1\<rparr>) (ipnsh_encap v)
      else if arg = ''remote'' then
        map_option (\<lambda>x. p\<lparr>np_remote := x, np_f_remote := np_f_remote p + 1\<rparr>) (nc_pton cli v)
      else if arg = ''local'' then map_option (\<lambda>x. p\<lparr>np_local := x\<rparr>) (nc_pton cli v)
      else if arg = ''vni'' then map_option (\<lambda>x. p\<lparr>np_vni := x\<rparr>) (nc_u32 cli v)
      else if arg = ''dst'' then
        map_option (\<lambda>bs. p\<lparr>np_mac := nla_memcpy (np_mac p) bs, np_f_mac := np_f_mac p + 1\<rparr>) (nc_lladdr cli v)
      else map_option (\<lambda>x. p\<lparr>np_ifindex := x, np_f_link := np_f_link p + 1\<rparr>) (ipnsh_index cli v))"

text \<open>A word that is no option is skipped; an option without a value ends the process.\<close>

fun ipnsh_parse_loop :: "nsh_cli \<Rightarrow> string list \<Rightarrow> nsh_param \<Rightarrow> nsh_param option" where
  "ipnsh_parse_loop cli [] p = Some p"
| "ipnsh_parse_loop cli [arg] p = (if arg \<in> ipnsh_options then None else Some p)"
| "ipnsh_parse_loop cli (arg # v # rest) p =
     (if arg \<in> ipnsh_options then do { p \<leftarrow> ipnsh_option cli arg v p; ipnsh_parse_loop cli rest p }
      else ipnsh_parse_loop cli (v # rest) p)"

definition ipnsh_parse_args :: "nsh_cli \<Rightarrow> string list \<Rightarrow> nsh_param option" where
  "ipnsh_parse_args cli argv = (if argv = [] then None else ipnsh_parse_loop cli argv no_nsh_param)"

section \<open>Requests\<close>

abbreviation (input) NSHKMOD_CMD_PATH_DST_SET :: nat where "NSHKMOD_CMD_PATH_DST_SET \<equiv> 0"
abbreviation (input) NSHKMOD_CMD_PATH_DST_UNSET :: nat where "NSHKMOD_CMD_PATH_DST_UNSET \<equiv> 1"
abbreviation (input) NSHKMOD_CMD_DEV_PATH_SET :: nat where "NSHKMOD_CMD_DEV_PATH_SET \<equiv> 2"
abbreviation (input) NSHKMOD_CMD_DEV_PATH_UNSET :: nat where "NSHKMOD_CMD_DEV_PATH_UNSET \<equiv> 3"
abbreviation (input) NSHKMOD_CMD_PATH_DUMP :: nat where "NSHKMOD_CMD_PATH_DUMP \<equiv> 4"
abbreviation (input) NSHKMOD_CMD_DEV_DUMP :: nat where "NSHKMOD_CMD_DEV_DUMP \<equiv> 5"

type_synonym 'k nsh_talk = "nat \<Rightarrow> nsh_attrs \<Rightarrow> 'k \<Rightarrow> (int \<times> 'k) option"

definition no_nsh_attrs :: nsh_attrs where
  "no_nsh_attrs = \<lparr>na_ifindex = None, na_spi = None, na_si = None, na_mdtype = None, na_encap = None, na_remote = None,
     na_local = None, na_vni = None, na_ethaddr = None\<rparr>"

definition ipnsh_talk :: "'k nsh_talk \<Rightarrow> nat \<Rightarrow> nsh_attrs \<Rightarrow> 'k \<Rightarrow> (outcome \<times> 'k) option" where
  "ipnsh_talk talk cmd at k = do {
     (rc, k) \<leftarrow> talk cmd at k;
     Some (if rc < 0 then (Done (- 2), k) else (Done 0, k)) }"

text \<open>The attributes of \<^verbatim>\<open>do_add\<close>; \<open>None\<close>: the encapsulation lacks an option it needs.\<close>

definition add_attrs :: "nsh_param \<Rightarrow> nsh_attrs option" where
  "add_attrs p =
     (let encap = (if np_f_encap p = 0 then NSH_ENCAP_TYPE_NONE else np_encap_type p);
          at = no_nsh_attrs\<lparr>na_spi := Some (np_spi p), na_si := Some (np_si p), na_encap := Some encap,
            na_mdtype := (if np_mdtype p \<noteq> 0 then Some (np_mdtype p) else None)\<rparr> in
      if encap = NSH_ENCAP_TYPE_NONE then
        (if np_f_dev p = 0 then None else Some (at\<lparr>na_ifindex := Some (np_ifindex p)\<rparr>))
      else if encap = NSH_ENCAP_TYPE_VXLAN then
        (if np_f_remote p = 0 then None
         else Some (at\<lparr>na_remote := Some (np_remote p),
           na_local := (if np_local p \<noteq> 0 then Some (np_local p) else None),
           na_vni := (if np_vni p \<noteq> 0 then Some (np_vni p) else None),
           na_ifindex := (if np_f_dev p \<noteq> 0 then Some (np_ifindex p) else None)\<rparr>))
      else if encap = NSH_ENCAP_TYPE_ETHER then
        (if np_f_mac p = 0 \<or> np_f_link p = 0 then None
         else Some (at\<lparr>na_ifindex := Some (np_ifindex p), na_ethaddr := Some (np_mac p)\<rparr>))
      else Some at)"

definition ipnsh_do_add :: "nsh_cli \<Rightarrow> 'k nsh_talk \<Rightarrow> string list \<Rightarrow> 'k \<Rightarrow> (outcome \<times> 'k) option" where
  "ipnsh_do_add cli talk argv k =
     (case ipnsh_parse_args cli argv of
        None \<Rightarrow> Some (Exit (- 1), k)
      | Some p \<Rightarrow>
          if np_f_spisi p \<noteq> 2 then Some (Exit (- 1), k)
          else (case add_attrs p of
            None \<Rightarrow> Some (Exit (- 1), k)
          | Some at \<Rightarrow> ipnsh_talk talk NSHKMOD_CMD_PATH_DST_SET at k))"

definition ipnsh_do_del :: "nsh_cli \<Rightarrow> 'k nsh_talk \<Rightarrow> string list \<Rightarrow> 'k \<Rightarrow> (outcome \<times> 'k) option" where
  "ipnsh_do_del cli talk argv k =
     (case ipnsh_parse_args cli argv of
        None \<Rightarrow> Some (Exit (- 1), k)
      | Some p \<Rightarrow>
          if np_f_spisi p \<noteq> 2 then Some (Exit (- 1), k)
          else ipnsh_talk talk NSHKMOD_CMD_PATH_DST_UNSET
            (no_nsh_attrs\<lparr>na_spi := Some (np_spi p), na_si := Some (np_si p)\<rparr>) k)"

definition ipnsh_do_set :: "nsh_cli \<Rightarrow> 'k nsh_talk \<Rightarrow> string list \<Rightarrow> 'k \<Rightarrow> (outcome \<times> 'k) option" where
  "ipnsh_do_set cli talk argv k =
     (case ipnsh_parse_args cli argv of
        None \<Rightarrow> Some (Exit (- 1), k)
      | Some p \<Rightarrow>
          if np_f_spisi p \<noteq> 2 then Some (Exit (- 1), k)
          else if np_ifindex p = 0 then Some (Exit (- 1), k)
          else ipnsh_talk talk NSHKMOD_CMD_DEV_PATH_SET
            (no_nsh_attrs\<lparr>na_ifindex := Some (np_ifindex p), na_spi := Some (np_spi p), na_si := Some (np_si p)\<rparr>) k)"

definition ipnsh_do_unset :: "nsh_cli \<Rightarrow> 'k nsh_talk \<Rightarrow> string list \<Rightarrow> 'k \<Rightarrow> (outcome \<times> 'k) option" where
  "ipnsh_do_unset cli talk argv k =
     (case ipnsh_parse_args cli argv of
        None \<Rightarrow> Some (Exit (- 1), k)
      | Some p \<Rightarrow>
          if np_ifindex p = 0 then Some (Exit (- 1), k)
          else ipnsh_talk talk NSHKMOD_CMD_DEV_PATH_UNSET (no_nsh_attrs\<lparr>na_ifindex := Some (np_ifindex p)\<rparr>) k)"

section \<open>Dumps\<close>

text \<open>\<^verbatim>\<open>parse_rtattr\<close>: the first attribute of a type counts.\<close>

fun set_nsh_attr :: "nsh_attr \<Rightarrow> nsh_attrs \<Rightarrow> nsh_attrs" where
  "set_nsh_attr (ASpi x) at = at\<lparr>na_spi := Some x\<rparr>"
| "set_nsh_attr (ASi x) at = at\<lparr>na_si := Some x\<rparr>"
| "set_nsh_attr (AMdtype x) at = at\<lparr>na_mdtype := Some x\<rparr>"
| "set_nsh_attr (AEncap x) at = at\<lparr>na_encap := Some x\<rparr>"
| "set_nsh_attr (AIfindex x) at = at\<lparr>na_ifindex := Some x\<rparr>"
| "set_nsh_attr (ARemote x) at = at\<lparr>na_remote := Some x\<rparr>"
| "set_nsh_attr (AVni x) at = at\<lparr>na_vni := Some x\<rparr>"
| "set_nsh_attr (ALocal x) at = at\<lparr>na_local := Some x\<rparr>"
| "set_nsh_attr (AEthaddr x) at = at\<lparr>na_ethaddr := Some x\<rparr>"

definition nsh_parse_rtattr :: "nsh_attr list \<Rightarrow> nsh_attrs" where
  "nsh_parse_rtattr as = foldr set_nsh_attr as no_nsh_attrs"

text \<open>\<^verbatim>\<open>%x\<close>\<close>

definition hex_digit :: "nat \<Rightarrow> char" where
  "hex_digit n = (if n < 10 then char_of (48 + n) else char_of (87 + n))"

definition hex_byte :: "u8 \<Rightarrow> string" where
  "hex_byte b = (if unat b < 16 then [hex_digit (unat b)] else [hex_digit (unat b div 16), hex_digit (unat b mod 16)])"

text \<open>The address of six bytes; a shorter attribute is read past its end.\<close>

definition mac_string :: "u8 list \<Rightarrow> string option" where
  "mac_string bs = do {
     m \<leftarrow> read_bytes bs 0 6;
     Some (hex_byte (m ! 0) @ '':'' @ hex_byte (m ! 1) @ '':'' @ hex_byte (m ! 2) @ '':'' @ hex_byte (m ! 3) @ '':'' @
       hex_byte (m ! 4) @ '':'' @ hex_byte (m ! 5)) }"

abbreviation udec :: "'a::len word \<Rightarrow> string" where
  "udec w \<equiv> dec (unat w)"

abbreviation newline :: string where
  "newline \<equiv> [CHR 0x0A]"

text \<open>A filter returns what it printed and its result.\<close>

definition dev_nlmsg :: "nsh_cli \<Rightarrow> nsh_attr list \<Rightarrow> string \<times> int" where
  "dev_nlmsg cli msg =
     (let at = nsh_parse_rtattr msg in
      case (na_spi at, na_si at, na_ifindex at) of
        (Some spi, Some si, Some i) \<Rightarrow>
          (case nc_name cli i of
             None \<Rightarrow> ([], - 1)
           | Some dev \<Rightarrow>
               if spi = 0 \<and> si = 0 then (''dev '' @ dev @ '' none'' @ newline, 0)
               else (''dev '' @ dev @ '' spi '' @ udec spi @ '' si '' @ udec si @ newline, 0))
      | _ \<Rightarrow> ([], - 1))"

definition path_line_start :: "u32 \<Rightarrow> u8 \<Rightarrow> u8 \<Rightarrow> string \<Rightarrow> string" where
  "path_line_start spi si mdtype encap =
     ''spi '' @ udec spi @ '' si '' @ udec si @ '' mdtype '' @ udec mdtype @ '' encap '' @ encap"

definition path_none :: "nsh_cli \<Rightarrow> string \<Rightarrow> nsh_attrs \<Rightarrow> (string \<times> int) option" where
  "path_none cli start at = do {
     i \<leftarrow> na_ifindex at;
     Some (case nc_name cli i of None \<Rightarrow> ([], - 1) | Some dev \<Rightarrow> (start @ '' dev '' @ dev @ newline, 0)) }"

definition path_vxlan_start :: "nsh_cli \<Rightarrow> string \<Rightarrow> nsh_attrs \<Rightarrow> string option option" where
  "path_vxlan_start cli start at = do {
     r \<leftarrow> na_remote at;
     let v = udec (opt 0 (na_vni at));
     Some (case nc_ntop cli r of
        None \<Rightarrow> None
      | Some remote \<Rightarrow>
          (case na_local at of
             None \<Rightarrow> Some (start @ '' remote '' @ remote @ '' vni '' @ v)
           | Some l \<Rightarrow> (case nc_ntop cli l of
               None \<Rightarrow> None
             | Some loc \<Rightarrow> Some (start @ '' remote '' @ remote @ '' local '' @ loc @ '' vni '' @ v)))) }"

definition path_vxlan :: "nsh_cli \<Rightarrow> string \<Rightarrow> nsh_attrs \<Rightarrow> (string \<times> int) option" where
  "path_vxlan cli start at = do {
     s \<leftarrow> path_vxlan_start cli start at;
     Some (case s of
        None \<Rightarrow> ([], - 1)
      | Some s \<Rightarrow>
          (case na_ifindex at of
             None \<Rightarrow> (s @ newline, 0)
           | Some i \<Rightarrow> (case nc_name cli i of None \<Rightarrow> (s, - 1) | Some dev \<Rightarrow> (s @ '' dev '' @ dev @ newline, 0)))) }"

definition path_ether :: "nsh_cli \<Rightarrow> string \<Rightarrow> nsh_attrs \<Rightarrow> (string \<times> int) option" where
  "path_ether cli start at = do {
     i \<leftarrow> na_ifindex at;
     (case nc_name cli i of
        None \<Rightarrow> Some ([], - 1)
      | Some dev \<Rightarrow> do {
          ea \<leftarrow> na_ethaddr at;
          mac \<leftarrow> mac_string ea;
          Some (start @ '' dst '' @ mac @ '' link '' @ dev @ newline, 0) }) }"

definition path_nlmsg :: "nsh_cli \<Rightarrow> nsh_attr list \<Rightarrow> (string \<times> int) option" where
  "path_nlmsg cli msg =
     (let at = nsh_parse_rtattr msg in
      case (na_spi at, na_si at, na_mdtype at, na_encap at) of
        (Some spi, Some si, Some mdtype, Some encap) \<Rightarrow>
          if encap = NSH_ENCAP_TYPE_NONE then path_none cli (path_line_start spi si mdtype ''none'') at
          else if encap = NSH_ENCAP_TYPE_VXLAN then path_vxlan cli (path_line_start spi si mdtype ''vxlan'') at
          else if encap = NSH_ENCAP_TYPE_ETHER then path_ether cli (path_line_start spi si mdtype ''ether'') at
          else Some ([], 0)
      | _ \<Rightarrow> Some ([], - 1))"

text \<open>\<^verbatim>\<open>rtnl_dump_filter\<close> stops at the first message the filter refuses.\<close>

fun nsh_dump_filter :: "('m \<Rightarrow> (string \<times> int) option) \<Rightarrow> 'm list \<Rightarrow> (string list \<times> int) option" where
  "nsh_dump_filter f [] = Some ([], 0)"
| "nsh_dump_filter f (m # rest) = do {
     (s, rc) \<leftarrow> f m;
     if rc < 0 then Some ([s], rc)
     else do { (out, rc) \<leftarrow> nsh_dump_filter f rest; Some (s # out, rc) } }"

text \<open>\<open>dump\<close>: whether the request was sent, and the messages.\<close>

type_synonym 'k nsh_dumper = "nat \<Rightarrow> 'k \<Rightarrow> (bool \<times> nsh_attr list list) option"

definition ipnsh_show ::
  "'k nsh_dumper \<Rightarrow> nat \<Rightarrow> (nsh_attr list \<Rightarrow> (string \<times> int) option) \<Rightarrow> 'k \<Rightarrow> (outcome \<times> string list) option" where
  "ipnsh_show dump cmd f k = do {
     (sent, msgs) \<leftarrow> dump cmd k;
     if \<not> sent then Some (Done (- 2), [])
     else do {
       (out, rc) \<leftarrow> nsh_dump_filter f msgs;
       Some (if rc < 0 then Exit 1 else Done 0, out) } }"

definition ipnsh_do_show_dev :: "nsh_cli \<Rightarrow> 'k nsh_dumper \<Rightarrow> 'k \<Rightarrow> (outcome \<times> string list) option" where
  "ipnsh_do_show_dev cli dump k = ipnsh_show dump NSHKMOD_CMD_DEV_DUMP (\<lambda>m. Some (dev_nlmsg cli m)) k"

definition ipnsh_do_show :: "nsh_cli \<Rightarrow> 'k nsh_dumper \<Rightarrow> string list \<Rightarrow> 'k \<Rightarrow> (outcome \<times> string list) option" where
  "ipnsh_do_show cli dump argv k =
     (case argv of
        arg # _ \<Rightarrow> if arg = ''dev'' then ipnsh_do_show_dev cli dump k
                   else ipnsh_show dump NSHKMOD_CMD_PATH_DUMP (path_nlmsg cli) k
      | [] \<Rightarrow> ipnsh_show dump NSHKMOD_CMD_PATH_DUMP (path_nlmsg cli) k)"

definition quiet :: "(outcome \<times> 'k) option \<Rightarrow> (outcome \<times> string list \<times> 'k) option" where
  "quiet r = map_option (\<lambda>(rc, k). (rc, [], k)) r"

text \<open>\<open>family\<close>: the netlink family is known or can be resolved.\<close>

definition do_ipnsh ::
  "nsh_cli \<Rightarrow> bool \<Rightarrow> 'k nsh_talk \<Rightarrow> 'k nsh_dumper \<Rightarrow> string list \<Rightarrow> 'k \<Rightarrow> (outcome \<times> string list \<times> 'k) option" where
  "do_ipnsh cli family talk dump argv k =
     (if \<not> family then Some (Exit 1, [], k)
      else (case argv of
        [] \<Rightarrow> Some (Exit (- 1), [], k)
      | cmd # args \<Rightarrow>
          if cmd_matches cmd ''add'' then quiet (ipnsh_do_add cli talk args k)
          else if cmd_matches cmd ''del'' \<or> cmd_matches cmd ''delete'' then quiet (ipnsh_do_del cli talk args k)
          else if cmd_matches cmd ''set'' then quiet (ipnsh_do_set cli talk args k)
          else if cmd_matches cmd ''unset'' then quiet (ipnsh_do_unset cli talk args k)
          else if cmd_matches cmd ''show'' \<or> cmd_matches cmd ''list''
            then map_option (\<lambda>(rc, out). (rc, out, k)) (ipnsh_do_show cli dump args k)
          else if cmd_matches cmd ''help'' then Some (Exit (- 1), [], k)
          else Some (Done (- 1), [], k)))"

section \<open>Link options\<close>

text \<open>\<^verbatim>\<open>nsh_parse_opt\<close>: the attributes for path and index. \<open>None\<close>: the process ends with -1.\<close>

fun nsh_opt_loop :: "nsh_cli \<Rightarrow> string list \<Rightarrow> u32 option \<Rightarrow> u8 option \<Rightarrow> (u32 option \<times> u8 option) option" where
  "nsh_opt_loop cli [] spi si = Some (spi, si)"
| "nsh_opt_loop cli (arg # rest) spi si =
     (if cmd_matches arg ''help'' then None
      else if cmd_matches arg ''spi'' then
        (case rest of
           [] \<Rightarrow> None
         | v # rest \<Rightarrow> (case nc_u32 cli v of
             None \<Rightarrow> None
           | Some x \<Rightarrow> if x \<ge> push_bit 24 1 then None else nsh_opt_loop cli rest (Some x) si))
      else if cmd_matches arg ''si'' then
        (case rest of
           [] \<Rightarrow> None
         | v # rest \<Rightarrow> (case nc_u8 cli v of None \<Rightarrow> None | Some x \<Rightarrow> nsh_opt_loop cli rest spi (Some x)))
      else nsh_opt_loop cli rest spi si)"

definition nsh_parse_opt :: "nsh_cli \<Rightarrow> string list \<Rightarrow> (u32 option \<times> u8 option) option" where
  "nsh_parse_opt cli argv = do {
     (spi, si) \<leftarrow> nsh_opt_loop cli argv None None;
     if spi \<noteq> None \<and> si \<noteq> None then Some (spi, si)
     else if spi \<noteq> None \<or> si \<noteq> None then None
     else Some (None, None) }"

definition nsh_print_opt :: "(u32 option \<times> u8 option) option \<Rightarrow> string" where
  "nsh_print_opt tb =
     (case tb of
        Some (Some spi, Some si) \<Rightarrow> ''spi '' @ udec spi @ '' si '' @ udec si @ '' ''
      | _ \<Rightarrow> [])"

text \<open>\<^verbatim>\<open>raven_parse_opt\<close>: the index of the physical device, 0 when no \<^verbatim>\<open>link\<close> is given.\<close>

fun raven_opt_loop :: "nsh_cli \<Rightarrow> string list \<Rightarrow> u32 \<Rightarrow> u32 option" where
  "raven_opt_loop cli [] i = Some i"
| "raven_opt_loop cli (arg # rest) i =
     (if cmd_matches arg ''help'' then None
      else if cmd_matches arg ''link'' then
        (case rest of
           [] \<Rightarrow> None
         | v # rest \<Rightarrow> if nc_index cli v < 1 then None else raven_opt_loop cli rest (nc_index cli v))
      else raven_opt_loop cli rest i)"

definition raven_parse_opt :: "nsh_cli \<Rightarrow> string list \<Rightarrow> u32 option option" where
  "raven_parse_opt cli argv = do {
     i \<leftarrow> raven_opt_loop cli argv 0;
     Some (if i \<noteq> 0 then Some i else None) }"

text \<open>An index that no device has leaves the name as the buffer \<open>junk\<close> held it.\<close>

definition raven_print_opt :: "nsh_cli \<Rightarrow> string \<Rightarrow> u32 option option \<Rightarrow> string" where
  "raven_print_opt cli junk tb =
     (case tb of
        Some (Some i) \<Rightarrow>
          if i \<noteq> 0 then ''link '' @ (case nc_name cli i of None \<Rightarrow> junk | Some dev \<Rightarrow> dev) @ '' ''
          else ''link none ''
      | _ \<Rightarrow> [])"

end
