(* ===== verification/Nsh_Stack.thy ===== *)
theory Nsh_Stack
  imports Nsh_Props Ipnsh
begin

text \<open>
  The composition of \<^verbatim>\<open>ip nsh\<close>, generic netlink and the NSH module: the command table of the module
  is the kernel behind the tool's parameters \<open>talk\<close> and \<open>dump\<close>. The properties say what a user sees:
  a path that is added is listed with the words it was given, once, until it is deleted.
\<close>

section \<open>The command table of the module\<close>

text \<open>\<^verbatim>\<open>nshkmod_nl_ops\<close>, on the namespace and the state of the madcap devices. Generic netlink refuses
  a command without a handler.\<close>

definition nsh_nl_doit :: "nsh_env \<Rightarrow> 'w madcap_net \<Rightarrow> nsh_dst \<Rightarrow> (nsh_net \<times> 'w) nsh_talk" where
  "nsh_nl_doit env mnet junk cmd at k =
     (case k of (nn, w) \<Rightarrow>
        if cmd = NSHKMOD_CMD_PATH_DST_SET then
          (case nsh_nl_cmd_path_dst_set env mnet junk at nn w of (rc, nn, w) \<Rightarrow> Some (rc, (nn, w)))
        else if cmd = NSHKMOD_CMD_PATH_DST_UNSET then
          (case nsh_nl_cmd_path_dst_unset env at nn of (rc, nn) \<Rightarrow> Some (rc, (nn, w)))
        else if cmd = NSHKMOD_CMD_DEV_PATH_SET then
          map_option (\<lambda>(rc, nn). (rc, (nn, w))) (nsh_nl_cmd_dev_path_set env at nn)
        else if cmd = NSHKMOD_CMD_DEV_PATH_UNSET then
          (case nsh_nl_cmd_dev_path_unset env at nn of (rc, nn) \<Rightarrow> Some (rc, (nn, w)))
        else Some (- EOPNOTSUPP, k))"

text \<open>Netlink calls a dump handler as long as it returns a positive length. \<open>None\<close>: out of fuel, or the
  handler crashes.\<close>

fun nsh_netlink_dump ::
  "(nat \<Rightarrow> (int \<times> nat \<times> nsh_attr list option) option) \<Rightarrow> nat \<Rightarrow> nat \<Rightarrow> nsh_attr list list option" where
  "nsh_netlink_dump h 0 idx = None"
| "nsh_netlink_dump h (Suc n) idx = do {
     (rc, idx, msg) \<leftarrow> h idx;
     if rc > 0 then do {
       rest \<leftarrow> nsh_netlink_dump h n idx;
       Some ((case msg of None \<Rightarrow> [] | Some m \<Rightarrow> [m]) @ rest) }
     else Some [] }"

definition nsh_nl_dumpit ::
  "nsh_env \<Rightarrow> bool \<Rightarrow> (nsh_attr list \<Rightarrow> bool) \<Rightarrow> nat \<Rightarrow> nsh_net \<Rightarrow> nat \<Rightarrow> (int \<times> nat \<times> nsh_attr list option) option" where
  "nsh_nl_dumpit env hdr fits cmd nn idx =
     (if cmd = NSHKMOD_CMD_PATH_DUMP then nsh_nl_cmd_path_dump env hdr fits idx nn
      else if cmd = NSHKMOD_CMD_DEV_DUMP then Some (nsh_nl_cmd_dev_dump env hdr fits idx nn)
      else Some (- EOPNOTSUPP, idx, None))"

definition nsh_kernel_dump ::
  "nsh_env \<Rightarrow> bool \<Rightarrow> (nsh_attr list \<Rightarrow> bool) \<Rightarrow> nat \<Rightarrow> (nsh_net \<times> 'w) nsh_dumper" where
  "nsh_kernel_dump env hdr fits fuel cmd k =
     map_option (\<lambda>msgs. (True, msgs)) (nsh_netlink_dump (nsh_nl_dumpit env hdr fits cmd (fst k)) fuel 0)"

text \<open>The tool on this kernel, with room for every message.\<close>

abbreviation ip_nsh ::
  "nsh_cli \<Rightarrow> nsh_env \<Rightarrow> 'w madcap_net \<Rightarrow> nsh_dst \<Rightarrow> nat \<Rightarrow> string list \<Rightarrow> nsh_net \<times> 'w
     \<Rightarrow> (outcome \<times> string list \<times> nsh_net \<times> 'w) option" where
  "ip_nsh cli env mnet junk fuel \<equiv>
     do_ipnsh cli True (nsh_nl_doit env mnet junk) (nsh_kernel_dump env True (\<lambda>at. True) fuel)"

section \<open>Showing paths\<close>

definition paths :: "nsh_net \<Rightarrow> nsh_table list" where
  "paths nn = concat (nsh_tab nn)"

text \<open>The line \<^verbatim>\<open>ip nsh show\<close> prints for a path, when it prints one.\<close>

definition path_line :: "nsh_cli \<Rightarrow> nsh_env \<Rightarrow> nsh_table \<Rightarrow> string option" where
  "path_line cli env nt = do {
     at \<leftarrow> table_attrs env nt;
     (s, rc) \<leftarrow> path_nlmsg cli at;
     if rc < 0 then None else Some s }"

definition printable :: "nsh_cli \<Rightarrow> nsh_env \<Rightarrow> nsh_net \<Rightarrow> bool" where
  "printable cli env nn \<longleftrightarrow> (\<forall>nt \<in> set (paths nn). path_line cli env nt \<noteq> None)"

definition path_lines :: "nsh_cli \<Rightarrow> nsh_env \<Rightarrow> nsh_net \<Rightarrow> string list" where
  "path_lines cli env nn = map (\<lambda>nt. the (path_line cli env nt)) (paths nn)"

lemma path_lines_mset:
  "mset (paths nn') = add_mset nt (mset (paths nn)) \<Longrightarrow>
    mset (path_lines cli env nn') = add_mset (the (path_line cli env nt)) (mset (path_lines cli env nn))"
  by (simp add: path_lines_def)

text \<open>A handler that sends the elements of a list one by one.\<close>

lemma netlink_dump_list:
  assumes "\<And>i. i < length xs \<Longrightarrow> h i = Some (1, Suc i, Some (f (xs ! i)))"
    and "\<And>i. length xs \<le> i \<Longrightarrow> \<exists>j. h i = Some (0, j, None)" and "length (drop i xs) < n"
  shows "nsh_netlink_dump h n i = Some (map f (drop i xs))"
  using assms(3)
proof (induction n arbitrary: i)
  case (Suc n)
  show ?case
  proof (cases "i < length xs")
    case True
    then have c: "drop i xs = xs ! i # drop (Suc i) xs" by (rule Cons_nth_drop_Suc [symmetric])
    with Suc have "nsh_netlink_dump h n (Suc i) = Some (map f (drop (Suc i) xs))" by simp
    with assms(1) [OF True] c show ?thesis by simp
  next
    case False
    with assms(2) [of i] show ?thesis by auto
  qed
qed simp

lemma path_dump_messages:
  assumes "\<forall>nt \<in> set (paths nn). \<exists>at. table_attrs env nt = Some at" "length (paths nn) < n"
  shows "nsh_netlink_dump (nsh_nl_dumpit env True (\<lambda>at. True) NSHKMOD_CMD_PATH_DUMP nn) n 0 =
    Some (map (\<lambda>nt. the (table_attrs env nt)) (paths nn))"
proof -
  let ?h = "nsh_nl_dumpit env True (\<lambda>at. True) NSHKMOD_CMD_PATH_DUMP nn"
  have d: "dump_buckets i (nsh_tab nn) 0 =
      (if i < length (paths nn) then (Some (paths nn ! i), i) else (None, length (paths nn)))" for i
    using dump_buckets_spec [of 0 i "nsh_tab nn"] by (simp add: paths_def)
  have "nsh_netlink_dump ?h n 0 = Some (map (\<lambda>nt. the (table_attrs env nt)) (drop 0 (paths nn)))"
  proof (rule netlink_dump_list)
    fix i assume i: "i < length (paths nn)"
    then obtain at where "table_attrs env (paths nn ! i) = Some at" using assms(1) nth_mem by blast
    with i d [of i] show "?h i = Some (1, Suc i, Some (the (table_attrs env (paths nn ! i))))"
      by (simp add: nsh_nl_dumpit_def nsh_nl_cmd_path_dump_def nsh_nl_table_send_def)
  qed (use d assms(2) in \<open>simp_all add: nsh_nl_dumpit_def nsh_nl_cmd_path_dump_def\<close>)
  then show ?thesis by simp
qed

lemma path_filter:
  "\<forall>nt \<in> set nts. path_line cli env nt \<noteq> None \<Longrightarrow>
    nsh_dump_filter (path_nlmsg cli) (map (\<lambda>nt. the (table_attrs env nt)) nts) =
      Some (map (\<lambda>nt. the (path_line cli env nt)) nts, 0)"
proof (induction nts)
  case (Cons nt nts)
  then obtain at s rc where "table_attrs env nt = Some at" "path_nlmsg cli at = Some (s, rc)" "\<not> rc < 0"
    by (auto simp: path_line_def bind_eq_Some_conv split: if_splits prod.splits)
  with Cons show ?case by (simp add: path_line_def)
qed simp

lemma show_paths:
  assumes "printable cli env nn" "length (paths nn) < fuel"
  shows "ip_nsh cli env mnet junk fuel [''show''] (nn, w) = Some (Done 0, path_lines cli env nn, (nn, w))"
proof -
  have "\<forall>nt \<in> set (paths nn). \<exists>at. table_attrs env nt = Some at"
    using assms(1) by (auto simp: printable_def path_line_def bind_eq_Some_conv)
  from path_dump_messages [OF this] assms(2)
  have "nsh_kernel_dump env True (\<lambda>at. True) fuel NSHKMOD_CMD_PATH_DUMP (nn, w) =
      Some (True, map (\<lambda>nt. the (table_attrs env nt)) (paths nn))"
    by (simp add: nsh_kernel_dump_def)
  moreover have "nsh_dump_filter (path_nlmsg cli) (map (\<lambda>nt. the (table_attrs env nt)) (paths nn)) =
      Some (path_lines cli env nn, 0)"
    using path_filter assms(1) by (simp add: printable_def path_lines_def)
  ultimately show ?thesis
    by (simp add: do_ipnsh_def cmd_matches_def ipnsh_do_show_def ipnsh_show_def)
qed

section \<open>Showing devices\<close>

definition dev_attrs :: "nsh_env \<Rightarrow> nsh_net \<Rightarrow> addr \<Rightarrow> nsh_attr list" where
  "dev_attrs env nn d = [ASpi (drop_bit 8 (htonl (nd_key (nsh_devs nn d)))), ASi (ucast (htonl (nd_key (nsh_devs nn d)) AND 0xFF)),
     AIfindex (ne_ifindex env d)]"

definition dev_line :: "nsh_cli \<Rightarrow> nsh_env \<Rightarrow> nsh_net \<Rightarrow> addr \<Rightarrow> string" where
  "dev_line cli env nn d = fst (dev_nlmsg cli (dev_attrs env nn d))"

definition named_devs :: "nsh_cli \<Rightarrow> nsh_env \<Rightarrow> nsh_net \<Rightarrow> bool" where
  "named_devs cli env nn \<longleftrightarrow> (\<forall>d \<in> set (nsh_dev_list nn). nc_name cli (ne_ifindex env d) \<noteq> None)"

lemma dev_filter:
  "\<forall>d \<in> set ds. nc_name cli (ne_ifindex env d) \<noteq> None \<Longrightarrow>
    nsh_dump_filter (\<lambda>m. Some (dev_nlmsg cli m)) (map (dev_attrs env nn) ds) = Some (map (dev_line cli env nn) ds, 0)"
proof (induction ds)
  case (Cons d ds)
  then have "snd (dev_nlmsg cli (dev_attrs env nn d)) = 0"
    by (auto simp: dev_nlmsg_def dev_attrs_def nsh_parse_rtattr_def no_nsh_attrs_def)
  then have "dev_nlmsg cli (dev_attrs env nn d) = (dev_line cli env nn d, 0)" by (simp add: dev_line_def prod_eq_iff)
  with Cons show ?case by simp
qed simp

lemma show_devs:
  assumes "named_devs cli env nn" "length (nsh_dev_list nn) < fuel"
  shows "ip_nsh cli env mnet junk fuel [''show'', ''dev''] (nn, w) =
    Some (Done 0, map (dev_line cli env nn) (nsh_dev_list nn), (nn, w))"
proof -
  let ?h = "nsh_nl_dumpit env True (\<lambda>at. True) NSHKMOD_CMD_DEV_DUMP nn" and ?ds = "nsh_dev_list nn"
  have d: "dump_bucket i ?ds 0 = (if i < length ?ds then (Some (?ds ! i), i) else (None, length ?ds))" for i
    using dump_bucket_spec [of 0 i ?ds] by simp
  have "nsh_netlink_dump ?h fuel 0 = Some (map (dev_attrs env nn) (drop 0 ?ds))"
    by (rule netlink_dump_list)
      (use d assms(2) in \<open>simp_all add: nsh_nl_dumpit_def nsh_nl_cmd_dev_dump_def nsh_nl_dev_send_def dev_attrs_def Let_def\<close>)
  then have "nsh_kernel_dump env True (\<lambda>at. True) fuel NSHKMOD_CMD_DEV_DUMP (nn, w) = Some (True, map (dev_attrs env nn) ?ds)"
    by (simp add: nsh_kernel_dump_def)
  with dev_filter [of ?ds cli env nn] assms(1) show ?thesis
    by (simp add: named_devs_def do_ipnsh_def cmd_matches_def ipnsh_do_show_def ipnsh_do_show_dev_def ipnsh_show_def)
qed

section \<open>Adding and deleting paths\<close>

text \<open>The next node of a path as the user writes it, and as it is printed.\<close>

datatype hop =
    HLocal string
  | HVxlan string string string
  | HEther string string

fun hop_args :: "hop \<Rightarrow> string list" where
  "hop_args (HLocal dev) = [''dev'', dev]"
| "hop_args (HVxlan remote v dev) = [''encap'', ''vxlan'', ''remote'', remote, ''vni'', v, ''dev'', dev]"
| "hop_args (HEther mac dev) = [''encap'', ''ether'', ''dst'', mac, ''link'', dev]"

fun hop_text :: "hop \<Rightarrow> string" where
  "hop_text (HLocal dev) = ''none dev '' @ dev"
| "hop_text (HVxlan remote v dev) = ''vxlan remote '' @ remote @ '' vni '' @ v @ '' dev '' @ dev"
| "hop_text (HEther mac dev) = ''ether dst '' @ mac @ '' link '' @ dev"

text \<open>The device exists, its name and index belong together, and it is a pseudo device or not.\<close>

definition names_dev :: "nsh_cli \<Rightarrow> nsh_env \<Rightarrow> bool \<Rightarrow> string \<Rightarrow> bool" where
  "names_dev cli env nsh dev \<longleftrightarrow> nc_index cli dev \<noteq> 0 \<and> nc_name cli (nc_index cli dev) = Some dev \<and>
     (case ne_dev_by_index env (nc_index cli dev) of None \<Rightarrow> False
      | Some d \<Rightarrow> ne_ifindex env d = nc_index cli dev \<and> ne_is_nsh env d = nsh)"

text \<open>Addresses and numbers are written as they are printed.\<close>

fun hop_ok :: "nsh_cli \<Rightarrow> nsh_env \<Rightarrow> hop \<Rightarrow> bool" where
  "hop_ok cli env (HLocal dev) \<longleftrightarrow> names_dev cli env True dev"
| "hop_ok cli env (HVxlan remote v dev) \<longleftrightarrow> names_dev cli env False dev \<and>
     (case nc_pton cli remote of None \<Rightarrow> False | Some r \<Rightarrow> nc_ntop cli r = Some remote) \<and>
     (case nc_u32 cli v of None \<Rightarrow> False | Some x \<Rightarrow> v = udec x)"
| "hop_ok cli env (HEther mac dev) \<longleftrightarrow> names_dev cli env False dev \<and>
     (case nc_lladdr cli mac of None \<Rightarrow> False | Some bs \<Rightarrow> length bs = 6 \<and> mac_string bs = Some mac)"

text \<open>The path number is cut to 24 bits.\<close>

definition new_path_line :: "u32 \<Rightarrow> u8 \<Rightarrow> hop \<Rightarrow> string" where
  "new_path_line spi si hop =
     ''spi '' @ udec (take_bit 24 spi) @ '' si '' @ udec si @ '' mdtype 1 encap '' @ hop_text hop @ newline"

abbreviation key_args :: "string \<Rightarrow> string \<Rightarrow> string list" where
  "key_args s i \<equiv> [''spi'', s, ''si'', i]"

text \<open>The request the tool sends for a hop.\<close>

fun hop_attrs :: "nsh_cli \<Rightarrow> u32 \<Rightarrow> u8 \<Rightarrow> hop \<Rightarrow> nsh_attrs" where
  "hop_attrs cli spi si (HLocal dev) =
     no_nsh_attrs\<lparr>na_spi := Some spi, na_si := Some si, na_encap := Some NSH_ENCAP_TYPE_NONE, na_ifindex := Some (nc_index cli dev)\<rparr>"
| "hop_attrs cli spi si (HVxlan remote v dev) =
     no_nsh_attrs\<lparr>na_spi := Some spi, na_si := Some si, na_encap := Some NSH_ENCAP_TYPE_VXLAN, na_remote := nc_pton cli remote,
       na_vni := (if nc_u32 cli v = Some 0 then None else nc_u32 cli v), na_ifindex := Some (nc_index cli dev)\<rparr>"
| "hop_attrs cli spi si (HEther mac dev) =
     no_nsh_attrs\<lparr>na_spi := Some spi, na_si := Some si, na_encap := Some NSH_ENCAP_TYPE_ETHER, na_ifindex := Some (nc_index cli dev),
       na_ethaddr := nc_lladdr cli mac\<rparr>"

lemmas ipnsh_words = ipnsh_parse_args_def ipnsh_options_def ipnsh_option_def ipnsh_index_def ipnsh_encap_def no_nsh_param_def

lemma parse_key:
  assumes "nc_u32 cli s = Some spi" "nc_u8 cli i = Some si"
  shows "ipnsh_parse_args cli (key_args s i @ args) =
    ipnsh_parse_loop cli args (no_nsh_param\<lparr>np_spi := spi, np_si := si, np_f_spisi := 2\<rparr>)"
  using assms by (simp add: ipnsh_words numeral_2_eq_2)

lemma parse_hop:
  assumes "hop_ok cli env hop" "np_f_encap p = 0" "np_f_dev p = 0" "np_mdtype p = 0" "np_local p = 0" "length (np_mac p) = 6"
  shows "\<exists>q. ipnsh_parse_loop cli (hop_args hop) p = Some q \<and> np_f_spisi q = np_f_spisi p \<and>
    add_attrs q = Some (hop_attrs cli (np_spi p) (np_si p) hop)"
proof (cases hop)
  case (HLocal dev)
  with assms show ?thesis
    by (simp add: names_dev_def ipnsh_options_def ipnsh_option_def ipnsh_index_def add_attrs_def no_nsh_attrs_def)
next
  case (HVxlan remote v dev)
  then obtain r x where "nc_pton cli remote = Some r" "nc_u32 cli v = Some x" "nc_index cli dev \<noteq> 0"
    using assms(1) by (auto simp: names_dev_def split: option.splits)
  with HVxlan assms(2-) show ?thesis
    by (simp add: ipnsh_options_def ipnsh_option_def ipnsh_index_def ipnsh_encap_def add_attrs_def no_nsh_attrs_def)
next
  case (HEther mac dev)
  then obtain bs where "nc_lladdr cli mac = Some bs" "length bs = 6" "nc_index cli dev \<noteq> 0"
    using assms(1) by (auto simp: names_dev_def split: option.splits)
  with HEther assms(2-) show ?thesis
    by (simp add: ipnsh_options_def ipnsh_option_def ipnsh_index_def ipnsh_encap_def add_attrs_def no_nsh_attrs_def nla_memcpy_def)
qed

lemma add_request:
  assumes "nc_u32 cli s = Some spi" "nc_u8 cli i = Some si" "hop_ok cli env hop"
  shows "ipnsh_do_add cli talk (key_args s i @ hop_args hop) k =
    ipnsh_talk talk NSHKMOD_CMD_PATH_DST_SET (hop_attrs cli spi si hop) k"
proof -
  let ?p = "no_nsh_param\<lparr>np_spi := spi, np_si := si, np_f_spisi := 2\<rparr>"
  obtain q where "ipnsh_parse_loop cli (hop_args hop) ?p = Some q" "np_f_spisi q = 2" "add_attrs q = Some (hop_attrs cli spi si hop)"
    using parse_hop [OF assms(3), of ?p] by (auto simp: no_nsh_param_def)
  then show ?thesis unfolding ipnsh_do_add_def parse_key [OF assms(1,2)] by simp
qed

lemma del_request:
  assumes "nc_u32 cli s = Some spi" "nc_u8 cli i = Some si"
  shows "ipnsh_do_del cli talk (key_args s i) k =
    ipnsh_talk talk NSHKMOD_CMD_PATH_DST_UNSET (no_nsh_attrs\<lparr>na_spi := Some spi, na_si := Some si\<rparr>) k"
  using parse_key [OF assms, of "[]"] by (simp add: ipnsh_do_del_def)

text \<open>The line of the entry a request makes.\<close>

fun hop_fits :: "nsh_cli \<Rightarrow> nsh_env \<Rightarrow> hop \<Rightarrow> nsh_table \<Rightarrow> bool" where
  "hop_fits cli env (HLocal dev) nt \<longleftrightarrow> nt_encap_type nt = NSH_ENCAP_TYPE_NONE \<and>
     nt_rdev nt = ne_dev_by_index env (nc_index cli dev)"
| "hop_fits cli env (HVxlan remote v dev) nt \<longleftrightarrow> nt_encap_type nt = NSH_ENCAP_TYPE_VXLAN \<and>
     (\<exists>dst. nt_rdst nt = Some dst \<and> nc_pton cli remote = Some (remote_ip dst) \<and> local_ip dst = 0 \<and>
       nc_u32 cli v = Some (vni dst) \<and> lowerdev dst = ne_dev_by_index env (nc_index cli dev))"
| "hop_fits cli env (HEther mac dev) nt \<longleftrightarrow> nt_encap_type nt = NSH_ENCAP_TYPE_ETHER \<and>
     (\<exists>dst. nt_rdst nt = Some dst \<and> nc_lladdr cli mac = Some (eth_addr dst) \<and>
       lowerdev dst = ne_dev_by_index env (nc_index cli dev))"

lemma key_of_path:
  "drop_bit 8 (htonl (path_key spi si)) = take_bit 24 spi" "ucast (htonl (path_key spi si) AND 0xFF) = si"
proof -
  show "drop_bit 8 (htonl (path_key spi si)) = take_bit 24 spi" by (rule key_parts(2))
  show "ucast (htonl (path_key spi si) AND 0xFF) = si" unfolding key_parts(1) by (rule bit_word_eqI) (simp add: bit_simps)
qed

lemma dec_one: "dec (Suc 0) = ''1''"
  by code_simp

lemma new_line:
  assumes "hop_ok cli env hop" "hop_fits cli env hop nt" "nt_key nt = path_key spi si" "nt_mdtype nt = 1"
  shows "path_line cli env nt = Some (new_path_line spi si hop)"
proof (cases hop)
  case (HLocal dev)
  with assms(1,2) obtain d where "ne_dev_by_index env (nc_index cli dev) = Some d" "nt_rdev nt = Some d"
      "ne_ifindex env d = nc_index cli dev" "nc_name cli (nc_index cli dev) = Some dev"
    by (auto simp: names_dev_def split: option.splits)
  with HLocal assms(2-4) show ?thesis
    by (simp add: path_line_def table_attrs_def key_of_path path_nlmsg_def nsh_parse_rtattr_def no_nsh_attrs_def path_none_def
        path_line_start_def new_path_line_def dec_one)
next
  case (HVxlan remote v dev)
  with assms(1,2) obtain d dst where "ne_dev_by_index env (nc_index cli dev) = Some d" "nt_rdst nt = Some dst"
      "ne_ifindex env d = nc_index cli dev" "nc_name cli (nc_index cli dev) = Some dev" "lowerdev dst = Some d" "local_ip dst = 0"
      "nc_ntop cli (remote_ip dst) = Some remote" "v = udec (vni dst)"
    by (auto simp: names_dev_def split: option.splits)
  with HVxlan assms(2-4) show ?thesis
    by (simp add: path_line_def table_attrs_def key_of_path path_nlmsg_def nsh_parse_rtattr_def no_nsh_attrs_def path_vxlan_def
        path_vxlan_start_def path_line_start_def new_path_line_def opt_def dec_one)
next
  case (HEther mac dev)
  with assms(1,2) obtain d dst where "ne_dev_by_index env (nc_index cli dev) = Some d" "nt_rdst nt = Some dst"
      "ne_ifindex env d = nc_index cli dev" "nc_name cli (nc_index cli dev) = Some dev" "lowerdev dst = Some d"
      "mac_string (eth_addr dst) = Some mac"
    by (auto simp: names_dev_def split: option.splits)
  with HEther assms(2-4) show ?thesis
    by (simp add: path_line_def table_attrs_def key_of_path path_nlmsg_def nsh_parse_rtattr_def no_nsh_attrs_def path_ether_def
        path_line_start_def new_path_line_def dec_one)
qed

lemma hop_set:
  assumes ok: "nsh_ok (ne_hash env) nn" and hop: "hop_ok cli env hop" and mem: "2 \<le> nsh_mem nn"
    and new: "nsh_find_table (ne_hash env) nn (path_key spi si) = None"
  obtains nt nn' w' where "nsh_nl_cmd_path_dst_set env mnet junk (hop_attrs cli spi si hop) nn w = (0, nn', w')"
    "nsh_ok (ne_hash env) nn'" "mset (paths nn') = add_mset nt (mset (paths nn))"
    "nsh_find_table (ne_hash env) nn' (path_key spi si) = Some nt" "path_line cli env nt = Some (new_path_line spi si hop)"
proof -
  let ?k = "path_key spi si" and ?nn = "nn\<lparr>nsh_mem := nsh_mem nn - 1\<rparr>" and ?at = "hop_attrs cli spi si hop"
  have add: "\<exists>nt nn'. nsh_add_table (ne_hash env) m ?k 1 enc rdev rdst = (0, nn') \<and> nsh_ok (ne_hash env) nn' \<and>
      nt_key nt = ?k \<and> nt_mdtype nt = 1 \<and> nt_encap_type nt = enc \<and> nt_rdev nt = rdev \<and> nt_rdst nt = rdst \<and>
      mset (paths nn') = add_mset nt (mset (paths nn)) \<and> nsh_find_table (ne_hash env) nn' ?k = Some nt"
    if m: "m = nn \<or> m = ?nn" for m enc rdev rdst
  proof -
    have "nsh_ok (ne_hash env) m" "nsh_find_table (ne_hash env) m ?k = None" "nsh_mem m \<noteq> 0" "paths m = paths nn"
      using m ok new mem by (auto simp: nsh_ok_def nsh_find_table_def paths_def)
    with nsh_add_ok [of "ne_hash env" m ?k 1 enc rdev rdst] show ?thesis unfolding paths_def by auto
  qed
  have "\<exists>nt nn' w'. nsh_nl_cmd_path_dst_set env mnet junk ?at nn w = (0, nn', w') \<and> nsh_ok (ne_hash env) nn' \<and>
      nt_key nt = ?k \<and> nt_mdtype nt = 1 \<and> hop_fits cli env hop nt \<and>
      mset (paths nn') = add_mset nt (mset (paths nn)) \<and> nsh_find_table (ne_hash env) nn' ?k = Some nt"
  proof (cases hop)
    case (HLocal dev)
    with hop obtain d where d: "ne_dev_by_index env (nc_index cli dev) = Some d" "ne_is_nsh env d"
      by (auto simp: names_dev_def split: option.splits)
    with HLocal new add [of nn NSH_ENCAP_TYPE_NONE "Some d" None] show ?thesis
      by (fastforce simp: nsh_nl_cmd_path_dst_set_def path_set_none_def no_nsh_attrs_def opt_def)
  next
    case (HVxlan remote v dev)
    with hop obtain d r x where d: "ne_dev_by_index env (nc_index cli dev) = Some d" "\<not> ne_is_nsh env d"
        "nc_pton cli remote = Some r" "nc_u32 cli v = Some x"
      by (auto simp: names_dev_def split: option.splits)
    let ?dst = "junk\<lparr>remote_ip := r, local_ip := 0, vni := x, lowerdev := Some d\<rparr>"
    from HVxlan d new mem add [of ?nn NSH_ENCAP_TYPE_VXLAN None "Some ?dst"] show ?thesis
      by (fastforce simp: nsh_nl_cmd_path_dst_set_def path_set_vxlan_def no_nsh_attrs_def opt_def Let_def)
  next
    case (HEther mac dev)
    with hop obtain d bs where d: "ne_dev_by_index env (nc_index cli dev) = Some d" "\<not> ne_is_nsh env d"
        "nc_lladdr cli mac = Some bs" "length bs = 6"
      by (auto simp: names_dev_def split: option.splits)
    let ?dst = "junk\<lparr>lowerdev := Some d, eth_addr := bs\<rparr>"
    from HEther d new mem add [of ?nn NSH_ENCAP_TYPE_ETHER None "Some ?dst"] show ?thesis
      by (fastforce simp: nsh_nl_cmd_path_dst_set_def path_set_ether_def no_nsh_attrs_def opt_def Let_def nla_memcpy_def)
  qed
  with new_line [OF hop] that show ?thesis by metis
qed

section \<open>The path of a device\<close>

text \<open>The line of a device after its path was set.\<close>

definition set_line :: "string \<Rightarrow> u32 \<Rightarrow> u8 \<Rightarrow> string" where
  "set_line dev spi si =
     (if take_bit 24 spi = 0 \<and> si = 0 then ''dev '' @ dev @ '' none'' @ newline
      else ''dev '' @ dev @ '' spi '' @ udec (take_bit 24 spi) @ '' si '' @ udec si @ newline)"

text \<open>The lower device of an Ethernet path is there, so that its MTU can be read.\<close>

definition mtu_known :: "hash32 \<Rightarrow> nsh_net \<Rightarrow> u32 \<Rightarrow> bool" where
  "mtu_known hash nn key \<longleftrightarrow>
     (case nsh_find_table hash nn key of None \<Rightarrow> True
      | Some nt \<Rightarrow> nt_encap_type nt \<noteq> NSH_ENCAP_TYPE_ETHER \<or> (\<exists>dst ld. nt_rdst nt = Some dst \<and> lowerdev dst = Some ld))"

lemma dev_path_set:
  assumes "nsh_target env i = Inr d" "mtu_known (ne_hash env) nn (path_key spi si)"
  shows "\<exists>nn'. nsh_nl_cmd_dev_path_set env (no_nsh_attrs\<lparr>na_ifindex := Some i, na_spi := Some spi, na_si := Some si\<rparr>) nn =
      Some (0, nn') \<and> nsh_dev_list nn' = nsh_dev_list nn \<and> nsh_tab nn' = nsh_tab nn \<and>
    (\<forall>e. nd_key (nsh_devs nn' e) = (if e = d then path_key spi si else nd_key (nsh_devs nn e)))"
  using assms
  by (auto simp: nsh_nl_cmd_dev_path_set_def mtu_known_def nsh_change_mtu_for_path_def change_mtu_def upd_dev_def Let_def
      split: option.splits)

lemma dev_line_key:
  assumes "nd_key (nsh_devs nn d) = path_key spi si" "nc_name cli (ne_ifindex env d) = Some dev"
  shows "dev_line cli env nn d = set_line dev spi si"
  using assms by (simp add: dev_line_def dev_attrs_def dev_nlmsg_def nsh_parse_rtattr_def no_nsh_attrs_def key_of_path set_line_def)

lemma dev_line_same: "nd_key (nsh_devs nn' e) = nd_key (nsh_devs nn e) \<Longrightarrow> dev_line cli env nn' e = dev_line cli env nn e"
  by (simp add: dev_line_def dev_attrs_def)

lemma set_request:
  assumes "nc_u32 cli s = Some spi" "nc_u8 cli i = Some si" "nc_index cli dev \<noteq> 0"
  shows "ipnsh_do_set cli talk (''dev'' # dev # key_args s i) k = ipnsh_talk talk NSHKMOD_CMD_DEV_PATH_SET
    (no_nsh_attrs\<lparr>na_ifindex := Some (nc_index cli dev), na_spi := Some spi, na_si := Some si\<rparr>) k"
  using assms by (simp add: ipnsh_do_set_def ipnsh_words numeral_2_eq_2)

lemma unset_request:
  assumes "nc_index cli dev \<noteq> 0"
  shows "ipnsh_do_unset cli talk [''dev'', dev] k =
    ipnsh_talk talk NSHKMOD_CMD_DEV_PATH_UNSET (no_nsh_attrs\<lparr>na_ifindex := Some (nc_index cli dev)\<rparr>) k"
  using assms by (simp add: ipnsh_do_unset_def ipnsh_words)

lemma nsh_opt_words:
  assumes "nc_u32 cli s = Some spi" "nc_u8 cli i = Some si"
  shows "nsh_parse_opt cli (key_args s i) = (if spi < push_bit 24 1 then Some (Some spi, Some si) else None)"
  using assms by (simp add: nsh_parse_opt_def cmd_matches_def not_less)

section \<open>The properties\<close>

text \<open>Property C9: paths through the tool and the module. On a namespace whose paths can all be printed,
  \<^verbatim>\<open>ip nsh add spi S si I\<close> with a next node (a pseudo device, a VXLAN tunnel over a device, or an
  Ethernet neighbour) for a key that is free ends with success; \<^verbatim>\<open>ip nsh show\<close> then prints the lines
  it printed before and exactly one more, the words of the command with the path number cut to 24
  bits; a second \<^verbatim>\<open>add\<close> of the key fails with code -2 and changes nothing; and \<^verbatim>\<open>ip nsh del\<close> ends with
  success and leaves the lines as they were at first.\<close>

theorem nsh_add_show_del:
  assumes ok: "nsh_ok (ne_hash env) nn" "printable cli env nn" and hop: "hop_ok cli env hop"
    and args: "nc_u32 cli s = Some spi" "nc_u8 cli i = Some si"
    and new: "nsh_find_table (ne_hash env) nn (path_key spi si) = None" and mem: "2 \<le> nsh_mem nn"
    and fuel: "Suc (length (paths nn)) < fuel"
  shows "\<exists>lns k lns' k' lns''.
    ip_nsh cli env mnet junk fuel [''show''] (nn, w) = Some (Done 0, lns, nn, w) \<and>
    ip_nsh cli env mnet junk fuel (''add'' # key_args s i @ hop_args hop) (nn, w) = Some (Done 0, [], k) \<and>
    ip_nsh cli env mnet junk fuel [''show''] k = Some (Done 0, lns', k) \<and>
    mset lns' = add_mset (new_path_line spi si hop) (mset lns) \<and>
    ip_nsh cli env mnet junk fuel (''add'' # key_args s i @ hop_args hop) k = Some (Done (- 2), [], k) \<and>
    ip_nsh cli env mnet junk fuel (''del'' # key_args s i) k = Some (Done 0, [], k') \<and>
    ip_nsh cli env mnet junk fuel [''show''] k' = Some (Done 0, lns'', k') \<and> mset lns'' = mset lns"
proof -
  obtain nt nn' w' where a: "nsh_nl_cmd_path_dst_set env mnet junk (hop_attrs cli spi si hop) nn w = (0, nn', w')"
      "nsh_ok (ne_hash env) nn'" "mset (paths nn') = add_mset nt (mset (paths nn))"
      "nsh_find_table (ne_hash env) nn' (path_key spi si) = Some nt" "path_line cli env nt = Some (new_path_line spi si hop)"
    using hop_set [OF ok(1) hop mem new] by metis
  define nn'' where "nn'' = nsh_delete_table (ne_hash env) nn' nt"
  have restored: "mset (paths nn'') = mset (paths nn)"
    using nsh_delete_ok [OF a(2,4)] a(3) by (simp add: nn''_def paths_def)
  have keys: "na_spi (hop_attrs cli spi si hop) = Some spi" "na_si (hop_attrs cli spi si hop) = Some si"
    by (cases hop, simp_all)+
  have sets: "set (paths nn') = insert nt (set (paths nn))" "set (paths nn'') = set (paths nn)"
    using arg_cong [OF a(3), of set_mset] arg_cong [OF restored, of set_mset] by simp_all
  have lens: "length (paths nn') = Suc (length (paths nn))" "length (paths nn'') = length (paths nn)"
    using arg_cong [OF a(3), of size] arg_cong [OF restored, of size] by simp_all
  have pr: "printable cli env nn'" "printable cli env nn''"
    using ok(2) a(5) by (auto simp: printable_def sets)
  have again: "nsh_nl_cmd_path_dst_set env mnet junk (hop_attrs cli spi si hop) nn' w' = (- EEXIST, nn', w')"
    using keys a(4) by (simp add: nsh_nl_cmd_path_dst_set_def)
  have del: "nsh_nl_cmd_path_dst_unset env (no_nsh_attrs\<lparr>na_spi := Some spi, na_si := Some si\<rparr>) nn' = (0, nn'')"
    using a(4) by (simp add: nsh_nl_cmd_path_dst_unset_def nn''_def)
  have cmd: "ip_nsh cli env mnet junk fuel (''add'' # key_args s i @ hop_args hop) k =
      quiet (ipnsh_talk (nsh_nl_doit env mnet junk) NSHKMOD_CMD_PATH_DST_SET (hop_attrs cli spi si hop) k)"
    "ip_nsh cli env mnet junk fuel (''del'' # key_args s i) k =
      quiet (ipnsh_talk (nsh_nl_doit env mnet junk) NSHKMOD_CMD_PATH_DST_UNSET
        (no_nsh_attrs\<lparr>na_spi := Some spi, na_si := Some si\<rparr>) k)" for k :: "nsh_net \<times> 'a"
    using add_request [OF args hop, of "nsh_nl_doit env mnet junk" k] del_request [OF args, of "nsh_nl_doit env mnet junk" k]
    by (simp_all add: do_ipnsh_def cmd_matches_def)
  note lst = show_paths [of cli env _ fuel mnet junk]
  show ?thesis
    using lst [OF ok(2), of w] lst [OF pr(1), of w'] lst [OF pr(2), of w'] fuel lens
      path_lines_mset [OF a(3), of cli env] a(1,5) again del restored
    unfolding cmd by (fastforce simp: quiet_def ipnsh_talk_def nsh_nl_doit_def path_lines_def)
qed

definition demo_nsh_cli :: nsh_cli where
  "demo_nsh_cli = \<lparr>nc_index = (\<lambda>s. if s = ''nsh2'' then 2 else if s = ''eth3'' then 3 else 0),
     nc_name = (\<lambda>i. if i = 1 then Some ''nsh1'' else if i = 2 then Some ''nsh2'' else if i = 3 then Some ''eth3'' else None),
     nc_u8 = (\<lambda>s. if s = ''3'' then Some 3 else None), nc_u32 = (\<lambda>s. if s = ''7'' then Some 7 else None),
     nc_pton = (\<lambda>s. None), nc_ntop = (\<lambda>a. None), nc_lladdr = (\<lambda>s. None)\<rparr>"

lemma demo_names: "names_dev demo_nsh_cli nsh_env0 True ''nsh2''"
  by (simp add: names_dev_def demo_nsh_cli_def nsh_env0_def)

lemma nsh_world_no_paths: "paths (nsh_world []) = []"
proof -
  have "(replicate NSH_HASH_SIZE [])[0 := []] = replicate NSH_HASH_SIZE ([] :: nsh_table list)"
    by (rule list_update_same_conv [THEN iffD2]) simp_all
  then show ?thesis by (simp add: paths_def nsh_world_def)
qed

theorem nsh_add_show_del_witness:
  "\<exists>k lns' k'. ip_nsh demo_nsh_cli nsh_env0 (madcap_init_net :: unit madcap_net) nsh_peer 2
      (''add'' # key_args ''7'' ''3'' @ [''dev'', ''nsh2'']) (nsh_world [], ()) = Some (Done 0, [], k) \<and>
    ip_nsh demo_nsh_cli nsh_env0 (madcap_init_net :: unit madcap_net) nsh_peer 2 [''show''] k = Some (Done 0, lns', k) \<and>
    mset lns' = {#''spi '' @ dec 7 @ '' si '' @ dec 3 @ '' mdtype 1 encap none dev nsh2'' @ newline#} \<and>
    ip_nsh demo_nsh_cli nsh_env0 (madcap_init_net :: unit madcap_net) nsh_peer 2 [''del'', ''spi'', ''7'', ''si'', ''3''] k =
      Some (Done 0, [], k')"
proof -
  have pr: "printable demo_nsh_cli nsh_env0 (nsh_world [])" by (simp add: printable_def nsh_world_no_paths)
  have hop: "hop_ok demo_nsh_cli nsh_env0 (HLocal ''nsh2'')" using demo_names by simp
  have args: "nc_u32 demo_nsh_cli ''7'' = Some 7" "nc_u8 demo_nsh_cli ''3'' = Some 3" by (simp_all add: demo_nsh_cli_def)
  have new: "nsh_find_table (ne_hash nsh_env0) (nsh_world []) (path_key 7 3) = None"
    by (simp add: nsh_find_table_def nsh_world_def nsh_env0_def nsh_table_head_def)
  have mem: "2 \<le> nsh_mem (nsh_world [])" by (simp add: nsh_world_def)
  have fuel: "Suc (length (paths (nsh_world []))) < 2" by (simp add: nsh_world_no_paths)
  have "path_lines demo_nsh_cli nsh_env0 (nsh_world []) = []" by (simp add: path_lines_def nsh_world_no_paths)
  then have show0: "ip_nsh demo_nsh_cli nsh_env0 (madcap_init_net :: unit madcap_net) nsh_peer 2 [''show''] (nsh_world [], ()) =
      Some (Done 0, [], (nsh_world [], ()))"
    using show_paths [OF pr, of 2 "madcap_init_net :: unit madcap_net" nsh_peer "()"] nsh_world_no_paths by simp
  have line: "new_path_line 7 3 (HLocal ''nsh2'') =
      ''spi '' @ dec 7 @ '' si '' @ dec 3 @ '' mdtype 1 encap none dev nsh2'' @ newline"
    by (simp add: new_path_line_def take_bit_eq_mod)
  show ?thesis
    using nsh_add_show_del [OF nsh_world_empty pr hop args new mem fuel, of "madcap_init_net :: unit madcap_net" nsh_peer "()"]
      show0 line by (auto simp del: append.simps)
qed

text \<open>Property C26: the path of a pseudo device, from the command line to the listing and back.
  \<^verbatim>\<open>ip link add ... type nsh spi S si I\<close> refuses a path number that does not fit 24 bits, and the link
  then shows the numbers it was given. \<^verbatim>\<open>ip nsh set dev D spi S si I\<close> accepts every number: the listing
  of the devices shows it cut to 24 bits for that device and is otherwise unchanged; \<^verbatim>\<open>ip nsh unset\<close>
  leaves the device with no path.\<close>

theorem device_path_roundtrip:
  assumes args: "nc_u32 cli s = Some spi" "nc_u8 cli i = Some si"
    and dev: "names_dev cli env True dev" "ne_dev_by_index env (nc_index cli dev) = Some d"
    and mtu: "mtu_known (ne_hash env) nn (path_key spi si)" and names: "named_devs cli env nn"
    and fuel: "length (nsh_dev_list nn) < fuel"
  shows "(case nsh_parse_opt cli (key_args s i) of
      None \<Rightarrow> spi \<ge> push_bit 24 1
    | Some (p, q) \<Rightarrow> (\<exists>nn' tb. nsh_newlink p q 0 e nn = (0, nn') \<and> nsh_fill_info True (nsh_devs nn' e) = (0, Some tb) \<and>
        nsh_print_opt (Some (Some (fst tb), Some (snd tb))) = ''spi '' @ udec spi @ '' si '' @ udec si @ '' '')) \<and>
    (\<exists>k k'. ip_nsh cli env mnet junk fuel (''set'' # ''dev'' # dev # key_args s i) (nn, w) = Some (Done 0, [], k) \<and>
      ip_nsh cli env mnet junk fuel [''show'', ''dev''] k =
        Some (Done 0, map (\<lambda>e. if e = d then set_line dev spi si else dev_line cli env nn e) (nsh_dev_list nn), k) \<and>
      ip_nsh cli env mnet junk fuel [''unset'', ''dev'', dev] k = Some (Done 0, [], k') \<and>
      ip_nsh cli env mnet junk fuel [''show'', ''dev''] k' =
        Some (Done 0, map (\<lambda>e. if e = d then set_line dev 0 0 else dev_line cli env nn e) (nsh_dev_list nn), k'))"
proof -
  let ?at = "no_nsh_attrs\<lparr>na_ifindex := Some (nc_index cli dev), na_spi := Some spi, na_si := Some si\<rparr>"
  have tgt: "nsh_target env (nc_index cli dev) = Inr d" and nm: "nc_name cli (ne_ifindex env d) = Some dev" "nc_index cli dev \<noteq> 0"
    using dev by (auto simp: names_dev_def nsh_target_def)
  obtain nn1 where n1: "nsh_nl_cmd_dev_path_set env ?at nn = Some (0, nn1)" "nsh_dev_list nn1 = nsh_dev_list nn"
      "\<And>e. nd_key (nsh_devs nn1 e) = (if e = d then path_key spi si else nd_key (nsh_devs nn e))"
    using dev_path_set [OF tgt mtu] by blast
  define nn2 where "nn2 = upd_dev nn1 d (nd_key_update (\<lambda>_. 0))"
  have z: "path_key 0 0 = 0" by (simp add: path_key_def htonl_def le_bytes_def numeral_nat)
  have n2: "nsh_nl_cmd_dev_path_unset env (no_nsh_attrs\<lparr>na_ifindex := Some (nc_index cli dev)\<rparr>) nn1 = (0, nn2)"
    "nsh_dev_list nn2 = nsh_dev_list nn"
    "\<And>e. nd_key (nsh_devs nn2 e) = (if e = d then path_key 0 0 else nd_key (nsh_devs nn e))"
    using tgt n1(2,3) z by (simp_all add: nsh_nl_cmd_dev_path_unset_def nn2_def upd_dev_def)
  have line: "map (dev_line cli env m) (nsh_dev_list m) =
      map (\<lambda>e. if e = d then set_line dev p q else dev_line cli env nn e) (nsh_dev_list nn)"
    if "nsh_dev_list m = nsh_dev_list nn" "\<And>e. nd_key (nsh_devs m e) = (if e = d then path_key p q else nd_key (nsh_devs nn e))"
    for m p q
    using that dev_line_key [of m d p q cli env dev, OF _ nm(1)] dev_line_same [of m _ nn cli env] by auto
  have nmd: "named_devs cli env nn1" "named_devs cli env nn2" using names n1(2) n2(2) by (simp_all add: named_devs_def)
  have set_run: "ip_nsh cli env mnet junk fuel (''set'' # ''dev'' # dev # key_args s i) (nn, w) = Some (Done 0, [], nn1, w)"
      "ip_nsh cli env mnet junk fuel [''unset'', ''dev'', dev] (nn1, w) = Some (Done 0, [], nn2, w)"
    using n1(1) n2(1)
    by (simp_all add: do_ipnsh_def cmd_matches_def quiet_def ipnsh_talk_def nsh_nl_doit_def set_request [OF args nm(2)]
        unset_request [OF nm(2)])
  have shown: "ip_nsh cli env mnet junk fuel [''show'', ''dev''] (nn1, w) =
        Some (Done 0, map (\<lambda>e. if e = d then set_line dev spi si else dev_line cli env nn e) (nsh_dev_list nn), nn1, w)"
      "ip_nsh cli env mnet junk fuel [''show'', ''dev''] (nn2, w) =
        Some (Done 0, map (\<lambda>e. if e = d then set_line dev 0 0 else dev_line cli env nn e) (nsh_dev_list nn), nn2, w)"
    using show_devs [OF nmd(1), of fuel mnet junk w] show_devs [OF nmd(2), of fuel mnet junk w] fuel
      line [OF n1(2,3)] line [OF n2(2,3)] n1(2) n2(2) by simp_all
  have "nsh_fill_info True (nsh_devs (upd_dev nn e (nd_key_update (\<lambda>_. path_key spi si))) e) = (0, Some (take_bit 24 spi, si))"
    by (simp add: nsh_fill_info_def upd_dev_def key_of_path Let_def)
  moreover have "take_bit 24 spi = spi" if "spi < push_bit 24 1"
    using that less_mask_eq [of spi 24] by (simp add: take_bit_eq_mask push_bit_eq_mult)
  ultimately have "case nsh_parse_opt cli (key_args s i) of
      None \<Rightarrow> spi \<ge> push_bit 24 1
    | Some (p, q) \<Rightarrow> (\<exists>nn' tb. nsh_newlink p q 0 e nn = (0, nn') \<and> nsh_fill_info True (nsh_devs nn' e) = (0, Some tb) \<and>
        nsh_print_opt (Some (Some (fst tb), Some (snd tb))) = ''spi '' @ udec spi @ '' si '' @ udec si @ '' '')"
    unfolding nsh_opt_words [OF args] by (auto simp: nsh_newlink_def nsh_print_opt_def Let_def)
  with set_run shown show ?thesis by blast
qed

theorem device_path_roundtrip_witness:
  "\<exists>k. ip_nsh demo_nsh_cli nsh_env0 (madcap_init_net :: unit madcap_net) nsh_peer 3
      [''set'', ''dev'', ''nsh2'', ''spi'', ''7'', ''si'', ''3''] (nsh_world [], ()) = Some (Done 0, [], k) \<and>
    ip_nsh demo_nsh_cli nsh_env0 (madcap_init_net :: unit madcap_net) nsh_peer 3 [''show'', ''dev''] k =
      Some (Done 0, [set_line ''nsh1'' 7 3, set_line ''nsh2'' 7 3], k)"
proof -
  have args: "nc_u32 demo_nsh_cli ''7'' = Some 7" "nc_u8 demo_nsh_cli ''3'' = Some 3" by (simp_all add: demo_nsh_cli_def)
  have dev: "ne_dev_by_index nsh_env0 (nc_index demo_nsh_cli ''nsh2'') = Some 2" by (simp add: nsh_env0_def demo_nsh_cli_def)
  have "nsh_find_table (ne_hash nsh_env0) (nsh_world []) (path_key 7 3) = None"
    by (simp add: nsh_find_table_def nsh_world_def nsh_env0_def nsh_table_head_def)
  then have mtu: "mtu_known (ne_hash nsh_env0) (nsh_world []) (path_key 7 3)" by (simp add: mtu_known_def)
  have names: "named_devs demo_nsh_cli nsh_env0 (nsh_world [])"
    by (simp add: named_devs_def nsh_world_def demo_nsh_cli_def nsh_env0_def)
  have fuel: "length (nsh_dev_list (nsh_world [])) < 3" by (simp add: nsh_world_def)
  have line: "dev_line demo_nsh_cli nsh_env0 (nsh_world []) 1 = set_line ''nsh1'' 7 3"
    by (rule dev_line_key) (simp_all add: demo_nsh_cli_def nsh_env0_def)
  have "nsh_dev_list (nsh_world []) = [1, 2]" by (simp add: nsh_world_def)
  with device_path_roundtrip [OF args demo_names dev mtu names fuel, of 9 "madcap_init_net :: unit madcap_net" nsh_peer "()"] line
  show ?thesis by auto
qed

end
