(* ===== verification/Ip_Tunnel.thy ===== *)
theory Ip_Tunnel
  imports Madcap_Core
begin

text \<open>
  \<^verbatim>\<open>protocol-drivers-4.2.0/ipip/ipip.c\<close>: the IPIP driver of the kernel with madcap calls, and
  the vocabulary it shares with the GRE driver: tunnels, link attributes and what becomes of a
  packet. The kernel's tunnel library (\<^verbatim>\<open>ip_tunnel_*\<close>, \<^verbatim>\<open>iptunnel_*\<close>, \<^verbatim>\<open>gre_*\<close>) is not part of the
  repository: its functions are the fields of \<open>tnl_kern\<close>. A result \<open>None\<close> is a read past the
  packet.
\<close>

section \<open>Headers and tunnels\<close>

record iphdr =
  iph_version :: "4 word"
  iph_ihl :: "4 word"
  iph_tos :: u8
  iph_tot_len :: u16
  iph_id :: u16
  iph_frag_off :: u16
  iph_ttl :: u8
  iph_protocol :: u8
  iph_check :: u16
  iph_saddr :: u32
  iph_daddr :: u32

record ip_tunnel_parm =
  p_link :: u32
  p_i_flags :: u16
  p_o_flags :: u16
  p_i_key :: u32
  p_o_key :: u32
  p_iph :: iphdr

record ip_tunnel_encap =
  encap_type :: u16
  encap_flags :: u16
  encap_sport :: u16
  encap_dport :: u16

record ip_tunnel =
  t_parms :: ip_tunnel_parm
  t_encap :: ip_tunnel_encap
  t_o_seqno :: u32
  t_tun_hlen :: nat
  t_hlen :: nat
  t_encap_hlen :: nat
  t_err_count :: int
  t_err_time :: u64
  t_mlink :: u32

text \<open>A network device and its private data, with what the drivers write of it.\<close>

record tnl_dev =
  td_priv :: ip_tunnel
  td_dev_addr :: "u8 list"
  td_broadcast :: "u8 list"
  td_flags :: u32
  td_header_ops :: bool
  td_needed_headroom :: int
  td_mtu :: int
  td_lltx :: bool
  td_keep_dst :: bool
  td_tx_errors :: nat
  td_tx_dropped :: nat

abbreviation (input) IPPROTO_IPIP :: u8 where "IPPROTO_IPIP \<equiv> 4"
abbreviation (input) IFF_BROADCAST :: u32 where "IFF_BROADCAST \<equiv> 0x2"
abbreviation (input) IFF_POINTOPOINT :: u32 where "IFF_POINTOPOINT \<equiv> 0x10"
abbreviation (input) IFF_NOARP :: u32 where "IFF_NOARP \<equiv> 0x80"
abbreviation (input) EADDRNOTAVAIL :: int where "EADDRNOTAVAIL \<equiv> 99"

text \<open>\<^verbatim>\<open>htons (IP_DF)\<close>, \<^verbatim>\<open>htons (~IP_DF)\<close>, \<^verbatim>\<open>htons (ETH_P_IP)\<close> and the flag of \<^verbatim>\<open>ip_tunnel_lookup\<close> for tunnels
  without a key\<close>

definition IP_DF :: u16 where "IP_DF = htons 0x4000"
definition NOT_IP_DF :: u16 where "NOT_IP_DF = htons (NOT 0x4000)"
definition ETH_P_IP :: u16 where "ETH_P_IP = htons 0x0800"
definition TUNNEL_NO_KEY :: u16 where "TUNNEL_NO_KEY = htons 0x0080"

definition zero_iphdr :: iphdr where
  "zero_iphdr = \<lparr>iph_version = 0, iph_ihl = 0, iph_tos = 0, iph_tot_len = 0, iph_id = 0, iph_frag_off = 0,
     iph_ttl = 0, iph_protocol = 0, iph_check = 0, iph_saddr = 0, iph_daddr = 0\<rparr>"

definition zero_parm :: ip_tunnel_parm where
  "zero_parm = \<lparr>p_link = 0, p_i_flags = 0, p_o_flags = 0, p_i_key = 0, p_o_key = 0, p_iph = zero_iphdr\<rparr>"

definition zero_encap :: ip_tunnel_encap where
  "zero_encap = \<lparr>encap_type = 0, encap_flags = 0, encap_sport = 0, encap_dport = 0\<rparr>"

text \<open>\<open>tk_lookup\<close> is \<^verbatim>\<open>ip_tunnel_lookup\<close> in the table of layer-3 (\<open>False\<close>) or tap tunnels; \<open>tk_offloads\<close> is
  \<^verbatim>\<open>iptunnel_handle_offloads\<close>, \<open>None\<close> an error pointer; \<open>tk_cow_head\<close> whether room in front of the packet
  could be made; \<open>tk_timeo\<close> is \<^verbatim>\<open>IPTUNNEL_ERR_TIMEO\<close>.\<close>

record tnl_kern =
  tk_dev_by_index :: "u32 \<Rightarrow> ptr"
  tk_lookup :: "bool \<Rightarrow> u32 \<Rightarrow> u16 \<Rightarrow> u32 \<Rightarrow> u32 \<Rightarrow> u32 \<Rightarrow> ptr"
  tk_policy_check :: "u8 list \<Rightarrow> bool"
  tk_pull_header :: "u8 list \<Rightarrow> u8 list option"
  tk_offloads :: "bool \<Rightarrow> u8 list \<Rightarrow> u8 list option"
  tk_cow_head :: "int \<Rightarrow> bool"
  tk_encap_setup :: "ip_tunnel_encap \<Rightarrow> ip_tunnel \<Rightarrow> int \<times> ip_tunnel"
  tk_newlink :: "ip_tunnel_parm \<Rightarrow> tnl_dev \<Rightarrow> int \<times> tnl_dev"
  tk_changelink :: "ip_tunnel_parm \<Rightarrow> tnl_dev \<Rightarrow> int \<times> tnl_dev"
  tk_init :: "tnl_dev \<Rightarrow> int \<times> tnl_dev"
  tk_ioctl :: "nat \<Rightarrow> ip_tunnel_parm \<Rightarrow> tnl_dev \<Rightarrow> int \<times> ip_tunnel_parm \<times> tnl_dev"
  tk_timeo :: u64
  tk_build_header :: "u16 \<Rightarrow> u16 \<Rightarrow> u32 \<Rightarrow> u32 \<Rightarrow> nat \<Rightarrow> u8 list"
  tk_calc_hlen :: "u16 \<Rightarrow> nat"
  tk_to_tnl :: "u16 \<Rightarrow> u16"
  tk_to_gre :: "u16 \<Rightarrow> u16"

text \<open>What becomes of a packet: freed, queued on the madcap device, or handed to \<^verbatim>\<open>ip_tunnel_xmit\<close>
  with the header to send it under.\<close>

datatype tnl_fate = TFreed | TMadcap addr "u8 list" | TTunnel "u8 list" iphdr u8

text \<open>\<^verbatim>\<open>time_before (a, b)\<close>\<close>

definition time_before :: "u64 \<Rightarrow> u64 \<Rightarrow> bool" where
  "time_before a b \<longleftrightarrow> sint (a - b) < 0"

text \<open>\<^verbatim>\<open>if (time_before (jiffies, t->err_time + IPTUNNEL_ERR_TIMEO)) t->err_count++; ...\<close>\<close>

definition count_icmp_error :: "tnl_kern \<Rightarrow> u64 \<Rightarrow> ip_tunnel \<Rightarrow> ip_tunnel" where
  "count_icmp_error kn jiffies t =
     t\<lparr>t_err_count := (if time_before jiffies (t_err_time t + tk_timeo kn) then t_err_count t + 1 else 1),
       t_err_time := jiffies\<rparr>"

section \<open>Link attributes\<close>

type_synonym nlattr = "nat \<times> u8 list"
type_synonym nlattr_tb = "nat \<Rightarrow> u8 list option"

text \<open>A message under construction: the room that is left and the attributes so far.
  \<^verbatim>\<open>nla_total_size\<close> is a four-byte header and the payload, padded to four bytes.\<close>

record nlbuf =
  nb_room :: nat
  nb_attrs :: "nlattr list"

definition nla_total_size :: "nat \<Rightarrow> nat" where
  "nla_total_size n = (n + 4 + 3) div 4 * 4"

definition nla_put :: "nat \<Rightarrow> u8 list \<Rightarrow> nlbuf \<Rightarrow> nlbuf option" where
  "nla_put ty bs b =
     (if nla_total_size (length bs) \<le> nb_room b
      then Some (b\<lparr>nb_room := nb_room b - nla_total_size (length bs), nb_attrs := nb_attrs b @ [(ty, bs)]\<rparr>)
      else None)"

fun nla_put_all :: "nlattr list \<Rightarrow> nlbuf \<Rightarrow> nlbuf option" where
  "nla_put_all [] b = Some b"
| "nla_put_all ((ty, bs) # rest) b = do { b \<leftarrow> nla_put ty bs b; nla_put_all rest b }"

lemma nla_total_simps [simp]:
  "nla_total_size 1 = 8" "nla_total_size (Suc 0) = 8" "nla_total_size 2 = 8" "nla_total_size 4 = 8"
  "nla_total_size 6 = 12" "nla_total_size 16 = 20"
  by (simp_all add: nla_total_size_def)

text \<open>Attributes fit exactly when their padded sizes do.\<close>

definition attrs_size :: "nlattr list \<Rightarrow> nat" where
  "attrs_size as = sum_list (map (\<lambda>(ty, bs). nla_total_size (length bs)) as)"

lemma put_all_fits:
  "nla_put_all as b = (if attrs_size as \<le> nb_room b
     then Some (b\<lparr>nb_room := nb_room b - attrs_size as, nb_attrs := nb_attrs b @ as\<rparr>) else None)"
proof (induction as arbitrary: b)
  case (Cons a as)
  obtain ty bs where a: "a = (ty, bs)" by fastforce
  show ?case
  proof (cases "nla_total_size (length bs) \<le> nb_room b")
    case True
    then show ?thesis by (simp add: a nla_put_def Cons.IH attrs_size_def add.commute le_diff_conv2 diff_diff_add)
  next
    case False
    then show ?thesis by (simp add: a nla_put_def attrs_size_def)
  qed
qed (simp add: attrs_size_def)

text \<open>\<^verbatim>\<open>nla_parse\<close>: an attribute that occurs twice counts the last time.\<close>

definition nla_parse :: "nlattr list \<Rightarrow> nlattr_tb" where
  "nla_parse as = map_of (rev as)"

definition nla_get_u8 :: "u8 list \<Rightarrow> u8" where "nla_get_u8 bs = le_word (take 1 bs)"
definition nla_get_u16 :: "u8 list \<Rightarrow> u16" where "nla_get_u16 bs = le_word (take 2 bs)"
definition nla_get_u32 :: "u8 list \<Rightarrow> u32" where "nla_get_u32 bs = le_word (take 4 bs)"

text \<open>The getters read what the putters wrote.\<close>

lemma get_le_bytes [simp]:
  "nla_get_u8 [x] = x" "nla_get_u16 (le_bytes 2 v) = v" "nla_get_u32 (le_bytes 4 w) = w"
  by (simp_all add: nla_get_u8_def nla_get_u16_def nla_get_u32_def wire_simps)

text \<open>\<^verbatim>\<open>if (data[type]) field = get (data[type]);\<close>\<close>

definition nla_set :: "nlattr_tb \<Rightarrow> nat \<Rightarrow> (u8 list \<Rightarrow> 'a) \<Rightarrow> ('a \<Rightarrow> 's \<Rightarrow> 's) \<Rightarrow> 's \<Rightarrow> 's" where
  "nla_set data ty get upd s = (case data ty of None \<Rightarrow> s | Some bs \<Rightarrow> upd (get bs) s)"

text \<open>The four attributes of an outer UDP encapsulation, present or not; they are numbered from
  \<open>base\<close> on in the order type, flags, source and destination port.\<close>

definition encap_parms :: "nat \<Rightarrow> nlattr_tb option \<Rightarrow> bool \<times> ip_tunnel_encap" where
  "encap_parms base data =
     (case data of
        None \<Rightarrow> (False, zero_encap)
      | Some data \<Rightarrow>
          (data base \<noteq> None \<or> data (base + 1) \<noteq> None \<or> data (base + 2) \<noteq> None \<or> data (base + 3) \<noteq> None,
           nla_set data (base + 3) nla_get_u16 (\<lambda>v. encap_dport_update (\<lambda>_. v))
             (nla_set data (base + 2) nla_get_u16 (\<lambda>v. encap_sport_update (\<lambda>_. v))
               (nla_set data (base + 1) nla_get_u16 (\<lambda>v. encap_flags_update (\<lambda>_. v))
                 (nla_set data base nla_get_u16 (\<lambda>v. encap_type_update (\<lambda>_. v)) zero_encap)))))"

section \<open>IPIP: packets\<close>

text \<open>ICMP errors for a tunnelled packet: the result, the calls into the routing code, and the
  devices. \<open>outer\<close> is the header quoted in the message.\<close>

abbreviation (input) ICMP_DEST_UNREACH :: u8 where "ICMP_DEST_UNREACH \<equiv> 3"
abbreviation (input) ICMP_FRAG_NEEDED :: u8 where "ICMP_FRAG_NEEDED \<equiv> 4"
abbreviation (input) ICMP_REDIRECT :: u8 where "ICMP_REDIRECT \<equiv> 5"
abbreviation (input) ICMP_TIME_EXCEEDED :: u8 where "ICMP_TIME_EXCEEDED \<equiv> 11"

datatype icmp_call = Ipv4_update_pmtu u32 u32 | Ipv4_redirect u32

definition ipip_err ::
  "tnl_kern \<Rightarrow> u64 \<Rightarrow> u32 \<Rightarrow> u8 \<Rightarrow> u8 \<Rightarrow> u32 \<Rightarrow> iphdr \<Rightarrow> (addr \<Rightarrow> tnl_dev) \<Rightarrow> int \<times> icmp_call list \<times> (addr \<Rightarrow> tnl_dev)" where
  "ipip_err kn jiffies ifindex ty code info outer devs =
     (case tk_lookup kn False ifindex TUNNEL_NO_KEY (iph_daddr outer) (iph_saddr outer) 0 of
        None \<Rightarrow> (- ENOENT, [], devs)
      | Some a \<Rightarrow>
          let t = td_priv (devs a); iph = p_iph (t_parms t) in
          if ty = ICMP_DEST_UNREACH \<and> code = ICMP_FRAG_NEEDED then (0, [Ipv4_update_pmtu info (p_link (t_parms t))], devs)
          else if ty = ICMP_REDIRECT then (0, [Ipv4_redirect (p_link (t_parms t))], devs)
          else if iph_daddr iph = 0 then (- ENOENT, [], devs)
          else if iph_ttl iph = 0 \<and> ty = ICMP_TIME_EXCEEDED then (0, [], devs)
          else (0, [], devs(a := (devs a)\<lparr>td_priv := count_icmp_error kn jiffies t\<rparr>)))"

text \<open>A received packet: \<open>None\<close> in the second component is a dropped one, otherwise the tunnel it is
  handed to.\<close>

definition ipip_rcv :: "tnl_kern \<Rightarrow> u32 \<Rightarrow> iphdr \<Rightarrow> u8 list \<Rightarrow> int \<times> (addr \<times> u8 list) option" where
  "ipip_rcv kn ifindex iph pkt =
     (case tk_lookup kn False ifindex TUNNEL_NO_KEY (iph_saddr iph) (iph_daddr iph) 0 of
        None \<Rightarrow> (- 1, None)
      | Some tunnel \<Rightarrow>
          if \<not> tk_policy_check kn pkt then (0, None)
          else (case tk_pull_header kn pkt of None \<Rightarrow> (0, None) | Some inner \<Rightarrow> (0, Some (tunnel, inner))))"

text \<open>\<^verbatim>\<open>mcdev = __dev_get_by_index (...); if (mcdev && get_madcap_ops (mcdev))\<close>\<close>

definition madcap_link :: "tnl_kern \<Rightarrow> 'w madcap_net \<Rightarrow> bool \<Rightarrow> u32 \<Rightarrow> ptr" where
  "madcap_link kn mnet enable link =
     (if enable then
        (case tk_dev_by_index kn link of
           Some mcdev \<Rightarrow> if get_madcap_ops mnet mcdev \<noteq> None then Some mcdev else None
         | None \<Rightarrow> None)
      else None)"

definition ipip_tunnel_xmit ::
  "tnl_kern \<Rightarrow> 'w madcap_net \<Rightarrow> bool \<Rightarrow> u16 \<Rightarrow> u8 list \<Rightarrow> tnl_dev \<Rightarrow> tnl_fate \<times> tnl_dev" where
  "ipip_tunnel_xmit kn mnet enable protocol pkt dev =
     (let tiph = p_iph (t_parms (td_priv dev)); err = dev\<lparr>td_tx_errors := td_tx_errors dev + 1\<rparr> in
      if protocol \<noteq> ETH_P_IP then (TFreed, err)
      else (case tk_offloads kn False pkt of
              None \<Rightarrow> (TFreed, err)
            | Some pkt \<Rightarrow>
                (case madcap_link kn mnet enable (p_link (t_parms (td_priv dev))) of
                   Some mcdev \<Rightarrow> (TMadcap mcdev pkt, dev)
                 | None \<Rightarrow> (TTunnel pkt tiph (iph_protocol tiph), dev))))"

section \<open>IPIP: configuration\<close>

abbreviation (input) SIOCADDTUNNEL :: nat where "SIOCADDTUNNEL \<equiv> 0x89F1"
abbreviation (input) SIOCCHGTUNNEL :: nat where "SIOCCHGTUNNEL \<equiv> 0x89F3"

text \<open>\<open>arg\<close> is what \<^verbatim>\<open>copy_from_user\<close> yields, \<open>put_ok\<close> whether \<^verbatim>\<open>copy_to_user\<close> succeeds; the parameters
  returned are those copied out.\<close>

definition ipip_tunnel_ioctl ::
  "tnl_kern \<Rightarrow> nat \<Rightarrow> ip_tunnel_parm option \<Rightarrow> bool \<Rightarrow> tnl_dev \<Rightarrow> int \<times> ip_tunnel_parm option \<times> tnl_dev" where
  "ipip_tunnel_ioctl kn cmd arg put_ok dev =
     (case arg of
        None \<Rightarrow> (- EFAULT, None, dev)
      | Some p \<Rightarrow>
          if (cmd = SIOCADDTUNNEL \<or> cmd = SIOCCHGTUNNEL) \<and>
             (iph_version (p_iph p) \<noteq> 4 \<or> iph_protocol (p_iph p) \<noteq> IPPROTO_IPIP \<or> iph_ihl (p_iph p) \<noteq> 5 \<or>
              iph_frag_off (p_iph p) AND NOT_IP_DF \<noteq> 0)
          then (- EINVAL, None, dev)
          else
            let p = p\<lparr>p_i_key := 0, p_o_key := 0, p_i_flags := 0, p_o_flags := 0\<rparr>;
                p = (if iph_ttl (p_iph p) \<noteq> 0
                     then p\<lparr>p_iph := (p_iph p)\<lparr>iph_frag_off := iph_frag_off (p_iph p) OR IP_DF\<rparr>\<rparr> else p);
                (err, p, dev) = tk_ioctl kn cmd p dev in
            if err \<noteq> 0 then (err, None, dev)
            else if \<not> put_ok then (- EFAULT, None, dev)
            else (0, Some p, dev))"

definition ipip_tunnel_setup :: "tnl_dev \<Rightarrow> tnl_dev" where
  "ipip_tunnel_setup dev = dev\<lparr>td_flags := IFF_NOARP, td_lltx := True, td_keep_dst := True\<rparr>"

definition ipip_tunnel_init :: "tnl_kern \<Rightarrow> tnl_dev \<Rightarrow> int \<times> tnl_dev" where
  "ipip_tunnel_init kn dev =
     (let t = td_priv dev; iph = p_iph (t_parms t) in
      tk_init kn (dev\<lparr>td_dev_addr := le_bytes 4 (iph_saddr iph) @ drop 4 (td_dev_addr dev),
        td_broadcast := le_bytes 4 (iph_daddr iph) @ drop 4 (td_broadcast dev),
        td_priv := t\<lparr>t_tun_hlen := 0, t_hlen := 0 + t_encap_hlen t,
          t_parms := (t_parms t)\<lparr>p_iph := iph\<lparr>iph_protocol := IPPROTO_IPIP\<rparr>\<rparr>\<rparr>\<rparr>))"

abbreviation (input) IFLA_IPTUN_LINK :: nat where "IFLA_IPTUN_LINK \<equiv> 1"
abbreviation (input) IFLA_IPTUN_LOCAL :: nat where "IFLA_IPTUN_LOCAL \<equiv> 2"
abbreviation (input) IFLA_IPTUN_REMOTE :: nat where "IFLA_IPTUN_REMOTE \<equiv> 3"
abbreviation (input) IFLA_IPTUN_TTL :: nat where "IFLA_IPTUN_TTL \<equiv> 4"
abbreviation (input) IFLA_IPTUN_TOS :: nat where "IFLA_IPTUN_TOS \<equiv> 5"
abbreviation (input) IFLA_IPTUN_PMTUDISC :: nat where "IFLA_IPTUN_PMTUDISC \<equiv> 10"
abbreviation (input) IFLA_IPTUN_ENCAP_TYPE :: nat where "IFLA_IPTUN_ENCAP_TYPE \<equiv> 15"
abbreviation (input) IFLA_IPTUN_ENCAP_FLAGS :: nat where "IFLA_IPTUN_ENCAP_FLAGS \<equiv> 16"
abbreviation (input) IFLA_IPTUN_ENCAP_SPORT :: nat where "IFLA_IPTUN_ENCAP_SPORT \<equiv> 17"
abbreviation (input) IFLA_IPTUN_ENCAP_DPORT :: nat where "IFLA_IPTUN_ENCAP_DPORT \<equiv> 18"

text \<open>\<^verbatim>\<open>!data[PMTUDISC] || nla_get_u8 (data[PMTUDISC])\<close>\<close>

definition pmtudisc_on :: "nlattr_tb \<Rightarrow> nat \<Rightarrow> bool" where
  "pmtudisc_on data ty \<longleftrightarrow> (case data ty of None \<Rightarrow> True | Some bs \<Rightarrow> nla_get_u8 bs \<noteq> 0)"

definition ipip_iph_ttl :: "u8 \<Rightarrow> iphdr \<Rightarrow> iphdr" where
  "ipip_iph_ttl v iph = (let iph = iph\<lparr>iph_ttl := v\<rparr> in if v \<noteq> 0 then iph\<lparr>iph_frag_off := IP_DF\<rparr> else iph)"

definition ipip_netlink_parms :: "nlattr_tb option \<Rightarrow> ip_tunnel_parm" where
  "ipip_netlink_parms data =
     (let iph = zero_iphdr\<lparr>iph_version := 4, iph_protocol := IPPROTO_IPIP, iph_ihl := 5\<rparr> in
      case data of
        None \<Rightarrow> zero_parm\<lparr>p_iph := iph\<rparr>
      | Some data \<Rightarrow>
          let parms = nla_set data IFLA_IPTUN_LINK nla_get_u32 (\<lambda>v. p_link_update (\<lambda>_. v)) zero_parm;
              iph = nla_set data IFLA_IPTUN_LOCAL nla_get_u32 (\<lambda>v. iph_saddr_update (\<lambda>_. v)) iph;
              iph = nla_set data IFLA_IPTUN_REMOTE nla_get_u32 (\<lambda>v. iph_daddr_update (\<lambda>_. v)) iph;
              iph = nla_set data IFLA_IPTUN_TTL nla_get_u8 ipip_iph_ttl iph;
              iph = nla_set data IFLA_IPTUN_TOS nla_get_u8 (\<lambda>v. iph_tos_update (\<lambda>_. v)) iph;
              iph = (if pmtudisc_on data IFLA_IPTUN_PMTUDISC then iph\<lparr>iph_frag_off := IP_DF\<rparr> else iph) in
          parms\<lparr>p_iph := iph\<rparr>)"

definition ipip_netlink_encap_parms :: "nlattr_tb option \<Rightarrow> bool \<times> ip_tunnel_encap" where
  "ipip_netlink_encap_parms data = encap_parms IFLA_IPTUN_ENCAP_TYPE data"

text \<open>\<^verbatim>\<open>if (encap attributes) { err = ip_tunnel_encap_setup (...); if (err < 0) return err; }\<close>\<close>

definition setup_encap :: "tnl_kern \<Rightarrow> bool \<times> ip_tunnel_encap \<Rightarrow> tnl_dev \<Rightarrow> int \<times> tnl_dev" where
  "setup_encap kn e dev =
     (if fst e then (let (err, t) = tk_encap_setup kn (snd e) (td_priv dev) in (err, dev\<lparr>td_priv := t\<rparr>)) else (0, dev))"

text \<open>The new device is at address \<open>d\<close>.\<close>

definition ipip_newlink ::
  "tnl_kern \<Rightarrow> 'w madcap_net \<Rightarrow> bool \<Rightarrow> addr \<Rightarrow> nlattr_tb option \<Rightarrow> tnl_dev \<Rightarrow> 'w \<Rightarrow> int \<times> tnl_dev \<times> 'w" where
  "ipip_newlink kn mnet enable d data dev w =
     (let (err, dev) = setup_encap kn (ipip_netlink_encap_parms data) dev in
      if err < 0 then (err, dev, w)
      else
        let p = ipip_netlink_parms data;
            w = (if enable then
                   (case tk_dev_by_index kn (p_link p) of
                      Some mcdev \<Rightarrow> snd (madcap_acquire_dev mnet mcdev d w) | None \<Rightarrow> w)
                 else w);
            (err, dev) = tk_newlink kn p dev in
        (err, dev, w))"

definition ipip_changelink :: "tnl_kern \<Rightarrow> nlattr_tb option \<Rightarrow> tnl_dev \<Rightarrow> int \<times> tnl_dev" where
  "ipip_changelink kn data dev =
     (let (err, dev) = setup_encap kn (ipip_netlink_encap_parms data) dev in
      if err < 0 then (err, dev)
      else
        let p = ipip_netlink_parms data; ptp = td_flags dev AND IFF_POINTOPOINT \<noteq> 0 in
        if ptp \<and> iph_daddr (p_iph p) = 0 \<or> \<not> ptp \<and> iph_daddr (p_iph p) \<noteq> 0 then (- EINVAL, dev)
        else tk_changelink kn p dev)"

definition ipip_get_size :: nat where
  "ipip_get_size = nla_total_size 4 + nla_total_size 4 + nla_total_size 4 + nla_total_size 1 + nla_total_size 1 +
     nla_total_size 1 + nla_total_size 2 + nla_total_size 2 + nla_total_size 2 + nla_total_size 2 + 0"

text \<open>\<^verbatim>\<open>!!(frag_off & htons (IP_DF))\<close>\<close>

definition df_byte :: "u16 \<Rightarrow> u8 list" where
  "df_byte frag_off = (if frag_off AND IP_DF \<noteq> 0 then [1] else [0])"

definition ipip_fill_info :: "tnl_dev \<Rightarrow> nlbuf \<Rightarrow> int \<times> nlbuf" where
  "ipip_fill_info dev b =
     (let tunnel = td_priv dev; parm = t_parms tunnel; iph = p_iph parm in
      case nla_put_all [(IFLA_IPTUN_LINK, le_bytes 4 (p_link parm)), (IFLA_IPTUN_LOCAL, le_bytes 4 (iph_saddr iph)),
          (IFLA_IPTUN_REMOTE, le_bytes 4 (iph_daddr iph)), (IFLA_IPTUN_TTL, [iph_ttl iph]), (IFLA_IPTUN_TOS, [iph_tos iph]),
          (IFLA_IPTUN_PMTUDISC, df_byte (iph_frag_off iph)),
          (IFLA_IPTUN_ENCAP_TYPE, le_bytes 2 (encap_type (t_encap tunnel))),
          (IFLA_IPTUN_ENCAP_SPORT, le_bytes 2 (encap_sport (t_encap tunnel))),
          (IFLA_IPTUN_ENCAP_DPORT, le_bytes 2 (encap_dport (t_encap tunnel))),
          (IFLA_IPTUN_ENCAP_FLAGS, le_bytes 2 (encap_flags (t_encap tunnel)))] b of
        None \<Rightarrow> (- EMSGSIZE, b)
      | Some b \<Rightarrow> (0, b))"

section \<open>Modules\<close>

text \<open>A module's registrations are made one after the other and taken back in the reverse order
  when one fails: \<open>rc\<close> gives the result of each registration, the set holds those in force.\<close>

datatype registration = Pernet_ipip | Xfrm4_tunnel | Rtnl_ipip | Pernet_ipgre | Pernet_gre_tap | Gre_cisco | Rtnl_gre | Rtnl_gretap

definition ipip_init :: "(registration \<Rightarrow> int) \<Rightarrow> int \<times> registration set" where
  "ipip_init rc =
     (if rc Pernet_ipip < 0 then (rc Pernet_ipip, {})
      else let r = {Pernet_ipip} in
        if rc Xfrm4_tunnel < 0 then (rc Xfrm4_tunnel, r - {Pernet_ipip})
        else let r = insert Xfrm4_tunnel r in
          if rc Rtnl_ipip < 0 then (rc Rtnl_ipip, r - {Xfrm4_tunnel} - {Pernet_ipip})
          else (rc Rtnl_ipip, insert Rtnl_ipip r))"

definition ipip_fini :: "registration set \<Rightarrow> registration set" where
  "ipip_fini r = r - {Rtnl_ipip} - {Xfrm4_tunnel} - {Pernet_ipip}"

end
