(* ===== verification/Ip_Gre.thy ===== *)
theory Ip_Gre
  imports Ip_Tunnel
begin

text \<open>
  \<^verbatim>\<open>protocol-drivers-4.2.0/gre/ip_gre.c\<close>: the GRE driver of the kernel with madcap calls, for
  layer-3 tunnels (\<^verbatim>\<open>gre\<close>) and Ethernet tunnels (\<^verbatim>\<open>gretap\<close>).
\<close>

section \<open>Received messages\<close>

abbreviation (input) IPPROTO_GRE :: u8 where "IPPROTO_GRE \<equiv> 47"
abbreviation (input) ICMP_PORT_UNREACH :: u8 where "ICMP_PORT_UNREACH \<equiv> 3"
abbreviation (input) ICMP_SR_FAILED :: u8 where "ICMP_SR_FAILED \<equiv> 5"
abbreviation (input) ICMP_EXC_TTL :: u8 where "ICMP_EXC_TTL \<equiv> 0"

definition ETH_P_TEB :: u16 where "ETH_P_TEB = htons 0x6558"
definition TUNNEL_CSUM :: u16 where "TUNNEL_CSUM = htons 0x01"
definition TUNNEL_SEQ :: u16 where "TUNNEL_SEQ = htons 0x08"

datatype gre_result = PACKET_RCVD | PACKET_REJECT

record tnl_ptk_info =
  tpi_flags :: u16
  tpi_proto :: u16
  tpi_key :: u32
  tpi_seq :: u32

definition ipv4_is_multicast :: "u32 \<Rightarrow> bool" where
  "ipv4_is_multicast a \<longleftrightarrow> a AND htonl 0xF0000000 = htonl 0xE0000000"

text \<open>The \<^verbatim>\<open>switch\<close> over type and code: whether the message is looked at further.\<close>

definition icmp_relevant :: "u8 \<Rightarrow> u8 \<Rightarrow> bool" where
  "icmp_relevant ty code \<longleftrightarrow>
     (if ty = ICMP_DEST_UNREACH then code \<noteq> ICMP_SR_FAILED \<and> code \<noteq> ICMP_PORT_UNREACH
      else if ty = ICMP_TIME_EXCEEDED then code = ICMP_EXC_TTL
      else ty = ICMP_REDIRECT)"

definition ipgre_err ::
  "tnl_kern \<Rightarrow> u64 \<Rightarrow> u32 \<Rightarrow> u8 \<Rightarrow> u8 \<Rightarrow> iphdr \<Rightarrow> tnl_ptk_info \<Rightarrow> (addr \<Rightarrow> tnl_dev) \<Rightarrow> gre_result \<times> (addr \<Rightarrow> tnl_dev)" where
  "ipgre_err kn jiffies ifindex ty code outer tpi devs =
     (if \<not> icmp_relevant ty code then (PACKET_RCVD, devs)
      else (case tk_lookup kn (tpi_proto tpi = ETH_P_TEB) ifindex (tpi_flags tpi) (iph_daddr outer) (iph_saddr outer) (tpi_key tpi) of
              None \<Rightarrow> (PACKET_REJECT, devs)
            | Some a \<Rightarrow>
                let t = td_priv (devs a); iph = p_iph (t_parms t) in
                if iph_daddr iph = 0 \<or> ipv4_is_multicast (iph_daddr iph) then (PACKET_RCVD, devs)
                else if iph_ttl iph = 0 \<and> ty = ICMP_TIME_EXCEEDED then (PACKET_RCVD, devs)
                else (PACKET_RCVD, devs(a := (devs a)\<lparr>td_priv := count_icmp_error kn jiffies t\<rparr>))))"

definition ipgre_rcv :: "tnl_kern \<Rightarrow> u32 \<Rightarrow> iphdr \<Rightarrow> tnl_ptk_info \<Rightarrow> u8 list \<Rightarrow> gre_result \<times> (addr \<times> u8 list) option" where
  "ipgre_rcv kn ifindex iph tpi pkt =
     (case tk_lookup kn (tpi_proto tpi = ETH_P_TEB) ifindex (tpi_flags tpi) (iph_saddr iph) (iph_daddr iph) (tpi_key tpi) of
        Some tunnel \<Rightarrow> (PACKET_RCVD, Some (tunnel, pkt))
      | None \<Rightarrow> (PACKET_REJECT, None))"

section \<open>Transmission\<close>

text \<open>The sequence number is written in network order; without \<^verbatim>\<open>TUNNEL_SEQ\<close> it stays.\<close>

definition gre_xmit ::
  "tnl_kern \<Rightarrow> 'w madcap_net \<Rightarrow> bool \<Rightarrow> u8 list \<Rightarrow> iphdr \<Rightarrow> u16 \<Rightarrow> tnl_dev \<Rightarrow> tnl_fate \<times> tnl_dev" where
  "gre_xmit kn mnet enable pkt tnl_params proto dev =
     (let t = td_priv dev;
          t = (if p_o_flags (t_parms t) AND TUNNEL_SEQ \<noteq> 0 then t\<lparr>t_o_seqno := t_o_seqno t + 1\<rparr> else t);
          tpi = \<lparr>tpi_flags = p_o_flags (t_parms t), tpi_proto = proto, tpi_key = p_o_key (t_parms t), tpi_seq = htonl (t_o_seqno t)\<rparr>;
          pkt = tk_build_header kn (tpi_flags tpi) (tpi_proto tpi) (tpi_key tpi) (tpi_seq tpi) (t_tun_hlen t) @ pkt;
          dev = dev\<lparr>td_priv := t\<rparr> in
      case madcap_link kn mnet enable (p_link (t_parms t)) of
        Some mcdev \<Rightarrow> (TMadcap mcdev pkt, dev)
      | None \<Rightarrow> (TTunnel pkt tnl_params (iph_protocol tnl_params), dev))"

definition enc_iphdr :: "iphdr \<Rightarrow> u8 list" where
  "enc_iphdr h = [push_bit 4 (ucast (iph_version h)) OR ucast (iph_ihl h), iph_tos h] @ le_bytes 2 (iph_tot_len h) @
     le_bytes 2 (iph_id h) @ le_bytes 2 (iph_frag_off h) @ [iph_ttl h, iph_protocol h] @ le_bytes 2 (iph_check h) @
     le_bytes 4 (iph_saddr h) @ le_bytes 4 (iph_daddr h)"

definition dec_iphdr :: "u8 list \<Rightarrow> iphdr" where
  "dec_iphdr bs = \<lparr>iph_version = ucast (drop_bit 4 (bs ! 0)), iph_ihl = ucast (bs ! 0), iph_tos = bs ! 1,
     iph_tot_len = le_word (take 2 (drop 2 bs)), iph_id = le_word (take 2 (drop 4 bs)),
     iph_frag_off = le_word (take 2 (drop 6 bs)), iph_ttl = bs ! 8, iph_protocol = bs ! 9,
     iph_check = le_word (take 2 (drop 10 bs)), iph_saddr = le_word (take 4 (drop 12 bs)), iph_daddr = le_word (take 4 (drop 16 bs))\<rparr>"

text \<open>\<^verbatim>\<open>skb_pull\<close>: a packet that is too short is left as it is.\<close>

definition skb_pull :: "nat \<Rightarrow> u8 list \<Rightarrow> u8 list" where
  "skb_pull n pkt = (if n \<le> length pkt then drop n pkt else pkt)"

definition count_dropped :: "tnl_dev \<Rightarrow> tnl_dev" where
  "count_dropped dev = dev\<lparr>td_tx_dropped := td_tx_dropped dev + 1\<rparr>"

text \<open>A device with header operations finds the header to send under in front of the packet.\<close>

definition gre_tnl_params :: "tnl_dev \<Rightarrow> u8 list \<Rightarrow> (iphdr \<times> u8 list) option" where
  "gre_tnl_params dev pkt =
     (if td_header_ops dev then do {
        hdr \<leftarrow> read_bytes pkt 0 20;
        Some (dec_iphdr hdr, skb_pull (t_hlen (td_priv dev) + 20) pkt) }
      else Some (p_iph (t_parms (td_priv dev)), pkt))"

definition ipgre_xmit ::
  "tnl_kern \<Rightarrow> 'w madcap_net \<Rightarrow> bool \<Rightarrow> u16 \<Rightarrow> u8 list \<Rightarrow> tnl_dev \<Rightarrow> (tnl_fate \<times> tnl_dev) option" where
  "ipgre_xmit kn mnet enable protocol pkt dev =
     (let t = td_priv dev;
          room = (if td_header_ops dev then td_needed_headroom dev - (int (t_hlen t) + 20) else td_needed_headroom dev) in
      if \<not> tk_cow_head kn room then Some (TFreed, count_dropped dev)
      else do {
        (tnl_params, pkt) \<leftarrow> gre_tnl_params dev pkt;
        Some (case tk_offloads kn (p_o_flags (t_parms t) AND TUNNEL_CSUM \<noteq> 0) pkt of
                None \<Rightarrow> (TFreed, count_dropped dev)
              | Some pkt \<Rightarrow> gre_xmit kn mnet enable pkt tnl_params protocol dev) })"

definition gre_tap_xmit ::
  "tnl_kern \<Rightarrow> 'w madcap_net \<Rightarrow> bool \<Rightarrow> u8 list \<Rightarrow> tnl_dev \<Rightarrow> tnl_fate \<times> tnl_dev" where
  "gre_tap_xmit kn mnet enable pkt dev =
     (case tk_offloads kn (p_o_flags (t_parms (td_priv dev)) AND TUNNEL_CSUM \<noteq> 0) pkt of
        None \<Rightarrow> (TFreed, count_dropped dev)
      | Some pkt \<Rightarrow>
          if \<not> tk_cow_head kn (td_needed_headroom dev) then (TFreed, count_dropped dev)
          else gre_xmit kn mnet enable pkt (p_iph (t_parms (td_priv dev))) ETH_P_TEB dev)"

section \<open>Devices\<close>

definition GRE_VERSION_ROUTING :: u16 where
  "GRE_VERSION_ROUTING = htons 0x0007 OR htons 0x4000"

definition ipgre_tunnel_ioctl ::
  "tnl_kern \<Rightarrow> nat \<Rightarrow> ip_tunnel_parm option \<Rightarrow> bool \<Rightarrow> tnl_dev \<Rightarrow> int \<times> ip_tunnel_parm option \<times> tnl_dev" where
  "ipgre_tunnel_ioctl kn cmd arg put_ok dev =
     (case arg of
        None \<Rightarrow> (- EFAULT, None, dev)
      | Some p \<Rightarrow>
          if (cmd = SIOCADDTUNNEL \<or> cmd = SIOCCHGTUNNEL) \<and>
             (iph_version (p_iph p) \<noteq> 4 \<or> iph_protocol (p_iph p) \<noteq> IPPROTO_GRE \<or> iph_ihl (p_iph p) \<noteq> 5 \<or>
              iph_frag_off (p_iph p) AND NOT_IP_DF \<noteq> 0 \<or> (p_i_flags p OR p_o_flags p) AND GRE_VERSION_ROUTING \<noteq> 0)
          then (- EINVAL, None, dev)
          else
            let p = p\<lparr>p_i_flags := tk_to_tnl kn (p_i_flags p), p_o_flags := tk_to_tnl kn (p_o_flags p)\<rparr>;
                (err, p, dev) = tk_ioctl kn cmd p dev in
            if err \<noteq> 0 then (err, None, dev)
            else
              let p = p\<lparr>p_i_flags := tk_to_gre kn (p_i_flags p), p_o_flags := tk_to_gre kn (p_o_flags p)\<rparr> in
              if \<not> put_ok then (- EFAULT, None, dev) else (0, Some p, dev))"

text \<open>The header a device with header operations puts in front: the IP header of the tunnel with the
  given addresses, and the flags and protocol of the GRE header; the rest of the \<open>t_hlen\<close> bytes is what
  the buffer held (\<open>junk\<close>).\<close>

definition ipgre_header ::
  "tnl_kern \<Rightarrow> u8 list \<Rightarrow> u16 \<Rightarrow> u32 option \<Rightarrow> u32 option \<Rightarrow> u8 list \<Rightarrow> tnl_dev \<Rightarrow> int \<times> u8 list" where
  "ipgre_header kn junk ty daddr saddr pkt dev =
     (let t = td_priv dev;
          greh = le_bytes 2 (tk_to_gre kn (p_o_flags (t_parms t))) @ le_bytes 2 (htons ty) @ drop 4 junk;
          iph = p_iph (t_parms t);
          iph = (case saddr of Some a \<Rightarrow> iph\<lparr>iph_saddr := a\<rparr> | None \<Rightarrow> iph);
          iph = (case daddr of Some a \<Rightarrow> iph\<lparr>iph_daddr := a\<rparr> | None \<Rightarrow> iph) in
      (if iph_daddr iph \<noteq> 0 then int (t_hlen t + 20) else - int (t_hlen t + 20), enc_iphdr iph @ greh @ pkt))"

definition ipgre_header_parse :: "u8 list \<Rightarrow> (int \<times> u8 list) option" where
  "ipgre_header_parse mac_header = do { bs \<leftarrow> read_bytes mac_header 12 4; Some (4, bs) }"

text \<open>\<open>route\<close> is the device \<^verbatim>\<open>ip_route_output_gre\<close> finds, with its index and whether it has IPv4; \<open>groups\<close> are
  the multicast memberships of the interfaces, with multiplicity.\<close>

definition ipgre_open :: "(addr \<times> u32 \<times> bool) option \<Rightarrow> tnl_dev \<Rightarrow> (u32 \<times> u32) multiset \<Rightarrow> int \<times> tnl_dev \<times> (u32 \<times> u32) multiset" where
  "ipgre_open route dev groups =
     (let t = td_priv dev; daddr = iph_daddr (p_iph (t_parms t)) in
      if ipv4_is_multicast daddr then
        (case route of
           None \<Rightarrow> (- EADDRNOTAVAIL, dev, groups)
         | Some (rdev, ifindex, inet) \<Rightarrow>
             if \<not> inet then (- EADDRNOTAVAIL, dev, groups)
             else (0, dev\<lparr>td_priv := t\<lparr>t_mlink := ifindex\<rparr>\<rparr>, add_mset (ifindex, daddr) groups))
      else (0, dev, groups))"

definition ipgre_close :: "(u32 \<Rightarrow> bool) \<Rightarrow> tnl_dev \<Rightarrow> (u32 \<times> u32) multiset \<Rightarrow> int \<times> (u32 \<times> u32) multiset" where
  "ipgre_close inetdev dev groups =
     (let t = td_priv dev; daddr = iph_daddr (p_iph (t_parms t)) in
      if ipv4_is_multicast daddr \<and> t_mlink t \<noteq> 0 \<and> inetdev (t_mlink t) then (0, groups - {#(t_mlink t, daddr)#})
      else (0, groups))"

abbreviation (input) ETH_DATA_LEN :: int where "ETH_DATA_LEN \<equiv> 1500"

text \<open>\<open>llmax\<close> is \<^verbatim>\<open>LL_MAX_HEADER\<close>, which depends on the kernel's configuration.\<close>

definition gre_tunnel_init :: "tnl_kern \<Rightarrow> int \<Rightarrow> tnl_dev \<Rightarrow> tnl_dev" where
  "gre_tunnel_init kn llmax dev =
     (let t = td_priv dev;
          t = t\<lparr>t_tun_hlen := tk_calc_hlen kn (p_o_flags (t_parms t)),
                t_parms := (t_parms t)\<lparr>p_iph := (p_iph (t_parms t))\<lparr>iph_protocol := IPPROTO_GRE\<rparr>\<rparr>\<rparr>;
          t = t\<lparr>t_hlen := t_tun_hlen t + t_encap_hlen t\<rparr>;
          t_hlen = int (t_hlen t) + 20 in
      dev\<lparr>td_priv := t, td_needed_headroom := llmax + t_hlen + 4, td_mtu := ETH_DATA_LEN - t_hlen - 4,
        td_lltx := td_lltx dev \<or> p_o_flags (t_parms t) AND TUNNEL_SEQ = 0\<rparr>)"

text \<open>\<open>bcast\<close>: compiled with \<^verbatim>\<open>CONFIG_NET_IPGRE_BROADCAST\<close>.\<close>

definition ipgre_tunnel_init :: "tnl_kern \<Rightarrow> bool \<Rightarrow> int \<Rightarrow> tnl_dev \<Rightarrow> int \<times> tnl_dev" where
  "ipgre_tunnel_init kn bcast llmax dev =
     (let dev = gre_tunnel_init kn llmax dev;
          iph = p_iph (t_parms (td_priv dev));
          dev = dev\<lparr>td_dev_addr := le_bytes 4 (iph_saddr iph) @ drop 4 (td_dev_addr dev),
                    td_broadcast := le_bytes 4 (iph_daddr iph) @ drop 4 (td_broadcast dev),
                    td_flags := IFF_NOARP, td_keep_dst := True\<rparr> in
      if iph_daddr iph \<noteq> 0 then
        (if bcast \<and> ipv4_is_multicast (iph_daddr iph) then
           (if iph_saddr iph = 0 then (- EINVAL, dev)
            else tk_init kn (dev\<lparr>td_flags := IFF_BROADCAST, td_header_ops := True\<rparr>))
         else tk_init kn dev)
      else tk_init kn (dev\<lparr>td_header_ops := True\<rparr>))"

definition gre_tap_init :: "tnl_kern \<Rightarrow> int \<Rightarrow> tnl_dev \<Rightarrow> int \<times> tnl_dev" where
  "gre_tap_init kn llmax dev = tk_init kn (gre_tunnel_init kn llmax dev)"

section \<open>Link attributes\<close>

abbreviation (input) IFLA_GRE_LINK :: nat where "IFLA_GRE_LINK \<equiv> 1"
abbreviation (input) IFLA_GRE_IFLAGS :: nat where "IFLA_GRE_IFLAGS \<equiv> 2"
abbreviation (input) IFLA_GRE_OFLAGS :: nat where "IFLA_GRE_OFLAGS \<equiv> 3"
abbreviation (input) IFLA_GRE_IKEY :: nat where "IFLA_GRE_IKEY \<equiv> 4"
abbreviation (input) IFLA_GRE_OKEY :: nat where "IFLA_GRE_OKEY \<equiv> 5"
abbreviation (input) IFLA_GRE_LOCAL :: nat where "IFLA_GRE_LOCAL \<equiv> 6"
abbreviation (input) IFLA_GRE_REMOTE :: nat where "IFLA_GRE_REMOTE \<equiv> 7"
abbreviation (input) IFLA_GRE_TTL :: nat where "IFLA_GRE_TTL \<equiv> 8"
abbreviation (input) IFLA_GRE_TOS :: nat where "IFLA_GRE_TOS \<equiv> 9"
abbreviation (input) IFLA_GRE_PMTUDISC :: nat where "IFLA_GRE_PMTUDISC \<equiv> 10"
abbreviation (input) IFLA_GRE_ENCAP_TYPE :: nat where "IFLA_GRE_ENCAP_TYPE \<equiv> 14"
abbreviation (input) IFLA_GRE_ENCAP_FLAGS :: nat where "IFLA_GRE_ENCAP_FLAGS \<equiv> 15"
abbreviation (input) IFLA_GRE_ENCAP_SPORT :: nat where "IFLA_GRE_ENCAP_SPORT \<equiv> 16"
abbreviation (input) IFLA_GRE_ENCAP_DPORT :: nat where "IFLA_GRE_ENCAP_DPORT \<equiv> 17"

definition ipgre_tunnel_validate :: "nlattr_tb option \<Rightarrow> int" where
  "ipgre_tunnel_validate data =
     (case data of
        None \<Rightarrow> 0
      | Some data \<Rightarrow>
          let flags = nla_set data IFLA_GRE_IFLAGS nla_get_u16 (OR) 0;
              flags = nla_set data IFLA_GRE_OFLAGS nla_get_u16 (OR) flags in
          if flags AND GRE_VERSION_ROUTING \<noteq> 0 then - EINVAL else 0)"

text \<open>\<open>address\<close> is the link-layer address of the request; \<^verbatim>\<open>is_valid_ether_addr\<close>: neither a group address
  nor zero.\<close>

definition is_valid_ether_addr :: "u8 list \<Rightarrow> bool" where
  "is_valid_ether_addr a \<longleftrightarrow> a ! 0 AND 1 = 0 \<and> (\<exists>b \<in> set (take 6 a). b \<noteq> 0)"

definition ipgre_tap_validate :: "u8 list option \<Rightarrow> nlattr_tb option \<Rightarrow> int" where
  "ipgre_tap_validate address data =
     (let chk = (case address of
                   None \<Rightarrow> 0
                 | Some a \<Rightarrow> if length a \<noteq> 6 then - EINVAL else if \<not> is_valid_ether_addr a then - EADDRNOTAVAIL else 0) in
      if chk \<noteq> 0 then chk
      else (case data of
              None \<Rightarrow> ipgre_tunnel_validate data
            | Some tb \<Rightarrow>
                (case tb IFLA_GRE_REMOTE of
                   None \<Rightarrow> ipgre_tunnel_validate data
                 | Some bs \<Rightarrow> if nla_get_u32 bs = 0 then - EINVAL else ipgre_tunnel_validate data)))"

definition ipgre_netlink_parms :: "tnl_kern \<Rightarrow> nlattr_tb option \<Rightarrow> ip_tunnel_parm" where
  "ipgre_netlink_parms kn data =
     (let iph = zero_iphdr\<lparr>iph_protocol := IPPROTO_GRE\<rparr> in
      case data of
        None \<Rightarrow> zero_parm\<lparr>p_iph := iph\<rparr>
      | Some data \<Rightarrow>
          let parms = nla_set data IFLA_GRE_LINK nla_get_u32 (\<lambda>v. p_link_update (\<lambda>_. v)) zero_parm;
              parms = nla_set data IFLA_GRE_IFLAGS nla_get_u16 (\<lambda>v. p_i_flags_update (\<lambda>_. tk_to_tnl kn v)) parms;
              parms = nla_set data IFLA_GRE_OFLAGS nla_get_u16 (\<lambda>v. p_o_flags_update (\<lambda>_. tk_to_tnl kn v)) parms;
              parms = nla_set data IFLA_GRE_IKEY nla_get_u32 (\<lambda>v. p_i_key_update (\<lambda>_. v)) parms;
              parms = nla_set data IFLA_GRE_OKEY nla_get_u32 (\<lambda>v. p_o_key_update (\<lambda>_. v)) parms;
              iph = nla_set data IFLA_GRE_LOCAL nla_get_u32 (\<lambda>v. iph_saddr_update (\<lambda>_. v)) iph;
              iph = nla_set data IFLA_GRE_REMOTE nla_get_u32 (\<lambda>v. iph_daddr_update (\<lambda>_. v)) iph;
              iph = nla_set data IFLA_GRE_TTL nla_get_u8 (\<lambda>v. iph_ttl_update (\<lambda>_. v)) iph;
              iph = nla_set data IFLA_GRE_TOS nla_get_u8 (\<lambda>v. iph_tos_update (\<lambda>_. v)) iph;
              iph = (if pmtudisc_on data IFLA_GRE_PMTUDISC then iph\<lparr>iph_frag_off := IP_DF\<rparr> else iph) in
          parms\<lparr>p_iph := iph\<rparr>)"

definition ipgre_netlink_encap_parms :: "nlattr_tb option \<Rightarrow> bool \<times> ip_tunnel_encap" where
  "ipgre_netlink_encap_parms data = encap_parms IFLA_GRE_ENCAP_TYPE data"

definition ipgre_newlink ::
  "tnl_kern \<Rightarrow> 'w madcap_net \<Rightarrow> bool \<Rightarrow> addr \<Rightarrow> nlattr_tb option \<Rightarrow> tnl_dev \<Rightarrow> 'w \<Rightarrow> int \<times> tnl_dev \<times> 'w" where
  "ipgre_newlink kn mnet enable d data dev w =
     (let (err, dev) = setup_encap kn (ipgre_netlink_encap_parms data) dev in
      if err < 0 then (err, dev, w)
      else
        let p = ipgre_netlink_parms kn data;
            w = (case madcap_link kn mnet enable (p_link p) of
                   Some mcdev \<Rightarrow> snd (madcap_acquire_dev mnet mcdev d w) | None \<Rightarrow> w);
            (err, dev) = tk_newlink kn p dev in
        (err, dev, w))"

definition ipgre_changelink :: "tnl_kern \<Rightarrow> nlattr_tb option \<Rightarrow> tnl_dev \<Rightarrow> int \<times> tnl_dev" where
  "ipgre_changelink kn data dev =
     (let (err, dev) = setup_encap kn (ipgre_netlink_encap_parms data) dev in
      if err < 0 then (err, dev) else tk_changelink kn (ipgre_netlink_parms kn data) dev)"

definition ipgre_get_size :: nat where
  "ipgre_get_size = nla_total_size 4 + nla_total_size 2 + nla_total_size 2 + nla_total_size 4 + nla_total_size 4 +
     nla_total_size 4 + nla_total_size 4 + nla_total_size 1 + nla_total_size 1 + nla_total_size 1 + nla_total_size 2 +
     nla_total_size 2 + nla_total_size 2 + nla_total_size 2 + 0"

definition ipgre_fill_info :: "tnl_kern \<Rightarrow> tnl_dev \<Rightarrow> nlbuf \<Rightarrow> int \<times> nlbuf" where
  "ipgre_fill_info kn dev b =
     (let t = td_priv dev; p = t_parms t; iph = p_iph p in
      case nla_put_all [(IFLA_GRE_LINK, le_bytes 4 (p_link p)), (IFLA_GRE_IFLAGS, le_bytes 2 (tk_to_gre kn (p_i_flags p))),
          (IFLA_GRE_OFLAGS, le_bytes 2 (tk_to_gre kn (p_o_flags p))), (IFLA_GRE_IKEY, le_bytes 4 (p_i_key p)),
          (IFLA_GRE_OKEY, le_bytes 4 (p_o_key p)), (IFLA_GRE_LOCAL, le_bytes 4 (iph_saddr iph)),
          (IFLA_GRE_REMOTE, le_bytes 4 (iph_daddr iph)), (IFLA_GRE_TTL, [iph_ttl iph]), (IFLA_GRE_TOS, [iph_tos iph]),
          (IFLA_GRE_PMTUDISC, df_byte (iph_frag_off iph)),
          (IFLA_GRE_ENCAP_TYPE, le_bytes 2 (encap_type (t_encap t))), (IFLA_GRE_ENCAP_SPORT, le_bytes 2 (encap_sport (t_encap t))),
          (IFLA_GRE_ENCAP_DPORT, le_bytes 2 (encap_dport (t_encap t))), (IFLA_GRE_ENCAP_FLAGS, le_bytes 2 (encap_flags (t_encap t)))] b of
        None \<Rightarrow> (- EMSGSIZE, b)
      | Some b \<Rightarrow> (0, b))"

section \<open>The module\<close>

definition ipgre_init :: "(registration \<Rightarrow> int) \<Rightarrow> int \<times> registration set" where
  "ipgre_init rc =
     (if rc Pernet_ipgre < 0 then (rc Pernet_ipgre, {})
      else let r = {Pernet_ipgre} in
      if rc Pernet_gre_tap < 0 then (rc Pernet_gre_tap, r - {Pernet_ipgre})
      else let r = insert Pernet_gre_tap r in
      if rc Gre_cisco < 0 then (rc Gre_cisco, r - {Pernet_gre_tap} - {Pernet_ipgre})
      else let r = insert Gre_cisco r in
      if rc Rtnl_gre < 0 then (rc Rtnl_gre, r - {Gre_cisco} - {Pernet_gre_tap} - {Pernet_ipgre})
      else let r = insert Rtnl_gre r in
      if rc Rtnl_gretap < 0 then (rc Rtnl_gretap, r - {Rtnl_gre} - {Gre_cisco} - {Pernet_gre_tap} - {Pernet_ipgre})
      else (0, insert Rtnl_gretap r))"

definition ipgre_fini :: "registration set \<Rightarrow> registration set" where
  "ipgre_fini r = r - {Rtnl_gretap} - {Rtnl_gre} - {Gre_cisco} - {Pernet_gre_tap} - {Pernet_ipgre}"

end
