(* ===== verification/Sfmc_Fib.thy ===== *)
theory Sfmc_Fib
  imports Sfmc_Table
begin

text \<open>
  The forwarding table of \<^verbatim>\<open>sfmc.c\<close>. Its abstract content is the list of routes on
  \<^verbatim>\<open>fib_list\<close>; the invariant says that the trie indexes exactly those. On every state with the
  invariant the lookups return the route with exactly, or with the longest, matching prefix;
  adding a new prefix adds one route; deleting removes one and leaves no cached pointer to it.
  The lemmas use the trie only through the interface \<open>lpm_table\<close>.
\<close>

definition fib_key :: "sfmc_fib \<Rightarrow> bool list" where
  "fib_key sf = key_of (fib_prefix (sf_network sf) (sf_len sf))"

definition fib_entry :: "sfmc \<Rightarrow> addr \<Rightarrow> bool list \<times> addr \<times> ptr" where
  "fib_entry s sfa = (case fibs s sfa of Some sf \<Rightarrow> (fib_key sf, the (sf_pn sf), Some sfa))"

definition fib_live :: "sfmc \<Rightarrow> addr \<Rightarrow> bool" where
  "fib_live s sfa \<longleftrightarrow> (\<exists>sf a. fibs s sfa = Some sf \<and> sf_pn sf = Some a \<and> sf_len sf \<le> 32)"

abbreviation fib_state :: "sfmc \<Rightarrow> pstate" where
  "fib_state s \<equiv> (sfmc_mem s, fib_tree s)"

definition fib_inv :: "sfmc \<Rightarrow> bool" where
  "fib_inv s \<longleftrightarrow> pt_holds (fib_state s) (fib_entry s ` set (fib_list s)) \<and> maxbits (fib_tree s) = 32 \<and>
     (\<forall>sfa \<in> set (fib_list s). fib_live s sfa) \<and> distinct (fib_list s) \<and>
     (\<forall>sfa. fibs s sfa \<noteq> None \<longrightarrow> sfa < brk (sfmc_mem s))"

text \<open>A cached route of a locator entry is a live one.\<close>

definition cache_ok :: "sfmc \<Rightarrow> bool" where
  "cache_ok s \<longleftrightarrow> (\<forall>b \<in> set (sfmc_buckets s). \<forall>st \<in> set b. \<forall>sfa. st_fib st = Some sfa \<longrightarrow> sfa \<in> set (fib_list s))"

lemma unat_ucast_u8: "unat (ucast (len :: u8) :: u16) = unat len"
  by (simp add: unsigned_ucast_eq) (intro take_bit_nat_eq_self, rule less_trans [OF hash_bound], simp)

lemma fib_prefix_sel [simp]:
  "add (fib_prefix n len) = be32_bytes n" "ref_count (fib_prefix n len) = 1"
  "bitlen (fib_prefix n len) = unat len"
  by (simp_all add: dst2prefix_def unat_ucast_u8)

lemma fib_prefix_fits [simp]: "len \<le> 32 \<Longrightarrow> prefix_fits 32 (fib_prefix n len)"
  by (simp add: prefix_fits_def word_le_nat_alt be32_bytes_def)

lemma fib_entry_mem:
  assumes "fib_inv s"
  shows "(k, a, d) \<in> fib_entry s ` set (fib_list s) \<longleftrightarrow>
    (\<exists>sfa \<in> set (fib_list s). \<exists>sf. fibs s sfa = Some sf \<and> k = fib_key sf \<and> sf_pn sf = Some a \<and> d = Some sfa)"
proof -
  have "(k, a, d) = fib_entry s sfa \<longleftrightarrow>
      (\<exists>sf. fibs s sfa = Some sf \<and> k = fib_key sf \<and> sf_pn sf = Some a \<and> d = Some sfa)"
    if "sfa \<in> set (fib_list s)" for sfa
  proof -
    from that assms obtain sf b where "fibs s sfa = Some sf" "sf_pn sf = Some b"
      by (auto simp: fib_inv_def fib_live_def)
    then show ?thesis by (auto simp: fib_entry_def)
  qed
  then show ?thesis unfolding image_iff by blast
qed

lemma fib_inv_holds:
  assumes "fib_inv s"
  shows "pt_holds (fib_state s) (fib_entry s ` set (fib_list s))" "len \<le> 32 \<Longrightarrow> pt_fits (fib_state s) (fib_prefix n len)"
  using assms by (simp_all add: fib_inv_def pt_fits_def)

section \<open>Lookups\<close>

lemma node_data_entry:
  assumes "fib_inv s" "(k, a, d) \<in> fib_entry s ` set (fib_list s)"
  shows "node_data s (Some a) = Some d"
proof -
  obtain t where t: "trie_at (sfmc_mem s) (fib_tree s) t" "ents t = fib_entry s ` set (fib_list s)"
    using fib_inv_holds(1) [OF assms(1)] by (auto simp: pt_holds_def trie_rep_def)
  then have "(k, a, d) \<in> ents t" using assms(2) by simp
  then obtain fs b pa lt rt where "t = plug fs (PNd a b (Some (pa, k)) d lt rt)" using ents_position by blast
  with t(1) have "\<exists>n. pnodes (sfmc_mem s) a = Some n \<and> data n = d" by (auto simp: trie_at_plug)
  then show ?thesis by (auto simp: node_data_def)
qed

text \<open>A route matches an address when its prefix is one of the address, and is best when no
  matching route has a longer prefix.\<close>

definition route_matches :: "sfmc \<Rightarrow> u32 \<Rightarrow> addr \<Rightarrow> bool" where
  "route_matches s dst sfa \<longleftrightarrow> sfa \<in> set (fib_list s) \<and>
     (\<exists>sf. fibs s sfa = Some sf \<and> matches 32 (addr_bits (be32_bytes dst)) (fib_key sf))"

definition best_route :: "sfmc \<Rightarrow> u32 \<Rightarrow> addr \<Rightarrow> bool" where
  "best_route s dst sfa \<longleftrightarrow> route_matches s dst sfa \<and>
     (\<forall>x sf sf'. route_matches s dst x \<longrightarrow> fibs s x = Some sf \<longrightarrow> fibs s sfa = Some sf' \<longrightarrow> sf_len sf \<le> sf_len sf')"

lemma fib_key_length: "sf_len sf \<le> 32 \<Longrightarrow> length (fib_key sf) = unat (sf_len sf)"
  unfolding fib_key_def using prefix_fits_key(1) fib_prefix_fits fib_prefix_sel(3) by metis

lemma longest_route:
  assumes inv: "fib_inv s"
  shows "(\<exists>k a. longest_match (fib_entry s ` set (fib_list s)) 32 (addr_bits (be32_bytes dst)) k a (Some sfa)) \<longleftrightarrow>
    best_route s dst sfa"
proof -
  let ?E = "fib_entry s ` set (fib_list s)" and ?A = "addr_bits (be32_bytes dst)"
  have live: "\<exists>sf a. fibs s x = Some sf \<and> sf_pn sf = Some a \<and> sf_len sf \<le> 32" if "x \<in> set (fib_list s)" for x
    using inv that by (auto simp: fib_inv_def fib_live_def)
  have len: "length (fib_key sf) = unat (sf_len sf)" if "x \<in> set (fib_list s)" "fibs s x = Some sf" for x sf
    using live [OF that(1)] that(2) fib_key_length by auto
  show ?thesis
  proof
    assume "\<exists>k a. longest_match ?E 32 ?A k a (Some sfa)"
    then obtain k a where lm: "(k, a, Some sfa) \<in> ?E" "matches 32 ?A k"
        "\<And>k' a' d'. (k', a', d') \<in> ?E \<Longrightarrow> matches 32 ?A k' \<Longrightarrow> length k' \<le> length k"
      unfolding longest_match_def by blast
    from lm(1) obtain sf where sf: "sfa \<in> set (fib_list s)" "fibs s sfa = Some sf" "k = fib_key sf" "sf_pn sf = Some a"
      unfolding fib_entry_mem [OF inv] by blast
    have "sf_len g \<le> sf_len sf" if x: "route_matches s dst x" "fibs s x = Some g" for x g
    proof -
      from x have m: "x \<in> set (fib_list s)" "matches 32 ?A (fib_key g)" by (auto simp: route_matches_def)
      from live [OF m(1)] x(2) obtain b where "sf_pn g = Some b" by auto
      then have "(fib_key g, b, Some x) \<in> ?E" using m(1) x(2) unfolding fib_entry_mem [OF inv] by blast
      then have "length (fib_key g) \<le> length k" using lm(3) m(2) by blast
      then show ?thesis using len [OF m(1) x(2)] len [OF sf(1,2)] sf(3) by (simp add: word_le_nat_alt)
    qed
    with sf lm(2) show "best_route s dst sfa" unfolding best_route_def route_matches_def by auto
  next
    assume b: "best_route s dst sfa"
    then obtain sf where sf: "sfa \<in> set (fib_list s)" "fibs s sfa = Some sf" "matches 32 ?A (fib_key sf)"
      by (auto simp: best_route_def route_matches_def)
    from live [OF sf(1)] sf(2) obtain a where a: "sf_pn sf = Some a" by auto
    have e: "(fib_key sf, a, Some sfa) \<in> ?E" using sf a unfolding fib_entry_mem [OF inv] by blast
    have "length k' \<le> length (fib_key sf)" if k': "(k', a', d') \<in> ?E" "matches 32 ?A k'" for k' a' d'
    proof -
      from k'(1) obtain x g where x: "x \<in> set (fib_list s)" "fibs s x = Some g" "k' = fib_key g"
        unfolding fib_entry_mem [OF inv] by blast
      then have "route_matches s dst x" using k'(2) by (auto simp: route_matches_def)
      then have "sf_len g \<le> sf_len sf" using b x(2) sf(2) unfolding best_route_def by blast
      then show ?thesis using len [OF x(1,2)] len [OF sf(1,2)] x(3) by (simp add: word_le_nat_alt)
    qed
    with e sf(3) show "\<exists>k a. longest_match ?E 32 ?A k a (Some sfa)" unfolding longest_match_def by blast
  qed
qed

lemma longest_match_unique:
  assumes "longest_match E n A k a d" "longest_match E n A k' a' d'"
  shows "k = k'"
  using assms unfolding longest_match_def matches_def by (metis order_antisym)

lemma find_best_route:
  assumes inv: "fib_inv s"
  shows "\<exists>r. sfmc_fib_find_best s dst 32 = Some r \<and> (\<forall>sfa. r = Some sfa \<longleftrightarrow> best_route s dst sfa)"
proof -
  let ?E = "fib_entry s ` set (fib_list s)" and ?A = "addr_bits (be32_bytes dst)"
  have lm: "bitlen (fib_prefix dst 32) = 32" "add (fib_prefix dst 32) = be32_bytes dst" by (simp_all add: dst2prefix_def)
  obtain r where r: "patricia_search_best (sfmc_mem s) (fib_tree s) (fib_prefix dst 32) = Some r"
      "\<forall>a. r = Some a \<longleftrightarrow> (\<exists>k d. longest_match ?E 32 ?A k a d)"
    using pt.best_law [OF fib_inv_holds(1) [OF inv] fib_inv_holds(2) [OF inv, of 32 dst]] unfolding lm by auto
  have d: "\<exists>sfa. d = Some sfa" if "longest_match ?E 32 ?A k a d" for k a d
    using that unfolding longest_match_def fib_entry_mem [OF inv] by blast
  show ?thesis
  proof (cases r)
    case None
    have "\<not> best_route s dst sfa" for sfa
      using r(2) None unfolding longest_route [OF inv, symmetric] by blast
    with None r(1) show ?thesis by (simp add: sfmc_fib_find_best_def node_data_def)
  next
    case (Some a)
    then obtain k e where m: "longest_match ?E 32 ?A k a e" using r(2) by blast
    then obtain sfa where e: "e = Some sfa" using d by blast
    have ent: "(k, a, Some sfa) \<in> ?E" using m e by (simp add: longest_match_def)
    have "best_route s dst x \<longleftrightarrow> x = sfa" for x
    proof
      assume "best_route s dst x"
      then obtain k' a' where m': "longest_match ?E 32 ?A k' a' (Some x)" unfolding longest_route [OF inv, symmetric] by blast
      then have "(k, a', Some x) \<in> ?E" using longest_match_unique [OF m m'] by (simp add: longest_match_def)
      then show "x = sfa" using pt.key_unique [OF fib_inv_holds(1) [OF inv] ent] by auto
    next
      assume "x = sfa"
      then show "best_route s dst x" using m e longest_route [OF inv, of dst sfa] by blast
    qed
    with Some r(1) node_data_entry [OF inv ent] show ?thesis by (auto simp: sfmc_fib_find_best_def)
  qed
qed

lemma find_exact_route:
  assumes inv: "fib_inv s" and len: "len \<le> 32"
  shows "\<exists>r. sfmc_fib_find_exact s network len = Some r \<and>
    (\<forall>sfa. r = Some sfa \<longleftrightarrow> sfa \<in> set (fib_list s) \<and>
      (\<exists>sf. fibs s sfa = Some sf \<and> fib_key sf = key_of (fib_prefix network len)))"
proof -
  let ?E = "fib_entry s ` set (fib_list s)" and ?k = "key_of (fib_prefix network len)"
  obtain r where r: "patricia_search_exact (sfmc_mem s) (fib_tree s) (fib_prefix network len) = Some r"
      "\<forall>a. r = Some a \<longleftrightarrow> (\<exists>d. (?k, a, d) \<in> ?E)"
    using pt.exact_law [OF fib_inv_holds(1) [OF inv] fib_inv_holds(2) [OF inv len, of network]] by auto
  have ex: "(\<exists>a. (?k, a, Some sfa) \<in> ?E) \<longleftrightarrow> sfa \<in> set (fib_list s) \<and> (\<exists>sf. fibs s sfa = Some sf \<and> fib_key sf = ?k)" for sfa
  proof -
    have "\<exists>a. sf_pn sf = Some a" if "sfa \<in> set (fib_list s)" "fibs s sfa = Some sf" for sf
      using inv that by (auto simp: fib_inv_def fib_live_def)
    then show ?thesis by (auto simp: fib_entry_mem [OF inv]) metis
  qed
  show ?thesis
  proof (cases r)
    case None
    then have "\<not> (\<exists>a. (?k, a, Some sfa) \<in> ?E)" for sfa using r(2) by blast
    with None r(1) show ?thesis unfolding ex by (simp add: sfmc_fib_find_exact_def node_data_def)
  next
    case (Some a)
    then obtain d where d: "(?k, a, d) \<in> ?E" using r(2) by blast
    then obtain sfa where sfa: "d = Some sfa" unfolding fib_entry_mem [OF inv] by blast
    have "(\<exists>a. (?k, a, Some x) \<in> ?E) \<longleftrightarrow> x = sfa" for x
      using pt.key_unique [OF fib_inv_holds(1) [OF inv] d] d sfa by blast
    with Some r(1) node_data_entry [OF inv d] sfa show ?thesis
      unfolding ex by (auto simp: sfmc_fib_find_exact_def)
  qed
qed

section \<open>Adding a route\<close>

lemma trie_at_same:
  assumes "trie_at h T t" "pnodes h' = pnodes h" "same_prefixes (set (tprefs t)) h h'" "brk h \<le> brk h'"
  shows "trie_at h' T t"
proof -
  have "rep h (maxbits T) None t" using assms(1) unfolding trie_at_def by blast
  then have "rep h' (maxbits T) None t"
    by (rule rep_frame) (use assms(2,3) in \<open>simp_all add: same_nodes_def\<close>)
  moreover have "\<forall>a \<in> set (taddrs t) \<union> set (tprefs t). a < brk h'"
    using assms(1,4) unfolding trie_at_def by (meson less_le_trans)
  ultimately show ?thesis using assms(1) unfolding trie_at_def by blast
qed

lemma fib_inv_trie:
  assumes "fib_inv s"
  obtains t where "trie_at (sfmc_mem s) (fib_tree s) t" "ents t = fib_entry s ` set (fib_list s)"
  using fib_inv_holds(1) [OF assms] unfolding pt_holds_def trie_rep_def fst_conv snd_conv by blast

lemma entry_node:
  assumes "trie_at h T t" "(k, a, d) \<in> ents t"
  shows "\<exists>n. pnodes h a = Some n \<and> data n = d"
proof -
  obtain fs b pa lt rt where "t = plug fs (PNd a b (Some (pa, k)) d lt rt)" using ents_position [OF assms(2)] by blast
  with assms(1) show ?thesis by (auto simp: trie_at_plug)
qed

definition has_route :: "sfmc \<Rightarrow> bool list \<Rightarrow> bool" where
  "has_route s k \<longleftrightarrow> (\<exists>x \<in> set (fib_list s). \<exists>g. fibs s x = Some g \<and> fib_key g = k)"

lemma has_route_keys: "fib_inv s \<Longrightarrow> has_route s k \<longleftrightarrow> k \<in> fst ` fib_entry s ` set (fib_list s)"
  by (force simp: has_route_def fib_inv_def fib_live_def fib_entry_def image_iff)

lemma fib_insert_new:
  assumes inv: "fib_inv s" and sf: "fibs s sfa = Some sf" "sfa \<notin> set (fib_list s)" "sf_len sf \<le> 32"
    and mem: "3 \<le> mem_left (sfmc_mem s)" and new: "\<not> has_route s (fib_key sf)"
  shows "\<exists>a pfx h T. sfmc_fib_insert s sfa = Some (Some sfa, s\<lparr>sfmc_mem := h, fib_tree := T,
      fibs := (fibs s)(sfa \<mapsto> sf\<lparr>sf_pn := Some a, sf_prefix := Some pfx\<rparr>), fib_list := sfa # fib_list s\<rparr>) \<and>
    fib_inv (s\<lparr>sfmc_mem := h, fib_tree := T,
      fibs := (fibs s)(sfa \<mapsto> sf\<lparr>sf_pn := Some a, sf_prefix := Some pfx\<rparr>), fib_list := sfa # fib_list s\<rparr>) \<and>
    mem_left (sfmc_mem s) \<le> mem_left h + 3"
proof -
  let ?p = "fib_prefix (sf_network sf) (sf_len sf)" and ?E = "fib_entry s ` set (fib_list s)"
  obtain t where t: "trie_at (sfmc_mem s) (fib_tree s) t" "ents t = ?E" using fib_inv_trie [OF inv] .
  have mb: "maxbits (fib_tree s) = 32" using inv by (simp add: fib_inv_def)
  have nk: "key_of ?p \<notin> fst ` ?E" using new has_route_keys [OF inv] by (simp add: fib_key_def)
  have fits: "prefix_fits (maxbits (fib_tree s)) ?p" using mb sf(3) by simp
  have nt: "key_of ?p \<notin> keys t" using nk t(2) by (simp add: keys_def)
  obtain pfx a h1 T t' where e: "pt_enter (fib_state s) ?p = Some (pfx, a, (h1, T))" "trie_at h1 T t'"
      "maxbits T = 32" "ents t' = insert (key_of ?p, a, None) (ents t)" "brk (sfmc_mem s) < brk h1"
      "mem_left (sfmc_mem s) \<le> mem_left h1 + 3"
    by (rule pt_enter_new [OF t(1) fits _ mem nt]) (use mb that in simp_all)
  have ent: "(key_of ?p, a, None) \<in> ents t'" using e(4) by simp
  obtain n where n: "pnodes h1 a = Some n" "data n = None" using entry_node [OF e(2) ent] by blast
  obtain t2 pn where d: "upd_node h1 a (\<lambda>m. m\<lparr>data := Some sfa\<rparr>) = Some (h1\<lparr>pnodes := pn\<rparr>)"
      "trie_at (h1\<lparr>pnodes := pn\<rparr>) T t2" "ents t2 = insert (key_of ?p, a, Some sfa) (ents t' - {(key_of ?p, a, None)})"
    using set_data_at [OF e(2) ent, of "Some sfa"] by blast
  let ?s = "s\<lparr>sfmc_mem := h1\<lparr>pnodes := pn\<rparr>, fib_tree := T,
      fibs := (fibs s)(sfa \<mapsto> sf\<lparr>sf_pn := Some a, sf_prefix := Some pfx\<rparr>), fib_list := sfa # fib_list s\<rparr>"
  have run: "sfmc_fib_insert s sfa = Some (Some sfa, ?s)"
    using sf(1) e(1) n d(1) by (simp add: sfmc_fib_insert_def pt_set_data_def)
  have old: "fib_entry ?s x = fib_entry s x" if "x \<in> set (fib_list s)" for x
    using that sf(2) by (auto simp: fib_entry_def)
  have "fib_entry ?s sfa = (key_of ?p, a, Some sfa)" by (simp add: fib_entry_def fib_key_def)
  then have "fib_entry ?s ` set (fib_list ?s) = insert (key_of ?p, a, Some sfa) ?E"
    using image_cong [OF refl old, of "set (fib_list s)"] by simp
  also have "\<dots> = ents t2"
  proof -
    have "(key_of ?p, a, None) \<notin> ents t" using nt ents_key by blast
    then have "ents t' - {(key_of ?p, a, None)} = ?E" unfolding e(4) t(2) [symmetric] by blast
    then show ?thesis by (simp only: d(3))
  qed
  finally have "pt_holds (fib_state ?s) (fib_entry ?s ` set (fib_list ?s))"
    using d(2) by (auto simp: pt_holds_def trie_rep_def)
  moreover have "\<forall>x \<in> set (fib_list ?s). fib_live ?s x"
    using inv sf(3) by (auto simp: fib_inv_def fib_live_def)
  moreover have "\<forall>x. fibs ?s x \<noteq> None \<longrightarrow> x < brk (sfmc_mem ?s)"
    using inv sf(1) e(5) by (auto simp: fib_inv_def dest: less_trans)
  ultimately have "fib_inv ?s" using inv sf(2) e(3) by (simp add: fib_inv_def)
  with run e(6) show ?thesis
    by (intro exI [of _ a] exI [of _ pfx] exI [of _ "h1\<lparr>pnodes := pn\<rparr>"] exI [of _ T]) simp
qed

lemma fib_insert_dup:
  assumes inv: "fib_inv s" and sf: "fibs s sfa = Some sf" "sf_len sf \<le> 32"
    and mem: "3 \<le> mem_left (sfmc_mem s)" and dup: "has_route s (fib_key sf)"
  shows "\<exists>x h. sfmc_fib_insert s sfa = Some (Some x, s\<lparr>sfmc_mem := h\<rparr>) \<and> fib_inv (s\<lparr>sfmc_mem := h\<rparr>) \<and>
    x \<in> set (fib_list s) \<and> (\<exists>g. fibs s x = Some g \<and> fib_key g = fib_key sf) \<and> mem_left (sfmc_mem s) \<le> mem_left h + 3"
proof -
  let ?p = "fib_prefix (sf_network sf) (sf_len sf)" and ?E = "fib_entry s ` set (fib_list s)"
  obtain t where t: "trie_at (sfmc_mem s) (fib_tree s) t" "ents t = ?E" using fib_inv_trie [OF inv] .
  have mb: "maxbits (fib_tree s) = 32" using inv by (simp add: fib_inv_def)
  have key: "key_of ?p \<in> keys t" using dup has_route_keys [OF inv] t(2) by (simp add: fib_key_def keys_def)
  have fits: "prefix_fits (maxbits (fib_tree s)) ?p" using mb sf(2) by simp
  obtain pfx a h1 d where e: "pt_enter (fib_state s) ?p = Some (pfx, a, (h1, fib_tree s))" "trie_at h1 (fib_tree s) t"
      "(key_of ?p, a, d) \<in> ents t" "pfx \<notin> set (tprefs t)" "pprefixes h1 pfx \<noteq> None"
      "brk (sfmc_mem s) < brk h1" "mem_left (sfmc_mem s) \<le> mem_left h1 + 3"
    by (rule pt_enter_old [OF t(1) fits _ mem key]) (use that in simp_all)
  have ent: "(key_of ?p, a, d) \<in> ?E" using e(3) t(2) by simp
  then obtain x g where x: "d = Some x" "x \<in> set (fib_list s)" "fibs s x = Some g" "fib_key g = fib_key sf"
    unfolding fib_entry_mem [OF inv] by (auto simp: fib_key_def)
  obtain n where n: "pnodes h1 a = Some n" "data n = Some x" using entry_node [OF e(2,3)] x(1) by blast
  let ?h = "h1\<lparr>pprefixes := (pprefixes h1)(pfx := None)\<rparr>"
  have run: "sfmc_fib_insert s sfa = Some (Some x, s\<lparr>sfmc_mem := ?h\<rparr>)"
    using sf(1) e(1,5) n by (auto simp: sfmc_fib_insert_def free_prefix_def)
  have "trie_at ?h (fib_tree s) t"
    by (rule trie_at_same [OF e(2)]) (use e(4) in \<open>auto simp: same_prefixes_def\<close>)
  then have "pt_holds (?h, fib_tree s) ?E" using t(2) by (auto simp: pt_holds_def trie_rep_def)
  moreover have "fib_entry (s\<lparr>sfmc_mem := ?h\<rparr>) = fib_entry s" by (simp add: fib_entry_def fun_eq_iff)
  moreover have "\<forall>y. fibs s y \<noteq> None \<longrightarrow> y < brk h1" using inv e(6) by (auto simp: fib_inv_def dest: less_trans)
  ultimately have "fib_inv (s\<lparr>sfmc_mem := ?h\<rparr>)" using inv by (simp add: fib_inv_def fib_live_def)
  with run x e(7) show ?thesis by (intro exI [of _ x] exI [of _ ?h]) simp
qed

abbreviation fresh_fib :: "u32 \<Rightarrow> u8 \<Rightarrow> u32 \<Rightarrow> u8 \<Rightarrow> sfmc_fib" where
  "fresh_fib network len gateway scope \<equiv> \<lparr>sf_pn = None, sf_prefix = None, sf_network = network, sf_len = len,
     sf_scope = scope, sf_gateway = gateway, sf_mac = replicate 6 0, sf_nud = 0\<rparr>"

lemma fresh_addr: "fib_inv s \<Longrightarrow> fibs s (brk (sfmc_mem s)) = None"
  unfolding fib_inv_def using less_irrefl by blast

lemma fib_create_spec:
  assumes inv: "fib_inv s" and mem: "0 < mem_left (sfmc_mem s)"
  defines "a \<equiv> brk (sfmc_mem s)"
  shows "\<exists>h. sfmc_fib_create s network len gateway scope =
      Some (a, s\<lparr>sfmc_mem := h, fibs := (fibs s)(a \<mapsto> fresh_fib network len gateway scope)\<rparr>) \<and>
    fib_inv (s\<lparr>sfmc_mem := h, fibs := (fibs s)(a \<mapsto> fresh_fib network len gateway scope)\<rparr>) \<and>
    a \<notin> set (fib_list s) \<and> mem_left (sfmc_mem s) = Suc (mem_left h)"
proof -
  let ?h = "(sfmc_mem s)\<lparr>brk := Suc a, mem_left := mem_left (sfmc_mem s) - 1\<rparr>"
  let ?s = "s\<lparr>sfmc_mem := ?h, fibs := (fibs s)(a \<mapsto> fresh_fib network len gateway scope)\<rparr>"
  have run: "sfmc_fib_create s network len gateway scope = Some (a, ?s)"
    using mem by (simp add: sfmc_fib_create_def kmalloc_def a_def)
  have low: "\<forall>x. fibs s x \<noteq> None \<longrightarrow> x < a" using inv by (simp add: fib_inv_def a_def)
  have nin: "a \<notin> set (fib_list s)" using inv low by (fastforce simp: fib_inv_def fib_live_def)
  obtain t where t: "trie_at (sfmc_mem s) (fib_tree s) t" "ents t = fib_entry s ` set (fib_list s)"
    using fib_inv_trie [OF inv] .
  have "trie_at ?h (fib_tree s) t" by (rule trie_at_same [OF t(1)]) (auto simp: same_prefixes_def a_def)
  moreover have old: "fib_entry ?s x = fib_entry s x" if "x \<in> set (fib_list s)" for x
    using that nin by (auto simp: fib_entry_def)
  ultimately have "pt_holds (fib_state ?s) (fib_entry ?s ` set (fib_list ?s))"
    using t(2) image_cong [OF refl old, of "set (fib_list s)"] by (auto simp: pt_holds_def trie_rep_def)
  moreover have "\<forall>x \<in> set (fib_list ?s). fib_live ?s x"
    using inv nin by (auto simp: fib_inv_def fib_live_def)
  moreover have "\<forall>x. fibs ?s x \<noteq> None \<longrightarrow> x < brk (sfmc_mem ?s)"
    using low by (auto intro: less_SucI)
  ultimately have "fib_inv ?s" using inv by (simp add: fib_inv_def)
  with run nin mem show ?thesis by (intro exI [of _ ?h]) simp
qed

lemma fib_add_new:
  assumes inv: "fib_inv s" and len: "len \<le> 32" and mem: "4 \<le> mem_left (sfmc_mem s)"
    and new: "\<not> has_route s (key_of (fib_prefix network len))"
  shows "\<exists>sfa s' a pfx. sfmc_fib_add s network len gateway scope = Some (Some sfa, s') \<and> fib_inv s' \<and>
    fib_list s' = sfa # fib_list s \<and> sfa \<notin> set (fib_list s) \<and> sfmc_buckets s' = sfmc_buckets s \<and>
    fibs s sfa = None \<and> sfmc_wq s' = sfmc_wq s \<and> sfmc_vdev s' = sfmc_vdev s \<and>
    fibs s' = (fibs s)(sfa \<mapsto> (fresh_fib network len gateway scope)\<lparr>sf_pn := Some a, sf_prefix := Some pfx\<rparr>) \<and>
    arp_probes s' = arp_probes s"
proof -
  let ?sf = "fresh_fib network len gateway scope" and ?a = "brk (sfmc_mem s)"
  obtain h where c: "sfmc_fib_create s network len gateway scope =
        Some (?a, s\<lparr>sfmc_mem := h, fibs := (fibs s)(?a \<mapsto> ?sf)\<rparr>)"
      "fib_inv (s\<lparr>sfmc_mem := h, fibs := (fibs s)(?a \<mapsto> ?sf)\<rparr>)" "?a \<notin> set (fib_list s)"
      "mem_left (sfmc_mem s) = Suc (mem_left h)"
    using fib_create_spec [OF inv, of network len gateway scope] mem by auto
  let ?s1 = "s\<lparr>sfmc_mem := h, fibs := (fibs s)(?a \<mapsto> ?sf)\<rparr>"
  have "\<not> has_route ?s1 (fib_key ?sf)" using new c(3) by (auto simp: has_route_def fib_key_def split: if_splits)
  then obtain a pfx h' T where r: "sfmc_fib_insert ?s1 ?a = Some (Some ?a, ?s1\<lparr>sfmc_mem := h', fib_tree := T,
        fibs := (fibs ?s1)(?a \<mapsto> ?sf\<lparr>sf_pn := Some a, sf_prefix := Some pfx\<rparr>), fib_list := ?a # fib_list ?s1\<rparr>)"
      "fib_inv (?s1\<lparr>sfmc_mem := h', fib_tree := T,
        fibs := (fibs ?s1)(?a \<mapsto> ?sf\<lparr>sf_pn := Some a, sf_prefix := Some pfx\<rparr>), fib_list := ?a # fib_list ?s1\<rparr>)"
    using fib_insert_new [OF c(2), of ?a ?sf] c(3,4) len mem by auto
  show ?thesis
    using c r fresh_addr [OF inv] by (intro exI [of _ ?a] exI [of _ "?s1\<lparr>sfmc_mem := h', fib_tree := T,
        fibs := (fibs ?s1)(?a \<mapsto> ?sf\<lparr>sf_pn := Some a, sf_prefix := Some pfx\<rparr>), fib_list := ?a # fib_list ?s1\<rparr>"]
        exI [of _ a] exI [of _ pfx] conjI) (simp_all add: sfmc_fib_add_def)
qed

text \<open>A prefix that is already there keeps its route; the new object is neither linked nor freed.\<close>

lemma fib_add_dup:
  assumes inv: "fib_inv s" and len: "len \<le> 32" and mem: "4 \<le> mem_left (sfmc_mem s)"
    and dup: "has_route s (key_of (fib_prefix network len))"
  shows "\<exists>sfa s'. sfmc_fib_add s network len gateway scope = Some (Some sfa, s') \<and> fib_inv s' \<and>
    fib_list s' = fib_list s \<and> sfa \<notin> set (fib_list s) \<and> sfmc_buckets s' = sfmc_buckets s \<and>
    fibs s sfa = None \<and> sfmc_wq s' = sfmc_wq s \<and> sfmc_vdev s' = sfmc_vdev s \<and>
    fibs s' = (fibs s)(sfa \<mapsto> fresh_fib network len gateway scope)"
proof -
  let ?sf = "fresh_fib network len gateway scope" and ?a = "brk (sfmc_mem s)"
  obtain h where c: "sfmc_fib_create s network len gateway scope =
        Some (?a, s\<lparr>sfmc_mem := h, fibs := (fibs s)(?a \<mapsto> ?sf)\<rparr>)"
      "fib_inv (s\<lparr>sfmc_mem := h, fibs := (fibs s)(?a \<mapsto> ?sf)\<rparr>)" "?a \<notin> set (fib_list s)"
      "mem_left (sfmc_mem s) = Suc (mem_left h)"
    using fib_create_spec [OF inv, of network len gateway scope] mem by auto
  let ?s1 = "s\<lparr>sfmc_mem := h, fibs := (fibs s)(?a \<mapsto> ?sf)\<rparr>"
  obtain x0 g0 where x0: "x0 \<in> set (fib_list s)" "fibs s x0 = Some g0" "fib_key g0 = fib_key ?sf"
    using dup by (auto simp: has_route_def fib_key_def)
  then have "has_route ?s1 (fib_key ?sf)"
    unfolding has_route_def using c(3) by (intro bexI [of _ x0]) auto
  then obtain x h' where r: "sfmc_fib_insert ?s1 ?a = Some (Some x, ?s1\<lparr>sfmc_mem := h'\<rparr>)" "fib_inv (?s1\<lparr>sfmc_mem := h'\<rparr>)"
    using fib_insert_dup [OF c(2), of ?a ?sf] c(4) len mem by auto
  show ?thesis
    using c r fresh_addr [OF inv] by (intro exI [of _ ?a] exI [of _ "?s1\<lparr>sfmc_mem := h'\<rparr>"] conjI) (simp_all add: sfmc_fib_add_def)
qed

section \<open>Deleting a route\<close>

lemma fib_delete_spec:
  assumes inv: "fib_inv s" and mem: "sfa \<in> set (fib_list s)"
  shows "\<exists>s'. sfmc_fib_delete s sfa = Some s' \<and> fib_inv s' \<and> fib_list s' = remove1 sfa (fib_list s) \<and>
    fibs s' = (fibs s)(sfa := None) \<and> sfmc_wq s' = sfmc_wq s \<and> sfmc_vdev s' = sfmc_vdev s \<and>
    sfmc_buckets s' = map (map (\<lambda>st. if st_fib st = Some sfa then st\<lparr>st_fib := None\<rparr> else st)) (sfmc_buckets s)"
proof -
  obtain sf a where sf: "fibs s sfa = Some sf" "sf_pn sf = Some a" using inv mem by (auto simp: fib_inv_def fib_live_def)
  let ?E = "fib_entry s ` set (fib_list s)" and ?e = "(fib_key sf, a, Some sfa)"
  obtain t where t: "trie_at (sfmc_mem s) (fib_tree s) t" "ents t = ?E" using fib_inv_trie [OF inv] .
  have "?e \<in> ents t" using sf mem unfolding t(2) fib_entry_mem [OF inv] by blast
  then obtain T' h' pa p where r: "patricia_remove (sfmc_mem s) (fib_tree s) a = Some (T', h')"
      "removed (sfmc_mem s) (fib_tree s) t pa p ?e T' h'"
    using remove_at [OF t(1)] by blast
  then obtain t' pn where t': "trie_at h' T' t'" "h' = old_store (sfmc_mem s) pa p pn" "ents t' = ?E - {?e}"
      "maxbits T' = maxbits (fib_tree s)"
    using t(2) by (auto simp: removed_def)
  let ?s = "s\<lparr>sfmc_mem := h', fib_tree := T', fib_list := remove1 sfa (fib_list s),
    sfmc_buckets := map (map (\<lambda>st. if st_fib st = Some sfa then st\<lparr>st_fib := None\<rparr> else st)) (sfmc_buckets s),
    fibs := (fibs s)(sfa := None)\<rparr>"
  have run: "sfmc_fib_delete s sfa = Some ?s" using sf r(1) by (simp add: sfmc_fib_delete_def pt_remove_def)
  have dist: "distinct (fib_list s)" using inv by (simp add: fib_inv_def)
  have old: "fib_entry ?s x = fib_entry s x" if "x \<in> set (fib_list s) - {sfa}" for x
    using that by (auto simp: fib_entry_def)
  have ent: "fib_entry s sfa = ?e" using sf by (simp add: fib_entry_def)
  have inj: "fib_entry s x \<noteq> ?e" if "x \<in> set (fib_list s) - {sfa}" for x
  proof -
    from that inv obtain g where "fibs s x = Some g" by (auto simp: fib_inv_def fib_live_def)
    with that show ?thesis by (auto simp: fib_entry_def)
  qed
  have "fib_entry ?s ` set (fib_list ?s) = fib_entry s ` (set (fib_list s) - {sfa})"
    using dist image_cong [OF refl old, of "set (fib_list s) - {sfa}"] by simp
  also have "\<dots> = ?E - {?e}"
  proof -
    have "?E = insert ?e (fib_entry s ` (set (fib_list s) - {sfa}))" using ent mem by (metis image_insert insert_Diff)
    moreover have "?e \<notin> fib_entry s ` (set (fib_list s) - {sfa})" using inj by (metis imageE)
    ultimately show ?thesis by simp
  qed
  finally have "pt_holds (fib_state ?s) (fib_entry ?s ` set (fib_list ?s))"
    using t' by (auto simp: pt_holds_def trie_rep_def)
  moreover have "\<forall>x \<in> set (fib_list ?s). fib_live ?s x"
    using inv dist by (auto simp: fib_inv_def fib_live_def)
  moreover have "\<forall>x. fibs ?s x \<noteq> None \<longrightarrow> x < brk (sfmc_mem ?s)" using inv t'(2) by (auto simp: fib_inv_def)
  ultimately have "fib_inv ?s" using inv t'(4) dist by (simp add: fib_inv_def)
  with run show ?thesis by (intro exI [of _ ?s]) simp
qed

lemma fib_delete_cache:
  assumes "cache_ok s" "fib_list s' = remove1 sfa (fib_list s)"
    "sfmc_buckets s' = map (map (\<lambda>st. if st_fib st = Some sfa then st\<lparr>st_fib := None\<rparr> else st)) (sfmc_buckets s)"
  shows "cache_ok s'"
  using assms by (auto simp: cache_ok_def split: if_splits)

lemma fib_destroy_loop_spec:
  assumes "fib_inv s" "fib_list s = xs" "cache_ok s"
  shows "\<exists>s'. fib_destroy_loop xs s = Some s' \<and> fib_inv s' \<and> fib_list s' = [] \<and> cache_ok s' \<and> sfmc_wq s' = sfmc_wq s \<and>
    (\<forall>x. fibs s' x = (if x \<in> set xs then None else fibs s x))"
  using assms
proof (induction xs arbitrary: s)
  case (Cons x xs)
  obtain s1 where d: "sfmc_fib_delete s x = Some s1" "fib_inv s1" "fib_list s1 = remove1 x (fib_list s)"
      "fibs s1 = (fibs s)(x := None)" "sfmc_wq s1 = sfmc_wq s"
      "sfmc_buckets s1 = map (map (\<lambda>st. if st_fib st = Some x then st\<lparr>st_fib := None\<rparr> else st)) (sfmc_buckets s)"
    using fib_delete_spec [OF Cons.prems(1), of x] Cons.prems(2) by auto
  have s1: "sfmc_fib_delete s x = Some s1" "fib_inv s1" "fib_list s1 = xs" "fibs s1 = (fibs s)(x := None)"
      "cache_ok s1" "sfmc_wq s1 = sfmc_wq s"
    using d Cons.prems(2) fib_delete_cache [OF Cons.prems(3) d(3,6)] by simp_all
  from Cons.IH [OF s1(2,3,5)] obtain s2 where s2: "fib_destroy_loop xs s1 = Some s2" "fib_inv s2" "fib_list s2 = []" "cache_ok s2"
      "sfmc_wq s2 = sfmc_wq s1" "\<forall>y. fibs s2 y = (if y \<in> set xs then None else fibs s1 y)" by blast
  with s1 show ?case by auto
qed simp

end
