(* ===== verification/Sfmc_Packet.thy ===== *)
theory Sfmc_Packet
  imports Sfmc
begin

text \<open>
  The packet path and the control path of \<^verbatim>\<open>sfmc.c\<close>: encapsulation of a transmitted packet
  according to the locator table, the switchdev callbacks that mirror the kernel's routes
  into the forwarding table, neighbour resolution, and set-up and tear-down of a device.
\<close>

section \<open>Packets\<close>

text \<open>\<open>skb_dst\<close> is the device of the packet's destination cache entry, if it has one. A packet is its
  bytes from \<^verbatim>\<open>skb->data\<close> on; the room in front of them, which the driver uses without looking at
  its size, is not modelled.\<close>

record sk_buff =
  skb_dst :: "addr option"
  skb_data :: "u8 list"

record neighbour =
  n_ha :: "u8 list"
  n_nud :: u8

record sfmc_env =
  se_hash :: hash64
  madcap_enable :: bool
  perm_addr :: "addr \<Rightarrow> u8 list"
  ipv4_neigh_lookup :: "addr \<Rightarrow> u32 \<Rightarrow> neighbour option"
  neigh_create :: "addr \<Rightarrow> u32 \<Rightarrow> neighbour option"

text \<open>The identifier is the 64-bit word at the configured offset, shifted right bit by bit; the
  loop bound is a signed \<^verbatim>\<open>int\<close>, so a length over 64 shifts nothing. No length check.\<close>

definition extract_id_from_packet :: "u8 list \<Rightarrow> madcap_obj_config \<Rightarrow> u64 option" where
  "extract_id_from_packet pkt oc = do {
     bs \<leftarrow> read_bytes pkt (unat (oc_offset oc)) 8;
     Some (shift_loop (nat (64 - int (unat (oc_length oc)))) (le_word bs)) }"

definition fold_carry :: "u32 \<Rightarrow> u32" where
  "fold_carry acc = (if acc > 0xFFFF then acc - 0xFFFF else acc)"

fun checksum_pairs :: "u8 list \<Rightarrow> u32 \<Rightarrow> u32" where
  "checksum_pairs (x # y # rest) acc = checksum_pairs rest (fold_carry (acc + ucast (htons (le_word [x, y]))))"
| "checksum_pairs [x] acc = fold_carry (acc + push_bit 8 (ucast x))"
| "checksum_pairs [] acc = acc"

definition ipchecksum :: "u8 list \<Rightarrow> u32 \<Rightarrow> u16" where
  "ipchecksum bs acc = htons (ucast (NOT (checksum_pairs bs acc) AND 0xFFFF))"

definition udp_header :: "madcap_obj_udp \<Rightarrow> u8 list \<Rightarrow> u8 list" where
  "udp_header ou payload = le_bytes 2 (src_port ou) @ le_bytes 2 (dst_port ou) @
     le_bytes 2 (htons (word_of_nat (8 + length payload))) @ [0, 0]"

definition ip_header :: "u8 \<Rightarrow> u32 \<Rightarrow> u32 \<Rightarrow> u16 \<Rightarrow> u16 \<Rightarrow> u8 list" where
  "ip_header proto saddr daddr tot_len check =
     [0x45, 0] @ le_bytes 2 (htons tot_len) @ [0, 0, 0, 0, 64, proto] @ le_bytes 2 check @
     le_bytes 4 saddr @ le_bytes 4 daddr"

definition push_ip :: "madcap_obj_config \<Rightarrow> u32 \<Rightarrow> u8 list \<Rightarrow> u8 list" where
  "push_ip oc dst payload =
     (let tot_len = word_of_nat (20 + length payload);
          check = ipchecksum (ip_header (oc_proto oc) (oc_src oc) dst tot_len 0) 0 in
      ip_header (oc_proto oc) (oc_src oc) dst tot_len check @ payload)"

definition push_eth :: "u8 list \<Rightarrow> u8 list \<Rightarrow> u8 list \<Rightarrow> u8 list" where
  "push_eth dst src payload = dst @ src @ le_bytes 2 (htons 0x0800) @ payload"

text \<open>The outer headers, once the locator, the route and the neighbour are known.\<close>

definition encap_headers :: "sfmc \<Rightarrow> u8 list \<Rightarrow> u32 \<Rightarrow> u8 list \<Rightarrow> u8 list \<Rightarrow> u8 list" where
  "encap_headers s src_mac dst dst_mac pkt =
     (let pkt = (if encap_enable (sfmc_ou s) \<noteq> 0 then udp_header (sfmc_ou s) pkt @ pkt else pkt) in
      push_eth dst_mac src_mac (push_ip (sfmc_oc s) dst pkt))"

text \<open>\<^verbatim>\<open>st = find (id); st = (st) ? st : find (0)\<close>\<close>

definition encap_lookup :: "hash64 \<Rightarrow> sfmc \<Rightarrow> u64 \<Rightarrow> sfmc_table option" where
  "encap_lookup hash s i =
     (case sfmc_table_find hash s i of Some st \<Rightarrow> Some st | None \<Rightarrow> sfmc_table_find hash s 0)"

text \<open>\<^verbatim>\<open>if (!st->fib) st->fib = sfmc_fib_find_best (...)\<close>: the route found is kept in the entry.\<close>

definition encap_route :: "hash64 \<Rightarrow> sfmc \<Rightarrow> sfmc_table \<Rightarrow> (ptr \<times> sfmc) option" where
  "encap_route hash s st =
     (case st_fib st of
        Some sfa \<Rightarrow> Some (Some sfa, s)
      | None \<Rightarrow> do {
          fib \<leftarrow> sfmc_fib_find_best s (oe_dst (st_oe st)) 32;
          let n = sfmc_table_head hash (st_id st);
          Some (fib, s\<lparr>sfmc_buckets := (sfmc_buckets s)[n :=
            bucket_upd st_id (st_id st) (\<lambda>st. st\<lparr>st_fib := fib\<rparr>) (sfmc_buckets s ! n)]\<rparr>) })"

definition encap_found ::
  "sfmc_env \<Rightarrow> sk_buff \<Rightarrow> addr \<Rightarrow> sfmc \<Rightarrow> sfmc_table \<Rightarrow> addr \<Rightarrow> (int \<times> sk_buff \<times> sfmc) option" where
  "encap_found env skb d s st sfa = do {
     sf \<leftarrow> fibs s sfa;
     if sf_scope sf = RT_SCOPE_LINK \<and> sf_gateway sf \<noteq> oe_dst (st_oe st) then do {
       (llsf, s) \<leftarrow> sfmc_fib_create s (oe_dst (st_oe st)) 32 (oe_dst (st_oe st)) RT_SCOPE_LINK;
       Some (- ENOENT, skb, s\<lparr>sfmc_wq := sfmc_wq s @ [llsf]\<rparr>) }
     else if sf_nud sf AND NUD_VALID = 0 then Some (- ENOENT, skb, s)
     else Some (0, skb\<lparr>skb_data := encap_headers s (perm_addr env d) (oe_dst (st_oe st)) (sf_mac sf) (skb_data skb)\<rparr>, s) }"

definition encap_body :: "sfmc_env \<Rightarrow> sk_buff \<Rightarrow> addr \<Rightarrow> sfmc \<Rightarrow> (int \<times> sk_buff \<times> sfmc) option" where
  "encap_body env skb d s = do {
     i \<leftarrow> extract_id_from_packet (skb_data skb) (sfmc_oc s);
     (case encap_lookup (se_hash env) s i of
        None \<Rightarrow> Some (- ENOENT, skb, s)
      | Some st \<Rightarrow> do {
          (fib, s) \<leftarrow> encap_route (se_hash env) s st;
          (case fib of
             None \<Rightarrow> Some (- ENOENT, skb, s)
           | Some sfa \<Rightarrow> encap_found env skb d s st sfa) }) }"

definition sfmc_encap_packet ::
  "sfmc_env \<Rightarrow> sk_buff \<Rightarrow> addr \<Rightarrow> sfmc_world \<Rightarrow> (int \<times> sk_buff \<times> sfmc_world) option" where
  "sfmc_encap_packet env skb d w =
     (if \<not> madcap_enable env then Some (0, skb, w)
      else (case skb_dst skb of
        None \<Rightarrow> Some (0, skb, w)
      | Some vdev \<Rightarrow>
          (case first_slot (Some vdev) (sfmc_vdev (netdev_get_sfmc w d)) of
             None \<Rightarrow> Some (0, skb, w)
           | Some _ \<Rightarrow> do {
               (rc, skb, s) \<leftarrow> encap_body env skb d (netdev_get_sfmc w d);
               Some (rc, skb, put_sfmc w d s) })))"

section \<open>Neighbours\<close>

definition sfmc_neigh_write :: "sfmc \<Rightarrow> addr \<Rightarrow> neighbour \<Rightarrow> sfmc option" where
  "sfmc_neigh_write s sfa n = do {
     sf \<leftarrow> fibs s sfa;
     Some (s\<lparr>fibs := (fibs s)(sfa \<mapsto> sf\<lparr>sf_mac := take 6 (n_ha n), sf_nud := n_nud n\<rparr>)\<rparr>) }"

definition sfmc_neigh_resolve :: "sfmc_env \<Rightarrow> addr \<Rightarrow> sfmc \<Rightarrow> addr \<Rightarrow> (int \<times> sfmc) option" where
  "sfmc_neigh_resolve env d s sfa = do {
     sf \<leftarrow> fibs s sfa;
     (case (case ipv4_neigh_lookup env d (sf_gateway sf) of
              Some n \<Rightarrow> Some n | None \<Rightarrow> neigh_create env d (sf_gateway sf)) of
        None \<Rightarrow> Some (1, s)
      | Some n \<Rightarrow>
          if n_nud n AND NUD_VALID \<noteq> 0 then do { s \<leftarrow> sfmc_neigh_write s sfa n; Some (0, s) }
          else Some (0, s\<lparr>arp_probes := arp_probes s @ [sf_gateway sf]\<rparr>)) }"

fun neigh_update_loop :: "addr list \<Rightarrow> u32 \<Rightarrow> neighbour \<Rightarrow> sfmc \<Rightarrow> sfmc option" where
  "neigh_update_loop [] ip n s = Some s"
| "neigh_update_loop (sfa # rest) ip n s = do {
     sf \<leftarrow> fibs s sfa;
     s \<leftarrow> (if sf_gateway sf = ip then sfmc_neigh_write s sfa n else Some s);
     neigh_update_loop rest ip n s }"

definition sfmc_neigh_update :: "addr \<Rightarrow> u32 \<Rightarrow> neighbour \<Rightarrow> sfmc_world \<Rightarrow> sfmc_world option" where
  "sfmc_neigh_update d ip n w = do {
     s \<leftarrow> neigh_update_loop (fib_list (netdev_get_sfmc w d)) ip n (netdev_get_sfmc w d);
     Some (put_sfmc w d s) }"

text \<open>\<open>is_arp\<close>: the neighbour is in the ARP table; \<open>is_sfmc\<close>: its device has these switchdev
  operations. The event reaches the module only while the notifier is registered.\<close>

definition sfmc_neigh_update_event ::
  "bool \<Rightarrow> bool \<Rightarrow> bool \<Rightarrow> addr \<Rightarrow> u32 \<Rightarrow> neighbour \<Rightarrow> sfmc_world \<Rightarrow> sfmc_world option" where
  "sfmc_neigh_update_event is_update is_arp is_sfmc d ip n w =
     (if \<not> is_update then Some w
      else if \<not> is_arp then Some w
      else if \<not> is_sfmc then Some w
      else sfmc_neigh_update d ip n w)"

text \<open>The queued work for a connected destination.\<close>

definition sfmc_ll_neigh_work :: "sfmc_env \<Rightarrow> addr \<Rightarrow> sfmc \<Rightarrow> addr \<Rightarrow> sfmc option" where
  "sfmc_ll_neigh_work env d s sfa = do {
     (tmp, s) \<leftarrow> sfmc_fib_insert s sfa;
     s \<leftarrow> Some (case tmp of None \<Rightarrow> s\<lparr>fibs := (fibs s)(sfa := None)\<rparr> | Some _ \<Rightarrow> s);
     (rc, s) \<leftarrow> sfmc_neigh_resolve env d s sfa;
     Some s }"

text \<open>The work queue runs the oldest work.\<close>

definition run_work :: "sfmc_env \<Rightarrow> addr \<Rightarrow> sfmc \<Rightarrow> sfmc option" where
  "run_work env d s =
     (case sfmc_wq s of [] \<Rightarrow> Some s | sfa # rest \<Rightarrow> sfmc_ll_neigh_work env d (s\<lparr>sfmc_wq := rest\<rparr>) sfa)"

section \<open>Switchdev\<close>

datatype switchdev_trans = SWITCHDEV_TRANS_NONE | SWITCHDEV_TRANS_PREPARE | SWITCHDEV_TRANS_ABORT
  | SWITCHDEV_TRANS_COMMIT

record switchdev_obj_ipv4_fib =
  fib_dst :: u32
  fib_dst_len :: int
  fib_nh_gw :: u32
  fib_info_scope :: u8

datatype switchdev_obj = SWITCHDEV_OBJ_IPV4_FIB switchdev_obj_ipv4_fib | SWITCHDEV_OBJ_OTHER

definition sfmc_port_attr_set :: int where
  "sfmc_port_attr_set = - ENOTSUPP"

text \<open>\<open>True\<close> is \<^verbatim>\<open>SWITCHDEV_ATTR_PORT_PARENT_ID\<close>.\<close>

definition sfmc_port_attr_get :: "sfmc_world \<Rightarrow> addr \<Rightarrow> bool \<Rightarrow> nat \<Rightarrow> int \<times> u8 list" where
  "sfmc_port_attr_get w d parent_id id_len =
     (if parent_id then (0, take id_len (sfmc_id (netdev_get_sfmc w d))) else (- EOPNOTSUPP, []))"

definition sfmc_port_obj_add ::
  "sfmc_env \<Rightarrow> addr \<Rightarrow> switchdev_trans \<Rightarrow> switchdev_obj \<Rightarrow> sfmc_world \<Rightarrow> (int \<times> sfmc_world) option" where
  "sfmc_port_obj_add env d phase ob w =
     (case phase of
        SWITCHDEV_TRANS_PREPARE \<Rightarrow> Some (0, w)
      | SWITCHDEV_TRANS_ABORT \<Rightarrow> Some (0, w)
      | SWITCHDEV_TRANS_NONE \<Rightarrow> Some (- ENOTSUPP, w)
      | SWITCHDEV_TRANS_COMMIT \<Rightarrow>
          (case ob of
             SWITCHDEV_OBJ_OTHER \<Rightarrow> Some (- EOPNOTSUPP, w)
           | SWITCHDEV_OBJ_IPV4_FIB fib \<Rightarrow>
               if fib_nh_gw fib = 0 \<and> fib_info_scope fib \<noteq> RT_SCOPE_LINK then Some (0, w)
               else do {
                 (sf, s) \<leftarrow> sfmc_fib_add (netdev_get_sfmc w d) (htonl (fib_dst fib))
                   (word_of_int (fib_dst_len fib)) (fib_nh_gw fib) (fib_info_scope fib);
                 (case sf of
                    None \<Rightarrow> Some (- ENOMEM, put_sfmc w d s)
                  | Some sfa \<Rightarrow> do {
                      (rc, s) \<leftarrow> sfmc_neigh_resolve env d s sfa;
                      Some (0, put_sfmc w d s) }) }))"

definition sfmc_port_obj_del ::
  "addr \<Rightarrow> switchdev_obj \<Rightarrow> sfmc_world \<Rightarrow> (int \<times> sfmc_world) option" where
  "sfmc_port_obj_del d ob w =
     (case ob of
        SWITCHDEV_OBJ_OTHER \<Rightarrow> Some (- EOPNOTSUPP, w)
      | SWITCHDEV_OBJ_IPV4_FIB fib \<Rightarrow> do {
          (rc, s) \<leftarrow> sfmc_fib_del (netdev_get_sfmc w d) (htonl (fib_dst fib)) (word_of_int (fib_dst_len fib));
          Some (rc, put_sfmc w d s) })"

section \<open>Set-up and tear-down\<close>

text \<open>\<^verbatim>\<open>memset\<close> and the initial values; \<open>h\<close> and \<open>m\<close> are the memory that is left.\<close>

definition sfmc_zero :: "pheap \<Rightarrow> patricia_tree_t \<Rightarrow> nat \<Rightarrow> sfmc" where
  "sfmc_zero h T m = \<lparr>sfmc_id = replicate 8 0, sfmc_vdev = replicate SFMC_VDEV_MAX None,
     sfmc_buckets = replicate SFMC_HASH_SIZE [], fib_list = [], fib_tree = T,
     sfmc_ou = zero_udp, sfmc_oc = zero_config, sfmc_wq = [], fibs = Map.empty,
     sfmc_mem = h, table_mem = m, arp_probes = []\<rparr>"

definition sfmc_init ::
  "sfmc_env \<Rightarrow> pheap \<Rightarrow> nat \<Rightarrow> bool \<Rightarrow> addr \<Rightarrow> sfmc_world madcap_net \<Rightarrow> sfmc_world
     \<Rightarrow> (int \<times> sfmc_world madcap_net \<times> sfmc_world) option" where
  "sfmc_init env h m wq_ok d net w = do {
     (T, h) \<leftarrow> New_Patricia h 32;
     let s = sfmc_zero h T m;
     if \<not> wq_ok then Some (- ENOMEM, net, put_sfmc w d s)
     else
       let w = put_sfmc w d (s\<lparr>sfmc_id := take 6 (perm_addr env d) @ [0, 0]\<rparr>);
           (err, net) = (if madcap_enable env then madcap_register_device net d (sfmc_madcap_ops (se_hash env)) else (0, net)) in
       if err < 0 then Some (err, net, w)
       else Some (0, net, if netevent_registered w then w else w\<lparr>netevent_registered := True\<rparr>) }"

text \<open>\<^verbatim>\<open>sfmc_fib_destroy\<close> frees the tree before \<^verbatim>\<open>destroy_workqueue\<close> runs the works that are still
  queued, and each of them starts by searching that tree.\<close>

definition drain_after_free :: "sfmc \<Rightarrow> sfmc option" where
  "drain_after_free s = (if sfmc_wq s = [] then Some s else None)"

definition sfmc_exit ::
  "sfmc_env \<Rightarrow> addr \<Rightarrow> sfmc_world madcap_net \<Rightarrow> sfmc_world
     \<Rightarrow> (int \<times> sfmc_world madcap_net \<times> sfmc_world) option" where
  "sfmc_exit env d net w = do {
     w \<leftarrow> Some (if netevent_registered w then w\<lparr>netevent_registered := False\<rparr> else w);
     s \<leftarrow> sfmc_fib_destroy (sfmc_table_destroy (netdev_get_sfmc w d));
     s \<leftarrow> drain_after_free s;
     net \<leftarrow> Some (if madcap_enable env then snd (madcap_unregister_device net d) else net);
     Some (0, net, put_sfmc w d s) }"

end
