(* ===== verification/Sfmc_Safety.thy ===== *)
theory Sfmc_Safety
  imports Sfmc_Fib Sfmc_Packet
begin

text \<open>
  The invariant of a device run by \<^verbatim>\<open>sfmc.c\<close> and its preservation by every entry point: the
  madcap operations, the switchdev callbacks, packet transmission, neighbour events and the
  queued work. In every reachable state no entry point dereferences a null or freed object.
\<close>

section \<open>The invariant of a device\<close>

definition table_ok :: "hash64 \<Rightarrow> sfmc \<Rightarrow> bool" where
  "table_ok hash s \<longleftrightarrow> buckets_ok st_id hash (sfmc_buckets s) \<and> distinct (map st_id (concat (sfmc_buckets s)))"

definition vdev_ok :: "sfmc \<Rightarrow> bool" where
  "vdev_ok s \<longleftrightarrow> length (sfmc_vdev s) = SFMC_VDEV_MAX \<and> slots_distinct (sfmc_vdev s)"

text \<open>Queued FIB objects are allocated, not yet linked, and queued once.\<close>

definition queued_ok :: "sfmc \<Rightarrow> addr \<Rightarrow> bool" where
  "queued_ok s x \<longleftrightarrow> x \<notin> set (fib_list s) \<and> (\<exists>sf. fibs s x = Some sf \<and> sf_len sf \<le> 32)"

definition wq_ok :: "sfmc \<Rightarrow> bool" where
  "wq_ok s \<longleftrightarrow> distinct (sfmc_wq s) \<and> (\<forall>x \<in> set (sfmc_wq s). queued_ok s x)"

definition sfmc_ok :: "hash64 \<Rightarrow> sfmc \<Rightarrow> bool" where
  "sfmc_ok hash s \<longleftrightarrow> table_ok hash s \<and> vdev_ok s \<and> fib_inv s \<and> cache_ok s \<and> wq_ok s"

lemma sfmc_okD:
  assumes "sfmc_ok hash s"
  shows "table_ok hash s" "vdev_ok s" "fib_inv s" "cache_ok s" "wq_ok s"
  using assms by (simp_all add: sfmc_ok_def)

lemma sfmc_inv_table_ok: "sfmc_inv hash d w \<longleftrightarrow> table_ok hash (netdev_get_sfmc w d)"
  by (simp add: sfmc_inv_def table_ok_def)

text \<open>The forwarding part of a state decides its part of the invariant.\<close>

lemma fib_inv_cong:
  "sfmc_mem s' = sfmc_mem s \<Longrightarrow> fib_tree s' = fib_tree s \<Longrightarrow> fibs s' = fibs s \<Longrightarrow> fib_list s' = fib_list s \<Longrightarrow>
    fib_inv s' \<longleftrightarrow> fib_inv s"
  by (simp add: fib_inv_def fib_live_def fib_entry_def)

lemma wq_ok_cong:
  "sfmc_wq s' = sfmc_wq s \<Longrightarrow> fibs s' = fibs s \<Longrightarrow> fib_list s' = fib_list s \<Longrightarrow> wq_ok s' \<longleftrightarrow> wq_ok s"
  by (simp add: wq_ok_def queued_ok_def)

lemma cache_ok_cong:
  "sfmc_buckets s' = sfmc_buckets s \<Longrightarrow> set (fib_list s) \<subseteq> set (fib_list s') \<Longrightarrow> cache_ok s \<Longrightarrow> cache_ok s'"
  by (auto simp: cache_ok_def)

lemma cache_ok_upd:
  assumes "cache_ok s" "sfmc_buckets s' = (sfmc_buckets s)[n := b]" "set (fib_list s) \<subseteq> set (fib_list s')"
    "\<And>st x. st \<in> set b \<Longrightarrow> st_fib st = Some x \<Longrightarrow> (\<exists>c \<in> set (sfmc_buckets s). st \<in> set c) \<or> x \<in> set (fib_list s')"
  shows "cache_ok s'"
  unfolding cache_ok_def
proof (intro ballI allI impI)
  fix c st x assume c: "c \<in> set (sfmc_buckets s')" "st \<in> set c" "st_fib st = Some x"
  then have "c = b \<or> c \<in> set (sfmc_buckets s)" using assms(2) set_update_subset_insert by fastforce
  then show "x \<in> set (fib_list s')" using assms(1,3,4) c unfolding cache_ok_def by blast
qed

lemma sfmc_zero_ok:
  assumes "New_Patricia h0 32 = Some (T, h)"
  shows "sfmc_ok hash (sfmc_zero h T m)"
proof -
  have "fib_inv (sfmc_zero h T m)"
    using new_patricia_holds [OF assms, of h] by (auto simp: fib_inv_def sfmc_zero_def pt_holds_def)
  then show ?thesis
    by (simp add: sfmc_ok_def table_ok_def vdev_ok_def cache_ok_def wq_ok_def sfmc_zero_def slot_simps)
qed

section \<open>The madcap operations\<close>

lemma sfmc_ok_table:
  assumes "sfmc_ok hash s" "sfmc_mem s' = sfmc_mem s" "fib_tree s' = fib_tree s" "fibs s' = fibs s"
    "fib_list s' = fib_list s" "sfmc_wq s' = sfmc_wq s" "table_ok hash s'" "vdev_ok s'" "cache_ok s'"
  shows "sfmc_ok hash s'"
  using assms fib_inv_cong [of s' s] wq_ok_cong [of s' s] by (simp add: sfmc_ok_def)

lemma sfmc_ok_fib:
  assumes "sfmc_ok hash s" "sfmc_buckets s' = sfmc_buckets s" "sfmc_vdev s' = sfmc_vdev s"
    "fib_inv s'" "wq_ok s'" "set (fib_list s) \<subseteq> set (fib_list s')"
  shows "sfmc_ok hash s'"
  using assms cache_ok_cong [of s' s] by (simp add: sfmc_ok_def table_ok_def vdev_ok_def)

lemma acquire_ok:
  assumes ok: "sfmc_ok hash (netdev_get_sfmc w d)"
  shows "sfmc_ok hash (netdev_get_sfmc (snd (sfmc_acquire_dev d vdev w)) d)"
proof (cases "first_slot (Some vdev) (sfmc_vdev (netdev_get_sfmc w d))")
  case None
  then have new: "Some vdev \<notin> set (sfmc_vdev (netdev_get_sfmc w d))" by (simp add: slot_simps)
  show ?thesis
  proof (cases "first_slot None (sfmc_vdev (netdev_get_sfmc w d))")
    case (Some n)
    let ?s = "netdev_get_sfmc w d"
    have "sfmc_ok hash (?s\<lparr>sfmc_vdev := (sfmc_vdev ?s)[n := Some vdev]\<rparr>)"
      by (rule sfmc_ok_table [OF ok])
        (use sfmc_okD [OF ok] slots_distinct_store [of _ "Some vdev" n] new in
          \<open>simp_all add: vdev_ok_def table_ok_def cache_ok_def\<close>)
    then show ?thesis using Some None by (simp add: sfmc_acquire_dev_def Let_def)
  qed (use ok None in \<open>simp add: sfmc_acquire_dev_def Let_def\<close>)
qed (use ok in \<open>simp add: sfmc_acquire_dev_def Let_def\<close>)

lemma release_ok:
  assumes ok: "sfmc_ok hash (netdev_get_sfmc w d)"
  shows "sfmc_ok hash (netdev_get_sfmc (snd (sfmc_release_dev d vdev w)) d)"
proof (cases "first_slot (Some vdev) (sfmc_vdev (netdev_get_sfmc w d))")
  case (Some n)
  let ?s = "netdev_get_sfmc w d"
  have "sfmc_ok hash (?s\<lparr>sfmc_vdev := (sfmc_vdev ?s)[n := None]\<rparr>)"
    by (rule sfmc_ok_table [OF ok])
      (use sfmc_okD [OF ok] in \<open>simp_all add: slots_distinct_clear vdev_ok_def table_ok_def cache_ok_def\<close>)
  then show ?thesis using Some by (simp add: sfmc_release_dev_def Let_def)
qed (use ok in \<open>simp add: sfmc_release_dev_def Let_def\<close>)

lemma destroy_table_ok: "sfmc_ok hash s \<Longrightarrow> sfmc_ok hash (sfmc_table_destroy s)"
  by (rule sfmc_ok_table)
    (auto simp: sfmc_ok_def sfmc_table_destroy_def table_ok_def vdev_ok_def cache_ok_def buckets_ok_def map_replicate_const)

lemma llt_cfg_ok:
  assumes ok: "sfmc_ok hash (netdev_get_sfmc w d)"
  shows "sfmc_ok hash (netdev_get_sfmc (snd (sfmc_llt_cfg d oc w)) d)"
proof -
  have "sfmc_ok hash ((sfmc_table_destroy (netdev_get_sfmc w d))\<lparr>sfmc_oc := oc\<rparr>)"
    by (rule sfmc_ok_table [OF destroy_table_ok [OF ok]])
      (use sfmc_okD [OF destroy_table_ok [OF ok]] in \<open>simp_all add: vdev_ok_def table_ok_def cache_ok_def\<close>)
  then show ?thesis using ok by (simp add: sfmc_llt_cfg_def Let_def)
qed

lemma udp_cfg_ok:
  assumes ok: "sfmc_ok hash (netdev_get_sfmc w d)"
  shows "sfmc_ok hash (netdev_get_sfmc (snd (sfmc_udp_cfg d ou w)) d)"
  unfolding sfmc_udp_cfg_def
  by (rule sfmc_ok_table [OF ok]) (use sfmc_okD [OF ok] in \<open>simp_all add: vdev_ok_def table_ok_def cache_ok_def\<close>)

lemma entry_add_ok:
  assumes ok: "sfmc_ok hash (netdev_get_sfmc w d)"
  shows "sfmc_ok hash (netdev_get_sfmc (snd (sfmc_llt_entry_add hash d oe w)) d)"
proof -
  let ?s = "netdev_get_sfmc w d"
  have t: "table_ok hash (netdev_get_sfmc (snd (sfmc_llt_entry_add hash d oe w)) d)"
    using sfmc_llt.add_inv [of hash d w oe] sfmc_okD(1) [OF ok] by (simp add: sfmc_inv_table_ok)
  let ?n = "sfmc_table_head hash (oe_id oe)"
  have n: "sfmc_buckets ?s ! ?n \<in> set (sfmc_buckets ?s)"
    using sfmc_okD(1) [OF ok] by (simp add: table_ok_def buckets_ok_def sfmc_table_head_def)
  have "cache_ok s'" if "sfmc_table_add hash ?s oe = Some s'" for s'
    by (rule cache_ok_upd [OF sfmc_okD(4) [OF ok], of _ ?n "\<lparr>st_oe = oe, st_fib = None\<rparr> # sfmc_buckets ?s ! ?n"])
      (use that n in \<open>auto simp: sfmc_table_add_def Let_def split: if_splits\<close>)
  then show ?thesis
    using ok t by (auto simp: sfmc_llt_entry_add_def Let_def sfmc_table_add_def vdev_ok_def
        dest: sfmc_okD(2) intro!: sfmc_ok_table [OF ok] split: option.splits if_splits)
qed

lemma entry_del_ok:
  assumes ok: "sfmc_ok hash (netdev_get_sfmc w d)"
  shows "sfmc_ok hash (netdev_get_sfmc (snd (sfmc_llt_entry_del hash d oe w)) d)"
proof -
  let ?s = "netdev_get_sfmc w d" and ?i = "oe_id oe"
  have t: "table_ok hash (netdev_get_sfmc (snd (sfmc_llt_entry_del hash d oe w)) d)"
    using sfmc_llt.del_inv [of hash d w oe] sfmc_okD(1) [OF ok] by (simp add: sfmc_inv_table_ok)
  let ?n = "sfmc_table_head hash ?i"
  have n: "sfmc_buckets ?s ! ?n \<in> set (sfmc_buckets ?s)"
    using sfmc_okD(1) [OF ok] by (simp add: table_ok_def buckets_ok_def sfmc_table_head_def)
  have "cache_ok (sfmc_table_delete hash ?s ?i)"
    by (rule cache_ok_upd [OF sfmc_okD(4) [OF ok], of _ ?n "bucket_del st_id ?i (sfmc_buckets ?s ! ?n)"])
      (use n set_bucket_del [of st_id ?i "sfmc_buckets ?s ! ?n"] in \<open>auto simp: sfmc_table_delete_def Let_def\<close>)
  then show ?thesis
    using ok t by (auto simp: sfmc_llt_entry_del_def Let_def sfmc_table_delete_def vdev_ok_def
        dest: sfmc_okD(2) intro!: sfmc_ok_table [OF ok] split: option.splits)
qed


section \<open>Routes\<close>

text \<open>Writing a neighbour's address into a route changes nothing the invariant depends on.\<close>

lemma neigh_write_ok:
  assumes ok: "sfmc_ok hash s" and sf: "fibs s sfa = Some sf"
  shows "\<exists>s'. sfmc_neigh_write s sfa n = Some s' \<and> sfmc_ok hash s' \<and> fib_list s' = fib_list s \<and>
    dom (fibs s') = dom (fibs s)"
proof -
  let ?g = "sf\<lparr>sf_mac := take 6 (n_ha n), sf_nud := n_nud n\<rparr>"
  let ?s = "s\<lparr>fibs := (fibs s)(sfa \<mapsto> ?g)\<rparr>"
  have ent: "fib_entry ?s x = fib_entry s x" for x using sf by (simp add: fib_entry_def fib_key_def)
  have live: "fib_live ?s x \<longleftrightarrow> fib_live s x" for x using sf by (auto simp: fib_live_def)
  have q: "queued_ok ?s x \<longleftrightarrow> queued_ok s x" for x using sf by (auto simp: queued_ok_def)
  have "fib_inv ?s" using sfmc_okD(3) [OF ok] sf by (auto simp: fib_inv_def ent live)
  then have "sfmc_ok hash ?s"
    by (intro sfmc_ok_fib [OF ok]) (use sfmc_okD(5) [OF ok] in \<open>simp_all add: wq_ok_def q\<close>)
  with sf show ?thesis by (intro exI [of _ ?s]) (auto simp: sfmc_neigh_write_def)
qed

lemma neigh_resolve_ok:
  assumes ok: "sfmc_ok hash s" and sf: "fibs s sfa = Some sf"
  shows "\<exists>rc s'. sfmc_neigh_resolve env d s sfa = Some (rc, s') \<and> sfmc_ok hash s'"
proof -
  have probe: "sfmc_ok hash (s\<lparr>arp_probes := ps\<rparr>)" for ps
    by (rule sfmc_ok_table [OF ok]) (use sfmc_okD [OF ok] in \<open>simp_all add: vdev_ok_def table_ok_def cache_ok_def\<close>)
  have wr: "\<exists>rc s'. (sfmc_neigh_write s sfa n \<bind> (\<lambda>s. Some (0 :: int, s))) = Some (rc, s') \<and> sfmc_ok hash s'" for n
    using neigh_write_ok [OF ok sf, of n] by auto
  show ?thesis
    using ok sf probe wr by (auto simp: sfmc_neigh_resolve_def split: option.splits)
qed

lemma neigh_update_ok:
  "sfmc_ok hash s \<Longrightarrow> set xs \<subseteq> set (fib_list s) \<Longrightarrow>
    \<exists>s'. neigh_update_loop xs ip n s = Some s' \<and> sfmc_ok hash s' \<and> fib_list s' = fib_list s"
proof (induction xs arbitrary: s)
  case (Cons x xs)
  obtain sf where sf: "fibs s x = Some sf"
    using Cons.prems sfmc_okD(3) [OF Cons.prems(1)] by (auto simp: fib_inv_def fib_live_def)
  obtain s1 where s1: "(if sf_gateway sf = ip then sfmc_neigh_write s x n else Some s) = Some s1" "sfmc_ok hash s1"
      "fib_list s1 = fib_list s"
    using neigh_write_ok [OF Cons.prems(1) sf, of n] Cons.prems(1) by (cases "sf_gateway sf = ip") auto
  with Cons.IH [of s1] Cons.prems(2) sf show ?case by auto
qed simp

text \<open>Adding a route: a new prefix is linked, a known one leaves the routes as they were.\<close>

lemma wq_ok_add:
  assumes "wq_ok s" "fibs s x = None" "fibs s' = (fibs s)(x \<mapsto> g)" "sfmc_wq s' = sfmc_wq s"
    "fib_list s' = fib_list s \<or> fib_list s' = x # fib_list s"
  shows "wq_ok s'"
  using assms by (auto simp: wq_ok_def queued_ok_def)

lemma fib_add_ok:
  assumes ok: "sfmc_ok hash s" and len: "len \<le> 32" and mem: "4 \<le> mem_left (sfmc_mem s)"
  shows "\<exists>sfa s' g. sfmc_fib_add s network len gateway scope = Some (Some sfa, s') \<and> sfmc_ok hash s' \<and>
    fibs s' sfa = Some g"
proof -
  note inv = sfmc_okD(3) [OF ok] and wq = sfmc_okD(5) [OF ok]
  obtain sfa s' g where r: "sfmc_fib_add s network len gateway scope = Some (Some sfa, s')" "fib_inv s'"
      "fib_list s' = fib_list s \<or> fib_list s' = sfa # fib_list s" "sfmc_buckets s' = sfmc_buckets s"
      "fibs s sfa = None" "sfmc_wq s' = sfmc_wq s" "sfmc_vdev s' = sfmc_vdev s" "fibs s' = (fibs s)(sfa \<mapsto> g)"
    using fib_add_new [OF inv len mem, of network gateway scope] fib_add_dup [OF inv len mem, of network gateway scope]
    by metis
  have "sfmc_ok hash s'"
    by (rule sfmc_ok_fib [OF ok r(4,7,2) wq_ok_add [OF wq r(5,8,6,3)]]) (use r(3) in auto)
  with r show ?thesis by auto
qed

lemma dst_len_le: "0 \<le> n \<Longrightarrow> n \<le> 32 \<Longrightarrow> word_of_int n \<le> (32 :: u8)"
  by (simp add: word_le_def uint_word_of_int_eq take_bit_int_eq_self)

lemma obj_add_ok:
  assumes ok: "sfmc_ok hash (netdev_get_sfmc w d)" and mem: "4 \<le> mem_left (sfmc_mem (netdev_get_sfmc w d))"
    and len: "\<And>fib. ob = SWITCHDEV_OBJ_IPV4_FIB fib \<Longrightarrow> 0 \<le> fib_dst_len fib \<and> fib_dst_len fib \<le> 32"
  shows "\<exists>rc w'. sfmc_port_obj_add env d phase ob w = Some (rc, w') \<and> sfmc_ok hash (netdev_get_sfmc w' d)"
proof (cases "\<exists>fib. phase = SWITCHDEV_TRANS_COMMIT \<and> ob = SWITCHDEV_OBJ_IPV4_FIB fib \<and>
    \<not> (fib_nh_gw fib = 0 \<and> fib_info_scope fib \<noteq> RT_SCOPE_LINK)")
  case True
  then obtain fib where fib: "phase = SWITCHDEV_TRANS_COMMIT" "ob = SWITCHDEV_OBJ_IPV4_FIB fib"
    "\<not> (fib_nh_gw fib = 0 \<and> fib_info_scope fib \<noteq> RT_SCOPE_LINK)" by blast
  have "word_of_int (fib_dst_len fib) \<le> (32 :: u8)" using len [OF fib(2)] dst_len_le by blast
  from fib_add_ok [OF ok this mem] obtain sfa s' g where
    a: "sfmc_fib_add (netdev_get_sfmc w d) (htonl (fib_dst fib)) (word_of_int (fib_dst_len fib)) (fib_nh_gw fib)
        (fib_info_scope fib) = Some (Some sfa, s')" "sfmc_ok hash s'" "fibs s' sfa = Some g" by blast
  obtain rc s2 where "sfmc_neigh_resolve env d s' sfa = Some (rc, s2)" "sfmc_ok hash s2"
    using neigh_resolve_ok [OF a(2,3), of env d] by blast
  with a(1) fib show ?thesis by (auto simp: sfmc_port_obj_add_def)
next
  case False
  have "sfmc_port_obj_add env d phase ob w = Some (fst (the (sfmc_port_obj_add env d phase ob w)), w)"
    using False by (simp add: sfmc_port_obj_add_def split: switchdev_trans.splits switchdev_obj.splits)
  with ok show ?thesis by metis
qed

lemma fib_delete_ok:
  assumes ok: "sfmc_ok hash s" and mem: "sfa \<in> set (fib_list s)"
  shows "\<exists>s'. sfmc_fib_delete s sfa = Some s' \<and> sfmc_ok hash s'"
proof -
  obtain s' where r: "sfmc_fib_delete s sfa = Some s'" "fib_inv s'" "fib_list s' = remove1 sfa (fib_list s)"
      "fibs s' = (fibs s)(sfa := None)" "sfmc_wq s' = sfmc_wq s" "sfmc_vdev s' = sfmc_vdev s"
      "sfmc_buckets s' = map (map (\<lambda>st. if st_fib st = Some sfa then st\<lparr>st_fib := None\<rparr> else st)) (sfmc_buckets s)"
    using fib_delete_spec [OF sfmc_okD(3) [OF ok] mem] by blast
  have ids: "map st_id (map (\<lambda>st. if st_fib st = Some sfa then st\<lparr>st_fib := None\<rparr> else st) b) = map st_id b" for b
    by (induction b) auto
  have "map st_id (concat (sfmc_buckets s')) = map st_id (concat (sfmc_buckets s))"
    unfolding map_concat r(7) map_map o_def ids [unfolded map_map o_def] ..
  moreover have "buckets_ok st_id hash (sfmc_buckets s')"
    using sfmc_okD(1) [OF ok] by (auto simp: table_ok_def buckets_ok_def r(7))
  ultimately have "table_ok hash s'" using sfmc_okD(1) [OF ok] by (simp add: table_ok_def)
  moreover have "wq_ok s'" using sfmc_okD(5) [OF ok] mem by (auto simp: wq_ok_def queued_ok_def r(3-5) dest: notin_set_remove1)
  ultimately have "sfmc_ok hash s'"
    using sfmc_okD(2) [OF ok] fib_delete_cache [OF sfmc_okD(4) [OF ok] r(3,7)] r(2,6) by (simp add: sfmc_ok_def vdev_ok_def)
  with r(1) show ?thesis by blast
qed

lemma obj_del_ok:
  assumes ok: "sfmc_ok hash (netdev_get_sfmc w d)"
    and len: "\<And>fib. ob = SWITCHDEV_OBJ_IPV4_FIB fib \<Longrightarrow> 0 \<le> fib_dst_len fib \<and> fib_dst_len fib \<le> 32"
  shows "\<exists>rc w'. sfmc_port_obj_del d ob w = Some (rc, w') \<and> sfmc_ok hash (netdev_get_sfmc w' d)"
proof (cases ob)
  case (SWITCHDEV_OBJ_IPV4_FIB fib)
  have "word_of_int (fib_dst_len fib) \<le> (32 :: u8)" using len [OF SWITCHDEV_OBJ_IPV4_FIB] dst_len_le by blast
  then obtain r where
    r: "sfmc_fib_find_exact (netdev_get_sfmc w d) (htonl (fib_dst fib)) (word_of_int (fib_dst_len fib)) = Some r"
    "\<And>sfa. r = Some sfa \<Longrightarrow> sfa \<in> set (fib_list (netdev_get_sfmc w d))"
    using find_exact_route [OF sfmc_okD(3) [OF ok], of _ "htonl (fib_dst fib)"] by metis
  show ?thesis
  proof (cases r)
    case (Some sfa)
    obtain s' where "sfmc_fib_delete (netdev_get_sfmc w d) sfa = Some s'" "sfmc_ok hash s'"
      using fib_delete_ok [OF ok r(2) [OF Some]] by blast
    with Some r(1) show ?thesis by (simp add: sfmc_port_obj_del_def SWITCHDEV_OBJ_IPV4_FIB sfmc_fib_del_def)
  qed (use r(1) ok in \<open>simp add: sfmc_port_obj_del_def SWITCHDEV_OBJ_IPV4_FIB sfmc_fib_del_def\<close>)
qed (use ok in \<open>simp add: sfmc_port_obj_del_def\<close>)

end
