(* ===== verification/Sfmc_Steps.thy ===== *)
theory Sfmc_Steps
  imports Sfmc_Safety
begin

text \<open>
  Packet transmission and the queued work keep the device invariant, and the step relation of
  one device: every entry point of \<^verbatim>\<open>sfmc.c\<close> is an event, and a state reached from the state
  \<^verbatim>\<open>sfmc_init\<close> sets up never crashes on the next event.
\<close>

section \<open>Transmission\<close>

lemma table_find_ok:
  assumes ok: "sfmc_ok hash s" and st: "sfmc_table_find hash s i = Some st"
  shows "st_id st = i" "\<exists>b \<in> set (sfmc_buckets s). st \<in> set b"
  using table_find_Some [of st_id hash "sfmc_buckets s" i st] sfmc_okD(1) [OF ok] st
  by (auto simp: table_ok_def sfmc_table_find_def sfmc_table_head_def)

lemma encap_lookup_find:
  "encap_lookup hash s i = Some st \<Longrightarrow> \<exists>j. sfmc_table_find hash s j = Some st"
  by (auto simp: encap_lookup_def split: option.splits)

lemma encap_route_ok:
  assumes ok: "sfmc_ok hash s" and st: "sfmc_table_find hash s i = Some st"
  shows "\<exists>fib s'. encap_route hash s st = Some (fib, s') \<and> sfmc_ok hash s' \<and> fib_list s' = fib_list s \<and>
    fibs s' = fibs s \<and> sfmc_mem s' = sfmc_mem s \<and> sfmc_wq s' = sfmc_wq s \<and> (\<forall>x. fib = Some x \<longrightarrow> x \<in> set (fib_list s))"
proof (cases "st_fib st")
  case (Some x)
  then have "x \<in> set (fib_list s)" using table_find_ok(2) [OF ok st] sfmc_okD(4) [OF ok] unfolding cache_ok_def by blast
  with Some ok show ?thesis by (auto simp: encap_route_def)
next
  case None
  obtain r where r: "sfmc_fib_find_best s (oe_dst (st_oe st)) 32 = Some r" "\<And>x. r = Some x \<Longrightarrow> x \<in> set (fib_list s)"
    using find_best_route [OF sfmc_okD(3) [OF ok]] unfolding best_route_def route_matches_def by metis
  let ?n = "sfmc_table_head hash (st_id st)"
  let ?b = "bucket_upd st_id (st_id st) (\<lambda>st. st\<lparr>st_fib := r\<rparr>) (sfmc_buckets s ! ?n)"
  let ?s = "s\<lparr>sfmc_buckets := (sfmc_buckets s)[?n := ?b]\<rparr>"
  have n: "?n < length (sfmc_buckets s)"
    using sfmc_okD(1) [OF ok] by (simp add: table_ok_def buckets_ok_def sfmc_table_head_def)
  have bs: "buckets_ok st_id hash (sfmc_buckets s)" using sfmc_okD(1) [OF ok] by (simp add: table_ok_def)
  have "table_ok hash ?s"
    unfolding table_ok_def
    using table_upd [OF bs _ n, of "\<lambda>st. st\<lparr>st_fib := r\<rparr>" "st_id st"] sfmc_okD(1) [OF ok] by (simp add: table_ok_def)
  moreover have "cache_ok ?s"
  proof (rule cache_ok_upd [OF sfmc_okD(4) [OF ok], of _ ?n ?b])
    fix e x assume "e \<in> set ?b" and x: "st_fib e = Some x"
    then consider "e \<in> set (sfmc_buckets s ! ?n)" | y where "e = y\<lparr>st_fib := r\<rparr>" using set_bucket_upd by force
    then show "(\<exists>c \<in> set (sfmc_buckets s). e \<in> set c) \<or> x \<in> set (fib_list ?s)"
      using n x r(2) by cases (auto intro: nth_mem)
  qed simp_all
  ultimately have "sfmc_ok hash ?s"
    by (intro sfmc_ok_table [OF ok]) (use sfmc_okD(2) [OF ok] in \<open>simp_all add: vdev_ok_def\<close>)
  with r None show ?thesis by (intro exI [of _ r] exI [of _ ?s]) (simp add: encap_route_def Let_def)
qed

lemma encap_found_ok:
  assumes ok: "sfmc_ok hash s" and x: "x \<in> set (fib_list s)" and mem: "1 \<le> mem_left (sfmc_mem s)"
  shows "\<exists>rc skb' s'. encap_found env skb d s st x = Some (rc, skb', s') \<and> sfmc_ok hash s'"
proof -
  obtain sf where sf: "fibs s x = Some sf" using sfmc_okD(3) [OF ok] x by (auto simp: fib_inv_def fib_live_def)
  show ?thesis
  proof (cases "sf_scope sf = RT_SCOPE_LINK \<and> sf_gateway sf \<noteq> oe_dst (st_oe st)")
    case True
    let ?a = "brk (sfmc_mem s)" and ?dst = "oe_dst (st_oe st)"
    let ?f = "fresh_fib ?dst 32 ?dst RT_SCOPE_LINK"
    obtain h where c: "sfmc_fib_create s ?dst 32 ?dst RT_SCOPE_LINK = Some (?a, s\<lparr>sfmc_mem := h, fibs := (fibs s)(?a \<mapsto> ?f)\<rparr>)"
        "fib_inv (s\<lparr>sfmc_mem := h, fibs := (fibs s)(?a \<mapsto> ?f)\<rparr>)" "?a \<notin> set (fib_list s)"
      using fib_create_spec [OF sfmc_okD(3) [OF ok], of ?dst 32 ?dst RT_SCOPE_LINK] mem by auto
    let ?s = "s\<lparr>sfmc_mem := h, fibs := (fibs s)(?a \<mapsto> ?f), sfmc_wq := sfmc_wq s @ [?a]\<rparr>"
    have "wq_ok ?s"
      using sfmc_okD(5) [OF ok] c(3) fresh_addr [OF sfmc_okD(3) [OF ok]] by (auto simp: wq_ok_def queued_ok_def)
    moreover have "fib_inv ?s" using c(2) fib_inv_cong [of ?s "s\<lparr>sfmc_mem := h, fibs := (fibs s)(?a \<mapsto> ?f)\<rparr>"] by simp
    ultimately have "sfmc_ok hash ?s" by (intro sfmc_ok_fib [OF ok]) simp_all
    with True c(1) sf show ?thesis by (simp add: encap_found_def)
  qed (use sf ok in \<open>auto simp: encap_found_def\<close>)
qed

text \<open>A packet whose identifier field lies inside it is handled without a bad access.\<close>

definition pkt_ok :: "sfmc \<Rightarrow> sk_buff \<Rightarrow> bool" where
  "pkt_ok s skb \<longleftrightarrow> unat (oc_offset (sfmc_oc s)) + 8 \<le> length (skb_data skb)"

lemma encap_body_ok:
  assumes ok: "sfmc_ok (se_hash env) s" and mem: "1 \<le> mem_left (sfmc_mem s)" and pkt: "pkt_ok s skb"
  shows "\<exists>rc skb' s'. encap_body env skb d s = Some (rc, skb', s') \<and> sfmc_ok (se_hash env) s'"
proof -
  obtain i where i: "extract_id_from_packet (skb_data skb) (sfmc_oc s) = Some i"
    using pkt by (simp add: extract_id_from_packet_def read_bytes_def pkt_ok_def)
  show ?thesis
  proof (cases "encap_lookup (se_hash env) s i")
    case (Some st)
    then obtain j where "sfmc_table_find (se_hash env) s j = Some st" using encap_lookup_find by blast
    from encap_route_ok [OF ok this] obtain fib s' where r: "encap_route (se_hash env) s st = Some (fib, s')"
      "sfmc_ok (se_hash env) s'" "fib_list s' = fib_list s" "sfmc_mem s' = sfmc_mem s" "\<forall>x. fib = Some x \<longrightarrow> x \<in> set (fib_list s)"
      by blast
    have "\<exists>rc skb' s2. encap_found env skb d s' st x = Some (rc, skb', s2) \<and> sfmc_ok (se_hash env) s2" if "fib = Some x" for x
      by (rule encap_found_ok [OF r(2)]) (use r that mem in auto)
    with i Some r(1,2) show ?thesis by (cases fib) (simp_all add: encap_body_def)
  qed (use i ok in \<open>simp add: encap_body_def\<close>)
qed

lemma encap_packet_ok:
  assumes ok: "sfmc_ok (se_hash env) (netdev_get_sfmc w d)" and mem: "1 \<le> mem_left (sfmc_mem (netdev_get_sfmc w d))"
    and pkt: "pkt_ok (netdev_get_sfmc w d) skb"
  shows "\<exists>rc skb' w'. sfmc_encap_packet env skb d w = Some (rc, skb', w') \<and> sfmc_ok (se_hash env) (netdev_get_sfmc w' d)"
proof -
  obtain rc skb' s' where "encap_body env skb d (netdev_get_sfmc w d) = Some (rc, skb', s')" "sfmc_ok (se_hash env) s'"
    using encap_body_ok [OF ok mem pkt] by blast
  with ok show ?thesis by (simp add: sfmc_encap_packet_def split: option.splits)
qed

section \<open>Queued work\<close>

lemma run_work_ok:
  assumes ok: "sfmc_ok hash s" and mem: "3 \<le> mem_left (sfmc_mem s)"
  shows "\<exists>s'. run_work env d s = Some s' \<and> sfmc_ok hash s'"
proof (cases "sfmc_wq s")
  case (Cons x rest)
  let ?s = "s\<lparr>sfmc_wq := rest\<rparr>"
  have q: "x \<notin> set rest" "queued_ok s x" "\<forall>y \<in> set rest. queued_ok s y" "distinct rest"
    using sfmc_okD(5) [OF ok] Cons by (auto simp: wq_ok_def)
  obtain sf where sf: "fibs s x = Some sf" "sf_len sf \<le> 32" "x \<notin> set (fib_list s)" using q(2) by (auto simp: queued_ok_def)
  have inv: "fib_inv ?s" using sfmc_okD(3) [OF ok] fib_inv_cong [of ?s s] by simp
  have "\<exists>y s1 g. sfmc_fib_insert ?s x = Some (Some y, s1) \<and> sfmc_ok hash s1 \<and> fibs s1 x = Some g"
  proof (cases "has_route ?s (fib_key sf)")
    case True
    obtain y h where r: "sfmc_fib_insert ?s x = Some (Some y, ?s\<lparr>sfmc_mem := h\<rparr>)" "fib_inv (?s\<lparr>sfmc_mem := h\<rparr>)"
      using fib_insert_dup [OF inv, of x sf] True sf(1,2) mem by auto
    have "sfmc_ok hash (?s\<lparr>sfmc_mem := h\<rparr>)"
      by (rule sfmc_ok_fib [OF ok _ _ r(2)]) (use q in \<open>auto simp: wq_ok_def queued_ok_def\<close>)
    with r(1) sf(1) show ?thesis by auto
  next
    case False
    obtain a pfx h T where r: "sfmc_fib_insert ?s x = Some (Some x, ?s\<lparr>sfmc_mem := h, fib_tree := T,
          fibs := (fibs ?s)(x \<mapsto> sf\<lparr>sf_pn := Some a, sf_prefix := Some pfx\<rparr>), fib_list := x # fib_list ?s\<rparr>)"
        "fib_inv (?s\<lparr>sfmc_mem := h, fib_tree := T,
          fibs := (fibs ?s)(x \<mapsto> sf\<lparr>sf_pn := Some a, sf_prefix := Some pfx\<rparr>), fib_list := x # fib_list ?s\<rparr>)"
      using fib_insert_new [OF inv, of x sf] False sf mem by auto
    have "sfmc_ok hash (?s\<lparr>sfmc_mem := h, fib_tree := T,
        fibs := (fibs ?s)(x \<mapsto> sf\<lparr>sf_pn := Some a, sf_prefix := Some pfx\<rparr>), fib_list := x # fib_list ?s\<rparr>)"
      by (rule sfmc_ok_fib [OF ok _ _ r(2)]) (use q in \<open>auto simp: wq_ok_def queued_ok_def\<close>)
    with r(1) show ?thesis by auto
  qed
  then obtain y s1 g where i: "sfmc_fib_insert ?s x = Some (Some y, s1)" "sfmc_ok hash s1" "fibs s1 x = Some g" by blast
  obtain rc s2 where "sfmc_neigh_resolve env d s1 x = Some (rc, s2)" "sfmc_ok hash s2"
    using neigh_resolve_ok [OF i(2,3), of env d] by blast
  with i(1) Cons show ?thesis by (simp add: run_work_def sfmc_ll_neigh_work_def)
qed (use ok in \<open>simp add: run_work_def\<close>)

section \<open>The device as a state machine\<close>

text \<open>The events of one device: the madcap operations, the switchdev callbacks, a packet handed
  to the driver, a neighbour event and the work queue running its oldest work.\<close>

datatype sfmc_event =
    EvAcquire addr | EvRelease addr
  | EvLltCfg madcap_obj_config | EvEntryAdd madcap_obj_entry | EvEntryDel madcap_obj_entry | EvUdpCfg madcap_obj_udp
  | EvObjAdd switchdev_trans switchdev_obj | EvObjDel switchdev_obj
  | EvXmit sk_buff | EvNeigh bool bool bool u32 neighbour | EvWork

fun sfmc_exec :: "sfmc_env \<Rightarrow> addr \<Rightarrow> sfmc_event \<Rightarrow> sfmc_world \<Rightarrow> sfmc_world option" where
  "sfmc_exec env d (EvAcquire v) w = Some (snd (sfmc_acquire_dev d v w))"
| "sfmc_exec env d (EvRelease v) w = Some (snd (sfmc_release_dev d v w))"
| "sfmc_exec env d (EvLltCfg oc) w = Some (snd (sfmc_llt_cfg d oc w))"
| "sfmc_exec env d (EvEntryAdd oe) w = Some (snd (sfmc_llt_entry_add (se_hash env) d oe w))"
| "sfmc_exec env d (EvEntryDel oe) w = Some (snd (sfmc_llt_entry_del (se_hash env) d oe w))"
| "sfmc_exec env d (EvUdpCfg ou) w = Some (snd (sfmc_udp_cfg d ou w))"
| "sfmc_exec env d (EvObjAdd phase ob) w = map_option snd (sfmc_port_obj_add env d phase ob w)"
| "sfmc_exec env d (EvObjDel ob) w = map_option snd (sfmc_port_obj_del d ob w)"
| "sfmc_exec env d (EvXmit skb) w = map_option (\<lambda>(rc, skb, w). w) (sfmc_encap_packet env skb d w)"
| "sfmc_exec env d (EvNeigh upd arp sfm ip n) w = sfmc_neigh_update_event upd arp sfm d ip n w"
| "sfmc_exec env d EvWork w = map_option (put_sfmc w d) (run_work env d (netdev_get_sfmc w d))"

text \<open>What the kernel guarantees of an event: a route's prefix length is one of IPv4, the packet
  reaches past the identifier, and the unchecked allocations succeed.\<close>

fun prefix_len_ok :: "switchdev_obj \<Rightarrow> bool" where
  "prefix_len_ok (SWITCHDEV_OBJ_IPV4_FIB fib) = (0 \<le> fib_dst_len fib \<and> fib_dst_len fib \<le> 32)"
| "prefix_len_ok SWITCHDEV_OBJ_OTHER = True"

fun event_ok :: "sfmc \<Rightarrow> sfmc_event \<Rightarrow> bool" where
  "event_ok s (EvObjAdd phase ob) = (prefix_len_ok ob \<and> 4 \<le> mem_left (sfmc_mem s))"
| "event_ok s (EvObjDel ob) = prefix_len_ok ob"
| "event_ok s (EvXmit skb) = (pkt_ok s skb \<and> 1 \<le> mem_left (sfmc_mem s))"
| "event_ok s EvWork = (3 \<le> mem_left (sfmc_mem s))"
| "event_ok s ev = True"

text \<open>The neighbour table belongs to the kernel: each event may meet another one.\<close>

abbreviation with_neighbours ::
  "sfmc_env \<Rightarrow> (addr \<Rightarrow> u32 \<Rightarrow> neighbour option) \<Rightarrow> (addr \<Rightarrow> u32 \<Rightarrow> neighbour option) \<Rightarrow> sfmc_env" where
  "with_neighbours env found created \<equiv> env\<lparr>ipv4_neigh_lookup := found, neigh_create := created\<rparr>"

inductive sfmc_step :: "sfmc_env \<Rightarrow> addr \<Rightarrow> sfmc_world \<Rightarrow> sfmc_event \<Rightarrow> sfmc_world option \<Rightarrow> bool"
  for env d where
  step: "event_ok (netdev_get_sfmc w d) ev \<Longrightarrow>
    sfmc_step env d w ev (sfmc_exec (with_neighbours env found created) d ev w)"

inductive_cases sfmc_step_elim: "sfmc_step env d w ev r"

inductive sfmc_reach :: "sfmc_env \<Rightarrow> addr \<Rightarrow> sfmc_world \<Rightarrow> bool" for env d where
  boot: "sfmc_init env h m True d net w = Some (0, net', w') \<Longrightarrow> sfmc_reach env d w'"
| run: "sfmc_reach env d w \<Longrightarrow> sfmc_step env d w ev (Some w') \<Longrightarrow> sfmc_reach env d w'"

lemma netdev_priv_put [simp]: "netdev_priv (put_sfmc w d s) = (netdev_priv w)(d := s)"
  by (simp add: put_sfmc_def)

lemma sfmc_init_ok:
  assumes "sfmc_init env h m True d net w = Some (rc, net', w')"
  shows "sfmc_ok hash (netdev_get_sfmc w' d)"
proof -
  obtain T h' where T: "New_Patricia h 32 = Some (T, h')" using assms by (auto simp: sfmc_init_def bind_eq_Some_conv)
  note z = sfmc_zero_ok [OF T]
  have "sfmc_ok hash ((sfmc_zero h' T m)\<lparr>sfmc_id := i\<rparr>)" for i
    by (rule sfmc_ok_table [OF z]) (use sfmc_okD [OF z] in \<open>simp_all add: vdev_ok_def table_ok_def cache_ok_def\<close>)
  then show ?thesis using assms T by (auto simp: sfmc_init_def Let_def put_sfmc_def split: prod.splits if_splits)
qed

lemma prefix_len_okD: "prefix_len_ok ob \<Longrightarrow> ob = SWITCHDEV_OBJ_IPV4_FIB fib \<Longrightarrow> 0 \<le> fib_dst_len fib \<and> fib_dst_len fib \<le> 32"
  by simp

lemma sfmc_exec_ok:
  assumes ok: "sfmc_ok (se_hash env) (netdev_get_sfmc w d)" and ev: "event_ok (netdev_get_sfmc w d) ev"
  shows "\<exists>w'. sfmc_exec env d ev w = Some w' \<and> sfmc_ok (se_hash env) (netdev_get_sfmc w' d)"
proof (cases ev)
  case (EvObjAdd phase ob)
  with ev have m: "4 \<le> mem_left (sfmc_mem (netdev_get_sfmc w d))" and p: "prefix_len_ok ob" by simp_all
  have "\<exists>rc w'. sfmc_port_obj_add env d phase ob w = Some (rc, w') \<and> sfmc_ok (se_hash env) (netdev_get_sfmc w' d)"
    by (rule obj_add_ok [OF ok m]) (rule prefix_len_okD [OF p])
  then show ?thesis using EvObjAdd by auto
next
  case (EvObjDel ob)
  with ev have p: "prefix_len_ok ob" by simp
  have "\<exists>rc w'. sfmc_port_obj_del d ob w = Some (rc, w') \<and> sfmc_ok (se_hash env) (netdev_get_sfmc w' d)"
    by (rule obj_del_ok [OF ok]) (rule prefix_len_okD [OF p])
  then show ?thesis using EvObjDel by auto
next
  case (EvXmit skb)
  then show ?thesis using encap_packet_ok [OF ok, of skb] ev by fastforce
next
  case (EvNeigh upd arp sfm ip n)
  obtain s' where "neigh_update_loop (fib_list (netdev_get_sfmc w d)) ip n (netdev_get_sfmc w d) = Some s'"
      "sfmc_ok (se_hash env) s'"
    using neigh_update_ok [OF ok order_refl, of ip n] by blast
  then show ?thesis using EvNeigh ok by (simp add: sfmc_neigh_update_event_def sfmc_neigh_update_def)
next
  case EvWork
  then show ?thesis using run_work_ok [OF ok, of env d] ev by auto
qed (use acquire_ok [OF ok] release_ok [OF ok] llt_cfg_ok [OF ok] entry_add_ok [OF ok] entry_del_ok [OF ok] udp_cfg_ok [OF ok]
     in simp_all)

lemma sfmc_reach_ok: "sfmc_reach env d w \<Longrightarrow> sfmc_ok (se_hash env) (netdev_get_sfmc w d)"
proof (induction rule: sfmc_reach.induct)
  case (boot h m net w net' w')
  then show ?case by (rule sfmc_init_ok)
next
  case (run w ev w')
  from run.hyps(2) obtain found created where e: "event_ok (netdev_get_sfmc w d) ev"
      and x: "sfmc_exec (with_neighbours env found created) d ev w = Some w'"
    by (rule sfmc_step_elim) metis
  have "sfmc_ok (se_hash (with_neighbours env found created)) (netdev_get_sfmc w d)" using run.IH by simp
  from sfmc_exec_ok [OF this e] x show ?case by simp
qed

end
