(* ===== verification/Sfmc_Wire.thy ===== *)
theory Sfmc_Wire
  imports Sfmc_Packet
begin

text \<open>
  The wire side of \<^verbatim>\<open>sfmc.c\<close>: the checksum loop computes the one's complement sum of the
  big-endian 16-bit words, a header that carries it verifies to zero, the identifier field is
  read where it is configured, and the outer headers sit in front of the untouched packet.
\<close>

section \<open>The checksum\<close>

text \<open>The reference: the sum of the big-endian words (an odd last byte is a high byte), reduced
  to \<open>0\<close> for zero and to \<open>1 \<dots> 65535\<close> modulo \<open>65535\<close> otherwise.\<close>

fun be_sum :: "u8 list \<Rightarrow> nat" where
  "be_sum (x # y # rest) = unat x * 256 + unat y + be_sum rest"
| "be_sum [x] = unat x * 256"
| "be_sum [] = 0"

definition ones_reduce :: "nat \<Rightarrow> nat" where
  "ones_reduce n = (if n = 0 then 0 else (n - 1) mod 65535 + 1)"

lemma ones_reduce_id: "n \<le> 65535 \<Longrightarrow> ones_reduce n = n"
  by (simp add: ones_reduce_def)

lemma ones_reduce_le: "ones_reduce n \<le> 65535"
  proof (cases n)
  case (Suc k)
  have "k mod 65535 < 65535" by simp
  then show ?thesis using Suc by (simp add: ones_reduce_def)
qed (simp add: ones_reduce_def)

lemma ones_reduce_zero [simp]: "ones_reduce n = 0 \<longleftrightarrow> n = 0"
  by (simp add: ones_reduce_def)

lemma ones_reduce_cong:
  assumes "n mod 65535 = m mod 65535" "n = 0 \<longleftrightarrow> m = 0"
  shows "ones_reduce n = ones_reduce m"
proof (cases n)
  case (Suc k)
  then obtain l where m: "m = Suc l" using assms(2) by (cases m) auto
  have "Suc k mod 65535 = Suc l mod 65535" using assms(1) Suc m by simp
  then have "k mod 65535 = l mod 65535" by (simp add: mod_Suc split: if_splits)
  with Suc m show ?thesis by (simp add: ones_reduce_def)
qed (use assms in simp)

lemma ones_reduce_mod: "ones_reduce n mod 65535 = n mod 65535"
proof (cases n)
  case (Suc k)
  then show ?thesis by (simp add: ones_reduce_def mod_Suc)
qed (simp add: ones_reduce_def)

lemma ones_reduce_add: "ones_reduce (ones_reduce n + m) = ones_reduce (n + m)"
  by (rule ones_reduce_cong) (metis ones_reduce_mod mod_add_left_eq, simp)

lemma fold_carry_step:
  fixes acc x :: u32
  assumes "unat acc \<le> 65535" "unat x \<le> 65535"
  shows "unat (fold_carry (acc + x)) = ones_reduce (unat acc + unat x)"
proof -
  have add: "unat (acc + x) = unat acc + unat x" using assms by (intro unat_add_lem [THEN iffD1]) simp
  show ?thesis
  proof (cases "acc + x > 0xFFFF")
    case True
    then have big: "65535 < unat acc + unat x" using add by (simp add: word_less_nat_alt)
    have "unat (acc + x - 0xFFFF) = unat acc + unat x - 65535"
      using True add by (subst unat_sub) (simp_all add: order.strict_implies_order)
    moreover have "ones_reduce (unat acc + unat x) = ones_reduce (unat acc + unat x - 65535)"
      by (rule ones_reduce_cong) (use big in \<open>auto simp: le_mod_geq\<close>)
    ultimately show ?thesis using True assms by (simp add: fold_carry_def ones_reduce_id)
  next
    case False
    then have "unat acc + unat x \<le> 65535" using add by (simp add: word_less_nat_alt)
    with False add show ?thesis by (simp add: fold_carry_def ones_reduce_id)
  qed
qed

lemma unat_u8: "unat (x :: u8) \<le> 255"
  using hash_bound [of x] by linarith

lemma take_bit_small: "n \<le> 65535 \<Longrightarrow> take_bit 16 n = (n :: nat)" "n \<le> 65535 \<Longrightarrow> take_bit 32 n = (n :: nat)"
  by (simp_all add: take_bit_nat_eq_self)

lemma take_bit_u8 [simp]: "take_bit 16 (unat (x :: u8)) = unat x" "take_bit 32 (unat x) = unat x"
  "take_bit 16 (unat x * 256) = unat x * 256" "take_bit 32 (unat x * 256) = unat x * 256"
  using unat_u8 [of x] by (simp_all add: take_bit_small)

lemma unat_high_byte: "unat (push_bit 8 (ucast (x :: u8)) :: u16) = unat x * 256" "unat (push_bit 8 (ucast x) :: u32) = unat x * 256"
  by (simp_all add: unsigned_push_bit_eq push_bit_nat_def unsigned_ucast_eq)

lemma unat_be_pair: "unat (htons (le_word [x, y]) :: u16) = unat x * 256 + unat y"
proof -
  have "htons (le_word [x, y]) = le_word [y, x]" unfolding htons_def by (subst le_bytes_le_word) simp_all
  also have "\<dots> = ucast y OR push_bit 8 (ucast x)" by simp
  also have "\<dots> = ucast y + push_bit 8 (ucast x)"
    by (rule disjunctive_add_eq_or [symmetric]) (auto simp: bit_eq_iff bit_and_iff bit_push_bit_iff bit_ucast_iff dest: bit_imp_le_length)
  finally have e: "htons (le_word [x, y]) = ucast y + push_bit 8 (ucast x)" .
  have b: "unat x \<le> 255" "unat y \<le> 255" by (rule unat_u8)+
  have "unat (push_bit 8 (ucast x) :: u16) = unat x * 256" by (rule unat_high_byte)
  moreover have "unat (ucast y :: u16) = unat y" using b by (simp add: unsigned_ucast_eq)
  ultimately show ?thesis using b unfolding e by (subst unat_plus_if') simp
qed

lemma unat_ucast_u32: "unat (ucast (x :: u16) :: u32) = unat x"
  using unsigned_less [of x, where 'a = nat] by (simp add: unsigned_ucast_eq take_bit_nat_eq_self)

lemma checksum_pairs_sum:
  "unat acc \<le> 65535 \<Longrightarrow> unat (checksum_pairs bs acc) = ones_reduce (unat acc + be_sum bs)"
proof (induction bs acc rule: checksum_pairs.induct)
  case (1 x y rest acc)
  let ?x = "ucast (htons (le_word [x, y])) :: u32"
  have v: "unat ?x = unat x * 256 + unat y"
    by (simp only: unat_ucast_u32 unat_be_pair)
  have "unat ?x \<le> 65535" using unat_u8 [of x] unat_u8 [of y] unfolding v by linarith
  from fold_carry_step [OF 1(2) this] have f: "unat (fold_carry (acc + ?x)) = ones_reduce (unat acc + (unat x * 256 + unat y))"
    unfolding v .
  have "unat (fold_carry (acc + ?x)) \<le> 65535" unfolding f by (rule ones_reduce_le)
  from 1(1) [OF this] show ?case unfolding f by (simp add: ones_reduce_add add.assoc)
next
  case (2 x acc)
  have "unat (push_bit 8 (ucast x) :: u32) = unat x * 256"
    by (rule unat_high_byte)
  moreover have "unat x * 256 \<le> 65535" using unat_u8 [of x] by simp
  ultimately show ?case using fold_carry_step [OF 2, of "push_bit 8 (ucast x)"] by simp
next
  case (3 acc)
  then show ?case by (simp add: ones_reduce_id)
qed

lemma unat_compl_u16: "unat (NOT w :: u16) = 65535 - unat w"
proof -
  have "unat w \<le> 65535" using unsigned_less [of w, where 'a = nat] by simp
  have "NOT w = 0xFFFF - w" by (simp add: not_eq_complement)
  moreover have "w \<le> 0xFFFF" using unsigned_less [of w, where 'a = nat] by (simp add: word_le_nat_alt)
  ultimately show ?thesis by (simp add: unat_sub)
qed

lemma checksum_value: "ipchecksum bs 0 = htons (word_of_nat (65535 - ones_reduce (be_sum bs)))"
proof -
  let ?c = "checksum_pairs bs 0"
  have c: "unat ?c = ones_reduce (be_sum bs)" using checksum_pairs_sum [of 0 bs] by simp
  have low: "ucast (NOT ?c AND 0xFFFF) = NOT (ucast ?c :: u16)"
  proof (rule bit_word_eqI)
    fix n assume n: "n < LENGTH(16)"
    have "(0xFFFF :: u32) = mask 16" by (simp add: mask_eq_exp_minus_1)
    then have "bit (0xFFFF :: u32) n" using n by (simp only: bit_mask_iff) simp
    with n show "bit (ucast (NOT ?c AND 0xFFFF) :: u16) n = bit (NOT (ucast ?c :: u16)) n" by (simp add: bit_simps)
  qed
  have "unat (ucast ?c :: u16) = ones_reduce (be_sum bs)"
    using ones_reduce_le [of "be_sum bs"] c by (simp add: unsigned_ucast_eq take_bit_nat_eq_self)
  then have "unat (NOT (ucast ?c :: u16)) = 65535 - ones_reduce (be_sum bs)" by (simp add: unat_compl_u16)
  then have "NOT (ucast ?c :: u16) = word_of_nat (65535 - ones_reduce (be_sum bs))" by (metis of_nat_unat ucast_id)
  then show ?thesis by (simp add: ipchecksum_def low)
qed

lemma be_sum_append: "even (length xs) \<Longrightarrow> be_sum (xs @ ys) = be_sum xs + be_sum ys"
  by (induction xs rule: be_sum.induct) auto

lemma be_sum_field: "be_sum (le_bytes 2 w) = unat (htons (w :: u16))"
proof -
  obtain x y where xy: "le_bytes 2 w = [x, y]" by (simp add: le_bytes_def numeral_2_eq_2)
  have "le_word [x, y] = w" unfolding xy [symmetric] by (simp add: wire_simps)
  with unat_be_pair [of x y] show ?thesis unfolding xy by simp
qed

lemma header_sum: "be_sum (ip_header proto saddr daddr n check) = be_sum (ip_header proto saddr daddr n 0) + unat (htons check)"
proof -
  let ?a = "[0x45, 0] @ le_bytes 2 (htons n) @ [0, 0, 0, 0, 64, proto]" and ?b = "le_bytes 4 saddr @ le_bytes 4 daddr"
  have h: "ip_header proto saddr daddr n c = ?a @ le_bytes 2 c @ ?b" for c by (simp add: ip_header_def)
  have "be_sum (le_bytes 2 (0 :: u16)) = 0" by (simp add: le_bytes_def numeral_2_eq_2)
  then show ?thesis unfolding h by (simp add: be_sum_append be_sum_field del: append.simps append_Cons)
qed

lemma header_reduces:
  "ones_reduce (be_sum (ip_header proto saddr daddr n (ipchecksum (ip_header proto saddr daddr n 0) 0))) = 65535"
proof -
  let ?S = "be_sum (ip_header proto saddr daddr n 0)"
  have pos: "?S \<noteq> 0" by (simp add: ip_header_def)
  have c: "unat (htons (ipchecksum (ip_header proto saddr daddr n 0) 0)) = 65535 - ones_reduce ?S"
    by (simp add: checksum_value unat_of_nat)
  have "ones_reduce (?S + (65535 - ones_reduce ?S)) = ones_reduce (ones_reduce ?S + (65535 - ones_reduce ?S))"
    by (simp add: ones_reduce_add)
  also have "\<dots> = 65535" using ones_reduce_le [of ?S] by (simp add: ones_reduce_id)
  finally show ?thesis unfolding header_sum [of _ _ _ _ "ipchecksum _ _"] c .
qed

lemma header_verifies:
  "ipchecksum (ip_header proto saddr daddr n (ipchecksum (ip_header proto saddr daddr n 0) 0)) 0 = 0"
  using header_reduces [of proto saddr daddr n]
  by (simp add: checksum_value [of "ip_header _ _ _ _ (ipchecksum _ _)"] htons_def le_bytes_def numeral_2_eq_2)

section \<open>The identifier\<close>

lemma extract_id_some:
  assumes "unat (oc_offset oc) + 8 \<le> length pkt"
  shows "extract_id_from_packet pkt oc =
    Some (drop_bit (64 - unat (oc_length oc)) (le_word (take 8 (drop (unat (oc_offset oc)) pkt))))"
proof -
  have "nat (64 - int (unat (oc_length oc))) = 64 - unat (oc_length oc)" by linarith
  then show ?thesis using assms by (simp add: extract_id_from_packet_def read_bytes_def shift_loop_drop)
qed

lemma extract_id_none:
  "extract_id_from_packet pkt oc = None \<longleftrightarrow> length pkt < unat (oc_offset oc) + 8"
  by (auto simp: extract_id_from_packet_def read_bytes_def)

section \<open>What a receiver reads\<close>

text \<open>The frames of RFC 894, 791 and 768 that a host accepts, stated by the position of their fields: a
  number in two bytes, high byte first (modulo 65536); an Ethernet frame that carries one whole
  IPv4 packet without options, fragments or type of service, with a time to live of 64 and a
  header that verifies; and a UDP datagram without checksum. Addresses and ports are in network
  order.\<close>

definition be16 :: "nat \<Rightarrow> u8 list" where
  "be16 n = [word_of_nat (n div 256), word_of_nat n]"

lemma length_be16 [simp]: "length (be16 n) = 2"
  by (simp add: be16_def)

definition ipv4_frame :: "u8 list \<Rightarrow> u8 list \<Rightarrow> u8 \<Rightarrow> u32 \<Rightarrow> u32 \<Rightarrow> u8 list \<Rightarrow> u8 list \<Rightarrow> bool" where
  "ipv4_frame dmac smac proto saddr daddr payload f \<longleftrightarrow>
     take 14 f = dmac @ smac @ [0x08, 0x00] \<and>
     take 10 (drop 14 f) = [0x45, 0] @ be16 (length f - 14) @ [0, 0, 0, 0, 64, proto] \<and>
     ones_reduce (be_sum (take 20 (drop 14 f))) = 65535 \<and>
     take 8 (drop 26 f) = le_bytes 4 saddr @ le_bytes 4 daddr \<and>
     drop 34 f = payload"

definition udp_datagram :: "u16 \<Rightarrow> u16 \<Rightarrow> u8 list \<Rightarrow> u8 list \<Rightarrow> bool" where
  "udp_datagram sport dport payload seg \<longleftrightarrow>
     take 8 seg = le_bytes 2 sport @ le_bytes 2 dport @ be16 (length seg) @ [0, 0] \<and> drop 8 seg = payload"

lemma le_bytes_be16: "le_bytes 2 (htons (word_of_nat n)) = be16 n"
proof -
  obtain x y where xy: "le_bytes 2 (word_of_nat n :: u16) = [x, y]" by (simp add: le_bytes_def numeral_2_eq_2)
  have "htons (word_of_nat n) = le_word [y, x]" by (simp add: htons_def xy)
  moreover have "le_bytes 2 (le_word [y, x] :: u16) = [y, x]" by (rule le_bytes_le_word) simp_all
  ultimately have swap: "le_bytes 2 (htons (word_of_nat n)) = [y, x]" by metis
  have "x = ucast (word_of_nat n :: u16)" "y = ucast (drop_bit 8 (word_of_nat n :: u16))"
    using xy by (simp_all add: le_bytes_def numeral_2_eq_2)
  then have "x = word_of_nat n" "y = word_of_nat (n div 256)"
    by (auto simp: bit_eq_iff bit_simps drop_bit_eq_div [symmetric, where n = 8, simplified])
  with swap show ?thesis by (simp add: be16_def)
qed

section \<open>The outer headers\<close>

lemma length_ip_header [simp]: "length (ip_header proto saddr daddr n check) = 20"
  by (simp add: ip_header_def)

lemma length_udp_header [simp]: "length (udp_header ou payload) = 8"
  by (simp add: udp_header_def)

text \<open>The bytes \<^verbatim>\<open>sfmc_encap_packet\<close> puts in front: Ethernet and IP, and UDP when it is enabled.\<close>

definition overhead :: "sfmc \<Rightarrow> nat" where
  "overhead s = 14 + 20 + (if encap_enable (sfmc_ou s) \<noteq> 0 then 8 else 0)"

lemma encap_headers_parts:
  assumes "length src_mac = 6" "length dst_mac = 6"
  shows "length (encap_headers s src_mac dst dst_mac pkt) = overhead s + length pkt"
    "drop (overhead s) (encap_headers s src_mac dst dst_mac pkt) = pkt"
    "take 6 (encap_headers s src_mac dst dst_mac pkt) = dst_mac"
    "take 6 (drop 6 (encap_headers s src_mac dst dst_mac pkt)) = src_mac"
  using assms by (simp_all add: encap_headers_def push_eth_def push_ip_def overhead_def Let_def)

lemma encap_headers_ip:
  fixes s :: sfmc and dst :: u32 and pkt src_mac dst_mac :: "u8 list"
  assumes "length src_mac = 6" "length dst_mac = 6"
  defines "ip \<equiv> take 20 (drop 14 (encap_headers s src_mac dst dst_mac pkt))"
  shows "ipchecksum ip 0 = 0" "drop 12 ip = le_bytes 4 (oc_src (sfmc_oc s)) @ le_bytes 4 dst" "ip ! 9 = oc_proto (sfmc_oc s)"
    "take 2 (drop 2 ip) = le_bytes 2 (htons (word_of_nat (overhead s - 14 + length pkt)))"
proof -
  let ?pl = "if encap_enable (sfmc_ou s) \<noteq> 0 then udp_header (sfmc_ou s) pkt @ pkt else pkt"
  let ?h = "ip_header (oc_proto (sfmc_oc s)) (oc_src (sfmc_oc s)) dst (word_of_nat (20 + length ?pl))"
  have ip: "ip = ?h (ipchecksum (?h 0) 0)"
    using assms(1,2) by (simp add: ip_def encap_headers_def push_eth_def push_ip_def Let_def)
  show "ipchecksum ip 0 = 0" unfolding ip by (rule header_verifies)
  show "drop 12 ip = le_bytes 4 (oc_src (sfmc_oc s)) @ le_bytes 4 dst" "ip ! 9 = oc_proto (sfmc_oc s)"
    "take 2 (drop 2 ip) = le_bytes 2 (htons (word_of_nat (overhead s - 14 + length pkt)))"
    unfolding ip by (simp_all add: ip_header_def overhead_def nth_append)
qed

text \<open>A receiver reads the outer headers as those of a frame for the route's gateway and the locator, with
  the configured protocol and, when UDP is enabled, the configured ports.\<close>

lemma encap_headers_frame:
  assumes "length src_mac = 6" "length dst_mac = 6"
  shows "\<exists>seg. ipv4_frame dst_mac src_mac (oc_proto (sfmc_oc s)) (oc_src (sfmc_oc s)) dst seg (encap_headers s src_mac dst dst_mac pkt) \<and>
    (if encap_enable (sfmc_ou s) \<noteq> 0 then udp_datagram (src_port (sfmc_ou s)) (dst_port (sfmc_ou s)) pkt seg else seg = pkt)"
proof -
  let ?f = "encap_headers s src_mac dst dst_mac pkt" and ?oc = "sfmc_oc s"
  define seg where "seg = (if encap_enable (sfmc_ou s) \<noteq> 0 then udp_header (sfmc_ou s) pkt @ pkt else pkt)"
  let ?h = "ip_header (oc_proto ?oc) (oc_src ?oc) dst (word_of_nat (20 + length seg))"
  define ip where "ip = ?h (ipchecksum (?h 0) 0)"
  have f: "?f = dst_mac @ src_mac @ [0x08, 0x00] @ ip @ seg"
    using le_bytes_be16 [of 2048] by (simp add: encap_headers_def push_eth_def push_ip_def Let_def be16_def seg_def ip_def)
  have ip: "take 10 ip = [0x45, 0] @ be16 (20 + length seg) @ [0, 0, 0, 0, 64, oc_proto ?oc]"
      "drop 12 ip = le_bytes 4 (oc_src ?oc) @ le_bytes 4 dst" "length ip = 20"
    unfolding ip_def ip_header_def le_bytes_be16 by (simp_all add: be16_def)
  have parts: "take 14 ?f = dst_mac @ src_mac @ [0x08, 0x00]" "take 10 (drop 14 ?f) = take 10 ip" "take 20 (drop 14 ?f) = ip"
      "take 8 (drop 26 ?f) = drop 12 ip" "drop 34 ?f = seg" "length ?f - 14 = 20 + length seg"
    unfolding f using assms ip(3) by simp_all
  have "ipv4_frame dst_mac src_mac (oc_proto ?oc) (oc_src ?oc) dst seg ?f"
    unfolding ipv4_frame_def parts ip(1,2) using header_reduces by (simp add: ip_def)
  moreover have "udp_datagram (src_port (sfmc_ou s)) (dst_port (sfmc_ou s)) pkt (udp_header (sfmc_ou s) pkt @ pkt)"
    unfolding udp_datagram_def length_append length_udp_header
    using le_bytes_be16 [of "8 + length pkt"] by (simp add: udp_header_def)
  ultimately show ?thesis by (intro exI [of _ seg]) (simp add: seg_def)
qed

end
