(* ===== verification/Sfmc_Props.thy ===== *)
theory Sfmc_Props
  imports Sfmc_Steps Sfmc_Wire
begin

text \<open>
  What \<^verbatim>\<open>sfmc.c\<close> promises: no reachable event crashes the kernel, routes are chosen by longest
  prefix, the locator table refines a map, a packet is delivered with a verifying outer
  header, and neighbour events reach every route. Also the behaviours that differ from what the
  code's comments announce: a known prefix keeps its old route, a destination on a connected
  route is never reached, and reconfiguration is ignored.
\<close>

section \<open>A device with one route and one locator entry\<close>

definition demo_route :: sfmc_fib where
  "demo_route = \<lparr>sf_pn = Some 1, sf_prefix = Some 0, sf_network = 10, sf_len = 8, sf_scope = 0,
     sf_gateway = 0x0100000A, sf_mac = [2, 0, 0, 0, 0, 1], sf_nud = 2\<rparr>"

definition demo_entry :: madcap_obj_entry where
  "demo_entry = \<lparr>oe_obj = \<lparr>obj_id = 2, tb_id = 0\<rparr>, oe_id = 5, oe_dst = 0x0302010A\<rparr>"

definition demo_sfmc :: sfmc where
  "demo_sfmc = (sfmc_zero demo_store demo_tree 10)\<lparr>fib_list := [7], fibs := [7 \<mapsto> demo_route],
     sfmc_vdev := (replicate 16 None)[0 := Some 9],
     sfmc_buckets := (replicate 256 [])[5 := [\<lparr>st_oe = demo_entry, st_fib = None\<rparr>]]\<rparr>"

definition demo_hash :: hash64 where
  "demo_hash k = ucast k"

definition demo_env :: sfmc_env where
  "demo_env = \<lparr>se_hash = demo_hash, madcap_enable = True, perm_addr = (\<lambda>d. [2, 0, 0, 0, 0, 9]),
     ipv4_neigh_lookup = (\<lambda>d ip. Some \<lparr>n_ha = [2, 0, 0, 0, 0, 1], n_nud = 2\<rparr>), neigh_create = (\<lambda>d ip. None)\<rparr>"

definition demo_world :: sfmc_world where
  "demo_world = \<lparr>netdev_priv = (\<lambda>d. demo_sfmc), netevent_registered = True\<rparr>"

lemma demo_buckets: "concat ((replicate 256 [])[5 := [x]]) = [x]"
  by (simp add: numeral_nat replicate_Suc)

lemma demo_sfmc_ok: "sfmc_ok demo_hash demo_sfmc"
proof -
  have "table_ok demo_hash demo_sfmc"
    by (simp add: table_ok_def demo_sfmc_def demo_buckets buckets_ok_def nth_list_update demo_hash_def demo_entry_def)
  moreover have "vdev_ok demo_sfmc"
    unfolding vdev_ok_def demo_sfmc_def by (auto simp: intro!: slots_distinct_store simp: slot_simps)
  moreover have "fib_inv demo_sfmc"
  proof -
    have "fib_entry demo_sfmc 7 = (demo_key, 1, Some 7)"
      using demo_key_of by (simp add: fib_entry_def demo_sfmc_def fib_key_def demo_route_def)
    then have "pt_holds (fib_state demo_sfmc) (fib_entry demo_sfmc ` set (fib_list demo_sfmc))"
      using demo_holds by (auto simp: pt_holds_def demo_sfmc_def sfmc_zero_def)
    then show ?thesis
      by (simp add: fib_inv_def demo_sfmc_def sfmc_zero_def demo_tree_def fib_live_def demo_route_def demo_store_def)
  qed
  moreover have "cache_ok demo_sfmc"
    unfolding cache_ok_def demo_sfmc_def by (auto dest!: set_update_subset_insert [THEN subsetD])
  moreover have "wq_ok demo_sfmc" by (simp add: wq_ok_def demo_sfmc_def sfmc_zero_def)
  ultimately show ?thesis by (simp add: sfmc_ok_def)
qed

section \<open>Safety\<close>

text \<open>Property C1: in every state of a device reached from \<^verbatim>\<open>sfmc_init\<close> by any sequence of madcap
  operations, switchdev callbacks, packets, neighbour events and queued works, each with any
  neighbour table of the kernel, the next event
  does not dereference a null, freed or foreign object: it returns. (The kernel delivers IPv4
  prefix lengths, the packet covers the identifier field, and memory is left: the allocations
  of this path are unchecked.)\<close>

theorem no_reachable_crash:
  assumes "sfmc_reach env d w" "event_ok (netdev_get_sfmc w d) ev"
  shows "\<exists>w'. sfmc_exec env d ev w = Some w' \<and> sfmc_reach env d w'"
proof -
  obtain w' where w': "sfmc_exec env d ev w = Some w'" using sfmc_exec_ok [OF sfmc_reach_ok [OF assms(1)] assms(2)] by blast
  then have "sfmc_step env d w ev (Some w')"
    using sfmc_step.step [OF assms(2), where env = env and found = "ipv4_neigh_lookup env" and created = "neigh_create env"] by simp
  with w' show ?thesis using sfmc_reach.run [OF assms(1)] by blast
qed

definition demo_boot :: sfmc_world where
  "demo_boot = (case sfmc_init demo_env \<lparr>pnodes = Map.empty, pprefixes = Map.empty, brk = 0, mem_left = 40\<rparr> 5 True 1
     madcap_init_net demo_world of Some (_, _, w) \<Rightarrow> w | None \<Rightarrow> demo_world)"

lemmas boot_simps = sfmc_init_def New_Patricia_def kmalloc_def Let_def put_sfmc_def sfmc_zero_def

lemma demo_boot_init: "\<exists>net'. sfmc_init demo_env \<lparr>pnodes = Map.empty, pprefixes = Map.empty, brk = 0, mem_left = 40\<rparr> 5 True 1
     madcap_init_net demo_world = Some (0, net', demo_boot)"
  by (auto simp: demo_boot_def boot_simps demo_env_def madcap_register_device_def madcap_init_net_def
      get_madcap_ops_def first_slot_None dest: first_slot_mem split: option.splits prod.splits)

theorem no_reachable_crash_witness:
  "\<exists>w'. sfmc_exec demo_env 1 (EvObjAdd SWITCHDEV_TRANS_COMMIT
      (SWITCHDEV_OBJ_IPV4_FIB \<lparr>fib_dst = 0x0A000000, fib_dst_len = 8, fib_nh_gw = 1, fib_info_scope = 0\<rparr>)) demo_boot = Some w' \<and>
    sfmc_reach demo_env 1 w'"
proof (rule no_reachable_crash)
  show "sfmc_reach demo_env 1 demo_boot" using demo_boot_init by (auto intro: sfmc_reach.boot)
  show "event_ok (netdev_get_sfmc demo_boot 1) (EvObjAdd SWITCHDEV_TRANS_COMMIT
      (SWITCHDEV_OBJ_IPV4_FIB \<lparr>fib_dst = 0x0A000000, fib_dst_len = 8, fib_nh_gw = 1, fib_info_scope = 0\<rparr>))"
    by (simp add: demo_boot_def boot_simps split: prod.splits)
qed

section \<open>Routes\<close>

text \<open>The driver's route for an address is the one with the longest prefix of it among
  the routes it holds, and there is none exactly when no route matches.\<close>

lemma best_route_chosen:
  assumes "sfmc_ok hash s"
  shows "\<exists>r. sfmc_fib_find_best s dst 32 = Some r \<and> (\<forall>sfa. r = Some sfa \<longleftrightarrow> best_route s dst sfa)"
  by (rule find_best_route [OF sfmc_okD(3) [OF assms]])

lemma best_route_chosen_witness:
  "\<exists>r. sfmc_fib_find_best demo_sfmc 0x0302010A 32 = Some r \<and> (\<forall>sfa. r = Some sfa \<longleftrightarrow> best_route demo_sfmc 0x0302010A sfa)"
  by (rule best_route_chosen [OF demo_sfmc_ok])

lemma find_exact_has:
  assumes "sfmc_ok hash s" "len \<le> 32" "sfa \<in> set (fib_list s)" "fibs s sfa = Some sf" "fib_key sf = key_of (fib_prefix network len)"
  shows "sfmc_fib_find_exact s network len = Some (Some sfa)"
  using find_exact_route [OF sfmc_okD(3) [OF assms(1)] assms(2), of network] assms(3-5) by metis

text \<open>The neighbour the driver finds or creates for a gateway, and what resolving a route through it does.\<close>

abbreviation neighbour_of :: "sfmc_env \<Rightarrow> addr \<Rightarrow> u32 \<Rightarrow> neighbour option" where
  "neighbour_of env d gw \<equiv> (case ipv4_neigh_lookup env d gw of Some n \<Rightarrow> Some n | None \<Rightarrow> neigh_create env d gw)"

lemma resolve_run:
  assumes "fibs s a = Some sf"
  shows "sfmc_neigh_resolve env d s a = (case neighbour_of env d (sf_gateway sf) of
      None \<Rightarrow> Some (1, s)
    | Some n \<Rightarrow> if n_nud n AND NUD_VALID \<noteq> 0
        then Some (0, s\<lparr>fibs := (fibs s)(a \<mapsto> sf\<lparr>sf_mac := take 6 (n_ha n), sf_nud := n_nud n\<rparr>)\<rparr>)
        else Some (0, s\<lparr>arp_probes := arp_probes s @ [sf_gateway sf]\<rparr>))"
  using assms by (simp add: sfmc_neigh_resolve_def sfmc_neigh_write_def split: option.split)

text \<open>A new prefix in the table: its route is the best one exactly for the addresses it covers that no
  route with a longer prefix covers.\<close>

lemma new_route_best:
  assumes inv: "fib_inv s'" and l: "fib_list s' = a # fib_list s" and a: "fibs s' a = Some sf" "fib_key sf = k"
    and old: "\<And>x. x \<in> set (fib_list s) \<Longrightarrow> fibs s' x = fibs s x"
  shows "best_route s' dst a \<longleftrightarrow> matches 32 (addr_bits (be32_bytes dst)) k \<and>
    (\<forall>x g. route_matches s dst x \<longrightarrow> fibs s x = Some g \<longrightarrow> sf_len g \<le> sf_len sf)"
proof -
  have "a \<notin> set (fib_list s)" using inv l by (simp add: fib_inv_def)
  then have "route_matches s' dst x \<longleftrightarrow> x = a \<and> matches 32 (addr_bits (be32_bytes dst)) k \<or> x \<noteq> a \<and> route_matches s dst x" for x
    using l a old by (auto simp: route_matches_def)
  moreover have "x \<in> set (fib_list s)" if "route_matches s dst x" for x using that by (simp add: route_matches_def)
  ultimately show ?thesis using a(1) old \<open>a \<notin> set (fib_list s)\<close> unfolding best_route_def by (metis option.inject order_refl)
qed

text \<open>Property C16: the switchdev callback for a route with a new prefix (one with a gateway or a connected
  one) installs it and returns 0: the device keeps its invariant and its other routes; the new
  route has the prefix, gateway and scope given, and the hardware address and state of the
  gateway's neighbour when that is valid (an ARP request is sent when it is not); an exact lookup
  of the prefix finds it; and it is the route of exactly those addresses under the prefix that no
  longer prefix covers. Locator entries keep the routes they remember.\<close>

theorem route_installed:
  fixes env :: sfmc_env and fib :: switchdev_obj_ipv4_fib and d :: addr
  defines "network \<equiv> htonl (fib_dst fib)" and "len \<equiv> word_of_int (fib_dst_len fib)" and "nb \<equiv> neighbour_of env d (fib_nh_gw fib)"
  assumes ok: "sfmc_ok hash (netdev_get_sfmc w d)" and plen: "0 \<le> fib_dst_len fib" "fib_dst_len fib \<le> 32"
    and mem: "4 \<le> mem_left (sfmc_mem (netdev_get_sfmc w d))" and via: "fib_nh_gw fib \<noteq> 0 \<or> fib_info_scope fib = RT_SCOPE_LINK"
    and new: "sfmc_fib_find_exact (netdev_get_sfmc w d) network len = Some None"
  shows "\<exists>w' sfa sf. sfmc_port_obj_add env d SWITCHDEV_TRANS_COMMIT (SWITCHDEV_OBJ_IPV4_FIB fib) w = Some (0, w') \<and>
    sfmc_ok hash (netdev_get_sfmc w' d) \<and> fib_list (netdev_get_sfmc w' d) = sfa # fib_list (netdev_get_sfmc w d) \<and>
    (\<forall>x \<in> set (fib_list (netdev_get_sfmc w d)). fibs (netdev_get_sfmc w' d) x = fibs (netdev_get_sfmc w d) x) \<and>
    sfmc_buckets (netdev_get_sfmc w' d) = sfmc_buckets (netdev_get_sfmc w d) \<and>
    fibs (netdev_get_sfmc w' d) sfa = Some sf \<and> sf_network sf = network \<and> sf_len sf = len \<and>
    sf_gateway sf = fib_nh_gw fib \<and> sf_scope sf = fib_info_scope fib \<and>
    (sf_mac sf, sf_nud sf) = (case nb of
        Some n \<Rightarrow> if n_nud n AND NUD_VALID \<noteq> 0 then (take 6 (n_ha n), n_nud n) else (replicate 6 0, 0)
      | None \<Rightarrow> (replicate 6 0, 0)) \<and>
    arp_probes (netdev_get_sfmc w' d) = arp_probes (netdev_get_sfmc w d) @
      (case nb of Some n \<Rightarrow> if n_nud n AND NUD_VALID \<noteq> 0 then [] else [fib_nh_gw fib] | None \<Rightarrow> []) \<and>
    sfmc_fib_find_exact (netdev_get_sfmc w' d) network len = Some (Some sfa) \<and>
    (\<forall>dst. sfmc_fib_find_best (netdev_get_sfmc w' d) dst 32 = Some (Some sfa) \<longleftrightarrow>
      matches 32 (addr_bits (be32_bytes dst)) (key_of (fib_prefix network len)) \<and>
      (\<forall>x g. route_matches (netdev_get_sfmc w d) dst x \<longrightarrow> fibs (netdev_get_sfmc w d) x = Some g \<longrightarrow> sf_len g \<le> len))"
proof -
  let ?s = "netdev_get_sfmc w d" and ?gw = "fib_nh_gw fib" and ?k = "key_of (fib_prefix network len)"
  have len: "len \<le> 32" unfolding len_def using plen by (rule dst_len_le)
  have "\<not> has_route ?s ?k" using find_exact_has [OF ok len, of _ _ network] new by (auto simp: has_route_def)
  from fib_add_new [OF sfmc_okD(3) [OF ok] len mem this, of ?gw "fib_info_scope fib"] obtain sfa s1 a pfx where
    add: "sfmc_fib_add ?s network len ?gw (fib_info_scope fib) = Some (Some sfa, s1)" "fib_list s1 = sfa # fib_list ?s"
      "sfa \<notin> set (fib_list ?s)" "sfmc_buckets s1 = sfmc_buckets ?s" "arp_probes s1 = arp_probes ?s"
      "fibs s1 = (fibs ?s)(sfa \<mapsto> (fresh_fib network len ?gw (fib_info_scope fib))\<lparr>sf_pn := Some a, sf_prefix := Some pfx\<rparr>)" by blast
  let ?f = "(fresh_fib network len ?gw (fib_info_scope fib))\<lparr>sf_pn := Some a, sf_prefix := Some pfx\<rparr>"
  define sf where "sf = (case nb of None \<Rightarrow> ?f
    | Some n \<Rightarrow> if n_nud n AND NUD_VALID \<noteq> 0 then ?f\<lparr>sf_mac := take 6 (n_ha n), sf_nud := n_nud n\<rparr> else ?f)"
  obtain rc s' where res: "sfmc_neigh_resolve env d s1 sfa = Some (rc, s')" "fib_list s' = fib_list s1" "fibs s' = (fibs s1)(sfa \<mapsto> sf)"
      "sfmc_buckets s' = sfmc_buckets s1" "arp_probes s' = arp_probes s1 @
        (case nb of Some n \<Rightarrow> if n_nud n AND NUD_VALID \<noteq> 0 then [] else [?gw] | None \<Rightarrow> [])"
  proof -
    have gw: "sf_gateway ?f = ?gw" by simp
    from resolve_run [of s1 sfa ?f env d, unfolded gw, folded nb_def] add(6) show thesis
      using that by (cases nb) (auto simp: sf_def split: if_splits)
  qed
  have run: "sfmc_port_obj_add env d SWITCHDEV_TRANS_COMMIT (SWITCHDEV_OBJ_IPV4_FIB fib) w = Some (0, put_sfmc w d s')"
    using add(1) res(1) via unfolding network_def len_def by (auto simp: sfmc_port_obj_add_def)
  have ok': "sfmc_ok hash s'" using obj_add_ok [OF ok mem, of "SWITCHDEV_OBJ_IPV4_FIB fib" env SWITCHDEV_TRANS_COMMIT] plen run by auto
  have f: "fib_key sf = ?k" "sf_len sf = len" "sf_network sf = network" "sf_gateway sf = ?gw" "sf_scope sf = fib_info_scope fib"
      "(sf_mac sf, sf_nud sf) = (case nb of
          Some n \<Rightarrow> if n_nud n AND NUD_VALID \<noteq> 0 then (take 6 (n_ha n), n_nud n) else (replicate 6 0, 0)
        | None \<Rightarrow> (replicate 6 0, 0))"
    by (simp_all add: sf_def fib_key_def split: option.split)
  have l: "fib_list s' = sfa # fib_list ?s" "fibs s' sfa = Some sf" "\<And>x. x \<in> set (fib_list ?s) \<Longrightarrow> fibs s' x = fibs ?s x"
    using add(2,3,6) res(2,3) by auto
  have exact: "sfmc_fib_find_exact s' network len = Some (Some sfa)" by (rule find_exact_has [OF ok' len _ l(2) f(1)]) (simp add: l(1))
  have "sfmc_fib_find_best s' dst 32 = Some (Some sfa) \<longleftrightarrow> best_route s' dst sfa" for dst
    using find_best_route [OF sfmc_okD(3) [OF ok'], of dst] by (metis option.inject)
  then have best: "\<forall>dst. sfmc_fib_find_best s' dst 32 = Some (Some sfa) \<longleftrightarrow>
      matches 32 (addr_bits (be32_bytes dst)) ?k \<and>
      (\<forall>x g. route_matches ?s dst x \<longrightarrow> fibs ?s x = Some g \<longrightarrow> sf_len g \<le> len)"
    using new_route_best [OF sfmc_okD(3) [OF ok'] l(1,2) f(1) l(3)] unfolding f(2) by blast
  have frame: "sfmc_buckets s' = sfmc_buckets ?s" "arp_probes s' = arp_probes ?s @
      (case nb of Some n \<Rightarrow> if n_nud n AND NUD_VALID \<noteq> 0 then [] else [?gw] | None \<Rightarrow> [])"
    using res(4,5) add(4,5) by simp_all
  have s': "netdev_get_sfmc (put_sfmc w d s') d = s'" by simp
  show ?thesis
    by (intro exI [of _ "put_sfmc w d s'"] exI [of _ sfa] exI [of _ sf], unfold s',
        intro conjI run ok' l ballI frame f(2-6) exact best)
qed

lemma demo_exact_new: "sfmc_fib_find_exact demo_sfmc 0x010A 16 = Some None"
proof -
  obtain r where r: "sfmc_fib_find_exact demo_sfmc 0x010A 16 = Some r" "\<And>x. r = Some x \<Longrightarrow> x \<in> set (fib_list demo_sfmc) \<and>
      (\<exists>sf. fibs demo_sfmc x = Some sf \<and> fib_key sf = key_of (fib_prefix 0x010A 16))"
    using find_exact_route [OF sfmc_okD(3) [OF demo_sfmc_ok], of 16 "0x010A"] by auto
  have "length (key_of (fib_prefix 0x010A 16)) = 16" by (simp add: key_of_def be32_bytes_def dst2prefix_def)
  moreover have "length (fib_key demo_route) = 8" by (simp add: fib_key_length demo_route_def)
  ultimately have "fib_key demo_route \<noteq> key_of (fib_prefix 0x010A 16)" by force
  then have "r = None" using r(2) by (cases r) (auto simp: demo_sfmc_def)
  with r(1) show ?thesis by simp
qed

theorem route_installed_witness:
  "\<exists>w' sfa sf. sfmc_port_obj_add demo_env 1 SWITCHDEV_TRANS_COMMIT
      (SWITCHDEV_OBJ_IPV4_FIB \<lparr>fib_dst = 0x0A010000, fib_dst_len = 16, fib_nh_gw = 0x0900000A, fib_info_scope = 0\<rparr>) demo_world = Some (0, w') \<and>
    fib_list (netdev_get_sfmc w' 1) = [sfa, 7] \<and> fibs (netdev_get_sfmc w' 1) sfa = Some sf \<and>
    sf_gateway sf = 0x0900000A \<and> sf_mac sf = [2, 0, 0, 0, 0, 1] \<and> sf_nud sf = 2 \<and>
    sfmc_fib_find_best (netdev_get_sfmc w' 1) 0x0302010A 32 = Some (Some sfa)"
proof -
  let ?fib = "\<lparr>fib_dst = 0x0A010000, fib_dst_len = 16, fib_nh_gw = 0x0900000A, fib_info_scope = 0\<rparr>"
  have net: "htonl (fib_dst ?fib) = 0x010A" "word_of_int (fib_dst_len ?fib) = (16 :: u8)" by (simp, code_simp) simp
  have "4 \<le> mem_left (sfmc_mem (netdev_get_sfmc demo_world 1))" by (simp add: demo_world_def demo_sfmc_def sfmc_zero_def demo_store_def)
  moreover have "sfmc_fib_find_exact (netdev_get_sfmc demo_world 1) (htonl (fib_dst ?fib)) (word_of_int (fib_dst_len ?fib)) = Some None"
    unfolding net using demo_exact_new by (simp add: demo_world_def)
  moreover have "matches 32 (addr_bits (be32_bytes 0x0302010A)) (key_of (fib_prefix 0x010A 16))"
    by (simp add: matches_def key_of_def dst2prefix_def) code_simp
  moreover have "sf_len g \<le> 16" if "route_matches demo_sfmc 0x0302010A x" "fibs demo_sfmc x = Some g" for x g
    using that by (auto simp: route_matches_def demo_sfmc_def demo_route_def)
  moreover have "neighbour_of demo_env 1 (fib_nh_gw ?fib) = Some \<lparr>n_ha = [2, 0, 0, 0, 0, 1], n_nud = 2\<rparr>" by (simp add: demo_env_def)
  moreover have "sfmc_ok demo_hash (netdev_get_sfmc demo_world 1)" "fib_list demo_sfmc = [7]"
    using demo_sfmc_ok by (simp_all add: demo_world_def demo_sfmc_def)
  ultimately show ?thesis
    using route_installed [of demo_hash demo_world 1 ?fib demo_env] unfolding net by (auto simp: demo_world_def)
qed

text \<open>Adding a prefix the device already has reports success but installs nothing:
  every lookup answers as before, the gateway given is not used, and the new object stays
  allocated without being linked anywhere.\<close>

lemma known_prefix_keeps_route:
  assumes ok: "sfmc_ok hash s" and len: "len \<le> 32" and mem: "4 \<le> mem_left (sfmc_mem s)"
    and old: "sfmc_fib_find_exact s network len = Some (Some x)"
  shows "\<exists>sfa s' sf. sfmc_fib_add s network len gateway scope = Some (Some sfa, s') \<and> sfmc_ok hash s' \<and>
    fib_list s' = fib_list s \<and> sfa \<notin> set (fib_list s) \<and> fibs s sfa = None \<and> fibs s' sfa = Some sf \<and> sf_gateway sf = gateway \<and>
    (\<forall>y \<in> set (fib_list s). fibs s' y = fibs s y) \<and> sfmc_fib_find_exact s' network len = Some (Some x)"
proof -
  obtain g where g: "x \<in> set (fib_list s)" "fibs s x = Some g" "fib_key g = key_of (fib_prefix network len)"
    using find_exact_route [OF sfmc_okD(3) [OF ok] len, of network] old by auto
  then have "has_route s (key_of (fib_prefix network len))" by (auto simp: has_route_def)
  from fib_add_dup [OF sfmc_okD(3) [OF ok] len mem this, of gateway scope] obtain sfa s' where
    r: "sfmc_fib_add s network len gateway scope = Some (Some sfa, s')" "fib_list s' = fib_list s"
      "sfa \<notin> set (fib_list s)" "fibs s sfa = None" "fibs s' = (fibs s)(sfa \<mapsto> fresh_fib network len gateway scope)" by blast
  have ok': "sfmc_ok hash s'" using fib_add_ok [OF ok len mem, of network gateway scope] r(1) by auto
  have "x \<noteq> sfa" using g(1) r(3) by auto
  then have "sfmc_fib_find_exact s' network len = Some (Some x)"
    by (intro find_exact_has [OF ok' len _ _ g(3)]) (use g r(2,5) in simp_all)
  with r ok' show ?thesis by auto
qed

lemma demo_exact_old: "sfmc_fib_find_exact demo_sfmc 10 8 = Some (Some 7)"
proof (rule find_exact_has [OF demo_sfmc_ok])
  show "fibs demo_sfmc 7 = Some demo_route" "7 \<in> set (fib_list demo_sfmc)" by (simp_all add: demo_sfmc_def)
qed (simp_all add: fib_key_def demo_route_def)

lemma known_prefix_keeps_route_witness:
  "\<exists>sfa s' sf. sfmc_fib_add demo_sfmc 10 8 99 0 = Some (Some sfa, s') \<and> sfmc_ok demo_hash s' \<and>
    fib_list s' = fib_list demo_sfmc \<and> sfa \<notin> set (fib_list demo_sfmc) \<and> fibs demo_sfmc sfa = None \<and>
    fibs s' sfa = Some sf \<and> sf_gateway sf = 99 \<and>
    (\<forall>y \<in> set (fib_list demo_sfmc). fibs s' y = fibs demo_sfmc y) \<and> sfmc_fib_find_exact s' 10 8 = Some (Some 7)"
proof -
  have "4 \<le> mem_left (sfmc_mem demo_sfmc)" by (simp add: demo_sfmc_def sfmc_zero_def demo_store_def)
  from known_prefix_keeps_route [OF demo_sfmc_ok _ this demo_exact_old] show ?thesis by simp
qed

text \<open>Deleting a prefix reports \<^verbatim>\<open>-ENOENT\<close> and changes nothing when there is no such
  route; otherwise the route is gone, its object freed, no locator entry points to it any
  more, and the device keeps its invariant.\<close>

lemma route_deleted:
  assumes ok: "sfmc_ok hash s" and len: "len \<le> 32"
  shows "\<exists>rc s'. sfmc_fib_del s network len = Some (rc, s') \<and> sfmc_ok hash s' \<and>
    sfmc_fib_find_exact s' network len = Some None \<and>
    (case sfmc_fib_find_exact s network len of
       Some (Some x) \<Rightarrow> rc = 0 \<and> fib_list s' = remove1 x (fib_list s) \<and> fibs s' x = None
     | _ \<Rightarrow> rc = - ENOENT \<and> s' = s)"
proof -
  note inv = sfmc_okD(3) [OF ok]
  obtain r where r: "sfmc_fib_find_exact s network len = Some r" "\<And>x. r = Some x \<longleftrightarrow> x \<in> set (fib_list s) \<and>
      (\<exists>sf. fibs s x = Some sf \<and> fib_key sf = key_of (fib_prefix network len))"
    using find_exact_route [OF inv len, of network] by metis
  show ?thesis
  proof (cases r)
    case None
    then show ?thesis using r(1) ok by (auto simp: sfmc_fib_del_def)
  next
    case (Some x)
    then have x: "x \<in> set (fib_list s)" using r(2) by blast
    obtain s' where d: "sfmc_fib_delete s x = Some s'" "sfmc_ok hash s'" using fib_delete_ok [OF ok x] by blast
    have f: "fib_list s' = remove1 x (fib_list s)" "fibs s' = (fibs s)(x := None)"
      using fib_delete_spec [OF inv x] d(1) by auto
    obtain r' where r': "sfmc_fib_find_exact s' network len = Some r'" "\<And>y. r' = Some y \<longleftrightarrow> y \<in> set (fib_list s') \<and>
        (\<exists>sf. fibs s' y = Some sf \<and> fib_key sf = key_of (fib_prefix network len))"
      using find_exact_route [OF sfmc_okD(3) [OF d(2)] len, of network] by metis
    have "r' = None"
    proof (rule ccontr)
      assume "r' \<noteq> None"
      then obtain y where y: "y \<in> set (fib_list s')" "\<exists>sf. fibs s' y = Some sf \<and> fib_key sf = key_of (fib_prefix network len)"
        using r'(2) by blast
      then have "y \<noteq> x" using f(2) by auto
      moreover have "r = Some y" using y f r(2) by (auto simp: notin_set_remove1 dest: notin_set_remove1 split: if_splits)
      ultimately show False using Some by simp
    qed
    with d f r' r(1) Some show ?thesis by (simp add: sfmc_fib_del_def)
  qed
qed

lemma route_deleted_witness:
  "\<exists>rc s'. sfmc_fib_del demo_sfmc 10 8 = Some (rc, s') \<and> rc = 0 \<and> fib_list s' = [] \<and> fibs s' 7 = None \<and>
    sfmc_fib_find_exact s' 10 8 = Some None"
  using route_deleted [OF demo_sfmc_ok, of 8 10] unfolding demo_exact_old by (auto simp: demo_sfmc_def)

section \<open>The locator table\<close>

text \<open>Property C13: the locator table refines a finite map from identifiers to entries. Adding
  binds an unbound identifier, unless no memory is left (\<^verbatim>\<open>-ENOMEM\<close>), and an identifier that is bound
  is refused with \<^verbatim>\<open>-EEXIST\<close>;
  deleting unbinds it or reports \<^verbatim>\<open>-ENOENT\<close>; a lookup reads the map; and a failed call
  changes nothing.\<close>

theorem locator_table_refines_map:
  assumes ok: "sfmc_ok hash (netdev_get_sfmc w d)"
  shows "llt_map (sfmc_listing d (snd (sfmc_llt_entry_add hash d oe w))) =
      (if fst (sfmc_llt_entry_add hash d oe w) = 0 then (llt_map (sfmc_listing d w))(oe_id oe \<mapsto> oe) else llt_map (sfmc_listing d w)) \<and>
    fst (sfmc_llt_entry_add hash d oe w) = (if oe_id oe \<in> dom (llt_map (sfmc_listing d w)) then - EEXIST
      else if table_mem (netdev_get_sfmc w d) = 0 then - ENOMEM else 0) \<and>
    llt_map (sfmc_listing d (snd (sfmc_llt_entry_del hash d oe w))) = (llt_map (sfmc_listing d w))(oe_id oe := None) \<and>
    fst (sfmc_llt_entry_del hash d oe w) = (if oe_id oe \<in> dom (llt_map (sfmc_listing d w)) then 0 else - ENOENT) \<and>
    map_option st_oe (sfmc_table_find hash (netdev_get_sfmc w d) i) = llt_map (sfmc_listing d w) i"
proof -
  have inv: "sfmc_inv hash d w" using sfmc_okD(1) [OF ok] by (simp add: sfmc_inv_table_ok)
  have find: "map_option st_oe (sfmc_table_find hash (netdev_get_sfmc w d) i) = llt_map (sfmc_listing d w) i" for i
  proof (cases "sfmc_table_find hash (netdev_get_sfmc w d) i")
    case None
    then have "llt_map (sfmc_listing d w) i = None" using find_None_listing [OF inv, of i] unfolding llt_map_None by blast
    with None show ?thesis by simp
  next
    case (Some st)
    have "st_oe st \<in> set (sfmc_listing d w)" "st_id st = i"
      using table_find_ok [OF ok Some] by (auto simp: sfmc_listing_def)
    then have "llt_map (sfmc_listing d w) i = Some (st_oe st)" using llt_map_Some [OF sfmc_llt.table_map [OF inv]] by blast
    with Some show ?thesis by simp
  qed
  have "fst (sfmc_llt_entry_add hash d oe w) = (if oe_id oe \<in> dom (llt_map (sfmc_listing d w)) then - EEXIST
      else if table_mem (netdev_get_sfmc w d) = 0 then - ENOMEM else 0)"
    by (simp add: dom_def find [symmetric] sfmc_llt_entry_add_def sfmc_table_add_def Let_def split: option.split)
  with find sfmc_llt.add_refines [OF inv, of oe] sfmc_llt.del_refines [OF inv, of oe] show ?thesis by blast
qed

lemma demo_world_ok: "sfmc_ok demo_hash (netdev_get_sfmc demo_world d)"
  using demo_sfmc_ok by (simp add: demo_world_def)

lemma demo_listing: "sfmc_listing d demo_world = [demo_entry]"
  by (simp add: sfmc_listing_def demo_world_def demo_sfmc_def demo_buckets)

theorem locator_table_refines_map_witness:
  "fst (sfmc_llt_entry_add demo_hash 1 demo_entry demo_world) = - EEXIST \<and>
   fst (sfmc_llt_entry_add demo_hash 1 (demo_entry\<lparr>oe_id := 6\<rparr>) demo_world) = 0 \<and>
   llt_map (sfmc_listing 1 (snd (sfmc_llt_entry_add demo_hash 1 (demo_entry\<lparr>oe_id := 6\<rparr>) demo_world))) =
     [5 \<mapsto> demo_entry, 6 \<mapsto> demo_entry\<lparr>oe_id := 6\<rparr>] \<and>
   llt_map (sfmc_listing 1 (snd (sfmc_llt_entry_del demo_hash 1 demo_entry demo_world))) = Map.empty"
proof -
  have m: "llt_map (sfmc_listing 1 demo_world) = [5 \<mapsto> demo_entry]" "oe_id demo_entry = 5"
    by (simp_all add: demo_listing llt_map_def demo_entry_def)
  have t: "table_mem (netdev_get_sfmc demo_world 1) \<noteq> 0" by (simp add: demo_world_def demo_sfmc_def sfmc_zero_def)
  show ?thesis
    using locator_table_refines_map [OF demo_world_ok, of 1 demo_entry]
      locator_table_refines_map [OF demo_world_ok, of 1 "demo_entry\<lparr>oe_id := 6\<rparr>"] t m by simp
qed

text \<open>\<^verbatim>\<open>sfmc_llt_cfg\<close> compares one byte of the old and the new configuration (the
  lowest of the object number), so a new offset, length, protocol or source address for a device
  that has been configured is accepted and ignored.\<close>

lemma reconfiguration_ignored:
  assumes "obj_id (oc_obj (sfmc_oc (netdev_get_sfmc w d))) = MADCAP_OBJ_ID_LLT_CONFIG"
    "obj_id (oc_obj oc) = MADCAP_OBJ_ID_LLT_CONFIG"
  shows "sfmc_llt_cfg d oc w = (0, w)"
proof -
  have "take 1 (enc_config c) = take 1 (le_bytes 4 (obj_id (oc_obj c)))" for c
    by (simp add: enc_config_def enc_obj_def)
  with assms show ?thesis by (simp add: sfmc_llt_cfg_def Let_def)
qed

lemma reconfiguration_ignored_witness:
  "\<exists>w. sfmc_llt_config_get 1 w = Some (zero_config\<lparr>oc_obj := \<lparr>obj_id = 1, tb_id = 0\<rparr>\<rparr>) \<and>
    sfmc_llt_cfg 1 (zero_config\<lparr>oc_obj := \<lparr>obj_id = 1, tb_id = 0\<rparr>, oc_length := 24\<rparr>) w = (0, w)"
proof -
  let ?w = "put_sfmc demo_world 1 (demo_sfmc\<lparr>sfmc_oc := zero_config\<lparr>oc_obj := \<lparr>obj_id = 1, tb_id = 0\<rparr>\<rparr>\<rparr>)"
  have "sfmc_llt_cfg 1 (zero_config\<lparr>oc_obj := \<lparr>obj_id = 1, tb_id = 0\<rparr>, oc_length := 24\<rparr>) ?w = (0, ?w)"
    by (rule reconfiguration_ignored) simp_all
  then show ?thesis by (intro exI [of _ ?w]) (simp add: sfmc_llt_config_get_def)
qed

section \<open>Packets\<close>

text \<open>Property C35: the outer checksum is the Internet checksum: the complement, in network order,
  of the one's complement sum of the big-endian 16-bit words.\<close>

theorem ipchecksum_is_internet_checksum:
  "ipchecksum bs 0 = htons (word_of_nat (65535 - ones_reduce (be_sum bs)))"
  by (rule checksum_value)

text \<open>The identifier of a packet is the field of \<^verbatim>\<open>length\<close> bits the configuration
  names, so it is below \<open>2 ^ length\<close>; a packet that ends before the 64-bit word at the offset is
  read past its end.\<close>

lemma identifier_field:
  "extract_id_from_packet pkt oc =
     (if length pkt < unat (oc_offset oc) + 8 then None
      else Some (drop_bit (64 - unat (oc_length oc)) (le_word (take 8 (drop (unat (oc_offset oc)) pkt))))) \<and>
   (\<forall>i. extract_id_from_packet pkt oc = Some i \<longrightarrow> unat i < 2 ^ unat (oc_length oc))"
proof (cases "length pkt < unat (oc_offset oc) + 8")
  case True
  then have "extract_id_from_packet pkt oc = None" by (simp add: extract_id_none)
  with True show ?thesis by simp
next
  case False
  let ?w = "le_word (take 8 (drop (unat (oc_offset oc)) pkt)) :: u64"
  have e: "extract_id_from_packet pkt oc = Some (drop_bit (64 - unat (oc_length oc)) ?w)"
    by (rule extract_id_some) (use False in simp)
  have "unat (drop_bit (64 - unat (oc_length oc)) ?w) < 2 ^ unat (oc_length oc)"
  proof (cases "unat (oc_length oc) \<le> 64")
    case True
    have "unat ?w < 2 ^ (unat (oc_length oc) + (64 - unat (oc_length oc)))"
      using True unsigned_less [of ?w, where 'a = nat] by simp
    moreover have "unat (drop_bit k ?w) = unat ?w div 2 ^ k" for k by (metis unat_drop_bit_eq drop_bit_eq_div)
    ultimately show ?thesis by (simp only: power_add) (rule less_mult_imp_div_less)
  next
    case False
    have "unat ?w < 2 ^ 64" using unsigned_less [of ?w, where 'a = nat] by simp
    also have "(2 :: nat) ^ 64 \<le> 2 ^ unat (oc_length oc)" using False by (intro power_increasing) simp_all
    finally show ?thesis using False by simp
  qed
  with e False show ?thesis by simp
qed

lemma identifier_field_witness:
  "\<exists>i. extract_id_from_packet (replicate 16 255) (zero_config\<lparr>oc_offset := 4, oc_length := 24\<rparr>) = Some i \<and> unat i < 2 ^ 24"
  using identifier_field [of "replicate 16 255" "zero_config\<lparr>oc_offset := 4, oc_length := 24\<rparr>"] by simp

text \<open>A packet whose locator entry and route are known and whose neighbour is valid is encapsulated. The
  route is the one the entry remembers, or else the best one.\<close>

lemma encap_runs:
  assumes ok: "sfmc_ok (se_hash env) (netdev_get_sfmc w d)" and en: "madcap_enable env"
    and acq: "skb_dst skb = Some v" "Some v \<in> set (sfmc_vdev (netdev_get_sfmc w d))"
    and i: "extract_id_from_packet (skb_data skb) (sfmc_oc (netdev_get_sfmc w d)) = Some i"
    and st: "encap_lookup (se_hash env) (netdev_get_sfmc w d) i = Some st"
    and rt: "st_fib st = Some sfa \<or> st_fib st = None \<and> best_route (netdev_get_sfmc w d) (oe_dst (st_oe st)) sfa"
      "fibs (netdev_get_sfmc w d) sfa = Some sf"
    and up: "sf_scope sf = RT_SCOPE_LINK \<longrightarrow> sf_gateway sf = oe_dst (st_oe st)" "sf_nud sf AND NUD_VALID \<noteq> 0"
  shows "\<exists>w'. sfmc_encap_packet env skb d w = Some (0, skb\<lparr>skb_data :=
      encap_headers (netdev_get_sfmc w d) (perm_addr env d) (oe_dst (st_oe st)) (sf_mac sf) (skb_data skb)\<rparr>, w') \<and>
    sfmc_ok (se_hash env) (netdev_get_sfmc w' d)"
proof -
  let ?s = "netdev_get_sfmc w d" and ?h = "se_hash env"
  obtain n where n: "first_slot (Some v) (sfmc_vdev ?s) = Some n" using first_slot_in [OF acq(2)] by blast
  obtain j where "sfmc_table_find ?h ?s j = Some st" using encap_lookup_find [OF st] by blast
  from encap_route_ok [OF ok this] obtain fib s' where r: "encap_route ?h ?s st = Some (fib, s')" "sfmc_ok ?h s'" "fibs s' = fibs ?s" by blast
  have fib: "fib = Some sfa" and cfg: "sfmc_ou s' = sfmc_ou ?s" "sfmc_oc s' = sfmc_oc ?s"
    using r(1) find_best_route [OF sfmc_okD(3) [OF ok], of "oe_dst (st_oe st)"] rt(1)
    by (auto simp: encap_route_def Let_def)
  have hd: "encap_headers s' = encap_headers ?s" using cfg by (intro ext) (simp add: encap_headers_def)
  have "sfmc_encap_packet env skb d w = Some (0, skb\<lparr>skb_data :=
      encap_headers ?s (perm_addr env d) (oe_dst (st_oe st)) (sf_mac sf) (skb_data skb)\<rparr>, put_sfmc w d s')"
    using en acq(1) n i st r(1,3) fib rt(2) up hd by (auto simp: sfmc_encap_packet_def encap_body_def encap_found_def)
  with r(2) show ?thesis by auto
qed

text \<open>Property C7: a packet from a device that acquired this one, whose identifier (or the default
  identifier 0) has a locator entry, whose route (the one the entry remembers, or else the best
  one) is not a connected one waiting for its host route, and whose neighbour is valid, leaves
  as an Ethernet frame from the device to the route's gateway with one IPv4 packet of the
  configured protocol from the configured source to the locator: type, lengths, time to live and
  header checksum are right, and behind the headers is, when UDP is enabled, a datagram with the
  configured source and destination ports around the original packet, and otherwise the original
  packet itself. (The packet has head room for the headers.)\<close>

theorem packet_delivered:
  assumes ok: "sfmc_ok (se_hash env) (netdev_get_sfmc w d)" and en: "madcap_enable env"
    and acq: "skb_dst skb = Some v" "Some v \<in> set (sfmc_vdev (netdev_get_sfmc w d))"
    and i: "extract_id_from_packet (skb_data skb) (sfmc_oc (netdev_get_sfmc w d)) = Some i"
    and st: "encap_lookup (se_hash env) (netdev_get_sfmc w d) i = Some st"
    and rt: "st_fib st = Some sfa \<or> st_fib st = None \<and> best_route (netdev_get_sfmc w d) (oe_dst (st_oe st)) sfa"
      "fibs (netdev_get_sfmc w d) sfa = Some sf"
    and up: "sf_scope sf = RT_SCOPE_LINK \<longrightarrow> sf_gateway sf = oe_dst (st_oe st)" "sf_nud sf AND NUD_VALID \<noteq> 0"
    and mac: "length (perm_addr env d) = 6" "length (sf_mac sf) = 6"
  shows "\<exists>skb' w' seg. sfmc_encap_packet env skb d w = Some (0, skb', w') \<and> sfmc_ok (se_hash env) (netdev_get_sfmc w' d) \<and>
    skb_dst skb' = skb_dst skb \<and>
    ipv4_frame (sf_mac sf) (perm_addr env d) (oc_proto (sfmc_oc (netdev_get_sfmc w d))) (oc_src (sfmc_oc (netdev_get_sfmc w d)))
      (oe_dst (st_oe st)) seg (skb_data skb') \<and>
    (if encap_enable (sfmc_ou (netdev_get_sfmc w d)) \<noteq> 0
     then udp_datagram (src_port (sfmc_ou (netdev_get_sfmc w d))) (dst_port (sfmc_ou (netdev_get_sfmc w d))) (skb_data skb) seg
     else seg = skb_data skb) \<and>
    drop (overhead (netdev_get_sfmc w d)) (skb_data skb') = skb_data skb \<and>
    ipchecksum (take 20 (drop 14 (skb_data skb'))) 0 = 0"
  using encap_runs [OF ok en acq i st rt up] encap_headers_frame [OF mac, of "netdev_get_sfmc w d" "oe_dst (st_oe st)" "skb_data skb"]
    encap_headers_parts(2) [OF mac] encap_headers_ip(1) [OF mac]
  by fastforce

lemma demo_key_len: "length demo_key = 8"
  by (simp add: demo_key_def)

lemma demo_key_len_le: "(8 :: nat) \<le> 32"
  by simp

lemma demo_best: "best_route demo_sfmc 0x0302010A 7"
proof -
  have k: "fib_key demo_route = demo_key" using demo_key_of by (simp add: fib_key_def demo_route_def)
  have "take 8 (addr_bits (be32_bytes 0x0302010A)) = demo_key" by code_simp
  then have "matches 32 (addr_bits (be32_bytes 0x0302010A)) (fib_key demo_route)"
    unfolding k matches_def by (metis demo_key_len demo_key_len_le)
  then show ?thesis by (auto simp: best_route_def route_matches_def demo_sfmc_def)
qed

abbreviation demo_skb :: sk_buff where
  "demo_skb \<equiv> \<lparr>skb_dst = Some 9, skb_data = [5, 0, 0, 0, 0, 0, 0, 0, 1, 2, 3]\<rparr>"

definition demo_cfg :: sfmc_world where
  "demo_cfg = put_sfmc demo_world 1 (demo_sfmc\<lparr>sfmc_oc := zero_config\<lparr>oc_length := 64, oc_src := 1\<rparr>\<rparr>)"

text \<open>The same with UDP: protocol 17, and the ports 7 and 4790 in network order.\<close>

definition demo_udp :: sfmc_world where
  "demo_udp = put_sfmc demo_world 1 (demo_sfmc\<lparr>sfmc_oc := zero_config\<lparr>oc_length := 64, oc_proto := 17, oc_src := 1\<rparr>,
     sfmc_ou := zero_udp\<lparr>encap_enable := 1, src_port := htons 7, dst_port := htons 4790\<rparr>\<rparr>)"

lemma demo_udp_ok: "sfmc_ok demo_hash (netdev_get_sfmc demo_udp 1)"
  unfolding demo_udp_def
  by (simp, rule sfmc_ok_table [OF demo_sfmc_ok])
    (use sfmc_okD [OF demo_sfmc_ok] in \<open>simp_all add: vdev_ok_def table_ok_def cache_ok_def\<close>)

lemma demo_cfg_ok: "sfmc_ok demo_hash (netdev_get_sfmc demo_cfg 1)"
  unfolding demo_cfg_def
  by (simp, rule sfmc_ok_table [OF demo_sfmc_ok])
    (use sfmc_okD [OF demo_sfmc_ok] in \<open>simp_all add: vdev_ok_def table_ok_def cache_ok_def\<close>)

theorem packet_delivered_witness:
  "\<exists>skb' w' seg. sfmc_encap_packet demo_env demo_skb 1 demo_udp = Some (0, skb', w') \<and>
    ipv4_frame [2, 0, 0, 0, 0, 1] [2, 0, 0, 0, 0, 9] 17 1 0x0302010A seg (skb_data skb') \<and>
    udp_datagram (htons 7) (htons 4790) [5, 0, 0, 0, 0, 0, 0, 0, 1, 2, 3] seg"
proof -
  let ?s = "netdev_get_sfmc demo_udp 1"
  have s: "sfmc_ok (se_hash demo_env) ?s" "Some 9 \<in> set (sfmc_vdev ?s)" "encap_enable (sfmc_ou ?s) \<noteq> 0"
    using demo_udp_ok by (simp_all add: demo_env_def demo_udp_def demo_sfmc_def numeral_nat replicate_Suc)
  have i: "extract_id_from_packet (skb_data demo_skb) (sfmc_oc ?s) = Some 5"
    by (simp add: demo_udp_def extract_id_from_packet_def read_bytes_def zero_config_def dec_config_def field_def) code_simp
  have l: "encap_lookup (se_hash demo_env) ?s 5 = Some \<lparr>st_oe = demo_entry, st_fib = None\<rparr>"
    by (simp add: demo_env_def demo_udp_def encap_lookup_def sfmc_table_find_def sfmc_table_head_def demo_sfmc_def demo_hash_def
        demo_entry_def nth_list_update)
  have b: "best_route ?s (oe_dst demo_entry) 7" "fibs ?s 7 = Some demo_route"
    using demo_best by (simp_all add: best_route_def route_matches_def demo_udp_def demo_entry_def demo_sfmc_def)
  show ?thesis
    using packet_delivered [OF s(1) _ _ s(2) i l _ b(2)] b(1) s(3)
    by (simp add: demo_env_def demo_route_def demo_udp_def demo_entry_def) blast
qed

text \<open>A packet that is not encapsulated leaves as it came: when madcap is off or the
  packet is not from an acquiring device the driver returns 0, and when the locator, the route
  or the neighbour is missing it returns \<^verbatim>\<open>-ENOENT\<close>; only these two values are returned.\<close>

lemma packet_refused_unchanged:
  assumes run: "sfmc_encap_packet env skb d w = Some (rc, skb', w')"
  shows "rc \<in> {0, - ENOENT} \<and> skb_dst skb' = skb_dst skb \<and> (rc = - ENOENT \<longrightarrow> skb' = skb) \<and>
    (\<not> madcap_enable env \<or> skb_dst skb = None \<or> (\<exists>v. skb_dst skb = Some v \<and> Some v \<notin> set (sfmc_vdev (netdev_get_sfmc w d)))
      \<longrightarrow> rc = 0 \<and> skb' = skb \<and> w' = w)"
proof -
  have found: "rc \<in> {0, - ENOENT} \<and> skb_dst k = skb_dst skb \<and> (rc = - ENOENT \<longrightarrow> k = skb)"
    if "encap_found env skb d s st x = Some (rc, k, s')" for s st x k s' rc
    using that by (auto simp: encap_found_def bind_eq_Some_conv split: if_splits)
  have body: "rc \<in> {0, - ENOENT} \<and> skb_dst k = skb_dst skb \<and> (rc = - ENOENT \<longrightarrow> k = skb)"
    if "encap_body env skb d s = Some (rc, k, s')" for s k s' rc
    using that by (auto simp: encap_body_def bind_eq_Some_conv split: option.splits dest: found)
  show ?thesis
    using run by (auto simp: sfmc_encap_packet_def bind_eq_Some_conv split: if_splits option.splits dest: first_slot_mem body)
qed

lemma packet_refused_unchanged_witness:
  "sfmc_encap_packet (demo_env\<lparr>madcap_enable := False\<rparr>) demo_skb 1 demo_cfg = Some (0, demo_skb, demo_cfg) \<and> (0 :: int) \<in> {0, - ENOENT}"
proof -
  have r: "sfmc_encap_packet (demo_env\<lparr>madcap_enable := False\<rparr>) demo_skb 1 demo_cfg = Some (0, demo_skb, demo_cfg)"
    by (simp add: sfmc_encap_packet_def)
  with packet_refused_unchanged [OF r] show ?thesis by simp
qed

section \<open>Neighbours\<close>

lemma neigh_update_values:
  "distinct xs \<Longrightarrow> neigh_update_loop xs ip n s = Some s' \<Longrightarrow>
    fib_list s' = fib_list s \<and> (\<forall>x. fibs s' x = (if x \<in> set xs
      then map_option (\<lambda>sf. if sf_gateway sf = ip then sf\<lparr>sf_mac := take 6 (n_ha n), sf_nud := n_nud n\<rparr> else sf) (fibs s x)
      else fibs s x))"
proof (induction xs arbitrary: s)
  case (Cons y ys)
  obtain sf where sf: "fibs s y = Some sf" using Cons.prems(2) by (auto simp: bind_eq_Some_conv)
  define s1 where "s1 = (if sf_gateway sf = ip then s\<lparr>fibs := (fibs s)(y \<mapsto> sf\<lparr>sf_mac := take 6 (n_ha n), sf_nud := n_nud n\<rparr>)\<rparr> else s)"
  have "neigh_update_loop ys ip n s1 = Some s'"
    using Cons.prems(2) sf by (simp add: s1_def sfmc_neigh_write_def split: if_splits)
  from Cons.IH [OF _ this] Cons.prems(1) have IH: "fib_list s' = fib_list s1" "\<forall>x. fibs s' x = (if x \<in> set ys
      then map_option (\<lambda>sf. if sf_gateway sf = ip then sf\<lparr>sf_mac := take 6 (n_ha n), sf_nud := n_nud n\<rparr> else sf) (fibs s1 x)
      else fibs s1 x)" by simp_all
  have f1: "fibs s1 x = (if x = y then Some (if sf_gateway sf = ip then sf\<lparr>sf_mac := take 6 (n_ha n), sf_nud := n_nud n\<rparr> else sf)
      else fibs s x)" for x using sf by (simp add: s1_def)
  have l1: "fib_list s1 = fib_list s" by (simp add: s1_def)
  show ?case using IH f1 l1 sf Cons.prems(1) by simp
qed simp

text \<open>A change of a neighbour reaches every route whose gateway it is, and no other route;
  events for other tables or other drivers' devices change nothing.\<close>

lemma neighbour_event_reaches_routes:
  assumes ok: "sfmc_ok hash (netdev_get_sfmc w d)"
  shows "\<exists>w'. sfmc_neigh_update_event upd arp ours d ip n w = Some w' \<and> sfmc_ok hash (netdev_get_sfmc w' d) \<and>
    (\<forall>x \<in> set (fib_list (netdev_get_sfmc w d)). fibs (netdev_get_sfmc w' d) x =
      map_option (\<lambda>sf. if upd \<and> arp \<and> ours \<and> sf_gateway sf = ip then sf\<lparr>sf_mac := take 6 (n_ha n), sf_nud := n_nud n\<rparr> else sf)
        (fibs (netdev_get_sfmc w d) x))"
proof (cases "upd \<and> arp \<and> ours")
  case True
  let ?s = "netdev_get_sfmc w d"
  obtain s' where s': "neigh_update_loop (fib_list ?s) ip n ?s = Some s'" "sfmc_ok hash s'"
    using neigh_update_ok [OF ok order_refl, of ip n] by blast
  have "distinct (fib_list ?s)" using sfmc_okD(3) [OF ok] by (simp add: fib_inv_def)
  from neigh_update_values [OF this s'(1)] True s' show ?thesis
    by (auto simp: sfmc_neigh_update_event_def sfmc_neigh_update_def)
next
  case False
  have "map_option (\<lambda>sf. if upd \<and> arp \<and> ours \<and> sf_gateway sf = ip then sf\<lparr>sf_mac := take 6 (n_ha n), sf_nud := n_nud n\<rparr> else sf) z = z" for z :: "sfmc_fib option"
    using False by (cases z) auto
  moreover have "sfmc_neigh_update_event upd arp ours d ip n w = Some w" using False by (auto simp: sfmc_neigh_update_event_def)
  ultimately show ?thesis using ok by simp
qed

lemma neighbour_event_reaches_routes_witness:
  "\<exists>w'. sfmc_neigh_update_event True True True 1 0x0100000A \<lparr>n_ha = [1, 1, 1, 1, 1, 1], n_nud = 4\<rparr> demo_world = Some w' \<and>
    fibs (netdev_get_sfmc w' 1) 7 = Some (demo_route\<lparr>sf_mac := [1, 1, 1, 1, 1, 1], sf_nud := 4\<rparr>)"
proof -
  have f: "7 \<in> set (fib_list (netdev_get_sfmc demo_world 1))" "fibs (netdev_get_sfmc demo_world 1) 7 = Some demo_route"
    by (simp_all add: demo_world_def demo_sfmc_def)
  have g: "sf_gateway demo_route = 0x0100000A" by (simp add: demo_route_def)
  obtain w' where w': "sfmc_neigh_update_event True True True 1 0x0100000A \<lparr>n_ha = [1, 1, 1, 1, 1, 1], n_nud = 4\<rparr> demo_world = Some w'"
    "\<forall>x \<in> set (fib_list (netdev_get_sfmc demo_world 1)). fibs (netdev_get_sfmc w' 1) x =
      map_option (\<lambda>sf. if True \<and> True \<and> True \<and> sf_gateway sf = 0x0100000A then sf\<lparr>sf_mac := take 6 (n_ha \<lparr>n_ha = [1, 1, 1, 1, 1, 1], n_nud = 4\<rparr>),
          sf_nud := n_nud \<lparr>n_ha = [1, 1, 1, 1, 1, 1], n_nud = 4\<rparr>\<rparr> else sf)
        (fibs (netdev_get_sfmc demo_world 1) x)"
    using neighbour_event_reaches_routes [OF demo_world_ok [of 1], where upd = True and arp = True and ours = True and ip = "0x0100000A"
      and n = "\<lparr>n_ha = [1, 1, 1, 1, 1, 1], n_nud = 4\<rparr>"]
    by blast
  from bspec [OF w'(2) f(1)] f(2) g have "fibs (netdev_get_sfmc w' 1) 7 = Some (demo_route\<lparr>sf_mac := [1, 1, 1, 1, 1, 1], sf_nud := 4\<rparr>)"
    by simp
  with w'(1) show ?thesis by blast
qed

section \<open>Removal of a device\<close>

text \<open>Removing a device frees its locator entries and routes and takes it out of the
  madcap registry, when no work is queued; with work queued the kernel crashes, because the
  works run after the routing tree they search has been freed. In either case the module's
  only neighbour notifier is gone, also for its other devices.\<close>

lemma exit_releases_device:
  assumes ok: "sfmc_ok hash (netdev_get_sfmc w d)" and wf: "madnet_wf net"
  shows "if sfmc_wq (netdev_get_sfmc w d) \<noteq> [] then sfmc_exit env d net w = None
    else \<exists>net' w'. sfmc_exit env d net w = Some (0, net', w') \<and> \<not> netevent_registered w' \<and>
      fib_list (netdev_get_sfmc w' d) = [] \<and> (\<forall>x \<in> set (fib_list (netdev_get_sfmc w d)). fibs (netdev_get_sfmc w' d) x = None) \<and>
      (madcap_enable env \<longrightarrow> get_madcap_ops net' = (get_madcap_ops net)(d := None))"
proof -
  let ?s = "sfmc_table_destroy (netdev_get_sfmc w d)"
  have ok': "sfmc_ok hash ?s" using ok by (rule destroy_table_ok)
  have l: "fib_list ?s = fib_list (netdev_get_sfmc w d)" "sfmc_wq ?s = sfmc_wq (netdev_get_sfmc w d)"
    by (simp_all add: sfmc_table_destroy_def)
  obtain s' where s': "fib_destroy_loop (fib_list ?s) ?s = Some s'" "fib_list s' = []" "sfmc_wq s' = sfmc_wq ?s"
      "\<forall>x. fibs s' x = (if x \<in> set (fib_list ?s) then None else fibs ?s x)"
    using fib_destroy_loop_spec [OF sfmc_okD(3) [OF ok'] refl sfmc_okD(4) [OF ok']] by blast
  obtain rc net' where u: "madcap_unregister_device net d = (rc, net')" by fastforce
  have "get_madcap_ops net' = (get_madcap_ops net)(d := None)" using unregister_spec [OF wf u] by auto
  then show ?thesis
    using s' l u by (auto simp: sfmc_exit_def sfmc_fib_destroy_def drain_after_free_def put_sfmc_def)
qed

lemma demo_net_wf: "madnet_wf (madcap_init_net :: sfmc_world madcap_net)"
  by (simp add: madnet_wf_def madcap_init_net_def slot_simps)

lemma exit_releases_device_witness:
  "\<exists>net' w'. sfmc_exit demo_env 1 madcap_init_net demo_world = Some (0, net', w') \<and> \<not> netevent_registered w' \<and>
    fib_list (netdev_get_sfmc w' 1) = [] \<and> fibs (netdev_get_sfmc w' 1) 7 = None"
proof -
  have "sfmc_wq (netdev_get_sfmc demo_world 1) = []" "fib_list (netdev_get_sfmc demo_world 1) = [7]"
    by (simp_all add: demo_world_def demo_sfmc_def sfmc_zero_def)
  with exit_releases_device [OF demo_world_ok [of 1] demo_net_wf, of demo_env] show ?thesis by auto
qed

section \<open>Unconfigured devices\<close>

text \<open>A device that has not been configured answers a configuration dump with an object whose tag is
  zero, which the core refuses to send: the dump fails at the first such device.\<close>

lemma unconfigured_dump_fails:
  assumes "sfmc_oc (netdev_get_sfmc w d) = zero_config" "hdr_fits env skb"
  shows "\<exists>oc. sfmc_llt_config_get d w = Some oc \<and> genl_madcap_obj_send env skb cmd (Config oc) ifindex = (- 1, skb)"
  using assms by (simp add: sfmc_llt_config_get_def genl_madcap_obj_send_def)

end
