(* ===== verification/Sfmc_Connected.thy ===== *)
theory Sfmc_Connected
  imports Sfmc_Props
begin

text \<open>
  Destinations behind a connected route in \<^verbatim>\<open>sfmc.c\<close>. The first packet queues a work that should
  install a host route; but the locator entry remembers the connected route, so that the host route
  is never looked at. The theory also has the facts on host routes that the e1000 copy, which
  remembers no route, shares.
\<close>

section \<open>Frames of the operations\<close>

lemma insert_frame:
  assumes "sfmc_fib_insert s y = Some (r, s')" "fibs s y = Some g"
  shows "sfmc_buckets s' = sfmc_buckets s" "set (fib_list s) \<subseteq> set (fib_list s')" "\<exists>g'. fibs s' y = Some g' \<and> sf_scope g' = sf_scope g \<and> sf_gateway g' = sf_gateway g"
    "\<forall>z. z \<noteq> y \<longrightarrow> fibs s' z = fibs s z"
  using assms by (auto simp: sfmc_fib_insert_def bind_eq_Some_conv split: option.splits prod.splits)

lemma resolve_frame:
  assumes "sfmc_neigh_resolve env d s y = Some (rc, s')"
  shows "sfmc_buckets s' = sfmc_buckets s" "fib_list s' = fib_list s"
proof -
  obtain sf where sf: "fibs s y = Some sf" using assms by (auto simp: sfmc_neigh_resolve_def bind_eq_Some_conv)
  show "sfmc_buckets s' = sfmc_buckets s" "fib_list s' = fib_list s"
    using assms unfolding resolve_run [of s y sf env d, OF sf]
    by (cases "neighbour_of env d (sf_gateway sf)"; auto split: if_splits)+
qed

text \<open>Resolving changes the hardware address and the neighbour state of its route, and nothing else of the
  tables.\<close>

lemma resolve_touches:
  assumes "fibs s a = Some sf"
  obtains rc s' g where "sfmc_neigh_resolve env d s a = Some (rc, s')" "fibs s' = (fibs s)(a \<mapsto> g)"
    "fib_key g = fib_key sf" "sf_len g = sf_len sf" "fib_list s' = fib_list s" "sfmc_buckets s' = sfmc_buckets s"
    "sfmc_wq s' = sfmc_wq s" "sfmc_oc s' = sfmc_oc s" "sfmc_vdev s' = sfmc_vdev s" "sfmc_mem s' = sfmc_mem s"
proof (cases "neighbour_of env d (sf_gateway sf)")
  case None
  then show thesis using that [of 1 s sf] resolve_run [OF assms, of env d] assms by (simp add: map_upd_triv)
next
  case (Some n)
  let ?g = "sf\<lparr>sf_mac := take 6 (n_ha n), sf_nud := n_nud n\<rparr>"
  show thesis
  proof (cases "n_nud n AND NUD_VALID \<noteq> 0")
    case True
    with Some show thesis using that [of 0 "s\<lparr>fibs := (fibs s)(a \<mapsto> ?g)\<rparr>" ?g] resolve_run [OF assms, of env d] by (simp add: fib_key_def)
  next
    case False
    with Some show thesis using that [of 0 "s\<lparr>arp_probes := arp_probes s @ [sf_gateway sf]\<rparr>" sf] resolve_run [OF assms, of env d] assms
      by (simp add: map_upd_triv)
  qed
qed

section \<open>Host routes\<close>

lemma host_key: "fib_key (fresh_fib dst 32 gw scope) = addr_bits (be32_bytes dst)" "length (addr_bits (be32_bytes dst)) = 32"
  by (simp_all add: fib_key_def key_of_def dst2prefix_def be32_bytes_def)

lemma no_host_route:
  assumes inv: "fib_inv s" and best: "best_route s dst x" "fibs s x = Some sf" "sf_len sf < 32"
  shows "\<not> has_route s (addr_bits (be32_bytes dst))"
proof
  assume "has_route s (addr_bits (be32_bytes dst))"
  then obtain y g where y: "y \<in> set (fib_list s)" "fibs s y = Some g" "fib_key g = addr_bits (be32_bytes dst)"
    by (auto simp: has_route_def)
  have "sf_len g \<le> 32" using inv y(1,2) by (auto simp: fib_inv_def fib_live_def)
  then have "unat (sf_len g) = 32" using fib_key_length [of g] y(3) host_key(2) by simp
  moreover have "route_matches s dst y" using y host_key(2) by (auto simp: route_matches_def matches_def)
  then have "sf_len g \<le> sf_len sf" using best(1,2) y(2) unfolding best_route_def by blast
  ultimately show False using best(3) by (simp add: word_less_nat_alt word_le_nat_alt)
qed

lemma host_route_best:
  assumes inv: "fib_inv s" and a: "a \<in> set (fib_list s)" "fibs s a = Some g" "fib_key g = addr_bits (be32_bytes dst)" "sf_len g = 32"
  shows "best_route s dst a"
proof -
  have "route_matches s dst a" using a host_key(2) by (auto simp: route_matches_def matches_def)
  moreover have "sf_len f \<le> 32" if "route_matches s dst y" "fibs s y = Some f" for y f
    using inv that by (auto simp: fib_inv_def fib_live_def route_matches_def)
  ultimately show ?thesis using a(2,4) by (auto simp: best_route_def)
qed

text \<open>The work for a destination without a host route links one, with its neighbour's address.\<close>

lemma work_links_host_route:
  assumes inv: "fib_inv s" and a: "fibs s a = Some (fresh_fib dst 32 dst RT_SCOPE_LINK)" "a \<notin> set (fib_list s)"
    and wq: "sfmc_wq s = a # rest" and mem: "3 \<le> mem_left (sfmc_mem s)" and new: "\<not> has_route s (addr_bits (be32_bytes dst))"
    and nb: "ipv4_neigh_lookup env d dst = Some n" "n_nud n AND NUD_VALID \<noteq> 0"
  obtains s' g where "run_work env d s = Some s'" "fib_list s' = a # fib_list s" "fibs s' a = Some g"
    "fib_key g = addr_bits (be32_bytes dst)" "sf_len g = 32" "sf_gateway g = dst" "sf_mac g = take 6 (n_ha n)" "sf_nud g = n_nud n"
    "sfmc_buckets s' = sfmc_buckets s" "sfmc_oc s' = sfmc_oc s" "sfmc_ou s' = sfmc_ou s"
proof -
  let ?s = "s\<lparr>sfmc_wq := rest\<rparr>" and ?f = "fresh_fib dst 32 dst RT_SCOPE_LINK"
  have inv': "fib_inv ?s" using inv fib_inv_cong [of ?s s] by simp
  have new': "\<not> has_route ?s (fib_key ?f)" using new by (simp add: has_route_def host_key)
  obtain b pfx h T where i: "sfmc_fib_insert ?s a = Some (Some a, ?s\<lparr>sfmc_mem := h, fib_tree := T,
      fibs := (fibs ?s)(a \<mapsto> ?f\<lparr>sf_pn := Some b, sf_prefix := Some pfx\<rparr>), fib_list := a # fib_list ?s\<rparr>)"
    using fib_insert_new [OF inv' _ _ _ _ new', of a] a mem by auto
  let ?g = "?f\<lparr>sf_pn := Some b, sf_prefix := Some pfx, sf_mac := take 6 (n_ha n), sf_nud := n_nud n\<rparr>"
  let ?r = "?s\<lparr>sfmc_mem := h, fib_tree := T, fibs := (fibs ?s)(a \<mapsto> ?g), fib_list := a # fib_list ?s\<rparr>"
  have "run_work env d s = Some ?r"
    using wq i nb by (simp add: run_work_def sfmc_ll_neigh_work_def sfmc_neigh_resolve_def sfmc_neigh_write_def)
  moreover have "fib_key ?g = addr_bits (be32_bytes dst)"
    using host_key(1) [of dst RT_SCOPE_LINK dst] by (simp add: fib_key_def)
  ultimately show ?thesis using that [of ?r ?g] by simp
qed

text \<open>The work for any destination: without a host route it links one; with one, the object of the work
  is neither linked nor freed.\<close>

lemma host_work:
  assumes ok: "sfmc_ok hash s" and wq: "sfmc_wq s = a # rest" and a: "fibs s a = Some (fresh_fib dst 32 dst RT_SCOPE_LINK)"
    and mem: "3 \<le> mem_left (sfmc_mem s)"
  obtains s' g where "run_work env d s = Some s'" "sfmc_ok hash s'" "sfmc_wq s' = rest" "fibs s' = (fibs s)(a \<mapsto> g)"
    "fib_key g = addr_bits (be32_bytes dst)" "sfmc_buckets s' = sfmc_buckets s" "sfmc_oc s' = sfmc_oc s" "sfmc_vdev s' = sfmc_vdev s"
    "mem_left (sfmc_mem s) \<le> mem_left (sfmc_mem s') + 3"
    "fib_list s' = (if has_route s (addr_bits (be32_bytes dst)) then fib_list s else a # fib_list s)"
proof -
  let ?s = "s\<lparr>sfmc_wq := rest\<rparr>" and ?f = "fresh_fib dst 32 dst RT_SCOPE_LINK" and ?k = "addr_bits (be32_bytes dst)"
  have inv: "fib_inv ?s" using sfmc_okD(3) [OF ok] fib_inv_cong [of ?s s] by simp
  have new: "a \<notin> set (fib_list s)" using sfmc_okD(5) [OF ok] wq by (simp add: wq_ok_def queued_ok_def)
  have h: "has_route ?s (fib_key ?f) \<longleftrightarrow> has_route s ?k" by (simp add: has_route_def host_key)
  have "\<exists>y u f. sfmc_fib_insert ?s a = Some (Some y, u) \<and> fibs u = (fibs s)(a \<mapsto> f) \<and> fib_key f = ?k \<and>
      sfmc_wq u = rest \<and> sfmc_buckets u = sfmc_buckets s \<and> sfmc_oc u = sfmc_oc s \<and> sfmc_vdev u = sfmc_vdev s \<and>
      mem_left (sfmc_mem s) \<le> mem_left (sfmc_mem u) + 3 \<and> fib_list u = (if has_route s ?k then fib_list s else a # fib_list s)"
  proof (cases "has_route s ?k")
    case True
    then obtain y m where "sfmc_fib_insert ?s a = Some (Some y, ?s\<lparr>sfmc_mem := m\<rparr>)" "mem_left (sfmc_mem s) \<le> mem_left m + 3"
      using fib_insert_dup [OF inv, of a ?f] a mem h by auto
    then show ?thesis using True a host_key(1) by (intro exI [of _ y] exI [of _ "?s\<lparr>sfmc_mem := m\<rparr>"] exI [of _ ?f]) (simp add: map_upd_triv)
  next
    case False
    then obtain b pfx m T where "sfmc_fib_insert ?s a = Some (Some a, ?s\<lparr>sfmc_mem := m, fib_tree := T,
        fibs := (fibs ?s)(a \<mapsto> ?f\<lparr>sf_pn := Some b, sf_prefix := Some pfx\<rparr>), fib_list := a # fib_list ?s\<rparr>)"
        "mem_left (sfmc_mem s) \<le> mem_left m + 3"
      using fib_insert_new [OF inv, of a ?f] a mem h new by auto
    moreover have "fib_key (?f\<lparr>sf_pn := Some b, sf_prefix := Some pfx\<rparr>) = ?k"
      using host_key(1) [of dst RT_SCOPE_LINK dst] by (simp add: fib_key_def)
    ultimately show ?thesis using False by auto
  qed
  then obtain y u f where u: "sfmc_fib_insert ?s a = Some (Some y, u)" "fibs u = (fibs s)(a \<mapsto> f)" "fib_key f = ?k" "sfmc_wq u = rest"
      "sfmc_buckets u = sfmc_buckets s" "sfmc_oc u = sfmc_oc s" "sfmc_vdev u = sfmc_vdev s"
      "mem_left (sfmc_mem s) \<le> mem_left (sfmc_mem u) + 3" "fib_list u = (if has_route s ?k then fib_list s else a # fib_list s)" by blast
  have ua: "fibs u a = Some f" using u(2) by simp
  obtain rc s' g where r: "sfmc_neigh_resolve env d u a = Some (rc, s')" "fibs s' = (fibs u)(a \<mapsto> g)" "fib_key g = fib_key f"
      "fib_list s' = fib_list u" "sfmc_buckets s' = sfmc_buckets u" "sfmc_wq s' = sfmc_wq u" "sfmc_oc s' = sfmc_oc u"
      "sfmc_vdev s' = sfmc_vdev u" "sfmc_mem s' = sfmc_mem u"
    by (rule resolve_touches [OF ua, of env d])
  have run: "run_work env d s = Some s'" using wq u(1) r(1) by (simp add: run_work_def sfmc_ll_neigh_work_def)
  moreover have "sfmc_ok hash s'" using run_work_ok [OF ok mem, of env d] run by simp
  ultimately show thesis using that [of s' g] u(2-9) r(2-9) by simp
qed

section \<open>The trap\<close>

text \<open>A locator entry whose remembered route is a connected one for another host.\<close>

definition stuck :: "hash64 \<Rightarrow> u64 \<Rightarrow> addr \<Rightarrow> sfmc \<Rightarrow> bool" where
  "stuck hash i x s \<longleftrightarrow> (\<exists>st sf. sfmc_table_find hash s i = Some st \<and> st_fib st = Some x \<and> x \<in> set (fib_list s) \<and>
     fibs s x = Some sf \<and> sf_scope sf = RT_SCOPE_LINK \<and> sf_gateway sf \<noteq> oe_dst (st_oe st))"

text \<open>A packet for such an entry is refused and queues a new object for the destination.\<close>

lemma stuck_packet:
  assumes ok: "sfmc_ok (se_hash env) s" and i: "extract_id_from_packet (skb_data skb) (sfmc_oc s) = Some i"
    and t: "sfmc_table_find (se_hash env) s i = Some t" "st_fib t = Some x" "oe_dst (st_oe t) = dst"
    and x: "fibs s x = Some sf" "sf_scope sf = RT_SCOPE_LINK" "sf_gateway sf \<noteq> dst" "x \<in> set (fib_list s)" and mem: "1 \<le> mem_left (sfmc_mem s)"
  obtains a s' where "encap_body env skb d s = Some (- ENOENT, skb, s')" "sfmc_ok (se_hash env) s'" "fibs s a = None"
    "sfmc_wq s' = sfmc_wq s @ [a]" "fibs s' = (fibs s)(a \<mapsto> fresh_fib dst 32 dst RT_SCOPE_LINK)" "fib_list s' = fib_list s"
    "sfmc_buckets s' = sfmc_buckets s" "sfmc_oc s' = sfmc_oc s" "sfmc_vdev s' = sfmc_vdev s" "mem_left (sfmc_mem s) = Suc (mem_left (sfmc_mem s'))"
proof -
  note inv = sfmc_okD(3) [OF ok]
  let ?a = "brk (sfmc_mem s)" and ?f = "fresh_fib dst 32 dst RT_SCOPE_LINK"
  obtain h where c: "sfmc_fib_create s dst 32 dst RT_SCOPE_LINK = Some (?a, s\<lparr>sfmc_mem := h, fibs := (fibs s)(?a \<mapsto> ?f)\<rparr>)"
      "mem_left (sfmc_mem s) = Suc (mem_left h)"
    using fib_create_spec [OF inv, of dst 32 dst RT_SCOPE_LINK] mem by auto
  let ?s = "s\<lparr>sfmc_mem := h, fibs := (fibs s)(?a \<mapsto> ?f), sfmc_wq := sfmc_wq s @ [?a]\<rparr>"
  have look: "encap_lookup (se_hash env) s i = Some t" using t(1) by (simp add: encap_lookup_def)
  have found: "encap_found env skb d s t x = Some (- ENOENT, skb, ?s)" using x t(3) c(1) by (simp add: encap_found_def)
  have run: "encap_body env skb d s = Some (- ENOENT, skb, ?s)"
    using look i t(2) found by (simp add: encap_body_def encap_route_def)
  have "sfmc_ok (se_hash env) ?s" using encap_found_ok [OF ok x(4) mem, of env skb d t] found by simp
  then show thesis using that [of ?s ?a] run c(2) fresh_addr [OF inv] by simp
qed

text \<open>Packets handed to the driver (\<open>Some\<close>) and runs of the work queue (\<open>None\<close>), in any order, with the results
  for the packets.\<close>

fun conn_run :: "sfmc_env \<Rightarrow> addr \<Rightarrow> sk_buff option list \<Rightarrow> sfmc_world \<Rightarrow> (int list \<times> sfmc_world) option" where
  "conn_run env d [] w = Some ([], w)"
| "conn_run env d (Some skb # es) w = do {
     (rc, skb, w) \<leftarrow> sfmc_encap_packet env skb d w;
     (rcs, w) \<leftarrow> conn_run env d es w;
     Some (rc # rcs, w) }"
| "conn_run env d (None # es) w = do {
     s \<leftarrow> run_work env d (netdev_get_sfmc w d);
     conn_run env d es (put_sfmc w d s) }"

definition packets :: "sk_buff option list \<Rightarrow> nat" where
  "packets es = length (filter (\<lambda>e. e \<noteq> None) es)"

text \<open>How many works are queued after a sequence, from \<open>n\<close> queued ones.\<close>

fun pending :: "nat \<Rightarrow> sk_buff option list \<Rightarrow> nat" where
  "pending n [] = n"
| "pending n (Some skb # es) = pending (Suc n) es"
| "pending n (None # es) = pending (n - 1) es"

text \<open>An object that is allocated and neither linked nor queued: nothing frees it.\<close>

definition leaked :: "sfmc \<Rightarrow> addr \<Rightarrow> bool" where
  "leaked s a \<longleftrightarrow> fibs s a \<noteq> None \<and> a \<notin> set (fib_list s) \<and> a \<notin> set (sfmc_wq s)"

definition trapped :: "hash64 \<Rightarrow> u64 \<Rightarrow> sfmc_table \<Rightarrow> addr \<Rightarrow> sfmc_fib \<Rightarrow> addr list \<Rightarrow> sfmc \<Rightarrow> bool" where
  "trapped hash i t x sf as s \<longleftrightarrow> sfmc_ok hash s \<and> sfmc_table_find hash s i = Some t \<and> st_fib t = Some x \<and>
     x \<in> set (fib_list s) \<and> fibs s x = Some sf \<and> sf_scope sf = RT_SCOPE_LINK \<and> sf_gateway sf \<noteq> oe_dst (st_oe t) \<and>
     (\<forall>a \<in> set (sfmc_wq s). fibs s a = Some (fresh_fib (oe_dst (st_oe t)) 32 (oe_dst (st_oe t)) RT_SCOPE_LINK)) \<and>
     distinct as \<and> (\<forall>a \<in> set as. leaked s a)"

abbreviation host_bits :: "sfmc_table \<Rightarrow> bool list" where
  "host_bits t \<equiv> addr_bits (be32_bytes (oe_dst (st_oe t)))"

definition host_routes :: "sfmc_table \<Rightarrow> sfmc \<Rightarrow> nat" where
  "host_routes t s = (if has_route s (host_bits t) then 1 else 0)"

lemma trapped_packet:
  assumes tr: "trapped (se_hash env) i t x sf as s" and i: "extract_id_from_packet (skb_data skb) (sfmc_oc s) = Some i"
    and mem: "1 \<le> mem_left (sfmc_mem s)"
  obtains s' where "encap_body env skb d s = Some (- ENOENT, skb, s')" "trapped (se_hash env) i t x sf as s'"
    "length (sfmc_wq s') = Suc (length (sfmc_wq s))" "host_routes t s' = host_routes t s" "sfmc_oc s' = sfmc_oc s"
    "sfmc_vdev s' = sfmc_vdev s" "mem_left (sfmc_mem s) \<le> mem_left (sfmc_mem s') + 3"
proof -
  note T = tr [unfolded trapped_def]
  obtain a s' where p: "encap_body env skb d s = Some (- ENOENT, skb, s')" "sfmc_ok (se_hash env) s'" "fibs s a = None"
      "sfmc_wq s' = sfmc_wq s @ [a]" "fibs s' = (fibs s)(a \<mapsto> fresh_fib (oe_dst (st_oe t)) 32 (oe_dst (st_oe t)) RT_SCOPE_LINK)"
      "fib_list s' = fib_list s" "sfmc_buckets s' = sfmc_buckets s" "sfmc_oc s' = sfmc_oc s" "sfmc_vdev s' = sfmc_vdev s"
      "mem_left (sfmc_mem s) = Suc (mem_left (sfmc_mem s'))"
    by (rule stuck_packet [OF _ i _ _ refl _ _ _ _ mem, of env t x sf d]) (use T in simp_all)
  have live: "fibs s y \<noteq> None" if "y \<in> set (fib_list s)" for y
    using T that by (auto simp: sfmc_ok_def fib_inv_def fib_live_def)
  have "a \<notin> set (fib_list s)" "a \<notin> set as" using live [of a] p(3) T by (auto simp: leaked_def)
  then have "trapped (se_hash env) i t x sf as s'"
    using T p(2-7) unfolding trapped_def leaked_def by (auto simp: sfmc_table_find_def)
  moreover have "host_routes t s' = host_routes t s"
    using p(5,6) \<open>a \<notin> set (fib_list s)\<close> by (auto simp: host_routes_def has_route_def)
  ultimately show thesis using that [of s'] p by simp
qed

lemma trapped_work:
  assumes tr: "trapped (se_hash env) i t x sf as s" and wq: "sfmc_wq s \<noteq> []" and mem: "3 \<le> mem_left (sfmc_mem s)"
  obtains s' as' where "run_work env d s = Some s'" "trapped (se_hash env) i t x sf as' s'"
    "length (sfmc_wq s') = length (sfmc_wq s) - 1" "host_routes t s' = 1" "length as' + 1 = length as + host_routes t s + 1"
    "sfmc_oc s' = sfmc_oc s" "sfmc_vdev s' = sfmc_vdev s" "mem_left (sfmc_mem s) \<le> mem_left (sfmc_mem s') + 3"
proof -
  note T = tr [unfolded trapped_def]
  obtain a rest where a: "sfmc_wq s = a # rest" using wq by (cases "sfmc_wq s") auto
  let ?k = "host_bits t"
  have ok: "sfmc_ok (se_hash env) s" and fa: "fibs s a = Some (fresh_fib (oe_dst (st_oe t)) 32 (oe_dst (st_oe t)) RT_SCOPE_LINK)"
    using T a by simp_all
  obtain s' g where w: "run_work env d s = Some s'" "sfmc_ok (se_hash env) s'" "sfmc_wq s' = rest" "fibs s' = (fibs s)(a \<mapsto> g)"
      "fib_key g = ?k" "sfmc_buckets s' = sfmc_buckets s" "sfmc_oc s' = sfmc_oc s" "sfmc_vdev s' = sfmc_vdev s"
      "mem_left (sfmc_mem s) \<le> mem_left (sfmc_mem s') + 3"
      "fib_list s' = (if has_route s ?k then fib_list s else a # fib_list s)"
    by (rule host_work [OF ok a fa mem])
  have q: "a \<notin> set rest" "a \<notin> set (fib_list s)" using ok a by (auto simp: sfmc_ok_def wq_ok_def queued_ok_def)
  then have xa: "x \<noteq> a" "a \<notin> set as" using T a by (auto simp: leaked_def)
  have host: "has_route s' ?k"
  proof (cases "has_route s ?k")
    case True
    then obtain y h where y: "y \<in> set (fib_list s)" "fibs s y = Some h" "fib_key h = ?k" by (auto simp: has_route_def)
    then have "y \<noteq> a" using q(2) by auto
    with y w(4,10) True show ?thesis by (auto simp: has_route_def)
  next
    case False
    then have "fib_list s' = a # fib_list s" using w(10) by simp
    then show ?thesis using w(4,5) by (simp add: has_route_def)
  qed
  define as' where "as' = (if has_route s ?k then a # as else as)"
  have "leaked s' b" if "b \<in> set as'" for b
    using that T a q xa w(3,4,10) by (auto simp: as'_def leaked_def split: if_splits)
  moreover have "distinct as'" using T xa by (simp add: as'_def)
  moreover have "fibs s' b = fibs s b" if "b \<in> set rest" for b using that q w(4) by auto
  ultimately have "trapped (se_hash env) i t x sf as' s'"
    using T a xa w(2-4,6,10) unfolding trapped_def by (auto simp: sfmc_table_find_def)
  then show thesis using that [of s' as'] w a host by (simp add: as'_def host_routes_def)
qed

definition from_acquirer :: "sfmc \<Rightarrow> u64 \<Rightarrow> sk_buff \<Rightarrow> bool" where
  "from_acquirer s i skb \<longleftrightarrow> (\<exists>v. skb_dst skb = Some v \<and> Some v \<in> set (sfmc_vdev s)) \<and>
     extract_id_from_packet (skb_data skb) (sfmc_oc s) = Some i"

lemma trapped_run:
  assumes "trapped (se_hash env) i t x sf as (netdev_get_sfmc w d)" "madcap_enable env"
    "\<forall>skb. Some skb \<in> set es \<longrightarrow> from_acquirer (netdev_get_sfmc w d) i skb"
    "3 * length es \<le> mem_left (sfmc_mem (netdev_get_sfmc w d))"
  shows "\<exists>w' as'. conn_run env d es w = Some (replicate (packets es) (- ENOENT), w') \<and>
    trapped (se_hash env) i t x sf as' (netdev_get_sfmc w' d) \<and>
    length (sfmc_wq (netdev_get_sfmc w' d)) = pending (length (sfmc_wq (netdev_get_sfmc w d))) es \<and>
    length as' + length (sfmc_wq (netdev_get_sfmc w' d)) + host_routes t (netdev_get_sfmc w' d) =
      length as + length (sfmc_wq (netdev_get_sfmc w d)) + host_routes t (netdev_get_sfmc w d) + packets es \<and>
    (host_routes t (netdev_get_sfmc w d) = 1 \<or> pending (length (sfmc_wq (netdev_get_sfmc w d))) es <
        length (sfmc_wq (netdev_get_sfmc w d)) + packets es \<longrightarrow> host_routes t (netdev_get_sfmc w' d) = 1)"
  using assms
proof (induction env d es w arbitrary: as rule: conn_run.induct)
  case (1 env d w)
  then show ?case by (intro exI [of _ w] exI [of _ as]) (simp add: packets_def)
next
  case (2 env d skb es w)
  let ?s = "netdev_get_sfmc w d"
  obtain v where v: "skb_dst skb = Some v" "Some v \<in> set (sfmc_vdev ?s)" and i: "extract_id_from_packet (skb_data skb) (sfmc_oc ?s) = Some i"
    using 2(4) by (auto simp: from_acquirer_def)
  obtain n where n: "first_slot (Some v) (sfmc_vdev ?s) = Some n" using first_slot_in [OF v(2)] by blast
  obtain s' where p: "encap_body env skb d ?s = Some (- ENOENT, skb, s')" "trapped (se_hash env) i t x sf as s'"
      "length (sfmc_wq s') = Suc (length (sfmc_wq ?s))" "host_routes t s' = host_routes t ?s" "sfmc_oc s' = sfmc_oc ?s"
      "sfmc_vdev s' = sfmc_vdev ?s" "mem_left (sfmc_mem ?s) \<le> mem_left (sfmc_mem s') + 3"
    using trapped_packet [OF 2(2) i, of d] 2(5) by auto
  have x: "sfmc_encap_packet env skb d w = Some (- ENOENT, skb, put_sfmc w d s')"
    using v(1) n p(1) 2(3) by (simp add: sfmc_encap_packet_def)
  have "trapped (se_hash env) i t x sf as (netdev_get_sfmc (put_sfmc w d s') d)"
      "\<forall>k. Some k \<in> set es \<longrightarrow> from_acquirer (netdev_get_sfmc (put_sfmc w d s') d) i k"
      "3 * length es \<le> mem_left (sfmc_mem (netdev_get_sfmc (put_sfmc w d s') d))"
    using p 2(4,5) by (simp_all add: from_acquirer_def)
  from 2(1) [OF x refl refl this(1) 2(3) this(2,3)] p(3,4) show ?case
    unfolding conn_run.simps x by (fastforce simp: packets_def)
next
  case (3 env d es w)
  let ?s = "netdev_get_sfmc w d"
  show ?case
  proof (cases "sfmc_wq ?s = []")
    case True
    then have x: "run_work env d ?s = Some ?s" by (simp add: run_work_def)
    have "put_sfmc w d ?s = w" by (simp add: put_sfmc_def)
    with 3(1) [OF x, of as] 3(2-5) x True show ?thesis by (simp add: packets_def)
  next
    case False
    obtain s' as' where p: "run_work env d ?s = Some s'" "trapped (se_hash env) i t x sf as' s'"
        "length (sfmc_wq s') = length (sfmc_wq ?s) - 1" "host_routes t s' = 1" "length as' + 1 = length as + host_routes t ?s + 1"
        "sfmc_oc s' = sfmc_oc ?s" "sfmc_vdev s' = sfmc_vdev ?s" "mem_left (sfmc_mem ?s) \<le> mem_left (sfmc_mem s') + 3"
      using trapped_work [OF 3(2) False, of d] 3(5) by auto
    have "trapped (se_hash env) i t x sf as' (netdev_get_sfmc (put_sfmc w d s') d)"
        "\<forall>k. Some k \<in> set es \<longrightarrow> from_acquirer (netdev_get_sfmc (put_sfmc w d s') d) i k"
        "3 * length es \<le> mem_left (sfmc_mem (netdev_get_sfmc (put_sfmc w d s') d))"
      using p 3(4,5) by (simp_all add: from_acquirer_def)
    from 3(1) [OF p(1) this(1) 3(3) this(2,3)] p(1,3-5) False show ?thesis
      by (fastforce simp: packets_def)
  qed
qed

text \<open>Property C31: once a locator entry has remembered a connected route, whatever number of packets for
  the entry is sent and however often the work queue runs in between, every packet is refused with
  \<^verbatim>\<open>-ENOENT\<close>. Once a work has run, the best route for the destination is another one, the host route,
  and still the entry keeps the connected route. All but one of the objects the packets had
  allocated are queued or leaked: allocated, but neither in the table nor in the queue. The device
  keeps its invariant, and memory for three objects per step is enough.\<close>

theorem connected_route_stuck:
  assumes ok: "sfmc_ok (se_hash env) (netdev_get_sfmc w d)" and st: "stuck (se_hash env) i x (netdev_get_sfmc w d)"
    and sub: "fibs (netdev_get_sfmc w d) x = Some sf" "sf_len sf < 32"
    and t: "sfmc_table_find (se_hash env) (netdev_get_sfmc w d) i = Some t" and wq: "sfmc_wq (netdev_get_sfmc w d) = []"
    and en: "madcap_enable env" and pk: "\<forall>skb. Some skb \<in> set es \<longrightarrow> from_acquirer (netdev_get_sfmc w d) i skb"
    and mem: "3 * length es \<le> mem_left (sfmc_mem (netdev_get_sfmc w d))"
  shows "\<exists>w' as. conn_run env d es w = Some (replicate (packets es) (- ENOENT), w') \<and>
    sfmc_ok (se_hash env) (netdev_get_sfmc w' d) \<and> stuck (se_hash env) i x (netdev_get_sfmc w' d) \<and>
    length (sfmc_wq (netdev_get_sfmc w' d)) = pending 0 es \<and>
    distinct as \<and> (\<forall>a \<in> set as. leaked (netdev_get_sfmc w' d) a) \<and> packets es \<le> length as + pending 0 es + 1 \<and>
    (pending 0 es < packets es \<longrightarrow> (\<exists>y. y \<noteq> x \<and> best_route (netdev_get_sfmc w' d) (oe_dst (st_oe t)) y))"
proof -
  have "trapped (se_hash env) i t x sf [] (netdev_get_sfmc w d)"
    using ok st sub(1) t wq by (auto simp: trapped_def stuck_def)
  from trapped_run [OF this en pk mem] obtain w' as where r: "conn_run env d es w = Some (replicate (packets es) (- ENOENT), w')"
      "trapped (se_hash env) i t x sf as (netdev_get_sfmc w' d)" "length (sfmc_wq (netdev_get_sfmc w' d)) = pending 0 es"
      "length as + pending 0 es + host_routes t (netdev_get_sfmc w' d) = host_routes t (netdev_get_sfmc w d) + packets es"
      "pending 0 es < packets es \<longrightarrow> host_routes t (netdev_get_sfmc w' d) = 1"
    unfolding wq by auto
  let ?s = "netdev_get_sfmc w' d"
  have inv: "fib_inv ?s" using r(2) by (simp add: trapped_def sfmc_ok_def)
  have "\<exists>y. y \<noteq> x \<and> best_route ?s (oe_dst (st_oe t)) y" if "pending 0 es < packets es"
  proof -
    have "has_route ?s (host_bits t)" using r(5) that by (simp add: host_routes_def split: if_splits)
    then obtain y g where y: "y \<in> set (fib_list ?s)" "fibs ?s y = Some g" "fib_key g = host_bits t" by (auto simp: has_route_def)
    have "sf_len g \<le> 32" using inv y(1,2) by (auto simp: fib_inv_def fib_live_def)
    then have l: "sf_len g = 32" using fib_key_length [of g] y(3) host_key(2) by (simp add: word_unat_eq_iff)
    then have "y \<noteq> x" using y(2) r(2) sub(2) by (auto simp: trapped_def)
    then show ?thesis using host_route_best [OF inv y l] by blast
  qed
  moreover have "stuck (se_hash env) i x ?s" using r(2) by (auto simp: trapped_def stuck_def)
  moreover have "packets es \<le> length as + pending 0 es + 1" using r(4) by (simp add: host_routes_def split: if_splits)
  ultimately show ?thesis using r(1-3) by (intro exI [of _ w'] exI [of _ as]) (simp add: trapped_def)
qed

text \<open>The device of the witnesses with its route turned into a connected one, remembered by the
  locator entry.\<close>

definition demo_stuck :: sfmc where
  "demo_stuck = demo_sfmc\<lparr>fibs := [7 \<mapsto> demo_route\<lparr>sf_scope := RT_SCOPE_LINK, sf_gateway := 0\<rparr>],
     sfmc_buckets := (replicate 256 [])[5 := [\<lparr>st_oe = demo_entry, st_fib = Some 7\<rparr>]]\<rparr>"

lemma demo_stuck_ok: "sfmc_ok demo_hash demo_stuck"
proof -
  have "fib_entry demo_stuck 7 = fib_entry demo_sfmc 7"
    by (simp add: fib_entry_def demo_stuck_def demo_sfmc_def fib_key_def)
  then have "fib_inv demo_stuck"
    using sfmc_okD(3) [OF demo_sfmc_ok] unfolding fib_inv_def demo_stuck_def
    by (simp add: demo_sfmc_def fib_live_def)
  moreover have "table_ok demo_hash demo_stuck"
    by (simp add: table_ok_def demo_stuck_def demo_buckets buckets_ok_def nth_list_update demo_hash_def demo_entry_def)
  moreover have "cache_ok demo_stuck"
    unfolding cache_ok_def demo_stuck_def by (auto simp: demo_sfmc_def dest!: set_update_subset_insert [THEN subsetD])
  ultimately show ?thesis
    using sfmc_okD [OF demo_sfmc_ok] by (simp add: sfmc_ok_def vdev_ok_def wq_ok_def demo_stuck_def demo_sfmc_def sfmc_zero_def)
qed

definition demo_trap :: sfmc_world where
  "demo_trap = put_sfmc demo_world 1 (demo_stuck\<lparr>sfmc_oc := zero_config\<lparr>oc_length := 64\<rparr>\<rparr>)"

lemma demo_trap_ok: "sfmc_ok (se_hash demo_env) (netdev_get_sfmc demo_trap 1)"
  unfolding demo_trap_def
  by (simp add: demo_env_def, rule sfmc_ok_table [OF demo_stuck_ok])
    (use sfmc_okD [OF demo_stuck_ok] in \<open>simp_all add: vdev_ok_def table_ok_def cache_ok_def\<close>)

theorem connected_route_stuck_witness:
  "\<exists>w' as. conn_run demo_env 1 [Some demo_skb, None, Some demo_skb, None, Some demo_skb, None] demo_trap =
      Some ([- ENOENT, - ENOENT, - ENOENT], w') \<and>
    stuck demo_hash 5 7 (netdev_get_sfmc w' 1) \<and> sfmc_wq (netdev_get_sfmc w' 1) = [] \<and>
    distinct as \<and> 2 \<le> length as \<and> (\<forall>a \<in> set as. leaked (netdev_get_sfmc w' 1) a) \<and>
    (\<exists>y. y \<noteq> 7 \<and> best_route (netdev_get_sfmc w' 1) 0x0302010A y)"
proof -
  let ?s = "netdev_get_sfmc demo_trap 1" and ?t = "\<lparr>st_oe = demo_entry, st_fib = Some 7\<rparr>"
  let ?es = "[Some demo_skb, None, Some demo_skb, None, Some demo_skb, None]"
  let ?sf = "demo_route\<lparr>sf_scope := RT_SCOPE_LINK, sf_gateway := 0\<rparr>"
  have t: "sfmc_table_find (se_hash demo_env) ?s 5 = Some ?t"
    by (simp add: demo_env_def demo_trap_def demo_stuck_def demo_sfmc_def sfmc_table_find_def sfmc_table_head_def demo_hash_def
        demo_entry_def nth_list_update)
  have f: "fibs ?s 7 = Some ?sf" "fib_list ?s = [7]" "sfmc_wq ?s = []" "oe_dst demo_entry = 0x0302010A"
      "3 * length ?es \<le> mem_left (sfmc_mem ?s)" "Some 9 \<in> set (sfmc_vdev ?s)" "madcap_enable demo_env"
    by (simp_all add: demo_trap_def demo_stuck_def demo_sfmc_def sfmc_zero_def demo_route_def demo_entry_def demo_store_def demo_env_def
        numeral_nat replicate_Suc)
  have sub: "sf_len ?sf < 32" by (simp add: demo_route_def)
  have st: "stuck (se_hash demo_env) 5 7 ?s" using t f(1,2,4) by (simp add: stuck_def)
  have "extract_id_from_packet (skb_data demo_skb) (sfmc_oc ?s) = Some 5"
    by (simp add: demo_trap_def extract_id_from_packet_def read_bytes_def zero_config_def dec_config_def field_def) code_simp
  then have pk: "\<forall>skb. Some skb \<in> set ?es \<longrightarrow> from_acquirer ?s 5 skb" using f(6) by (auto simp: from_acquirer_def)
  have n: "packets ?es = 3" "pending 0 ?es = 0" by (simp_all add: packets_def)
  have r: "replicate 3 (- ENOENT) = [- ENOENT, - ENOENT, - ENOENT]" by (simp add: numeral_3_eq_3)
  show ?thesis
    using connected_route_stuck [OF demo_trap_ok st f(1) sub t f(3,7) pk f(5)] f(4) unfolding n r
    by (auto simp: demo_env_def)
qed

end
