(* ===== verification/Sfmc_E1000.thy ===== *)
theory Sfmc_E1000
  imports Sfmc_Connected
begin

text \<open>
  \<^verbatim>\<open>device-drivers-4.2.0/e1000/sfmc.c\<close>: the sibling of the ixgbe module. The two files have the
  same functions except for three: the e1000 locator entry has no remembered route, so a route
  is deleted without clearing any cache and every packet looks its route up; and the second
  lookup of an unknown identifier repeats the identifier. The other functions are those of the
  theories \<open>Sfmc\<close> and \<open>Sfmc_Packet\<close>, on states in which no entry remembers a route (\<open>uncached\<close>).
  The theory also holds the entry points of both NIC drivers that call the module.

  The lemmas show that the missing cache needs no other code (every reachable state is uncached
  and safe), that the two modules agree on every packet whose cached route is the best one, and
  that connected destinations, where the cache of ixgbe gets stuck, are reached here.
\<close>

section \<open>The functions that differ\<close>

definition e1000_fib_delete :: "sfmc \<Rightarrow> addr \<Rightarrow> sfmc option" where
  "e1000_fib_delete s sfa = do {
     sf \<leftarrow> fibs s sfa;
     pn \<leftarrow> sf_pn sf;
     (h, T) \<leftarrow> pt_remove (sfmc_mem s, fib_tree s) pn;
     Some (s\<lparr>sfmc_mem := h, fib_tree := T, fib_list := remove1 sfa (fib_list s), fibs := (fibs s)(sfa := None)\<rparr>) }"

definition e1000_fib_del :: "sfmc \<Rightarrow> u32 \<Rightarrow> u8 \<Rightarrow> (int \<times> sfmc) option" where
  "e1000_fib_del s network len = do {
     sf \<leftarrow> sfmc_fib_find_exact s network len;
     (case sf of
        None \<Rightarrow> Some (- ENOENT, s)
      | Some sfa \<Rightarrow> do { s \<leftarrow> e1000_fib_delete s sfa; Some (0, s) }) }"

fun e1000_fib_destroy_loop :: "addr list \<Rightarrow> sfmc \<Rightarrow> sfmc option" where
  "e1000_fib_destroy_loop [] s = Some s"
| "e1000_fib_destroy_loop (sfa # rest) s = do { s \<leftarrow> e1000_fib_delete s sfa; e1000_fib_destroy_loop rest s }"

definition e1000_fib_destroy :: "sfmc \<Rightarrow> sfmc option" where
  "e1000_fib_destroy s = e1000_fib_destroy_loop (fib_list s) s"

definition e1000_port_obj_del :: "addr \<Rightarrow> switchdev_obj \<Rightarrow> sfmc_world \<Rightarrow> (int \<times> sfmc_world) option" where
  "e1000_port_obj_del d ob w =
     (case ob of
        SWITCHDEV_OBJ_OTHER \<Rightarrow> Some (- EOPNOTSUPP, w)
      | SWITCHDEV_OBJ_IPV4_FIB fib \<Rightarrow> do {
          (rc, s) \<leftarrow> e1000_fib_del (netdev_get_sfmc w d) (htonl (fib_dst fib)) (word_of_int (fib_dst_len fib));
          Some (rc, put_sfmc w d s) })"

text \<open>\<^verbatim>\<open>st = find (id); st = (st) ? st : find (id)\<close>\<close>

definition e1000_encap_lookup :: "hash64 \<Rightarrow> sfmc \<Rightarrow> u64 \<Rightarrow> sfmc_table option" where
  "e1000_encap_lookup hash s i =
     (case sfmc_table_find hash s i of Some st \<Rightarrow> Some st | None \<Rightarrow> sfmc_table_find hash s i)"

definition e1000_encap_body :: "sfmc_env \<Rightarrow> sk_buff \<Rightarrow> addr \<Rightarrow> sfmc \<Rightarrow> (int \<times> sk_buff \<times> sfmc) option" where
  "e1000_encap_body env skb d s = do {
     i \<leftarrow> extract_id_from_packet (skb_data skb) (sfmc_oc s);
     (case e1000_encap_lookup (se_hash env) s i of
        None \<Rightarrow> Some (- ENOENT, skb, s)
      | Some st \<Rightarrow> do {
          sf \<leftarrow> sfmc_fib_find_best s (oe_dst (st_oe st)) 32;
          (case sf of
             None \<Rightarrow> Some (- ENOENT, skb, s)
           | Some sfa \<Rightarrow> encap_found env skb d s st sfa) }) }"

definition e1000_encap_packet ::
  "sfmc_env \<Rightarrow> sk_buff \<Rightarrow> addr \<Rightarrow> sfmc_world \<Rightarrow> (int \<times> sk_buff \<times> sfmc_world) option" where
  "e1000_encap_packet env skb d w =
     (if \<not> madcap_enable env then Some (0, skb, w)
      else (case skb_dst skb of
        None \<Rightarrow> Some (0, skb, w)
      | Some vdev \<Rightarrow>
          (case first_slot (Some vdev) (sfmc_vdev (netdev_get_sfmc w d)) of
             None \<Rightarrow> Some (0, skb, w)
           | Some _ \<Rightarrow> do {
               (rc, skb, s) \<leftarrow> e1000_encap_body env skb d (netdev_get_sfmc w d);
               Some (rc, skb, put_sfmc w d s) })))"

definition e1000_exit ::
  "sfmc_env \<Rightarrow> addr \<Rightarrow> sfmc_world madcap_net \<Rightarrow> sfmc_world
     \<Rightarrow> (int \<times> sfmc_world madcap_net \<times> sfmc_world) option" where
  "e1000_exit env d net w = do {
     w \<leftarrow> Some (if netevent_registered w then w\<lparr>netevent_registered := False\<rparr> else w);
     s \<leftarrow> e1000_fib_destroy (sfmc_table_destroy (netdev_get_sfmc w d));
     s \<leftarrow> drain_after_free s;
     net \<leftarrow> Some (if madcap_enable env then snd (madcap_unregister_device net d) else net);
     Some (0, net, put_sfmc w d s) }"

section \<open>The NIC drivers' entry points\<close>

text \<open>\<open>hw\<close> is the rest of the driver's transmit function, which the hook precedes; a freed packet
  is not handed to it.\<close>

definition ixgbe_xmit_frame ::
  "sfmc_env \<Rightarrow> (sk_buff \<Rightarrow> 'tx \<Rightarrow> 'tx) \<Rightarrow> sk_buff \<Rightarrow> addr \<Rightarrow> 'tx \<Rightarrow> sfmc_world \<Rightarrow> ('tx \<times> sfmc_world) option" where
  "ixgbe_xmit_frame env hw skb d tx w = do {
     (err, skb, w) \<leftarrow> sfmc_encap_packet env skb d w;
     if err < 0 then Some (tx, w) else Some (hw skb tx, w) }"

definition e1000_xmit_frame ::
  "sfmc_env \<Rightarrow> (sk_buff \<Rightarrow> 'tx \<Rightarrow> 'tx) \<Rightarrow> sk_buff \<Rightarrow> addr \<Rightarrow> 'tx \<Rightarrow> sfmc_world \<Rightarrow> ('tx \<times> sfmc_world) option" where
  "e1000_xmit_frame env hw skb d tx w = do {
     (err, skb, w) \<leftarrow> e1000_encap_packet env skb d w;
     Some (hw skb tx, w) }"

section \<open>The device as a state machine\<close>

fun e1000_exec :: "sfmc_env \<Rightarrow> addr \<Rightarrow> sfmc_event \<Rightarrow> sfmc_world \<Rightarrow> sfmc_world option" where
  "e1000_exec env d (EvObjDel ob) w = map_option snd (e1000_port_obj_del d ob w)"
| "e1000_exec env d (EvXmit skb) w = map_option (\<lambda>(rc, skb, w). w) (e1000_encap_packet env skb d w)"
| "e1000_exec env d ev w = sfmc_exec env d ev w"

inductive e1000_reach :: "sfmc_env \<Rightarrow> addr \<Rightarrow> sfmc_world \<Rightarrow> bool" for env d where
  boot: "sfmc_init env h m True d net w = Some (0, net', w') \<Longrightarrow> e1000_reach env d w'"
| run: "e1000_reach env d w \<Longrightarrow> event_ok (netdev_get_sfmc w d) ev \<Longrightarrow>
    e1000_exec (with_neighbours env found created) d ev w = Some w' \<Longrightarrow> e1000_reach env d w'"

definition uncached :: "sfmc \<Rightarrow> bool" where
  "uncached s \<longleftrightarrow> (\<forall>b \<in> set (sfmc_buckets s). \<forall>st \<in> set b. st_fib st = None)"

text \<open>On an uncached state there is nothing to clear.\<close>

lemma uncached_delete:
  assumes "uncached s"
  shows "e1000_fib_delete s x = sfmc_fib_delete s x"
proof -
  have "map (\<lambda>st. if st_fib st = Some x then st\<lparr>st_fib := None\<rparr> else st) b = b" if "b \<in> set (sfmc_buckets s)" for b
    using assms that by (intro map_idI) (simp add: uncached_def)
  then have "map (map (\<lambda>st. if st_fib st = Some x then st\<lparr>st_fib := None\<rparr> else st)) (sfmc_buckets s) = sfmc_buckets s"
    by (rule map_idI)
  then show ?thesis by (simp add: e1000_fib_delete_def sfmc_fib_delete_def)
qed

lemma uncached_del: "uncached s \<Longrightarrow> e1000_fib_del s network len = sfmc_fib_del s network len"
  by (auto simp: e1000_fib_del_def sfmc_fib_del_def uncached_delete intro!: bind_option_cong split: option.splits)

lemma uncached_obj_del: "uncached (netdev_get_sfmc w d) \<Longrightarrow> e1000_port_obj_del d ob w = sfmc_port_obj_del d ob w"
  by (cases ob) (simp_all add: e1000_port_obj_del_def sfmc_port_obj_del_def uncached_del)

lemma delete_buckets: "e1000_fib_delete s x = Some s' \<Longrightarrow> sfmc_buckets s' = sfmc_buckets s"
  by (auto simp: e1000_fib_delete_def bind_eq_Some_conv)

lemma uncached_destroy_loop: "uncached s \<Longrightarrow> e1000_fib_destroy_loop xs s = fib_destroy_loop xs s"
proof (induction xs arbitrary: s)
  case (Cons x xs)
  have "e1000_fib_destroy_loop xs s' = fib_destroy_loop xs s'" if "sfmc_fib_delete s x = Some s'" for s'
    using Cons.IH [of s'] Cons.prems delete_buckets [of s x s'] that uncached_delete [OF Cons.prems, of x] by (simp add: uncached_def)
  then show ?case by (cases "sfmc_fib_delete s x") (simp_all add: uncached_delete [OF Cons.prems])
qed simp

lemma uncached_exit: "uncached (netdev_get_sfmc w d) \<Longrightarrow> e1000_exit env d net w = sfmc_exit env d net w"
proof -
  have "uncached (sfmc_table_destroy s)" for s by (auto simp: uncached_def sfmc_table_destroy_def)
  then show ?thesis
    by (simp add: e1000_exit_def sfmc_exit_def e1000_fib_destroy_def sfmc_fib_destroy_def uncached_destroy_loop)
qed

lemma e1000_lookup [simp]: "e1000_encap_lookup hash s i = sfmc_table_find hash s i"
  by (simp add: e1000_encap_lookup_def split: option.splits)


lemma uncached_cong: "sfmc_buckets s' = sfmc_buckets s \<Longrightarrow> uncached s \<Longrightarrow> uncached s'"
  by (simp add: uncached_def)

text \<open>Only the transmission of ixgbe remembers a route: every other operation leaves the table
  alone, or adds an entry that remembers none.\<close>

lemma found_buckets: "encap_found env skb d s st x = Some (rc, k, s') \<Longrightarrow> sfmc_buckets s' = sfmc_buckets s"
  by (auto simp: encap_found_def sfmc_fib_create_def bind_eq_Some_conv split: if_splits)

lemma e1000_body_buckets: "e1000_encap_body env skb d s = Some (rc, k, s') \<Longrightarrow> sfmc_buckets s' = sfmc_buckets s"
  by (auto simp: e1000_encap_body_def bind_eq_Some_conv split: option.splits dest: found_buckets)

lemma fib_add_buckets: "sfmc_fib_add s network len gw scope = Some (r, s') \<Longrightarrow> sfmc_buckets s' = sfmc_buckets s"
proof -
  assume add: "sfmc_fib_add s network len gw scope = Some (r, s')"
  show ?thesis
  proof (cases "sfmc_fib_create s network len gw scope")
    case (Some p)
    obtain a s1 where p: "p = (a, s1)" by fastforce
    then have c: "sfmc_buckets s1 = sfmc_buckets s" "\<exists>g. fibs s1 a = Some g"
      using Some by (auto simp: sfmc_fib_create_def bind_eq_Some_conv)
    obtain r2 s2 where i: "sfmc_fib_insert s1 a = Some (r2, s2)" using add Some p by (auto simp: sfmc_fib_add_def bind_eq_Some_conv)
    then have "sfmc_buckets s2 = sfmc_buckets s1" using c(2) insert_frame(1) by blast
    with add Some p i c(1) show ?thesis by (auto simp: sfmc_fib_add_def split: option.splits)
  qed (use add in \<open>simp add: sfmc_fib_add_def\<close>)
qed

lemma obj_add_buckets:
  assumes "sfmc_port_obj_add env d phase ob w = Some (rc, w')"
  shows "sfmc_buckets (netdev_get_sfmc w' d) = sfmc_buckets (netdev_get_sfmc w d)"
  using assms by (auto simp: sfmc_port_obj_add_def bind_eq_Some_conv resolve_frame(1) fib_add_buckets
      split: switchdev_trans.splits switchdev_obj.splits if_splits option.splits)

lemma run_work_buckets:
  assumes "run_work env d s = Some s'"
  shows "sfmc_buckets s' = sfmc_buckets s"
proof (cases "sfmc_wq s")
  case (Cons y rest)
  let ?s = "s\<lparr>sfmc_wq := rest\<rparr>"
  obtain r u where u: "sfmc_fib_insert ?s y = Some (r, u)"
    using assms Cons by (auto simp: run_work_def sfmc_ll_neigh_work_def bind_eq_Some_conv)
  then obtain g where g: "fibs ?s y = Some g" by (auto simp: sfmc_fib_insert_def bind_eq_Some_conv)
  obtain rc where "sfmc_neigh_resolve env d (case r of None \<Rightarrow> u\<lparr>fibs := (fibs u)(y := None)\<rparr> | Some _ \<Rightarrow> u) y = Some (rc, s')"
    using assms Cons u by (auto simp: run_work_def sfmc_ll_neigh_work_def bind_eq_Some_conv)
  from resolve_frame(1) [OF this] insert_frame(1) [OF u g] show ?thesis by (simp split: option.splits)
qed (use assms in \<open>simp add: run_work_def\<close>)

lemma neigh_update_buckets: "neigh_update_loop xs ip n s = Some s' \<Longrightarrow> sfmc_buckets s' = sfmc_buckets s"
proof (induction xs arbitrary: s)
  case (Cons x xs)
  then obtain s1 where "neigh_update_loop xs ip n s1 = Some s'" "sfmc_buckets s1 = sfmc_buckets s"
    by (auto simp: bind_eq_Some_conv sfmc_neigh_write_def split: if_splits)
  with Cons.IH show ?case by metis
qed simp

lemma uncached_upd:
  assumes "uncached s" "sfmc_buckets s' = (sfmc_buckets s)[n := b]" "n < length (sfmc_buckets s) \<Longrightarrow> \<forall>st \<in> set b. st_fib st = None"
  shows "uncached s'"
proof (cases "n < length (sfmc_buckets s)")
  case True
  have "set (sfmc_buckets s') \<subseteq> insert b (set (sfmc_buckets s))" unfolding assms(2) by (rule set_update_subset_insert)
  with assms(1,3) True show ?thesis unfolding uncached_def by blast
qed (use assms in \<open>simp add: uncached_def list_update_beyond\<close>)

lemma entry_add_uncached:
  assumes u: "uncached (netdev_get_sfmc w d)"
  shows "uncached (netdev_get_sfmc (snd (sfmc_llt_entry_add hash d oe w)) d)"
proof -
  let ?s = "netdev_get_sfmc w d" and ?n = "sfmc_table_head hash (oe_id oe)"
  have "uncached s'" if "sfmc_table_add hash ?s oe = Some s'" for s'
    by (rule uncached_upd [OF u, of _ ?n "\<lparr>st_oe = oe, st_fib = None\<rparr> # sfmc_buckets ?s ! ?n"])
      (use that u in \<open>auto simp: sfmc_table_add_def Let_def uncached_def split: if_splits\<close>)
  with u show ?thesis by (simp add: sfmc_llt_entry_add_def Let_def split: option.splits)
qed

lemma entry_del_uncached:
  assumes u: "uncached (netdev_get_sfmc w d)"
  shows "uncached (netdev_get_sfmc (snd (sfmc_llt_entry_del hash d oe w)) d)"
proof -
  let ?s = "netdev_get_sfmc w d" and ?n = "sfmc_table_head hash (oe_id oe)"
  have "uncached (sfmc_table_delete hash ?s (oe_id oe))"
    by (rule uncached_upd [OF u, of _ ?n "bucket_del st_id (oe_id oe) (sfmc_buckets ?s ! ?n)"])
      (use u set_bucket_del [of st_id "oe_id oe" "sfmc_buckets ?s ! ?n"] nth_mem [of ?n "sfmc_buckets ?s"] in
        \<open>fastforce simp: sfmc_table_delete_def Let_def uncached_def\<close>)+
  with u show ?thesis by (simp add: sfmc_llt_entry_del_def Let_def split: option.splits)
qed

lemma llt_cfg_uncached: "uncached (netdev_get_sfmc w d) \<Longrightarrow> uncached (netdev_get_sfmc (snd (sfmc_llt_cfg d oc w)) d)"
  by (auto simp: sfmc_llt_cfg_def Let_def uncached_def sfmc_table_destroy_def)

lemma e1000_body_ok:
  assumes ok: "sfmc_ok (se_hash env) s" and mem: "1 \<le> mem_left (sfmc_mem s)" and pkt: "pkt_ok s skb"
  shows "\<exists>rc k s'. e1000_encap_body env skb d s = Some (rc, k, s') \<and> sfmc_ok (se_hash env) s'"
proof -
  obtain i where i: "extract_id_from_packet (skb_data skb) (sfmc_oc s) = Some i"
    using pkt by (simp add: extract_id_from_packet_def read_bytes_def pkt_ok_def)
  show ?thesis
  proof (cases "sfmc_table_find (se_hash env) s i")
    case (Some st)
    obtain r where r: "sfmc_fib_find_best s (oe_dst (st_oe st)) 32 = Some r" "\<And>x. r = Some x \<Longrightarrow> x \<in> set (fib_list s)"
      using find_best_route [OF sfmc_okD(3) [OF ok]] unfolding best_route_def route_matches_def by metis
    have "\<exists>rc k s'. encap_found env skb d s st x = Some (rc, k, s') \<and> sfmc_ok (se_hash env) s'" if "r = Some x" for x
      by (rule encap_found_ok [OF ok r(2) [OF that] mem])
    with i Some r(1) ok show ?thesis by (cases r) (simp_all add: e1000_encap_body_def)
  qed (use i ok in \<open>simp add: e1000_encap_body_def\<close>)
qed

lemma e1000_packet_ok:
  assumes ok: "sfmc_ok (se_hash env) (netdev_get_sfmc w d)" and u: "uncached (netdev_get_sfmc w d)"
    and ev: "event_ok (netdev_get_sfmc w d) (EvXmit skb)"
  shows "\<exists>rc k w'. e1000_encap_packet env skb d w = Some (rc, k, w') \<and> sfmc_ok (se_hash env) (netdev_get_sfmc w' d) \<and>
    uncached (netdev_get_sfmc w' d)"
proof -
  obtain rc k s' where "e1000_encap_body env skb d (netdev_get_sfmc w d) = Some (rc, k, s')" "sfmc_ok (se_hash env) s'"
    using e1000_body_ok [OF ok, of skb d] ev by auto
  with ok u uncached_cong [OF e1000_body_buckets] show ?thesis by (simp add: e1000_encap_packet_def split: option.splits)
qed

lemma e1000_exec_ok:
  assumes ok: "sfmc_ok (se_hash env) (netdev_get_sfmc w d)" and u: "uncached (netdev_get_sfmc w d)"
    and ev: "event_ok (netdev_get_sfmc w d) ev"
  shows "\<exists>w'. e1000_exec env d ev w = Some w' \<and> sfmc_ok (se_hash env) (netdev_get_sfmc w' d) \<and> uncached (netdev_get_sfmc w' d)"
proof (cases "\<exists>skb. ev = EvXmit skb")
  case True
  then show ?thesis using e1000_packet_ok [OF ok u] ev by fastforce
next
  case False
  then have eq: "e1000_exec env d ev w = sfmc_exec env d ev w" by (cases ev) (simp_all add: uncached_obj_del [OF u])
  obtain w' where w': "sfmc_exec env d ev w = Some w'" "sfmc_ok (se_hash env) (netdev_get_sfmc w' d)"
    using sfmc_exec_ok [OF ok ev] by blast
  have "uncached (netdev_get_sfmc w' d)"
  proof (cases ev)
    case (EvObjDel ob)
    then obtain rc where "e1000_port_obj_del d ob w = Some (rc, w')" using w'(1) eq by auto
    then have "sfmc_buckets (netdev_get_sfmc w' d) = sfmc_buckets (netdev_get_sfmc w d)"
      by (auto simp: e1000_port_obj_del_def e1000_fib_del_def bind_eq_Some_conv delete_buckets split: switchdev_obj.splits option.splits)
    then show ?thesis using u uncached_cong by blast
  next
    case (EvObjAdd phase ob)
    with w'(1) have "sfmc_buckets (netdev_get_sfmc w' d) = sfmc_buckets (netdev_get_sfmc w d)" by (auto simp: obj_add_buckets)
    then show ?thesis using u uncached_cong by blast
  next
    case (EvNeigh upd arp sfm ip n)
    with w'(1) have "sfmc_buckets (netdev_get_sfmc w' d) = sfmc_buckets (netdev_get_sfmc w d)"
      by (auto simp: sfmc_neigh_update_event_def sfmc_neigh_update_def bind_eq_Some_conv neigh_update_buckets split: if_splits)
    then show ?thesis using u uncached_cong by blast
  next
    case EvWork
    with w'(1) have "sfmc_buckets (netdev_get_sfmc w' d) = sfmc_buckets (netdev_get_sfmc w d)" by (auto simp: run_work_buckets)
    then show ?thesis using u uncached_cong by blast
  qed (use w'(1) u False entry_add_uncached [OF u] entry_del_uncached [OF u] llt_cfg_uncached [OF u] in
      \<open>auto simp: sfmc_acquire_dev_def sfmc_release_dev_def sfmc_udp_cfg_def uncached_def Let_def split: option.splits\<close>)
  with eq w' show ?thesis by simp
qed

lemma e1000_reach_ok: "e1000_reach env d w \<Longrightarrow> sfmc_ok (se_hash env) (netdev_get_sfmc w d) \<and> uncached (netdev_get_sfmc w d)"
proof (induction rule: e1000_reach.induct)
  case (boot h m net w net' w')
  have "sfmc_buckets (netdev_get_sfmc w' d) = replicate SFMC_HASH_SIZE []"
  proof -
    obtain T h' where "New_Patricia h 32 = Some (T, h')" using boot by (auto simp: sfmc_init_def bind_eq_Some_conv)
    then show ?thesis using boot by (auto simp: sfmc_init_def sfmc_zero_def Let_def put_sfmc_def split: prod.splits if_splits)
  qed
  then have "uncached (netdev_get_sfmc w' d)" by (simp add: uncached_def)
  with sfmc_init_ok [OF boot] show ?case by blast
next
  case (run w ev found created w')
  then show ?case using e1000_exec_ok [of "with_neighbours env found created" w d ev] by auto
qed

lemma e1000_reach_exec:
  "e1000_reach env d w \<Longrightarrow> event_ok (netdev_get_sfmc w d) ev \<Longrightarrow> e1000_exec env d ev w = Some w' \<Longrightarrow> e1000_reach env d w'"
  using e1000_reach.run [where env = env and found = "ipv4_neigh_lookup env" and created = "neigh_create env"] by simp

section \<open>Safety\<close>

text \<open>Property C12: in every state of an e1000 device reached from \<^verbatim>\<open>sfmc_init\<close> by madcap operations,
  switchdev callbacks, packets, neighbour events and queued works, each with any neighbour table
  of the kernel, no locator entry points to a route (so nothing dangles although deletion clears no
  pointer); the next event returns, if it meets \<open>event_ok\<close>: the prefix length of a route is at most
  32, a packet covers the identifier field, and memory is left for the objects the event allocates
  (4 for a new route, 1 for a packet, 3 for a work), because the driver uses the results of these
  allocations unchecked; and removal of the device does what the ixgbe module's does.\<close>

theorem e1000_no_reachable_crash:
  assumes r: "e1000_reach env d w" and ev: "event_ok (netdev_get_sfmc w d) ev"
  shows "sfmc_ok (se_hash env) (netdev_get_sfmc w d) \<and> uncached (netdev_get_sfmc w d) \<and>
    (\<exists>w'. e1000_exec env d ev w = Some w' \<and> e1000_reach env d w') \<and>
    e1000_fib_delete (netdev_get_sfmc w d) x = sfmc_fib_delete (netdev_get_sfmc w d) x \<and>
    e1000_exit env d net w = sfmc_exit env d net w"
proof -
  note ok = e1000_reach_ok [OF r]
  obtain w' where w': "e1000_exec env d ev w = Some w'" using e1000_exec_ok [OF _ _ ev] ok by blast
  with ok e1000_reach_exec [OF r ev w'] uncached_delete uncached_exit show ?thesis by blast
qed

text \<open>A device that is set up, acquired, configured, given the connected route 10.0.0.0/8 and a locator
  entry; then a packet is sent.\<close>

fun e1000_run :: "sfmc_env \<Rightarrow> addr \<Rightarrow> sfmc_event list \<Rightarrow> sfmc_world \<Rightarrow> sfmc_world option" where
  "e1000_run env d [] w = Some w"
| "e1000_run env d (ev # evs) w = (if event_ok (netdev_get_sfmc w d) ev
     then do { w \<leftarrow> e1000_exec env d ev w; e1000_run env d evs w } else None)"

lemma e1000_run_reach: "e1000_reach env d w \<Longrightarrow> e1000_run env d evs w = Some w' \<Longrightarrow> e1000_reach env d w'"
  by (induction evs arbitrary: w) (auto simp: bind_eq_Some_conv split: if_splits dest: e1000_reach_exec)

definition demo_events :: "sfmc_event list" where
  "demo_events = [EvAcquire 9, EvLltCfg (zero_config\<lparr>oc_obj := \<lparr>obj_id = 1, tb_id = 0\<rparr>, oc_length := 64\<rparr>),
     EvObjAdd SWITCHDEV_TRANS_COMMIT (SWITCHDEV_OBJ_IPV4_FIB \<lparr>fib_dst = 0x0A000000, fib_dst_len = 8, fib_nh_gw = 0, fib_info_scope = RT_SCOPE_LINK\<rparr>),
     EvEntryAdd demo_entry]"

theorem e1000_no_reachable_crash_witness:
  "\<exists>w w'. e1000_run demo_env 1 demo_events demo_boot = Some w \<and> e1000_exec demo_env 1 (EvXmit demo_skb) w = Some w' \<and>
    e1000_reach demo_env 1 w'"
proof -
  have "map_option (\<lambda>w. event_ok (netdev_get_sfmc w 1) (EvXmit demo_skb))
    (e1000_run demo_env 1 demo_events demo_boot) = Some True"
    by code_simp
  then obtain w where w: "e1000_run demo_env 1 demo_events demo_boot = Some w" "event_ok (netdev_get_sfmc w 1) (EvXmit demo_skb)"
    by auto
  have "e1000_reach demo_env 1 demo_boot" using demo_boot_init by (auto intro: e1000_reach.boot)
  from e1000_no_reachable_crash [OF e1000_run_reach [OF this w(1)] w(2)] w show ?thesis by auto
qed

section \<open>The two modules agree\<close>

text \<open>The ixgbe state without its remembered routes.\<close>

abbreviation forget :: "sfmc_table \<Rightarrow> sfmc_table" where
  "forget st \<equiv> st\<lparr>st_fib := None\<rparr>"

definition uncache :: "sfmc \<Rightarrow> sfmc" where
  "uncache s = s\<lparr>sfmc_buckets := map (map forget) (sfmc_buckets s)\<rparr>"

lemma uncache_sel [simp]:
  "fibs (uncache s) = fibs s" "fib_list (uncache s) = fib_list s" "sfmc_mem (uncache s) = sfmc_mem s"
  "fib_tree (uncache s) = fib_tree s" "sfmc_oc (uncache s) = sfmc_oc s" "sfmc_ou (uncache s) = sfmc_ou s"
  "sfmc_wq (uncache s) = sfmc_wq s" "sfmc_vdev (uncache s) = sfmc_vdev s" "sfmc_buckets (uncache s) = map (map forget) (sfmc_buckets s)"
  by (simp_all add: uncache_def)

definition fresh_caches :: "sfmc \<Rightarrow> bool" where
  "fresh_caches s \<longleftrightarrow> (\<forall>b \<in> set (sfmc_buckets s). \<forall>st \<in> set b. \<forall>x. st_fib st = Some x \<longrightarrow> best_route s (oe_dst (st_oe st)) x)"

lemma bucket_find_forget: "bucket_find st_id i (map forget b) = map_option forget (bucket_find st_id i b)"
  by (induction b) simp_all

lemma uncache_find:
  assumes "table_ok hash s"
  shows "sfmc_table_find hash (uncache s) i = map_option forget (sfmc_table_find hash s i)"
  using assms by (simp add: sfmc_table_find_def sfmc_table_head_def table_ok_def buckets_ok_def bucket_find_forget)

lemma uncache_find_best: "sfmc_fib_find_best (uncache s) dst len = sfmc_fib_find_best s dst len"
proof -
  have "node_data (uncache s) = node_data s" by (intro ext) (simp add: node_data_def split: option.splits)
  then show ?thesis by (simp add: sfmc_fib_find_best_def)
qed

lemma uncache_found:
  "encap_found env skb d (uncache s) (forget st) x = map_option (\<lambda>(rc, k, s'). (rc, k, uncache s')) (encap_found env skb d s st x)"
proof (cases "fibs s x")
  case (Some sf)
  then show ?thesis
    by (cases "kmalloc (sfmc_mem s)") (auto simp: encap_found_def encap_headers_def sfmc_fib_create_def uncache_def)
qed (simp add: encap_found_def)

text \<open>Remembering a route is invisible without the remembered routes.\<close>

lemma uncache_route:
  assumes ok: "sfmc_ok hash s" and st: "sfmc_table_find hash s i = Some st" and fresh: "fresh_caches s"
  obtains fib s' where "encap_route hash s st = Some (fib, s')" "uncache s' = uncache s"
    "sfmc_fib_find_best s (oe_dst (st_oe st)) 32 = Some fib"
proof (cases "st_fib st")
  case (Some x)
  then have "best_route s (oe_dst (st_oe st)) x" using table_find_ok(2) [OF ok st] fresh unfolding fresh_caches_def by blast
  then have "sfmc_fib_find_best s (oe_dst (st_oe st)) 32 = Some (Some x)"
    using find_best_route [OF sfmc_okD(3) [OF ok], of "oe_dst (st_oe st)"] by auto
  with Some that show ?thesis by (simp add: encap_route_def)
next
  case None
  obtain r where r: "sfmc_fib_find_best s (oe_dst (st_oe st)) 32 = Some r"
    using find_best_route [OF sfmc_okD(3) [OF ok], of "oe_dst (st_oe st)"] by blast
  let ?n = "sfmc_table_head hash (st_id st)"
  let ?b = "bucket_upd st_id (st_id st) (\<lambda>st. st\<lparr>st_fib := r\<rparr>) (sfmc_buckets s ! ?n)"
  have n: "?n < length (sfmc_buckets s)"
    using sfmc_okD(1) [OF ok] by (simp add: table_ok_def buckets_ok_def sfmc_table_head_def)
  have "map forget ?b = map forget (sfmc_buckets s ! ?n)" by (rule map_bucket_upd) simp
  then have "map (map forget) ((sfmc_buckets s)[?n := ?b]) = map (map forget) (sfmc_buckets s)"
    using n by (simp add: map_update list_update_same_conv)
  then have "uncache (s\<lparr>sfmc_buckets := (sfmc_buckets s)[?n := ?b]\<rparr>) = uncache s" by (simp add: uncache_def)
  with None r that show ?thesis by (simp add: encap_route_def Let_def)
qed

text \<open>Property C17: the ixgbe module's remembered routes are an optimisation: as long as every
  remembered route is the best one, a packet whose identifier has a locator entry gets from
  both modules the same result, the same headers and the same state up to the remembered
  routes. For an identifier without an entry they differ: ixgbe falls back to the entry of
  identifier 0, while e1000 repeats its search and refuses the packet.\<close>

theorem e1000_agrees_with_ixgbe:
  assumes ok: "sfmc_ok (se_hash env) s" and fresh: "fresh_caches s"
    and i: "extract_id_from_packet (skb_data skb) (sfmc_oc s) = Some i"
  shows "if sfmc_table_find (se_hash env) s i \<noteq> None
    then e1000_encap_body env skb d (uncache s) = map_option (\<lambda>(rc, k, s'). (rc, k, uncache s')) (encap_body env skb d s)
    else e1000_encap_body env skb d (uncache s) = Some (- ENOENT, skb, uncache s) \<and>
      encap_lookup (se_hash env) s i = sfmc_table_find (se_hash env) s 0"
proof (cases "sfmc_table_find (se_hash env) s i")
  case None
  then show ?thesis using uncache_find [OF sfmc_okD(1) [OF ok], of i] i by (simp add: e1000_encap_body_def encap_lookup_def)
next
  case (Some st)
  obtain fib s' where r: "encap_route (se_hash env) s st = Some (fib, s')" "uncache s' = uncache s"
      "sfmc_fib_find_best s (oe_dst (st_oe st)) 32 = Some fib"
    using uncache_route [OF ok Some fresh] .
  have e: "e1000_encap_body env skb d (uncache s) = (case fib of None \<Rightarrow> Some (- ENOENT, skb, uncache s)
      | Some x \<Rightarrow> encap_found env skb d (uncache s) (forget st) x)"
    using Some i r(3) uncache_find [OF sfmc_okD(1) [OF ok], of i] by (simp add: e1000_encap_body_def uncache_find_best)
  have "encap_body env skb d s = (case fib of None \<Rightarrow> Some (- ENOENT, skb, s') | Some x \<Rightarrow> encap_found env skb d s' st x)"
    using Some i r(1) by (simp add: encap_body_def encap_lookup_def)
  with Some e r(2) uncache_found [of env skb d s' st] show ?thesis by (cases fib) simp_all
qed

theorem e1000_agrees_with_ixgbe_witness:
  "e1000_encap_body demo_env demo_skb 1 (uncache (netdev_get_sfmc demo_cfg 1)) =
    map_option (\<lambda>(rc, k, s'). (rc, k, uncache s')) (encap_body demo_env demo_skb 1 (netdev_get_sfmc demo_cfg 1))"
proof -
  let ?s = "netdev_get_sfmc demo_cfg 1"
  have ok: "sfmc_ok (se_hash demo_env) ?s" using demo_cfg_ok by (simp add: demo_env_def)
  have f: "fresh_caches ?s"
    unfolding fresh_caches_def demo_cfg_def demo_sfmc_def by (auto dest!: set_update_subset_insert [THEN subsetD])
  have i: "extract_id_from_packet (skb_data demo_skb) (sfmc_oc ?s) = Some 5"
    by (simp add: demo_cfg_def extract_id_from_packet_def read_bytes_def zero_config_def dec_config_def field_def) code_simp
  have "sfmc_table_find (se_hash demo_env) ?s 5 \<noteq> None"
    by (simp add: demo_env_def demo_cfg_def sfmc_table_find_def sfmc_table_head_def demo_sfmc_def demo_hash_def
        demo_entry_def nth_list_update)
  with e1000_agrees_with_ixgbe [OF ok f i, of 1] show ?thesis by simp
qed

section \<open>Connected destinations are reached\<close>

text \<open>Property C30: on e1000 a destination behind a connected route is reached. The first packet is
  refused and queues a work; the work installs the host route with the neighbour's hardware
  address; and the same packet sent again is encapsulated for that neighbour. (On ixgbe the
  locator entry keeps the connected route and never recovers.)\<close>

theorem e1000_connected_recovers:
  assumes ok: "sfmc_ok (se_hash env) s" and wq: "sfmc_wq s = []" and mem: "4 \<le> mem_left (sfmc_mem s)"
    and i: "extract_id_from_packet (skb_data skb) (sfmc_oc s) = Some i"
    and st: "sfmc_table_find (se_hash env) s i = Some st" "oe_dst (st_oe st) = dst"
    and best: "best_route s dst x" "fibs s x = Some sf" "sf_len sf < 32"
    and conn: "sf_scope sf = RT_SCOPE_LINK" "sf_gateway sf \<noteq> dst"
    and nb: "ipv4_neigh_lookup env d dst = Some n" "n_nud n AND NUD_VALID \<noteq> 0"
  shows "\<exists>s1 s2. e1000_encap_body env skb d s = Some (- ENOENT, skb, s1) \<and> run_work env d s1 = Some s2 \<and>
    sfmc_ok (se_hash env) s2 \<and>
    e1000_encap_body env skb d s2 =
      Some (0, skb\<lparr>skb_data := encap_headers s (perm_addr env d) dst (take 6 (n_ha n)) (skb_data skb)\<rparr>, s2)"
proof -
  note inv = sfmc_okD(3) [OF ok]
  let ?a = "brk (sfmc_mem s)" and ?f = "fresh_fib dst 32 dst RT_SCOPE_LINK"
  obtain h where c: "sfmc_fib_create s dst 32 dst RT_SCOPE_LINK = Some (?a, s\<lparr>sfmc_mem := h, fibs := (fibs s)(?a \<mapsto> ?f)\<rparr>)"
      "fib_inv (s\<lparr>sfmc_mem := h, fibs := (fibs s)(?a \<mapsto> ?f)\<rparr>)" "?a \<notin> set (fib_list s)" "mem_left (sfmc_mem s) = Suc (mem_left h)"
    using fib_create_spec [OF inv, of dst 32 dst RT_SCOPE_LINK] mem by auto
  let ?s1 = "s\<lparr>sfmc_mem := h, fibs := (fibs s)(?a \<mapsto> ?f), sfmc_wq := [?a]\<rparr>"
  have fb: "sfmc_fib_find_best s dst 32 = Some (Some x)" using find_best_route [OF inv, of dst] best(1) by auto
  have first: "e1000_encap_body env skb d s = Some (- ENOENT, skb, ?s1)"
    using i st fb best(2) conn c(1) wq by (simp add: e1000_encap_body_def encap_found_def)
  have ok1: "sfmc_ok (se_hash env) ?s1"
    using encap_found_ok [OF ok, of x env skb d st] best(1,2) conn c(1) wq mem st(2)
    by (auto simp: encap_found_def best_route_def route_matches_def)
  have "\<not> has_route s (addr_bits (be32_bytes dst))" by (rule no_host_route [OF inv best])
  then have new: "\<not> has_route ?s1 (addr_bits (be32_bytes dst))" using c(3) by (auto simp: has_route_def split: if_splits)
  obtain s2 g where w: "run_work env d ?s1 = Some s2" and l: "fib_list s2 = ?a # fib_list s" and g: "fibs s2 ?a = Some g"
    "fib_key g = addr_bits (be32_bytes dst)" "sf_len g = 32" "sf_gateway g = dst" "sf_mac g = take 6 (n_ha n)" "sf_nud g = n_nud n"
    and f: "sfmc_buckets s2 = sfmc_buckets s" "sfmc_oc s2 = sfmc_oc s" "sfmc_ou s2 = sfmc_ou s"
    using work_links_host_route [OF sfmc_okD(3) [OF ok1] _ _ _ _ new nb, of ?a "[]"] c(3,4) mem by auto
  have ok2: "sfmc_ok (se_hash env) s2" using run_work_ok [OF ok1, of env d] w c(4) mem by simp
  have "best_route s2 dst ?a" by (rule host_route_best [OF sfmc_okD(3) [OF ok2] _ g(1-3)]) (simp add: l)
  then have fb2: "sfmc_fib_find_best s2 dst 32 = Some (Some ?a)" using find_best_route [OF sfmc_okD(3) [OF ok2], of dst] by auto
  have st2: "sfmc_table_find (se_hash env) s2 i = Some st" using st(1) f(1) by (simp add: sfmc_table_find_def)
  have "encap_headers s2 = encap_headers s" using f by (intro ext) (simp add: encap_headers_def)
  then have "e1000_encap_body env skb d s2 =
      Some (0, skb\<lparr>skb_data := encap_headers s (perm_addr env d) dst (take 6 (n_ha n)) (skb_data skb)\<rparr>, s2)"
    using i f(2) st2 st(2) fb2 g nb(2) by (simp add: e1000_encap_body_def encap_found_def)
  with first w ok2 show ?thesis by blast
qed

theorem e1000_connected_recovers_witness:
  "\<exists>s1 s2 k. e1000_encap_body demo_env demo_skb 1 (demo_stuck\<lparr>sfmc_oc := zero_config\<lparr>oc_length := 64\<rparr>\<rparr>) = Some (- ENOENT, demo_skb, s1) \<and>
    run_work demo_env 1 s1 = Some s2 \<and> e1000_encap_body demo_env demo_skb 1 s2 = Some (0, k, s2)"
proof -
  let ?s = "demo_stuck\<lparr>sfmc_oc := zero_config\<lparr>oc_length := 64\<rparr>\<rparr>" and ?st = "\<lparr>st_oe = demo_entry, st_fib = Some 7\<rparr>"
  let ?sf = "demo_route\<lparr>sf_scope := RT_SCOPE_LINK, sf_gateway := 0\<rparr>"
  have ok: "sfmc_ok (se_hash demo_env) ?s"
    unfolding demo_env_def
    by (simp, rule sfmc_ok_table [OF demo_stuck_ok])
      (use sfmc_okD [OF demo_stuck_ok] in \<open>simp_all add: vdev_ok_def table_ok_def cache_ok_def\<close>)
  have m: "sfmc_wq ?s = []" "4 \<le> mem_left (sfmc_mem ?s)"
    by (simp_all add: demo_stuck_def demo_sfmc_def sfmc_zero_def demo_store_def)
  have i: "extract_id_from_packet (skb_data demo_skb) (sfmc_oc ?s) = Some 5"
    by (simp add: extract_id_from_packet_def read_bytes_def zero_config_def dec_config_def field_def) code_simp
  have st: "sfmc_table_find (se_hash demo_env) ?s 5 = Some ?st" "oe_dst (st_oe ?st) = 0x0302010A"
    by (simp_all add: demo_env_def demo_stuck_def demo_sfmc_def sfmc_table_find_def sfmc_table_head_def demo_hash_def
        demo_entry_def nth_list_update)
  have b: "best_route ?s 0x0302010A 7"
    using demo_best by (simp add: best_route_def route_matches_def demo_stuck_def demo_sfmc_def fib_key_def)
  have f: "fibs ?s 7 = Some ?sf" by (simp add: demo_stuck_def)
  from e1000_connected_recovers [OF ok m i st b f, of 1] show ?thesis by (simp add: demo_env_def demo_route_def) blast
qed

section \<open>Refused packets\<close>

lemma e1000_refused_unchanged:
  assumes "e1000_encap_packet env skb d w = Some (rc, k, w')"
  shows "rc \<in> {0, - ENOENT} \<and> (rc = - ENOENT \<longrightarrow> k = skb)"
proof -
  have found: "rc \<in> {0, - ENOENT} \<and> (rc = - ENOENT \<longrightarrow> k = skb)" if "encap_found env skb d s st x = Some (rc, k, s')" for s st x s' rc k
    using that by (auto simp: encap_found_def bind_eq_Some_conv split: if_splits)
  have body: "rc \<in> {0, - ENOENT} \<and> (rc = - ENOENT \<longrightarrow> k = skb)" if "e1000_encap_body env skb d s = Some (rc, k, s')" for s s' rc k
    using that by (auto simp: e1000_encap_body_def bind_eq_Some_conv split: option.splits dest: found)
  show ?thesis using assms body by (auto simp: e1000_encap_packet_def bind_eq_Some_conv split: if_splits option.splits)
qed

text \<open>What the NIC drivers do with the module's answer. ixgbe frees a packet that is
  refused and sends every other one as the module left it. e1000 ignores the answer: a refused
  packet is handed to the hardware as it came, without outer headers.\<close>

lemma refused_packets_at_the_nic:
  assumes "sfmc_encap_packet env skb d w = Some (rc, k, w')" "e1000_encap_packet env skb d v = Some (rc2, k2, v')"
  shows "ixgbe_xmit_frame env hw skb d tx w = Some (if rc = - ENOENT then tx else hw k tx, w') \<and> rc \<in> {0, - ENOENT} \<and>
    e1000_xmit_frame env hw skb d tx v = Some (if rc2 = - ENOENT then hw skb tx else hw k2 tx, v') \<and> rc2 \<in> {0, - ENOENT}"
proof -
  have "rc \<in> {0, - ENOENT}"
    using assms(1) by (auto simp: sfmc_encap_packet_def encap_body_def encap_found_def bind_eq_Some_conv split: if_splits option.splits)
  with e1000_refused_unchanged [OF assms(2)] assms show ?thesis
    by (auto simp: ixgbe_xmit_frame_def e1000_xmit_frame_def)
qed

text \<open>A packet for an identifier without a locator entry.\<close>

abbreviation demo_lost :: sk_buff where
  "demo_lost \<equiv> \<lparr>skb_dst = Some 9, skb_data = [6, 0, 0, 0, 0, 0, 0, 0, 1, 2, 3]\<rparr>"

lemma refused_packets_at_the_nic_witness:
  "ixgbe_xmit_frame demo_env (#) demo_lost 1 [] demo_cfg = Some ([], demo_cfg) \<and>
   e1000_xmit_frame demo_env (#) demo_lost 1 [] demo_cfg = Some ([demo_lost], demo_cfg)"
proof -
  let ?s = "netdev_get_sfmc demo_cfg 1"
  have i: "extract_id_from_packet (skb_data demo_lost) (sfmc_oc ?s) = Some 6"
    by (simp add: demo_cfg_def extract_id_from_packet_def read_bytes_def zero_config_def dec_config_def field_def) code_simp
  have f: "sfmc_table_find demo_hash ?s 6 = None" "sfmc_table_find demo_hash ?s 0 = None"
    by (simp_all add: demo_cfg_def sfmc_table_find_def sfmc_table_head_def demo_sfmc_def demo_hash_def nth_list_update)
  have v: "first_slot (Some 9) (sfmc_vdev ?s) = Some 0"
    by (simp add: demo_cfg_def demo_sfmc_def numeral_nat replicate_Suc)
  have p: "put_sfmc demo_cfg 1 ?s = demo_cfg" by (simp add: put_sfmc_def)
  have "sfmc_encap_packet demo_env demo_lost 1 demo_cfg = Some (- ENOENT, demo_lost, demo_cfg)"
    "e1000_encap_packet demo_env demo_lost 1 demo_cfg = Some (- ENOENT, demo_lost, demo_cfg)"
    using i f v p by (simp_all add: sfmc_encap_packet_def e1000_encap_packet_def encap_body_def e1000_encap_body_def
        encap_lookup_def demo_env_def)
  from refused_packets_at_the_nic [OF this, of "(#)" "[]"] show ?thesis by simp
qed

end
