(* ===== verification/Tunnel_Stack.thy ===== *)
theory Tunnel_Stack
  imports Ip_Gre Sfmc_E1000
begin

text \<open>
  What the tunnel drivers promise, alone and on top of the madcap core and the software madcap
  NIC: link attributes survive a dump and a new request, the dump fits the size announced for
  it, modules register all or nothing, the header of a broadcast tunnel is the one its packets
  are sent under, and a packet of an offloaded tunnel leaves the NIC behind the outer headers
  exactly when the tunnel got a slot of the NIC and kept the packet's route.
\<close>

section \<open>Link attributes\<close>

lemma df_byte_get: "nla_get_u8 (df_byte f) \<noteq> 0 \<longleftrightarrow> f AND IP_DF \<noteq> 0" "length (df_byte f) = 1"
  by (simp_all add: df_byte_def)

lemma IP_DF_value: "IP_DF = 0x40"
  by (simp add: IP_DF_def) code_simp

lemma IP_DF_self [simp]: "IP_DF \<noteq> 0"
  by (simp_all add: IP_DF_value)

text \<open>The requests a tunnel's parameters can come from.\<close>

lemma ipip_parms_shape:
  "\<exists>link saddr daddr ttl tos df. ipip_netlink_parms rq = zero_parm\<lparr>p_link := link, p_iph := zero_iphdr\<lparr>iph_version := 4,
     iph_protocol := IPPROTO_IPIP, iph_ihl := 5, iph_saddr := saddr, iph_daddr := daddr, iph_ttl := ttl, iph_tos := tos,
     iph_frag_off := (if df then IP_DF else 0)\<rparr>\<rparr> \<and> (ttl \<noteq> 0 \<longrightarrow> df)"
proof (cases rq)
  case None
  then show ?thesis
    by (intro exI [of _ 0] exI [of _ False]) (simp add: ipip_netlink_parms_def zero_parm_def zero_iphdr_def)
next
  case (Some tb)
  define g where "g = (\<lambda>ty. case tb ty of None \<Rightarrow> 0 | Some bs \<Rightarrow> nla_get_u32 bs)"
  define h where "h = (\<lambda>ty. case tb ty of None \<Rightarrow> 0 | Some bs \<Rightarrow> nla_get_u8 bs)"
  show ?thesis
    by (rule exI [of _ "g IFLA_IPTUN_LINK"], rule exI [of _ "g IFLA_IPTUN_LOCAL"], rule exI [of _ "g IFLA_IPTUN_REMOTE"],
        rule exI [of _ "h IFLA_IPTUN_TTL"], rule exI [of _ "h IFLA_IPTUN_TOS"],
        rule exI [of _ "pmtudisc_on tb IFLA_IPTUN_PMTUDISC \<or> h IFLA_IPTUN_TTL \<noteq> 0"])
      (simp add: Some ipip_netlink_parms_def nla_set_def g_def h_def ipip_iph_ttl_def zero_parm_def zero_iphdr_def Let_def
        split: option.splits)
qed

lemma gre_parms_shape:
  "\<exists>link ifl ofl ikey okey saddr daddr ttl tos df. ipgre_netlink_parms kn rq = zero_parm\<lparr>p_link := link, p_i_flags := ifl,
     p_o_flags := ofl, p_i_key := ikey, p_o_key := okey, p_iph := zero_iphdr\<lparr>iph_protocol := IPPROTO_GRE, iph_saddr := saddr,
     iph_daddr := daddr, iph_ttl := ttl, iph_tos := tos, iph_frag_off := (if df then IP_DF else 0)\<rparr>\<rparr> \<and>
     (ifl = 0 \<or> ifl \<in> range (tk_to_tnl kn)) \<and> (ofl = 0 \<or> ofl \<in> range (tk_to_tnl kn))"
proof (cases rq)
  case None
  then show ?thesis
    by (intro exI [of _ 0] exI [of _ False]) (simp add: ipgre_netlink_parms_def zero_parm_def zero_iphdr_def)
next
  case (Some tb)
  define g where "g = (\<lambda>ty. case tb ty of None \<Rightarrow> 0 | Some bs \<Rightarrow> nla_get_u32 bs)"
  define f where "f = (\<lambda>ty. case tb ty of None \<Rightarrow> 0 | Some bs \<Rightarrow> tk_to_tnl kn (nla_get_u16 bs))"
  define h where "h = (\<lambda>ty. case tb ty of None \<Rightarrow> 0 | Some bs \<Rightarrow> nla_get_u8 bs)"
  show ?thesis
    by (rule exI [of _ "g IFLA_GRE_LINK"], rule exI [of _ "f IFLA_GRE_IFLAGS"], rule exI [of _ "f IFLA_GRE_OFLAGS"],
        rule exI [of _ "g IFLA_GRE_IKEY"], rule exI [of _ "g IFLA_GRE_OKEY"],
        rule exI [of _ "g IFLA_GRE_LOCAL"], rule exI [of _ "g IFLA_GRE_REMOTE"],
        rule exI [of _ "h IFLA_GRE_TTL"], rule exI [of _ "h IFLA_GRE_TOS"], rule exI [of _ "pmtudisc_on tb IFLA_GRE_PMTUDISC"])
      (simp add: Some ipgre_netlink_parms_def nla_set_def g_def h_def f_def zero_parm_def zero_iphdr_def Let_def
        split: option.splits)
qed

lemma encap_parms_dump:
  assumes "tb base = Some (le_bytes 2 (encap_type e))" "tb (base + 1) = Some (le_bytes 2 (encap_flags e))"
    "tb (base + 2) = Some (le_bytes 2 (encap_sport e))" "tb (base + 3) = Some (le_bytes 2 (encap_dport e))"
  shows "encap_parms base (Some tb) = (True, e)"
  using assms by (simp add: encap_parms_def nla_set_def zero_encap_def)

lemma ipip_roundtrip:
  assumes "t_parms (td_priv dev) = ipip_netlink_parms rq"
  shows "case ipip_fill_info dev \<lparr>nb_room = n, nb_attrs = []\<rparr> of (rc, b) \<Rightarrow>
    if ipip_get_size \<le> n then rc = 0 \<and> nb_room b = n - ipip_get_size \<and>
      ipip_netlink_parms (Some (nla_parse (nb_attrs b))) = ipip_netlink_parms rq \<and>
      ipip_netlink_encap_parms (Some (nla_parse (nb_attrs b))) = (True, t_encap (td_priv dev))
    else rc = - EMSGSIZE"
proof -
  obtain link saddr daddr ttl tos df where s: "t_parms (td_priv dev) = zero_parm\<lparr>p_link := link, p_iph := zero_iphdr\<lparr>iph_version := 4,
     iph_protocol := IPPROTO_IPIP, iph_ihl := 5, iph_saddr := saddr, iph_daddr := daddr, iph_ttl := ttl, iph_tos := tos,
     iph_frag_off := (if df then IP_DF else 0)\<rparr>\<rparr>" and df: "ttl \<noteq> 0 \<longrightarrow> df"
    unfolding assms using ipip_parms_shape [of rq] by blast
  have "nla_get_u8 (df_byte (if df then IP_DF else 0)) \<noteq> 0 \<longleftrightarrow> df" by (simp add: df_byte_get)
  with df show ?thesis
    unfolding assms [symmetric] s
    by (simp add: ipip_fill_info_def s put_all_fits attrs_size_def ipip_get_size_def df_byte_get(2) nla_parse_def
        ipip_netlink_encap_parms_def encap_parms_dump ipip_netlink_parms_def nla_set_def ipip_iph_ttl_def pmtudisc_on_def
        zero_iphdr_def Let_def)
qed

lemma gre_roundtrip:
  assumes "t_parms (td_priv dev) = ipgre_netlink_parms kn rq"
    and conv: "tk_to_tnl kn 0 = 0" "\<And>f. tk_to_tnl kn (tk_to_gre kn (tk_to_tnl kn f)) = tk_to_tnl kn f"
  shows "case ipgre_fill_info kn dev \<lparr>nb_room = n, nb_attrs = []\<rparr> of (rc, b) \<Rightarrow>
    if ipgre_get_size \<le> n then rc = 0 \<and> nb_room b = n - ipgre_get_size \<and>
      ipgre_netlink_parms kn (Some (nla_parse (nb_attrs b))) = ipgre_netlink_parms kn rq \<and>
      ipgre_netlink_encap_parms (Some (nla_parse (nb_attrs b))) = (True, t_encap (td_priv dev))
    else rc = - EMSGSIZE"
proof -
  obtain link ifl ofl ikey okey saddr daddr ttl tos df where s: "t_parms (td_priv dev) = zero_parm\<lparr>p_link := link, p_i_flags := ifl,
     p_o_flags := ofl, p_i_key := ikey, p_o_key := okey, p_iph := zero_iphdr\<lparr>iph_protocol := IPPROTO_GRE, iph_saddr := saddr,
     iph_daddr := daddr, iph_ttl := ttl, iph_tos := tos, iph_frag_off := (if df then IP_DF else 0)\<rparr>\<rparr>"
    and fl: "ifl = 0 \<or> ifl \<in> range (tk_to_tnl kn)" "ofl = 0 \<or> ofl \<in> range (tk_to_tnl kn)"
    unfolding assms(1) using gre_parms_shape [of kn rq] by blast
  have "tk_to_tnl kn (tk_to_gre kn x) = x" if "x = 0 \<or> x \<in> range (tk_to_tnl kn)" for x
    using that conv(2) [of 0] conv by auto
  moreover have "nla_get_u8 (df_byte (if df then IP_DF else 0)) \<noteq> 0 \<longleftrightarrow> df" by (simp add: df_byte_get)
  ultimately show ?thesis
    using fl unfolding assms(1) [symmetric] s
    by (simp add: ipgre_fill_info_def s put_all_fits attrs_size_def ipgre_get_size_def df_byte_get(2) nla_parse_def
        ipgre_netlink_encap_parms_def encap_parms_dump ipgre_netlink_parms_def nla_set_def pmtudisc_on_def
        zero_iphdr_def Let_def)
qed

text \<open>Property C32: a tunnel created over netlink can be dumped and created again from the dump. The
  attributes fit exactly when the message has the room \<^verbatim>\<open>get_size\<close> announces, and they are read
  back to the parameters and the encapsulation the tunnel has; otherwise the dump fails with
  \<^verbatim>\<open>-EMSGSIZE\<close>. For both drivers. (The kernel's conversion of GRE flags undoes its inverse.)\<close>

theorem tunnel_link_roundtrip:
  assumes ipip: "t_parms (td_priv dev) = ipip_netlink_parms rq"
    and gre: "t_parms (td_priv dev2) = ipgre_netlink_parms kn rq2"
    and conv: "tk_to_tnl kn 0 = 0" "\<And>f. tk_to_tnl kn (tk_to_gre kn (tk_to_tnl kn f)) = tk_to_tnl kn f"
  shows "(case ipip_fill_info dev \<lparr>nb_room = n, nb_attrs = []\<rparr> of (rc, b) \<Rightarrow>
      if ipip_get_size \<le> n then rc = 0 \<and> nb_room b = n - ipip_get_size \<and>
        ipip_netlink_parms (Some (nla_parse (nb_attrs b))) = ipip_netlink_parms rq \<and>
        ipip_netlink_encap_parms (Some (nla_parse (nb_attrs b))) = (True, t_encap (td_priv dev))
      else rc = - EMSGSIZE) \<and>
    (case ipgre_fill_info kn dev2 \<lparr>nb_room = n, nb_attrs = []\<rparr> of (rc, b) \<Rightarrow>
      if ipgre_get_size \<le> n then rc = 0 \<and> nb_room b = n - ipgre_get_size \<and>
        ipgre_netlink_parms kn (Some (nla_parse (nb_attrs b))) = ipgre_netlink_parms kn rq2 \<and>
        ipgre_netlink_encap_parms (Some (nla_parse (nb_attrs b))) = (True, t_encap (td_priv dev2))
      else rc = - EMSGSIZE)"
  by (rule conjI [OF ipip_roundtrip [OF ipip] gre_roundtrip [OF gre conv]])

definition demo_tunnel :: ip_tunnel where
  "demo_tunnel = \<lparr>t_parms = zero_parm, t_encap = zero_encap, t_o_seqno = 7, t_tun_hlen = 4, t_hlen = 4, t_encap_hlen = 0,
     t_err_count = 0, t_err_time = 0, t_mlink = 0\<rparr>"

definition demo_tdev :: tnl_dev where
  "demo_tdev = \<lparr>td_priv = demo_tunnel, td_dev_addr = replicate 32 0, td_broadcast = replicate 32 0, td_flags = IFF_NOARP,
     td_header_ops = False, td_needed_headroom = 60, td_mtu = 1472, td_lltx = True, td_keep_dst = True, td_tx_errors = 0,
     td_tx_dropped = 0\<rparr>"

text \<open>A kernel: the flags as they are, a device with index 3 at address 1, the base GRE header.\<close>

definition demo_kern :: tnl_kern where
  "demo_kern = \<lparr>tk_dev_by_index = (\<lambda>i. if i = 3 then Some 1 else None), tk_lookup = (\<lambda>tap ifindex fl r l key. None),
     tk_policy_check = (\<lambda>p. True), tk_pull_header = (\<lambda>p. Some (drop 20 p)), tk_offloads = (\<lambda>c p. Some p), tk_cow_head = (\<lambda>n. True),
     tk_encap_setup = (\<lambda>e t. (0, t\<lparr>t_encap := e\<rparr>)),
     tk_newlink = (\<lambda>p dev. (0, dev\<lparr>td_priv := (td_priv dev)\<lparr>t_parms := p\<rparr>\<rparr>)),
     tk_changelink = (\<lambda>p dev. (0, dev\<lparr>td_priv := (td_priv dev)\<lparr>t_parms := p\<rparr>\<rparr>)),
     tk_init = (\<lambda>dev. (0, dev)), tk_ioctl = (\<lambda>cmd p dev. (0, p, dev)), tk_timeo = 300,
     tk_build_header = (\<lambda>fl proto key sq hlen. le_bytes 2 fl @ le_bytes 2 proto), tk_calc_hlen = (\<lambda>f. 4),
     tk_to_tnl = (\<lambda>f. f), tk_to_gre = (\<lambda>f. f)\<rparr>"

theorem tunnel_link_roundtrip_witness:
  "\<exists>b. ipgre_fill_info demo_kern (demo_tdev\<lparr>td_priv := demo_tunnel\<lparr>t_parms := ipgre_netlink_parms demo_kern (Some [8 \<mapsto> [64]])\<rparr>\<rparr>)
      \<lparr>nb_room = 200, nb_attrs = []\<rparr> = (0, b) \<and>
    ipgre_netlink_parms demo_kern (Some (nla_parse (nb_attrs b))) = ipgre_netlink_parms demo_kern (Some [8 \<mapsto> [64]])"
proof -
  let ?p = "ipgre_netlink_parms demo_kern (Some [8 \<mapsto> [64]])"
  let ?d = "demo_tdev\<lparr>td_priv := demo_tunnel\<lparr>t_parms := ?p\<rparr>\<rparr>"
  have i: "t_parms (td_priv (demo_tdev\<lparr>td_priv := demo_tunnel\<lparr>t_parms := ipip_netlink_parms None\<rparr>\<rparr>)) = ipip_netlink_parms None"
    "t_parms (td_priv ?d) = ?p" by simp_all
  obtain rc b where b: "ipgre_fill_info demo_kern ?d \<lparr>nb_room = 200, nb_attrs = []\<rparr> = (rc, b)" by fastforce
  have "ipgre_get_size \<le> 200" by (simp add: ipgre_get_size_def)
  with tunnel_link_roundtrip [OF i(1,2), of 200] b show ?thesis by (simp add: demo_kern_def)
qed

text \<open>The comment at the head of \<^verbatim>\<open>ip_gre.c\<close> says that a tunnel with a preconfigured hop limit gets the
  DF flag. IPIP enforces that; a GRE tunnel created over netlink with a hop limit and without path
  MTU discovery has none.\<close>

lemma gre_hop_limit_without_df:
  "iph_ttl (p_iph (ipgre_netlink_parms kn (Some [IFLA_GRE_TTL \<mapsto> [64], IFLA_GRE_PMTUDISC \<mapsto> [0]]))) = 64 \<and>
   iph_frag_off (p_iph (ipgre_netlink_parms kn (Some [IFLA_GRE_TTL \<mapsto> [64], IFLA_GRE_PMTUDISC \<mapsto> [0]]))) = 0 \<and>
   iph_frag_off (p_iph (ipip_netlink_parms (Some [IFLA_IPTUN_TTL \<mapsto> [64], IFLA_IPTUN_PMTUDISC \<mapsto> [0]]))) = IP_DF"
  by (simp add: ipgre_netlink_parms_def ipip_netlink_parms_def nla_set_def pmtudisc_on_def ipip_iph_ttl_def zero_iphdr_def)

section \<open>Modules\<close>

text \<open>Loading a tunnel module registers all of its parts or, when one registration fails,
  returns that error with nothing left registered; unloading removes everything.\<close>

lemma tunnel_modules_all_or_nothing:
  "(case ipip_init rc of (err, r) \<Rightarrow>
     (if err < 0 then r = {} else r = {Pernet_ipip, Xfrm4_tunnel, Rtnl_ipip}) \<and> ipip_fini r = {} \<and>
     (err < 0 \<longleftrightarrow> rc Pernet_ipip < 0 \<or> rc Xfrm4_tunnel < 0 \<or> rc Rtnl_ipip < 0)) \<and>
   (case ipgre_init rc of (err, r) \<Rightarrow>
     (if err < 0 then r = {} else r = {Pernet_ipgre, Pernet_gre_tap, Gre_cisco, Rtnl_gre, Rtnl_gretap}) \<and> ipgre_fini r = {} \<and>
     (err < 0 \<longleftrightarrow> rc Pernet_ipgre < 0 \<or> rc Pernet_gre_tap < 0 \<or> rc Gre_cisco < 0 \<or> rc Rtnl_gre < 0 \<or> rc Rtnl_gretap < 0))"
  by (simp add: ipip_init_def ipip_fini_def ipgre_init_def ipgre_fini_def Let_def insert_Diff_if insert_commute)

section \<open>Broadcast tunnels\<close>

lemma iphdr_roundtrip: "dec_iphdr (enc_iphdr h) = h" "length (enc_iphdr h) = 20"
proof -
  have v: "ucast (drop_bit 4 (push_bit 4 (ucast v :: u8)) OR drop_bit 4 (ucast l :: u8)) = v" "(ucast (push_bit 4 (ucast v :: u8) OR ucast l) :: 4 word) = l"
    for v l :: "4 word"
    by (rule bit_word_eqI; auto simp: bit_simps dest: bit_imp_le_length)+
  show "dec_iphdr (enc_iphdr h) = h" by (simp add: dec_iphdr_def enc_iphdr_def v wire_simps nth_append)
  show "length (enc_iphdr h) = 20" by (simp add: enc_iphdr_def)
qed

text \<open>The tunnel after a packet, and the GRE packet itself.\<close>

definition next_seq :: "ip_tunnel \<Rightarrow> ip_tunnel" where
  "next_seq t = (if p_o_flags (t_parms t) AND TUNNEL_SEQ \<noteq> 0 then t\<lparr>t_o_seqno := t_o_seqno t + 1\<rparr> else t)"

definition gre_packet :: "tnl_kern \<Rightarrow> tnl_dev \<Rightarrow> u16 \<Rightarrow> u8 list \<Rightarrow> u8 list" where
  "gre_packet kn dev proto pkt =
     (let t = next_seq (td_priv dev) in
      tk_build_header kn (p_o_flags (t_parms t)) proto (p_o_key (t_parms t)) (htonl (t_o_seqno t)) (t_tun_hlen t) @ pkt)"

lemma gre_xmit_packet:
  "gre_xmit kn mnet enable pkt tiph proto dev =
     (case madcap_link kn mnet enable (p_link (t_parms (td_priv dev))) of
        Some l \<Rightarrow> TMadcap l (gre_packet kn dev proto pkt)
      | None \<Rightarrow> TTunnel (gre_packet kn dev proto pkt) tiph (iph_protocol tiph), dev\<lparr>td_priv := next_seq (td_priv dev)\<rparr>)"
  by (auto simp: gre_xmit_def gre_packet_def next_seq_def Let_def split: option.splits)

text \<open>A tunnel without a fixed peer (or with a multicast one) takes the addresses of each
  packet from the header its header operation put in front: sending strips that header again
  and hands the packet on behind a GRE header, under the tunnel's IP header with those
  addresses; the source is what the header operation's parser reads back. On a madcap link the
  same GRE packet is queued, and the addresses of the packet are not used.\<close>

lemma gre_header_roundtrip:
  assumes dev: "td_header_ops dev" "length junk = t_hlen (td_priv dev)" "4 \<le> length junk"
    and kern: "\<And>n. tk_cow_head kn n" "\<And>c. tk_offloads kn c pkt = Some pkt"
    and hdr: "ipgre_header kn junk ty daddr saddr pkt dev = (rc, frame)"
    and iph: "iph = (p_iph (t_parms (td_priv dev)))\<lparr>iph_saddr := (case saddr of Some a \<Rightarrow> a | None \<Rightarrow> iph_saddr (p_iph (t_parms (td_priv dev)))),
        iph_daddr := (case daddr of Some a \<Rightarrow> a | None \<Rightarrow> iph_daddr (p_iph (t_parms (td_priv dev))))\<rparr>"
  shows "rc = (if iph_daddr iph \<noteq> 0 then 1 else - 1) * (int (t_hlen (td_priv dev)) + 20) \<and>
    ipgre_header_parse frame = Some (4, le_bytes 4 (iph_saddr iph)) \<and>
    ipgre_xmit kn mnet enable proto frame dev = Some (
      case madcap_link kn mnet enable (p_link (t_parms (td_priv dev))) of
        Some l \<Rightarrow> TMadcap l (gre_packet kn dev proto pkt)
      | None \<Rightarrow> TTunnel (gre_packet kn dev proto pkt) iph (iph_protocol iph), dev\<lparr>td_priv := next_seq (td_priv dev)\<rparr>)"
proof -
  let ?t = "td_priv dev"
  define greh where "greh = le_bytes 2 (tk_to_gre kn (p_o_flags (t_parms ?t))) @ le_bytes 2 (htons ty) @ drop 4 junk"
  have len: "length greh = t_hlen ?t" using dev(2,3) by (simp add: greh_def)
  have f: "frame = enc_iphdr iph @ greh @ pkt" "rc = (if iph_daddr iph \<noteq> 0 then int (t_hlen ?t + 20) else - int (t_hlen ?t + 20))"
    using hdr by (auto simp: ipgre_header_def greh_def iph Let_def split: option.splits)
  have "gre_tnl_params dev frame = Some (iph, pkt)"
    using dev(1) len by (simp add: gre_tnl_params_def f read_bytes_def iphdr_roundtrip skb_pull_def)
  then have "ipgre_xmit kn mnet enable proto frame dev = Some (gre_xmit kn mnet enable pkt iph proto dev)"
    using kern by (simp add: ipgre_xmit_def Let_def)
  moreover have "ipgre_header_parse frame = Some (4, le_bytes 4 (iph_saddr iph))"
    by (simp add: ipgre_header_parse_def f read_bytes_def iphdr_roundtrip enc_iphdr_def)
  ultimately show ?thesis using f(2) by (simp add: gre_xmit_packet)
qed

lemma gre_header_roundtrip_witness:
  "ipgre_xmit demo_kern (madcap_init_net :: sfmc_world madcap_net) False 8
      (snd (ipgre_header demo_kern [0, 0, 0, 0] 0x0800 (Some 9) (Some 5) [1, 2, 3] (demo_tdev\<lparr>td_header_ops := True\<rparr>)))
      (demo_tdev\<lparr>td_header_ops := True\<rparr>) =
    Some (TTunnel [0, 0, 8, 0, 1, 2, 3] (zero_iphdr\<lparr>iph_saddr := 5, iph_daddr := 9\<rparr>) 0, demo_tdev\<lparr>td_header_ops := True\<rparr>)"
proof -
  let ?d = "demo_tdev\<lparr>td_header_ops := True\<rparr>"
  have z: "le_bytes 2 (0 :: u16) = [0, 0]" "le_bytes 2 (8 :: u16) = [8, 0]" by code_simp+
  have d: "td_header_ops ?d" "length [0, 0, 0, 0 :: u8] = t_hlen (td_priv ?d)" "4 \<le> length [0, 0, 0, 0 :: u8]"
    by (simp_all add: demo_tdev_def demo_tunnel_def)
  have k: "tk_cow_head demo_kern n" "tk_offloads demo_kern c p = Some p" for n c p by (simp_all add: demo_kern_def)
  obtain rc frame where f: "ipgre_header demo_kern [0, 0, 0, 0] 0x0800 (Some 9) (Some 5) [1, 2, 3] ?d = (rc, frame)" by fastforce
  have n: "next_seq demo_tunnel = demo_tunnel" by (simp add: next_seq_def demo_tunnel_def zero_parm_def)
  have "gre_packet demo_kern ?d 8 [1, 2, 3] = [0, 0, 8, 0, 1, 2, 3]"
    by (simp add: gre_packet_def demo_tdev_def n) (simp add: demo_kern_def demo_tunnel_def zero_parm_def z)
  with gre_header_roundtrip [OF d k(1) k(2) f refl, of "madcap_init_net :: sfmc_world madcap_net" False 8] f show ?thesis
    by (simp add: madcap_link_def demo_tdev_def n) (simp add: demo_tunnel_def zero_parm_def zero_iphdr_def)
qed

section \<open>Offloaded tunnels on a software madcap NIC\<close>

text \<open>The packet as the NIC's driver sees it: the kernel drops a packet's route before it hands the
  packet to the tunnel device, unless the driver asked to keep it.\<close>

definition tunnel_skb :: "tnl_dev \<Rightarrow> addr \<Rightarrow> u8 list \<Rightarrow> sk_buff" where
  "tunnel_skb dev d pkt = \<lparr>skb_dst = (if td_keep_dst dev then Some d else None), skb_data = pkt\<rparr>"

lemma not_acquired_raw:
  assumes "\<not> td_keep_dst dev \<or> Some d \<notin> set (sfmc_vdev (netdev_get_sfmc w l))"
  shows "ixgbe_xmit_frame env hw (tunnel_skb dev d pkt) l tx w = Some (hw (tunnel_skb dev d pkt) tx, w)"
  using assms by (auto simp: ixgbe_xmit_frame_def sfmc_encap_packet_def tunnel_skb_def
      dest: first_slot_mem split: option.splits)

lemma acquired_encapsulated:
  assumes ok: "sfmc_ok (se_hash env) (netdev_get_sfmc w l)" and en: "madcap_enable env"
    and acq: "td_keep_dst dev" "Some d \<in> set (sfmc_vdev (netdev_get_sfmc w l))"
    and i: "extract_id_from_packet pkt (sfmc_oc (netdev_get_sfmc w l)) = Some i"
    and st: "encap_lookup (se_hash env) (netdev_get_sfmc w l) i = Some st"
    and rt: "st_fib st = Some sfa \<or> st_fib st = None \<and> best_route (netdev_get_sfmc w l) (oe_dst (st_oe st)) sfa"
      "fibs (netdev_get_sfmc w l) sfa = Some sf"
    and up: "sf_scope sf = RT_SCOPE_LINK \<longrightarrow> sf_gateway sf = oe_dst (st_oe st)" "sf_nud sf AND NUD_VALID \<noteq> 0"
  shows "\<exists>w'. ixgbe_xmit_frame env hw (tunnel_skb dev d pkt) l tx w = Some (hw (tunnel_skb dev d
    (encap_headers (netdev_get_sfmc w l) (perm_addr env l) (oe_dst (st_oe st)) (sf_mac sf) pkt)) tx, w')"
proof -
  have s: "skb_dst (tunnel_skb dev d pkt) = Some d" "skb_data (tunnel_skb dev d pkt) = pkt"
    using acq(1) by (simp_all add: tunnel_skb_def)
  obtain w' where "sfmc_encap_packet env (tunnel_skb dev d pkt) l w = Some (0, (tunnel_skb dev d pkt)\<lparr>skb_data :=
      encap_headers (netdev_get_sfmc w l) (perm_addr env l) (oe_dst (st_oe st)) (sf_mac sf) pkt\<rparr>, w')"
    using encap_runs [OF ok en s(1) acq(2) _ st rt up] i s(2) by auto
  then show ?thesis by (simp add: ixgbe_xmit_frame_def tunnel_skb_def)
qed

lemma acquire_slot:
  assumes reg: "get_madcap_ops mnet l = Some (sfmc_madcap_ops hash)"
  obtains v where "netdev_get_sfmc (snd (madcap_acquire_dev mnet l d w)) l = (netdev_get_sfmc w l)\<lparr>sfmc_vdev := v\<rparr>"
    "Some d \<in> set v \<longleftrightarrow> Some d \<in> set (sfmc_vdev (netdev_get_sfmc w l)) \<or> None \<in> set (sfmc_vdev (netdev_get_sfmc w l))"
    "None \<notin> set (sfmc_vdev (netdev_get_sfmc w l)) \<longrightarrow> snd (madcap_acquire_dev mnet l d w) = w"
proof -
  let ?v = "sfmc_vdev (netdev_get_sfmc w l)"
  have a: "madcap_acquire_dev mnet l d w = sfmc_acquire_dev l d w"
    using reg by (simp add: madcap_acquire_dev_def dispatch_def sfmc_madcap_ops_def)
  show ?thesis
  proof (cases "first_slot (Some d) ?v")
    case (Some k)
    then have "Some d \<in> set ?v" by (rule first_slot_mem)
    with Some a that [of ?v] show ?thesis by (simp add: sfmc_acquire_dev_def)
  next
    case old: None
    then have new: "Some d \<notin> set ?v" by (simp add: slot_simps)
    show ?thesis
    proof (cases "first_slot None ?v")
      case None
      then have "None \<notin> set ?v" by (simp add: slot_simps)
      with None old new a that [of ?v] show ?thesis by (simp add: sfmc_acquire_dev_def)
    next
      case (Some k)
      then have "k < length ?v" by (simp add: first_slot_Some)
      moreover have "None \<in> set ?v" using Some by (rule first_slot_mem)
      ultimately show ?thesis using Some old a that [of "?v[k := Some d]"] set_store [of k ?v "Some d"] by (simp add: sfmc_acquire_dev_def Let_def)
    qed
  qed
qed

text \<open>What a GRE tunnel's creation does to the NIC.\<close>

lemma newlink_acquires:
  assumes reg: "get_madcap_ops mnet l = Some (sfmc_madcap_ops hash)"
    and idx: "tk_dev_by_index kn (p_link (ipgre_netlink_parms kn rq)) = Some l"
    and new: "ipgre_newlink kn mnet True d rq dev w = (0, dev', w')"
  shows "w' = snd (madcap_acquire_dev mnet l d w)"
  using new idx reg by (auto simp: ipgre_newlink_def madcap_link_def Let_def split: prod.splits if_splits)

text \<open>Property C11: a GRE tunnel created over a software madcap NIC. Its packets are queued on the NIC
  behind their GRE header. If the NIC had one of its 16 slots free, the driver wraps them in the
  outer Ethernet, IP and UDP headers of the packet's locator. If not, the tunnel is created all the
  same, nothing changes at the NIC, and its packets are sent as they are, with no outer
  headers at all.\<close>

theorem gre_tunnel_over_sfmc:
  assumes ok: "sfmc_ok (se_hash env) (netdev_get_sfmc w l)" and en: "madcap_enable env"
    and reg: "get_madcap_ops mnet l = Some (sfmc_madcap_ops (se_hash env))"
    and idx: "tk_dev_by_index kn (p_link (ipgre_netlink_parms kn rq)) = Some l"
    and new: "ipgre_newlink kn mnet True d rq dev w = (0, dev', w')" "Some d \<notin> set (sfmc_vdev (netdev_get_sfmc w l))"
    and kern: "t_parms (td_priv dev') = ipgre_netlink_parms kn rq" "td_keep_dst dev'" "\<not> td_header_ops dev'"
      "\<And>n. tk_cow_head kn n" "\<And>c. tk_offloads kn c pkt = Some pkt"
    and i: "extract_id_from_packet (gre_packet kn dev' proto pkt) (sfmc_oc (netdev_get_sfmc w l)) = Some i"
    and st: "encap_lookup (se_hash env) (netdev_get_sfmc w l) i = Some st" "st_fib st = None"
    and rt: "best_route (netdev_get_sfmc w l) (oe_dst (st_oe st)) sfa" "fibs (netdev_get_sfmc w l) sfa = Some sf"
    and up: "sf_scope sf = RT_SCOPE_LINK \<longrightarrow> sf_gateway sf = oe_dst (st_oe st)" "sf_nud sf AND NUD_VALID \<noteq> 0"
  shows "\<exists>dev2. ipgre_xmit kn mnet True proto pkt dev' = Some (TMadcap l (gre_packet kn dev' proto pkt), dev2) \<and>
    (if None \<in> set (sfmc_vdev (netdev_get_sfmc w l))
     then \<exists>w2. ixgbe_xmit_frame env hw (tunnel_skb dev' d (gre_packet kn dev' proto pkt)) l tx w' =
       Some (hw (tunnel_skb dev' d (encap_headers (netdev_get_sfmc w l) (perm_addr env l) (oe_dst (st_oe st)) (sf_mac sf)
         (gre_packet kn dev' proto pkt))) tx, w2)
     else w' = w \<and> ixgbe_xmit_frame env hw (tunnel_skb dev' d (gre_packet kn dev' proto pkt)) l tx w' =
       Some (hw (tunnel_skb dev' d (gre_packet kn dev' proto pkt)) tx, w))"
proof -
  let ?s = "netdev_get_sfmc w l" and ?p = "gre_packet kn dev' proto pkt"
  note w' = newlink_acquires [OF reg idx new(1)]
  obtain v where v: "netdev_get_sfmc w' l = ?s\<lparr>sfmc_vdev := v\<rparr>" "Some d \<in> set v \<longleftrightarrow> Some d \<in> set (sfmc_vdev ?s) \<or> None \<in> set (sfmc_vdev ?s)"
      "None \<notin> set (sfmc_vdev ?s) \<longrightarrow> w' = w"
    unfolding w' by (rule acquire_slot [OF reg])
  have "madcap_link kn mnet True (p_link (t_parms (td_priv dev'))) = Some l" using idx reg kern(1) by (simp add: madcap_link_def)
  then have x: "ipgre_xmit kn mnet True proto pkt dev' = Some (TMadcap l ?p, dev'\<lparr>td_priv := next_seq (td_priv dev')\<rparr>)"
    using kern by (simp add: ipgre_xmit_def gre_tnl_params_def gre_xmit_packet Let_def)
  have ok': "sfmc_ok (se_hash env) (netdev_get_sfmc w' l)"
    using acquire_ok [OF ok, of d] reg unfolding w' by (simp add: madcap_acquire_dev_def dispatch_def sfmc_madcap_ops_def)
  have b: "best_route (netdev_get_sfmc w' l) (oe_dst (st_oe st)) sfa"
    using rt(1) unfolding v(1) by (simp add: best_route_def route_matches_def)
  have h: "encap_headers (netdev_get_sfmc w' l) = encap_headers ?s" unfolding v(1) by (intro ext) (simp add: encap_headers_def)
  have find: "sfmc_table_find (se_hash env) (netdev_get_sfmc w' l) = sfmc_table_find (se_hash env) ?s"
    unfolding v(1) by (intro ext) (simp add: sfmc_table_find_def)
  have k: "encap_lookup (se_hash env) (netdev_get_sfmc w' l) i = Some st"
    using st(1) unfolding encap_lookup_def find .
  have "\<exists>w2. ixgbe_xmit_frame env hw (tunnel_skb dev' d ?p) l tx w' =
      Some (hw (tunnel_skb dev' d (encap_headers ?s (perm_addr env l) (oe_dst (st_oe st)) (sf_mac sf) ?p)) tx, w2)"
    if "None \<in> set (sfmc_vdev ?s)"
    unfolding h [symmetric]
    by (rule acquired_encapsulated [OF ok' en kern(2) _ _ k]) (use that v(1,2) i st(2) b rt(2) up in simp_all)
  moreover have "ixgbe_xmit_frame env hw (tunnel_skb dev' d ?p) l tx w' = Some (hw (tunnel_skb dev' d ?p) tx, w)"
    if "None \<notin> set (sfmc_vdev ?s)"
    using not_acquired_raw [of dev' d w l env hw ?p tx] that new(2) v(3) by simp
  ultimately show ?thesis using x v(3) by auto
qed

definition demo_gre :: sfmc_world where
  "demo_gre = put_sfmc demo_world 1 (demo_sfmc\<lparr>sfmc_oc := zero_config\<lparr>oc_length := 64, oc_offset := 4, oc_src := 1\<rparr>\<rparr>)"

definition demo_mnet :: "sfmc_world madcap_net" where
  "demo_mnet = snd (madcap_register_device madcap_init_net 1 (sfmc_madcap_ops demo_hash))"

lemma demo_gre_ok: "sfmc_ok (se_hash demo_env) (netdev_get_sfmc demo_gre 1)"
  unfolding demo_gre_def demo_env_def
  by (simp, rule sfmc_ok_table [OF demo_sfmc_ok])
    (use sfmc_okD [OF demo_sfmc_ok] in \<open>simp_all add: vdev_ok_def table_ok_def cache_ok_def\<close>)

lemma demo_mnet_ops: "get_madcap_ops demo_mnet 1 = Some (sfmc_madcap_ops demo_hash)"
  by (simp add: demo_mnet_def madcap_register_device_def madcap_init_net_def get_madcap_ops_def numeral_nat replicate_Suc)

theorem gre_tunnel_over_sfmc_witness:
  "\<exists>dev' w' p w2. ipgre_newlink demo_kern demo_mnet True 4 (Some [1 \<mapsto> le_bytes 4 (3 :: u32)]) demo_tdev demo_gre = (0, dev', w') \<and>
    fst (the (ipgre_xmit demo_kern demo_mnet True 8 [5, 0, 0, 0, 0, 0, 0, 0, 1] dev')) = TMadcap 1 p \<and>
    ixgbe_xmit_frame demo_env (#) (tunnel_skb dev' 4 p) 1 [] w' =
      Some ([tunnel_skb dev' 4 (encap_headers (netdev_get_sfmc demo_gre 1) [2, 0, 0, 0, 0, 9] (oe_dst demo_entry) [2, 0, 0, 0, 0, 1] p)], w2)"
proof -
  let ?rq = "Some [1 \<mapsto> le_bytes 4 (3 :: u32)]" and ?s = "netdev_get_sfmc demo_gre 1" and ?pkt = "[5, 0, 0, 0, 0, 0, 0, 0, 1] :: u8 list"
  have link: "p_link (ipgre_netlink_parms demo_kern ?rq) = 3"
    by (simp add: ipgre_netlink_parms_def nla_set_def zero_parm_def Let_def)
  have idx: "tk_dev_by_index demo_kern (p_link (ipgre_netlink_parms demo_kern ?rq)) = Some 1" unfolding link by (simp add: demo_kern_def)
  have reg: "get_madcap_ops demo_mnet 1 = Some (sfmc_madcap_ops (se_hash demo_env))" using demo_mnet_ops by (simp add: demo_env_def)
  let ?dev = "demo_tdev\<lparr>td_priv := demo_tunnel\<lparr>t_parms := ipgre_netlink_parms demo_kern ?rq\<rparr>\<rparr>"
  have "fst (ipgre_netlink_encap_parms ?rq) = False" by (simp add: ipgre_netlink_encap_parms_def encap_parms_def)
  moreover have "tk_newlink demo_kern q demo_tdev = (0, demo_tdev\<lparr>td_priv := demo_tunnel\<lparr>t_parms := q\<rparr>\<rparr>)" for q
    by (simp add: demo_kern_def demo_tdev_def)
  ultimately have new: "ipgre_newlink demo_kern demo_mnet True 4 ?rq demo_tdev demo_gre =
      (0, ?dev, snd (madcap_acquire_dev demo_mnet 1 4 demo_gre))"
    using idx demo_mnet_ops by (simp add: ipgre_newlink_def setup_encap_def madcap_link_def Let_def)
  have f: "p_o_flags (ipgre_netlink_parms demo_kern ?rq) = 0"
    by (simp add: ipgre_netlink_parms_def nla_set_def zero_parm_def Let_def)
  have z: "le_bytes 2 (0 :: u16) = [0, 0]" "le_bytes 2 (8 :: u16) = [8, 0]" by code_simp+
  have "next_seq (demo_tunnel\<lparr>t_parms := ipgre_netlink_parms demo_kern ?rq\<rparr>) = demo_tunnel\<lparr>t_parms := ipgre_netlink_parms demo_kern ?rq\<rparr>"
    using f by (simp add: next_seq_def)
  then have p: "gre_packet demo_kern ?dev 8 ?pkt = [0, 0, 8, 0] @ ?pkt"
    using f by (simp add: gre_packet_def) (simp add: demo_kern_def z)
  have i: "extract_id_from_packet (gre_packet demo_kern ?dev 8 ?pkt) (sfmc_oc ?s) = Some 5"
    unfolding p by (simp add: demo_gre_def extract_id_from_packet_def read_bytes_def zero_config_def dec_config_def field_def)
  have l: "encap_lookup (se_hash demo_env) ?s 5 = Some \<lparr>st_oe = demo_entry, st_fib = None\<rparr>"
    by (simp add: demo_env_def demo_gre_def encap_lookup_def sfmc_table_find_def sfmc_table_head_def demo_sfmc_def demo_hash_def
        demo_entry_def nth_list_update)
  have b: "best_route ?s (oe_dst (st_oe \<lparr>st_oe = demo_entry, st_fib = None\<rparr>)) 7" "fibs ?s 7 = Some demo_route"
    using demo_best by (simp_all add: best_route_def route_matches_def demo_gre_def demo_entry_def demo_sfmc_def)
  have v: "Some 4 \<notin> set (sfmc_vdev ?s)" "None \<in> set (sfmc_vdev ?s)"
    by (simp_all add: demo_gre_def demo_sfmc_def numeral_nat replicate_Suc)
  have k: "td_keep_dst ?dev" "\<not> td_header_ops ?dev" "t_parms (td_priv ?dev) = ipgre_netlink_parms demo_kern ?rq"
    "tk_cow_head demo_kern n" "tk_offloads demo_kern c q = Some q" for n c q by (simp_all add: demo_tdev_def demo_kern_def)
  have e: "madcap_enable demo_env" by (simp add: demo_env_def)
  have u: "sf_scope demo_route = RT_SCOPE_LINK \<longrightarrow> sf_gateway demo_route = oe_dst (st_oe \<lparr>st_oe = demo_entry, st_fib = None\<rparr>)"
    "sf_nud demo_route AND NUD_VALID \<noteq> 0" by (simp_all add: demo_route_def)
  from gre_tunnel_over_sfmc [OF demo_gre_ok e reg idx new v(1) k(3,1,2,4,5) i l _ b u, of "(#)" "[]"] v(2) new show ?thesis
    by (fastforce simp: demo_env_def demo_route_def)
qed

text \<open>An Ethernet (\<^verbatim>\<open>gretap\<close>) tunnel never asks to keep the packets' routes, so its packets are never
  recognised by the NIC and always sent without outer headers.\<close>

lemma gretap_never_encapsulated:
  assumes "\<not> td_keep_dst dev" "madcap_link kn mnet True (p_link (t_parms (td_priv dev))) = Some l"
    "\<And>n. tk_cow_head kn n" "\<And>c. tk_offloads kn c pkt = Some pkt"
  shows "\<exists>p dev2. gre_tap_xmit kn mnet True pkt dev = (TMadcap l p, dev2) \<and>
    ixgbe_xmit_frame env hw (tunnel_skb dev d p) l tx w = Some (hw (tunnel_skb dev d p) tx, w)"
  using assms not_acquired_raw [of dev d w l env hw _ tx] by (simp add: gre_tap_xmit_def gre_xmit_packet)

end
