(* ===== verification/Vxlan_Fdb.thy ===== *)
theory Vxlan_Fdb
  imports Bucket_Table Ip_Tunnel
begin

text \<open>
  \<^verbatim>\<open>protocol-drivers-4.2.0/vxlan/vxlan.c\<close>, the forwarding table of a VXLAN device: a hash table
  from Ethernet addresses to lists of remote endpoints, written by netlink requests, by learning
  from received frames and by ageing. The address of all zeros is the default destination.

  An endpoint address is IPv4 or IPv6 (\<^verbatim>\<open>CONFIG_IPV6\<close> is on). A result \<open>None\<close> is a read of the
  first remote of an entry that has none. Notifications are kept in the order they were sent.
  \<open>vx_mem\<close> is how many atomic allocations still succeed. The kernel's hash function, clock and device
  lookup are parameters.
\<close>

section \<open>State\<close>

datatype vxlan_addr = IN4 u32 | IN6 "u8 list"

record vxlan_rdst =
  rd_ip :: vxlan_addr
  rd_port :: u16
  rd_vni :: u32
  rd_ifindex :: u32

record vxlan_fdb =
  f_updated :: u64
  f_used :: u64
  f_remotes :: "vxlan_rdst list"
  f_state :: u16
  f_flags :: u8
  f_eth_addr :: "u8 list"

datatype rtm = RTM_NEWNEIGH | RTM_DELNEIGH | RTM_GETNEIGH

record vxlan_dev =
  vx_default_dst :: vxlan_rdst
  vx_saddr :: vxlan_addr
  vx_dst_port :: u16
  vx_port_min :: u16
  vx_port_max :: u16
  vx_tos :: u8
  vx_ttl :: u8
  vx_flags :: u32
  vx_age_interval :: u64
  vx_addrcnt :: u32
  vx_addrmax :: u32
  vx_mcdev :: ptr
  vx_fdb :: "vxlan_fdb list list"
  vx_mem :: nat
  vx_notified :: "(rtm \<times> vxlan_fdb \<times> vxlan_rdst) list"

abbreviation (input) NUD_REACHABLE :: u16 where "NUD_REACHABLE \<equiv> 0x02"
abbreviation (input) NUD_STALE :: u16 where "NUD_STALE \<equiv> 0x04"
abbreviation (input) NUD_NOARP :: u16 where "NUD_NOARP \<equiv> 0x40"
abbreviation (input) NUD_PERMANENT :: u16 where "NUD_PERMANENT \<equiv> 0x80"
abbreviation (input) NLM_F_REPLACE :: u16 where "NLM_F_REPLACE \<equiv> 0x100"
abbreviation (input) NLM_F_EXCL :: u16 where "NLM_F_EXCL \<equiv> 0x200"
abbreviation (input) NLM_F_CREATE :: u16 where "NLM_F_CREATE \<equiv> 0x400"
abbreviation (input) NLM_F_APPEND :: u16 where "NLM_F_APPEND \<equiv> 0x800"
abbreviation (input) NTF_SELF :: u8 where "NTF_SELF \<equiv> 0x02"
abbreviation (input) ENOSPC :: int where "ENOSPC \<equiv> 28"
abbreviation (input) EAFNOSUPPORT :: int where "EAFNOSUPPORT \<equiv> 97"
abbreviation (input) ENOBUFS :: int where "ENOBUFS \<equiv> 105"

definition vxlan_addr_any :: "vxlan_addr \<Rightarrow> bool" where
  "vxlan_addr_any a = (case a of IN4 x \<Rightarrow> x = 0 | IN6 bs \<Rightarrow> list_all (\<lambda>b. b = 0) bs)"

definition vxlan_addr_multicast :: "vxlan_addr \<Rightarrow> bool" where
  "vxlan_addr_multicast a = (case a of IN4 x \<Rightarrow> htonl x AND 0xF0000000 = 0xE0000000 | IN6 bs \<Rightarrow> bs ! 0 = 0xFF)"

fun same_family :: "vxlan_addr \<Rightarrow> vxlan_addr \<Rightarrow> bool" where
  "same_family (IN4 x) (IN4 y) = True"
| "same_family (IN6 x) (IN6 y) = True"
| "same_family a b = False"

definition vxlan_nla_get_addr :: "u8 list \<Rightarrow> int + vxlan_addr" where
  "vxlan_nla_get_addr bs =
     (if 16 \<le> length bs then Inr (IN6 (take 16 bs))
      else if 4 \<le> length bs then Inr (IN4 (nla_get_u32 bs))
      else Inl (- EAFNOSUPPORT))"

definition addr_bytes :: "vxlan_addr \<Rightarrow> u8 list" where
  "addr_bytes a = (case a of IN4 x \<Rightarrow> le_bytes 4 x | IN6 bs \<Rightarrow> bs)"

definition all_zeros_mac :: "u8 list" where
  "all_zeros_mac = replicate 6 0"

definition is_zero_ether_addr :: "u8 list \<Rightarrow> bool" where
  "is_zero_ether_addr a \<longleftrightarrow> take 6 a = all_zeros_mac"

definition is_multicast_ether_addr :: "u8 list \<Rightarrow> bool" where
  "is_multicast_ether_addr a \<longleftrightarrow> a ! 0 AND 1 \<noteq> 0"

section \<open>Lookup\<close>

text \<open>Eight bytes are read at the address and the last two shifted out again.\<close>

definition eth_hash :: "(u64 \<Rightarrow> 8 word) \<Rightarrow> u8 list \<Rightarrow> 8 word" where
  "eth_hash hash mac = hash (push_bit 16 (le_word (take 6 mac)))"

definition vxlan_fdb_head :: "(u64 \<Rightarrow> 8 word) \<Rightarrow> u8 list \<Rightarrow> nat" where
  "vxlan_fdb_head hash mac = unat (eth_hash hash mac)"

definition find_mac :: "(u64 \<Rightarrow> 8 word) \<Rightarrow> vxlan_dev \<Rightarrow> u8 list \<Rightarrow> vxlan_fdb option" where
  "find_mac hash v mac = bucket_find f_eth_addr mac (vx_fdb v ! vxlan_fdb_head hash mac)"

text \<open>Writing through the pointer to an entry.\<close>

definition put_fdb :: "(u64 \<Rightarrow> 8 word) \<Rightarrow> vxlan_fdb \<Rightarrow> vxlan_dev \<Rightarrow> vxlan_dev" where
  "put_fdb hash f v =
     (let n = vxlan_fdb_head hash (f_eth_addr f) in
      v\<lparr>vx_fdb := (vx_fdb v)[n := bucket_upd f_eth_addr (f_eth_addr f) (\<lambda>_. f) (vx_fdb v ! n)]\<rparr>)"

definition vxlan_find_mac :: "(u64 \<Rightarrow> 8 word) \<Rightarrow> u64 \<Rightarrow> vxlan_dev \<Rightarrow> u8 list \<Rightarrow> vxlan_fdb option \<times> vxlan_dev" where
  "vxlan_find_mac hash jiffies v mac =
     (case find_mac hash v mac of
        None \<Rightarrow> (None, v)
      | Some f \<Rightarrow> let f = f\<lparr>f_used := jiffies\<rparr> in (Some f, put_fdb hash f v))"

definition first_remote :: "vxlan_fdb \<Rightarrow> vxlan_rdst option" where
  "first_remote f = (case f_remotes f of [] \<Rightarrow> None | rd # _ \<Rightarrow> Some rd)"

text \<open>Whether the entry has this endpoint, port, identifier and interface.\<close>

fun fdb_find_rdst :: "vxlan_rdst list \<Rightarrow> vxlan_rdst \<Rightarrow> bool" where
  "fdb_find_rdst [] rd = False"
| "fdb_find_rdst (r # rest) rd =
     (if rd_ip r = rd_ip rd \<and> rd_port r = rd_port rd \<and> rd_vni r = rd_vni rd \<and> rd_ifindex r = rd_ifindex rd then True
      else fdb_find_rdst rest rd)"

section \<open>Notifications\<close>

definition vxlan_fdb_notify :: "rtm \<Rightarrow> vxlan_fdb \<Rightarrow> vxlan_rdst \<Rightarrow> vxlan_dev \<Rightarrow> vxlan_dev" where
  "vxlan_fdb_notify ty f rd v = v\<lparr>vx_notified := vx_notified v @ [(ty, f, rd)]\<rparr>"

definition vxlan_fdb_miss :: "u8 list \<Rightarrow> vxlan_dev \<Rightarrow> vxlan_dev" where
  "vxlan_fdb_miss mac v = vxlan_fdb_notify RTM_GETNEIGH
     \<lparr>f_updated = 0, f_used = 0, f_remotes = [], f_state = NUD_STALE, f_flags = 0, f_eth_addr = mac\<rparr>
     \<lparr>rd_ip = IN4 0, rd_port = 0, rd_vni = 0, rd_ifindex = 0\<rparr> v"

abbreviation (input) NDA_DST :: nat where "NDA_DST \<equiv> 1"
abbreviation (input) NDA_LLADDR :: nat where "NDA_LLADDR \<equiv> 2"
abbreviation (input) NDA_CACHEINFO :: nat where "NDA_CACHEINFO \<equiv> 3"
abbreviation (input) NDA_PORT :: nat where "NDA_PORT \<equiv> 6"
abbreviation (input) NDA_VNI :: nat where "NDA_VNI \<equiv> 7"
abbreviation (input) NDA_IFINDEX :: nat where "NDA_IFINDEX \<equiv> 8"
abbreviation (input) NDA_LINK_NETNSID :: nat where "NDA_LINK_NETNSID \<equiv> 10"

text \<open>\<open>netnsid\<close> is the identifier of the other namespace, if the device sends in one; \<open>cacheinfo\<close> are the
  16 bytes of ages. The headers take 16 and 12 bytes.\<close>

definition fdb_info_attrs :: "vxlan_dev \<Rightarrow> vxlan_fdb \<Rightarrow> u8 list option \<Rightarrow> u8 list \<Rightarrow> rtm \<Rightarrow> vxlan_rdst \<Rightarrow> nlattr list" where
  "fdb_info_attrs v f netnsid cacheinfo ty rd =
     (let send_ip = (ty = RTM_GETNEIGH \<longrightarrow> \<not> vxlan_addr_any (rd_ip rd));
          send_eth = (ty = RTM_GETNEIGH \<longrightarrow> \<not> is_zero_ether_addr (f_eth_addr f)) in
      (case netnsid of None \<Rightarrow> [] | Some i \<Rightarrow> [(NDA_LINK_NETNSID, i)]) @
      (if send_eth then [(NDA_LLADDR, f_eth_addr f)] else []) @
      (if send_ip then [(NDA_DST, addr_bytes (rd_ip rd))] else []) @
      (if rd_port rd \<noteq> 0 \<and> rd_port rd \<noteq> vx_dst_port v then [(NDA_PORT, le_bytes 2 (rd_port rd))] else []) @
      (if rd_vni rd \<noteq> rd_vni (vx_default_dst v) then [(NDA_VNI, le_bytes 4 (rd_vni rd))] else []) @
      (if rd_ifindex rd \<noteq> 0 then [(NDA_IFINDEX, le_bytes 4 (rd_ifindex rd))] else []) @
      [(NDA_CACHEINFO, cacheinfo)])"

definition vxlan_fdb_info ::
  "vxlan_dev \<Rightarrow> vxlan_fdb \<Rightarrow> u8 list option \<Rightarrow> u8 list \<Rightarrow> rtm \<Rightarrow> vxlan_rdst \<Rightarrow> nlbuf \<Rightarrow> int \<times> nlbuf" where
  "vxlan_fdb_info v f netnsid cacheinfo ty rd b =
     (if nb_room b < 16 + 12 then (- EMSGSIZE, b)
      else (case nla_put_all (fdb_info_attrs v f netnsid cacheinfo ty rd) (b\<lparr>nb_room := nb_room b - 28\<rparr>) of
              None \<Rightarrow> (- EMSGSIZE, b)
            | Some b \<Rightarrow> (0, b)))"

definition vxlan_nlmsg_size :: nat where
  "vxlan_nlmsg_size = 12 + nla_total_size 6 + nla_total_size 16 + nla_total_size 2 + nla_total_size 4 + nla_total_size 4 +
     nla_total_size 4 + nla_total_size 16"

section \<open>Changes\<close>

definition vxlan_fdb_replace :: "vxlan_fdb \<Rightarrow> vxlan_rdst \<Rightarrow> bool \<times> vxlan_fdb" where
  "vxlan_fdb_replace f rd =
     (if fdb_find_rdst (f_remotes f) rd then (False, f)
      else (case f_remotes f of
              [] \<Rightarrow> (False, f)
            | _ # rest \<Rightarrow> (True, f\<lparr>f_remotes := rd # rest\<rparr>)))"

text \<open>The third component is the new remote.\<close>

definition vxlan_fdb_append :: "nat \<Rightarrow> vxlan_fdb \<Rightarrow> vxlan_rdst \<Rightarrow> int \<times> vxlan_fdb \<times> vxlan_rdst option \<times> nat" where
  "vxlan_fdb_append mem f rd =
     (if fdb_find_rdst (f_remotes f) rd then (0, f, None, mem)
      else if mem = 0 then (- ENOBUFS, f, None, mem)
      else (1, f\<lparr>f_remotes := f_remotes f @ [rd]\<rparr>, Some rd, mem - 1))"

abbreviation group_mac :: "u8 list \<Rightarrow> bool" where
  "group_mac mac \<equiv> is_multicast_ether_addr mac \<or> is_zero_ether_addr mac"

text \<open>The notification names the remote just made, or else the first one.\<close>

definition fdb_notify_new :: "bool \<Rightarrow> vxlan_fdb \<Rightarrow> vxlan_rdst option \<Rightarrow> vxlan_dev \<Rightarrow> (int \<times> vxlan_dev) option" where
  "fdb_notify_new notify f rdp v =
     (if notify then do {
        rd \<leftarrow> (case rdp of Some rd \<Rightarrow> Some rd | None \<Rightarrow> first_remote f);
        Some (0, vxlan_fdb_notify RTM_NEWNEIGH f rd v) }
      else Some (0, v))"

definition fdb_update ::
  "(u64 \<Rightarrow> 8 word) \<Rightarrow> u64 \<Rightarrow> vxlan_dev \<Rightarrow> vxlan_fdb \<Rightarrow> vxlan_rdst \<Rightarrow> u16 \<Rightarrow> u16 \<Rightarrow> u8 \<Rightarrow> (int \<times> vxlan_dev) option" where
  "fdb_update hash jiffies v f rd state flags ndm_flags =
     (let n1 = (f_state f \<noteq> state);
          f = (if n1 then f\<lparr>f_state := state, f_updated := jiffies\<rparr> else f);
          n2 = (f_flags f \<noteq> ndm_flags);
          f = (if n2 then f\<lparr>f_flags := ndm_flags, f_updated := jiffies\<rparr> else f) in
      if flags AND NLM_F_REPLACE \<noteq> 0 \<and> group_mac (f_eth_addr f) then Some (- EOPNOTSUPP, put_fdb hash f v)
      else
        let (n3, f) = (if flags AND NLM_F_REPLACE \<noteq> 0 then vxlan_fdb_replace f rd else (False, f));
            (rc, f, rdp, mem) = (if flags AND NLM_F_APPEND \<noteq> 0 \<and> group_mac (f_eth_addr f)
                                 then vxlan_fdb_append (vx_mem v) f rd else (0, f, None, vx_mem v));
            v = (put_fdb hash f v)\<lparr>vx_mem := mem\<rparr> in
        if rc < 0 then Some (rc, v)
        else fdb_notify_new (n1 \<or> n2 \<or> n3 \<or> rc \<noteq> 0) f rdp v)"

text \<open>A new entry takes one allocation and its remote another, whose failure is not looked at.\<close>

definition fdb_new ::
  "(u64 \<Rightarrow> 8 word) \<Rightarrow> u64 \<Rightarrow> vxlan_dev \<Rightarrow> u8 list \<Rightarrow> vxlan_rdst \<Rightarrow> u16 \<Rightarrow> u16 \<Rightarrow> u8 \<Rightarrow> (int \<times> vxlan_dev) option" where
  "fdb_new hash jiffies v mac rd state flags ndm_flags =
     (if flags AND NLM_F_CREATE = 0 then Some (- ENOENT, v)
      else if vx_addrmax v \<noteq> 0 \<and> vx_addrcnt v \<ge> vx_addrmax v then Some (- ENOSPC, v)
      else if flags AND NLM_F_REPLACE \<noteq> 0 \<and> group_mac mac then Some (- EOPNOTSUPP, v)
      else if vx_mem v = 0 then Some (- ENOMEM, v)
      else
        let f = \<lparr>f_updated = jiffies, f_used = jiffies, f_remotes = [], f_state = state, f_flags = ndm_flags, f_eth_addr = mac\<rparr>;
            (rc, f, rdp, mem) = vxlan_fdb_append (vx_mem v - 1) f rd;
            n = vxlan_fdb_head hash mac;
            v = v\<lparr>vx_mem := mem, vx_addrcnt := vx_addrcnt v + 1, vx_fdb := (vx_fdb v)[n := f # vx_fdb v ! n]\<rparr> in
        fdb_notify_new True f rdp v)"

definition vxlan_fdb_create ::
  "(u64 \<Rightarrow> 8 word) \<Rightarrow> u64 \<Rightarrow> vxlan_dev \<Rightarrow> u8 list \<Rightarrow> vxlan_rdst \<Rightarrow> u16 \<Rightarrow> u16 \<Rightarrow> u8 \<Rightarrow> (int \<times> vxlan_dev) option" where
  "vxlan_fdb_create hash jiffies v mac rd state flags ndm_flags =
     (case find_mac hash v mac of
        Some f \<Rightarrow> if flags AND NLM_F_EXCL \<noteq> 0 then Some (- EEXIST, v) else fdb_update hash jiffies v f rd state flags ndm_flags
      | None \<Rightarrow> fdb_new hash jiffies v mac rd state flags ndm_flags)"

text \<open>\<^verbatim>\<open>vxlan_fdb_destroy\<close> and, once no reader is left, \<^verbatim>\<open>vxlan_fdb_free\<close>.\<close>

definition vxlan_fdb_destroy :: "(u64 \<Rightarrow> 8 word) \<Rightarrow> vxlan_dev \<Rightarrow> vxlan_fdb \<Rightarrow> vxlan_dev option" where
  "vxlan_fdb_destroy hash v f = do {
     rd \<leftarrow> first_remote f;
     let n = vxlan_fdb_head hash (f_eth_addr f);
     Some (vxlan_fdb_notify RTM_DELNEIGH f rd (v\<lparr>vx_addrcnt := vx_addrcnt v - 1,
       vx_fdb := (vx_fdb v)[n := bucket_del f_eth_addr (f_eth_addr f) (vx_fdb v ! n)],
       vx_mem := vx_mem v + length (f_remotes f) + 1\<rparr>)) }"

definition vxlan_fdb_parse :: "(u32 \<Rightarrow> ptr) \<Rightarrow> nlattr_tb \<Rightarrow> vxlan_dev \<Rightarrow> int + vxlan_rdst" where
  "vxlan_fdb_parse dev_by_index tb v =
     (case (case tb NDA_DST of
              Some bs \<Rightarrow> vxlan_nla_get_addr bs
            | None \<Rightarrow> Inr (case rd_ip (vx_default_dst v) of IN4 _ \<Rightarrow> IN4 0 | IN6 _ \<Rightarrow> IN6 (replicate 16 0))) of
        Inl e \<Rightarrow> Inl e
      | Inr ip \<Rightarrow>
          if (case tb NDA_PORT of Some bs \<Rightarrow> length bs \<noteq> 2 | None \<Rightarrow> False) then Inl (- EINVAL)
          else if (case tb NDA_VNI of Some bs \<Rightarrow> length bs \<noteq> 4 | None \<Rightarrow> False) then Inl (- EINVAL)
          else if (case tb NDA_IFINDEX of Some bs \<Rightarrow> length bs \<noteq> 4 | None \<Rightarrow> False) then Inl (- EINVAL)
          else if (case tb NDA_IFINDEX of Some bs \<Rightarrow> dev_by_index (nla_get_u32 bs) = None | None \<Rightarrow> False)
          then Inl (- EADDRNOTAVAIL)
          else Inr \<lparr>rd_ip = ip,
                    rd_port = (case tb NDA_PORT of Some bs \<Rightarrow> nla_get_u16 bs | None \<Rightarrow> vx_dst_port v),
                    rd_vni = (case tb NDA_VNI of Some bs \<Rightarrow> nla_get_u32 bs | None \<Rightarrow> rd_vni (vx_default_dst v)),
                    rd_ifindex = (case tb NDA_IFINDEX of Some bs \<Rightarrow> nla_get_u32 bs | None \<Rightarrow> 0)\<rparr>)"

definition vxlan_fdb_add ::
  "(u64 \<Rightarrow> 8 word) \<Rightarrow> (u32 \<Rightarrow> ptr) \<Rightarrow> u64 \<Rightarrow> u16 \<Rightarrow> u8 \<Rightarrow> nlattr_tb \<Rightarrow> u8 list \<Rightarrow> u16 \<Rightarrow> vxlan_dev \<Rightarrow> (int \<times> vxlan_dev) option" where
  "vxlan_fdb_add hash dev_by_index jiffies ndm_state ndm_flags tb mac flags v =
     (if ndm_state AND (NUD_PERMANENT OR NUD_REACHABLE) = 0 then Some (- EINVAL, v)
      else if tb NDA_DST = None then Some (- EINVAL, v)
      else (case vxlan_fdb_parse dev_by_index tb v of
              Inl e \<Rightarrow> Some (e, v)
            | Inr rd \<Rightarrow>
                if \<not> same_family (rd_ip (vx_default_dst v)) (rd_ip rd) then Some (- EAFNOSUPPORT, v)
                else vxlan_fdb_create hash jiffies v mac rd ndm_state flags ndm_flags))"

fun remove_rdst :: "vxlan_rdst \<Rightarrow> vxlan_rdst list \<Rightarrow> vxlan_rdst list" where
  "remove_rdst rd [] = []"
| "remove_rdst rd (r # rest) =
     (if rd_ip r = rd_ip rd \<and> rd_port r = rd_port rd \<and> rd_vni r = rd_vni rd \<and> rd_ifindex r = rd_ifindex rd then rest
      else r # remove_rdst rd rest)"

definition vxlan_fdb_delete ::
  "(u64 \<Rightarrow> 8 word) \<Rightarrow> (u32 \<Rightarrow> ptr) \<Rightarrow> u64 \<Rightarrow> nlattr_tb \<Rightarrow> u8 list \<Rightarrow> vxlan_dev \<Rightarrow> (int \<times> vxlan_dev) option" where
  "vxlan_fdb_delete hash dev_by_index jiffies tb mac v =
     (case vxlan_fdb_parse dev_by_index tb v of
        Inl e \<Rightarrow> Some (e, v)
      | Inr rd \<Rightarrow>
          (case vxlan_find_mac hash jiffies v mac of
             (None, v) \<Rightarrow> Some (- ENOENT, v)
           | (Some f, v) \<Rightarrow>
               if \<not> vxlan_addr_any (rd_ip rd) \<and> \<not> fdb_find_rdst (f_remotes f) rd then Some (- ENOENT, v)
               else if \<not> vxlan_addr_any (rd_ip rd) \<and> length (f_remotes f) \<noteq> 1 then
                 (let f' = f\<lparr>f_remotes := remove_rdst rd (f_remotes f)\<rparr> in
                  Some (0, (vxlan_fdb_notify RTM_DELNEIGH f' rd (put_fdb hash f' v))\<lparr>vx_mem := vx_mem v + 1\<rparr>))
               else do { v \<leftarrow> vxlan_fdb_destroy hash v f; Some (0, v) }))"

text \<open>The dump: the remotes of every entry from the \<open>start\<close>-th on, until a message does not fit; the
  result is the index to go on at.\<close>

fun fdb_dump_remotes :: "(vxlan_rdst \<Rightarrow> 'b \<Rightarrow> int \<times> 'b) \<Rightarrow> vxlan_rdst list \<Rightarrow> 'b \<Rightarrow> int \<times> 'b" where
  "fdb_dump_remotes info [] b = (0, b)"
| "fdb_dump_remotes info (rd # rest) b = (case info rd b of (err, b) \<Rightarrow> if err < 0 then (err, b) else fdb_dump_remotes info rest b)"

fun fdb_dump_loop :: "(vxlan_fdb \<Rightarrow> vxlan_rdst \<Rightarrow> 'b \<Rightarrow> int \<times> 'b) \<Rightarrow> nat \<Rightarrow> vxlan_fdb list \<Rightarrow> nat \<Rightarrow> 'b \<Rightarrow> nat \<times> 'b" where
  "fdb_dump_loop info start [] idx b = (idx, b)"
| "fdb_dump_loop info start (f # rest) idx b =
     (if idx < start then fdb_dump_loop info start rest (Suc idx) b
      else (case fdb_dump_remotes (info f) (f_remotes f) b of
              (err, b) \<Rightarrow> if err < 0 then (idx, b) else fdb_dump_loop info start rest (Suc idx) b))"

definition vxlan_fdb_dump :: "(vxlan_fdb \<Rightarrow> vxlan_rdst \<Rightarrow> 'b \<Rightarrow> int \<times> 'b) \<Rightarrow> nat \<Rightarrow> nat \<Rightarrow> vxlan_dev \<Rightarrow> 'b \<Rightarrow> nat \<times> 'b" where
  "vxlan_fdb_dump info args0 idx v b = fdb_dump_loop info args0 (concat (vx_fdb v)) idx b"

section \<open>Learning and ageing\<close>

text \<open>The result is whether the packet is to be dropped.\<close>

definition vxlan_snoop ::
  "(u64 \<Rightarrow> 8 word) \<Rightarrow> u64 \<Rightarrow> bool \<Rightarrow> vxlan_addr \<Rightarrow> u8 list \<Rightarrow> vxlan_dev \<Rightarrow> (bool \<times> vxlan_dev) option" where
  "vxlan_snoop hash jiffies running src_ip src_mac v =
     (case vxlan_find_mac hash jiffies v src_mac of
        (Some f, v) \<Rightarrow> do {
          rdst \<leftarrow> first_remote f;
          if rd_ip rdst = src_ip then Some (False, v)
          else if f_state f AND NUD_NOARP \<noteq> 0 then Some (True, v)
          else
            let rdst = rdst\<lparr>rd_ip := src_ip\<rparr>;
                f = f\<lparr>f_remotes := rdst # tl (f_remotes f), f_updated := jiffies\<rparr> in
            Some (False, vxlan_fdb_notify RTM_NEWNEIGH f rdst (put_fdb hash f v)) }
      | (None, v) \<Rightarrow>
          if running then do {
            (err, v) \<leftarrow> vxlan_fdb_create hash jiffies v src_mac
              \<lparr>rd_ip = src_ip, rd_port = vx_dst_port v, rd_vni = rd_vni (vx_default_dst v), rd_ifindex = 0\<rparr>
              NUD_REACHABLE (NLM_F_EXCL OR NLM_F_CREATE) NTF_SELF;
            Some (False, v) }
          else Some (False, v))"

text \<open>\<^verbatim>\<open>time_before_eq (a, b)\<close>\<close>

definition time_before_eq :: "u64 \<Rightarrow> u64 \<Rightarrow> bool" where
  "time_before_eq a b \<longleftrightarrow> sint (b - a) \<ge> 0"

fun cleanup_loop :: "(u64 \<Rightarrow> 8 word) \<Rightarrow> u64 \<Rightarrow> u64 \<Rightarrow> vxlan_fdb list \<Rightarrow> u64 \<Rightarrow> vxlan_dev \<Rightarrow> (u64 \<times> vxlan_dev) option" where
  "cleanup_loop hash hz jiffies [] next_timer v = Some (next_timer, v)"
| "cleanup_loop hash hz jiffies (f # rest) next_timer v =
     (let timeout = f_used f + vx_age_interval v * hz in
      if f_state f AND NUD_PERMANENT \<noteq> 0 then cleanup_loop hash hz jiffies rest next_timer v
      else if time_before_eq timeout jiffies then do {
        v \<leftarrow> vxlan_fdb_destroy hash v (f\<lparr>f_state := NUD_STALE\<rparr>);
        cleanup_loop hash hz jiffies rest next_timer v }
      else cleanup_loop hash hz jiffies rest (if time_before timeout next_timer then timeout else next_timer) v)"

text \<open>The timer's function: the new expiry, unless the device is down.\<close>

definition vxlan_cleanup :: "(u64 \<Rightarrow> 8 word) \<Rightarrow> u64 \<Rightarrow> u64 \<Rightarrow> bool \<Rightarrow> vxlan_dev \<Rightarrow> (u64 option \<times> vxlan_dev) option" where
  "vxlan_cleanup hash hz jiffies running v =
     (if \<not> running then Some (None, v)
      else do {
        (next_timer, v) \<leftarrow> cleanup_loop hash hz jiffies (concat (vx_fdb v)) (jiffies + 10 * hz) v;
        Some (Some next_timer, v) })"

definition vxlan_fdb_delete_default :: "(u64 \<Rightarrow> 8 word) \<Rightarrow> vxlan_dev \<Rightarrow> vxlan_dev option" where
  "vxlan_fdb_delete_default hash v =
     (case find_mac hash v all_zeros_mac of None \<Rightarrow> Some v | Some f \<Rightarrow> vxlan_fdb_destroy hash v f)"

fun flush_loop :: "(u64 \<Rightarrow> 8 word) \<Rightarrow> vxlan_fdb list \<Rightarrow> vxlan_dev \<Rightarrow> vxlan_dev option" where
  "flush_loop hash [] v = Some v"
| "flush_loop hash (f # rest) v =
     (if is_zero_ether_addr (f_eth_addr f) then flush_loop hash rest v
      else do { v \<leftarrow> vxlan_fdb_destroy hash v f; flush_loop hash rest v })"

definition vxlan_flush :: "(u64 \<Rightarrow> 8 word) \<Rightarrow> vxlan_dev \<Rightarrow> vxlan_dev option" where
  "vxlan_flush hash v = flush_loop hash (concat (vx_fdb v)) v"

end
