(* ===== verification/Vxlan_Props.thy ===== *)
theory Vxlan_Props
  imports Vxlan_Fdb
begin

text \<open>
  What the forwarding table of a VXLAN device keeps and does: every entry stays reachable in its
  bucket under a unique address with at least one remote, the counter counts the entries and
  respects the limit, a received frame teaches its sender's endpoint, ageing removes exactly the
  idle entries, and notifications fit their buffer. Also that a frame with a zero source address
  redirects the default destination.
\<close>

section \<open>The invariant of a forwarding table\<close>

definition fdb_entries :: "vxlan_dev \<Rightarrow> vxlan_fdb list" where
  "fdb_entries v = concat (vx_fdb v)"

definition entry_ok :: "vxlan_fdb \<Rightarrow> bool" where
  "entry_ok f \<longleftrightarrow> f_remotes f \<noteq> [] \<and> (\<not> group_mac (f_eth_addr f) \<longrightarrow> length (f_remotes f) = 1)"

definition fdb_ok :: "(u64 \<Rightarrow> 8 word) \<Rightarrow> vxlan_dev \<Rightarrow> bool" where
  "fdb_ok hash v \<longleftrightarrow> buckets_ok f_eth_addr (eth_hash hash) (vx_fdb v) \<and> distinct (map f_eth_addr (fdb_entries v)) \<and>
     (\<forall>f \<in> set (fdb_entries v). entry_ok f) \<and> vx_addrcnt v = word_of_nat (length (fdb_entries v))"

lemma fdb_okD:
  assumes "fdb_ok hash v"
  shows "buckets_ok f_eth_addr (eth_hash hash) (vx_fdb v)" "distinct (map f_eth_addr (fdb_entries v))"
    "f \<in> set (fdb_entries v) \<Longrightarrow> entry_ok f" "vx_addrcnt v = word_of_nat (length (fdb_entries v))"
  using assms by (simp_all add: fdb_ok_def)

lemma find_mac_mem:
  assumes "fdb_ok hash v"
  shows "find_mac hash v mac = Some f \<longleftrightarrow> f \<in> set (fdb_entries v) \<and> f_eth_addr f = mac"
    "find_mac hash v mac = None \<longleftrightarrow> mac \<notin> f_eth_addr ` set (fdb_entries v)"
proof -
  note b = fdb_okD(1) [OF assms] and d = fdb_okD(2) [OF assms]
  have n: "find_mac hash v mac = None \<longleftrightarrow> mac \<notin> f_eth_addr ` set (fdb_entries v)"
    using table_find_None [OF b, of mac] by (simp add: find_mac_def vxlan_fdb_head_def fdb_entries_def)
  have s: "g \<in> set (fdb_entries v) \<and> f_eth_addr g = mac" if "find_mac hash v mac = Some g" for g
    using table_find_Some [OF b, of mac g] that by (simp add: find_mac_def vxlan_fdb_head_def fdb_entries_def)
  show "find_mac hash v mac = None \<longleftrightarrow> mac \<notin> f_eth_addr ` set (fdb_entries v)" by (rule n)
  show "find_mac hash v mac = Some f \<longleftrightarrow> f \<in> set (fdb_entries v) \<and> f_eth_addr f = mac"
  proof
    assume f: "f \<in> set (fdb_entries v) \<and> f_eth_addr f = mac"
    then obtain g where g: "find_mac hash v mac = Some g" using n by (cases "find_mac hash v mac") auto
    with s [OF g] f d have "g = f" by (metis (no_types, lifting) distinct_map inj_onD)
    with g show "find_mac hash v mac = Some f" by simp
  qed (rule s)
qed

lemma bucket_upd_cong: "(\<And>e. key e = i \<Longrightarrow> g e = h e) \<Longrightarrow> bucket_upd key i g b = bucket_upd key i h b"
  by (induction b) auto

lemma bucket_upd_mset:
  "bucket_find key i b = Some e \<Longrightarrow> mset (bucket_upd key i g b) = add_mset (g e) (mset b - {#e#})"
proof (induction b)
  case (Cons x b)
  show ?case
  proof (cases "i = key x")
    case False
    with Cons.prems have f: "bucket_find key i b = Some e" by simp
    then have "e \<in># mset b" "x \<noteq> e" using bucket_find_Some [OF f] False by auto
    with False f Cons.IH show ?thesis by simp
  qed (use Cons.prems in simp)
qed simp

lemma put_fdb_table:
  assumes ok: "fdb_ok hash v" and f: "find_mac hash v (f_eth_addr f) = Some g"
  shows "buckets_ok f_eth_addr (eth_hash hash) (vx_fdb (put_fdb hash f v))"
    "map f_eth_addr (fdb_entries (put_fdb hash f v)) = map f_eth_addr (fdb_entries v)"
    "mset (fdb_entries (put_fdb hash f v)) = add_mset f (mset (fdb_entries v) - {#g#})"
proof -
  let ?n = "vxlan_fdb_head hash (f_eth_addr f)" and ?i = "f_eth_addr f"
  let ?u = "\<lambda>e. if f_eth_addr e = ?i then f else e"
  have b: "buckets_ok f_eth_addr (eth_hash hash) (vx_fdb v)" and n: "?n < length (vx_fdb v)"
    using fdb_okD(1) [OF ok] by (simp_all add: buckets_ok_def vxlan_fdb_head_def)
  have u: "bucket_upd f_eth_addr ?i (\<lambda>_. f) c = bucket_upd f_eth_addr ?i ?u c" for c by (rule bucket_upd_cong) simp
  have p: "vx_fdb (put_fdb hash f v) = (vx_fdb v)[?n := bucket_upd f_eth_addr ?i ?u (vx_fdb v ! ?n)]"
    by (simp add: put_fdb_def u Let_def)
  show "buckets_ok f_eth_addr (eth_hash hash) (vx_fdb (put_fdb hash f v))"
    "map f_eth_addr (fdb_entries (put_fdb hash f v)) = map f_eth_addr (fdb_entries v)"
    unfolding fdb_entries_def p by (rule table_upd [OF b _ n]; simp)+
  have g: "bucket_find f_eth_addr ?i (vx_fdb v ! ?n) = Some g" using f by (simp add: find_mac_def)
  have gm: "g \<in># mset (vx_fdb v ! ?n)" "f_eth_addr g = ?i" using bucket_find_Some [OF g] by simp_all
  then obtain M where M: "mset (vx_fdb v ! ?n) = add_mset g M" by (metis mset_add)
  have "mset (fdb_entries (put_fdb hash f v)) + add_mset g M = mset (fdb_entries v) + add_mset f M"
    using mset_concat_upd [OF n, of "bucket_upd f_eth_addr ?i ?u (vx_fdb v ! ?n)"] bucket_upd_mset [OF g, of ?u] gm(2) M
    unfolding fdb_entries_def p by simp
  then have e: "add_mset g (mset (fdb_entries (put_fdb hash f v))) = add_mset f (mset (fdb_entries v))" by simp
  have "g \<in># mset (fdb_entries v)" using find_mac_mem(1) [OF ok, of ?i g] f by simp
  then obtain N where N: "mset (fdb_entries v) = add_mset g N" by (metis mset_add)
  with e have "add_mset g (mset (fdb_entries (put_fdb hash f v))) = add_mset g (add_mset f N)" by (simp add: add_mset_commute)
  with N show "mset (fdb_entries (put_fdb hash f v)) = add_mset f (mset (fdb_entries v) - {#g#})" by simp
qed

text \<open>Writing an entry, linking a new one and unlinking one: what is found afterwards.\<close>

lemma put_fdb_sel [simp]:
  "vx_mem (put_fdb hash f v) = vx_mem v" "vx_addrcnt (put_fdb hash f v) = vx_addrcnt v"
  "vx_addrmax (put_fdb hash f v) = vx_addrmax v" "vx_age_interval (put_fdb hash f v) = vx_age_interval v"
  "vx_default_dst (put_fdb hash f v) = vx_default_dst v" "vx_dst_port (put_fdb hash f v) = vx_dst_port v"
  "vx_flags (put_fdb hash f v) = vx_flags v" "vx_notified (put_fdb hash f v) = vx_notified v"
  by (simp_all add: put_fdb_def Let_def)

lemma same_table:
  assumes "vx_fdb v' = vx_fdb v"
  shows "fdb_entries v' = fdb_entries v" "find_mac hash v' = find_mac hash v"
    "vx_addrcnt v' = vx_addrcnt v \<Longrightarrow> fdb_ok hash v' \<longleftrightarrow> fdb_ok hash v"
  using assms by (auto simp: fdb_entries_def find_mac_def fdb_ok_def fun_eq_iff)

lemma notify_sel [simp]:
  "vx_fdb (vxlan_fdb_notify ty f rd v) = vx_fdb v" "vx_addrcnt (vxlan_fdb_notify ty f rd v) = vx_addrcnt v"
  "vx_addrmax (vxlan_fdb_notify ty f rd v) = vx_addrmax v" "vx_age_interval (vxlan_fdb_notify ty f rd v) = vx_age_interval v"
  "vx_mem (vxlan_fdb_notify ty f rd v) = vx_mem v"
  by (simp_all add: vxlan_fdb_notify_def)

lemma mem_mset: "mset xs = add_mset x M \<Longrightarrow> y \<in> set xs \<longleftrightarrow> y = x \<or> y \<in># M"
  by (metis set_mset_mset insert_iff set_mset_add_mset_insert)

lemma length_mset: "mset xs = add_mset x M \<Longrightarrow> length xs = Suc (size M)"
  by (metis size_mset size_add_mset)

lemma put_fdb_ok:
  assumes ok: "fdb_ok hash v" and f: "find_mac hash v (f_eth_addr f) = Some g" and e: "entry_ok f"
  shows "fdb_ok hash (put_fdb hash f v)"
    "find_mac hash (put_fdb hash f v) m = (if m = f_eth_addr f then Some f else find_mac hash v m)"
    "length (fdb_entries (put_fdb hash f v)) = length (fdb_entries v)"
proof -
  note t = put_fdb_table [OF ok f]
  show len: "length (fdb_entries (put_fdb hash f v)) = length (fdb_entries v)" using t(2) by (metis length_map)
  have gi: "g \<in> set (fdb_entries v)" "f_eth_addr g = f_eth_addr f" using f find_mac_mem(1) [OF ok] by auto
  have M: "mset (fdb_entries v) = add_mset g (mset (fdb_entries v) - {#g#})" using gi(1) by simp
  have "entry_ok x" if "x \<in> set (fdb_entries (put_fdb hash f v))" for x
    using that e fdb_okD(3) [OF ok] mem_mset [OF t(3), of x] by (auto dest: in_diffD)
  then show ok': "fdb_ok hash (put_fdb hash f v)" using t(1,2) fdb_okD [OF ok] len by (simp add: fdb_ok_def)
  have other: "x \<in> set (fdb_entries (put_fdb hash f v)) \<longleftrightarrow> x \<in> set (fdb_entries v)" if "f_eth_addr x \<noteq> f_eth_addr f" for x
    using mem_mset [OF t(3), of x] mem_mset [OF M, of x] that gi(2) by auto
  have "find_mac hash (put_fdb hash f v) (f_eth_addr f) = Some f"
    using find_mac_mem(1) [OF ok'] mem_mset [OF t(3), of f] by simp
  moreover have "find_mac hash (put_fdb hash f v) m = find_mac hash v m" if "m \<noteq> f_eth_addr f"
  proof (cases "find_mac hash v m")
    case None
    then have "find_mac hash (put_fdb hash f v) m \<noteq> Some x" for x
      using find_mac_mem(1) [OF ok', of m x] find_mac_mem(1) [OF ok, of m x] other [of x] that by auto
    with None show ?thesis by (metis not_None_eq)
  next
    case (Some x)
    then have "find_mac hash (put_fdb hash f v) m = Some x"
      using find_mac_mem(1) [OF ok', of m x] find_mac_mem(1) [OF ok, of m x] other [of x] that by simp
    with Some show ?thesis by simp
  qed
  ultimately show "find_mac hash (put_fdb hash f v) m = (if m = f_eth_addr f then Some f else find_mac hash v m)" by simp
qed

lemma link_fdb_ok:
  assumes ok: "fdb_ok hash v" and f: "find_mac hash v (f_eth_addr f) = None" and e: "entry_ok f"
    and v': "vx_fdb v' = (vx_fdb v)[vxlan_fdb_head hash (f_eth_addr f) := f # vx_fdb v ! vxlan_fdb_head hash (f_eth_addr f)]"
      "vx_addrcnt v' = vx_addrcnt v + 1"
  shows "fdb_ok hash v'" "mset (fdb_entries v') = add_mset f (mset (fdb_entries v))"
proof -
  have t: "buckets_ok f_eth_addr (eth_hash hash) (vx_fdb v')" "mset (fdb_entries v') = add_mset f (mset (fdb_entries v))"
    using table_add [OF fdb_okD(1) [OF ok], of f] by (simp_all add: v' vxlan_fdb_head_def fdb_entries_def)
  have "distinct (map f_eth_addr (fdb_entries v'))"
    using distinct_mset_map [OF t(2), of f_eth_addr] f find_mac_mem(2) [OF ok] fdb_okD(2) [OF ok] by simp
  moreover have "entry_ok x" if "x \<in> set (fdb_entries v')" for x
    using that e fdb_okD(3) [OF ok] mem_mset [OF t(2), of x] by auto
  moreover have "vx_addrcnt v' = word_of_nat (length (fdb_entries v'))"
    using length_mset [OF t(2)] fdb_okD(4) [OF ok] v'(2) by simp
  ultimately show "fdb_ok hash v'" using t(1) by (simp add: fdb_ok_def)
  show "mset (fdb_entries v') = add_mset f (mset (fdb_entries v))" by (rule t(2))
qed

lemma unlink_fdb_ok:
  assumes ok: "fdb_ok hash v" and g: "find_mac hash v i = Some g"
    and v': "vx_fdb v' = (vx_fdb v)[vxlan_fdb_head hash i := bucket_del f_eth_addr i (vx_fdb v ! vxlan_fdb_head hash i)]"
      "vx_addrcnt v' = vx_addrcnt v - 1"
  shows "fdb_ok hash v'" "mset (fdb_entries v') = mset (fdb_entries v) - {#g#}"
proof -
  have f: "bucket_find f_eth_addr i (vx_fdb v ! unat (eth_hash hash i)) = Some g"
    using g by (simp add: find_mac_def vxlan_fdb_head_def)
  have t: "buckets_ok f_eth_addr (eth_hash hash) (vx_fdb v')" "mset (fdb_entries v') = mset (fdb_entries v) - {#g#}"
    using table_del [OF fdb_okD(1) [OF ok] f] by (simp_all add: v'(1) vxlan_fdb_head_def fdb_entries_def)
  have "g \<in> set (fdb_entries v)" using g find_mac_mem(1) [OF ok] by auto
  then have m: "mset (fdb_entries v) = add_mset g (mset (fdb_entries v'))" using t(2) by simp
  have "distinct (map f_eth_addr (fdb_entries v'))" using distinct_mset_map [OF m, of f_eth_addr] fdb_okD(2) [OF ok] by blast
  moreover have "entry_ok x" if "x \<in> set (fdb_entries v')" for x using that fdb_okD(3) [OF ok] mem_mset [OF m, of x] by auto
  moreover have "vx_addrcnt v' = word_of_nat (length (fdb_entries v'))"
    using length_mset [OF m] fdb_okD(4) [OF ok] v'(2) by simp
  ultimately show "fdb_ok hash v'" using t(1) by (simp add: fdb_ok_def)
  show "mset (fdb_entries v') = mset (fdb_entries v) - {#g#}" by (rule t(2))
qed

lemma destroy_ok:
  assumes ok: "fdb_ok hash v" and f: "find_mac hash v (f_eth_addr f) = Some g" and r: "f_remotes f \<noteq> []"
  obtains v' where "vxlan_fdb_destroy hash v f = Some v'" "fdb_ok hash v'"
    "mset (fdb_entries v') = mset (fdb_entries v) - {#g#}" "vx_age_interval v' = vx_age_interval v" "vx_addrmax v' = vx_addrmax v"
proof -
  obtain rd where rd: "first_remote f = Some rd" using r by (cases "f_remotes f") (auto simp: first_remote_def)
  let ?n = "vxlan_fdb_head hash (f_eth_addr f)"
  let ?v = "vxlan_fdb_notify RTM_DELNEIGH f rd (v\<lparr>vx_addrcnt := vx_addrcnt v - 1,
       vx_fdb := (vx_fdb v)[?n := bucket_del f_eth_addr (f_eth_addr f) (vx_fdb v ! ?n)],
       vx_mem := vx_mem v + length (f_remotes f) + 1\<rparr>)"
  have "fdb_ok hash ?v" "mset (fdb_entries ?v) = mset (fdb_entries v) - {#g#}" by (rule unlink_fdb_ok [OF ok f]; simp)+
  with rd that [of ?v] show ?thesis by (simp add: vxlan_fdb_destroy_def Let_def)
qed

section \<open>Every operation keeps it\<close>

lemma first_remote_ok: "entry_ok f \<Longrightarrow> \<exists>rd. first_remote f = Some rd"
  by (cases "f_remotes f") (simp_all add: first_remote_def entry_ok_def)

lemma replace_ok:
  assumes "entry_ok f" "vxlan_fdb_replace f rd = (n, f')"
  shows "entry_ok f' \<and> f_eth_addr f' = f_eth_addr f"
  using assms by (auto simp: vxlan_fdb_replace_def entry_ok_def split: if_splits list.splits)

lemma append_ok:
  assumes "entry_ok f" "group_mac (f_eth_addr f)" "vxlan_fdb_append mem f rd = (rc, f', rdp, mem')"
  shows "entry_ok f' \<and> f_eth_addr f' = f_eth_addr f"
  using assms by (auto simp: vxlan_fdb_append_def entry_ok_def split: if_splits)

lemma notify_new_ok:
  assumes "entry_ok f"
  obtains v' where "fdb_notify_new notify f rdp v = Some (0, v')" "vx_fdb v' = vx_fdb v" "vx_addrcnt v' = vx_addrcnt v" "vx_addrmax v' = vx_addrmax v"
proof -
  obtain rd where "first_remote f = Some rd" using first_remote_ok [OF assms] by blast
  then have "\<exists>v'. fdb_notify_new notify f rdp v = Some (0, v') \<and> vx_fdb v' = vx_fdb v \<and> vx_addrcnt v' = vx_addrcnt v \<and> vx_addrmax v' = vx_addrmax v"
    by (cases rdp) (simp_all add: fdb_notify_new_def)
  with that show ?thesis by blast
qed

lemma fdb_update_ok:
  assumes ok: "fdb_ok hash v" and f: "find_mac hash v (f_eth_addr f) = Some f"
  obtains rc v' where "fdb_update hash jiffies v f rd state flags nf = Some (rc, v')" "fdb_ok hash v'"
    "length (fdb_entries v') = length (fdb_entries v)" "vx_addrmax v' = vx_addrmax v"
proof -
  have ef: "entry_ok f" using f find_mac_mem(1) [OF ok] fdb_okD(3) [OF ok] by blast
  define f1 where "f1 = (if f_state f \<noteq> state then f\<lparr>f_state := state, f_updated := jiffies\<rparr> else f)"
  define f2 where "f2 = (if f_flags f1 \<noteq> nf then f1\<lparr>f_flags := nf, f_updated := jiffies\<rparr> else f1)"
  have e2: "entry_ok f2" "f_eth_addr f2 = f_eth_addr f" using ef by (simp_all add: f2_def f1_def entry_ok_def)
  have put: "fdb_ok hash (put_fdb hash f' v)" "length (fdb_entries (put_fdb hash f' v)) = length (fdb_entries v)"
    if "entry_ok f' \<and> f_eth_addr f' = f_eth_addr f" for f'
    using put_fdb_ok [OF ok, of f'] f that by simp_all
  show ?thesis
  proof (cases "flags AND NLM_F_REPLACE \<noteq> 0 \<and> group_mac (f_eth_addr f2)")
    case True
    then have "fdb_update hash jiffies v f rd state flags nf = Some (- EOPNOTSUPP, put_fdb hash f2 v)"
      unfolding fdb_update_def Let_def f1_def [symmetric] f2_def [symmetric] by (rule if_P)
    with that put [of f2] e2 show ?thesis by simp
  next
    case False
    obtain n3 f3 where r: "(if flags AND NLM_F_REPLACE \<noteq> 0 then vxlan_fdb_replace f2 rd else (False, f2)) = (n3, f3)" by fastforce
    then have e3: "entry_ok f3" "f_eth_addr f3 = f_eth_addr f" using replace_ok [of f2 rd n3 f3] e2 by (auto split: if_splits)
    obtain rc f4 rdp mem where a: "(if flags AND NLM_F_APPEND \<noteq> 0 \<and> group_mac (f_eth_addr f3)
        then vxlan_fdb_append (vx_mem v) f3 rd else (0, f3, None, vx_mem v)) = (rc, f4, rdp, mem)" by (metis prod_cases4)
    then have e4: "entry_ok f4" "f_eth_addr f4 = f_eth_addr f" using append_ok [of f3 "vx_mem v" rd rc f4 rdp mem] e3 by (auto split: if_splits)
    let ?v = "(put_fdb hash f4 v)\<lparr>vx_mem := mem\<rparr>"
    have vok: "fdb_ok hash ?v" "length (fdb_entries ?v) = length (fdb_entries v)"
      using put [of f4] e4 same_table [of ?v "put_fdb hash f4 v"] by simp_all
    have u: "fdb_update hash jiffies v f rd state flags nf =
        (if rc < 0 then Some (rc, ?v) else fdb_notify_new (f_state f \<noteq> state \<or> f_flags f1 \<noteq> nf \<or> n3 \<or> rc \<noteq> 0) f4 rdp ?v)"
      unfolding fdb_update_def Let_def f1_def [symmetric] f2_def [symmetric] if_not_P [OF False] r prod.case a by (rule refl)
    show ?thesis
    proof (cases "rc < 0")
      case True
      with u vok that show ?thesis by simp
    next
      case rc: False
      obtain v' where v': "fdb_notify_new (f_state f \<noteq> state \<or> f_flags f1 \<noteq> nf \<or> n3 \<or> rc \<noteq> 0) f4 rdp ?v = Some (0, v')"
          "vx_fdb v' = vx_fdb ?v" "vx_addrcnt v' = vx_addrcnt ?v" "vx_addrmax v' = vx_addrmax ?v"
        by (rule notify_new_ok [OF e4(1)])
      with u rc vok that same_table [OF v'(2)] show ?thesis by simp
    qed
  qed
qed

definition fdb_bounded :: "vxlan_dev \<Rightarrow> bool" where
  "fdb_bounded v \<longleftrightarrow> (vx_addrmax v \<noteq> 0 \<longrightarrow> length (fdb_entries v) \<le> unat (vx_addrmax v))"

lemma addrcnt_exact:
  assumes ok: "fdb_ok hash v" and b: "fdb_bounded v" and m: "vx_addrmax v \<noteq> 0"
  shows "unat (vx_addrcnt v) = length (fdb_entries v)"
proof -
  have "length (fdb_entries v) < 2 ^ 32" using b m unsigned_less [of "vx_addrmax v", where 'a = nat] by (simp add: fdb_bounded_def)
  with fdb_okD(4) [OF ok] show ?thesis by (simp add: unat_of_nat)
qed

lemma fdb_new_ok:
  assumes ok: "fdb_ok hash v" and b: "fdb_bounded v" and f: "find_mac hash v mac = None" and mem: "vx_mem v \<noteq> 1"
  obtains rc v' where "fdb_new hash jiffies v mac rd state flags nf = Some (rc, v')" "fdb_ok hash v'" "fdb_bounded v'"
    "rc < 0 \<longrightarrow> v' = v" "rc \<ge> 0 \<longrightarrow> mset (fdb_entries v') = add_mset \<lparr>f_updated = jiffies, f_used = jiffies, f_remotes = [rd],
      f_state = state, f_flags = nf, f_eth_addr = mac\<rparr> (mset (fdb_entries v))"
    "rc \<ge> 0 \<longleftrightarrow> flags AND NLM_F_CREATE \<noteq> 0 \<and> \<not> (flags AND NLM_F_REPLACE \<noteq> 0 \<and> group_mac mac) \<and>
      (vx_addrmax v = 0 \<or> length (fdb_entries v) < unat (vx_addrmax v)) \<and> vx_mem v \<noteq> 0"
proof -
  define full where "full = (vx_addrmax v \<noteq> 0 \<and> vx_addrcnt v \<ge> vx_addrmax v)"
  define bad where "bad = (flags AND NLM_F_REPLACE \<noteq> 0 \<and> group_mac mac)"
  note new = fdb_new_def [of hash jiffies v mac rd state flags nf, folded full_def bad_def]
  have room: "\<not> full \<longleftrightarrow> vx_addrmax v = 0 \<or> length (fdb_entries v) < unat (vx_addrmax v)"
    using addrcnt_exact [OF ok b] by (cases "vx_addrmax v = 0") (auto simp: full_def word_le_nat_alt)
  show ?thesis
  proof (cases "flags AND NLM_F_CREATE = 0 \<or> full \<or> bad \<or> vx_mem v = 0")
    case True
    define rc where "rc = (if flags AND NLM_F_CREATE = 0 then - ENOENT else if full then - ENOSPC else if bad then - EOPNOTSUPP else - ENOMEM)"
    have neg: "rc < 0" by (simp add: rc_def)
    have run: "fdb_new hash jiffies v mac rd state flags nf = Some (rc, v)"
      unfolding rc_def using True by (cases full; cases bad; cases "flags AND NLM_F_CREATE = 0"; cases "vx_mem v = 0") (simp_all add: new)
    show ?thesis by (rule that [OF run ok b]) (use neg True in \<open>auto simp: room [symmetric] bad_def [symmetric]\<close>)
  next
    case False
    let ?f = "\<lparr>f_updated = jiffies, f_used = jiffies, f_remotes = [rd], f_state = state, f_flags = nf, f_eth_addr = mac\<rparr>"
    let ?n = "vxlan_fdb_head hash mac"
    let ?v = "v\<lparr>vx_mem := vx_mem v - 2, vx_addrcnt := vx_addrcnt v + 1, vx_fdb := (vx_fdb v)[?n := ?f # vx_fdb v ! ?n]\<rparr>"
    have e: "entry_ok ?f" by (simp add: entry_ok_def)
    have a: "vxlan_fdb_append (vx_mem v - 1) (?f\<lparr>f_remotes := []\<rparr>) rd = (1, ?f, Some rd, vx_mem v - 2)"
      using False mem by (simp add: vxlan_fdb_append_def)
    obtain v' where v': "fdb_notify_new True ?f (Some rd) ?v = Some (0, v')" "vx_fdb v' = vx_fdb ?v" "vx_addrcnt v' = vx_addrcnt ?v" "vx_addrmax v' = vx_addrmax ?v"
      by (rule notify_new_ok [OF e])
    have run: "fdb_new hash jiffies v mac rd state flags nf = Some (0, v')"
      using False a v'(1) by (simp add: new Let_def)
    have t: "fdb_ok hash v'" "mset (fdb_entries v') = add_mset ?f (mset (fdb_entries v))"
      by (rule link_fdb_ok [OF ok _ e]; use f v' in simp)+
    have "fdb_bounded v'"
      unfolding fdb_bounded_def
    proof
      assume m: "vx_addrmax v' \<noteq> 0"
      then have "unat (vx_addrcnt v) < unat (vx_addrmax v)" using False v'(4) by (simp add: full_def word_less_nat_alt not_le)
      then show "length (fdb_entries v') \<le> unat (vx_addrmax v')"
        using addrcnt_exact [OF ok b] m v'(4) length_mset [OF t(2)] by simp
    qed
    with run t False show ?thesis by (intro that [of 0 v']) (simp_all add: room [symmetric] bad_def [symmetric])
  qed
qed

lemma fdb_create_ok:
  assumes ok: "fdb_ok hash v" and b: "fdb_bounded v" and mem: "vx_mem v \<noteq> 1"
  obtains rc v' where "vxlan_fdb_create hash jiffies v mac rd state flags nf = Some (rc, v')" "fdb_ok hash v'" "fdb_bounded v'"
proof (cases "find_mac hash v mac")
  case None
  from fdb_new_ok [OF ok b None mem] obtain rc v' where "fdb_new hash jiffies v mac rd state flags nf = Some (rc, v')"
    "fdb_ok hash v'" "fdb_bounded v'" by metis
  with None that show ?thesis by (simp add: vxlan_fdb_create_def)
next
  case (Some f)
  then have m: "f_eth_addr f = mac" using find_mac_mem(1) [OF ok] by blast
  show ?thesis
  proof (cases "flags AND NLM_F_EXCL \<noteq> 0")
    case True
    with Some ok b that show ?thesis by (simp add: vxlan_fdb_create_def)
  next
    case False
    obtain rc v' where "fdb_update hash jiffies v f rd state flags nf = Some (rc, v')" "fdb_ok hash v'"
        "length (fdb_entries v') = length (fdb_entries v)" "vx_addrmax v' = vx_addrmax v"
      using fdb_update_ok [OF ok, of f] Some m by metis
    with False Some b that show ?thesis by (simp add: vxlan_fdb_create_def fdb_bounded_def)
  qed
qed

lemma find_used_ok:
  fixes jiffies :: u64
  assumes ok: "fdb_ok hash v" and f: "find_mac hash v mac = Some g"
  defines "f \<equiv> g\<lparr>f_used := jiffies\<rparr>"
  shows "vxlan_find_mac hash jiffies v mac = (Some f, put_fdb hash f v)" "fdb_ok hash (put_fdb hash f v)" "entry_ok f"
    "find_mac hash (put_fdb hash f v) mac = Some f" "f_eth_addr f = mac"
    "length (fdb_entries (put_fdb hash f v)) = length (fdb_entries v)"
    "m \<noteq> mac \<Longrightarrow> find_mac hash (put_fdb hash f v) m = find_mac hash v m"
proof -
  have g: "f_eth_addr g = mac" "entry_ok g" using f find_mac_mem(1) [OF ok] fdb_okD(3) [OF ok] by blast+
  then show e: "entry_ok f" "f_eth_addr f = mac" by (simp_all add: f_def entry_ok_def)
  show "vxlan_find_mac hash jiffies v mac = (Some f, put_fdb hash f v)" using f by (simp add: vxlan_find_mac_def f_def Let_def)
  have fm: "find_mac hash v (f_eth_addr f) = Some g" using f e(2) by simp
  show "fdb_ok hash (put_fdb hash f v)" "find_mac hash (put_fdb hash f v) mac = Some f"
    "length (fdb_entries (put_fdb hash f v)) = length (fdb_entries v)"
    "m \<noteq> mac \<Longrightarrow> find_mac hash (put_fdb hash f v) m = find_mac hash v m"
    using put_fdb_ok [OF ok fm e(1)] e(2) by simp_all
qed

lemma remove_rdst_length: "fdb_find_rdst rs rd \<Longrightarrow> Suc (length (remove_rdst rd rs)) = length rs"
  by (induction rs) auto

lemma bounded_less: "fdb_bounded v \<Longrightarrow> length (fdb_entries v') \<le> length (fdb_entries v) \<Longrightarrow> vx_addrmax v' = vx_addrmax v \<Longrightarrow> fdb_bounded v'"
  by (auto simp: fdb_bounded_def)

lemma fdb_delete_ok:
  assumes ok: "fdb_ok hash v" and b: "fdb_bounded v"
  shows "\<exists>rc v'. vxlan_fdb_delete hash idx jiffies tb mac v = Some (rc, v') \<and> fdb_ok hash v' \<and> fdb_bounded v'"
proof (cases "vxlan_fdb_parse idx tb v")
  case (Inr rd)
  show ?thesis
  proof (cases "find_mac hash v mac")
    case None
    with Inr ok b show ?thesis by (simp add: vxlan_fdb_delete_def vxlan_find_mac_def)
  next
    case (Some g)
    let ?f = "g\<lparr>f_used := jiffies\<rparr>"
    let ?v = "put_fdb hash ?f v"
    note u = find_used_ok [OF ok Some, where jiffies = jiffies]
    have bv: "fdb_bounded ?v" by (rule bounded_less [OF b]) (use u(6) in simp_all)
    consider "\<not> vxlan_addr_any (rd_ip rd) \<and> \<not> fdb_find_rdst (f_remotes ?f) rd"
      | "\<not> vxlan_addr_any (rd_ip rd)" "fdb_find_rdst (f_remotes ?f) rd" "length (f_remotes ?f) \<noteq> 1"
      | "vxlan_addr_any (rd_ip rd) \<or> fdb_find_rdst (f_remotes ?f) rd \<and> length (f_remotes ?f) = 1" by blast
    then show ?thesis
    proof cases
      case 1
      with Inr u(1,2) bv show ?thesis by (simp add: vxlan_fdb_delete_def)
    next
      case 2
      let ?h = "?f\<lparr>f_remotes := remove_rdst rd (f_remotes ?f)\<rparr>"
      let ?w = "(vxlan_fdb_notify RTM_DELNEIGH ?h rd (put_fdb hash ?h ?v))\<lparr>vx_mem := vx_mem ?v + 1\<rparr>"
      have "2 \<le> length (f_remotes ?f)" using 2(3) u(3) by (cases "f_remotes ?f") (auto simp: entry_ok_def Suc_le_eq)
      then have "length (remove_rdst rd (f_remotes ?f)) \<noteq> 0" using remove_rdst_length [OF 2(2)] by linarith
      then have e: "entry_ok ?h" using u(3) 2(3) by (simp add: entry_ok_def)
      have fm: "find_mac hash ?v (f_eth_addr ?h) = Some ?f" using u(4,5) by simp
      have "fdb_ok hash ?w" "length (fdb_entries ?w) = length (fdb_entries ?v)"
        using put_fdb_ok(1,3) [OF u(2) fm e] same_table [of ?w "put_fdb hash ?h ?v"] by simp_all
      moreover from this have "fdb_bounded ?w" by (intro bounded_less [OF bv]) simp_all
      moreover have "vxlan_fdb_delete hash idx jiffies tb mac v = Some (0, ?w)"
        using Inr u(1) 2 by (simp add: vxlan_fdb_delete_def Let_def)
      ultimately show ?thesis by blast
    next
      case 3
      have fm: "find_mac hash ?v (f_eth_addr ?f) = Some ?f" and ne: "f_remotes ?f \<noteq> []" using u(3-5) by (simp_all add: entry_ok_def)
      obtain w where w: "vxlan_fdb_destroy hash ?v ?f = Some w" "fdb_ok hash w" "mset (fdb_entries w) = mset (fdb_entries ?v) - {#?f#}"
          "vx_addrmax w = vx_addrmax ?v"
        by (rule destroy_ok [OF u(2) fm ne])
      have "length (fdb_entries w) \<le> length (fdb_entries ?v)" using w(3) by (metis diff_subset_eq_self size_mset size_mset_mono)
      then have "fdb_bounded w" by (intro bounded_less [OF bv]) (simp_all add: w(4))
      moreover have "vxlan_fdb_delete hash idx jiffies tb mac v = Some (0, w)"
        using Inr u(1) 3 w(1) by (auto simp: vxlan_fdb_delete_def)
      ultimately show ?thesis using w(2) by blast
    qed
  qed
qed (use ok b in \<open>simp add: vxlan_fdb_delete_def\<close>)

text \<open>Ageing and flushing destroy the entries of the table that a predicate selects, one after the other.\<close>

fun purge_fdb :: "(u64 \<Rightarrow> 8 word) \<Rightarrow> (vxlan_fdb \<Rightarrow> bool) \<Rightarrow> (vxlan_fdb \<Rightarrow> vxlan_fdb) \<Rightarrow> vxlan_fdb list \<Rightarrow> vxlan_dev \<Rightarrow> vxlan_dev option" where
  "purge_fdb hash P g [] v = Some v"
| "purge_fdb hash P g (f # rest) v = (if P f then do { v \<leftarrow> vxlan_fdb_destroy hash v (g f); purge_fdb hash P g rest v } else purge_fdb hash P g rest v)"

lemma purge_fdb_ok:
  assumes "fdb_ok hash v" "distinct fs" "set fs \<subseteq> set (fdb_entries v)"
    and g: "\<And>f. f_eth_addr (g f) = f_eth_addr f \<and> f_remotes (g f) = f_remotes f"
  shows "\<exists>v'. purge_fdb hash P g fs v = Some v' \<and> fdb_ok hash v' \<and>
    mset (fdb_entries v') = mset (fdb_entries v) - mset (filter P fs) \<and> vx_addrmax v' = vx_addrmax v \<and> vx_age_interval v' = vx_age_interval v"
  using assms(1-3)
proof (induction fs arbitrary: v)
  case (Cons f fs)
  show ?case
  proof (cases "P f")
    case False
    with Cons show ?thesis by simp
  next
    case True
    have f: "find_mac hash v (f_eth_addr (g f)) = Some f" "f_remotes (g f) \<noteq> []"
      using Cons.prems(1,3) find_mac_mem(1) [OF Cons.prems(1)] fdb_okD(3) [OF Cons.prems(1)] g by (auto simp: entry_ok_def)
    obtain w where w: "vxlan_fdb_destroy hash v (g f) = Some w" "fdb_ok hash w" "mset (fdb_entries w) = mset (fdb_entries v) - {#f#}"
        "vx_age_interval w = vx_age_interval v" "vx_addrmax w = vx_addrmax v"
      by (rule destroy_ok [OF Cons.prems(1) f])
    have "x \<in> set (fdb_entries w)" if "x \<in> set fs" for x
    proof -
      have "x \<in># mset (fdb_entries v)" "x \<noteq> f" using that Cons.prems(2,3) by auto
      then have "x \<in># mset (fdb_entries w)" unfolding w(3) by (simp add: in_diff_count)
      then show ?thesis by simp
    qed
    then obtain v' where "purge_fdb hash P g fs w = Some v'" "fdb_ok hash v'" "vx_addrmax v' = vx_addrmax w" "vx_age_interval v' = vx_age_interval w"
        "mset (fdb_entries v') = mset (fdb_entries w) - mset (filter P fs)"
      using Cons.IH [OF w(2)] Cons.prems(2) by auto
    with True w show ?thesis by simp
  qed
qed simp

lemma entries_distinct: "fdb_ok hash v \<Longrightarrow> distinct (fdb_entries v)"
  using fdb_okD(2) distinct_map by blast

lemma mset_diff_filter: "mset xs - mset (filter P xs) = mset (filter (\<lambda>x. \<not> P x) xs)"
  by (induction xs) (simp_all add: multiset_diff_union_assoc mset_subset_eq_mono_add multiset_filter_subset)

lemma purge_all:
  assumes ok: "fdb_ok hash v" and b: "fdb_bounded v"
    and g: "\<And>f. f_eth_addr (g f) = f_eth_addr f \<and> f_remotes (g f) = f_remotes f"
  obtains v' where "purge_fdb hash P g (fdb_entries v) v = Some v'" "fdb_ok hash v'" "fdb_bounded v'"
    "mset (fdb_entries v') = mset (filter (\<lambda>f. \<not> P f) (fdb_entries v))"
proof -
  obtain v' where v': "purge_fdb hash P g (fdb_entries v) v = Some v'" "fdb_ok hash v'"
      "mset (fdb_entries v') = mset (fdb_entries v) - mset (filter P (fdb_entries v))" "vx_addrmax v' = vx_addrmax v"
    using purge_fdb_ok [OF ok entries_distinct [OF ok] order_refl g] by blast
  have m: "mset (fdb_entries v') = mset (filter (\<lambda>f. \<not> P f) (fdb_entries v))" unfolding v'(3) by (rule mset_diff_filter)
  then have "length (fdb_entries v') \<le> length (fdb_entries v)" by (metis length_filter_le mset_eq_length)
  then have "fdb_bounded v'" by (rule bounded_less [OF b _ v'(4)])
  with v' m that show ?thesis by blast
qed

definition expired :: "u64 \<Rightarrow> u64 \<Rightarrow> vxlan_dev \<Rightarrow> vxlan_fdb \<Rightarrow> bool" where
  "expired hz jiffies v f \<longleftrightarrow> f_state f AND NUD_PERMANENT = 0 \<and> time_before_eq (f_used f + vx_age_interval v * hz) jiffies"

lemma cleanup_purge:
  "purge_fdb hash (expired hz jiffies v0) (\<lambda>f. f\<lparr>f_state := NUD_STALE\<rparr>) fs v = Some v' \<Longrightarrow> vx_age_interval v = vx_age_interval v0 \<Longrightarrow>
    \<exists>t. cleanup_loop hash hz jiffies fs nt v = Some (t, v')"
proof (induction fs arbitrary: v nt)
  case (Cons f fs)
  show ?case
  proof (cases "expired hz jiffies v0 f")
    case False
    with Cons show ?thesis by (auto simp: expired_def Let_def)
  next
    case True
    then obtain w where w: "vxlan_fdb_destroy hash v (f\<lparr>f_state := NUD_STALE\<rparr>) = Some w"
        "purge_fdb hash (expired hz jiffies v0) (\<lambda>f. f\<lparr>f_state := NUD_STALE\<rparr>) fs w = Some v'"
      using Cons.prems(1) by (auto simp: bind_eq_Some_conv)
    have "vx_age_interval w = vx_age_interval v"
      using w(1) by (auto simp: vxlan_fdb_destroy_def bind_eq_Some_conv Let_def)
    with Cons.IH [OF w(2)] Cons.prems(2) True w(1) show ?thesis by (auto simp: expired_def Let_def)
  qed
qed simp

lemma flush_purge: "flush_loop hash fs v = purge_fdb hash (\<lambda>f. \<not> is_zero_ether_addr (f_eth_addr f)) (\<lambda>f. f) fs v"
  by (induction fs arbitrary: v) (auto split: option.splits intro!: bind_option_cong)

lemma cleanup_ok:
  assumes ok: "fdb_ok hash v" and b: "fdb_bounded v"
  obtains t v' where "vxlan_cleanup hash hz jiffies running v = Some (t, v')" "fdb_ok hash v'" "fdb_bounded v'"
    "mset (fdb_entries v') = mset (filter (\<lambda>f. running \<longrightarrow> \<not> expired hz jiffies v f) (fdb_entries v))"
proof (cases running)
  case True
  obtain v' where v': "purge_fdb hash (expired hz jiffies v) (\<lambda>f. f\<lparr>f_state := NUD_STALE\<rparr>) (fdb_entries v) v = Some v'"
      "fdb_ok hash v'" "fdb_bounded v'" "mset (fdb_entries v') = mset (filter (\<lambda>f. \<not> expired hz jiffies v f) (fdb_entries v))"
    by (rule purge_all [OF ok b, of "\<lambda>f. f\<lparr>f_state := NUD_STALE\<rparr>"]) simp_all
  obtain t where "cleanup_loop hash hz jiffies (fdb_entries v) (jiffies + 10 * hz) v = Some (t, v')" using cleanup_purge [OF v'(1) refl] by blast
  with True v' that show ?thesis by (simp add: vxlan_cleanup_def fdb_entries_def)
qed (use ok b that in \<open>simp add: vxlan_cleanup_def\<close>)

lemma flush_ok:
  assumes ok: "fdb_ok hash v" and b: "fdb_bounded v"
  obtains v' where "vxlan_flush hash v = Some v'" "fdb_ok hash v'" "fdb_bounded v'"
    "mset (fdb_entries v') = mset (filter (\<lambda>f. is_zero_ether_addr (f_eth_addr f)) (fdb_entries v))"
  using purge_all [OF ok b, of "\<lambda>f. f" "\<lambda>f. \<not> is_zero_ether_addr (f_eth_addr f)"]
  by (auto simp: vxlan_flush_def flush_purge fdb_entries_def)

section \<open>What is found afterwards\<close>

lemma find_link:
  assumes ok: "fdb_ok hash v" "fdb_ok hash v'" and m: "mset (fdb_entries v') = add_mset f (mset (fdb_entries v))"
  shows "find_mac hash v' mac = (if mac = f_eth_addr f then Some f else find_mac hash v mac)"
proof (cases "mac = f_eth_addr f")
  case True
  then show ?thesis using find_mac_mem(1) [OF ok(2), of mac f] mem_mset [OF m, of f] by simp
next
  case False
  have "find_mac hash v' mac = Some x \<longleftrightarrow> find_mac hash v mac = Some x" for x
    using find_mac_mem(1) [OF ok(2), of mac x] find_mac_mem(1) [OF ok(1), of mac x] mem_mset [OF m, of x] False by auto
  with False show ?thesis by (cases "find_mac hash v mac"; cases "find_mac hash v' mac") auto
qed

text \<open>Learning from a frame.\<close>

lemma snoop_ok:
  assumes ok: "fdb_ok hash v" and b: "fdb_bounded v" and mem: "vx_mem v \<noteq> 1"
  shows "\<exists>bad v'. vxlan_snoop hash jiffies running ip mac v = Some (bad, v') \<and> fdb_ok hash v' \<and> fdb_bounded v' \<and>
    (\<forall>m. m \<noteq> mac \<longrightarrow> find_mac hash v' m = find_mac hash v m) \<and>
    (case find_mac hash v mac of
       Some f \<Rightarrow> (bad \<longleftrightarrow> rd_ip (hd (f_remotes f)) \<noteq> ip \<and> f_state f AND NUD_NOARP \<noteq> 0) \<and>
         (\<exists>f'. find_mac hash v' mac = Some f' \<and> f_state f' = f_state f \<and>
           f_remotes f' = (if bad then f_remotes f else (hd (f_remotes f))\<lparr>rd_ip := ip\<rparr> # tl (f_remotes f)))
     | None \<Rightarrow> \<not> bad \<and>
         (if running \<and> (vx_addrmax v = 0 \<or> length (fdb_entries v) < unat (vx_addrmax v)) \<and> vx_mem v \<noteq> 0
          then \<exists>f'. find_mac hash v' mac = Some f' \<and> f_state f' = NUD_REACHABLE \<and>
            f_remotes f' = [\<lparr>rd_ip = ip, rd_port = vx_dst_port v, rd_vni = rd_vni (vx_default_dst v), rd_ifindex = 0\<rparr>]
          else v' = v))"
proof (cases "find_mac hash v mac")
  case (Some g)
  let ?f = "g\<lparr>f_used := jiffies\<rparr>" and ?r = "hd (f_remotes g)"
  let ?v = "put_fdb hash ?f v"
  note u = find_used_ok [OF ok Some, where jiffies = jiffies]
  have bv: "fdb_bounded ?v" by (rule bounded_less [OF b]) (use u(6) in simp_all)
  have ne: "f_remotes g \<noteq> []" using u(3) by (simp add: entry_ok_def)
  then have fr: "first_remote ?f = Some ?r" by (cases "f_remotes g") (simp_all add: first_remote_def)
  consider "rd_ip ?r = ip" | "rd_ip ?r \<noteq> ip" "f_state g AND NUD_NOARP \<noteq> 0" | "rd_ip ?r \<noteq> ip" "f_state g AND NUD_NOARP = 0" by blast
  then show ?thesis
  proof cases
    case 1
    then have "?r\<lparr>rd_ip := ip\<rparr> # tl (f_remotes g) = f_remotes g" using ne by (cases "f_remotes g") auto
    moreover have "vxlan_snoop hash jiffies running ip mac v = Some (False, ?v)" using 1 u(1) fr by (simp add: vxlan_snoop_def)
    ultimately show ?thesis using 1 u bv Some by (intro exI [of _ False] exI [of _ ?v]) simp
  next
    case 2
    then have "vxlan_snoop hash jiffies running ip mac v = Some (True, ?v)" using u(1) fr by (simp add: vxlan_snoop_def)
    with 2 u bv Some show ?thesis by (intro exI [of _ True] exI [of _ ?v]) simp
  next
    case 3
    let ?h = "?f\<lparr>f_remotes := ?r\<lparr>rd_ip := ip\<rparr> # tl (f_remotes g), f_updated := jiffies\<rparr>"
    let ?w = "vxlan_fdb_notify RTM_NEWNEIGH ?h (?r\<lparr>rd_ip := ip\<rparr>) (put_fdb hash ?h ?v)"
    have e: "entry_ok ?h" using u(3) ne by (cases "f_remotes g") (auto simp: entry_ok_def)
    have fm: "find_mac hash ?v (f_eth_addr ?h) = Some ?f" using u(4,5) by simp
    note p = put_fdb_ok [OF u(2) fm e]
    have same: "vx_fdb ?w = vx_fdb (put_fdb hash ?h ?v)" by simp
    have w: "fdb_ok hash ?w" "length (fdb_entries ?w) = length (fdb_entries ?v)"
      "find_mac hash ?w m = (if m = mac then Some ?h else find_mac hash ?v m)" for m
      using p(1,3) p(2) [of m] u(5) same_table [OF same] by simp_all
    have "fdb_bounded ?w" by (rule bounded_less [OF bv]) (use w(2) in simp_all)
    moreover have "vxlan_snoop hash jiffies running ip mac v = Some (False, ?w)" using 3 u(1) fr by (simp add: vxlan_snoop_def Let_def)
    ultimately show ?thesis using 3 w u(7) Some by (intro exI [of _ False] exI [of _ ?w]) simp
  qed
next
  case None
  let ?rd = "\<lparr>rd_ip = ip, rd_port = vx_dst_port v, rd_vni = rd_vni (vx_default_dst v), rd_ifindex = 0\<rparr>"
  let ?fl = "NLM_F_EXCL OR NLM_F_CREATE"
  have fl: "?fl AND NLM_F_CREATE \<noteq> 0" "?fl AND NLM_F_REPLACE = 0" by simp_all
  obtain rc v' where n: "fdb_new hash jiffies v mac ?rd NUD_REACHABLE ?fl NTF_SELF = Some (rc, v')" "fdb_ok hash v'" "fdb_bounded v'"
      "rc < 0 \<longrightarrow> v' = v" "rc \<ge> 0 \<longrightarrow> mset (fdb_entries v') = add_mset \<lparr>f_updated = jiffies, f_used = jiffies, f_remotes = [?rd],
        f_state = NUD_REACHABLE, f_flags = NTF_SELF, f_eth_addr = mac\<rparr> (mset (fdb_entries v))"
      "rc \<ge> 0 \<longleftrightarrow> ?fl AND NLM_F_CREATE \<noteq> 0 \<and> \<not> (?fl AND NLM_F_REPLACE \<noteq> 0 \<and> group_mac mac) \<and>
        (vx_addrmax v = 0 \<or> length (fdb_entries v) < unat (vx_addrmax v)) \<and> vx_mem v \<noteq> 0"
    by (rule fdb_new_ok [OF ok b None mem, where jiffies = jiffies and rd = ?rd and state = NUD_REACHABLE and flags = ?fl and nf = NTF_SELF])
  have run: "vxlan_snoop hash jiffies running ip mac v = Some (False, if running then v' else v)"
    using None n(1) by (simp add: vxlan_snoop_def vxlan_find_mac_def vxlan_fdb_create_def)
  have room: "rc \<ge> 0 \<longleftrightarrow> (vx_addrmax v = 0 \<or> length (fdb_entries v) < unat (vx_addrmax v)) \<and> vx_mem v \<noteq> 0"
    using n(6) fl by simp
  show ?thesis
  proof (cases "running \<and> rc \<ge> 0")
    case True
    then have f: "find_mac hash v' m = (if m = mac then Some \<lparr>f_updated = jiffies, f_used = jiffies, f_remotes = [?rd],
        f_state = NUD_REACHABLE, f_flags = NTF_SELF, f_eth_addr = mac\<rparr> else find_mac hash v m)" for m
      using find_link [OF ok n(2)] n(5) by simp
    show ?thesis using True run n(2,3) f None room by (intro exI [of _ False] exI [of _ v']) simp
  next
    case False
    then have "(if running then v' else v) = v" using n(4) by (cases running) (auto simp: not_le)
    with False run ok b None room show ?thesis by (intro exI [of _ False] exI [of _ v]) simp
  qed
qed

section \<open>Histories\<close>

text \<open>What happens to a table: requests from user space, received frames, the timer, and the device
  going down or away. Every event comes with the clock and with how many allocations succeed in it.\<close>

datatype fdb_event =
    FdbAdd u16 u8 nlattr_tb "u8 list" u16
  | FdbDelete nlattr_tb "u8 list"
  | Learn bool vxlan_addr "u8 list"
  | Age bool
  | Flush
  | DropDefault

definition vxlan_exec :: "(u64 \<Rightarrow> 8 word) \<Rightarrow> (u32 \<Rightarrow> ptr) \<Rightarrow> u64 \<Rightarrow> u64 \<Rightarrow> fdb_event \<Rightarrow> vxlan_dev \<Rightarrow> vxlan_dev option" where
  "vxlan_exec hash idx hz jiffies e v =
     (case e of
        FdbAdd state nf tb mac flags \<Rightarrow> map_option snd (vxlan_fdb_add hash idx jiffies state nf tb mac flags v)
      | FdbDelete tb mac \<Rightarrow> map_option snd (vxlan_fdb_delete hash idx jiffies tb mac v)
      | Learn running ip mac \<Rightarrow> map_option snd (vxlan_snoop hash jiffies running ip mac v)
      | Age running \<Rightarrow> map_option snd (vxlan_cleanup hash hz jiffies running v)
      | Flush \<Rightarrow> vxlan_flush hash v
      | DropDefault \<Rightarrow> vxlan_fdb_delete_default hash v)"

fun vxlan_run :: "(u64 \<Rightarrow> 8 word) \<Rightarrow> (u32 \<Rightarrow> ptr) \<Rightarrow> u64 \<Rightarrow> (nat \<times> u64 \<times> fdb_event) list \<Rightarrow> vxlan_dev \<Rightarrow> vxlan_dev option" where
  "vxlan_run hash idx hz [] v = Some v"
| "vxlan_run hash idx hz ((mem, jiffies, e) # es) v = do {
     v \<leftarrow> vxlan_exec hash idx hz jiffies e (v\<lparr>vx_mem := mem\<rparr>);
     vxlan_run hash idx hz es v }"

lemma fdb_add_ok:
  assumes ok: "fdb_ok hash v" and b: "fdb_bounded v" and mem: "vx_mem v \<noteq> 1"
  shows "\<exists>rc v'. vxlan_fdb_add hash idx jiffies state nf tb mac flags v = Some (rc, v') \<and> fdb_ok hash v' \<and> fdb_bounded v'"
proof (cases "state AND (NUD_PERMANENT OR NUD_REACHABLE) = 0 \<or> tb NDA_DST = None")
  case False
  then have run: "vxlan_fdb_add hash idx jiffies state nf tb mac flags v =
      (case vxlan_fdb_parse idx tb v of
         Inl e \<Rightarrow> Some (e, v)
       | Inr rd \<Rightarrow> if \<not> same_family (rd_ip (vx_default_dst v)) (rd_ip rd) then Some (- EAFNOSUPPORT, v)
                  else vxlan_fdb_create hash jiffies v mac rd state flags nf)"
    by (auto simp: vxlan_fdb_add_def)
  show ?thesis
  proof (cases "vxlan_fdb_parse idx tb v")
    case (Inr rd)
    obtain rc v' where "vxlan_fdb_create hash jiffies v mac rd state flags nf = Some (rc, v')" "fdb_ok hash v'" "fdb_bounded v'"
      by (rule fdb_create_ok [OF ok b mem])
    with Inr run ok b show ?thesis by simp
  qed (use run ok b in simp)
qed (use ok b in \<open>auto simp: vxlan_fdb_add_def\<close>)

lemma delete_default_ok:
  assumes ok: "fdb_ok hash v" and b: "fdb_bounded v"
  shows "\<exists>v'. vxlan_fdb_delete_default hash v = Some v' \<and> fdb_ok hash v' \<and> fdb_bounded v' \<and> find_mac hash v' all_zeros_mac = None"
proof (cases "find_mac hash v all_zeros_mac")
  case (Some f)
  then have f: "f \<in> set (fdb_entries v)" "f_eth_addr f = all_zeros_mac" using find_mac_mem(1) [OF ok] by blast+
  have r: "f_remotes f \<noteq> []" using fdb_okD(3) [OF ok f(1)] by (simp add: entry_ok_def)
  obtain v' where v': "vxlan_fdb_destroy hash v f = Some v'" "fdb_ok hash v'" "mset (fdb_entries v') = mset (fdb_entries v) - {#f#}"
      "vx_addrmax v' = vx_addrmax v"
    using destroy_ok [OF ok _ r, of f] Some f(2) by metis
  have "length (fdb_entries v') \<le> length (fdb_entries v)" using v'(3) f(1)
    by (metis size_mset size_Diff1_le)
  then have bv: "fdb_bounded v'" by (rule bounded_less [OF b _ v'(4)])
  have "f_eth_addr g \<noteq> all_zeros_mac" if "g \<in># mset (fdb_entries v) - {#f#}" for g
  proof
    assume z: "f_eth_addr g = all_zeros_mac"
    have d: "distinct (fdb_entries v)" by (rule entries_distinct [OF ok])
    have g: "g \<in> set (fdb_entries v)" using that by (meson in_diffD set_mset_mset set_mset_mset in_multiset_in_set)
    then have "g = f" using fdb_okD(2) [OF ok] f z by (metis distinct_map inj_onD)
    with that have "count (mset (fdb_entries v)) f > 1" by (simp add: in_diff_count)
    with d show False by (simp add: distinct_count_atmost_1 split: if_splits)
  qed
  then have "find_mac hash v' all_zeros_mac = None"
    using find_mac_mem(2) [OF v'(2), of all_zeros_mac] v'(3) by (metis (no_types, lifting) imageE set_mset_mset)
  with Some v'(1,2) bv show ?thesis by (simp add: vxlan_fdb_delete_default_def)
qed (use ok b in \<open>simp add: vxlan_fdb_delete_default_def\<close>)

lemma vxlan_exec_ok:
  assumes ok: "fdb_ok hash v" and b: "fdb_bounded v" and mem: "vx_mem v \<noteq> 1"
  shows "\<exists>v'. vxlan_exec hash idx hz jiffies e v = Some v' \<and> fdb_ok hash v' \<and> fdb_bounded v'"
proof (cases e)
  case (FdbAdd state nf tb mac flags)
  then show ?thesis using fdb_add_ok [OF ok b mem, of idx jiffies state nf tb mac flags] by (auto simp: vxlan_exec_def)
next
  case (FdbDelete tb mac)
  then show ?thesis using fdb_delete_ok [OF ok b, of idx jiffies tb mac] by (auto simp: vxlan_exec_def)
next
  case (Learn running ip mac)
  then show ?thesis using snoop_ok [OF ok b mem, of jiffies running ip mac] by (auto simp: vxlan_exec_def)
next
  case (Age running)
  obtain t v' where "vxlan_cleanup hash hz jiffies running v = Some (t, v')" "fdb_ok hash v'" "fdb_bounded v'"
    by (rule cleanup_ok [OF ok b])
  with Age show ?thesis by (simp add: vxlan_exec_def)
next
  case Flush
  obtain v' where "vxlan_flush hash v = Some v'" "fdb_ok hash v'" "fdb_bounded v'" by (rule flush_ok [OF ok b])
  with Flush show ?thesis by (simp add: vxlan_exec_def)
next
  case DropDefault
  then show ?thesis using delete_default_ok [OF ok b] by (auto simp: vxlan_exec_def)
qed

lemma fdb_ok_mem [simp]: "fdb_ok hash (v\<lparr>vx_mem := n\<rparr>) = fdb_ok hash v" "fdb_bounded (v\<lparr>vx_mem := n\<rparr>) = fdb_bounded v"
  by (simp_all add: fdb_ok_def fdb_bounded_def fdb_entries_def)

lemma vxlan_run_ok:
  "fdb_ok hash v \<Longrightarrow> fdb_bounded v \<Longrightarrow> list_all (\<lambda>(mem, jiffies, e). mem \<noteq> 1) es \<Longrightarrow>
    \<exists>v'. vxlan_run hash idx hz es v = Some v' \<and> fdb_ok hash v' \<and> fdb_bounded v'"
proof (induction es arbitrary: v)
  case (Cons x es)
  obtain mem t e where x: "x = (mem, t, e)" by (cases x)
  with Cons.prems obtain w where "vxlan_exec hash idx hz t e (v\<lparr>vx_mem := mem\<rparr>) = Some w" "fdb_ok hash w" "fdb_bounded w"
    using vxlan_exec_ok [of hash "v\<lparr>vx_mem := mem\<rparr>" idx hz t e] by auto
  with x Cons.prems Cons.IH [of w] show ?case by simp
qed simp

lemma empty_table_ok: "vx_fdb v = replicate 256 [] \<Longrightarrow> vx_addrcnt v = 0 \<Longrightarrow> fdb_ok hash v \<and> fdb_bounded v"
  by (simp add: fdb_ok_def fdb_bounded_def fdb_entries_def buckets_ok_def)

definition demo_fdb_dev :: vxlan_dev where
  "demo_fdb_dev = \<lparr>vx_default_dst = \<lparr>rd_ip = IN4 5, rd_port = 0, rd_vni = 42, rd_ifindex = 0\<rparr>, vx_saddr = IN4 0, vx_dst_port = 7,
     vx_port_min = 0, vx_port_max = 0, vx_tos = 0, vx_ttl = 0, vx_flags = 1, vx_age_interval = 300, vx_addrcnt = 0, vx_addrmax = 2,
     vx_mcdev = None, vx_fdb = replicate 256 [], vx_mem = 1, vx_notified = []\<rparr>"

text \<open>Property C8: whatever requests, frames, timer runs, flushes and deletions a forwarding table sees, in
  any order and with any allocation failing except the second one of a new entry, each
  of them returns, and the table stays well-formed: every entry is in the bucket of its address,
  alone with that address, and has a remote (exactly one unless the address is a group's or zero);
  the counter is the number of entries, and that is within the limit.\<close>

theorem table_stays_well_formed:
  assumes "vx_fdb v = replicate 256 []" "vx_addrcnt v = 0" "list_all (\<lambda>(mem, jiffies, e). mem \<noteq> 1) es"
  shows "\<exists>v'. vxlan_run hash idx hz es v = Some v' \<and> fdb_ok hash v' \<and> fdb_bounded v'"
  using vxlan_run_ok [of hash v es idx hz] empty_table_ok [OF assms(1,2)] assms(3) by blast

theorem table_stays_well_formed_witness:
  "\<exists>v'. vxlan_run (\<lambda>_. 0) (\<lambda>_. None) 250
      [(2, 10, Learn True (IN4 9) [2, 0, 0, 0, 0, 1]), (0, 11, Learn True (IN4 9) [2, 0, 0, 0, 0, 2]), (5, 12, FdbDelete [1 \<mapsto> le_bytes 4 (9 :: u32)] [2, 0, 0, 0, 0, 1]),
       (3, 900000, Age True), (3, 900001, Flush), (3, 900002, DropDefault)] demo_fdb_dev = Some v' \<and>
    fdb_ok (\<lambda>_. 0) v' \<and> fdb_bounded v'"
  by (rule table_stays_well_formed) (simp_all add: demo_fdb_dev_def)

text \<open>Property C28: a new entry takes two allocations, and the result of the second is not looked at. When
  exactly that one fails, the entry has no remote, and announcing it reads one: on a well-formed
  table that is the only way for the creation of an entry to go wrong.\<close>

theorem creation_fault:
  assumes ok: "fdb_ok hash v" and b: "fdb_bounded v"
  shows "vxlan_fdb_create hash jiffies v mac rd state flags nf = None \<longleftrightarrow>
    vx_mem v = 1 \<and> find_mac hash v mac = None \<and> flags AND NLM_F_CREATE \<noteq> 0 \<and> \<not> (flags AND NLM_F_REPLACE \<noteq> 0 \<and> group_mac mac) \<and>
    (vx_addrmax v = 0 \<or> length (fdb_entries v) < unat (vx_addrmax v))"
proof (cases "find_mac hash v mac")
  case (Some f)
  then have m: "f_eth_addr f = mac" using find_mac_mem(1) [OF ok] by blast
  obtain rc v' where "fdb_update hash jiffies v f rd state flags nf = Some (rc, v')" using fdb_update_ok [OF ok, of f] Some m by metis
  with Some show ?thesis by (simp add: vxlan_fdb_create_def)
next
  case None
  show ?thesis
  proof (cases "vx_mem v = 1")
    case False
    obtain rc v' where "vxlan_fdb_create hash jiffies v mac rd state flags nf = Some (rc, v')" by (rule fdb_create_ok [OF ok b False])
    with False show ?thesis by simp
  next
    case True
    have room: "\<not> (vx_addrmax v \<noteq> 0 \<and> vx_addrcnt v \<ge> vx_addrmax v) \<longleftrightarrow> vx_addrmax v = 0 \<or> length (fdb_entries v) < unat (vx_addrmax v)"
      using addrcnt_exact [OF ok b] by (cases "vx_addrmax v = 0") (auto simp: word_le_nat_alt)
    show ?thesis
      unfolding room [symmetric] using True None
      by (simp add: vxlan_fdb_create_def fdb_new_def vxlan_fdb_append_def fdb_notify_new_def first_remote_def)
  qed
qed

theorem creation_fault_witness:
  "vxlan_fdb_create (\<lambda>_. 0) 10 demo_fdb_dev [2, 0, 0, 0, 0, 1] \<lparr>rd_ip = IN4 9, rd_port = 7, rd_vni = 42, rd_ifindex = 0\<rparr> NUD_REACHABLE
     (NLM_F_EXCL OR NLM_F_CREATE) NTF_SELF = None"
proof -
  have e: "fdb_ok (\<lambda>_. 0) demo_fdb_dev \<and> fdb_bounded demo_fdb_dev" by (rule empty_table_ok) (simp_all add: demo_fdb_dev_def)
  have f: "find_mac (\<lambda>_. 0) demo_fdb_dev [2, 0, 0, 0, 0, 1] = None" "fdb_entries demo_fdb_dev = []" "vx_mem demo_fdb_dev = 1" "vx_addrmax demo_fdb_dev = 2"
    by (simp_all add: find_mac_def vxlan_fdb_head_def eth_hash_def demo_fdb_dev_def fdb_entries_def)
  show ?thesis by (subst creation_fault) (use e f in simp_all)
qed

text \<open>Property C27: a run of the ageing timer on a running device removes exactly the entries that are not
  permanent and were not used for the device's ageing interval, and leaves the others as they are.\<close>

theorem ageing_exact:
  assumes "fdb_ok hash v" "fdb_bounded v"
  shows "\<exists>t v'. vxlan_cleanup hash hz jiffies True v = Some (t, v') \<and> fdb_ok hash v' \<and>
    find_mac hash v' mac = (case find_mac hash v mac of
      None \<Rightarrow> None
    | Some f \<Rightarrow> if f_state f AND NUD_PERMANENT = 0 \<and> time_before_eq (f_used f + vx_age_interval v * hz) jiffies then None else Some f)"
proof -
  obtain t v' where c: "vxlan_cleanup hash hz jiffies True v = Some (t, v')" "fdb_ok hash v'"
      "mset (fdb_entries v') = mset (filter (\<lambda>f. True \<longrightarrow> \<not> expired hz jiffies v f) (fdb_entries v))"
    by (rule cleanup_ok [OF assms])
  from mset_eq_setD [OF c(3)] have s: "set (fdb_entries v') = {f \<in> set (fdb_entries v). \<not> expired hz jiffies v f}" by simp
  have m: "find_mac hash v' mac = Some g \<longleftrightarrow> find_mac hash v mac = Some g \<and> \<not> expired hz jiffies v g" for g
    using find_mac_mem(1) [OF c(2), of mac g] find_mac_mem(1) [OF assms(1), of mac g] s by auto
  have "find_mac hash v' mac = (case find_mac hash v mac of None \<Rightarrow> None | Some f \<Rightarrow> if expired hz jiffies v f then None else Some f)"
  proof (cases "\<exists>f. find_mac hash v mac = Some f \<and> \<not> expired hz jiffies v f")
    case True
    then show ?thesis using m by fastforce
  next
    case False
    then have "find_mac hash v' mac \<noteq> Some g" for g using m [of g] by blast
    then have "find_mac hash v' mac = None" by (metis not_None_eq)
    with False show ?thesis by (cases "find_mac hash v mac") simp_all
  qed
  with c(1,2) show ?thesis unfolding expired_def by blast
qed

text \<open>A table with an entry that was last used at 0, for an interval of 300 seconds.\<close>

definition demo_aged :: vxlan_dev where
  "demo_aged = demo_fdb_dev\<lparr>vx_addrcnt := 1, vx_fdb := [\<lparr>f_updated = 0, f_used = 0,
     f_remotes = [\<lparr>rd_ip = IN4 9, rd_port = 7, rd_vni = 42, rd_ifindex = 0\<rparr>], f_state = NUD_REACHABLE, f_flags = NTF_SELF,
     f_eth_addr = [2, 0, 0, 0, 0, 1]\<rparr>] # replicate 255 []\<rparr>"

theorem ageing_exact_witness:
  "find_mac (\<lambda>_. 0) demo_aged [2, 0, 0, 0, 0, 1] \<noteq> None \<and>
   (\<exists>t v'. vxlan_cleanup (\<lambda>_. 0) 250 900000 True demo_aged = Some (t, v') \<and> find_mac (\<lambda>_. 0) v' [2, 0, 0, 0, 0, 1] = None)"
proof -
  have e: "fdb_ok (\<lambda>_. 0) demo_aged" "fdb_bounded demo_aged"
    by (auto simp: fdb_ok_def fdb_bounded_def buckets_ok_def fdb_entries_def demo_aged_def demo_fdb_dev_def entry_ok_def eth_hash_def nth_Cons
        is_multicast_ether_addr_def is_zero_ether_addr_def split: nat.splits)
  have f: "find_mac (\<lambda>_. 0) demo_aged [2, 0, 0, 0, 0, 1] = Some \<lparr>f_updated = 0, f_used = 0,
      f_remotes = [\<lparr>rd_ip = IN4 9, rd_port = 7, rd_vni = 42, rd_ifindex = 0\<rparr>], f_state = NUD_REACHABLE, f_flags = NTF_SELF,
      f_eth_addr = [2, 0, 0, 0, 0, 1]\<rparr>" "vx_age_interval demo_aged = 300"
    by (simp_all add: find_mac_def vxlan_fdb_head_def eth_hash_def demo_aged_def demo_fdb_dev_def)
  have t: "time_before_eq (0 + 300 * 250) 900000" by (simp add: time_before_eq_def)
  show ?thesis using ageing_exact [OF e, of 250 900000 "[2, 0, 0, 0, 0, 1]"] f t by auto
qed

end
