(* ===== verification/Vxlan_Net.thy ===== *)
theory Vxlan_Net
  imports Vxlan_Fdb
begin

text \<open>
  \<^verbatim>\<open>protocol-drivers-4.2.0/vxlan/vxlan.c\<close>, the receive path: the VXLAN devices and sockets of a
  network namespace, the VXLAN header, and what a received UDP datagram becomes. The kernel's
  network stack is the fields of \<open>vx_kern\<close>. The layout of the header and the flag values are those
  of the kernel's \<^verbatim>\<open>net/vxlan.h\<close>. A result \<open>None\<close> is a read past a packet, a loop that does not
  end, a remote of an entry without remotes, or a corrupted list.
\<close>

section \<open>Constants\<close>

abbreviation (input) VXLAN_HF_RCO :: u32 where "VXLAN_HF_RCO \<equiv> 0x00200000"
abbreviation (input) VXLAN_HF_VNI :: u32 where "VXLAN_HF_VNI \<equiv> 0x08000000"
abbreviation (input) VXLAN_HF_GBP :: u32 where "VXLAN_HF_GBP \<equiv> 0x80000000"
abbreviation (input) VXLAN_GBP_USED_BITS :: u32 where "VXLAN_GBP_USED_BITS \<equiv> 0x80FFFFFF"
abbreviation (input) VXLAN_GBP_DONT_LEARN :: u32 where "VXLAN_GBP_DONT_LEARN \<equiv> 0x00400000"
abbreviation (input) VXLAN_GBP_POLICY_APPLIED :: u32 where "VXLAN_GBP_POLICY_APPLIED \<equiv> 0x00080000"
abbreviation (input) VXLAN_VID_MASK :: u32 where "VXLAN_VID_MASK \<equiv> 0x00FFFFFF"
abbreviation (input) VXLAN_VNI_MASK :: u32 where "VXLAN_VNI_MASK \<equiv> 0xFFFFFF00"
abbreviation (input) VXLAN_N_VID :: u32 where "VXLAN_N_VID \<equiv> 0x01000000"
abbreviation (input) VXLAN_RCO_UDP :: u32 where "VXLAN_RCO_UDP \<equiv> 0x80"
abbreviation (input) VXLAN_RCO_MASK :: u32 where "VXLAN_RCO_MASK \<equiv> 0x7F"

abbreviation (input) VXLAN_F_LEARN :: u32 where "VXLAN_F_LEARN \<equiv> 0x01"
abbreviation (input) VXLAN_F_PROXY :: u32 where "VXLAN_F_PROXY \<equiv> 0x02"
abbreviation (input) VXLAN_F_RSC :: u32 where "VXLAN_F_RSC \<equiv> 0x04"
abbreviation (input) VXLAN_F_L2MISS :: u32 where "VXLAN_F_L2MISS \<equiv> 0x08"
abbreviation (input) VXLAN_F_L3MISS :: u32 where "VXLAN_F_L3MISS \<equiv> 0x10"
abbreviation (input) VXLAN_F_IPV6 :: u32 where "VXLAN_F_IPV6 \<equiv> 0x20"
abbreviation (input) VXLAN_F_UDP_CSUM :: u32 where "VXLAN_F_UDP_CSUM \<equiv> 0x40"
abbreviation (input) VXLAN_F_UDP_ZERO_CSUM6_TX :: u32 where "VXLAN_F_UDP_ZERO_CSUM6_TX \<equiv> 0x80"
abbreviation (input) VXLAN_F_UDP_ZERO_CSUM6_RX :: u32 where "VXLAN_F_UDP_ZERO_CSUM6_RX \<equiv> 0x100"
abbreviation (input) VXLAN_F_REMCSUM_TX :: u32 where "VXLAN_F_REMCSUM_TX \<equiv> 0x200"
abbreviation (input) VXLAN_F_REMCSUM_RX :: u32 where "VXLAN_F_REMCSUM_RX \<equiv> 0x400"
abbreviation (input) VXLAN_F_GBP :: u32 where "VXLAN_F_GBP \<equiv> 0x800"
abbreviation (input) VXLAN_F_REMCSUM_NOPARTIAL :: u32 where "VXLAN_F_REMCSUM_NOPARTIAL \<equiv> 0x1000"
abbreviation (input) VXLAN_F_RCV_FLAGS :: u32 where "VXLAN_F_RCV_FLAGS \<equiv> 0x1D00"
abbreviation (input) NTF_ROUTER :: u8 where "NTF_ROUTER \<equiv> 0x80"

abbreviation (input) ntohl :: "u32 \<Rightarrow> u32" where "ntohl \<equiv> htonl"
abbreviation (input) ntohs :: "u16 \<Rightarrow> u16" where "ntohs \<equiv> htons"

section \<open>State\<close>

text \<open>A packet to send: its bytes from the Ethernet header on, the offsets of its network and transport
  headers, its mark, whether a checksum is left to fill in and where that starts and goes.\<close>

record vx_skb =
  vs_data :: "u8 list"
  vs_net :: nat
  vs_trans :: nat
  vs_mark :: u32
  vs_partial :: bool
  vs_csum_start :: nat
  vs_csum_offset :: nat
  vs_vlan :: bool

record vx_neigh =
  ng_state :: u8
  ng_ha :: "u8 list"
  ng_key6 :: "u8 list"

record vx_route =
  rt_dev :: addr
  rt_local :: bool
  rt_group :: bool
  rt_hoplimit :: u8
  rt_src :: vxlan_addr
  rt_reserved :: int

text \<open>\<open>vk_route\<close> is \<^verbatim>\<open>ip_route_output_key\<close> and \<^verbatim>\<open>ipv6_dst_lookup\<close> (interface, TOS, mark, destination,
  source); \<open>vk_hash32\<close> is \<^verbatim>\<open>hash_32\<close> with its number of bits; \<open>vk_up\<close> whether \<^verbatim>\<open>netif_rx\<close> accepts a packet;
  \<open>vk_udp_xmit\<close> the result of \<^verbatim>\<open>udp_tunnel_xmit_skb\<close>; \<open>vk_queue\<close> that of \<^verbatim>\<open>madcap_queue_xmit\<close>;
  \<open>vk_kzalloc\<close> the address of the next socket; \<open>vk_register\<close> the result of \<^verbatim>\<open>register_netdevice\<close>;
  \<open>vk_netdevs\<close> are the devices of the namespace, \<open>vk_port_ops\<close> tells which of them want to know of VXLAN
  ports, \<open>vk_add_offload\<close> is the result of \<^verbatim>\<open>udp_add_offload\<close>.\<close>

record lower_dev =
  ld_addr :: addr
  ld_mtu :: int
  ld_hard_header_len :: int
  ld_disable_ipv6 :: bool

record vx_kern =
  vk_hash :: "u64 \<Rightarrow> 8 word"
  vk_hash32 :: "u32 \<Rightarrow> nat \<Rightarrow> nat"
  vk_running :: "addr \<Rightarrow> bool"
  vk_may_pull :: "nat \<Rightarrow> u8 list \<Rightarrow> bool"
  vk_pull_header :: "u8 list \<Rightarrow> u8 list option"
  vk_remcsum :: "nat \<Rightarrow> nat \<Rightarrow> bool \<Rightarrow> u8 list \<Rightarrow> u8 list"
  vk_ecn_decap :: "bool \<Rightarrow> u8 list \<Rightarrow> u8 list \<Rightarrow> int \<times> u8 list"
  vk_up :: "u8 list \<Rightarrow> bool"
  vk_neigh4 :: "u32 \<Rightarrow> vx_neigh option"
  vk_neigh6 :: "u8 list \<Rightarrow> vx_neigh option"
  vk_in6_dev :: "addr \<Rightarrow> bool"
  vk_arp_reply :: "u32 \<Rightarrow> u32 \<Rightarrow> u8 list \<Rightarrow> u8 list \<Rightarrow> u8 list \<Rightarrow> u8 list option"
  vk_alloc :: bool
  vk_csum6 :: "u8 list \<Rightarrow> u8 list \<Rightarrow> u8 list \<Rightarrow> u16"
  vk_cow_head :: "int \<Rightarrow> bool"
  vk_push_vlan :: "vx_skb \<Rightarrow> vx_skb option"
  vk_offloads :: "bool \<Rightarrow> bool \<Rightarrow> vx_skb \<Rightarrow> int + vx_skb"
  vk_route :: "u32 \<Rightarrow> u8 \<Rightarrow> u32 \<Rightarrow> vxlan_addr \<Rightarrow> vxlan_addr \<Rightarrow> vx_route option"
  vk_src_port :: "vx_skb \<Rightarrow> u16 \<Rightarrow> u16 \<Rightarrow> u16"
  vk_dsfield :: "vx_skb \<Rightarrow> u8"
  vk_ecn_encap :: "u8 \<Rightarrow> vx_skb \<Rightarrow> u8"
  vk_udp_xmit :: "u8 list \<Rightarrow> int"
  vk_queue :: "u8 list \<Rightarrow> int"
  vk_clone :: bool
  vk_hz :: u64
  vk_lowerdev :: "u32 \<Rightarrow> lower_dev option"
  vk_eth_mtu_ok :: "int \<Rightarrow> bool"
  vk_mc_join :: "vxlan_addr \<Rightarrow> u32 \<Rightarrow> int"
  vk_mc_leave :: "vxlan_addr \<Rightarrow> u32 \<Rightarrow> int"
  vk_sock_create :: "bool \<Rightarrow> u16 \<Rightarrow> int"
  vk_kzalloc :: ptr
  vk_tstats :: bool
  vk_register :: int
  vk_netdevs :: "addr list"
  vk_port_ops :: "addr \<Rightarrow> bool"
  vk_add_offload :: int

record vxlan_sock =
  vs_port :: u16
  vs_ipv6 :: bool
  vs_flags :: u32
  vs_refcnt :: nat
  vs_vni_list :: "addr list list"

record vx_stats =
  tx_packets :: nat
  tx_bytes :: nat
  tx_dropped :: nat
  tx_errors :: nat
  tx_carrier_errors :: nat
  collisions :: nat
  rx_packets :: nat
  rx_bytes :: nat
  rx_dropped :: nat
  rx_errors :: nat
  rx_frame_errors :: nat

text \<open>What happens to packets: freed, handed to the madcap device, sent in a UDP datagram (route, source,
  destination, TOS, TTL, ports, without checksum or not, contents), or received by a device with a mark.\<close>

datatype vx_event =
    Freed
  | Queued addr "u8 list"
  | Sent vx_route vxlan_addr vxlan_addr u8 u8 u16 u16 bool "u8 list"
  | Received addr "u8 list" u32

text \<open>A NIC is told of a port: the NIC, whether the socket is IPv6, and the port.\<close>

datatype port_call = PortAdd addr bool u16 | PortDel addr bool u16

text \<open>A namespace: its VXLAN devices with their addresses, sizes, timers and counters, the socket each was
  opened on and the one in whose list it is linked, the sockets (\<open>None\<close> is freed memory), the hash
  table of sockets, the list of devices and those on their way out, the sockets with receive offload,
  what the NICs were told, and what happened so far.\<close>

record vx_world =
  vw_dev :: "addr \<Rightarrow> vxlan_dev"
  vw_noarp :: "addr \<Rightarrow> bool"
  vw_dev_addr :: "addr \<Rightarrow> u8 list"
  vw_stats :: "addr \<Rightarrow> vx_stats"
  vw_mtu :: "addr \<Rightarrow> int"
  vw_headroom :: "addr \<Rightarrow> int"
  vw_timer :: "addr \<Rightarrow> u64 option"
  vw_vn_sock :: "addr \<Rightarrow> ptr"
  vw_linked :: "addr \<Rightarrow> ptr"
  vw_sock :: "addr \<Rightarrow> vxlan_sock option"
  vw_sock_list :: "addr list list"
  vw_vxlan_list :: "addr list"
  vw_unregister :: "addr list"
  vw_offloads :: "addr list"
  vw_ports :: "port_call list"
  vw_log :: "vx_event list"

definition set_dev :: "addr \<Rightarrow> vxlan_dev \<Rightarrow> vx_world \<Rightarrow> vx_world" where
  "set_dev d v w = w\<lparr>vw_dev := (vw_dev w)(d := v)\<rparr>"

definition count_dev :: "(vx_stats \<Rightarrow> vx_stats) \<Rightarrow> addr \<Rightarrow> vx_world \<Rightarrow> vx_world" where
  "count_dev f d w = w\<lparr>vw_stats := (vw_stats w)(d := f (vw_stats w d))\<rparr>"

definition happens :: "vx_event \<Rightarrow> vx_world \<Rightarrow> vx_world" where
  "happens e w = w\<lparr>vw_log := vw_log w @ [e]\<rparr>"

text \<open>The other member of the address union: the fields of an IPv4 address are the port and the flow label
  of an IPv6 one, those of an IPv6 address lie in the zero padding of an IPv4 one.\<close>

definition sin_addr :: "vxlan_addr \<Rightarrow> u32" where
  "sin_addr a = (case a of IN4 x \<Rightarrow> x | IN6 _ \<Rightarrow> 0)"

definition sin6_addr :: "vxlan_addr \<Rightarrow> u8 list" where
  "sin6_addr a = (case a of IN4 _ \<Rightarrow> replicate 16 0 | IN6 bs \<Rightarrow> bs)"

definition is_ipv6 :: "vxlan_addr \<Rightarrow> bool" where
  "is_ipv6 a = (case a of IN4 _ \<Rightarrow> False | IN6 _ \<Rightarrow> True)"

section \<open>Sockets and identifiers\<close>

text \<open>Every socket in the table is live, or reading it is a fault.\<close>

fun find_sock_loop :: "vx_world \<Rightarrow> bool \<Rightarrow> u16 \<Rightarrow> u32 \<Rightarrow> addr list \<Rightarrow> ptr option" where
  "find_sock_loop w family6 port flags [] = Some None"
| "find_sock_loop w family6 port flags (a # rest) = do {
     vs \<leftarrow> vw_sock w a;
     if vs_port vs = port \<and> vs_ipv6 vs = family6 \<and> vs_flags vs = flags then Some (Some a)
     else find_sock_loop w family6 port flags rest }"

definition vxlan_find_sock :: "vx_kern \<Rightarrow> bool \<Rightarrow> u16 \<Rightarrow> u32 \<Rightarrow> vx_world \<Rightarrow> ptr option" where
  "vxlan_find_sock kn family6 port flags w =
     find_sock_loop w family6 port (flags AND VXLAN_F_RCV_FLAGS) (vw_sock_list w ! vk_hash32 kn (ucast (htons port)) 8)"

fun find_vni_loop :: "vx_world \<Rightarrow> u32 \<Rightarrow> addr list \<Rightarrow> ptr" where
  "find_vni_loop w vni [] = None"
| "find_vni_loop w vni (d # rest) =
     (if rd_vni (vx_default_dst (vw_dev w d)) = vni then Some d else find_vni_loop w vni rest)"

definition vxlan_vs_find_vni :: "vx_kern \<Rightarrow> vxlan_sock \<Rightarrow> u32 \<Rightarrow> vx_world \<Rightarrow> ptr" where
  "vxlan_vs_find_vni kn vs vni w = find_vni_loop w vni (vs_vni_list vs ! vk_hash32 kn vni 10)"

definition vxlan_find_vni :: "vx_kern \<Rightarrow> u32 \<Rightarrow> bool \<Rightarrow> u16 \<Rightarrow> u32 \<Rightarrow> vx_world \<Rightarrow> ptr option" where
  "vxlan_find_vni kn vni family6 port flags w = do {
     p \<leftarrow> vxlan_find_sock kn family6 port flags w;
     (case p of
        None \<Rightarrow> Some None
      | Some a \<Rightarrow> do { vs \<leftarrow> vw_sock w a; Some (vxlan_vs_find_vni kn vs vni w) }) }"

section \<open>The header\<close>

record vxlanhdr =
  vx_hflags :: u32
  vx_vni :: u32

definition enc_vxlanhdr :: "vxlanhdr \<Rightarrow> u8 list" where
  "enc_vxlanhdr h = le_bytes 4 (vx_hflags h) @ le_bytes 4 (vx_vni h)"

definition dec_vxlanhdr :: "u8 list \<Rightarrow> vxlanhdr" where
  "dec_vxlanhdr bs = \<lparr>vx_hflags = le_word (take 4 bs), vx_vni = le_word (take 4 (drop 4 bs))\<rparr>"

record vxlan_metadata =
  md_vni :: u32
  md_gbp :: u32

text \<open>\<^verbatim>\<open>dont_learn\<close> and \<^verbatim>\<open>policy_applied\<close> are bits 6 and 3 of the second byte, the policy is bytes three and four.\<close>

definition vxlan_build_gbp_hdr :: "vxlan_metadata \<Rightarrow> vxlanhdr \<Rightarrow> vxlanhdr" where
  "vxlan_build_gbp_hdr md h =
     (if md_gbp md = 0 then h
      else
        let f = vx_hflags h OR htonl VXLAN_HF_GBP;
            f = (if md_gbp md AND VXLAN_GBP_DONT_LEARN \<noteq> 0 then f OR 0x4000 else f);
            f = (if md_gbp md AND VXLAN_GBP_POLICY_APPLIED \<noteq> 0 then f OR 0x0800 else f) in
        h\<lparr>vx_hflags := f AND 0xFFFF OR push_bit 16 (ucast (htons (ucast (md_gbp md))))\<rparr>)"

section \<open>Reception\<close>

text \<open>The inner checksum is completed from its start and offset; the frame follows the header.\<close>

definition vxlan_remcsum :: "vx_kern \<Rightarrow> u8 list \<Rightarrow> u32 \<Rightarrow> bool \<Rightarrow> u8 list option" where
  "vxlan_remcsum kn frame val nopartial =
     (let start = unat (push_bit 1 (val AND VXLAN_RCO_MASK));
          offset = start + (if val AND VXLAN_RCO_UDP \<noteq> 0 then 6 else 16);
          plen = 8 + offset + 2 in
      if \<not> vk_may_pull kn plen frame then None else Some (vk_remcsum kn start offset nopartial frame))"

datatype vx_rcv = RcvNotVxlan | RcvDropped | RcvDeliver vxlan_metadata "u8 list"

definition read_gbp :: "vxlanhdr \<Rightarrow> u32" where
  "read_gbp h =
     (let g = ucast (htons (ucast (drop_bit 16 (vx_hflags h))));
          g = (if vx_hflags h AND 0x4000 \<noteq> 0 then g OR VXLAN_GBP_DONT_LEARN else g) in
      if vx_hflags h AND 0x0800 \<noteq> 0 then g OR VXLAN_GBP_POLICY_APPLIED else g)"

text \<open>\<open>dgram\<close> is the datagram from the UDP header on; the socket's user data may already be gone.\<close>

definition vxlan_udp_encap_recv :: "vx_kern \<Rightarrow> vxlan_sock option \<Rightarrow> u8 list \<Rightarrow> vx_rcv" where
  "vxlan_udp_encap_recv kn sk dgram =
     (if \<not> vk_may_pull kn 16 dgram then RcvNotVxlan
      else
        let h = dec_vxlanhdr (drop 8 dgram); flags = ntohl (vx_hflags h); vni = ntohl (vx_vni h) in
        if flags AND VXLAN_HF_VNI = 0 then RcvNotVxlan
        else
          let flags = flags AND NOT VXLAN_HF_VNI in
          case vk_pull_header kn (drop 16 dgram) of
            None \<Rightarrow> RcvDropped
          | Some frame \<Rightarrow>
          (case sk of
             None \<Rightarrow> RcvDropped
           | Some vs \<Rightarrow>
          let rco = (flags AND VXLAN_HF_RCO \<noteq> 0 \<and> vs_flags vs AND VXLAN_F_REMCSUM_RX \<noteq> 0) in
          (case (if rco then vxlan_remcsum kn frame vni (vs_flags vs AND VXLAN_F_REMCSUM_NOPARTIAL \<noteq> 0) else Some frame) of
             None \<Rightarrow> RcvDropped
           | Some frame \<Rightarrow>
          let flags = (if rco then flags AND NOT VXLAN_HF_RCO else flags);
              vni = (if rco then vni AND VXLAN_VNI_MASK else vni);
              gbp = (flags AND VXLAN_HF_GBP \<noteq> 0 \<and> vs_flags vs AND VXLAN_F_GBP \<noteq> 0);
              md = \<lparr>md_vni = vx_vni h, md_gbp = (if gbp then read_gbp h else 0)\<rparr>;
              flags = (if gbp then flags AND NOT VXLAN_GBP_USED_BITS else flags) in
          if flags \<noteq> 0 \<or> vni AND NOT VXLAN_VNI_MASK \<noteq> 0 then RcvNotVxlan else RcvDeliver md frame)))"

definition src_mac :: "u8 list \<Rightarrow> u8 list" where "src_mac frame = take 6 (drop 6 frame)"
definition dst_mac :: "u8 list \<Rightarrow> u8 list" where "dst_mac frame = take 6 frame"

definition snoop_dev :: "vx_kern \<Rightarrow> u64 \<Rightarrow> addr \<Rightarrow> vxlan_addr \<Rightarrow> u8 list \<Rightarrow> vx_world \<Rightarrow> (bool \<times> vx_world) option" where
  "snoop_dev kn jiffies d ip mac w = do {
     (bad, v) \<leftarrow> vxlan_snoop (vk_hash kn) jiffies (vk_running kn d) ip mac (vw_dev w d);
     Some (bad, set_dev d v w) }"

text \<open>\<open>oip\<close> is the outer IP header. The loop check, learning, ECN, and delivery behind the Ethernet header.\<close>

definition vxlan_rcv ::
  "vx_kern \<Rightarrow> u64 \<Rightarrow> vxlan_sock \<Rightarrow> u8 list \<Rightarrow> vxlan_metadata \<Rightarrow> u8 list \<Rightarrow> vx_world \<Rightarrow> vx_world option" where
  "vxlan_rcv kn jiffies vs oip md frame w =
     (case vxlan_vs_find_vni kn vs (drop_bit 8 (ntohl (md_vni md))) w of
        None \<Rightarrow> Some (happens Freed w)
      | Some d \<Rightarrow>
          if src_mac frame = vw_dev_addr w d then Some (happens Freed w)
          else
            let v6 = is_ipv6 (rd_ip (vx_default_dst (vw_dev w d)));
                saddr = (if v6 then IN6 (take 16 (drop 8 oip)) else IN4 (le_word (take 4 (drop 12 oip)))) in
            do {
              (bad, w) \<leftarrow> (if vx_flags (vw_dev w d) AND VXLAN_F_LEARN \<noteq> 0 then snoop_dev kn jiffies d saddr (src_mac frame) w
                          else Some (False, w));
              if bad then Some (happens Freed w)
              else
                let (err, frame) = vk_ecn_decap kn v6 oip frame in
                if err > 1 then
                  Some (happens Freed (count_dev (\<lambda>s. s\<lparr>rx_frame_errors := rx_frame_errors s + 1, rx_errors := rx_errors s + 1\<rparr>) d w))
                else
                  Some (happens (Received d frame (md_gbp md))
                    (count_dev (\<lambda>s. s\<lparr>rx_packets := rx_packets s + 1, rx_bytes := rx_bytes s + (length frame - 14)\<rparr>) d w)) })"

end
