(* ===== verification/Vxlan_Neigh.thy ===== *)
theory Vxlan_Neigh
  imports Vxlan_Net
begin

text \<open>
  \<^verbatim>\<open>protocol-drivers-4.2.0/vxlan/vxlan.c\<close>, the neighbour proxy: a VXLAN device answers address
  resolution requests (ARP and IPv6 neighbour solicitations) itself from the host's neighbour table,
  and rewrites the Ethernet header of packets for a router (short circuit).
\<close>

definition vxlan_ip_miss :: "vxlan_addr \<Rightarrow> vxlan_dev \<Rightarrow> vxlan_dev" where
  "vxlan_ip_miss ip v = vxlan_fdb_notify RTM_GETNEIGH
     \<lparr>f_updated = 0, f_used = 0, f_remotes = [], f_state = NUD_STALE, f_flags = 0, f_eth_addr = replicate 6 0\<rparr>
     \<lparr>rd_ip = ip, rd_port = 0, rd_vni = VXLAN_N_VID, rd_ifindex = 0\<rparr> v"

abbreviation (input) NUD_CONNECTED :: u8 where "NUD_CONNECTED \<equiv> 0xC2"

definition eth_proto :: "u8 list \<Rightarrow> u16" where
  "eth_proto frame = le_word (take 2 (drop 12 frame))"

definition find_mac_dev :: "vx_kern \<Rightarrow> u64 \<Rightarrow> addr \<Rightarrow> u8 list \<Rightarrow> vx_world \<Rightarrow> vxlan_fdb option \<times> vx_world" where
  "find_mac_dev kn jiffies d mac w =
     (case vxlan_find_mac (vk_hash kn) jiffies (vw_dev w d) mac of (f, v) \<Rightarrow> (f, set_dev d v w))"

text \<open>\<^verbatim>\<open>f && vxlan_addr_any (&first_remote_rcu (f)->remote_ip)\<close>\<close>

definition bridge_local :: "vxlan_fdb option \<Rightarrow> bool option" where
  "bridge_local f = (case f of None \<Rightarrow> Some False | Some f \<Rightarrow> do { rd \<leftarrow> first_remote f; Some (vxlan_addr_any (rd_ip rd)) })"

text \<open>\<^verbatim>\<open>if (netif_rx_ni (reply) == NET_RX_DROP) dev->stats.rx_dropped++;\<close>\<close>

definition rx_ni :: "vx_kern \<Rightarrow> addr \<Rightarrow> u8 list \<Rightarrow> vx_world \<Rightarrow> vx_world" where
  "rx_ni kn d reply w =
     (if vk_up kn reply then happens (Received d reply 0) w
      else count_dev (\<lambda>s. s\<lparr>rx_dropped := rx_dropped s + 1\<rparr>) d (happens Freed w))"

definition miss_dev :: "vxlan_addr \<Rightarrow> addr \<Rightarrow> vx_world \<Rightarrow> vx_world" where
  "miss_dev ip d w = set_dev d (vxlan_ip_miss ip (vw_dev w d)) w"

section \<open>ARP\<close>

text \<open>The fixed part of an ARP message asks for an IPv4 address over Ethernet.\<close>

definition arp_request_ok :: "u8 list \<Rightarrow> bool" where
  "arp_request_ok h \<longleftrightarrow>
     (le_word (take 2 h) = htons 1 \<or> le_word (take 2 h) = htons 6) \<and> le_word (take 2 (drop 2 h)) = htons 0x0800 \<and>
     le_word (take 2 (drop 6 h)) = htons 1 \<and> h ! 4 = 6 \<and> h ! 5 = 4"

definition ipv4_is_loopback :: "u32 \<Rightarrow> bool" where
  "ipv4_is_loopback a \<longleftrightarrow> a AND htonl 0xFF000000 = htonl 0x7F000000"

definition ipv4_multicast :: "u32 \<Rightarrow> bool" where
  "ipv4_multicast a \<longleftrightarrow> a AND htonl 0xF0000000 = htonl 0xE0000000"

text \<open>\<^verbatim>\<open>pskb_may_pull\<close> counts from the Ethernet header, where the packet starts, and not from the ARP message.\<close>

definition arp_reduce :: "vx_kern \<Rightarrow> u64 \<Rightarrow> addr \<Rightarrow> vx_skb \<Rightarrow> vx_world \<Rightarrow> vx_world option" where
  "arp_reduce kn jiffies d skb w =
     (if vw_noarp w d then Some (happens Freed w)
      else if \<not> vk_may_pull kn 28 (vs_data skb) then
        Some (happens Freed (count_dev (\<lambda>s. s\<lparr>tx_dropped := tx_dropped s + 1\<rparr>) d w))
      else do {
        h \<leftarrow> read_bytes (vs_data skb) (vs_net skb) 8;
        if \<not> arp_request_ok h then Some (happens Freed w)
        else do {
          sip \<leftarrow> read_bytes (vs_data skb) (vs_net skb + 14) 4;
          tip \<leftarrow> read_bytes (vs_data skb) (vs_net skb + 24) 4;
          if ipv4_is_loopback (le_word tip) \<or> ipv4_multicast (le_word tip) then Some (happens Freed w)
          else (case vk_neigh4 kn (le_word tip) of
              None \<Rightarrow> Some (happens Freed
                (if vx_flags (vw_dev w d) AND VXLAN_F_L3MISS \<noteq> 0 then miss_dev (IN4 (le_word tip)) d w else w))
            | Some n \<Rightarrow>
                if ng_state n AND NUD_CONNECTED = 0 then Some (happens Freed w)
                else
                  let (f, w) = find_mac_dev kn jiffies d (ng_ha n) w in
                  do {
                    local \<leftarrow> bridge_local f;
                    if local then Some (happens Freed w)
                    else do {
                      sha \<leftarrow> read_bytes (vs_data skb) (vs_net skb + 8) 6;
                      (case vk_arp_reply kn (le_word sip) (le_word tip) sha (ng_ha n) sha of
                         None \<Rightarrow> Some (happens Freed w)
                       | Some reply \<Rightarrow> Some (happens Freed (rx_ni kn d reply w))) } }) } })"

section \<open>Neighbour solicitations\<close>

text \<open>The walk over the options of a solicitation, for a source link-layer address: where that option is.
  The walk advances by the length the option gives in units of eight bytes, and does not end when that
  is zero.\<close>

partial_function (option) na_options :: "u8 list \<Rightarrow> nat \<Rightarrow> nat option option" where
  "na_options opts i =
     (if Suc i < length opts then
        (if opts ! i = 1 then Some (Some i) else na_options opts (i + 8 * unat (opts ! Suc i)))
      else Some None)"

text \<open>The advertisement: a \<^verbatim>\<open>nd_msg\<close> of 24 bytes (the flags are router, solicited and override) and the target's
  link-layer address, behind an IPv6 header.\<close>

definition na_message :: "bool \<Rightarrow> u8 list \<Rightarrow> u16 \<Rightarrow> u8 list \<Rightarrow> u8 list" where
  "na_message isrouter target csum ha =
     [136, 0] @ le_bytes 2 csum @ [if isrouter then 0xE0 else 0x60, 0, 0, 0] @ target @ [2, 1] @ ha"

definition vxlan_na_create :: "vx_kern \<Rightarrow> vx_skb \<Rightarrow> vx_neigh \<Rightarrow> bool \<Rightarrow> u8 list option option" where
  "vxlan_na_create kn request n isrouter =
     (if \<not> vk_alloc kn then Some None
      else
        let pkt = vs_data request; opts = drop (vs_trans request + 24) pkt in
        do {
          at \<leftarrow> na_options opts 0;
          daddr \<leftarrow> (case at of None \<Rightarrow> Some (src_mac pkt) | Some i \<Rightarrow> read_bytes opts (i + 2) 6);
          b0 \<leftarrow> read_bytes pkt (vs_net request) 1;
          saddr \<leftarrow> read_bytes pkt (vs_net request + 8) 16;
          target \<leftarrow> read_bytes pkt (vs_trans request + 8) 16;
          let csum = vk_csum6 kn (ng_key6 n) saddr (na_message isrouter target 0 (ng_ha n));
          let ip6 = [0x60 OR (hd b0 AND 0x0F), 0, 0, 0] @ le_bytes 2 (htons 32) @ [58, 255] @ ng_key6 n @ saddr;
          let eth = daddr @ ng_ha n @ le_bytes 2 (htons 0x86DD);
          Some (Some (eth @ ip6 @ na_message isrouter target csum (ng_ha n))) })"

definition ipv6_addr_loopback :: "u8 list \<Rightarrow> bool" where
  "ipv6_addr_loopback a \<longleftrightarrow> a = replicate 15 0 @ [1]"

definition neigh_reduce :: "vx_kern \<Rightarrow> u64 \<Rightarrow> addr \<Rightarrow> vx_skb \<Rightarrow> vx_world \<Rightarrow> vx_world option" where
  "neigh_reduce kn jiffies d skb w =
     (if \<not> vk_in6_dev kn d then Some (happens Freed w)
      else do {
        daddr \<leftarrow> read_bytes (vs_data skb) (vs_net skb + 24) 16;
        icmp \<leftarrow> read_bytes (vs_data skb) (vs_trans skb) 2;
        if icmp ! 1 \<noteq> 0 \<or> icmp ! 0 \<noteq> 135 then Some (happens Freed w)
        else do {
          target \<leftarrow> read_bytes (vs_data skb) (vs_trans skb + 8) 16;
          if ipv6_addr_loopback daddr \<or> target ! 0 = 0xFF then Some (happens Freed w)
          else (case vk_neigh6 kn target of
              None \<Rightarrow> Some (happens Freed
                (if vx_flags (vw_dev w d) AND VXLAN_F_L3MISS \<noteq> 0 then miss_dev (IN6 target) d w else w))
            | Some n \<Rightarrow>
                if ng_state n AND NUD_CONNECTED = 0 then Some (happens Freed w)
                else
                  let (f, w) = find_mac_dev kn jiffies d (ng_ha n) w in
                  do {
                    local \<leftarrow> bridge_local f;
                    if local then Some (happens Freed w)
                    else do {
                      reply \<leftarrow> vxlan_na_create kn skb n (case f of Some f \<Rightarrow> f_flags f AND NTF_ROUTER \<noteq> 0 | None \<Rightarrow> False);
                      Some (happens Freed (case reply of None \<Rightarrow> w | Some reply \<Rightarrow> rx_ni kn d reply w)) } }) } })"

section \<open>Short circuit\<close>

text \<open>The neighbour a packet's IP destination has, or \<open>Inl\<close> the state when the lookup already decides.\<close>

definition shortcircuit_neigh :: "vx_kern \<Rightarrow> addr \<Rightarrow> vx_skb \<Rightarrow> vx_world \<Rightarrow> (vx_world + vx_neigh option) option" where
  "shortcircuit_neigh kn d skb w =
     (let pkt = vs_data skb; miss = vx_flags (vw_dev w d) AND VXLAN_F_L3MISS \<noteq> 0 in
      if eth_proto pkt = htons 0x0800 then
        if \<not> vk_may_pull kn 20 pkt then Some (Inl w)
        else do {
          dip \<leftarrow> read_bytes pkt (vs_net skb + 16) 4;
          (case vk_neigh4 kn (le_word dip) of
             None \<Rightarrow> Some (if miss then Inl (miss_dev (IN4 (le_word dip)) d w) else Inr None)
           | Some n \<Rightarrow> Some (Inr (Some n))) }
      else if eth_proto pkt = htons 0x86DD then
        if \<not> vk_may_pull kn 40 pkt then Some (Inl w)
        else do {
          dip \<leftarrow> read_bytes pkt (vs_net skb + 24) 16;
          (case vk_neigh6 kn dip of
             None \<Rightarrow> Some (if miss then Inl (miss_dev (IN6 dip) d w) else Inr None)
           | Some n \<Rightarrow> Some (Inr (Some n))) }
      else Some (Inl w))"

definition route_shortcircuit :: "vx_kern \<Rightarrow> addr \<Rightarrow> vx_skb \<Rightarrow> vx_world \<Rightarrow> (bool \<times> vx_skb \<times> vx_world) option" where
  "route_shortcircuit kn d skb w =
     (if is_multicast_ether_addr (dst_mac (vs_data skb)) then Some (False, skb, w)
      else do {
        r \<leftarrow> shortcircuit_neigh kn d skb w;
        (case r of
           Inl w \<Rightarrow> Some (False, skb, w)
         | Inr None \<Rightarrow> Some (False, skb, w)
         | Inr (Some n) \<Rightarrow>
             if dst_mac (vs_data skb) = ng_ha n then Some (False, skb, w)
             else Some (True, skb\<lparr>vs_data := ng_ha n @ dst_mac (vs_data skb) @ drop 12 (vs_data skb)\<rparr>, w)) })"

end
