(* ===== verification/Vxlan_Xmit.thy ===== *)
theory Vxlan_Xmit
  imports Vxlan_Neigh
begin

text \<open>
  \<^verbatim>\<open>protocol-drivers-4.2.0/vxlan/vxlan.c\<close>, transmission: through the madcap device, or to the remotes
  of the destination's entry, encapsulated in UDP or handed to a local VXLAN device directly.
\<close>

section \<open>Encapsulation\<close>

definition remcsum_tx :: "u32 \<Rightarrow> vx_skb \<Rightarrow> bool" where
  "remcsum_tx vxflags skb \<longleftrightarrow> vxflags AND VXLAN_F_REMCSUM_TX \<noteq> 0 \<and> vs_partial skb \<and>
     vs_csum_start skb \<le> 0xFE \<and> even (vs_csum_start skb) \<and> (vs_csum_offset skb = 6 \<or> vs_csum_offset skb = 16)"

definition make_vxlanhdr :: "u32 \<Rightarrow> vxlan_metadata \<Rightarrow> bool \<Rightarrow> vx_skb \<Rightarrow> vxlanhdr" where
  "make_vxlanhdr vxflags md remcsum skb =
     (let h = \<lparr>vx_hflags = htonl VXLAN_HF_VNI, vx_vni = md_vni md\<rparr>;
          val = drop_bit 1 (word_of_nat (vs_csum_start skb)) OR (if vs_csum_offset skb = 6 then VXLAN_RCO_UDP else 0);
          h = (if remcsum then h\<lparr>vx_vni := vx_vni h OR htonl val, vx_hflags := vx_hflags h OR htonl VXLAN_HF_RCO\<rparr> else h) in
      if vxflags AND VXLAN_F_GBP \<noteq> 0 then vxlan_build_gbp_hdr md h else h)"

text \<open>What both address families do to a packet; \<open>headroom\<close>, \<open>udp_sum\<close> and the error reported for a failed
  offload (\<open>off_err\<close>) differ. \<^verbatim>\<open>skb_cow_head\<close> fails with \<^verbatim>\<open>-ENOMEM\<close>. On an error the packet is freed.\<close>

definition encapsulate :: "vx_kern \<Rightarrow> int \<Rightarrow> bool \<Rightarrow> (int \<Rightarrow> int) \<Rightarrow> u32 \<Rightarrow> vxlan_metadata \<Rightarrow> vx_skb \<Rightarrow> int + u8 list" where
  "encapsulate kn headroom udp_sum off_err vxflags md skb =
     (let remcsum = remcsum_tx vxflags skb in
      if \<not> vk_cow_head kn (headroom + (if vs_vlan skb then 4 else 0)) then Inl (- ENOMEM)
      else (case vk_push_vlan kn skb of
              None \<Rightarrow> Inl (- ENOMEM)
            | Some skb \<Rightarrow>
                (case vk_offloads kn udp_sum remcsum skb of
                   Inl e \<Rightarrow> Inl (off_err e)
                 | Inr skb \<Rightarrow> Inr (enc_vxlanhdr (make_vxlanhdr vxflags md remcsum skb) @ vs_data skb))))"

definition vxlan_xmit_skb ::
  "vx_kern \<Rightarrow> vx_route \<Rightarrow> vx_skb \<Rightarrow> u32 \<Rightarrow> u32 \<Rightarrow> u8 \<Rightarrow> u8 \<Rightarrow> u16 \<Rightarrow> u16 \<Rightarrow> vxlan_metadata \<Rightarrow> u32 \<Rightarrow> vx_world \<Rightarrow> int \<times> vx_world" where
  "vxlan_xmit_skb kn rt skb src dst tos ttl sport dport md vxflags w =
     (case encapsulate kn (rt_reserved rt + 16 + 20) (vxflags AND VXLAN_F_UDP_CSUM \<noteq> 0) (\<lambda>e. e) vxflags md skb of
        Inl e \<Rightarrow> (e, happens Freed w)
      | Inr bs \<Rightarrow> (vk_udp_xmit kn bs,
          happens (Sent rt (IN4 src) (IN4 dst) tos ttl sport dport (vxflags AND VXLAN_F_UDP_CSUM = 0) bs) w))"

definition vxlan6_xmit_skb ::
  "vx_kern \<Rightarrow> vx_route \<Rightarrow> vx_skb \<Rightarrow> u8 list \<Rightarrow> u8 list \<Rightarrow> u8 \<Rightarrow> u8 \<Rightarrow> u16 \<Rightarrow> u16 \<Rightarrow> vxlan_metadata \<Rightarrow> u32 \<Rightarrow> vx_world \<Rightarrow> int \<times> vx_world" where
  "vxlan6_xmit_skb kn rt skb saddr daddr prio ttl sport dport md vxflags w =
     (let zero = (vxflags AND VXLAN_F_UDP_ZERO_CSUM6_TX \<noteq> 0) in
      case encapsulate kn (rt_reserved rt + 16 + 40) (\<not> zero) (\<lambda>e. - EINVAL) vxflags md skb of
        Inl e \<Rightarrow> (e, happens Freed w)
      | Inr bs \<Rightarrow> (0, happens (Sent rt (IN6 saddr) (IN6 daddr) prio ttl sport dport zero bs) w))"

text \<open>The madcap device adds the outer headers.\<close>

definition vxlan_xmit_madcap :: "vx_kern \<Rightarrow> vx_skb \<Rightarrow> addr \<Rightarrow> addr \<Rightarrow> vx_world \<Rightarrow> int \<times> vx_world" where
  "vxlan_xmit_madcap kn skb d mcdev w =
     (if \<not> vk_cow_head kn (50 + 14) then (- ENOMEM, happens Freed w)
      else (case vk_push_vlan kn skb of
              None \<Rightarrow> (- ENOMEM, happens Freed w)
            | Some skb \<Rightarrow>
                let bs = enc_vxlanhdr \<lparr>vx_hflags = htonl VXLAN_HF_VNI, vx_vni = rd_vni (vx_default_dst (vw_dev w d))\<rparr> @ vs_data skb in
                (vk_queue kn bs, happens (Queued mcdev bs) w)))"

section \<open>Sending to one remote\<close>

definition vxlan_encap_bypass :: "vx_kern \<Rightarrow> u64 \<Rightarrow> vx_skb \<Rightarrow> addr \<Rightarrow> addr \<Rightarrow> vx_world \<Rightarrow> vx_world option" where
  "vxlan_encap_bypass kn jiffies skb src dst w =
     (let len = length (vs_data skb);
          loopback = (if is_ipv6 (rd_ip (vx_default_dst (vw_dev w dst))) then IN6 (replicate 15 0 @ [1]) else IN4 (htonl 0x7F000001)) in
      do {
        (bad, w) \<leftarrow> (if vx_flags (vw_dev w dst) AND VXLAN_F_LEARN \<noteq> 0 then snoop_dev kn jiffies dst loopback (src_mac (vs_data skb)) w
                    else Some (False, w));
        let w = count_dev (\<lambda>s. s\<lparr>tx_packets := tx_packets s + 1, tx_bytes := tx_bytes s + len\<rparr>) src w;
        Some (if vk_up kn (vs_data skb) then
                count_dev (\<lambda>s. s\<lparr>rx_packets := rx_packets s + 1, rx_bytes := rx_bytes s + len\<rparr>) dst (happens (Received dst (vs_data skb) (vs_mark skb)) w)
              else count_dev (\<lambda>s. s\<lparr>rx_dropped := rx_dropped s + 1\<rparr>) src (happens Freed w)) })"

text \<open>\<^verbatim>\<open>iptunnel_xmit_stats\<close> of a result that is not an error\<close>

definition xmit_stats :: "int \<Rightarrow> vx_stats \<Rightarrow> vx_stats" where
  "xmit_stats err s =
     (if err > 0 then s\<lparr>tx_packets := tx_packets s + 1, tx_bytes := tx_bytes s + nat err\<rparr> else s\<lparr>tx_dropped := tx_dropped s + 1\<rparr>)"

definition tx_error :: "addr \<Rightarrow> vx_world \<Rightarrow> vx_world" where
  "tx_error = count_dev (\<lambda>s. s\<lparr>tx_errors := tx_errors s + 1\<rparr>)"

text \<open>The packet goes to a VXLAN device of this host that has the identifier, if there is one.\<close>

definition xmit_local :: "vx_kern \<Rightarrow> u64 \<Rightarrow> vx_skb \<Rightarrow> addr \<Rightarrow> vxlan_rdst \<Rightarrow> u16 \<Rightarrow> vx_world \<Rightarrow> vx_world option" where
  "xmit_local kn jiffies skb d rdst dport w = do {
     dst_vxlan \<leftarrow> vxlan_find_vni kn (rd_vni rdst) (is_ipv6 (rd_ip rdst)) dport (vx_flags (vw_dev w d)) w;
     (case dst_vxlan of
        None \<Rightarrow> Some (happens Freed (tx_error d w))
      | Some e \<Rightarrow> vxlan_encap_bypass kn jiffies skb d e w) }"

definition xmit_one_v4 :: "vx_kern \<Rightarrow> u64 \<Rightarrow> vx_skb \<Rightarrow> addr \<Rightarrow> vxlan_rdst \<Rightarrow> u8 \<Rightarrow> u8 \<Rightarrow> u16 \<Rightarrow> u16 \<Rightarrow> vx_world \<Rightarrow> vx_world option" where
  "xmit_one_v4 kn jiffies skb d rdst tos ttl sport dport w =
     (let v = vw_dev w d; daddr = sin_addr (rd_ip rdst) in
      case vk_route kn (rd_ifindex rdst) (tos AND 0x1E) (vs_mark skb) (IN4 daddr) (IN4 (sin_addr (vx_saddr v))) of
        None \<Rightarrow> Some (happens Freed (tx_error d (count_dev (\<lambda>s. s\<lparr>tx_carrier_errors := tx_carrier_errors s + 1\<rparr>) d w)))
      | Some rt \<Rightarrow>
          if rt_dev rt = d then Some (happens Freed (tx_error d (count_dev (\<lambda>s. s\<lparr>collisions := collisions s + 1\<rparr>) d w)))
          else if rt_local rt \<and> \<not> rt_group rt then xmit_local kn jiffies skb d rdst dport w
          else
            let tos = vk_ecn_encap kn tos skb;
                ttl = (if ttl = 0 then rt_hoplimit rt else ttl);
                md = \<lparr>md_vni = htonl (push_bit 8 (rd_vni rdst)), md_gbp = vs_mark skb\<rparr>;
                (err, w) = vxlan_xmit_skb kn rt skb (sin_addr (rt_src rt)) daddr tos ttl sport dport md (vx_flags v) w in
            Some (if err < 0 then tx_error d w else count_dev (xmit_stats err) d w))"

definition xmit_one_v6 :: "vx_kern \<Rightarrow> u64 \<Rightarrow> vx_skb \<Rightarrow> addr \<Rightarrow> vxlan_rdst \<Rightarrow> u8 \<Rightarrow> u16 \<Rightarrow> u16 \<Rightarrow> vx_world \<Rightarrow> vx_world option" where
  "xmit_one_v6 kn jiffies skb d rdst ttl sport dport w =
     (let v = vw_dev w d; daddr = sin6_addr (rd_ip rdst) in
      case vk_route kn (rd_ifindex rdst) 0 (vs_mark skb) (IN6 daddr) (IN6 (sin6_addr (vx_saddr v))) of
        None \<Rightarrow> Some (happens Freed (tx_error d (count_dev (\<lambda>s. s\<lparr>tx_carrier_errors := tx_carrier_errors s + 1\<rparr>) d w)))
      | Some rt \<Rightarrow>
          if rt_dev rt = d then Some (happens Freed (tx_error d (count_dev (\<lambda>s. s\<lparr>collisions := collisions s + 1\<rparr>) d w)))
          else if rt_local rt \<and> \<not> rt_group rt then xmit_local kn jiffies skb d rdst dport w
          else
            let ttl = (if ttl = 0 then rt_hoplimit rt else ttl);
                md = \<lparr>md_vni = htonl (push_bit 8 (rd_vni rdst)), md_gbp = vs_mark skb\<rparr> in
            Some (snd (vxlan6_xmit_skb kn rt skb (sin6_addr (rt_src rt)) daddr 0 ttl sport dport md (vx_flags v) w)))"

text \<open>The device's socket, from which the datagrams are sent, is read first.\<close>

definition vxlan_xmit_one :: "vx_kern \<Rightarrow> u64 \<Rightarrow> vx_skb \<Rightarrow> addr \<Rightarrow> vxlan_rdst \<Rightarrow> bool \<Rightarrow> vx_world \<Rightarrow> vx_world option" where
  "vxlan_xmit_one kn jiffies skb d rdst did_rsc w = do {
     a \<leftarrow> vw_vn_sock w d;
     sock \<leftarrow> vw_sock w a;
     (let v = vw_dev w d; dst = rd_ip rdst;
          dport = (if rd_port rdst \<noteq> 0 then rd_port rdst else vx_dst_port v) in
      if vxlan_addr_any dst then
        (if did_rsc then vxlan_encap_bypass kn jiffies skb d d w
         else Some (happens Freed (count_dev (\<lambda>s. s\<lparr>tx_dropped := tx_dropped s + 1\<rparr>) d w)))
      else
        let ttl = (if vx_ttl v = 0 \<and> vxlan_addr_multicast dst then 1 else vx_ttl v);
            tos = (if vx_tos v = 1 then vk_dsfield kn skb else vx_tos v);
            sport = vk_src_port kn skb (vx_port_min v) (vx_port_max v) in
        if is_ipv6 dst then xmit_one_v6 kn jiffies skb d rdst ttl sport dport w
        else xmit_one_v4 kn jiffies skb d rdst tos ttl sport dport w) }"

section \<open>Sending a frame\<close>

text \<open>Whether the frame is a request the proxy answers, and its answer.\<close>

definition vxlan_proxy :: "vx_kern \<Rightarrow> u64 \<Rightarrow> addr \<Rightarrow> vx_skb \<Rightarrow> vx_world \<Rightarrow> vx_world option option" where
  "vxlan_proxy kn jiffies d skb w =
     (let pkt = vs_data skb in
      if vx_flags (vw_dev w d) AND VXLAN_F_PROXY = 0 then Some None
      else if eth_proto pkt = htons 0x0806 then do { w \<leftarrow> arp_reduce kn jiffies d skb w; Some (Some w) }
      else if eth_proto pkt = htons 0x86DD \<and> vk_may_pull kn 64 pkt then do {
        next \<leftarrow> read_bytes pkt (vs_net skb + 6) 1;
        if next = [58] then do {
          icmp \<leftarrow> read_bytes pkt (vs_trans skb) 2;
          if icmp = [135, 0] then do { w \<leftarrow> neigh_reduce kn jiffies d skb w; Some (Some w) } else Some None }
        else Some None }
      else Some None)"

fun xmit_clones :: "vx_kern \<Rightarrow> u64 \<Rightarrow> vx_skb \<Rightarrow> addr \<Rightarrow> bool \<Rightarrow> vxlan_rdst list \<Rightarrow> vx_world \<Rightarrow> vx_world option" where
  "xmit_clones kn jiffies skb d did_rsc [] w = Some w"
| "xmit_clones kn jiffies skb d did_rsc (rd # rest) w =
     (if vk_clone kn then do { w \<leftarrow> vxlan_xmit_one kn jiffies skb d rd did_rsc w; xmit_clones kn jiffies skb d did_rsc rest w }
      else xmit_clones kn jiffies skb d did_rsc rest w)"

text \<open>The first remote gets the packet itself, after the others got their copies; it is read again then, since
  a copy that came back to this device may have taught it.\<close>

definition xmit_remotes :: "vx_kern \<Rightarrow> u64 \<Rightarrow> vx_skb \<Rightarrow> addr \<Rightarrow> bool \<Rightarrow> vxlan_fdb \<Rightarrow> vx_world \<Rightarrow> vx_world option" where
  "xmit_remotes kn jiffies skb d did_rsc f w =
     (case f_remotes f of
        [] \<Rightarrow> Some (happens Freed w)
      | _ # rest \<Rightarrow> do {
          w \<leftarrow> xmit_clones kn jiffies skb d did_rsc rest w;
          f \<leftarrow> find_mac (vk_hash kn) (vw_dev w d) (f_eth_addr f);
          fdst \<leftarrow> first_remote f;
          vxlan_xmit_one kn jiffies skb d fdst did_rsc w })"

text \<open>The entry for the destination, or the default one, after the short circuit.\<close>

definition xmit_lookup :: "vx_kern \<Rightarrow> u64 \<Rightarrow> addr \<Rightarrow> vx_skb \<Rightarrow> vx_world \<Rightarrow> (bool \<times> vx_skb \<times> vxlan_fdb option \<times> vx_world) option" where
  "xmit_lookup kn jiffies d skb w =
     (let (f, w) = find_mac_dev kn jiffies d (dst_mac (vs_data skb)) w;
          ip = (eth_proto (vs_data skb) = htons 0x0800 \<or> eth_proto (vs_data skb) = htons 0x86DD);
          short = (case f of None \<Rightarrow> False | Some f \<Rightarrow> f_flags f AND NTF_ROUTER \<noteq> 0 \<and> vx_flags (vw_dev w d) AND VXLAN_F_RSC \<noteq> 0 \<and> ip) in
      do {
        (did_rsc, skb, w) \<leftarrow> (if short then route_shortcircuit kn d skb w else Some (False, skb, w));
        let (f, w) = (if did_rsc then find_mac_dev kn jiffies d (dst_mac (vs_data skb)) w else (f, w));
        let (f, w) = (case f of None \<Rightarrow> find_mac_dev kn jiffies d all_zeros_mac w | Some f \<Rightarrow> (Some f, w));
        Some (did_rsc, skb, f, w) })"

definition vxlan_xmit :: "vx_kern \<Rightarrow> bool \<Rightarrow> u64 \<Rightarrow> vx_skb \<Rightarrow> addr \<Rightarrow> vx_world \<Rightarrow> (int \<times> vx_world) option" where
  "vxlan_xmit kn madcap_enable jiffies skb d w = do {
     answered \<leftarrow> vxlan_proxy kn jiffies d skb w;
     (case answered of
        Some w \<Rightarrow> Some (0, w)
      | None \<Rightarrow>
          (case (if madcap_enable then vx_mcdev (vw_dev w d) else None) of
             Some mcdev \<Rightarrow> Some (vxlan_xmit_madcap kn skb d mcdev w)
           | None \<Rightarrow> do {
               (did_rsc, skb, f, w) \<leftarrow> xmit_lookup kn jiffies d skb w;
               (case f of
                  None \<Rightarrow>
                    (let v = vw_dev w d;
                         w = (if vx_flags v AND VXLAN_F_L2MISS \<noteq> 0 \<and> \<not> is_multicast_ether_addr (dst_mac (vs_data skb))
                              then set_dev d (vxlan_fdb_miss (dst_mac (vs_data skb)) v) w else w) in
                     Some (0, happens Freed (count_dev (\<lambda>s. s\<lparr>tx_dropped := tx_dropped s + 1\<rparr>) d w)))
                | Some f \<Rightarrow> do { w \<leftarrow> xmit_remotes kn jiffies skb d did_rsc f w; Some (0, w) }) })) }"

end
