(* ===== verification/Vxlan_Offload.thy ===== *)
theory Vxlan_Offload
  imports Vxlan_Net
begin

text \<open>
  \<^verbatim>\<open>protocol-drivers-4.2.0/vxlan/vxlan.c\<close>, what the driver tells others about its ports, and receive
  offload: NICs that can parse VXLAN are told which UDP ports are listened on, and packets of one
  flow are merged before they reach the socket.
\<close>

section \<open>Ports\<close>

text \<open>\<^verbatim>\<open>ndo_add_vxlan_port\<close> of every NIC that has it; an IPv4 socket also registers its receive offload, whose
  failure is only reported.\<close>

definition port_calls :: "vx_kern \<Rightarrow> (addr \<Rightarrow> port_call) \<Rightarrow> port_call list" where
  "port_calls kn call = map call (filter (vk_port_ops kn) (vk_netdevs kn))"

definition vxlan_notify_add_rx_port :: "vx_kern \<Rightarrow> addr \<Rightarrow> vxlan_sock \<Rightarrow> vx_world \<Rightarrow> vx_world" where
  "vxlan_notify_add_rx_port kn a vs w =
     (let w = (if \<not> vs_ipv6 vs \<and> vk_add_offload kn = 0 then w\<lparr>vw_offloads := a # vw_offloads w\<rparr> else w) in
      w\<lparr>vw_ports := vw_ports w @ port_calls kn (\<lambda>d. PortAdd d (vs_ipv6 vs) (vs_port vs))\<rparr>)"

definition vxlan_notify_del_rx_port :: "vx_kern \<Rightarrow> addr \<Rightarrow> vxlan_sock \<Rightarrow> vx_world \<Rightarrow> vx_world" where
  "vxlan_notify_del_rx_port kn a vs w =
     (let w = w\<lparr>vw_ports := vw_ports w @ port_calls kn (\<lambda>d. PortDel d (vs_ipv6 vs) (vs_port vs))\<rparr> in
      if \<not> vs_ipv6 vs then w\<lparr>vw_offloads := remove1 a (vw_offloads w)\<rparr> else w)"

text \<open>Nothing but the announcements changes.\<close>

lemma notify_frame [simp]:
  "vw_dev (vxlan_notify_add_rx_port kn a vs w) = vw_dev w"
  "vw_linked (vxlan_notify_add_rx_port kn a vs w) = vw_linked w"
  "vw_sock (vxlan_notify_add_rx_port kn a vs w) = vw_sock w"
  "vw_sock_list (vxlan_notify_add_rx_port kn a vs w) = vw_sock_list w"
  "vw_vn_sock (vxlan_notify_add_rx_port kn a vs w) = vw_vn_sock w"
  "vw_vxlan_list (vxlan_notify_add_rx_port kn a vs w) = vw_vxlan_list w"
  "vw_log (vxlan_notify_add_rx_port kn a vs w) = vw_log w"
  "vw_dev (vxlan_notify_del_rx_port kn a vs w) = vw_dev w"
  "vw_linked (vxlan_notify_del_rx_port kn a vs w) = vw_linked w"
  "vw_sock (vxlan_notify_del_rx_port kn a vs w) = vw_sock w"
  "vw_sock_list (vxlan_notify_del_rx_port kn a vs w) = vw_sock_list w"
  "vw_vn_sock (vxlan_notify_del_rx_port kn a vs w) = vw_vn_sock w"
  "vw_vxlan_list (vxlan_notify_del_rx_port kn a vs w) = vw_vxlan_list w"
  "vw_log (vxlan_notify_del_rx_port kn a vs w) = vw_log w"
  by (simp_all add: vxlan_notify_add_rx_port_def vxlan_notify_del_rx_port_def Let_def)

text \<open>A NIC that comes up asks for the ports that are open.\<close>

fun rx_port_loop :: "addr \<Rightarrow> addr list \<Rightarrow> vx_world \<Rightarrow> vx_world option" where
  "rx_port_loop d [] w = Some w"
| "rx_port_loop d (a # rest) w = do {
     vs \<leftarrow> vw_sock w a;
     rx_port_loop d rest (w\<lparr>vw_ports := vw_ports w @ [PortAdd d (vs_ipv6 vs) (vs_port vs)]\<rparr>) }"

definition vxlan_get_rx_port :: "addr \<Rightarrow> vx_world \<Rightarrow> vx_world option" where
  "vxlan_get_rx_port d w = rx_port_loop d (concat (vw_sock_list w)) w"

section \<open>Receive offload\<close>

text \<open>A packet in the offload engine: its bytes, how far they are pulled, whether its checksum was verified,
  and the marks for merging. \<open>grk_header\<close>: that many bytes can be made readable; \<open>'g\<close> is the state of
  remote checksum processing.\<close>

record gro_skb =
  gs_data :: "u8 list"
  gs_offset :: nat
  gs_same_flow :: bool
  gs_flush :: bool
  gs_csum_valid :: bool
  gs_remcsum_offload :: bool

record 'g gro_kern =
  grk_header :: "nat \<Rightarrow> gro_skb \<Rightarrow> bool"
  grk_postpull :: "u8 list \<Rightarrow> gro_skb \<Rightarrow> gro_skb"
  grk_remcsum_init :: 'g
  grk_remcsum :: "nat \<Rightarrow> nat \<Rightarrow> nat \<Rightarrow> bool \<Rightarrow> gro_skb \<Rightarrow> gro_skb \<times> 'g"
  grk_remcsum_cleanup :: "'g \<Rightarrow> gro_skb \<Rightarrow> gro_skb"
  grk_eth_receive :: "gro_skb list \<Rightarrow> gro_skb \<Rightarrow> nat option \<times> gro_skb list \<times> gro_skb"

text \<open>\<open>Inl\<close>: the caller gives up on the packet.\<close>

definition vxlan_gro_remcsum :: "'g gro_kern \<Rightarrow> gro_skb \<Rightarrow> nat \<Rightarrow> u32 \<Rightarrow> bool \<Rightarrow> unit + (gro_skb \<times> 'g)" where
  "vxlan_gro_remcsum gk skb off val nopartial =
     (if gs_remcsum_offload skb then Inl ()
      else if \<not> gs_csum_valid skb then Inl ()
      else
        let start = unat (push_bit 1 (val AND VXLAN_RCO_MASK));
            offset = start + (if val AND VXLAN_RCO_UDP \<noteq> 0 then 6 else 16);
            plen = 8 + offset + 2 in
        if \<not> grk_header gk (off + plen) skb then Inl ()
        else (case grk_remcsum gk (off + 8) start offset nopartial skb of
                (skb, grc) \<Rightarrow> Inr (skb\<lparr>gs_remcsum_offload := True\<rparr>, grc)))"

text \<open>The packets held so far that have another header are of another flow.\<close>

fun gro_match :: "nat \<Rightarrow> vxlanhdr \<Rightarrow> gro_skb list \<Rightarrow> gro_skb list option" where
  "gro_match off vh [] = Some []"
| "gro_match off vh (p # rest) =
     (if \<not> gs_same_flow p then do { ps \<leftarrow> gro_match off vh rest; Some (p # ps) }
      else do {
        bs \<leftarrow> read_bytes (gs_data p) off 8;
        ps \<leftarrow> gro_match off vh rest;
        Some ((if dec_vxlanhdr bs \<noteq> vh then p\<lparr>gs_same_flow := False\<rparr> else p) # ps) })"

definition gro_out :: "'g gro_kern \<Rightarrow> 'g \<Rightarrow> bool \<Rightarrow> gro_skb \<Rightarrow> gro_skb" where
  "gro_out gk grc flush skb = (let skb = grk_remcsum_cleanup gk grc skb in skb\<lparr>gs_flush := gs_flush skb \<or> flush\<rparr>)"

text \<open>The result is the packet of the list that is to be flushed, by its position, with the list and the new
  packet.\<close>

definition vxlan_gro_receive ::
  "'g gro_kern \<Rightarrow> vxlan_sock \<Rightarrow> gro_skb list \<Rightarrow> gro_skb \<Rightarrow> (nat option \<times> gro_skb list \<times> gro_skb) option" where
  "vxlan_gro_receive gk vs head skb =
     (let off = gs_offset skb; grc = grk_remcsum_init gk in
      if \<not> grk_header gk (off + 8) skb then Some (None, head, gro_out gk grc True skb)
      else do {
        bs \<leftarrow> read_bytes (gs_data skb) off 8;
        let vh = dec_vxlanhdr bs; flags = ntohl (vx_hflags vh);
            skb = grk_postpull gk bs (skb\<lparr>gs_offset := off + 8\<rparr>) in
        (case (if flags AND VXLAN_HF_RCO \<noteq> 0 \<and> vs_flags vs AND VXLAN_F_REMCSUM_RX \<noteq> 0
               then vxlan_gro_remcsum gk skb off (ntohl (vx_vni vh)) (vs_flags vs AND VXLAN_F_REMCSUM_NOPARTIAL \<noteq> 0)
               else Inr (skb, grc)) of
           Inl _ \<Rightarrow> Some (None, head, gro_out gk grc True skb)
         | Inr (skb, grc) \<Rightarrow> do {
             head \<leftarrow> gro_match off vh head;
             (case grk_eth_receive gk head skb of (pp, head, skb) \<Rightarrow> Some (pp, head, gro_out gk grc False skb)) }) })"

text \<open>The merged packet is finished by the handlers of the outer and of the inner headers.\<close>

definition vxlan_gro_complete :: "(nat \<Rightarrow> 's \<Rightarrow> 's) \<Rightarrow> (nat \<Rightarrow> 's \<Rightarrow> int \<times> 's) \<Rightarrow> nat \<Rightarrow> 's \<Rightarrow> int \<times> 's" where
  "vxlan_gro_complete udp_complete eth_complete nhoff skb = eth_complete (nhoff + 8) (udp_complete nhoff skb)"

text \<open>The Ethernet handler is only offered packets of the same VXLAN segment: those it may merge are the
  ones that were of the same flow and carry the same header.\<close>

lemma gro_match_flows:
  "gro_match off vh head = Some ps \<Longrightarrow> length ps = length head \<and>
    (\<forall>i < length head. gs_same_flow (ps ! i) \<longleftrightarrow> gs_same_flow (head ! i) \<and> read_bytes (gs_data (head ! i)) off 8 \<noteq> None \<and>
      dec_vxlanhdr (the (read_bytes (gs_data (head ! i)) off 8)) = vh)"
proof (induction head arbitrary: ps)
  case (Cons p head)
  from Cons.prems obtain qs where q: "gro_match off vh head = Some qs"
    by (auto simp: bind_eq_Some_conv split: if_splits)
  note IH = Cons.IH [OF q]
  have "\<exists>p'. ps = p' # qs \<and> (gs_same_flow p' \<longleftrightarrow> gs_same_flow p \<and> read_bytes (gs_data p) off 8 \<noteq> None \<and>
      dec_vxlanhdr (the (read_bytes (gs_data p) off 8)) = vh)"
    using Cons.prems q by (auto simp: bind_eq_Some_conv split: if_splits)
  then show ?case using IH by (auto simp: nth_Cons split: nat.splits)
qed simp

end
