(* ===== verification/Vxlan_Link.thy ===== *)
theory Vxlan_Link
  imports Vxlan_Xmit Vxlan_Offload
begin

text \<open>
  \<^verbatim>\<open>protocol-drivers-4.2.0/vxlan/vxlan.c\<close>, the life of a VXLAN device: creation from link attributes
  with the acquisition of the madcap device below, its dump, the shared listening sockets it is
  opened on, closing, deletion, and the module. The state \<open>nic\<close> is that of the madcap devices.
\<close>

abbreviation (input) EPERM :: int where "EPERM \<equiv> 1"
abbreviation (input) EBUSY :: int where "EBUSY \<equiv> 16"
abbreviation (input) ERANGE :: int where "ERANGE \<equiv> 34"
abbreviation (input) EADDRINUSE :: int where "EADDRINUSE \<equiv> 98"
abbreviation (input) IFLA_ADDRESS :: nat where "IFLA_ADDRESS \<equiv> 1"
abbreviation (input) IFLA_MTU :: nat where "IFLA_MTU \<equiv> 4"
abbreviation (input) IFLA_VXLAN_ID :: nat where "IFLA_VXLAN_ID \<equiv> 1"
abbreviation (input) IFLA_VXLAN_GROUP :: nat where "IFLA_VXLAN_GROUP \<equiv> 2"
abbreviation (input) IFLA_VXLAN_LINK :: nat where "IFLA_VXLAN_LINK \<equiv> 3"
abbreviation (input) IFLA_VXLAN_LOCAL :: nat where "IFLA_VXLAN_LOCAL \<equiv> 4"
abbreviation (input) IFLA_VXLAN_TTL :: nat where "IFLA_VXLAN_TTL \<equiv> 5"
abbreviation (input) IFLA_VXLAN_TOS :: nat where "IFLA_VXLAN_TOS \<equiv> 6"
abbreviation (input) IFLA_VXLAN_LEARNING :: nat where "IFLA_VXLAN_LEARNING \<equiv> 7"
abbreviation (input) IFLA_VXLAN_AGEING :: nat where "IFLA_VXLAN_AGEING \<equiv> 8"
abbreviation (input) IFLA_VXLAN_LIMIT :: nat where "IFLA_VXLAN_LIMIT \<equiv> 9"
abbreviation (input) IFLA_VXLAN_PORT_RANGE :: nat where "IFLA_VXLAN_PORT_RANGE \<equiv> 10"
abbreviation (input) IFLA_VXLAN_PROXY :: nat where "IFLA_VXLAN_PROXY \<equiv> 11"
abbreviation (input) IFLA_VXLAN_RSC :: nat where "IFLA_VXLAN_RSC \<equiv> 12"
abbreviation (input) IFLA_VXLAN_L2MISS :: nat where "IFLA_VXLAN_L2MISS \<equiv> 13"
abbreviation (input) IFLA_VXLAN_L3MISS :: nat where "IFLA_VXLAN_L3MISS \<equiv> 14"
abbreviation (input) IFLA_VXLAN_PORT :: nat where "IFLA_VXLAN_PORT \<equiv> 15"
abbreviation (input) IFLA_VXLAN_GROUP6 :: nat where "IFLA_VXLAN_GROUP6 \<equiv> 16"
abbreviation (input) IFLA_VXLAN_LOCAL6 :: nat where "IFLA_VXLAN_LOCAL6 \<equiv> 17"
abbreviation (input) IFLA_VXLAN_UDP_CSUM :: nat where "IFLA_VXLAN_UDP_CSUM \<equiv> 18"
abbreviation (input) IFLA_VXLAN_UDP_ZERO_CSUM6_TX :: nat where "IFLA_VXLAN_UDP_ZERO_CSUM6_TX \<equiv> 19"
abbreviation (input) IFLA_VXLAN_UDP_ZERO_CSUM6_RX :: nat where "IFLA_VXLAN_UDP_ZERO_CSUM6_RX \<equiv> 20"
abbreviation (input) IFLA_VXLAN_REMCSUM_TX :: nat where "IFLA_VXLAN_REMCSUM_TX \<equiv> 21"
abbreviation (input) IFLA_VXLAN_REMCSUM_RX :: nat where "IFLA_VXLAN_REMCSUM_RX \<equiv> 22"
abbreviation (input) IFLA_VXLAN_GBP :: nat where "IFLA_VXLAN_GBP \<equiv> 23"
abbreviation (input) IFLA_VXLAN_REMCSUM_NOPARTIAL :: nat where "IFLA_VXLAN_REMCSUM_NOPARTIAL \<equiv> 24"

section \<open>Sockets\<close>

text \<open>A new socket at the head of its bucket, of which the NICs are told.\<close>

definition vxlan_socket_create :: "vx_kern \<Rightarrow> u16 \<Rightarrow> u32 \<Rightarrow> vx_world \<Rightarrow> (int + addr) \<times> vx_world" where
  "vxlan_socket_create kn port flags w =
     (let ipv6 = (flags AND VXLAN_F_IPV6 \<noteq> 0); n = vk_hash32 kn (ucast (htons port)) 8 in
      case vk_kzalloc kn of
        None \<Rightarrow> (Inl (- ENOMEM), w)
      | Some a \<Rightarrow>
          if vk_sock_create kn ipv6 port < 0 then (Inl (vk_sock_create kn ipv6 port), w)
          else
            let vs = \<lparr>vs_port = port, vs_ipv6 = ipv6, vs_flags = flags AND VXLAN_F_RCV_FLAGS, vs_refcnt = 1, vs_vni_list = replicate 1024 []\<rparr> in
            (Inr a, vxlan_notify_add_rx_port kn a vs (w\<lparr>vw_sock := (vw_sock w)(a \<mapsto> vs),
              vw_sock_list := (vw_sock_list w)[n := a # vw_sock_list w ! n]\<rparr>)))"

definition vxlan_sock_add :: "vx_kern \<Rightarrow> u16 \<Rightarrow> u32 \<Rightarrow> vx_world \<Rightarrow> ((int + addr) \<times> vx_world) option" where
  "vxlan_sock_add kn port flags w = do {
     found \<leftarrow> vxlan_find_sock kn (flags AND VXLAN_F_IPV6 \<noteq> 0) port flags w;
     (case found of
        None \<Rightarrow> Some (vxlan_socket_create kn port flags w)
      | Some a \<Rightarrow> do {
          vs \<leftarrow> vw_sock w a;
          if vs_refcnt vs = 0 then Some (Inl (- EBUSY), w)
          else Some (Inr a, w\<lparr>vw_sock := (vw_sock w)(a \<mapsto> vs\<lparr>vs_refcnt := vs_refcnt vs + 1\<rparr>)\<rparr>) }) }"

text \<open>The last user takes the socket out of the table and frees it, by a work in the queue (\<^verbatim>\<open>vxlan_del_work\<close>).\<close>

definition vxlan_sock_release :: "vx_kern \<Rightarrow> addr \<Rightarrow> vx_world \<Rightarrow> vx_world option" where
  "vxlan_sock_release kn a w = do {
     vs \<leftarrow> vw_sock w a;
     let n = vk_hash32 kn (ucast (htons (vs_port vs))) 8;
     if vs_refcnt vs \<noteq> 1 then Some (w\<lparr>vw_sock := (vw_sock w)(a \<mapsto> vs\<lparr>vs_refcnt := vs_refcnt vs - 1\<rparr>)\<rparr>)
     else
       let w = vxlan_notify_del_rx_port kn a vs (w\<lparr>vw_sock_list := (vw_sock_list w)[n := remove1 a (vw_sock_list w ! n)]\<rparr>) in
       Some (w\<lparr>vw_sock := (vw_sock w)(a := None)\<rparr>) }"

text \<open>A device that is still linked in the list of a live socket makes a cycle of the list it is linked into
  again; one in the list of a freed socket is only relinked.\<close>

definition vxlan_vs_add_dev :: "vx_kern \<Rightarrow> addr \<Rightarrow> addr \<Rightarrow> vx_world \<Rightarrow> vx_world option" where
  "vxlan_vs_add_dev kn a d w = do {
     vs \<leftarrow> vw_sock w a;
     let n = vk_hash32 kn (rd_vni (vx_default_dst (vw_dev w d))) 10;
     if (case vw_linked w d of None \<Rightarrow> False | Some b \<Rightarrow> vw_sock w b \<noteq> None) then None
     else Some (w\<lparr>vw_vn_sock := (vw_vn_sock w)(d \<mapsto> a), vw_linked := (vw_linked w)(d \<mapsto> a),
       vw_sock := (vw_sock w)(a \<mapsto> vs\<lparr>vs_vni_list := (vs_vni_list vs)[n := d # vs_vni_list vs ! n]\<rparr>)\<rparr>) }"

section \<open>Up and down\<close>

definition vxlan_igmp_join :: "vx_kern \<Rightarrow> vxlan_dev \<Rightarrow> int" where
  "vxlan_igmp_join kn v = vk_mc_join kn (rd_ip (vx_default_dst v)) (rd_ifindex (vx_default_dst v))"

definition vxlan_igmp_leave :: "vx_kern \<Rightarrow> vxlan_dev \<Rightarrow> int" where
  "vxlan_igmp_leave kn v = vk_mc_leave kn (rd_ip (vx_default_dst v)) (rd_ifindex (vx_default_dst v))"

text \<open>Whether another running device on the same socket is a member of the group.\<close>

definition vxlan_group_used :: "vx_kern \<Rightarrow> addr \<Rightarrow> vx_world \<Rightarrow> bool option" where
  "vxlan_group_used kn d w = do {
     a \<leftarrow> vw_vn_sock w d;
     vs \<leftarrow> vw_sock w a;
     Some (vs_refcnt vs \<noteq> 1 \<and>
       list_ex (\<lambda>e. vk_running kn e \<and> e \<noteq> d \<and> vw_vn_sock w e = Some a \<and>
         rd_ip (vx_default_dst (vw_dev w e)) = rd_ip (vx_default_dst (vw_dev w d)) \<and>
         rd_ifindex (vx_default_dst (vw_dev w e)) = rd_ifindex (vx_default_dst (vw_dev w d))) (vw_vxlan_list w)) }"

definition vxlan_open :: "vx_kern \<Rightarrow> u64 \<Rightarrow> addr \<Rightarrow> vx_world \<Rightarrow> (int \<times> vx_world) option" where
  "vxlan_open kn jiffies d w =
     (let v = vw_dev w d in
      do {
        (r, w) \<leftarrow> vxlan_sock_add kn (vx_dst_port v) (vx_flags v) w;
        (case r of
           Inl e \<Rightarrow> Some (e, w)
         | Inr a \<Rightarrow> do {
             w \<leftarrow> vxlan_vs_add_dev kn a d w;
             let ret = (if vxlan_addr_multicast (rd_ip (vx_default_dst v)) then vxlan_igmp_join kn v else 0);
             let ret = (if ret = - EADDRINUSE then 0 else ret);
             if ret \<noteq> 0 then do { w \<leftarrow> vxlan_sock_release kn a w; Some (ret, w) }
             else Some (0, if vx_age_interval v \<noteq> 0 then w\<lparr>vw_timer := (vw_timer w)(d \<mapsto> jiffies + 10 * vk_hz kn)\<rparr> else w) }) })"

definition vxlan_stop :: "vx_kern \<Rightarrow> addr \<Rightarrow> vx_world \<Rightarrow> (int \<times> vx_world) option" where
  "vxlan_stop kn d w =
     (let v = vw_dev w d in
      do {
        used \<leftarrow> (if vxlan_addr_multicast (rd_ip (vx_default_dst v)) then vxlan_group_used kn d w else Some True);
        let ret = (if used then 0 else vxlan_igmp_leave kn v);
        v \<leftarrow> vxlan_flush (vk_hash kn) v;
        a \<leftarrow> vw_vn_sock w d;
        w \<leftarrow> vxlan_sock_release kn a (set_dev d v (w\<lparr>vw_timer := (vw_timer w)(d := None)\<rparr>));
        Some (ret, w) })"

definition vxlan_init :: "vx_kern \<Rightarrow> int" where
  "vxlan_init kn = (if vk_tstats kn then 0 else - ENOMEM)"

definition vxlan_uninit :: "vx_kern \<Rightarrow> addr \<Rightarrow> vx_world \<Rightarrow> vx_world option" where
  "vxlan_uninit kn d w = do { v \<leftarrow> vxlan_fdb_delete_default (vk_hash kn) (vw_dev w d); Some (set_dev d v w) }"

definition headroom :: "bool \<Rightarrow> int" where
  "headroom ipv6 = (if ipv6 then 70 else 50)"

definition vxlan_change_mtu :: "vx_kern \<Rightarrow> addr \<Rightarrow> int \<Rightarrow> vx_world \<Rightarrow> int \<times> vx_world" where
  "vxlan_change_mtu kn d new_mtu w =
     (let dst = vx_default_dst (vw_dev w d); w' = w\<lparr>vw_mtu := (vw_mtu w)(d := new_mtu)\<rparr> in
      case vk_lowerdev kn (rd_ifindex dst) of
        None \<Rightarrow> if vk_eth_mtu_ok kn new_mtu then (0, w') else (- EINVAL, w)
      | Some l \<Rightarrow> if new_mtu < 68 \<or> new_mtu > ld_mtu l - headroom (is_ipv6 (rd_ip dst)) then (- EINVAL, w) else (0, w'))"

section \<open>Creation\<close>

text \<open>The private data of a new device, all zero but for the default port.\<close>

definition vxlan_setup :: "u16 \<Rightarrow> vxlan_dev" where
  "vxlan_setup port = \<lparr>vx_default_dst = \<lparr>rd_ip = IN4 0, rd_port = 0, rd_vni = 0, rd_ifindex = 0\<rparr>, vx_saddr = IN4 0,
     vx_dst_port = htons port, vx_port_min = 0, vx_port_max = 0, vx_tos = 0, vx_ttl = 0, vx_flags = 0, vx_age_interval = 0,
     vx_addrcnt = 0, vx_addrmax = 0, vx_mcdev = None, vx_fdb = replicate 256 [], vx_mem = 0, vx_notified = []\<rparr>"

definition vxlan_validate :: "nlattr_tb \<Rightarrow> nlattr_tb option \<Rightarrow> int" where
  "vxlan_validate tb attrs =
     (if (case tb IFLA_ADDRESS of Some a \<Rightarrow> length a \<noteq> 6 | None \<Rightarrow> False) then - EINVAL
      else if (case tb IFLA_ADDRESS of Some a \<Rightarrow> is_multicast_ether_addr a \<or> is_zero_ether_addr a | None \<Rightarrow> False) then - EADDRNOTAVAIL
      else (case attrs of
        None \<Rightarrow> - EINVAL
      | Some attrs \<Rightarrow>
          if (case attrs IFLA_VXLAN_ID of Some bs \<Rightarrow> nla_get_u32 bs \<ge> VXLAN_VID_MASK | None \<Rightarrow> False) then - ERANGE
          else if (case attrs IFLA_VXLAN_PORT_RANGE of
                     Some bs \<Rightarrow> htons (nla_get_u16 (drop 2 bs)) < htons (nla_get_u16 bs) | None \<Rightarrow> False) then - EINVAL
          else 0))"

definition nla_true :: "nlattr_tb \<Rightarrow> nat \<Rightarrow> bool" where
  "nla_true attrs ty = (case attrs ty of Some bs \<Rightarrow> nla_get_u8 bs \<noteq> 0 | None \<Rightarrow> False)"

text \<open>The identifier and the two addresses; whether one of them is IPv6.\<close>

definition newlink_addrs :: "nlattr_tb \<Rightarrow> u32 \<Rightarrow> vxlan_dev \<Rightarrow> vxlan_dev \<times> bool" where
  "newlink_addrs attrs vni v =
     (let dst = (vx_default_dst v)\<lparr>rd_vni := vni\<rparr>;
          (ip, six1) = (case attrs IFLA_VXLAN_GROUP of
             Some bs \<Rightarrow> (IN4 (nla_get_u32 bs), False)
           | None \<Rightarrow> (case attrs IFLA_VXLAN_GROUP6 of Some bs \<Rightarrow> (IN6 (take 16 bs), True) | None \<Rightarrow> (IN4 (sin_addr (rd_ip dst)), False)));
          (saddr, six2) = (case attrs IFLA_VXLAN_LOCAL of
             Some bs \<Rightarrow> (IN4 (nla_get_u32 bs), False)
           | None \<Rightarrow> (case attrs IFLA_VXLAN_LOCAL6 of Some bs \<Rightarrow> (IN6 (take 16 bs), True) | None \<Rightarrow> (vx_saddr v, False))) in
      (v\<lparr>vx_default_dst := dst\<lparr>rd_ip := ip\<rparr>, vx_saddr := saddr\<rparr>, six1 \<or> six2))"

text \<open>The device below: a madcap device is remembered and acquired, whatever comes of it.\<close>

definition newlink_lower ::
  "vx_kern \<Rightarrow> 'w madcap_net \<Rightarrow> addr \<Rightarrow> nlattr_tb \<Rightarrow> nlattr_tb \<Rightarrow> bool \<Rightarrow> vx_world \<Rightarrow> 'w \<Rightarrow> int \<times> vx_world \<times> 'w" where
  "newlink_lower kn mnet d tb attrs use_ipv6 w nic =
     (let v = vw_dev w d;
          ifindex = (case attrs IFLA_VXLAN_LINK of Some bs \<Rightarrow> nla_get_u32 bs | None \<Rightarrow> 0);
          v = (case attrs IFLA_VXLAN_LINK of Some _ \<Rightarrow> v\<lparr>vx_default_dst := (vx_default_dst v)\<lparr>rd_ifindex := ifindex\<rparr>\<rparr> | None \<Rightarrow> v) in
      if ifindex = 0 then (0, set_dev d (if use_ipv6 then v\<lparr>vx_flags := vx_flags v OR VXLAN_F_IPV6\<rparr> else v) w, nic)
      else (case vk_lowerdev kn ifindex of
              None \<Rightarrow> (- ENODEV, set_dev d v w, nic)
            | Some l \<Rightarrow>
                let madcap = (get_madcap_ops mnet (ld_addr l) \<noteq> None);
                    v = (if madcap then v\<lparr>vx_mcdev := Some (ld_addr l)\<rparr> else v);
                    nic = (if madcap then snd (madcap_acquire_dev mnet (ld_addr l) d nic) else nic) in
                if use_ipv6 \<and> ld_disable_ipv6 l then (- EPERM, set_dev d v w, nic)
                else
                  let v = (if use_ipv6 then v\<lparr>vx_flags := vx_flags v OR VXLAN_F_IPV6\<rparr> else v);
                      w = set_dev d v w;
                      w = (if tb IFLA_MTU = None then w\<lparr>vw_mtu := (vw_mtu w)(d := ld_mtu l - headroom use_ipv6)\<rparr> else w) in
                  (0, w\<lparr>vw_headroom := (vw_headroom w)(d := ld_hard_header_len l + headroom use_ipv6)\<rparr>, nic)))"

definition set_flag :: "bool \<Rightarrow> u32 \<Rightarrow> u32 \<Rightarrow> u32" where
  "set_flag b f flags = (if b then flags OR f else flags)"

definition newlink_options :: "nlattr_tb \<Rightarrow> vxlan_dev \<Rightarrow> vxlan_dev" where
  "newlink_options attrs v =
     (let v = nla_set attrs IFLA_VXLAN_TOS nla_get_u8 (\<lambda>x v. v\<lparr>vx_tos := x\<rparr>) v;
          v = nla_set attrs IFLA_VXLAN_TTL nla_get_u8 (\<lambda>x v. v\<lparr>vx_ttl := x\<rparr>) v;
          f = vx_flags v;
          f = set_flag (attrs IFLA_VXLAN_LEARNING = None \<or> nla_true attrs IFLA_VXLAN_LEARNING) VXLAN_F_LEARN f;
          v = v\<lparr>vx_age_interval := (case attrs IFLA_VXLAN_AGEING of Some bs \<Rightarrow> ucast (nla_get_u32 bs) | None \<Rightarrow> 300)\<rparr>;
          f = set_flag (nla_true attrs IFLA_VXLAN_PROXY) VXLAN_F_PROXY f;
          f = set_flag (nla_true attrs IFLA_VXLAN_RSC) VXLAN_F_RSC f;
          f = set_flag (nla_true attrs IFLA_VXLAN_L2MISS) VXLAN_F_L2MISS f;
          f = set_flag (nla_true attrs IFLA_VXLAN_L3MISS) VXLAN_F_L3MISS f;
          v = nla_set attrs IFLA_VXLAN_LIMIT nla_get_u32 (\<lambda>x v. v\<lparr>vx_addrmax := x\<rparr>) v;
          v = (case attrs IFLA_VXLAN_PORT_RANGE of
                 Some bs \<Rightarrow> v\<lparr>vx_port_min := htons (nla_get_u16 bs), vx_port_max := htons (nla_get_u16 (drop 2 bs))\<rparr>
               | None \<Rightarrow> v);
          v = nla_set attrs IFLA_VXLAN_PORT nla_get_u16 (\<lambda>x v. v\<lparr>vx_dst_port := x\<rparr>) v;
          f = set_flag (nla_true attrs IFLA_VXLAN_UDP_CSUM) VXLAN_F_UDP_CSUM f;
          f = set_flag (nla_true attrs IFLA_VXLAN_UDP_ZERO_CSUM6_TX) VXLAN_F_UDP_ZERO_CSUM6_TX f;
          f = set_flag (nla_true attrs IFLA_VXLAN_UDP_ZERO_CSUM6_RX) VXLAN_F_UDP_ZERO_CSUM6_RX f;
          f = set_flag (nla_true attrs IFLA_VXLAN_REMCSUM_TX) VXLAN_F_REMCSUM_TX f;
          f = set_flag (nla_true attrs IFLA_VXLAN_REMCSUM_RX) VXLAN_F_REMCSUM_RX f;
          f = set_flag (attrs IFLA_VXLAN_GBP \<noteq> None) VXLAN_F_GBP f;
          f = set_flag (attrs IFLA_VXLAN_REMCSUM_NOPARTIAL \<noteq> None) VXLAN_F_REMCSUM_NOPARTIAL f in
      v\<lparr>vx_flags := f\<rparr>)"

text \<open>The entry for the default destination, unless there is none.\<close>

definition newlink_default :: "vx_kern \<Rightarrow> u64 \<Rightarrow> addr \<Rightarrow> vx_world \<Rightarrow> (int \<times> vx_world) option" where
  "newlink_default kn jiffies d w =
     (let v = vw_dev w d; dst = vx_default_dst v in
      if vxlan_addr_any (rd_ip dst) then Some (0, w)
      else do {
        (err, v) \<leftarrow> vxlan_fdb_create (vk_hash kn) jiffies v all_zeros_mac (dst\<lparr>rd_port := vx_dst_port v\<rparr>)
          (NUD_REACHABLE OR NUD_PERMANENT) (NLM_F_EXCL OR NLM_F_CREATE) NTF_SELF;
        Some (err, set_dev d v w) })"

definition vxlan_newlink ::
  "vx_kern \<Rightarrow> 'w madcap_net \<Rightarrow> u64 \<Rightarrow> addr \<Rightarrow> nlattr_tb \<Rightarrow> nlattr_tb \<Rightarrow> vx_world \<Rightarrow> 'w \<Rightarrow> (int \<times> vx_world \<times> 'w) option" where
  "vxlan_newlink kn mnet jiffies d tb attrs w nic =
     (case attrs IFLA_VXLAN_ID of
        None \<Rightarrow> Some (- EINVAL, w, nic)
      | Some bs \<Rightarrow>
          let vni = nla_get_u32 bs;
              (v, use_ipv6) = newlink_addrs attrs vni (vw_dev w d);
              (rc, w, nic) = newlink_lower kn mnet d tb attrs use_ipv6 (set_dev d v w) nic in
          if rc \<noteq> 0 then Some (rc, w, nic)
          else
            let v = newlink_options attrs (vw_dev w d); w = set_dev d v w in
            do {
              dup \<leftarrow> vxlan_find_vni kn vni use_ipv6 (vx_dst_port v) (vx_flags v) w;
              if dup \<noteq> None then Some (- EEXIST, w, nic)
              else do {
                (err, w) \<leftarrow> newlink_default kn jiffies d w;
                if err \<noteq> 0 then Some (err, w, nic)
                else if vk_register kn \<noteq> 0 then do {
                  v \<leftarrow> vxlan_fdb_delete_default (vk_hash kn) (vw_dev w d);
                  Some (vk_register kn, set_dev d v w, nic) }
                else Some (0, w\<lparr>vw_vxlan_list := d # vw_vxlan_list w\<rparr>, nic) } })"

section \<open>Deletion\<close>

text \<open>Unlinking writes into the list of the socket the device is linked in, which must still be there.\<close>

definition vxlan_dellink :: "vx_kern \<Rightarrow> addr \<Rightarrow> vx_world \<Rightarrow> vx_world option" where
  "vxlan_dellink kn d w = do {
     w \<leftarrow> (case vw_linked w d of
             None \<Rightarrow> Some w
           | Some a \<Rightarrow> do {
               vs \<leftarrow> vw_sock w a;
               let n = vk_hash32 kn (rd_vni (vx_default_dst (vw_dev w d))) 10;
               Some (w\<lparr>vw_linked := (vw_linked w)(d := None),
                 vw_sock := (vw_sock w)(a \<mapsto> vs\<lparr>vs_vni_list := (vs_vni_list vs)[n := remove1 d (vs_vni_list vs ! n)]\<rparr>)\<rparr>) });
     Some (w\<lparr>vw_vxlan_list := remove1 d (vw_vxlan_list w), vw_unregister := vw_unregister w @ [d]\<rparr>) }"

fun lowerdev_loop :: "vx_kern \<Rightarrow> u32 \<Rightarrow> addr list \<Rightarrow> vx_world \<Rightarrow> vx_world option" where
  "lowerdev_loop kn ifindex [] w = Some w"
| "lowerdev_loop kn ifindex (d # rest) w =
     (if rd_ifindex (vx_default_dst (vw_dev w d)) = ifindex then do { w \<leftarrow> vxlan_dellink kn d w; lowerdev_loop kn ifindex rest w }
      else lowerdev_loop kn ifindex rest w)"

definition vxlan_handle_lowerdev_unregister :: "vx_kern \<Rightarrow> u32 \<Rightarrow> vx_world \<Rightarrow> vx_world option" where
  "vxlan_handle_lowerdev_unregister kn ifindex w = lowerdev_loop kn ifindex (vw_vxlan_list w) w"

text \<open>\<^verbatim>\<open>NETDEV_UNREGISTER\<close> is 6.\<close>

definition vxlan_lowerdev_event :: "vx_kern \<Rightarrow> nat \<Rightarrow> u32 \<Rightarrow> vx_world \<Rightarrow> vx_world option" where
  "vxlan_lowerdev_event kn event ifindex w = (if event = 6 then vxlan_handle_lowerdev_unregister kn ifindex w else Some w)"

section \<open>Dump\<close>

definition vxlan_get_size :: nat where
  "vxlan_get_size = nla_total_size 4 + nla_total_size 16 + nla_total_size 4 + nla_total_size 16 +
     nla_total_size 1 + nla_total_size 1 + nla_total_size 1 + nla_total_size 1 + nla_total_size 1 + nla_total_size 1 + nla_total_size 1 +
     nla_total_size 4 + nla_total_size 4 + nla_total_size 4 + nla_total_size 2 +
     nla_total_size 1 + nla_total_size 1 + nla_total_size 1 + nla_total_size 1 + nla_total_size 1"

definition flag_byte :: "vxlan_dev \<Rightarrow> u32 \<Rightarrow> u8 list" where
  "flag_byte v f = [if vx_flags v AND f \<noteq> 0 then 1 else 0]"

definition addr_attr :: "nat \<Rightarrow> nat \<Rightarrow> vxlan_addr \<Rightarrow> nlattr list" where
  "addr_attr t4 t6 a =
     (if vxlan_addr_any a then [] else case a of IN4 x \<Rightarrow> [(t4, le_bytes 4 x)] | IN6 bs \<Rightarrow> [(t6, bs)])"

definition vxlan_attrs :: "vxlan_dev \<Rightarrow> nlattr list" where
  "vxlan_attrs v =
     (let dst = vx_default_dst v in
      [(IFLA_VXLAN_ID, le_bytes 4 (rd_vni dst))] @ addr_attr IFLA_VXLAN_GROUP IFLA_VXLAN_GROUP6 (rd_ip dst) @
      (if rd_ifindex dst \<noteq> 0 then [(IFLA_VXLAN_LINK, le_bytes 4 (rd_ifindex dst))] else []) @
      addr_attr IFLA_VXLAN_LOCAL IFLA_VXLAN_LOCAL6 (vx_saddr v) @
      [(IFLA_VXLAN_TTL, [vx_ttl v]), (IFLA_VXLAN_TOS, [vx_tos v]),
       (IFLA_VXLAN_LEARNING, flag_byte v VXLAN_F_LEARN), (IFLA_VXLAN_PROXY, flag_byte v VXLAN_F_PROXY),
       (IFLA_VXLAN_RSC, flag_byte v VXLAN_F_RSC), (IFLA_VXLAN_L2MISS, flag_byte v VXLAN_F_L2MISS),
       (IFLA_VXLAN_L3MISS, flag_byte v VXLAN_F_L3MISS), (IFLA_VXLAN_AGEING, le_bytes 4 (ucast (vx_age_interval v) :: u32)),
       (IFLA_VXLAN_LIMIT, le_bytes 4 (vx_addrmax v)), (IFLA_VXLAN_PORT, le_bytes 2 (vx_dst_port v)),
       (IFLA_VXLAN_UDP_CSUM, flag_byte v VXLAN_F_UDP_CSUM),
       (IFLA_VXLAN_UDP_ZERO_CSUM6_TX, flag_byte v VXLAN_F_UDP_ZERO_CSUM6_TX),
       (IFLA_VXLAN_UDP_ZERO_CSUM6_RX, flag_byte v VXLAN_F_UDP_ZERO_CSUM6_RX),
       (IFLA_VXLAN_REMCSUM_TX, flag_byte v VXLAN_F_REMCSUM_TX), (IFLA_VXLAN_REMCSUM_RX, flag_byte v VXLAN_F_REMCSUM_RX),
       (IFLA_VXLAN_PORT_RANGE, le_bytes 2 (htons (vx_port_min v)) @ le_bytes 2 (htons (vx_port_max v)))] @
      (if vx_flags v AND VXLAN_F_GBP \<noteq> 0 then [(IFLA_VXLAN_GBP, [])] else []) @
      (if vx_flags v AND VXLAN_F_REMCSUM_NOPARTIAL \<noteq> 0 then [(IFLA_VXLAN_REMCSUM_NOPARTIAL, [])] else []))"

text \<open>A failed dump leaves its attributes so far in the message, which is discarded.\<close>

definition vxlan_fill_info :: "vxlan_dev \<Rightarrow> nlbuf \<Rightarrow> int + nlbuf" where
  "vxlan_fill_info v b = (case nla_put_all (vxlan_attrs v) b of None \<Rightarrow> Inl (- EMSGSIZE) | Some b \<Rightarrow> Inr b)"

section \<open>The module\<close>

record vx_module =
  vm_workqueue :: bool
  vm_pernet :: bool
  vm_notifier :: bool
  vm_link_ops :: bool

text \<open>A namespace starts without devices and sockets. When it goes away, its VXLAN devices (\<open>mine\<close>) and those
  of other namespaces that send in it are unregistered.\<close>

definition vxlan_init_net :: "vx_world \<Rightarrow> int \<times> vx_world" where
  "vxlan_init_net w = (0, w\<lparr>vw_vxlan_list := [], vw_sock_list := replicate 256 []\<rparr>)"

definition vxlan_exit_net :: "addr list \<Rightarrow> (addr \<Rightarrow> bool) \<Rightarrow> vx_world \<Rightarrow> vx_world" where
  "vxlan_exit_net mine same_ns w =
     w\<lparr>vw_unregister := vw_unregister w @ mine @ filter (\<lambda>d. \<not> same_ns d) (vw_vxlan_list w)\<rparr>"

text \<open>\<^verbatim>\<open>ethtool\<close>'s version and driver fields, 32 bytes each.\<close>

definition vxlan_get_drvinfo :: "string \<times> string" where
  "vxlan_get_drvinfo = (take 31 ''0.1'', take 31 ''vxlan'')"

definition vxlan_init_module :: "bool \<Rightarrow> int \<Rightarrow> int \<Rightarrow> int \<Rightarrow> vx_module \<Rightarrow> int \<times> vx_module" where
  "vxlan_init_module wq_ok pernet_rc notifier_rc link_rc m =
     (if \<not> wq_ok then (- ENOMEM, m)
      else let m = m\<lparr>vm_workqueue := True\<rparr> in
      if pernet_rc \<noteq> 0 then (pernet_rc, m\<lparr>vm_workqueue := False\<rparr>)
      else let m = m\<lparr>vm_pernet := True\<rparr> in
      if notifier_rc \<noteq> 0 then (notifier_rc, m\<lparr>vm_pernet := False, vm_workqueue := False\<rparr>)
      else let m = m\<lparr>vm_notifier := True\<rparr> in
      if link_rc \<noteq> 0 then (link_rc, m\<lparr>vm_notifier := False, vm_pernet := False, vm_workqueue := False\<rparr>)
      else (0, m\<lparr>vm_link_ops := True\<rparr>))"

definition vxlan_cleanup_module :: "vx_module \<Rightarrow> vx_module" where
  "vxlan_cleanup_module m = m\<lparr>vm_link_ops := False, vm_notifier := False, vm_workqueue := False, vm_pernet := False\<rparr>"

end
