(* ===== verification/Vxlan_Wire.thy ===== *)
theory Vxlan_Wire
  imports Vxlan_Link
begin

text \<open>
  The VXLAN header on the wire: what a receiver reads from the header that the encapsulating path
  writes, and from the header that a madcap device gets.
\<close>

section \<open>Byte order\<close>

lemma bit_le_bytes: "i < n \<Longrightarrow> j < 8 \<Longrightarrow> bit (le_bytes n w ! i) j \<longleftrightarrow> bit w (8 * i + j)"
  by (simp add: le_bytes_def bit_ucast_iff bit_drop_bit_eq)

lemma bit_htonl: "bit (htonl w) k \<longleftrightarrow> k < 32 \<and> bit w (8 * (3 - k div 8) + k mod 8)"
proof (cases "k < 32")
  case True
  then have i: "k div 8 < 4" by simp
  then have r: "rev (le_bytes 4 w) ! (k div 8) = le_bytes 4 w ! (3 - k div 8)" by (simp add: rev_nth)
  show ?thesis using True i unfolding htonl_def by (simp add: bit_le_word r bit_le_bytes)
qed (simp add: htonl_def bit_le_word)

lemma bit_htons: "bit (htons w) k \<longleftrightarrow> k < 16 \<and> bit w (8 * (1 - k div 8) + k mod 8)"
proof (cases "k < 16")
  case True
  then have i: "k div 8 < 2" by simp
  then have r: "rev (le_bytes 2 w) ! (k div 8) = le_bytes 2 w ! (1 - k div 8)" by (simp add: rev_nth)
  show ?thesis using True i unfolding htons_def by (simp add: bit_le_word r bit_le_bytes)
qed (simp add: htons_def bit_le_word)

lemma htonl_or: "htonl (a OR b) = htonl a OR htonl b"
  by (rule bit_word_eqI) (simp add: bit_htonl bit_or_iff)

lemma htonl_VNI: "htonl 0x08000000 = 0x00000008" by code_simp
lemma htonl_GBP: "htonl 0x80000000 = 0x00000080" by code_simp

lemma dec_enc_vxlanhdr: "dec_vxlanhdr (enc_vxlanhdr h @ frame) = h"
  by (simp add: dec_vxlanhdr_def enc_vxlanhdr_def wire_simps)

section \<open>What the receiver gets\<close>

text \<open>The receiver's reading of the flag word of a header without remote checksum offload, from its number.\<close>

lemma vxlan_recv_header:
  assumes pull: "\<And>n bs. n \<le> length bs \<Longrightarrow> vk_may_pull kn n bs" and udp: "length udp = 8" and frame: "vk_pull_header kn frame = Some inner"
    and f: "ntohl (vx_hflags h) AND VXLAN_HF_VNI \<noteq> 0" "ntohl (vx_hflags h) AND VXLAN_HF_RCO = 0"
    and v: "ntohl (vx_vni h) AND NOT VXLAN_VNI_MASK = 0"
  defines "fl \<equiv> ntohl (vx_hflags h) AND NOT VXLAN_HF_VNI"
  shows "vxlan_udp_encap_recv kn (Some vs) (udp @ enc_vxlanhdr h @ frame) =
    (if fl AND VXLAN_HF_GBP \<noteq> 0 \<and> vs_flags vs AND VXLAN_F_GBP \<noteq> 0
     then if fl AND NOT VXLAN_GBP_USED_BITS = 0 then RcvDeliver \<lparr>md_vni = vx_vni h, md_gbp = read_gbp h\<rparr> inner else RcvNotVxlan
     else if fl = 0 then RcvDeliver \<lparr>md_vni = vx_vni h, md_gbp = 0\<rparr> inner else RcvNotVxlan)"
proof -
  have len: "length (enc_vxlanhdr h) = 8" by (simp add: enc_vxlanhdr_def)
  have p: "vk_may_pull kn 16 (udp @ enc_vxlanhdr h @ frame)" by (rule pull) (use udp len in simp)
  have d: "drop 8 (udp @ enc_vxlanhdr h @ frame) = enc_vxlanhdr h @ frame" "drop 16 (udp @ enc_vxlanhdr h @ frame) = frame"
    using udp len by simp_all
  have r: "fl AND VXLAN_HF_RCO = 0"
  proof (rule bit_word_eqI)
    fix n show "bit (fl AND VXLAN_HF_RCO) n = bit (0 :: u32) n"
      using arg_cong [OF f(2), of "\<lambda>w. bit w n"] by (auto simp: fl_def bit_and_iff)
  qed
  show ?thesis
    unfolding vxlan_udp_encap_recv_def d dec_enc_vxlanhdr Let_def fl_def [symmetric]
    using p f(1) frame r v by simp
qed

definition gbp_sent :: "u32 \<Rightarrow> u32" where
  "gbp_sent mark = mark AND (0xFFFF OR VXLAN_GBP_DONT_LEARN OR VXLAN_GBP_POLICY_APPLIED)"

lemma and_bit:
  fixes w :: u32
  assumes "m = 2 ^ n" "n < 32"
  shows "w AND m \<noteq> 0 \<longleftrightarrow> bit w n" "w AND m = (if bit w n then m else 0)"
proof -
  show "w AND m \<noteq> 0 \<longleftrightarrow> bit w n" using assms by (simp add: and_exp_eq_0_iff_not_bit)
  show "w AND m = (if bit w n then m else 0)"
    by (rule bit_word_eqI) (use assms in \<open>auto simp: bit_and_iff bit_exp_iff\<close>)
qed

lemma mask_bits:
  fixes w :: u32
  shows "w AND VXLAN_HF_RCO \<noteq> 0 \<longleftrightarrow> bit w 21" "w AND VXLAN_HF_VNI \<noteq> 0 \<longleftrightarrow> bit w 27" "w AND VXLAN_HF_GBP \<noteq> 0 \<longleftrightarrow> bit w 31"
    "w AND VXLAN_GBP_DONT_LEARN = (if bit w 22 then VXLAN_GBP_DONT_LEARN else 0)"
    "w AND VXLAN_GBP_POLICY_APPLIED = (if bit w 19 then VXLAN_GBP_POLICY_APPLIED else 0)"
    "w AND 0x4000 \<noteq> 0 \<longleftrightarrow> bit w 14" "w AND 0x0800 \<noteq> 0 \<longleftrightarrow> bit w 11"
  by (rule and_bit, simp, simp)+

text \<open>The flag word of a group policy header, bit by bit.\<close>

definition gbp_flags :: "u32 \<Rightarrow> u32" where
  "gbp_flags mark = 0x88 OR (if bit mark 22 then 0x4000 else 0) OR (if bit mark 19 then 0x0800 else 0)"

lemma gbp_flags_bits:
  "k < 8 \<Longrightarrow> bit (gbp_flags mark) k \<longleftrightarrow> k = 3 \<or> k = 7" "bit (gbp_flags mark) 13 = False"
  "bit (gbp_flags mark) 14 \<longleftrightarrow> bit mark 22" "bit (gbp_flags mark) 11 \<longleftrightarrow> bit mark 19"
proof -
  assume "k < 8"
  then have "k = 0 \<or> k = 1 \<or> k = 2 \<or> k = 3 \<or> k = 4 \<or> k = 5 \<or> k = 6 \<or> k = 7" by arith
  then show "bit (gbp_flags mark) k \<longleftrightarrow> k = 3 \<or> k = 7"
    unfolding gbp_flags_def by (cases "bit mark 22"; cases "bit mark 19") auto
qed (cases "bit mark 22"; cases "bit mark 19"; simp add: gbp_flags_def)+

lemma gbp_word:
  assumes "mark \<noteq> 0"
  shows "vxlan_build_gbp_hdr \<lparr>md_vni = x, md_gbp = mark\<rparr> \<lparr>vx_hflags = htonl VXLAN_HF_VNI, vx_vni = y\<rparr> =
    \<lparr>vx_hflags = gbp_flags mark AND 0xFFFF OR push_bit 16 (ucast (htons (ucast mark))), vx_vni = y\<rparr>"
  using assms by (simp add: vxlan_build_gbp_hdr_def Let_def htonl_VNI htonl_GBP gbp_flags_def mask_bits)

lemma gbp_word_bits:
  fixes mark :: u32
  defines "w \<equiv> gbp_flags mark AND 0xFFFF OR push_bit 16 (ucast (htons (ucast mark)))"
  shows "k < 16 \<Longrightarrow> bit w k \<longleftrightarrow> bit (gbp_flags mark) k" "ucast (drop_bit 16 w) = htons (ucast mark)"
proof -
  have m: "bit (0xFFFF :: u32) n \<longleftrightarrow> n < 16" for n
    using bit_mask_iff [of 16 n, where 'a = "32 word"] by (auto simp: mask_eq_exp_minus_1)
  show "bit w k \<longleftrightarrow> bit (gbp_flags mark) k" if "k < 16"
    using that m [of k] by (simp add: w_def bit_or_iff bit_and_iff bit_push_bit_iff)
  show "ucast (drop_bit 16 w) = htons (ucast mark)"
  proof (rule bit_word_eqI)
    fix n assume "n < LENGTH(16)"
    then show "bit (ucast (drop_bit 16 w) :: u16) n = bit (htons (ucast mark)) n"
      using m [of "16 + n"] by (simp add: w_def bit_ucast_iff bit_drop_bit_eq bit_or_iff bit_and_iff bit_push_bit_iff)
  qed
qed

lemma gbp_word_number:
  fixes mark :: u32
  defines "n \<equiv> htonl (gbp_flags mark AND 0xFFFF OR push_bit 16 (ucast (htons (ucast mark))))"
  shows "bit n 27" "\<not> bit n 21" "bit n 31" "(n AND NOT VXLAN_HF_VNI) AND NOT VXLAN_GBP_USED_BITS = 0"
proof -
  let ?w = "gbp_flags mark AND 0xFFFF OR push_bit 16 (ucast (htons (ucast mark)))"
  have b: "bit n k \<longleftrightarrow> bit (gbp_flags mark) (8 * (3 - k div 8) + k mod 8)" if "16 \<le> k" "k < 32" for k
  proof -
    have "2 \<le> k div 8" using that div_le_mono [of 16 k 8] by simp
    moreover have "k mod 8 < 8" by simp
    ultimately have "8 * (3 - k div 8) + k mod 8 < 16" by linarith
    with that show ?thesis using gbp_word_bits(1) by (simp add: n_def bit_htonl)
  qed
  show "bit n 27" "\<not> bit n 21" "bit n 31" using b [of 27] b [of 21] b [of 31] gbp_flags_bits by simp_all
  show "(n AND NOT VXLAN_HF_VNI) AND NOT VXLAN_GBP_USED_BITS = 0"
  proof (rule bit_word_eqI)
    fix k assume k: "k < LENGTH(32)"
    show "bit ((n AND NOT VXLAN_HF_VNI) AND NOT VXLAN_GBP_USED_BITS) k = bit (0 :: u32) k"
    proof (cases "24 \<le> k")
      case True
      define j where "j = k - 24"
      have j: "k = 24 + j" "j < 8" using True k by (simp_all add: j_def)
      have q: "k div 8 = 3" "k mod 8 = j" using j by presburger+
      have "16 \<le> k" "k < 32" using True k by simp_all
      then have "bit n k \<longleftrightarrow> j = 3 \<or> j = 7" using b [of k] gbp_flags_bits(1) [OF j(2)] unfolding q by simp
      then show ?thesis using j by (auto simp: bit_and_iff bit_not_iff)
    next
      case False
      have "bit (VXLAN_GBP_USED_BITS) k"
        using False bit_mask_iff [of 24 k, where 'a = "32 word"] bit_or_iff [of "0x80000000 :: u32" "0xFFFFFF" k] by (simp add: mask_eq_exp_minus_1)
      then show ?thesis unfolding bit_and_iff bit_not_iff by simp
    qed
  qed
qed

lemma read_gbp_sent:
  assumes "vx_hflags h = gbp_flags mark AND 0xFFFF OR push_bit 16 (ucast (htons (ucast mark)))"
  shows "read_gbp h = gbp_sent mark"
proof -
  have u: "ucast (ucast mark :: u16) = mark AND 0xFFFF"
  proof (rule bit_word_eqI)
    fix n assume "n < LENGTH(32)"
    then show "bit (ucast (ucast mark :: u16) :: u32) n = bit (mark AND 0xFFFF) n"
      using bit_mask_iff [of 16 n, where 'a = "32 word"] by (auto simp: bit_ucast_iff bit_and_iff mask_eq_exp_minus_1)
  qed
  have d: "gbp_sent mark = (mark AND 0xFFFF) OR (mark AND VXLAN_GBP_DONT_LEARN) OR (mark AND VXLAN_GBP_POLICY_APPLIED)"
    unfolding gbp_sent_def by (simp only: bit.conj_disj_distrib or.assoc)
  have b: "bit (vx_hflags h) 14 \<longleftrightarrow> bit mark 22" "bit (vx_hflags h) 11 \<longleftrightarrow> bit mark 19"
    using gbp_word_bits(1) [of 14 mark] gbp_word_bits(1) [of 11 mark] gbp_flags_bits(3,4) assms by simp_all
  have l: "ucast (htons (ucast (drop_bit 16 (vx_hflags h)))) = mark AND 0xFFFF"
    using gbp_word_bits(2) [of mark] u assms by simp
  show ?thesis
    unfolding read_gbp_def l mask_bits d by (simp add: b or.assoc)
qed

section \<open>Round trips\<close>

definition kern_pulls :: "vx_kern \<Rightarrow> bool" where
  "kern_pulls kn \<longleftrightarrow> (\<forall>n bs. n \<le> length bs \<longrightarrow> vk_may_pull kn n bs)"

lemma vni_word:
  fixes vni :: u32
  assumes "drop_bit 24 vni = 0"
  shows "drop_bit 8 (push_bit 8 vni) = vni" "push_bit 8 vni AND NOT VXLAN_VNI_MASK = 0"
proof -
  have z: "\<not> bit vni k" if "24 \<le> k" for k
    using arg_cong [OF assms, of "\<lambda>w. bit w (k - 24)"] that by (simp add: bit_drop_bit_eq)
  show "drop_bit 8 (push_bit 8 vni) = vni"
  proof (rule bit_word_eqI)
    fix n show "bit (drop_bit 8 (push_bit 8 vni)) n = bit vni n"
      using z [of n] by (cases "24 \<le> n") (auto simp: bit_drop_bit_eq bit_push_bit_iff)
  qed
  have "bit (NOT VXLAN_VNI_MASK) k \<longleftrightarrow> k < 8" if "k < 32" for k
  proof -
    have "NOT VXLAN_VNI_MASK = (mask 8 :: u32)" by (simp add: mask_eq_exp_minus_1)
    then show ?thesis unfolding bit_mask_iff using that by (simp only: bit_mask_iff) simp
  qed
  then show "push_bit 8 vni AND NOT VXLAN_VNI_MASK = 0"
    by (intro bit_word_eqI) (auto simp: bit_and_iff bit_push_bit_iff)
qed

text \<open>The identifier with its three bytes in reverse.\<close>

definition swap24 :: "u32 \<Rightarrow> u32" where
  "swap24 v = push_bit 16 (v AND 0xFF) OR (v AND 0xFF00) OR drop_bit 16 v"

lemma swap24_spec:
  assumes "drop_bit 24 vni = 0"
  shows "drop_bit 8 (htonl vni) = swap24 vni" "htonl vni AND NOT VXLAN_VNI_MASK = 0"
proof -
  have z: "\<not> bit vni k" if "24 \<le> k" for k
    using arg_cong [OF assms, of "\<lambda>w. bit w (k - 24)"] that by (simp add: bit_drop_bit_eq)
  have FF: "(0xFF :: u32) = mask 8" "(0xFF00 :: u32) = push_bit 8 (mask 8)" "NOT VXLAN_VNI_MASK = (mask 8 :: u32)"
    by (simp_all add: mask_eq_exp_minus_1)
  show "drop_bit 8 (htonl vni) = swap24 vni"
  proof (rule bit_word_eqI)
    fix n :: nat assume "n < LENGTH(32)"
    then have "n \<in> {0..<32}" by simp
    then have "n < 8 \<or> 8 \<le> n \<and> n < 16 \<or> 16 \<le> n \<and> n < 24 \<or> 24 \<le> n \<and> n < 32" by auto
    then show "bit (drop_bit 8 (htonl vni)) n = bit (swap24 vni) n"
    proof (elim disjE)
      assume n: "n < 8"
      then have "(8 + n) div 8 = 1" "(8 + n) mod 8 = n" by simp_all
      then show ?thesis using n by (simp add: swap24_def FF bit_drop_bit_eq bit_htonl bit_or_iff bit_and_iff bit_push_bit_iff bit_mask_iff)
    next
      assume n: "8 \<le> n \<and> n < 16"
      define j where "j = n - 8"
      have j: "n = 8 + j" "j < 8" using n unfolding j_def by linarith+
      moreover from j(2) have "(16 + j) div 8 = 2" "(16 + j) mod 8 = j" by presburger+
      ultimately show ?thesis using z [of "24 + j"] by (simp add: swap24_def FF bit_drop_bit_eq bit_htonl bit_or_iff bit_and_iff bit_push_bit_iff bit_mask_iff)
    next
      assume n: "16 \<le> n \<and> n < 24"
      define j where "j = n - 16"
      have j: "n = 16 + j" "j < 8" using n unfolding j_def by linarith+
      moreover from j(2) have "(24 + j) div 8 = 3" "(24 + j) mod 8 = j" by presburger+
      ultimately show ?thesis using z [of "32 + j"] by (simp add: swap24_def FF bit_drop_bit_eq bit_htonl bit_or_iff bit_and_iff bit_push_bit_iff bit_mask_iff)
    next
      assume n: "24 \<le> n \<and> n < 32"
      then show ?thesis using z [of n] z [of "16 + n"]
        by (auto simp: swap24_def FF bit_drop_bit_eq bit_htonl bit_or_iff bit_and_iff bit_push_bit_iff bit_mask_iff)
    qed
  qed
  show "htonl vni AND NOT VXLAN_VNI_MASK = 0"
  proof (rule bit_word_eqI)
    fix n :: nat assume "n < LENGTH(32)"
    show "bit (htonl vni AND NOT VXLAN_VNI_MASK) n = bit (0 :: u32) n"
      unfolding FF(3) using z [of "24 + n"] by (cases "n < 8") (simp_all add: bit_and_iff bit_mask_iff bit_htonl)
  qed
qed

lemma recv_offloaded:
  assumes "drop_bit 24 vni = 0" "kern_pulls kn" "length udp = 8" "vk_pull_header kn frame = Some inner"
  shows "vxlan_udp_encap_recv kn (Some vs) (udp @ enc_vxlanhdr \<lparr>vx_hflags = htonl VXLAN_HF_VNI, vx_vni = vni\<rparr> @ frame) =
    RcvDeliver \<lparr>md_vni = vni, md_gbp = 0\<rparr> inner"
proof -
  have pull: "n \<le> length bs \<Longrightarrow> vk_may_pull kn n bs" for n bs using assms(2) by (simp add: kern_pulls_def)
  show ?thesis
    using vxlan_recv_header [OF pull assms(3,4), of "\<lparr>vx_hflags = htonl VXLAN_HF_VNI, vx_vni = vni\<rparr>" vs] swap24_spec [OF assms(1)] by simp
qed

end
