(* ===== verification/Vxlan_Stack.thy ===== *)
theory Vxlan_Stack
  imports Vxlan_Props Vxlan_Wire
begin

text \<open>
  What the VXLAN driver promises: headers and configurations that survive the way out and back,
  messages that fit, answers to neighbour requests, replies that go where the frames came from; and
  where it does not keep to it: identifiers on the offloaded path, options of length zero, devices
  that are closed and opened again.
\<close>

section \<open>Neighbour solicitations\<close>

text \<open>The walk is at an option of length zero, now or later.\<close>

inductive options_stuck :: "u8 list \<Rightarrow> nat \<Rightarrow> bool" for opts where
  stuck_here: "Suc i < length opts \<Longrightarrow> opts ! i \<noteq> 1 \<Longrightarrow> opts ! Suc i = 0 \<Longrightarrow> options_stuck opts i"
| stuck_later: "Suc i < length opts \<Longrightarrow> opts ! i \<noteq> 1 \<Longrightarrow> options_stuck opts (i + 8 * unat (opts ! Suc i)) \<Longrightarrow> options_stuck opts i"

lemma na_options_sound:
  assumes "na_options opts i = Some r"
  shows "\<not> options_stuck opts i"
proof (rule na_options.raw_induct [where P = "\<lambda>opts i _. \<not> options_stuck opts i", OF _ assms])
  fix f :: "u8 list \<Rightarrow> nat \<Rightarrow> nat option option" and opts i r
  assume IH: "\<And>opts i r. f opts i = Some r \<Longrightarrow> \<not> options_stuck opts i"
    and run: "(if Suc i < length opts then if opts ! i = 1 then Some (Some i) else f opts (i + 8 * unat (opts ! Suc i)) else Some None) = Some r"
  show "\<not> options_stuck opts i"
  proof
    assume s: "options_stuck opts i"
    then have c: "Suc i < length opts" "opts ! i \<noteq> 1" by (auto elim: options_stuck.cases)
    with run IH have n: "\<not> options_stuck opts (i + 8 * unat (opts ! Suc i))" by auto
    from s n show False by (cases rule: options_stuck.cases) (use s in auto)
  qed
qed

lemma na_options_total: "\<not> options_stuck opts i \<Longrightarrow> \<exists>r. na_options opts i = Some r"
proof (induction "length opts - i" arbitrary: i rule: less_induct)
  case less
  show ?case
  proof (cases "Suc i < length opts \<and> opts ! i \<noteq> 1")
    case True
    with less.prems have nz: "opts ! Suc i \<noteq> 0" and ns: "\<not> options_stuck opts (i + 8 * unat (opts ! Suc i))"
      using stuck_here stuck_later by blast+
    then have "unat (opts ! Suc i) > 0" by (simp add: unat_gt_0)
    then have "length opts - (i + 8 * unat (opts ! Suc i)) < length opts - i" using True by linarith
    from less.hyps [OF this ns] show ?thesis using True by (subst na_options.simps) simp
  qed (subst na_options.simps, auto)
qed

text \<open>Property C36: the walk over the options of a neighbour solicitation that the proxy answers ends
  exactly when it meets no option of length zero before a source link-layer address. Otherwise
  it stays at that option for ever, on whatever processor sends the frame.\<close>

theorem option_walk_ends: "(\<exists>r. na_options opts i = Some r) \<longleftrightarrow> \<not> options_stuck opts i"
  using na_options_sound na_options_total by blast

section \<open>Sizes\<close>

definition fdb_well_formed :: "vxlan_fdb \<Rightarrow> vxlan_rdst \<Rightarrow> bool" where
  "fdb_well_formed f rd \<longleftrightarrow> length (f_eth_addr f) = 6 \<and> length (addr_bytes (rd_ip rd)) \<le> 16"

lemma attrs_size_app [simp]: "attrs_size (as @ bs) = attrs_size as + attrs_size bs" "attrs_size [] = 0"
  "attrs_size ((t, b) # as) = nla_total_size (length b) + attrs_size as"
  by (simp_all add: attrs_size_def)

lemma nla_total_mono: "n \<le> m \<Longrightarrow> nla_total_size n \<le> nla_total_size m"
  unfolding nla_total_size_def by (intro mult_le_mono1 div_le_mono) simp

text \<open>A message made for a change of the forwarding table fits the buffer that
  \<^verbatim>\<open>vxlan_nlmsg_size\<close> announces (behind the 16 bytes of the netlink header), whatever the entry,
  the remote and the kind of change, so the warning about a miscalculated size never fires.\<close>

lemma notification_fits:
  assumes "fdb_well_formed f rd" "\<forall>i. netnsid = Some i \<longrightarrow> length i = 4" "length cacheinfo = 16" "nb_room b = 16 + vxlan_nlmsg_size"
  shows "fst (vxlan_fdb_info v f netnsid cacheinfo ty rd b) = 0"
proof -
  have d: "nla_total_size (length (addr_bytes (rd_ip rd))) \<le> 20"
    using nla_total_mono [of "length (addr_bytes (rd_ip rd))" 16] assms(1) by (simp add: fdb_well_formed_def)
  have n: "attrs_size (case netnsid of None \<Rightarrow> [] | Some i \<Rightarrow> [(NDA_LINK_NETNSID, i)]) \<le> 8"
    using assms(2) by (cases netnsid) simp_all
  have e: "length (f_eth_addr f) = 6" using assms(1) by (simp add: fdb_well_formed_def)
  have "attrs_size (fdb_info_attrs v f netnsid cacheinfo ty rd) \<le> 8 + (12 + (20 + (8 + (8 + (8 + 20)))))"
    unfolding fdb_info_attrs_def Let_def attrs_size_app by (intro add_mono n) (use d e assms(3) in simp_all)
  then show ?thesis using assms(4) by (simp add: vxlan_fdb_info_def vxlan_nlmsg_size_def put_all_fits)
qed

lemma notification_fits_witness:
  "fst (vxlan_fdb_info (vxlan_setup 8472)
     \<lparr>f_updated = 0, f_used = 0, f_remotes = [], f_state = 2, f_flags = 2, f_eth_addr = [2, 0, 0, 0, 0, 1]\<rparr> (Some [0, 0, 0, 1]) (replicate 16 7)
     RTM_NEWNEIGH \<lparr>rd_ip = IN6 (replicate 16 1), rd_port = 5, rd_vni = 9, rd_ifindex = 3\<rparr> \<lparr>nb_room = 112, nb_attrs = []\<rparr>) = 0"
  by (rule notification_fits) (simp_all add: fdb_well_formed_def addr_bytes_def vxlan_nlmsg_size_def)

definition addr_ok :: "vxlan_addr \<Rightarrow> bool" where
  "addr_ok a = (case a of IN4 _ \<Rightarrow> True | IN6 bs \<Rightarrow> length bs = 16)"

lemma addr_attr_size:
  "addr_ok a \<Longrightarrow> attrs_size (addr_attr t4 t6 a) = (if vxlan_addr_any a then 0 else if is_ipv6 a then 20 else 8)"
  by (auto simp: addr_attr_def addr_ok_def is_ipv6_def split: vxlan_addr.splits)

lemma vxlan_attrs_size:
  assumes "addr_ok (rd_ip (vx_default_dst v))" "addr_ok (vx_saddr v)"
  shows "attrs_size (vxlan_attrs v) =
    136 + (if rd_ifindex (vx_default_dst v) \<noteq> 0 then 8 else 0) +
    (if vxlan_addr_any (rd_ip (vx_default_dst v)) then 0 else if is_ipv6 (rd_ip (vx_default_dst v)) then 20 else 8) +
    (if vxlan_addr_any (vx_saddr v) then 0 else if is_ipv6 (vx_saddr v) then 20 else 8) +
    (if vx_flags v AND VXLAN_F_GBP \<noteq> 0 then 4 else 0) + (if vx_flags v AND VXLAN_F_REMCSUM_NOPARTIAL \<noteq> 0 then 4 else 0)"
  using assms by (simp add: vxlan_attrs_def Let_def addr_attr_size flag_byte_def nla_total_size_def)

text \<open>The dump of a device fits the size announced for it, with one exception:
  the size leaves out the two flag attributes, so a device with two IPv6 addresses over another
  device does not fit when group policy or no-partial checksums are on.\<close>

lemma config_dump_fits:
  assumes "addr_ok (rd_ip (vx_default_dst v))" "addr_ok (vx_saddr v)"
  shows "(\<exists>b. vxlan_fill_info v \<lparr>nb_room = vxlan_get_size, nb_attrs = []\<rparr> = Inr b) \<longleftrightarrow>
    \<not> (is_ipv6 (rd_ip (vx_default_dst v)) \<and> \<not> vxlan_addr_any (rd_ip (vx_default_dst v)) \<and>
       is_ipv6 (vx_saddr v) \<and> \<not> vxlan_addr_any (vx_saddr v) \<and> rd_ifindex (vx_default_dst v) \<noteq> 0 \<and>
       (vx_flags v AND VXLAN_F_GBP \<noteq> 0 \<or> vx_flags v AND VXLAN_F_REMCSUM_NOPARTIAL \<noteq> 0))"
  using vxlan_attrs_size [OF assms] by (simp add: vxlan_fill_info_def put_all_fits vxlan_get_size_def)

lemma config_dump_fits_example:
  "\<exists>b. vxlan_fill_info (vxlan_setup 8472) \<lparr>nb_room = vxlan_get_size, nb_attrs = []\<rparr> = Inr b"
  by (subst config_dump_fits) (simp_all add: vxlan_setup_def addr_ok_def is_ipv6_def)

end
