(* ===== verification/Vxlan_Path.thy ===== *)
theory Vxlan_Path
  imports Vxlan_Stack
begin

text \<open>
  The data path of a VXLAN device as a whole: a reply goes where the frame came from, a frame with a
  zero source address takes over the default destination, the neighbour proxy answers from the
  host's table, and what becomes of a device that is closed.
\<close>

section \<open>What learning leaves alone\<close>

definition vx_config :: "vxlan_dev \<Rightarrow> vxlan_dev" where
  "vx_config v = v\<lparr>vx_fdb := [], vx_mem := 0, vx_notified := [], vx_addrcnt := 0\<rparr>"

lemma config_eqD:
  assumes "vx_config v = vx_config v'"
  shows "vx_flags v = vx_flags v'" "vx_mcdev v = vx_mcdev v'" "vx_default_dst v = vx_default_dst v'" "vx_saddr v = vx_saddr v'"
    "vx_dst_port v = vx_dst_port v'" "vx_tos v = vx_tos v'" "vx_ttl v = vx_ttl v'" "vx_port_min v = vx_port_min v'" "vx_port_max v = vx_port_max v'"
    "vx_addrmax v = vx_addrmax v'" "vx_age_interval v = vx_age_interval v'"
  using assms by (cases v; cases v'; simp add: vx_config_def)+

lemma config_simps [simp]:
  "vx_config (put_fdb hash f v) = vx_config v" "vx_config (vxlan_fdb_notify ty f rd v) = vx_config v"
  "vx_config (v\<lparr>vx_mem := m\<rparr>) = vx_config v" "vx_config (v\<lparr>vx_addrcnt := c\<rparr>) = vx_config v" "vx_config (v\<lparr>vx_fdb := t\<rparr>) = vx_config v"
  by (simp_all add: vx_config_def put_fdb_def vxlan_fdb_notify_def Let_def)

lemma config_new: "fdb_new hash t v mac rd state flags nf = Some (rc, v') \<Longrightarrow> vx_config v' = vx_config v"
  by (auto simp: fdb_new_def fdb_notify_new_def Let_def bind_eq_Some_conv split: if_splits prod.splits)

lemma config_find: "vxlan_find_mac hash t v mac = (f, v') \<Longrightarrow> vx_config v' = vx_config v"
  by (auto simp: vxlan_find_mac_def Let_def split: option.splits)

lemma config_snoop:
  assumes "vxlan_snoop hash t running ip mac v = Some (bad, v')"
  shows "vx_config v' = vx_config v"
proof (cases "find_mac hash v mac")
  case None
  then show ?thesis using assms config_new
    by (fastforce simp: vxlan_snoop_def vxlan_find_mac_def vxlan_fdb_create_def bind_eq_Some_conv split: if_splits)
next
  case (Some f)
  then show ?thesis using assms
    by (auto simp: vxlan_snoop_def vxlan_find_mac_def bind_eq_Some_conv Let_def split: if_splits)
qed

lemma world_simps [simp]:
  "vw_dev (set_dev d v w) = (vw_dev w)(d := v)" "vw_dev (count_dev f d w) = vw_dev w" "vw_dev (happens e w) = vw_dev w"
  "vw_log (set_dev d v w) = vw_log w" "vw_log (count_dev f d w) = vw_log w" "vw_log (happens e w) = vw_log w @ [e]"
  "vw_dev_addr (set_dev d v w) = vw_dev_addr w"
  by (simp_all add: set_dev_def count_dev_def happens_def)

lemma vw_log_error [simp]: "vw_log (tx_error d w) = vw_log w" "vw_dev (tx_error d w) = vw_dev w"
  by (simp_all add: tx_error_def)

section \<open>A reply follows its frame\<close>

definition kern_plain :: "vx_kern \<Rightarrow> bool" where
  "kern_plain kn \<longleftrightarrow> kern_pulls kn \<and> (\<forall>n. vk_cow_head kn n) \<and> (\<forall>skb. vk_push_vlan kn skb = Some skb) \<and>
     (\<forall>u r skb. vk_offloads kn u r skb = Inr skb) \<and> vk_clone kn"

lemma encapsulate_plain:
  "kern_plain kn \<Longrightarrow> vxflags AND VXLAN_F_REMCSUM_TX = 0 \<Longrightarrow>
    encapsulate kn n u off vxflags md skb = Inr (enc_vxlanhdr (make_vxlanhdr vxflags md False skb) @ vs_data skb)"
  by (simp add: encapsulate_def kern_plain_def remcsum_tx_def Let_def)

text \<open>The datagram a frame goes out in.\<close>

definition sent_to :: "vx_kern \<Rightarrow> vx_route \<Rightarrow> vx_skb \<Rightarrow> u32 \<Rightarrow> vxlan_rdst \<Rightarrow> vxlan_dev \<Rightarrow> u8 \<Rightarrow> u8 \<Rightarrow> vx_event" where
  "sent_to kn rt skb x rd v tos ttl =
     Sent rt (IN4 (sin_addr (rt_src rt))) (IN4 x) tos ttl (vk_src_port kn skb (vx_port_min v) (vx_port_max v))
       (if rd_port rd \<noteq> 0 then rd_port rd else vx_dst_port v) (vx_flags v AND VXLAN_F_UDP_CSUM = 0)
       (enc_vxlanhdr (make_vxlanhdr (vx_flags v) \<lparr>md_vni = htonl (push_bit 8 (rd_vni rd)), md_gbp = vs_mark skb\<rparr> False skb) @ vs_data skb)"

lemma sent_to_config: "vx_config v = vx_config v' \<Longrightarrow> sent_to kn rt skb x rd v = sent_to kn rt skb x rd v'"
  by (intro ext) (use config_eqD [of v v'] in \<open>simp add: sent_to_def\<close>)

text \<open>The device is open on a live socket.\<close>

definition opened :: "addr \<Rightarrow> vx_world \<Rightarrow> bool" where
  "opened d w \<longleftrightarrow> (case vw_vn_sock w d of None \<Rightarrow> False | Some a \<Rightarrow> vw_sock w a \<noteq> None)"

lemma opened_simps [simp]:
  "opened d (set_dev e v w) = opened d w" "opened d (count_dev g e w) = opened d w" "opened d (happens x w) = opened d w"
  by (simp_all add: opened_def set_dev_def count_dev_def happens_def split: option.split)

text \<open>A frame to an IPv4 remote that is routed to another host.\<close>

lemma xmit_one_sent:
  assumes kn: "kern_plain kn" and v: "vw_dev w d = v" and f: "vx_flags v AND VXLAN_F_REMCSUM_TX = 0"
    and rd: "rd_ip rd = IN4 x" "x \<noteq> 0" and up: "opened d w"
    and rt: "\<And>tos. vk_route kn (rd_ifindex rd) tos (vs_mark skb) (IN4 x) (IN4 (sin_addr (vx_saddr v))) = Some rt" "rt_dev rt \<noteq> d" "\<not> rt_local rt"
  shows "\<exists>w' tos ttl. vxlan_xmit_one kn t skb d rd did_rsc w = Some w' \<and> vw_dev w' = vw_dev w \<and>
    vw_log w' = vw_log w @ [sent_to kn rt skb x rd v tos ttl]"
proof -
  have any: "\<not> vxlan_addr_any (IN4 x)" using rd(2) by (simp add: vxlan_addr_any_def)
  have addr: "\<not> is_ipv6 (IN4 x)" "sin_addr (IN4 x) = x" by (simp_all add: is_ipv6_def sin_addr_def)
  from up obtain a vs where sock: "vw_vn_sock w d = Some a" "vw_sock w a = Some vs" by (auto simp: opened_def split: option.splits)
  show ?thesis
    unfolding vxlan_xmit_one_def Let_def v rd(1) xmit_one_v4_def vxlan_xmit_skb_def
    using any addr rt encapsulate_plain [OF kn f] by (auto simp: v sock Let_def sent_to_def)
qed

text \<open>The entry a frame goes by: its destination's, or the default one.\<close>

lemma xmit_entry:
  assumes kn: "kern_plain kn" and ok: "fdb_ok (vk_hash kn) (vw_dev w d)"
    and key: "key = dst_mac (vs_data skb) \<or> find_mac (vk_hash kn) (vw_dev w d) (dst_mac (vs_data skb)) = None \<and> key = all_zeros_mac"
    and f: "find_mac (vk_hash kn) (vw_dev w d) key = Some f" "f_remotes f = [rd]"
    and fl: "vx_flags (vw_dev w d) AND VXLAN_F_PROXY = 0" "vx_flags (vw_dev w d) AND VXLAN_F_RSC = 0" "vx_flags (vw_dev w d) AND VXLAN_F_REMCSUM_TX = 0"
    and mc: "enable \<longrightarrow> vx_mcdev (vw_dev w d) = None" and up: "opened d w"
    and rd: "rd_ip rd = IN4 x" "x \<noteq> 0"
    and rt: "\<And>tos. vk_route kn (rd_ifindex rd) tos (vs_mark skb) (IN4 x) (IN4 (sin_addr (vx_saddr (vw_dev w d)))) = Some rt" "rt_dev rt \<noteq> d" "\<not> rt_local rt"
  shows "\<exists>w' tos ttl. vxlan_xmit kn enable t skb d w = Some (0, w') \<and>
    vw_log w' = vw_log w @ [sent_to kn rt skb x rd (vw_dev w d) tos ttl]"
proof -
  let ?v = "vw_dev w d" and ?f = "f\<lparr>f_used := t\<rparr>"
  let ?v1 = "put_fdb (vk_hash kn) ?f ?v"
  let ?w1 = "set_dev d ?v1 w"
  note u = find_used_ok [OF ok f(1), where jiffies = t]
  have cfg: "vx_config ?v1 = vx_config ?v" by simp
  note c = config_eqD [OF cfg]
  have d1: "vw_dev ?w1 d = ?v1" by simp
  obtain w' tos ttl where one: "vxlan_xmit_one kn t skb d rd False ?w1 = Some w'"
      "vw_log w' = vw_log ?w1 @ [sent_to kn rt skb x rd ?v1 tos ttl]"
    using xmit_one_sent [OF kn d1, of rd x skb rt t False] rd rt fl(3) c up by auto
  have look: "xmit_lookup kn t d skb w = Some (False, skb, Some ?f, ?w1)"
  proof (cases "find_mac (vk_hash kn) ?v (dst_mac (vs_data skb))")
    case None
    then have miss: "find_mac_dev kn t d (dst_mac (vs_data skb)) w = (None, w)" by (simp add: find_mac_dev_def vxlan_find_mac_def set_dev_def)
    have "key = all_zeros_mac" using None key f(1) by auto
    then show ?thesis using u(1) miss by (simp add: xmit_lookup_def find_mac_dev_def)
  next
    case (Some g)
    then have "key = dst_mac (vs_data skb)" using key by simp
    then show ?thesis using u(1) fl(2) c(1) by (simp add: xmit_lookup_def find_mac_dev_def Let_def)
  qed
  have remotes: "xmit_remotes kn t skb d False ?f ?w1 = Some w'"
    using f(2) u(4,5) one(1) by (simp add: xmit_remotes_def first_remote_def)
  have "vxlan_xmit kn enable t skb d w = Some (0, w')"
    using fl(1) mc look remotes by (simp add: vxlan_xmit_def vxlan_proxy_def)
  then show ?thesis using one(2) sent_to_config [OF cfg] by auto
qed

text \<open>Receiving a frame from an IPv4 sender, in a device that learns.\<close>

definition oip_saddr :: "u8 list \<Rightarrow> u32" where
  "oip_saddr oip = le_word (take 4 (drop 12 oip))"

lemma rcv_learns:
  assumes "vxlan_vs_find_vni kn vs (drop_bit 8 (ntohl (md_vni md))) w = Some d" "src_mac frame \<noteq> vw_dev_addr w d"
    "vx_flags (vw_dev w d) AND VXLAN_F_LEARN \<noteq> 0" "\<not> is_ipv6 (rd_ip (vx_default_dst (vw_dev w d)))"
    "vxlan_snoop (vk_hash kn) t (vk_running kn d) (IN4 (oip_saddr oip)) (src_mac frame) (vw_dev w d) = Some (False, v')"
    "vk_ecn_decap kn False oip frame = (e, inner)" "e \<le> 1"
  shows "\<exists>w'. vxlan_rcv kn t vs oip md frame w = Some w' \<and> vw_dev w' d = v' \<and> opened d w' = opened d w \<and> vw_log w' = vw_log w @ [Received d inner (md_gbp md)]"
  using assms by (auto simp: vxlan_rcv_def snoop_dev_def oip_saddr_def Let_def)

text \<open>Property C10: a device that learns receives a frame of an unknown sender from a host. A frame
  sent back to that sender then goes to that host alone, in one datagram with the device's port and
  identifier, if the table had room for the new entry.\<close>

theorem reply_follows_frame:
  assumes dev: "vxlan_vs_find_vni kn vs (drop_bit 8 (ntohl (md_vni md))) w = Some d"
    and sock: "vw_vn_sock w d = Some a" "vw_sock w a = Some vs"
    and ok: "fdb_ok (vk_hash kn) (vw_dev w d)" "fdb_bounded (vw_dev w d)" "vx_mem (vw_dev w d) \<ge> 2"
    and room: "vx_addrmax (vw_dev w d) = 0 \<or> length (fdb_entries (vw_dev w d)) < unat (vx_addrmax (vw_dev w d))"
    and fl: "vx_flags (vw_dev w d) AND VXLAN_F_LEARN \<noteq> 0" "vx_flags (vw_dev w d) AND VXLAN_F_PROXY = 0" "vx_flags (vw_dev w d) AND VXLAN_F_RSC = 0"
      "vx_flags (vw_dev w d) AND VXLAN_F_REMCSUM_TX = 0" "\<not> is_ipv6 (rd_ip (vx_default_dst (vw_dev w d)))"
    and frame: "src_mac frame \<noteq> vw_dev_addr w d" "find_mac (vk_hash kn) (vw_dev w d) (src_mac frame) = None" "vk_running kn d"
      "vk_ecn_decap kn False oip frame = (e, inner)" "e \<le> 1" "oip_saddr oip \<noteq> 0"
    and reply: "dst_mac (vs_data skb) = src_mac frame" "enable \<longrightarrow> vx_mcdev (vw_dev w d) = None" "kern_plain kn"
    and rt: "\<And>tos. vk_route kn 0 tos (vs_mark skb) (IN4 (oip_saddr oip)) (IN4 (sin_addr (vx_saddr (vw_dev w d)))) = Some rt" "rt_dev rt \<noteq> d" "\<not> rt_local rt"
  shows "\<exists>w1 w2 tos ttl. vxlan_rcv kn t vs oip md frame w = Some w1 \<and> vxlan_xmit kn enable t2 skb d w1 = Some (0, w2) \<and>
    vw_log w2 = vw_log w @ [Received d inner (md_gbp md),
      sent_to kn rt skb (oip_saddr oip) ((vx_default_dst (vw_dev w d))\<lparr>rd_ip := IN4 (oip_saddr oip), rd_port := vx_dst_port (vw_dev w d), rd_ifindex := 0\<rparr>)
        (vw_dev w d) tos ttl]"
proof -
  let ?v = "vw_dev w d" and ?x = "oip_saddr oip"
  let ?rd = "\<lparr>rd_ip = IN4 ?x, rd_port = vx_dst_port ?v, rd_vni = rd_vni (vx_default_dst ?v), rd_ifindex = 0\<rparr>"
  have rd: "(vx_default_dst ?v)\<lparr>rd_ip := IN4 ?x, rd_port := vx_dst_port ?v, rd_ifindex := 0\<rparr> = ?rd" by simp
  have mem: "vx_mem ?v \<noteq> 1" "vx_mem ?v \<noteq> 0" using ok(3) by simp_all
  from snoop_ok [OF ok(1,2) mem(1), of t "vk_running kn d" "IN4 ?x" "src_mac frame"] obtain v' f where
    s: "vxlan_snoop (vk_hash kn) t (vk_running kn d) (IN4 ?x) (src_mac frame) ?v = Some (False, v')" "fdb_ok (vk_hash kn) v'"
      "find_mac (vk_hash kn) v' (src_mac frame) = Some f" "f_remotes f = [?rd]"
    using frame(2,3) room mem(2) by auto
  note cfg = config_snoop [OF s(1)]
  note c = config_eqD [OF cfg]
  obtain w1 where w1: "vxlan_rcv kn t vs oip md frame w = Some w1" "vw_dev w1 d = v'" "opened d w1 = opened d w" "vw_log w1 = vw_log w @ [Received d inner (md_gbp md)]"
    using rcv_learns [OF dev frame(1) fl(1,5) s(1) frame(4,5)] by blast
  have key: "src_mac frame = dst_mac (vs_data skb) \<or> find_mac (vk_hash kn) (vw_dev w1 d) (dst_mac (vs_data skb)) = None \<and> src_mac frame = all_zeros_mac"
    using reply(1) by simp
  have up: "opened d w1" using w1(3) sock by (simp add: opened_def)
  have "\<exists>w2 tos ttl. vxlan_xmit kn enable t2 skb d w1 = Some (0, w2) \<and>
      vw_log w2 = vw_log w1 @ [sent_to kn rt skb ?x ?rd ?v tos ttl]"
    using xmit_entry [OF reply(3) _ key, of f ?rd enable ?x rt t2] s fl reply(2) rt frame(6) w1(2) c up sent_to_config [OF cfg] by simp
  then show ?thesis unfolding rd using w1 by auto
qed

text \<open>Property C34: the default destination of a device that learns is an entry like any other, under
  the address of all zeros. A frame whose source address is all zeros rewrites it, permanent as it
  is: the device's frames to unknown destinations then go to whoever sent that frame.\<close>

theorem zero_source_takes_default:
  assumes dev: "vxlan_vs_find_vni kn vs (drop_bit 8 (ntohl (md_vni md))) w = Some d"
    and sock: "vw_vn_sock w d = Some a" "vw_sock w a = Some vs"
    and ok: "fdb_ok (vk_hash kn) (vw_dev w d)" "fdb_bounded (vw_dev w d)" "vx_mem (vw_dev w d) \<noteq> 1"
    and def: "find_mac (vk_hash kn) (vw_dev w d) all_zeros_mac = Some f" "f_remotes f = [rd]" "f_state f = NUD_REACHABLE OR NUD_PERMANENT"
    and fl: "vx_flags (vw_dev w d) AND VXLAN_F_LEARN \<noteq> 0" "vx_flags (vw_dev w d) AND VXLAN_F_PROXY = 0" "vx_flags (vw_dev w d) AND VXLAN_F_RSC = 0"
      "vx_flags (vw_dev w d) AND VXLAN_F_REMCSUM_TX = 0" "\<not> is_ipv6 (rd_ip (vx_default_dst (vw_dev w d)))"
    and frame: "src_mac frame = all_zeros_mac" "vw_dev_addr w d \<noteq> all_zeros_mac"
      "vk_ecn_decap kn False oip frame = (e, inner)" "e \<le> 1" "oip_saddr oip \<noteq> 0"
    and later: "find_mac (vk_hash kn) (vw_dev w d) (dst_mac (vs_data skb)) = None" "enable \<longrightarrow> vx_mcdev (vw_dev w d) = None" "kern_plain kn"
    and rt: "\<And>tos. vk_route kn (rd_ifindex rd) tos (vs_mark skb) (IN4 (oip_saddr oip)) (IN4 (sin_addr (vx_saddr (vw_dev w d)))) = Some rt" "rt_dev rt \<noteq> d" "\<not> rt_local rt"
  shows "\<exists>w1 w2 tos ttl. vxlan_rcv kn t vs oip md frame w = Some w1 \<and> vxlan_xmit kn enable t2 skb d w1 = Some (0, w2) \<and>
    vw_log w2 = vw_log w @ [Received d inner (md_gbp md), sent_to kn rt skb (oip_saddr oip) (rd\<lparr>rd_ip := IN4 (oip_saddr oip)\<rparr>) (vw_dev w d) tos ttl]"
proof -
  let ?v = "vw_dev w d" and ?x = "oip_saddr oip"
  have noarp: "f_state f AND NUD_NOARP = 0" by (simp add: def(3))
  from snoop_ok [OF ok, of t "vk_running kn d" "IN4 ?x" all_zeros_mac] obtain v' f' where
    s: "vxlan_snoop (vk_hash kn) t (vk_running kn d) (IN4 ?x) all_zeros_mac ?v = Some (False, v')" "fdb_ok (vk_hash kn) v'"
      "\<And>m. m \<noteq> all_zeros_mac \<Longrightarrow> find_mac (vk_hash kn) v' m = find_mac (vk_hash kn) ?v m"
      "find_mac (vk_hash kn) v' all_zeros_mac = Some f'" "f_remotes f' = [rd\<lparr>rd_ip := IN4 ?x\<rparr>]"
    using def(1,2) noarp by auto
  note cfg = config_snoop [OF s(1)]
  note c = config_eqD [OF cfg]
  have src: "src_mac frame \<noteq> vw_dev_addr w d" using frame(1,2) by auto
  obtain w1 where w1: "vxlan_rcv kn t vs oip md frame w = Some w1" "vw_dev w1 d = v'" "opened d w1 = opened d w" "vw_log w1 = vw_log w @ [Received d inner (md_gbp md)]"
    using rcv_learns [OF dev src fl(1,5) _ frame(3,4)] s(1) frame(1) by auto
  have "dst_mac (vs_data skb) \<noteq> all_zeros_mac" using later(1) def(1) by auto
  then have key: "all_zeros_mac = dst_mac (vs_data skb) \<or> find_mac (vk_hash kn) (vw_dev w1 d) (dst_mac (vs_data skb)) = None \<and> all_zeros_mac = all_zeros_mac"
    using s(3) later(1) w1(2) by simp
  have up: "opened d w1" using w1(3) sock by (simp add: opened_def)
  have "\<exists>w2 tos ttl. vxlan_xmit kn enable t2 skb d w1 = Some (0, w2) \<and>
      vw_log w2 = vw_log w1 @ [sent_to kn rt skb ?x (rd\<lparr>rd_ip := IN4 ?x\<rparr>) ?v tos ttl]"
    using xmit_entry [OF later(3) _ key, of f' "rd\<lparr>rd_ip := IN4 ?x\<rparr>" enable ?x rt t2] s fl later(2) rt frame(5) w1(2) c up sent_to_config [OF cfg] by simp
  then show ?thesis using w1 by auto
qed

text \<open>A device with a default destination, on a kernel that lets everything through.\<close>

definition demo_rt :: vx_route where
  "demo_rt = \<lparr>rt_dev = 1, rt_local = False, rt_group = False, rt_hoplimit = 64, rt_src = IN4 7, rt_reserved = 16\<rparr>"

definition demo_vkern :: vx_kern where
  "demo_vkern = \<lparr>vk_hash = (\<lambda>_. 0), vk_hash32 = (\<lambda>_ _. 0), vk_running = (\<lambda>_. True), vk_may_pull = (\<lambda>n bs. n \<le> length bs),
     vk_pull_header = Some, vk_remcsum = (\<lambda>_ _ _ bs. bs), vk_ecn_decap = (\<lambda>_ _ bs. (0, bs)), vk_up = (\<lambda>_. True),
     vk_neigh4 = [9 \<mapsto> \<lparr>ng_state = 2, ng_ha = [2, 0, 0, 0, 0, 9], ng_key6 = []\<rparr>], vk_neigh6 = (\<lambda>_. None), vk_in6_dev = (\<lambda>_. True),
     vk_arp_reply = (\<lambda>sip tip sha ha tha. Some (sha @ ha @ le_bytes 4 tip @ le_bytes 4 sip)), vk_alloc = True, vk_csum6 = (\<lambda>_ _ _. 0),
     vk_cow_head = (\<lambda>_. True), vk_push_vlan = Some, vk_offloads = (\<lambda>_ _ skb. Inr skb), vk_route = (\<lambda>_ _ _ _ _. Some demo_rt),
     vk_src_port = (\<lambda>_ lo hi. lo), vk_dsfield = (\<lambda>_. 0), vk_ecn_encap = (\<lambda>tos _. tos), vk_udp_xmit = (\<lambda>bs. int (length bs)),
     vk_queue = (\<lambda>_. 0), vk_clone = True, vk_hz = 250, vk_lowerdev = (\<lambda>_. None), vk_eth_mtu_ok = (\<lambda>_. True), vk_mc_join = (\<lambda>_ _. 0),
     vk_mc_leave = (\<lambda>_ _. 0), vk_sock_create = (\<lambda>_ _. 0), vk_kzalloc = Some 8, vk_tstats = True, vk_register = 0,
     vk_netdevs = [1], vk_port_ops = (\<lambda>_. True), vk_add_offload = 0\<rparr>"

definition demo_default :: vxlan_fdb where
  "demo_default = \<lparr>f_updated = 0, f_used = 0, f_remotes = [\<lparr>rd_ip = IN4 5, rd_port = 4789, rd_vni = 42, rd_ifindex = 0\<rparr>],
     f_state = NUD_REACHABLE OR NUD_PERMANENT, f_flags = NTF_SELF, f_eth_addr = all_zeros_mac\<rparr>"

definition demo_vdev :: vxlan_dev where
  "demo_vdev = (vxlan_setup 8472)\<lparr>vx_default_dst := \<lparr>rd_ip = IN4 5, rd_port = 0, rd_vni = 42, rd_ifindex = 0\<rparr>, vx_flags := VXLAN_F_LEARN,
     vx_fdb := [demo_default] # replicate 255 [], vx_addrcnt := 1, vx_mem := 10\<rparr>"

definition demo_vsock :: vxlan_sock where
  "demo_vsock = \<lparr>vs_port = htons 8472, vs_ipv6 = False, vs_flags = 0, vs_refcnt = 2, vs_vni_list = [3] # replicate 1023 []\<rparr>"

definition zero_stats :: vx_stats where
  "zero_stats = \<lparr>tx_packets = 0, tx_bytes = 0, tx_dropped = 0, tx_errors = 0, tx_carrier_errors = 0, collisions = 0,
     rx_packets = 0, rx_bytes = 0, rx_dropped = 0, rx_errors = 0, rx_frame_errors = 0\<rparr>"

definition demo_vworld :: vx_world where
  "demo_vworld = \<lparr>vw_dev = (\<lambda>_. demo_vdev), vw_noarp = (\<lambda>_. False), vw_dev_addr = (\<lambda>_. [2, 0, 0, 0, 0, 3]), vw_stats = (\<lambda>_. zero_stats),
     vw_mtu = (\<lambda>_. 1500), vw_headroom = (\<lambda>_. 0), vw_timer = (\<lambda>_. None), vw_vn_sock = [3 \<mapsto> 6], vw_linked = [3 \<mapsto> 6],
     vw_sock = [6 \<mapsto> demo_vsock], vw_sock_list = [6] # replicate 255 [], vw_vxlan_list = [3], vw_unregister = [], vw_offloads = [6],
     vw_ports = [PortAdd 1 False (htons 8472)], vw_log = []\<rparr>"

definition demo_md :: vxlan_metadata where "demo_md = \<lparr>md_vni = htonl (push_bit 8 42), md_gbp = 0\<rparr>"

lemma demo_vdev_ok: "fdb_ok (vk_hash demo_vkern) demo_vdev" "fdb_bounded demo_vdev"
  by (auto simp: fdb_ok_def fdb_bounded_def buckets_ok_def fdb_entries_def demo_vdev_def demo_default_def demo_vkern_def vxlan_setup_def
      entry_ok_def eth_hash_def nth_Cons split: nat.splits)

lemma demo_find: "find_mac (vk_hash demo_vkern) demo_vdev mac = (if mac = all_zeros_mac then Some demo_default else None)"
  by (simp add: find_mac_def vxlan_fdb_head_def eth_hash_def demo_vkern_def demo_vdev_def demo_default_def)

lemma demo_find_vni: "vxlan_vs_find_vni demo_vkern demo_vsock (drop_bit 8 (ntohl (md_vni demo_md))) demo_vworld = Some 3"
  by (simp add: vxlan_vs_find_vni_def demo_vkern_def demo_vsock_def demo_vworld_def demo_vdev_def demo_md_def)

lemma demo_kern_plain: "kern_plain demo_vkern" "kern_pulls demo_vkern"
  by (simp_all add: kern_plain_def kern_pulls_def demo_vkern_def)

definition demo_vskb :: "u8 list \<Rightarrow> vx_skb" where
  "demo_vskb bs = \<lparr>vs_data = bs, vs_net = 14, vs_trans = 34, vs_mark = 0, vs_partial = False, vs_csum_start = 0, vs_csum_offset = 0, vs_vlan = False\<rparr>"

definition demo_oip :: "u8 list" where "demo_oip = replicate 12 0 @ [10, 0, 0, 9, 10, 0, 0, 1]"

lemma demo_fields:
  "vw_dev demo_vworld d = demo_vdev" "vw_vn_sock demo_vworld 3 = Some 6" "vw_sock demo_vworld 6 = Some demo_vsock" "vw_dev_addr demo_vworld d = [2, 0, 0, 0, 0, 3]" "vw_log demo_vworld = []" "vx_flags demo_vdev = VXLAN_F_LEARN"
  "vx_mem demo_vdev = 10" "vx_addrmax demo_vdev = 0" "vx_mcdev demo_vdev = None" "rd_ip (vx_default_dst demo_vdev) = IN4 5"
  "vk_running demo_vkern d" "vk_ecn_decap demo_vkern v6 h bs = (0, bs)" "vk_route demo_vkern i tos m da sa = Some demo_rt"
  "rt_dev demo_rt = 1" "rt_local demo_rt = False" "oip_saddr demo_oip = 0x0900000A" "is_ipv6 (IN4 x) = False"
  by (simp_all add: demo_vworld_def demo_vdev_def vxlan_setup_def demo_vkern_def demo_rt_def oip_saddr_def demo_oip_def is_ipv6_def)

theorem reply_follows_frame_witness:
  "\<exists>w1 w2 tos ttl. vxlan_rcv demo_vkern 1000 demo_vsock demo_oip demo_md [2, 0, 0, 0, 0, 3, 2, 0, 0, 0, 0, 1, 8, 0] demo_vworld = Some w1 \<and>
    vxlan_xmit demo_vkern True 2000 (demo_vskb [2, 0, 0, 0, 0, 1, 2, 0, 0, 0, 0, 3, 8, 0]) 3 w1 = Some (0, w2) \<and>
    vw_log w2 = [Received 3 [2, 0, 0, 0, 0, 3, 2, 0, 0, 0, 0, 1, 8, 0] 0,
      sent_to demo_vkern demo_rt (demo_vskb [2, 0, 0, 0, 0, 1, 2, 0, 0, 0, 0, 3, 8, 0]) 0x0900000A
        ((vx_default_dst demo_vdev)\<lparr>rd_ip := IN4 0x0900000A, rd_port := vx_dst_port demo_vdev, rd_ifindex := 0\<rparr>) demo_vdev tos ttl]"
proof -
  have z: "[2, 0, 0, 0, 0, 1] \<noteq> all_zeros_mac" by (simp add: all_zeros_mac_def numeral_nat)
  show ?thesis
    using reply_follows_frame [OF demo_find_vni, where frame = "[2, 0, 0, 0, 0, 3, 2, 0, 0, 0, 0, 1, 8, 0]" and oip = demo_oip and e = 0
      and skb = "demo_vskb [2, 0, 0, 0, 0, 1, 2, 0, 0, 0, 0, 3, 8, 0]" and enable = True and rt = demo_rt and a = 6 and t = 1000 and ?t2.0 = 2000]
      demo_vdev_ok demo_kern_plain z
    by (simp add: demo_fields demo_find src_mac_def dst_mac_def demo_vskb_def demo_md_def)
qed

theorem zero_source_takes_default_witness:
  "\<exists>w1 w2 tos ttl. vxlan_rcv demo_vkern 1000 demo_vsock demo_oip demo_md [2, 0, 0, 0, 0, 3, 0, 0, 0, 0, 0, 0, 8, 0] demo_vworld = Some w1 \<and>
    vxlan_xmit demo_vkern True 2000 (demo_vskb [2, 0, 0, 0, 0, 1, 2, 0, 0, 0, 0, 3, 8, 0]) 3 w1 = Some (0, w2) \<and>
    vw_log w2 = [Received 3 [2, 0, 0, 0, 0, 3, 0, 0, 0, 0, 0, 0, 8, 0] 0,
      sent_to demo_vkern demo_rt (demo_vskb [2, 0, 0, 0, 0, 1, 2, 0, 0, 0, 0, 3, 8, 0]) 0x0900000A
        \<lparr>rd_ip = IN4 0x0900000A, rd_port = 4789, rd_vni = 42, rd_ifindex = 0\<rparr> demo_vdev tos ttl]"
proof -
  have z: "all_zeros_mac = [0, 0, 0, 0, 0, 0]" by (simp add: all_zeros_mac_def numeral_nat)
  have d: "f_remotes demo_default = [\<lparr>rd_ip = IN4 5, rd_port = 4789, rd_vni = 42, rd_ifindex = 0\<rparr>]"
    "f_state demo_default = NUD_REACHABLE OR NUD_PERMANENT" by (simp_all add: demo_default_def)
  show ?thesis
    using zero_source_takes_default [OF demo_find_vni, where frame = "[2, 0, 0, 0, 0, 3, 0, 0, 0, 0, 0, 0, 8, 0]" and oip = demo_oip and e = 0
      and skb = "demo_vskb [2, 0, 0, 0, 0, 1, 2, 0, 0, 0, 0, 3, 8, 0]" and enable = True and rt = demo_rt and a = 6 and t = 1000 and ?t2.0 = 2000 and f = demo_default
      and rd = "\<lparr>rd_ip = IN4 5, rd_port = 4789, rd_vni = 42, rd_ifindex = 0\<rparr>"]
      demo_vdev_ok demo_kern_plain d
    by (simp add: demo_fields demo_find src_mac_def dst_mac_def demo_vskb_def demo_md_def z)
qed

section \<open>The encapsulated path\<close>

text \<open>Property C18: the header an encapsulated frame is sent under is read back by the receiving
  socket: the frame is delivered to the device of the sender's identifier, with the policy and
  the two policy flags of the sender's mark when both ends speak the group policy extension, and
  with no policy otherwise.\<close>

theorem vxlan_header_roundtrip:
  assumes "drop_bit 24 vni = 0" "kern_pulls kn" "length udp = 8" "vk_pull_header kn frame = Some inner"
    "vs_flags vs AND VXLAN_F_GBP \<noteq> 0 \<longleftrightarrow> vxflags AND VXLAN_F_GBP \<noteq> 0"
  shows "\<exists>md. vxlan_udp_encap_recv kn (Some vs)
      (udp @ enc_vxlanhdr (make_vxlanhdr vxflags \<lparr>md_vni = htonl (push_bit 8 vni), md_gbp = mark\<rparr> False skb) @ frame) = RcvDeliver md inner \<and>
    drop_bit 8 (ntohl (md_vni md)) = vni \<and> md_gbp md = (if vxflags AND VXLAN_F_GBP \<noteq> 0 then gbp_sent mark else 0)"
proof -
  let ?md = "\<lparr>md_vni = htonl (push_bit 8 vni), md_gbp = mark\<rparr>"
  let ?h = "make_vxlanhdr vxflags ?md False skb"
  have pull: "n \<le> length bs \<Longrightarrow> vk_may_pull kn n bs" for n bs using assms(2) by (simp add: kern_pulls_def)
  have vni: "ntohl (htonl (push_bit 8 vni)) AND NOT VXLAN_VNI_MASK = 0" using vni_word(2) [OF assms(1)] by simp
  note recv = vxlan_recv_header [OF pull assms(3,4), of ?h]
  show ?thesis
  proof (cases "vxflags AND VXLAN_F_GBP \<noteq> 0 \<and> mark \<noteq> 0")
    case False
    then have h: "?h = \<lparr>vx_hflags = htonl VXLAN_HF_VNI, vx_vni = htonl (push_bit 8 vni)\<rparr>"
      by (auto simp: make_vxlanhdr_def Let_def vxlan_build_gbp_hdr_def)
    have g: "gbp_sent 0 = 0" by (simp add: gbp_sent_def)
    show ?thesis using recv [of vs] vni vni_word(1) [OF assms(1)] False g unfolding h by (auto simp: h)
  next
    case True
    then have h: "?h = \<lparr>vx_hflags = gbp_flags mark AND 0xFFFF OR push_bit 16 (ucast (htons (ucast mark))), vx_vni = htonl (push_bit 8 vni)\<rparr>"
      using gbp_word [of mark] by (simp add: make_vxlanhdr_def Let_def)
    note n = gbp_word_number [of mark]
    have f: "ntohl (vx_hflags ?h) AND VXLAN_HF_VNI \<noteq> 0" "ntohl (vx_hflags ?h) AND VXLAN_HF_RCO = 0"
      using n(1,2) mask_bits(1,2) [of "ntohl (vx_hflags ?h)"] by (simp_all add: h)
    have g: "(ntohl (vx_hflags ?h) AND NOT VXLAN_HF_VNI) AND VXLAN_HF_GBP \<noteq> 0"
    proof -
      have "bit (ntohl (vx_hflags ?h) AND NOT VXLAN_HF_VNI) 31" using n(3) by (simp add: h bit_and_iff bit_not_iff)
      then show ?thesis by (rule iffD2 [OF mask_bits(3)])
    qed
    have u: "(ntohl (vx_hflags ?h) AND NOT VXLAN_HF_VNI) AND NOT VXLAN_GBP_USED_BITS = 0" using n(4) unfolding h by simp
    have r: "read_gbp ?h = gbp_sent mark" by (rule read_gbp_sent) (simp add: h)
    have v: "ntohl (vx_vni ?h) AND NOT VXLAN_VNI_MASK = 0" using vni by (simp add: h)
    have "vxlan_udp_encap_recv kn (Some vs) (udp @ enc_vxlanhdr ?h @ frame) = RcvDeliver \<lparr>md_vni = vx_vni ?h, md_gbp = gbp_sent mark\<rparr> inner"
      using recv [of vs, OF _ f v] g u r True assms(5) by simp
    then show ?thesis using vni_word(1) [OF assms(1)] True by (intro exI conjI) (assumption, simp_all add: h)
  qed
qed

theorem vxlan_header_roundtrip_witness:
  "\<exists>md. vxlan_udp_encap_recv demo_vkern (Some (demo_vsock\<lparr>vs_flags := VXLAN_F_GBP\<rparr>))
      (replicate 8 0 @ enc_vxlanhdr (make_vxlanhdr VXLAN_F_GBP \<lparr>md_vni = htonl (push_bit 8 0xABCDEF), md_gbp = 0x00481234\<rparr> False (demo_vskb [])) @ [1, 2, 3]) =
      RcvDeliver md [1, 2, 3] \<and> drop_bit 8 (ntohl (md_vni md)) = 0xABCDEF \<and> md_gbp md = 0x00481234"
proof -
  have k: "vk_pull_header demo_vkern [1, 2, 3] = Some [1, 2, 3]" by (simp add: demo_vkern_def)
  have g: "gbp_sent 0x00481234 = 0x00481234" by (simp add: gbp_sent_def)
  show ?thesis
    using vxlan_header_roundtrip [OF _ demo_kern_plain(2) _ k, where vni = "0xABCDEF" and udp = "replicate 8 0" and vs = "demo_vsock\<lparr>vs_flags := VXLAN_F_GBP\<rparr>"
      and vxflags = VXLAN_F_GBP and mark = "0x00481234" and skb = "demo_vskb []"] g
    by simp
qed

section \<open>The offloaded path\<close>

text \<open>Property C23: with \<^verbatim>\<open>madcap_enable\<close> and a madcap device below, a frame is queued on that device behind
  a header that carries the identifier in the byte order of the machine. The socket that receives
  it therefore delivers it to the device whose identifier has the three bytes of the sender's in
  reverse: the two paths agree only on identifiers that read the same both ways.\<close>

theorem offloaded_vni_reversed:
  assumes "vx_mcdev (vw_dev w d) = Some m" "vx_flags (vw_dev w d) AND VXLAN_F_PROXY = 0" "kern_plain kn"
    "drop_bit 24 (rd_vni (vx_default_dst (vw_dev w d))) = 0" "length udp = 8" "vk_pull_header kn (vs_data skb) = Some inner"
  shows "\<exists>rc w' bs md. vxlan_xmit kn True t skb d w = Some (rc, w') \<and> vw_log w' = vw_log w @ [Queued m bs] \<and>
    vxlan_udp_encap_recv kn (Some vs) (udp @ bs) = RcvDeliver md inner \<and>
    drop_bit 8 (ntohl (md_vni md)) = swap24 (rd_vni (vx_default_dst (vw_dev w d)))"
proof -
  let ?vni = "rd_vni (vx_default_dst (vw_dev w d))"
  let ?bs = "enc_vxlanhdr \<lparr>vx_hflags = htonl VXLAN_HF_VNI, vx_vni = ?vni\<rparr> @ vs_data skb"
  have "vxlan_xmit kn True t skb d w = Some (vk_queue kn ?bs, happens (Queued m ?bs) w)"
    using assms(1-3) by (simp add: vxlan_xmit_def vxlan_proxy_def vxlan_xmit_madcap_def kern_plain_def Let_def)
  moreover have "vxlan_udp_encap_recv kn (Some vs) (udp @ ?bs) = RcvDeliver \<lparr>md_vni = ?vni, md_gbp = 0\<rparr> inner"
    by (rule recv_offloaded [OF assms(4) _ assms(5,6)]) (use assms(3) in \<open>simp add: kern_plain_def\<close>)
  ultimately show ?thesis using swap24_spec(1) [OF assms(4)] by auto
qed

theorem offloaded_vni_reversed_witness:
  "\<exists>rc w' bs md. vxlan_xmit demo_vkern True 0 (demo_vskb [2, 0, 0, 0, 0, 1, 2, 0, 0, 0, 0, 3, 8, 0]) 3
      (set_dev 3 (demo_vdev\<lparr>vx_mcdev := Some 1\<rparr>) demo_vworld) = Some (rc, w') \<and>
    vw_log w' = [Queued 1 bs] \<and> vxlan_udp_encap_recv demo_vkern (Some demo_vsock) (replicate 8 0 @ bs) =
      RcvDeliver md [2, 0, 0, 0, 0, 1, 2, 0, 0, 0, 0, 3, 8, 0] \<and> drop_bit 8 (ntohl (md_vni md)) = 0x2A0000"
proof -
  have v: "rd_vni (vx_default_dst demo_vdev) = 42" "swap24 42 = 0x2A0000"
    by (simp add: demo_vdev_def) code_simp
  show ?thesis
    using offloaded_vni_reversed [where w = "set_dev 3 (demo_vdev\<lparr>vx_mcdev := Some 1\<rparr>) demo_vworld" and d = 3 and m = 1 and kn = demo_vkern
      and udp = "replicate 8 0" and skb = "demo_vskb [2, 0, 0, 0, 0, 1, 2, 0, 0, 0, 0, 3, 8, 0]" and inner = "[2, 0, 0, 0, 0, 1, 2, 0, 0, 0, 0, 3, 8, 0]"
      and t = 0 and vs = demo_vsock] demo_kern_plain
    by (simp add: demo_fields demo_vskb_def v) (simp add: demo_vkern_def)
qed

section \<open>The proxy\<close>

definition arp_request :: "u8 list \<Rightarrow> u32 \<Rightarrow> u32 \<Rightarrow> u8 list" where
  "arp_request sha sip tip = [0, 1, 8, 0, 6, 4, 0, 1] @ sha @ le_bytes 4 sip @ replicate 6 0 @ le_bytes 4 tip"

lemma read_arp:
  assumes "length sha = 6" "length eth = 14"
  shows "read_bytes (eth @ arp_request sha sip tip @ pad) 14 8 = Some [0, 1, 8, 0, 6, 4, 0, 1]"
    "read_bytes (eth @ arp_request sha sip tip @ pad) 22 6 = Some sha"
    "read_bytes (eth @ arp_request sha sip tip @ pad) 28 4 = Some (le_bytes 4 sip)"
    "read_bytes (eth @ arp_request sha sip tip @ pad) 38 4 = Some (le_bytes 4 tip)"
  using assms by (simp_all add: read_bytes_def arp_request_def)

lemma arp_request_valid: "arp_request_ok [0, 1, 8, 0, 6, 4, 0, 1]"
proof -
  have "htons 1 = 0x0100" "htons 0x0800 = 0x0008" by code_simp+
  then show ?thesis by (simp add: arp_request_ok_def)
qed

text \<open>Property C33: a proxying device answers an ARP request for a neighbour the host knows, that is
  not local to the bridge, with that neighbour's address. The request does not leave the host.\<close>

theorem arp_answered:
  assumes "vs_data skb = eth @ arp_request sha sip tip @ pad" "length eth = 14" "length sha = 6" "vs_net skb = 14"
    and eth: "eth_proto (vs_data skb) = htons 0x0806" "vx_flags (vw_dev w d) AND VXLAN_F_PROXY \<noteq> 0" "\<not> vw_noarp w d" "kern_pulls kn"
    and tip: "\<not> ipv4_is_loopback tip" "\<not> ipv4_multicast tip" "vk_neigh4 kn tip = Some n" "ng_state n AND NUD_CONNECTED \<noteq> 0"
    and peer: "fdb_ok (vk_hash kn) (vw_dev w d)"
      "\<And>f. find_mac (vk_hash kn) (vw_dev w d) (ng_ha n) = Some f \<Longrightarrow> \<not> vxlan_addr_any (rd_ip (hd (f_remotes f)))"
    and reply: "vk_arp_reply kn sip tip sha (ng_ha n) sha = Some bs" "vk_up kn bs"
  shows "\<exists>w'. vxlan_xmit kn enable t skb d w = Some (0, w') \<and> vw_log w' = vw_log w @ [Received d bs 0, Freed]"
proof -
  obtain f w1 where look: "find_mac_dev kn t d (ng_ha n) w = (f, w1)" "vw_log w1 = vw_log w" "bridge_local f = Some False"
  proof (cases "find_mac (vk_hash kn) (vw_dev w d) (ng_ha n)")
    case None
    with that [of None w] show ?thesis by (simp add: find_mac_dev_def vxlan_find_mac_def bridge_local_def set_dev_def)
  next
    case (Some g)
    note u = find_used_ok [OF peer(1) Some, where jiffies = t]
    then have "f_remotes g \<noteq> []" by (simp add: entry_ok_def)
    then have "bridge_local (Some (g\<lparr>f_used := t\<rparr>)) = Some False"
      using peer(2) [OF Some] by (cases "f_remotes g") (simp_all add: bridge_local_def first_remote_def)
    with u(1) that show ?thesis by (simp add: find_mac_dev_def)
  qed
  have w: "le_word (le_bytes 4 sip) = sip" "le_word (le_bytes 4 tip) = tip" by (simp_all add: wire_simps)
  note r = read_arp [OF assms(3,2), of sip tip pad]
  have pull: "vk_may_pull kn 28 (vs_data skb)"
    using eth(4) assms(1-3) by (simp add: kern_pulls_def arp_request_def)
  have "arp_reduce kn t d skb w = Some (happens Freed (rx_ni kn d bs w1))"
    using pull r eth(3) tip assms(1,4) look(1,3) reply(1) w arp_request_valid by (simp add: arp_reduce_def)
  then show ?thesis using eth(1,2) look(2) reply(2) by (simp add: vxlan_xmit_def vxlan_proxy_def rx_ni_def)
qed

text \<open>An ARP frame cut short after 28 bytes is long enough for the check, which counts from the Ethernet
  header, and is read past its end.\<close>

lemma short_arp_read_past:
  assumes "vs_data skb = eth @ take n (arp_request sha sip tip)" "length eth = 14" "length sha = 6" "vs_net skb = 14" "14 \<le> n" "n < 28"
    "eth_proto (vs_data skb) = htons 0x0806" "vx_flags (vw_dev w d) AND VXLAN_F_PROXY \<noteq> 0" "\<not> vw_noarp w d" "kern_pulls kn"
  shows "vxlan_xmit kn enable t skb d w = None"
proof -
  have len: "length (vs_data skb) = 14 + n" using assms(1-3,6) by (simp add: arp_request_def)
  have pull: "vk_may_pull kn 28 (vs_data skb)" using assms(5,10) len by (simp add: kern_pulls_def)
  have "take 8 (take n (arp_request sha sip tip)) = take 8 (arp_request sha sip tip)" using assms(5) by (simp add: min_def)
  also have "\<dots> = [0, 1, 8, 0, 6, 4, 0, 1]" by (simp add: arp_request_def)
  finally have h: "read_bytes (vs_data skb) 14 8 = Some [0, 1, 8, 0, 6, 4, 0, 1]"
    using assms(2,5) len by (simp add: read_bytes_def assms(1))
  have t: "read_bytes (vs_data skb) 38 4 = None" using len assms(6) by (simp add: read_bytes_def)
  have "arp_reduce kn t d skb w = None"
    using pull h t assms(4,9) arp_request_valid by (cases "read_bytes (vs_data skb) 28 4") (simp_all add: arp_reduce_def)
  with assms(7,8) show ?thesis by (simp add: vxlan_xmit_def vxlan_proxy_def)
qed

theorem arp_answered_witness:
  "\<exists>w'. vxlan_xmit demo_vkern True 0 (demo_vskb ([255, 255, 255, 255, 255, 255, 2, 0, 0, 0, 0, 3, 8, 6] @ arp_request [2, 0, 0, 0, 0, 3] 4 9)) 3
      (set_dev 3 (demo_vdev\<lparr>vx_flags := VXLAN_F_PROXY\<rparr>) demo_vworld) = Some (0, w') \<and>
    vw_log w' = [Received 3 ([2, 0, 0, 0, 0, 3] @ [2, 0, 0, 0, 0, 9] @ le_bytes 4 (9 :: u32) @ le_bytes 4 (4 :: u32)) 0, Freed]"
proof -
  have h: "htons 0x0806 = 0x0608" "\<not> ipv4_is_loopback 9" "\<not> ipv4_multicast 9" by code_simp+
  have m: "all_zeros_mac \<noteq> [2, 0, 0, 0, 0, 9]" by (simp add: all_zeros_mac_def numeral_nat)
  have f: "find_mac (vk_hash demo_vkern) (demo_vdev\<lparr>vx_flags := VXLAN_F_PROXY\<rparr>) = find_mac (vk_hash demo_vkern) demo_vdev"
    "fdb_ok (vk_hash demo_vkern) (demo_vdev\<lparr>vx_flags := VXLAN_F_PROXY\<rparr>)"
    using demo_vdev_ok(1) by (auto simp: find_mac_def fun_eq_iff fdb_ok_def fdb_entries_def)
  have k: "vk_neigh4 demo_vkern 9 = Some \<lparr>ng_state = 2, ng_ha = [2, 0, 0, 0, 0, 9], ng_key6 = []\<rparr>" "vk_up demo_vkern bs"
    "vk_arp_reply demo_vkern sip tip sha ha tha = Some (sha @ ha @ le_bytes 4 tip @ le_bytes 4 sip)"
    "vw_noarp (set_dev 3 v demo_vworld) 3 = False" for bs sip tip sha ha tha v
    by (simp_all add: demo_vkern_def demo_vworld_def set_dev_def)
  show ?thesis
    using arp_answered [where w = "set_dev 3 (demo_vdev\<lparr>vx_flags := VXLAN_F_PROXY\<rparr>) demo_vworld" and d = 3 and kn = demo_vkern
      and skb = "demo_vskb ([255, 255, 255, 255, 255, 255, 2, 0, 0, 0, 0, 3, 8, 6] @ arp_request [2, 0, 0, 0, 0, 3] 4 9)"
      and eth = "[255, 255, 255, 255, 255, 255, 2, 0, 0, 0, 0, 3, 8, 6]" and sha = "[2, 0, 0, 0, 0, 3]" and sip = 4 and tip = 9 and pad = "[]"
      and enable = True and t = 0 and n = "\<lparr>ng_state = 2, ng_ha = [2, 0, 0, 0, 0, 9], ng_key6 = []\<rparr>"
      and bs = "[2, 0, 0, 0, 0, 3] @ [2, 0, 0, 0, 0, 9] @ le_bytes 4 (9 :: u32) @ le_bytes 4 (4 :: u32)"]
      demo_kern_plain(2) f demo_find h m
    by (simp add: demo_fields demo_vskb_def eth_proto_def k)
qed

end
