(* ===== verification/Vxlan_Life.thy ===== *)
theory Vxlan_Life
  imports Vxlan_Path Tunnel_Stack
begin

text \<open>
  The life of a VXLAN device: a device made from another one's dump is configured like it; a failed
  creation keeps the slot of the madcap device; closing a device before deleting it.
\<close>

section \<open>Closing and deleting\<close>

lemma find_sock_refcnt:
  assumes "vw_sock w a = Some vs"
  shows "find_sock_loop (w\<lparr>vw_sock := (vw_sock w)(a \<mapsto> vs\<lparr>vs_refcnt := n\<rparr>)\<rparr>) f p fl as = find_sock_loop w f p fl as"
  by (induction as) (use assms in \<open>auto intro!: bind_option_cong\<close>)

lemma find_sock_frame:
  "vw_sock w' = vw_sock w \<Longrightarrow> find_sock_loop w' f p fl as = find_sock_loop w f p fl as"
  by (induction as) (auto intro!: bind_option_cong)

lemma config_flush: "flush_loop hash fs v = Some v' \<Longrightarrow> vx_config v' = vx_config v"
proof (induction fs arbitrary: v)
  case (Cons f fs)
  have "vx_config u = vx_config v" if "vxlan_fdb_destroy hash v f = Some u" for u
    using that by (auto simp: vxlan_fdb_destroy_def bind_eq_Some_conv Let_def)
  with Cons show ?case by (auto simp: bind_eq_Some_conv split: if_splits)
qed simp

text \<open>Closing a device with a unicast default destination: the table is flushed and the socket released; the
  device stays in the socket's list.\<close>

lemma stop_ok:
  assumes ok: "fdb_ok (vk_hash kn) (vw_dev w d)" "fdb_bounded (vw_dev w d)"
    and uni: "\<not> vxlan_addr_multicast (rd_ip (vx_default_dst (vw_dev w d)))"
    and s: "vw_vn_sock w d = Some a"
  obtains w0 v where "vw_dev w0 = (vw_dev w)(d := v)" "vx_config v = vx_config (vw_dev w d)"
    "vw_linked w0 = vw_linked w" "vw_sock w0 = vw_sock w" "vw_sock_list w0 = vw_sock_list w"
    "vxlan_stop kn d w = map_option (\<lambda>w. (0, w)) (vxlan_sock_release kn a w0)"
proof -
  obtain v where v: "vxlan_flush (vk_hash kn) (vw_dev w d) = Some v" by (rule flush_ok [OF ok])
  let ?w0 = "set_dev d v (w\<lparr>vw_timer := (vw_timer w)(d := None)\<rparr>)"
  have "vxlan_stop kn d w = map_option (\<lambda>w. (0, w)) (vxlan_sock_release kn a ?w0)"
    using v s uni by (cases "vxlan_sock_release kn a ?w0") (simp_all add: vxlan_stop_def Let_def)
  moreover have "vx_config v = vx_config (vw_dev w d)" using v config_flush by (simp add: vxlan_flush_def)
  ultimately show ?thesis by (intro that [of ?w0 v]) (simp_all add: set_dev_def)
qed

lemma sock_release_ok:
  assumes "vw_sock w a = Some vs"
  obtains w' where "vxlan_sock_release kn a w = Some w'" "vw_linked w' = vw_linked w" "vw_dev w' = vw_dev w"
    "vs_refcnt vs = 1 \<longrightarrow> vw_sock w' a = None"
    "vs_refcnt vs \<noteq> 1 \<longrightarrow> vw_sock w' = (vw_sock w)(a \<mapsto> vs\<lparr>vs_refcnt := vs_refcnt vs - 1\<rparr>) \<and> vw_sock_list w' = vw_sock_list w"
  using assms by (cases "vs_refcnt vs = 1") (auto simp: vxlan_sock_release_def Let_def)

text \<open>Property C19: an open device may be deleted, which unlinks it from its socket, and closed after that.
  The other order goes wrong, since closing releases the socket and leaves the device in its list.
  If the device was the last on its socket, deleting it then writes into freed memory. If the
  socket is shared, opening the device again links it into the same list a second time.\<close>

theorem close_before_delete:
  assumes ok: "fdb_ok (vk_hash kn) (vw_dev w d)" "fdb_bounded (vw_dev w d)"
    and uni: "\<not> vxlan_addr_multicast (rd_ip (vx_default_dst (vw_dev w d)))"
    and up: "vw_vn_sock w d = Some a" "vw_linked w d = Some a" "vw_sock w a = Some vs" "vs_refcnt vs \<noteq> 0"
    and found: "vxlan_find_sock kn (vx_flags (vw_dev w d) AND VXLAN_F_IPV6 \<noteq> 0) (vx_dst_port (vw_dev w d)) (vx_flags (vw_dev w d)) w = Some (Some a)"
  shows "(\<exists>w1 w2. vxlan_dellink kn d w = Some w1 \<and> vxlan_stop kn d w1 = Some (0, w2) \<and> vw_linked w2 d = None) \<and>
    (\<exists>w1. vxlan_stop kn d w = Some (0, w1) \<and> (if vs_refcnt vs = 1 then vxlan_dellink kn d w1 = None else vxlan_open kn t d w1 = None))"
proof
  let ?n = "vk_hash32 kn (rd_vni (vx_default_dst (vw_dev w d))) 10"
  let ?vs = "vs\<lparr>vs_vni_list := (vs_vni_list vs)[?n := remove1 d (vs_vni_list vs ! ?n)]\<rparr>"
  let ?w1 = "w\<lparr>vw_linked := (vw_linked w)(d := None), vw_sock := (vw_sock w)(a \<mapsto> ?vs),
    vw_vxlan_list := remove1 d (vw_vxlan_list w), vw_unregister := vw_unregister w @ [d]\<rparr>"
  have del: "vxlan_dellink kn d w = Some ?w1" using up by (simp add: vxlan_dellink_def Let_def)
  have c: "fdb_ok (vk_hash kn) (vw_dev ?w1 d)" "fdb_bounded (vw_dev ?w1 d)" "\<not> vxlan_addr_multicast (rd_ip (vx_default_dst (vw_dev ?w1 d)))"
    "vw_vn_sock ?w1 d = Some a" using ok uni up(1) by simp_all
  obtain w0 v where w0: "vw_linked w0 = vw_linked ?w1" "vw_sock w0 = vw_sock ?w1" "vxlan_stop kn d ?w1 = map_option (\<lambda>w. (0, w)) (vxlan_sock_release kn a w0)"
    by (rule stop_ok [OF c])
  have "vw_sock w0 a = Some ?vs" using w0(2) by simp
  then obtain w2 where "vxlan_sock_release kn a w0 = Some w2" "vw_linked w2 = vw_linked w0" by (rule sock_release_ok)
  with w0 have "vxlan_stop kn d ?w1 = Some (0, w2)" "vw_linked w2 d = None" by simp_all
  with del show "\<exists>w1 w2. vxlan_dellink kn d w = Some w1 \<and> vxlan_stop kn d w1 = Some (0, w2) \<and> vw_linked w2 d = None" by blast
next
  obtain w0 v where w0: "vw_dev w0 = (vw_dev w)(d := v)" "vx_config v = vx_config (vw_dev w d)" "vw_linked w0 = vw_linked w" "vw_sock w0 = vw_sock w"
      "vw_sock_list w0 = vw_sock_list w" "vxlan_stop kn d w = map_option (\<lambda>w. (0, w)) (vxlan_sock_release kn a w0)"
    by (rule stop_ok [OF ok uni up(1)])
  have s0: "vw_sock w0 a = Some vs" using w0(4) up(3) by simp
  obtain w1 where w1: "vxlan_sock_release kn a w0 = Some w1" "vw_linked w1 = vw_linked w0" "vw_dev w1 = vw_dev w0"
    "vs_refcnt vs = 1 \<longrightarrow> vw_sock w1 a = None"
    "vs_refcnt vs \<noteq> 1 \<longrightarrow> vw_sock w1 = (vw_sock w0)(a \<mapsto> vs\<lparr>vs_refcnt := vs_refcnt vs - 1\<rparr>) \<and> vw_sock_list w1 = vw_sock_list w0"
    by (rule sock_release_ok [OF s0])
  have "if vs_refcnt vs = 1 then vxlan_dellink kn d w1 = None else vxlan_open kn t d w1 = None"
  proof (cases "vs_refcnt vs = 1")
    case True
    then show ?thesis using w1(2,4) w0(3) up(2) by (simp add: vxlan_dellink_def)
  next
    case False
    let ?r = "vs\<lparr>vs_refcnt := vs_refcnt vs - 1\<rparr>"
    have ws: "vw_sock w1 = (vw_sock w)(a \<mapsto> ?r)" "vw_sock_list w1 = vw_sock_list w" using False w1(5) w0(4,5) by simp_all
    have d1: "vx_flags (vw_dev w1 d) = vx_flags (vw_dev w d)" "vx_dst_port (vw_dev w1 d) = vx_dst_port (vw_dev w d)"
      using w0(1) w1(3) config_eqD(1,5) [OF w0(2)] by simp_all
    have "find_sock_loop w1 f p fl as = find_sock_loop w f p fl as" for f p fl as
      using find_sock_frame [of w1 "w\<lparr>vw_sock := (vw_sock w)(a \<mapsto> ?r)\<rparr>" f p fl as] find_sock_refcnt [OF up(3), of "vs_refcnt vs - 1" f p fl as] ws(1) by simp
    then have "vxlan_find_sock kn (vx_flags (vw_dev w1 d) AND VXLAN_F_IPV6 \<noteq> 0) (vx_dst_port (vw_dev w1 d)) (vx_flags (vw_dev w1 d)) w1 = Some (Some a)"
      using found d1 ws(2) by (simp add: vxlan_find_sock_def)
    moreover have "vs_refcnt ?r \<noteq> 0" using False up(4) by simp
    moreover have "vw_sock w1 a = Some ?r" using ws(1) by simp
    ultimately have add: "\<exists>w2. vxlan_sock_add kn (vx_dst_port (vw_dev w1 d)) (vx_flags (vw_dev w1 d)) w1 = Some (Inr a, w2) \<and>
        vw_linked w2 = vw_linked w1 \<and> vw_sock w2 a \<noteq> None"
      by (simp add: vxlan_sock_add_def)
    have "vxlan_vs_add_dev kn a d w2 = None" if "vw_linked w2 = vw_linked w1" "vw_sock w2 a \<noteq> None" for w2
      using that w1(2) w0(3) up(2) by (auto simp: vxlan_vs_add_dev_def Let_def)
    with add False show ?thesis by (auto simp: vxlan_open_def Let_def)
  qed
  with w0(6) w1(1) show "\<exists>w1. vxlan_stop kn d w = Some (0, w1) \<and> (if vs_refcnt vs = 1 then vxlan_dellink kn d w1 = None else vxlan_open kn t d w1 = None)"
    by simp
qed

theorem close_before_delete_witness:
  "(\<exists>w1 w2. vxlan_dellink demo_vkern 3 demo_vworld = Some w1 \<and> vxlan_stop demo_vkern 3 w1 = Some (0, w2)) \<and>
    (\<exists>w1. vxlan_stop demo_vkern 3 demo_vworld = Some (0, w1) \<and> vxlan_open demo_vkern 0 3 w1 = None)"
proof -
  have w: "vw_vn_sock demo_vworld 3 = Some 6" "vw_linked demo_vworld 3 = Some 6" "vw_sock demo_vworld 6 = Some demo_vsock" "vs_refcnt demo_vsock = 2"
    by (simp_all add: demo_vworld_def demo_vsock_def)
  have h: "htonl 5 = 0x05000000" by code_simp
  have u: "\<not> vxlan_addr_multicast (rd_ip (vx_default_dst (vw_dev demo_vworld 3)))"
    by (simp add: demo_fields vxlan_addr_multicast_def h)
  have f: "vxlan_find_sock demo_vkern (vx_flags (vw_dev demo_vworld 3) AND VXLAN_F_IPV6 \<noteq> 0) (vx_dst_port (vw_dev demo_vworld 3))
      (vx_flags (vw_dev demo_vworld 3)) demo_vworld = Some (Some 6)"
    by (simp add: demo_fields vxlan_find_sock_def w) (simp add: demo_vkern_def demo_vworld_def demo_vsock_def demo_vdev_def vxlan_setup_def)
  show ?thesis
    using close_before_delete [OF _ _ u w(1-3) _ f, of 0] demo_vdev_ok by (auto simp: demo_fields w)
qed

section \<open>Creation\<close>

lemma newlink_lower_acquires:
  assumes "attrs IFLA_VXLAN_LINK = Some bs" "nla_get_u32 bs \<noteq> 0" "vk_lowerdev kn (nla_get_u32 bs) = Some l" "get_madcap_ops mnet (ld_addr l) \<noteq> None"
  shows "snd (snd (newlink_lower kn mnet d tb attrs six w nic)) = snd (madcap_acquire_dev mnet (ld_addr l) d nic)"
  using assms by (simp add: newlink_lower_def Let_def)

text \<open>Property C24: the request to make a VXLAN device over a madcap device takes a slot of the madcap
  device, whatever becomes of the request: a device that is refused afterwards (for a duplicate
  identifier, without memory or by the registration) keeps the slot it took, and
  \<^verbatim>\<open>madcap_enable\<close> is not asked.\<close>

theorem newlink_takes_slot:
  assumes "attrs IFLA_VXLAN_ID = Some i" "attrs IFLA_VXLAN_LINK = Some bs" "nla_get_u32 bs \<noteq> 0"
    "vk_lowerdev kn (nla_get_u32 bs) = Some l" "get_madcap_ops mnet (ld_addr l) \<noteq> None"
    "vxlan_newlink kn mnet t d tb attrs w nic = Some (rc, w', nic')"
  shows "nic' = snd (madcap_acquire_dev mnet (ld_addr l) d nic)"
proof -
  obtain v six where v: "newlink_addrs attrs (nla_get_u32 i) (vw_dev w d) = (v, six)" by fastforce
  obtain rc1 w1 nic1 where l: "newlink_lower kn mnet d tb attrs six (set_dev d v w) nic = (rc1, w1, nic1)" by (metis prod_cases3)
  have n: "nic1 = snd (madcap_acquire_dev mnet (ld_addr l) d nic)"
    using newlink_lower_acquires [of attrs bs kn l mnet d tb six "set_dev d v w" nic, OF assms(2-5)] l by simp
  have "nic' = nic1"
    using assms(6) unfolding vxlan_newlink_def assms(1) option.case Let_def v prod.case l
    by (cases "rc1 = 0") (simp_all add: bind_eq_Some_conv del: not_None_eq split: prod.splits if_split_asm, auto)
  with n show ?thesis by simp
qed

theorem newlink_takes_slot_witness:
  "\<exists>w'. vxlan_newlink (demo_vkern\<lparr>vk_lowerdev := (\<lambda>_. Some \<lparr>ld_addr = 1, ld_mtu = 1500, ld_hard_header_len = 14, ld_disable_ipv6 = True\<rparr>)\<rparr>)
      demo_mnet 0 9 (\<lambda>_. None) [1 \<mapsto> le_bytes 4 (42 :: u32), 3 \<mapsto> le_bytes 4 (2 :: u32), 16 \<mapsto> replicate 16 1] demo_vworld demo_gre =
    Some (- EPERM, w', snd (madcap_acquire_dev demo_mnet 1 9 demo_gre))"
proof -
  let ?l = "\<lparr>ld_addr = 1, ld_mtu = 1500, ld_hard_header_len = 14, ld_disable_ipv6 = True\<rparr>"
  let ?kn = "demo_vkern\<lparr>vk_lowerdev := (\<lambda>_. Some ?l)\<rparr>"
  let ?at = "[1 \<mapsto> le_bytes 4 (42 :: u32), 3 \<mapsto> le_bytes 4 (2 :: u32), 16 \<mapsto> replicate 16 1] :: nlattr_tb"
  have ops: "get_madcap_ops demo_mnet (ld_addr ?l) \<noteq> None" using demo_mnet_ops by simp
  have "\<exists>w' nic'. vxlan_newlink ?kn demo_mnet 0 9 (\<lambda>_. None) ?at demo_vworld demo_gre = Some (- EPERM, w', nic')"
    using ops by (simp add: vxlan_newlink_def newlink_addrs_def newlink_lower_def Let_def split: if_splits option.splits)
  then obtain w' nic' where r: "vxlan_newlink ?kn demo_mnet 0 9 (\<lambda>_. None) ?at demo_vworld demo_gre = Some (- EPERM, w', nic')" by blast
  have "nic' = snd (madcap_acquire_dev demo_mnet (ld_addr ?l) 9 demo_gre)"
    by (rule newlink_takes_slot [where i = "le_bytes 4 (42 :: u32)" and bs = "le_bytes 4 (2 :: u32)", OF _ _ _ _ ops r]) simp_all
  with r show ?thesis by simp
qed

text \<open>The options of a dump, read one by one.\<close>

lemma parse_app [simp]:
  "nla_parse (as @ bs) t = (case nla_parse bs t of Some x \<Rightarrow> Some x | None \<Rightarrow> nla_parse as t)" "nla_parse [] t = None"
  "nla_parse ((t', b) # as) t = (case nla_parse as t of Some x \<Rightarrow> Some x | None \<Rightarrow> if t = t' then Some b else None)"
  by (simp_all add: nla_parse_def map_add_def split: option.splits)

lemma parse_addr:
  "nla_parse (addr_attr t4 t6 a) t = (if vxlan_addr_any a then None else if is_ipv6 a
     then (if t = t6 then Some (sin6_addr a) else None) else if t = t4 then Some (le_bytes 4 (sin_addr a)) else None)"
  by (simp add: addr_attr_def is_ipv6_def sin6_addr_def sin_addr_def split: vxlan_addr.splits)

lemma parse_if: "nla_parse (if c then [(t', b)] else []) t = (if c \<and> t = t' then Some b else None)"
  by simp

lemma parse_attrs:
  fixes v :: vxlan_dev
  defines "p \<equiv> nla_parse (vxlan_attrs v)"
  shows "p IFLA_VXLAN_ID = Some (le_bytes 4 (rd_vni (vx_default_dst v)))"
    "p IFLA_VXLAN_GROUP = (if vxlan_addr_any (rd_ip (vx_default_dst v)) \<or> is_ipv6 (rd_ip (vx_default_dst v)) then None
       else Some (le_bytes 4 (sin_addr (rd_ip (vx_default_dst v)))))"
    "p IFLA_VXLAN_GROUP6 = (if \<not> vxlan_addr_any (rd_ip (vx_default_dst v)) \<and> is_ipv6 (rd_ip (vx_default_dst v))
       then Some (sin6_addr (rd_ip (vx_default_dst v))) else None)"
    "p IFLA_VXLAN_LOCAL = (if vxlan_addr_any (vx_saddr v) \<or> is_ipv6 (vx_saddr v) then None else Some (le_bytes 4 (sin_addr (vx_saddr v))))"
    "p IFLA_VXLAN_LOCAL6 = (if \<not> vxlan_addr_any (vx_saddr v) \<and> is_ipv6 (vx_saddr v) then Some (sin6_addr (vx_saddr v)) else None)"
    "p IFLA_VXLAN_LINK = (if rd_ifindex (vx_default_dst v) \<noteq> 0 then Some (le_bytes 4 (rd_ifindex (vx_default_dst v))) else None)"
    "p IFLA_VXLAN_TTL = Some [vx_ttl v]" "p IFLA_VXLAN_TOS = Some [vx_tos v]"
    "p IFLA_VXLAN_LEARNING = Some (flag_byte v VXLAN_F_LEARN)" "p IFLA_VXLAN_PROXY = Some (flag_byte v VXLAN_F_PROXY)"
    "p IFLA_VXLAN_RSC = Some (flag_byte v VXLAN_F_RSC)" "p IFLA_VXLAN_L2MISS = Some (flag_byte v VXLAN_F_L2MISS)"
    "p IFLA_VXLAN_L3MISS = Some (flag_byte v VXLAN_F_L3MISS)" "p IFLA_VXLAN_AGEING = Some (le_bytes 4 (ucast (vx_age_interval v) :: u32))"
    "p IFLA_VXLAN_LIMIT = Some (le_bytes 4 (vx_addrmax v))" "p IFLA_VXLAN_PORT = Some (le_bytes 2 (vx_dst_port v))"
    "p IFLA_VXLAN_UDP_CSUM = Some (flag_byte v VXLAN_F_UDP_CSUM)"
    "p IFLA_VXLAN_UDP_ZERO_CSUM6_TX = Some (flag_byte v VXLAN_F_UDP_ZERO_CSUM6_TX)"
    "p IFLA_VXLAN_UDP_ZERO_CSUM6_RX = Some (flag_byte v VXLAN_F_UDP_ZERO_CSUM6_RX)"
    "p IFLA_VXLAN_REMCSUM_TX = Some (flag_byte v VXLAN_F_REMCSUM_TX)" "p IFLA_VXLAN_REMCSUM_RX = Some (flag_byte v VXLAN_F_REMCSUM_RX)"
    "p IFLA_VXLAN_PORT_RANGE = Some (le_bytes 2 (htons (vx_port_min v)) @ le_bytes 2 (htons (vx_port_max v)))"
    "p IFLA_VXLAN_GBP = (if vx_flags v AND VXLAN_F_GBP \<noteq> 0 then Some [] else None)"
    "p IFLA_VXLAN_REMCSUM_NOPARTIAL = (if vx_flags v AND VXLAN_F_REMCSUM_NOPARTIAL \<noteq> 0 then Some [] else None)"
  by (simp_all add: p_def vxlan_attrs_def Let_def parse_addr parse_if)

lemma flag_true: "nla_get_u8 (flag_byte v f) \<noteq> 0 \<longleftrightarrow> vx_flags v AND f \<noteq> 0"
  by (simp add: flag_byte_def nla_get_u8_def)

lemma set_flag_bit:
  fixes x :: u32
  assumes "m = 2 ^ n" "n < 32"
  shows "set_flag (x AND m \<noteq> 0) m acc = acc OR (x AND m)"
  using and_bit [OF assms, of x] by (simp add: set_flag_def)

lemma set_flag_simps:
  fixes x :: u32
  shows "set_flag (x AND 0x01 \<noteq> 0) 0x01 a = a OR (x AND 0x01)" "set_flag (x AND 0x02 \<noteq> 0) 0x02 a = a OR (x AND 0x02)"
    "set_flag (x AND 0x04 \<noteq> 0) 0x04 a = a OR (x AND 0x04)" "set_flag (x AND 0x08 \<noteq> 0) 0x08 a = a OR (x AND 0x08)"
    "set_flag (x AND 0x10 \<noteq> 0) 0x10 a = a OR (x AND 0x10)" "set_flag (x AND 0x20 \<noteq> 0) 0x20 a = a OR (x AND 0x20)"
    "set_flag (x AND 0x40 \<noteq> 0) 0x40 a = a OR (x AND 0x40)" "set_flag (x AND 0x80 \<noteq> 0) 0x80 a = a OR (x AND 0x80)"
    "set_flag (x AND 0x100 \<noteq> 0) 0x100 a = a OR (x AND 0x100)" "set_flag (x AND 0x200 \<noteq> 0) 0x200 a = a OR (x AND 0x200)"
    "set_flag (x AND 0x400 \<noteq> 0) 0x400 a = a OR (x AND 0x400)" "set_flag (x AND 0x800 \<noteq> 0) 0x800 a = a OR (x AND 0x800)"
    "set_flag (x AND 0x1000 \<noteq> 0) 0x1000 a = a OR (x AND 0x1000)"
proof -
  show "set_flag (x AND 0x01 \<noteq> 0) 0x01 a = a OR (x AND 0x01)" by (rule set_flag_bit [of _ 0]) simp_all
  show "set_flag (x AND 0x02 \<noteq> 0) 0x02 a = a OR (x AND 0x02)" by (rule set_flag_bit [of _ 1]) simp_all
  show "set_flag (x AND 0x04 \<noteq> 0) 0x04 a = a OR (x AND 0x04)" by (rule set_flag_bit [of _ 2]) simp_all
  show "set_flag (x AND 0x08 \<noteq> 0) 0x08 a = a OR (x AND 0x08)" by (rule set_flag_bit [of _ 3]) simp_all
  show "set_flag (x AND 0x10 \<noteq> 0) 0x10 a = a OR (x AND 0x10)" by (rule set_flag_bit [of _ 4]) simp_all
  show "set_flag (x AND 0x20 \<noteq> 0) 0x20 a = a OR (x AND 0x20)" by (rule set_flag_bit [of _ 5]) simp_all
  show "set_flag (x AND 0x40 \<noteq> 0) 0x40 a = a OR (x AND 0x40)" by (rule set_flag_bit [of _ 6]) simp_all
  show "set_flag (x AND 0x80 \<noteq> 0) 0x80 a = a OR (x AND 0x80)" by (rule set_flag_bit [of _ 7]) simp_all
  show "set_flag (x AND 0x100 \<noteq> 0) 0x100 a = a OR (x AND 0x100)" by (rule set_flag_bit [of _ 8]) simp_all
  show "set_flag (x AND 0x200 \<noteq> 0) 0x200 a = a OR (x AND 0x200)" by (rule set_flag_bit [of _ 9]) simp_all
  show "set_flag (x AND 0x400 \<noteq> 0) 0x400 a = a OR (x AND 0x400)" by (rule set_flag_bit [of _ 10]) simp_all
  show "set_flag (x AND 0x800 \<noteq> 0) 0x800 a = a OR (x AND 0x800)" by (rule set_flag_bit [of _ 11]) simp_all
  show "set_flag (x AND 0x1000 \<noteq> 0) 0x1000 a = a OR (x AND 0x1000)" by (rule set_flag_bit [of _ 12]) simp_all
qed

lemma all_flags:
  fixes x :: u32
  assumes "x AND 0x1FFF = x"
  shows "(x AND 0x20) OR (x AND 0x01) OR (x AND 0x02) OR (x AND 0x04) OR (x AND 0x08) OR (x AND 0x10) OR (x AND 0x40) OR (x AND 0x80) OR
    (x AND 0x100) OR (x AND 0x200) OR (x AND 0x400) OR (x AND 0x800) OR (x AND 0x1000) = x"
  using assms by (simp only: bit.conj_disj_distrib [symmetric]) simp

text \<open>A device whose dump says everything: no port in the default destination, addresses that are zero only
  as IPv4, an age of 32 bits, the defined flags, and the IPv6 flag exactly with an IPv6 address.\<close>

definition addr_canonical :: "vxlan_addr \<Rightarrow> bool" where
  "addr_canonical a = (case a of IN4 _ \<Rightarrow> True | IN6 bs \<Rightarrow> length bs = 16 \<and> \<not> vxlan_addr_any a)"

definition dumpable :: "vxlan_dev \<Rightarrow> bool" where
  "dumpable v \<longleftrightarrow> rd_port (vx_default_dst v) = 0 \<and> addr_canonical (rd_ip (vx_default_dst v)) \<and> addr_canonical (vx_saddr v) \<and>
     ucast (ucast (vx_age_interval v) :: u32) = vx_age_interval v \<and> vx_flags v AND 0x1FFF = vx_flags v \<and>
     (vx_flags v AND VXLAN_F_IPV6 \<noteq> 0 \<longleftrightarrow> is_ipv6 (rd_ip (vx_default_dst v)) \<or> is_ipv6 (vx_saddr v))"

definition fresh_dev :: "u16 \<Rightarrow> nat \<Rightarrow> vxlan_dev" where
  "fresh_dev port mem = (vxlan_setup port)\<lparr>vx_mem := mem\<rparr>"

lemma newlink_addrs_back:
  assumes "addr_canonical (rd_ip (vx_default_dst v))" "addr_canonical (vx_saddr v)"
  shows "newlink_addrs (nla_parse (vxlan_attrs v)) (rd_vni (vx_default_dst v)) (fresh_dev port mem) =
    ((fresh_dev port mem)\<lparr>vx_default_dst := \<lparr>rd_ip = rd_ip (vx_default_dst v), rd_port = 0, rd_vni = rd_vni (vx_default_dst v), rd_ifindex = 0\<rparr>,
      vx_saddr := vx_saddr v\<rparr>, is_ipv6 (rd_ip (vx_default_dst v)) \<or> is_ipv6 (vx_saddr v))"
proof -
  have any: "\<not> vxlan_addr_any (IN6 bs) \<and> length bs = 16" if "addr_canonical (IN6 bs)" for bs using that by (simp add: addr_canonical_def)
  show ?thesis
    using assms any
    by (cases "rd_ip (vx_default_dst v)"; cases "vx_saddr v")
      (auto simp: newlink_addrs_def parse_attrs fresh_dev_def vxlan_setup_def is_ipv6_def sin_addr_def sin6_addr_def vxlan_addr_any_def Let_def)
qed

lemma newlink_options_back:
  assumes "dumpable v" "vx_flags u = (if is_ipv6 (rd_ip (vx_default_dst v)) \<or> is_ipv6 (vx_saddr v) then VXLAN_F_IPV6 else 0)"
    "vx_default_dst u = vx_default_dst v" "vx_saddr u = vx_saddr v" "vx_mcdev u = vx_mcdev v"
  shows "newlink_options (nla_parse (vxlan_attrs v)) u =
    v\<lparr>vx_fdb := vx_fdb u, vx_addrcnt := vx_addrcnt u, vx_mem := vx_mem u, vx_notified := vx_notified u\<rparr>"
proof -
  have base: "vx_flags u = vx_flags v AND VXLAN_F_IPV6"
    using assms(1,2) and_bit(2) [of VXLAN_F_IPV6 5 "vx_flags v"] and_bit(1) [of VXLAN_F_IPV6 5 "vx_flags v"] by (auto simp: dumpable_def)
  have f: "vx_flags v AND 0x1FFF = vx_flags v" "ucast (ucast (vx_age_interval v) :: u32) = vx_age_interval v" using assms(1) by (simp_all add: dumpable_def)
  note flags = all_flags [OF f(1), unfolded or.assoc]
  have t: "nla_true (nla_parse (vxlan_attrs v)) ty \<longleftrightarrow> vx_flags v AND m \<noteq> 0" if "nla_parse (vxlan_attrs v) ty = Some (flag_byte v m)" for ty m
    using that flag_true [of v m] by (simp add: nla_true_def)
  note tt = t [OF parse_attrs(9)] t [OF parse_attrs(10)] t [OF parse_attrs(11)] t [OF parse_attrs(12)] t [OF parse_attrs(13)]
    t [OF parse_attrs(17)] t [OF parse_attrs(18)] t [OF parse_attrs(19)] t [OF parse_attrs(20)] t [OF parse_attrs(21)]
  have gbp: "(nla_parse (vxlan_attrs v) IFLA_VXLAN_GBP \<noteq> None) = (vx_flags v AND VXLAN_F_GBP \<noteq> 0)"
    "(nla_parse (vxlan_attrs v) IFLA_VXLAN_REMCSUM_NOPARTIAL \<noteq> None) = (vx_flags v AND VXLAN_F_REMCSUM_NOPARTIAL \<noteq> 0)"
    "(nla_parse (vxlan_attrs v) IFLA_VXLAN_LEARNING = None) = False" by (simp_all add: parse_attrs(9,23,24))
  have ports: "nla_get_u16 (le_bytes 2 (x :: u16) @ y) = x" "nla_get_u16 (drop 2 (le_bytes 2 (x :: u16) @ le_bytes 2 z)) = z" for x y z
    by (simp_all add: nla_get_u16_def wire_simps)
  show ?thesis
    unfolding newlink_options_def Let_def tt gbp parse_attrs(7,8,14,15,16,22) nla_set_def option.case HOL.simp_thms set_flag_simps
    by (rule vxlan_dev.equality) (use assms(3-5) base f(2) flags in \<open>simp_all add: ports or.assoc\<close>)
qed

text \<open>The default destination's entry in an empty table.\<close>

lemma default_created:
  assumes v: "vx_fdb v = replicate 256 []" "vx_addrcnt v = 0" "vx_mem v \<ge> 2" and w: "vw_dev w d = v"
  shows "\<exists>v'. newlink_default kn t d w = Some (0, if vxlan_addr_any (rd_ip (vx_default_dst v)) then w else set_dev d v' w) \<and>
    vx_config v' = vx_config v \<and> fdb_ok (vk_hash kn) v' \<and>
    find_mac (vk_hash kn) v' all_zeros_mac = Some \<lparr>f_updated = t, f_used = t, f_remotes = [(vx_default_dst v)\<lparr>rd_port := vx_dst_port v\<rparr>],
      f_state = NUD_REACHABLE OR NUD_PERMANENT, f_flags = NTF_SELF, f_eth_addr = all_zeros_mac\<rparr>"
proof -
  let ?rd = "(vx_default_dst v)\<lparr>rd_port := vx_dst_port v\<rparr>" and ?st = "NUD_REACHABLE OR NUD_PERMANENT" and ?fl = "NLM_F_EXCL OR NLM_F_CREATE"
  have e: "fdb_ok (vk_hash kn) v" "fdb_bounded v" using empty_table_ok [OF v(1,2)] by simp_all
  have none: "find_mac (vk_hash kn) v m = None" for m using find_mac_mem(2) [OF e(1), of m] v(1) by (simp add: fdb_entries_def)
  have fl: "?fl AND NLM_F_CREATE \<noteq> 0" "?fl AND NLM_F_REPLACE = 0" by simp_all
  have room: "vx_addrmax v = 0 \<or> length (fdb_entries v) < unat (vx_addrmax v)" using v(1) by (auto simp: fdb_entries_def unat_gt_0)
  have mem: "vx_mem v \<noteq> 1" "vx_mem v \<noteq> 0" using v(3) by simp_all
  obtain rc v' where n: "fdb_new (vk_hash kn) t v all_zeros_mac ?rd ?st ?fl NTF_SELF = Some (rc, v')" "fdb_ok (vk_hash kn) v'"
      "rc \<ge> 0 \<longrightarrow> mset (fdb_entries v') = add_mset \<lparr>f_updated = t, f_used = t, f_remotes = [?rd], f_state = ?st, f_flags = NTF_SELF, f_eth_addr = all_zeros_mac\<rparr>
        (mset (fdb_entries v))"
      "rc \<ge> 0 \<longleftrightarrow> ?fl AND NLM_F_CREATE \<noteq> 0 \<and> \<not> (?fl AND NLM_F_REPLACE \<noteq> 0 \<and> group_mac all_zeros_mac) \<and>
        (vx_addrmax v = 0 \<or> length (fdb_entries v) < unat (vx_addrmax v)) \<and> vx_mem v \<noteq> 0"
    by (rule fdb_new_ok [OF e none mem(1), where jiffies = t and rd = ?rd and state = ?st and flags = ?fl and nf = NTF_SELF])
  have ge: "rc \<ge> 0" using n(4) fl room mem(2) by simp
  have "rc = 0" using n(1) ge by (auto simp: fdb_new_def fdb_notify_new_def Let_def bind_eq_Some_conv split: if_splits prod.splits)
  with n(1) have "vxlan_fdb_create (vk_hash kn) t v all_zeros_mac ?rd ?st ?fl NTF_SELF = Some (0, v')" using none by (simp add: vxlan_fdb_create_def)
  then have "newlink_default kn t d w = Some (0, if vxlan_addr_any (rd_ip (vx_default_dst v)) then w else set_dev d v' w)"
    using w by (simp add: newlink_default_def Let_def)
  moreover have "mset (fdb_entries v') = add_mset \<lparr>f_updated = t, f_used = t, f_remotes = [?rd], f_state = ?st, f_flags = NTF_SELF, f_eth_addr = all_zeros_mac\<rparr>
      (mset (fdb_entries v))" using n(3) ge by blast
  from find_link [OF e(1) n(2) this, of all_zeros_mac] have "find_mac (vk_hash kn) v' all_zeros_mac =
      Some \<lparr>f_updated = t, f_used = t, f_remotes = [?rd], f_state = ?st, f_flags = NTF_SELF, f_eth_addr = all_zeros_mac\<rparr>" by simp
  ultimately show ?thesis using n(2) config_new [OF n(1)] by blast
qed

text \<open>Property C20: a device made from the dump of another one, over the same device below, is created and
  configured exactly like it, with a well-formed forwarding table that sends unknown
  destinations to its default destination.\<close>

theorem device_recreated:
  assumes v: "dumpable v" and new: "vw_dev w d = fresh_dev port mem" "mem \<ge> 2"
    and lower: "rd_ifindex (vx_default_dst v) \<noteq> 0 \<longrightarrow> vk_lowerdev kn (rd_ifindex (vx_default_dst v)) = Some l \<and> \<not> ld_disable_ipv6 l"
    and mc: "vx_mcdev v = (if rd_ifindex (vx_default_dst v) \<noteq> 0 \<and> get_madcap_ops mnet (ld_addr l) \<noteq> None then Some (ld_addr l) else None)"
    and sock: "vxlan_find_sock kn (is_ipv6 (rd_ip (vx_default_dst v)) \<or> is_ipv6 (vx_saddr v)) (vx_dst_port v) (vx_flags v) w = Some None"
    and reg: "vk_register kn = 0"
  shows "\<exists>w' nic'. vxlan_newlink kn mnet t d tb (nla_parse (vxlan_attrs v)) w nic = Some (0, w', nic') \<and> d \<in> set (vw_vxlan_list w') \<and>
    vx_config (vw_dev w' d) = vx_config v \<and> fdb_ok (vk_hash kn) (vw_dev w' d) \<and>
    (vxlan_addr_any (rd_ip (vx_default_dst v)) \<or> (\<exists>f. find_mac (vk_hash kn) (vw_dev w' d) all_zeros_mac = Some f \<and>
      f_remotes f = [(vx_default_dst v)\<lparr>rd_port := vx_dst_port v\<rparr>]))"
proof -
  let ?at = "nla_parse (vxlan_attrs v)" and ?dst = "vx_default_dst v"
  let ?six = "is_ipv6 (rd_ip ?dst) \<or> is_ipv6 (vx_saddr v)"
  have canon: "addr_canonical (rd_ip ?dst)" "addr_canonical (vx_saddr v)" "rd_port ?dst = 0" using v by (simp_all add: dumpable_def)
  let ?v1 = "(fresh_dev port mem)\<lparr>vx_default_dst := \<lparr>rd_ip = rd_ip ?dst, rd_port = 0, rd_vni = rd_vni ?dst, rd_ifindex = 0\<rparr>, vx_saddr := vx_saddr v\<rparr>"
  let ?v2 = "?v1\<lparr>vx_default_dst := ?dst, vx_mcdev := vx_mcdev v, vx_flags := (if ?six then VXLAN_F_IPV6 else 0)\<rparr>"
  have dst: "\<lparr>rd_ip = rd_ip ?dst, rd_port = 0, rd_vni = rd_vni ?dst, rd_ifindex = rd_ifindex ?dst\<rparr> = ?dst" using canon(3) by (cases ?dst) simp
  have "\<exists>w2 nic2. newlink_lower kn mnet d tb ?at ?six (set_dev d ?v1 w) nic = (0, w2, nic2) \<and> vw_dev w2 d = ?v2 \<and>
      vw_sock w2 = vw_sock w \<and> vw_sock_list w2 = vw_sock_list w"
  proof (cases "rd_ifindex ?dst = 0")
    case True
    then have z: "\<lparr>rd_ip = rd_ip ?dst, rd_port = 0, rd_vni = rd_vni ?dst, rd_ifindex = 0\<rparr> = ?dst" using dst by simp
    show ?thesis using True mc z by (simp add: newlink_lower_def parse_attrs Let_def set_dev_def fresh_dev_def vxlan_setup_def)
  next
    case False
    then show ?thesis using lower mc dst by (simp add: newlink_lower_def parse_attrs Let_def set_dev_def fresh_dev_def vxlan_setup_def)
  qed
  then obtain w2 nic2 where l: "newlink_lower kn mnet d tb ?at ?six (set_dev d ?v1 w) nic = (0, w2, nic2)" "vw_dev w2 d = ?v2"
      "vw_sock w2 = vw_sock w" "vw_sock_list w2 = vw_sock_list w" by blast
  let ?v3 = "v\<lparr>vx_fdb := replicate 256 [], vx_addrcnt := 0, vx_mem := mem, vx_notified := []\<rparr>"
  let ?w3 = "set_dev d ?v3 w2"
  have "newlink_options ?at ?v2 = v\<lparr>vx_fdb := vx_fdb ?v2, vx_addrcnt := vx_addrcnt ?v2, vx_mem := vx_mem ?v2, vx_notified := vx_notified ?v2\<rparr>"
    by (rule newlink_options_back [OF v]) simp_all
  also have "\<dots> = ?v3" by (simp add: fresh_dev_def vxlan_setup_def)
  finally have opts: "newlink_options ?at (vw_dev w2 d) = ?v3" using l(2) by simp
  have "find_sock_loop ?w3 a b c as = find_sock_loop w a b c as" for a b c as by (rule find_sock_frame) (use l(3) in \<open>simp add: set_dev_def\<close>)
  then have s: "vxlan_find_vni kn (rd_vni ?dst) ?six (vx_dst_port ?v3) (vx_flags ?v3) ?w3 = Some None"
    using sock l(4) by (simp add: vxlan_find_vni_def vxlan_find_sock_def set_dev_def)
  obtain v' where d: "newlink_default kn t d ?w3 = Some (0, if vxlan_addr_any (rd_ip (vx_default_dst ?v3)) then ?w3 else set_dev d v' ?w3)"
      "vx_config v' = vx_config ?v3" "fdb_ok (vk_hash kn) v'"
      "find_mac (vk_hash kn) v' all_zeros_mac = Some \<lparr>f_updated = t, f_used = t, f_remotes = [(vx_default_dst ?v3)\<lparr>rd_port := vx_dst_port ?v3\<rparr>],
        f_state = NUD_REACHABLE OR NUD_PERMANENT, f_flags = NTF_SELF, f_eth_addr = all_zeros_mac\<rparr>"
    using default_created [of ?v3 ?w3 d kn t] new(2) by auto
  let ?w4 = "if vxlan_addr_any (rd_ip ?dst) then ?w3 else set_dev d v' ?w3"
  have "vxlan_newlink kn mnet t d tb ?at w nic = Some (0, ?w4\<lparr>vw_vxlan_list := d # vw_vxlan_list ?w4\<rparr>, nic2)"
    unfolding vxlan_newlink_def parse_attrs(1)
    using newlink_addrs_back [OF canon(1,2), of port mem] l(1) opts s d(1) reg new(1) by (simp add: Let_def)
  moreover have "vx_config ?v3 = vx_config v" by (simp add: vx_config_def)
  moreover have "fdb_ok (vk_hash kn) ?v3" using empty_table_ok [of ?v3] by simp
  ultimately show ?thesis using d(2-4) by (intro exI [of _ "?w4\<lparr>vw_vxlan_list := d # vw_vxlan_list ?w4\<rparr>"] exI [of _ nic2]) simp
qed

theorem device_recreated_witness:
  "\<exists>w' nic'. vxlan_newlink demo_vkern demo_mnet 0 9 (\<lambda>_. None) (nla_parse (vxlan_attrs (demo_vdev\<lparr>vx_dst_port := 7\<rparr>)))
      (set_dev 9 (fresh_dev 8472 2) demo_vworld) demo_gre = Some (0, w', nic') \<and>
    vx_config (vw_dev w' 9) = vx_config (demo_vdev\<lparr>vx_dst_port := 7\<rparr>)"
proof -
  let ?v = "demo_vdev\<lparr>vx_dst_port := 7\<rparr>" and ?w = "set_dev 9 (fresh_dev 8472 2) demo_vworld"
  have p: "htons 8472 = 0x1821" by code_simp
  have v: "dumpable ?v" "rd_ifindex (vx_default_dst ?v) = 0" "vx_mcdev ?v = None"
    by (simp_all add: dumpable_def demo_vdev_def vxlan_setup_def addr_canonical_def is_ipv6_def)
  have s: "vxlan_find_sock demo_vkern (is_ipv6 (rd_ip (vx_default_dst ?v)) \<or> is_ipv6 (vx_saddr ?v)) (vx_dst_port ?v) (vx_flags ?v) ?w = Some None"
    by (simp add: vxlan_find_sock_def set_dev_def) (simp add: demo_vkern_def demo_vworld_def demo_vsock_def p)
  have r: "vk_register demo_vkern = 0" "vw_dev ?w 9 = fresh_dev 8472 2" by (simp_all add: demo_vkern_def)
  show ?thesis using device_recreated [OF v(1) r(2) _ _ _ s r(1)] v(2,3) by fastforce
qed

end
