(* ===== verification/Vxlan_Ports.thy ===== *)
theory Vxlan_Ports
  imports Vxlan_Life
begin

text \<open>
  The listening sockets of a namespace and what the NICs are told of them: whatever sockets are taken
  and released, in any order, the ports a NIC was told of are those of the sockets that are open.
\<close>

section \<open>What a NIC knows\<close>

definition told :: "addr \<Rightarrow> (bool \<times> u16) multiset \<Rightarrow> port_call \<Rightarrow> (bool \<times> u16) multiset" where
  "told d M c = (case c of
     PortAdd e six p \<Rightarrow> if e = d then add_mset (six, p) M else M
   | PortDel e six p \<Rightarrow> if e = d then M - {#(six, p)#} else M)"

definition announced :: "addr \<Rightarrow> port_call list \<Rightarrow> (bool \<times> u16) multiset" where
  "announced d cs = foldl (told d) {#} cs"

lemma told_skip: "d \<notin> set ds \<Longrightarrow> foldl (told d) M (map (\<lambda>e. PortAdd e six p) ds) = M"
  "d \<notin> set ds \<Longrightarrow> foldl (told d) M (map (\<lambda>e. PortDel e six p) ds) = M"
  by (induction ds arbitrary: M) (simp_all add: told_def)

lemma told_once:
  "distinct ds \<Longrightarrow> d \<in> set ds \<Longrightarrow> foldl (told d) M (map (\<lambda>e. PortAdd e six p) ds) = add_mset (six, p) M"
  "distinct ds \<Longrightarrow> d \<in> set ds \<Longrightarrow> foldl (told d) M (map (\<lambda>e. PortDel e six p) ds) = M - {#(six, p)#}"
  by (induction ds arbitrary: M) (auto simp: told_def told_skip)

lemma announced_notify:
  assumes "distinct (vk_netdevs kn)" "d \<in> set (vk_netdevs kn)" "vk_port_ops kn d"
  shows "announced d (vw_ports (vxlan_notify_add_rx_port kn a vs w)) = add_mset (vs_ipv6 vs, vs_port vs) (announced d (vw_ports w))"
    "announced d (vw_ports (vxlan_notify_del_rx_port kn a vs w)) = announced d (vw_ports w) - {#(vs_ipv6 vs, vs_port vs)#}"
  using told_once [of "filter (vk_port_ops kn) (vk_netdevs kn)" d] assms
  by (simp_all add: vxlan_notify_add_rx_port_def vxlan_notify_del_rx_port_def port_calls_def announced_def Let_def)

section \<open>The table of sockets\<close>

definition sock_key :: "vx_kern \<Rightarrow> vxlan_sock \<Rightarrow> nat" where
  "sock_key kn vs = vk_hash32 kn (ucast (htons (vs_port vs))) 8"

definition sock_id :: "vx_world \<Rightarrow> addr \<Rightarrow> bool \<times> u16" where
  "sock_id w a = (case vw_sock w a of None \<Rightarrow> (False, 0) | Some vs \<Rightarrow> (vs_ipv6 vs, vs_port vs))"

definition socks_ok :: "vx_kern \<Rightarrow> vx_world \<Rightarrow> bool" where
  "socks_ok kn w \<longleftrightarrow> length (vw_sock_list w) = 256 \<and> distinct (concat (vw_sock_list w)) \<and>
     (\<forall>a. a \<in> set (concat (vw_sock_list w)) \<longleftrightarrow> vw_sock w a \<noteq> None) \<and>
     (\<forall>a vs. vw_sock w a = Some vs \<longrightarrow> vs_refcnt vs \<noteq> 0 \<and> a \<in> set (vw_sock_list w ! sock_key kn vs)) \<and>
     (\<forall>d \<in> set (vk_netdevs kn). vk_port_ops kn d \<longrightarrow>
       announced d (vw_ports w) = image_mset (sock_id w) (mset (concat (vw_sock_list w))))"

lemma socks_live: "socks_ok kn w \<Longrightarrow> a \<in> set (concat (vw_sock_list w)) \<longleftrightarrow> vw_sock w a \<noteq> None"
  unfolding socks_ok_def by blast

lemma socks_refcnt: "socks_ok kn w \<Longrightarrow> vw_sock w a = Some vs \<Longrightarrow> vs_refcnt vs \<noteq> 0 \<and> a \<in> set (vw_sock_list w ! sock_key kn vs)"
  unfolding socks_ok_def by blast

definition nics_ok :: "vx_kern \<Rightarrow> bool" where
  "nics_ok kn \<longleftrightarrow> distinct (vk_netdevs kn) \<and> (\<forall>x. vk_hash32 kn x 8 < 256)"

lemma find_sock_live:
  "(\<And>a. a \<in> set as \<Longrightarrow> vw_sock w a \<noteq> None) \<Longrightarrow>
    \<exists>p. find_sock_loop w six port fl as = Some p \<and> (\<forall>a. p = Some a \<longrightarrow> vw_sock w a \<noteq> None)"
proof (induction as)
  case (Cons a as)
  from Cons.prems [of a] obtain vs where "vw_sock w a = Some vs" by auto
  with Cons show ?case by simp
qed simp

lemma find_sock_ok:
  assumes "socks_ok kn w" "nics_ok kn"
  obtains p where "vxlan_find_sock kn six port fl w = Some p" "\<And>a. p = Some a \<Longrightarrow> vw_sock w a \<noteq> None"
proof -
  let ?n = "vk_hash32 kn (ucast (htons port)) 8"
  have "a \<in> set (concat (vw_sock_list w))" if "a \<in> set (vw_sock_list w ! ?n)" for a
    using that assms by (auto simp: socks_ok_def nics_ok_def intro!: bexI [of _ "vw_sock_list w ! ?n"])
  then have "\<And>a. a \<in> set (vw_sock_list w ! ?n) \<Longrightarrow> vw_sock w a \<noteq> None" using socks_live [OF assms(1)] by blast
  then have "\<exists>p. vxlan_find_sock kn six port fl w = Some p \<and> (\<forall>a. p = Some a \<longrightarrow> vw_sock w a \<noteq> None)"
    unfolding vxlan_find_sock_def Let_def by (rule find_sock_live)
  then show ?thesis using that by blast
qed

text \<open>Changing the reference count of a live socket.\<close>

lemma sock_refcnt_ok:
  assumes ok: "socks_ok kn w" and s: "vw_sock w a = Some vs" and n: "n \<noteq> 0"
  shows "socks_ok kn (w\<lparr>vw_sock := (vw_sock w)(a \<mapsto> vs\<lparr>vs_refcnt := n\<rparr>)\<rparr>)"
proof -
  let ?w = "w\<lparr>vw_sock := (vw_sock w)(a \<mapsto> vs\<lparr>vs_refcnt := n\<rparr>)\<rparr>"
  have "sock_id ?w = sock_id w" using s by (intro ext) (simp add: sock_id_def)
  then show ?thesis using ok s n by (auto simp: socks_ok_def sock_key_def)
qed

lemma sock_create_ok:
  assumes ok: "socks_ok kn w" and kn: "nics_ok kn" and a: "vw_sock w a = None" and r: "vs_refcnt vs \<noteq> 0"
    and n: "n = sock_key kn vs"
  shows "socks_ok kn (vxlan_notify_add_rx_port kn a vs (w\<lparr>vw_sock := (vw_sock w)(a \<mapsto> vs), vw_sock_list := (vw_sock_list w)[n := a # vw_sock_list w ! n]\<rparr>))"
    (is "socks_ok kn (vxlan_notify_add_rx_port kn a vs ?w)")
proof -
  have len: "n < length (vw_sock_list w)" using ok kn n by (simp add: socks_ok_def nics_ok_def sock_key_def)
  have m: "mset (concat (vw_sock_list ?w)) = add_mset a (mset (concat (vw_sock_list w)))"
    using mset_concat_upd [OF len, of "a # vw_sock_list w ! n"] by simp
  have live: "b \<in> set (concat (vw_sock_list w)) \<longleftrightarrow> vw_sock w b \<noteq> None" for b by (rule socks_live [OF ok])
  have fresh: "a \<notin> set (concat (vw_sock_list w))" using a live by simp
  have set_w: "set (concat (vw_sock_list ?w)) = insert a (set (concat (vw_sock_list w)))"
    using arg_cong [OF m, of set_mset] by simp
  have dist: "distinct (concat (vw_sock_list ?w))"
    using m fresh ok by (metis distinct.simps(2) mset.simps(2) mset_eq_imp_distinct_iff socks_ok_def)
  have ids: "image_mset (sock_id ?w) (mset (concat (vw_sock_list ?w))) =
      add_mset (vs_ipv6 vs, vs_port vs) (image_mset (sock_id w) (mset (concat (vw_sock_list w))))"
    unfolding m using fresh by (auto simp: sock_id_def intro!: image_mset_cong)
  have bucket: "vs_refcnt us \<noteq> 0 \<and> b \<in> set (vw_sock_list ?w ! sock_key kn us)" if "vw_sock ?w b = Some us" for b us
  proof (cases "b = a")
    case True
    then show ?thesis using that r len n by simp
  next
    case False
    then have "vs_refcnt us \<noteq> 0 \<and> b \<in> set (vw_sock_list w ! sock_key kn us)" using that ok by (simp add: socks_ok_def)
    then show ?thesis using len by (cases "sock_key kn us = n") simp_all
  qed
  have "announced d (vw_ports (vxlan_notify_add_rx_port kn a vs ?w)) =
      image_mset (sock_id (vxlan_notify_add_rx_port kn a vs ?w)) (mset (concat (vw_sock_list ?w)))"
    if "d \<in> set (vk_netdevs kn)" "vk_port_ops kn d" for d
  proof -
    have "sock_id (vxlan_notify_add_rx_port kn a vs ?w) = sock_id ?w" by (intro ext) (simp add: sock_id_def)
    moreover have "announced d (vw_ports w) = image_mset (sock_id w) (mset (concat (vw_sock_list w)))" using ok that by (simp add: socks_ok_def)
    ultimately show ?thesis using announced_notify(1) [of kn d a vs ?w] that kn ids by (simp add: nics_ok_def)
  qed
  then show ?thesis unfolding socks_ok_def notify_frame using dist set_w live bucket ok a by (auto simp: socks_ok_def)
qed

lemma sock_add_ok:
  assumes ok: "socks_ok kn w" and kn: "nics_ok kn" and fresh: "\<And>a. vk_kzalloc kn = Some a \<Longrightarrow> vw_sock w a = None"
  shows "\<exists>r w'. vxlan_sock_add kn port flags w = Some (r, w') \<and> socks_ok kn w'"
proof -
  obtain p where p: "vxlan_find_sock kn (flags AND VXLAN_F_IPV6 \<noteq> 0) port flags w = Some p" "\<And>a. p = Some a \<Longrightarrow> vw_sock w a \<noteq> None"
    using find_sock_ok [OF ok kn] by blast
  show ?thesis
  proof (cases p)
    case None
    have "\<exists>r w'. vxlan_socket_create kn port flags w = (r, w') \<and> socks_ok kn w'"
    proof (cases "vk_kzalloc kn")
      case (Some a)
      from sock_create_ok [OF ok kn fresh [OF Some] _ refl, of "\<lparr>vs_port = port, vs_ipv6 = flags AND VXLAN_F_IPV6 \<noteq> 0,
          vs_flags = flags AND VXLAN_F_RCV_FLAGS, vs_refcnt = 1, vs_vni_list = replicate 1024 []\<rparr>"]
      show ?thesis using Some ok by (auto simp: vxlan_socket_create_def Let_def sock_key_def)
    qed (use ok in \<open>simp add: vxlan_socket_create_def\<close>)
    then show ?thesis using p(1) None by (auto simp: vxlan_sock_add_def)
  next
    case (Some a)
    then obtain vs where vs: "vw_sock w a = Some vs" using p(2) by auto
    have "vs_refcnt vs \<noteq> 0" using socks_refcnt [OF ok vs] by simp
    then show ?thesis using p(1) Some vs sock_refcnt_ok [OF ok vs, of "vs_refcnt vs + 1"] by (simp add: vxlan_sock_add_def)
  qed
qed

lemma socks_release_ok:
  assumes ok: "socks_ok kn w" and kn: "nics_ok kn" and s: "vw_sock w a = Some vs"
  shows "\<exists>w'. vxlan_sock_release kn a w = Some w' \<and> socks_ok kn w'"
proof (cases "vs_refcnt vs = 1")
  case False
  have "vs_refcnt vs - 1 \<noteq> 0" using socks_refcnt [OF ok s] False by simp
  then show ?thesis using False s sock_refcnt_ok [OF ok s, of "vs_refcnt vs - 1"] by (simp add: vxlan_sock_release_def Let_def)
next
  case True
  define n where "n = sock_key kn vs"
  let ?w1 = "w\<lparr>vw_sock_list := (vw_sock_list w)[n := remove1 a (vw_sock_list w ! n)]\<rparr>"
  let ?w2 = "vxlan_notify_del_rx_port kn a vs ?w1"
  let ?w = "?w2\<lparr>vw_sock := (vw_sock w)(a := None)\<rparr>"
  have run: "vxlan_sock_release kn a w = Some ?w"
    using True s by (simp add: vxlan_sock_release_def Let_def n_def sock_key_def)
  have len: "n < length (vw_sock_list w)" using ok kn by (simp add: socks_ok_def nics_ok_def sock_key_def n_def)
  have mem: "a \<in> set (vw_sock_list w ! n)" using socks_refcnt [OF ok s] by (simp add: n_def)
  have "add_mset a (mset (concat ((vw_sock_list w)[n := remove1 a (vw_sock_list w ! n)]))) = mset (concat (vw_sock_list w))"
    using mset_concat_upd [OF len, of "remove1 a (vw_sock_list w ! n)"] mem
    by (metis (no_types, lifting) add_mset_add_single add_right_cancel insert_DiffM mset_remove1 set_mset_mset union_mset_add_mset_left union_mset_add_mset_right)
  then have m: "mset (concat (vw_sock_list w)) = add_mset a (mset (concat (vw_sock_list ?w)))" by simp
  have live: "b \<in> set (concat (vw_sock_list w)) \<longleftrightarrow> vw_sock w b \<noteq> None" for b by (rule socks_live [OF ok])
  have d: "distinct (a # concat (vw_sock_list ?w))"
    using m ok by (metis mset.simps(2) mset_eq_imp_distinct_iff socks_ok_def)
  have set_w: "set (concat (vw_sock_list w)) = insert a (set (concat (vw_sock_list ?w)))"
    using arg_cong [OF m, of set_mset] by simp
  have ids: "image_mset (sock_id ?w) (mset (concat (vw_sock_list ?w))) =
      image_mset (sock_id w) (mset (concat (vw_sock_list w))) - {#(vs_ipv6 vs, vs_port vs)#}"
  proof -
    have "image_mset (sock_id ?w) (mset (concat (vw_sock_list ?w))) = image_mset (sock_id w) (mset (concat (vw_sock_list ?w)))"
      using d by (intro image_mset_cong) (auto simp: sock_id_def)
    then show ?thesis unfolding m using s by (simp add: sock_id_def)
  qed
  have bucket: "vs_refcnt us \<noteq> 0 \<and> b \<in> set (vw_sock_list ?w ! sock_key kn us)" if "vw_sock ?w b = Some us" for b us
  proof -
    have b: "b \<noteq> a" "vw_sock w b = Some us" using that by (auto split: if_splits)
    then have "vs_refcnt us \<noteq> 0 \<and> b \<in> set (vw_sock_list w ! sock_key kn us)" using ok by (simp add: socks_ok_def)
    then show ?thesis using len b(1) by (cases "sock_key kn us = n") (simp_all add: in_set_remove1)
  qed
  have told: "announced d (vw_ports ?w) = image_mset (sock_id ?w) (mset (concat (vw_sock_list ?w)))"
    if "d \<in> set (vk_netdevs kn)" "vk_port_ops kn d" for d
  proof -
    have "announced d (vw_ports w) = image_mset (sock_id w) (mset (concat (vw_sock_list w)))" using ok that by (simp add: socks_ok_def)
    then show ?thesis using announced_notify(2) [of kn d a vs ?w1] that kn ids by (simp add: nics_ok_def)
  qed
  have "b \<in> set (concat (vw_sock_list ?w)) \<longleftrightarrow> vw_sock ?w b \<noteq> None" for b using live [of b] set_w d by auto
  then have "socks_ok kn ?w" unfolding socks_ok_def using d bucket told ok by (simp add: socks_ok_def)
  then show ?thesis using run by blast
qed

section \<open>Runs\<close>

text \<open>A socket is asked for, with the address and the result the kernel has for a new one; or a live one is
  released. The allocator does not return memory that is in use.\<close>

datatype sock_event = SockAdd ptr int u16 u32 | SockRelease addr

definition sock_kern :: "vx_kern \<Rightarrow> ptr \<Rightarrow> int \<Rightarrow> vx_world \<Rightarrow> vx_kern" where
  "sock_kern kn p rc w = kn\<lparr>vk_kzalloc := (case p of None \<Rightarrow> None | Some a \<Rightarrow> if vw_sock w a = None then Some a else None),
     vk_sock_create := (\<lambda>_ _. rc)\<rparr>"

definition sock_exec :: "vx_kern \<Rightarrow> sock_event \<Rightarrow> vx_world \<Rightarrow> vx_world option" where
  "sock_exec kn e w = (case e of
     SockAdd p rc port flags \<Rightarrow> map_option snd (vxlan_sock_add (sock_kern kn p rc w) port flags w)
   | SockRelease a \<Rightarrow> if vw_sock w a = None then Some w else vxlan_sock_release kn a w)"

fun sock_run :: "vx_kern \<Rightarrow> sock_event list \<Rightarrow> vx_world \<Rightarrow> vx_world option" where
  "sock_run kn [] w = Some w"
| "sock_run kn (e # es) w = do { w \<leftarrow> sock_exec kn e w; sock_run kn es w }"

lemma socks_ok_kern: "socks_ok (sock_kern kn p rc w0) w = socks_ok kn w" "nics_ok (sock_kern kn p rc w0) = nics_ok kn"
  by (simp_all add: socks_ok_def nics_ok_def sock_kern_def sock_key_def)

lemma sock_exec_ok:
  assumes ok: "socks_ok kn w" and kn: "nics_ok kn"
  shows "\<exists>w'. sock_exec kn e w = Some w' \<and> socks_ok kn w'"
proof (cases e)
  case (SockAdd p rc port flags)
  have "vw_sock w a = None" if "vk_kzalloc (sock_kern kn p rc w) = Some a" for a
    using that by (auto simp: sock_kern_def split: option.splits if_splits)
  from sock_add_ok [of "sock_kern kn p rc w" w port flags, unfolded socks_ok_kern, OF ok kn this]
  show ?thesis using SockAdd by (auto simp: sock_exec_def)
next
  case (SockRelease a)
  then show ?thesis using socks_release_ok [OF ok kn, of a] ok by (cases "vw_sock w a") (auto simp: sock_exec_def)
qed

lemma sock_run_ok: "socks_ok kn w \<Longrightarrow> nics_ok kn \<Longrightarrow> \<exists>w'. sock_run kn es w = Some w' \<and> socks_ok kn w'"
proof (induction es arbitrary: w)
  case (Cons e es)
  from sock_exec_ok [OF Cons.prems, of e] Cons.IH Cons.prems(2) show ?case by auto
qed simp

text \<open>Property C39: the listening sockets of a namespace. Starting without any, whatever sockets are asked
  for and released, with any allocation or binding failing, every operation returns and no freed
  socket is read; the table has exactly the live sockets, each once; and the ports each NIC was told
  of and not untold are those of the table, so that a NIC never parses a port nobody listens on.\<close>

theorem announced_ports_are_open:
  assumes "nics_ok kn" "vw_ports w = []" "\<And>a. vw_sock w a = None" "d \<in> set (vk_netdevs kn)" "vk_port_ops kn d"
  shows "\<exists>w'. sock_run kn es (snd (vxlan_init_net w)) = Some w' \<and> distinct (concat (vw_sock_list w')) \<and>
    set (concat (vw_sock_list w')) = {a. vw_sock w' a \<noteq> None} \<and>
    announced d (vw_ports w') = image_mset (sock_id w') (mset (concat (vw_sock_list w')))"
proof -
  have "socks_ok kn (snd (vxlan_init_net w))" using assms(2,3) by (simp add: socks_ok_def vxlan_init_net_def announced_def)
  from sock_run_ok [OF this assms(1)] obtain w' where w': "sock_run kn es (snd (vxlan_init_net w)) = Some w'" "socks_ok kn w'" by blast
  have "set (concat (vw_sock_list w')) = {a. vw_sock w' a \<noteq> None}" "distinct (concat (vw_sock_list w'))" using w'(2) by (auto simp: socks_ok_def)
  moreover have "announced d (vw_ports w') = image_mset (sock_id w') (mset (concat (vw_sock_list w')))" using w'(2) assms(4,5) by (simp add: socks_ok_def)
  ultimately show ?thesis using w'(1) by blast
qed

theorem announced_ports_are_open_witness:
  "\<exists>w'. sock_run demo_vkern [SockAdd (Some 6) 0 7 0, SockAdd (Some 8) 0 9 VXLAN_F_IPV6, SockAdd (Some 9) 0 7 0, SockRelease 6, SockRelease 6, SockRelease 6]
      (snd (vxlan_init_net (demo_vworld\<lparr>vw_sock := Map.empty, vw_ports := []\<rparr>))) = Some w' \<and>
    {a. vw_sock w' a \<noteq> None} = {8} \<and> announced 1 (vw_ports w') = {#(True, 9)#} \<and>
    announced 1 (vw_ports w') = image_mset (sock_id w') (mset (concat (vw_sock_list w')))"
proof -
  let ?w = "snd (vxlan_init_net (demo_vworld\<lparr>vw_sock := Map.empty, vw_ports := []\<rparr>))"
  let ?es = "[SockAdd (Some 6) 0 7 0, SockAdd (Some 8) 0 9 VXLAN_F_IPV6, SockAdd (Some 9) 0 7 0, SockRelease 6, SockRelease 6, SockRelease 6]"
  have k: "nics_ok demo_vkern" "(1 :: addr) \<in> set (vk_netdevs demo_vkern)" "vk_port_ops demo_vkern 1" by (simp_all add: nics_ok_def demo_vkern_def)
  obtain w' where w': "sock_run demo_vkern ?es ?w = Some w'" "distinct (concat (vw_sock_list w'))"
      "set (concat (vw_sock_list w')) = {a. vw_sock w' a \<noteq> None}"
      "announced 1 (vw_ports w') = image_mset (sock_id w') (mset (concat (vw_sock_list w')))"
    using announced_ports_are_open [OF k(1) _ _ k(2,3), of "demo_vworld\<lparr>vw_sock := Map.empty, vw_ports := []\<rparr>" ?es] by auto
  have "map_option (\<lambda>w. (concat (vw_sock_list w), map (sock_id w) (concat (vw_sock_list w)))) (sock_run demo_vkern ?es ?w) = Some ([8], [(True, 9)])"
    by code_simp
  then have c: "concat (vw_sock_list w') = [8]" "map (sock_id w') [8] = [(True, 9)]" using w'(1) by auto
  then have "announced 1 (vw_ports w') = {#(True, 9)#}" "{a. vw_sock w' a \<noteq> None} = {8}" using w'(3,4) by auto
  then show ?thesis using w'(1,4) by blast
qed

end
