(* ===== verification/Netdevgen.thy ===== *)
theory Netdevgen
  imports Madcap_Prelude
begin

text \<open>
  \<^verbatim>\<open>netdevgen/netdevgen.c\<close>: the packet generator of the measurements. Writing a command to its proc
  file selects the tunnel whose addresses the packets carry and starts either one packet or a
  thread that sends clones of one packet until it is stopped.

  The generator's threads are explicit: starting one makes it \<open>Fresh\<close>, and only its own first step
  sets the running flag. The flag \<^verbatim>\<open>start\<close> is read and never written after the module is loaded.
  Kernel services (allocation, routing, thread creation) are parameters.
\<close>

section \<open>Packets\<close>

text \<open>The fields of the packet that are not fixed; \<open>alloc_ok\<close>, \<open>ns_ok\<close>, \<open>route_ok\<close>: the allocation (whose
  result is not checked), the namespace and the route.\<close>

record ndg_env =
  pktlen :: int
  measure_pps :: bool
  ns_ok :: bool
  alloc_ok :: bool
  ndg_route_ok :: bool
  clone_ok :: bool
  ident :: u16

datatype built = NoPacket | Packet "u8 list"

definition ndg_ip_header :: "int \<Rightarrow> u16 \<Rightarrow> u32 \<Rightarrow> u32 \<Rightarrow> u8 list" where
  "ndg_ip_header len idn saddr daddr = [0x45, 0] @ le_bytes 2 (htons (word_of_int len)) @ le_bytes 2 idn @ [0, 0, 12, 17, 0, 0] @
     le_bytes 4 saddr @ le_bytes 4 daddr"

definition ndg_udp_header :: "int \<Rightarrow> u8 list" where
  "ndg_udp_header len = le_bytes 2 (htons 6550) @ le_bytes 2 (htons 6550) @ le_bytes 2 (htons (word_of_int (len - 20))) @ [0, 0]"

text \<open>\<open>pad\<close> is what the uninitialised payload holds. \<open>None\<close> is a crash: a failed allocation that is used, or
  a payload of negative length, which \<^verbatim>\<open>skb_put\<close> refuses with a panic. (A packet without a route is
  not freed.)\<close>

definition netdevgen_build_packet :: "ndg_env \<Rightarrow> (nat \<Rightarrow> u8) \<Rightarrow> u32 \<Rightarrow> u32 \<Rightarrow> built option" where
  "netdevgen_build_packet env pad srcip dstip =
     (if \<not> ns_ok env then Some NoPacket
      else if \<not> alloc_ok env then None
      else if pktlen env - 28 < 0 then None
      else if \<not> ndg_route_ok env then Some NoPacket
      else Some (Packet (ndg_ip_header (pktlen env) (ident env) srcip dstip @ ndg_udp_header (pktlen env) @
        map pad [0..<nat (pktlen env - 28)])))"

section \<open>Threads\<close>

text \<open>A generator thread is created, sets the running flag, builds its packet, runs its loop and ends.
  \<open>stop_req\<close> are the threads \<^verbatim>\<open>kthread_stop\<close> was called for.\<close>

datatype pc = Fresh | Building | Looping "u8 list" | Ended

record ndg =
  ndg_tsk :: "nat option"
  ndg_thread_running :: bool
  threads :: "nat \<Rightarrow> pc option"
  next_tid :: nat
  stop_req :: "nat set"
  one_shots :: nat
  sent :: "u8 list list"
  srcip :: u32
  dstip :: u32
  ovtype :: u8
  start :: int

definition start_netdevgen_thread :: "ndg \<Rightarrow> ndg" where
  "start_netdevgen_thread g =
     (if ndg_tsk g \<noteq> None \<and> ndg_thread_running g then g
      else g\<lparr>ndg_tsk := Some (next_tid g), threads := (threads g)(next_tid g \<mapsto> Fresh), next_tid := next_tid g + 1\<rparr>)"

definition stop_netdevgen_thread :: "ndg \<Rightarrow> ndg" where
  "stop_netdevgen_thread g =
     (case ndg_tsk g of
        Some t \<Rightarrow> if ndg_thread_running g then g\<lparr>stop_req := insert t (stop_req g)\<rparr> else g
      | None \<Rightarrow> g)"

definition start_netdevgen_xmit_one_thread :: "ndg \<Rightarrow> ndg" where
  "start_netdevgen_xmit_one_thread g = g\<lparr>one_shots := one_shots g + 1\<rparr>"

definition start_stop :: "ndg \<Rightarrow> ndg" where
  "start_stop g = (if start g \<noteq> 0 then stop_netdevgen_thread g else start_netdevgen_thread g)"

text \<open>One step of a generator thread, and of a one-packet thread. A thread that is stopped before it first
  runs ends without running its function: the kernel returns \<^verbatim>\<open>-EINTR\<close> for it.\<close>

definition netdevgen_thread_step :: "ndg_env \<Rightarrow> (nat \<Rightarrow> u8) \<Rightarrow> nat \<Rightarrow> ndg \<Rightarrow> ndg option" where
  "netdevgen_thread_step env pad t g =
     (case threads g t of
        Some Fresh \<Rightarrow>
          if t \<in> stop_req g then Some (g\<lparr>threads := (threads g)(t \<mapsto> Ended)\<rparr>)
          else Some (g\<lparr>ndg_thread_running := True, threads := (threads g)(t \<mapsto> Building)\<rparr>)
      | Some Building \<Rightarrow> do {
          p \<leftarrow> netdevgen_build_packet env pad (srcip g) (dstip g);
          (case p of
             NoPacket \<Rightarrow> Some (g\<lparr>ndg_thread_running := False, threads := (threads g)(t \<mapsto> Ended)\<rparr>)
           | Packet b \<Rightarrow> Some (g\<lparr>threads := (threads g)(t \<mapsto> Looping b)\<rparr>)) }
      | Some (Looping b) \<Rightarrow>
          if t \<in> stop_req g then Some (g\<lparr>ndg_thread_running := False, threads := (threads g)(t \<mapsto> Ended)\<rparr>)
          else if clone_ok env then Some (g\<lparr>sent := sent g @ [b]\<rparr>)
          else Some g
      | _ \<Rightarrow> Some g)"

definition netdevgen_xmit_one :: "ndg_env \<Rightarrow> (nat \<Rightarrow> u8) \<Rightarrow> ndg \<Rightarrow> ndg option" where
  "netdevgen_xmit_one env pad g = do {
     p \<leftarrow> netdevgen_build_packet env pad (srcip g) (dstip g);
     (case p of NoPacket \<Rightarrow> Some g | Packet b \<Rightarrow> Some (g\<lparr>sent := sent g @ [b]\<rparr>)) }"

section \<open>The proc file\<close>

text \<open>\<^verbatim>\<open>strncmp (buf, s, strlen (s)) == 0\<close>\<close>

definition starts_with :: "string \<Rightarrow> string \<Rightarrow> bool" where
  "starts_with buf s \<longleftrightarrow> take (length s) buf = s"

definition select_tunnel :: "ndg_env \<Rightarrow> u32 \<Rightarrow> u32 \<Rightarrow> u8 \<Rightarrow> ndg \<Rightarrow> ndg" where
  "select_tunnel env sip dip ov g =
     (let g = g\<lparr>srcip := sip, dstip := dip, ovtype := ov\<rparr> in
      if \<not> measure_pps env then start_netdevgen_xmit_one_thread g else start_netdevgen_thread g)"

text \<open>\<open>ov\<close> are the numbers of the encapsulation types.\<close>

definition ndg_proc_write :: "ndg_env \<Rightarrow> (string \<Rightarrow> u8) \<Rightarrow> string \<Rightarrow> ndg \<Rightarrow> ndg" where
  "ndg_proc_write env ov buf g =
     (if starts_with buf ''xmit'' then start_netdevgen_xmit_one_thread g
      else if starts_with buf ''vxlan'' then select_tunnel env 0x010410AC 0x020410AC (ov ''vxlan'') g
      else if starts_with buf ''gretap'' then select_tunnel env 0x010310AC 0x020310AC (ov ''gretap'') g
      else if starts_with buf ''gre'' then select_tunnel env 0x010210AC 0x020210AC (ov ''gre'') g
      else if starts_with buf ''ipip'' then select_tunnel env 0x010110AC 0x020110AC (ov ''ipip'') g
      else if starts_with buf ''nsh'' then select_tunnel env 0x010510AC 0x020510AC (ov ''nsh'') g
      else if starts_with buf ''noencap'' then select_tunnel env 0x010610AC 0x020610AC (ov ''noencap'') g
      else if starts_with buf ''start'' then start_netdevgen_thread g
      else if starts_with buf ''stop'' then stop_netdevgen_thread g
      else g)"

definition ndg_proc_read :: "ndg \<Rightarrow> ndg" where
  "ndg_proc_read g = start_stop g"

definition netdevgen_init :: "bool \<Rightarrow> ndg \<Rightarrow> int \<times> ndg" where
  "netdevgen_init proc_ok g = (if \<not> proc_ok then (- ENOMEM, g) else (0, g\<lparr>start := 0\<rparr>))"

definition netdevgen_exit :: "ndg \<Rightarrow> ndg" where
  "netdevgen_exit g = stop_netdevgen_thread g"

section \<open>Steps\<close>

text \<open>What can happen to the generator: a read or write of the proc file, a step of any of its
  threads, the packet of a one-packet thread.\<close>

inductive ndg_step :: "ndg_env \<Rightarrow> (string \<Rightarrow> u8) \<Rightarrow> (nat \<Rightarrow> u8) \<Rightarrow> ndg \<Rightarrow> ndg \<Rightarrow> bool" for env ov pad where
  proc_w: "ndg_step env ov pad g (ndg_proc_write env ov buf g)"
| proc_r: "ndg_step env ov pad g (ndg_proc_read g)"
| thread_s: "netdevgen_thread_step env pad t g = Some g' \<Longrightarrow> ndg_step env ov pad g g'"
| one_s: "one_shots g = Suc n \<Longrightarrow> netdevgen_xmit_one env pad g = Some g' \<Longrightarrow> ndg_step env ov pad g (g'\<lparr>one_shots := n\<rparr>)"

inductive ndg_reach :: "ndg_env \<Rightarrow> (string \<Rightarrow> u8) \<Rightarrow> (nat \<Rightarrow> u8) \<Rightarrow> ndg \<Rightarrow> bool" for env ov pad where
  load: "ndg_tsk g = None \<Longrightarrow> \<not> ndg_thread_running g \<Longrightarrow> (\<forall>t. threads g t = None) \<Longrightarrow> stop_req g = {} \<Longrightarrow>
    netdevgen_init True g = (0, g') \<Longrightarrow> ndg_reach env ov pad g'"
| step: "ndg_reach env ov pad g \<Longrightarrow> ndg_step env ov pad g g' \<Longrightarrow> ndg_reach env ov pad g'"

inductive_cases ndg_step_elim: "ndg_step env ov pad g g'"

section \<open>Properties\<close>

text \<open>The flag that should tell the proc file's reader whether to stop is never set, and threads are
  numbered below the next number.\<close>

definition ndg_inv :: "ndg \<Rightarrow> bool" where
  "ndg_inv g \<longleftrightarrow> start g = 0 \<and> (\<forall>t. threads g t \<noteq> None \<longrightarrow> t < next_tid g) \<and> (\<forall>t. ndg_tsk g = Some t \<longrightarrow> t < next_tid g) \<and>
     (\<forall>t \<in> stop_req g. t < next_tid g)"

lemma start_thread_inv: "ndg_inv g \<Longrightarrow> ndg_inv (start_netdevgen_thread g)"
  by (auto simp: ndg_inv_def start_netdevgen_thread_def less_Suc_eq)

lemma stop_thread_inv: "ndg_inv g \<Longrightarrow> ndg_inv (stop_netdevgen_thread g)"
  by (auto simp: ndg_inv_def stop_netdevgen_thread_def split: option.splits)

lemma select_tunnel_inv: "ndg_inv g \<Longrightarrow> ndg_inv (select_tunnel env sip dip o' g)"
  using start_thread_inv [of "g\<lparr>srcip := sip, dstip := dip, ovtype := o'\<rparr>"]
  by (simp add: select_tunnel_def Let_def start_netdevgen_xmit_one_thread_def ndg_inv_def)

lemma thread_step_inv: "ndg_inv g \<Longrightarrow> netdevgen_thread_step env pad t g = Some g' \<Longrightarrow> ndg_inv g'"
  by (auto simp: ndg_inv_def netdevgen_thread_step_def split: option.splits pc.splits built.splits if_splits Option.bind_splits)

lemma xmit_one_inv: "ndg_inv g \<Longrightarrow> netdevgen_xmit_one env pad g = Some g' \<Longrightarrow> ndg_inv (g'\<lparr>one_shots := n\<rparr>)"
  by (auto simp: ndg_inv_def netdevgen_xmit_one_def split: built.splits Option.bind_splits)

lemma ndg_reach_inv: "ndg_reach env ov pad g \<Longrightarrow> ndg_inv g"
proof (induction rule: ndg_reach.induct)
  case (load g g')
  then show ?case by (auto simp: ndg_inv_def netdevgen_init_def)
next
  case (step g g')
  have w: "ndg_inv (ndg_proc_write env ov buf g)" for buf
    unfolding ndg_proc_write_def using step.IH start_thread_inv stop_thread_inv select_tunnel_inv
    by (simp add: start_netdevgen_xmit_one_thread_def ndg_inv_def)
  have r: "ndg_inv (ndg_proc_read g)"
    using step.IH start_thread_inv [OF step.IH] by (simp add: ndg_proc_read_def start_stop_def ndg_inv_def)
  from step.hyps(2) w r thread_step_inv [OF step.IH] xmit_one_inv [OF step.IH] show ?case by (auto elim: ndg_step_elim)
qed

text \<open>In every reachable state a read of the proc file starts a thread unless one runs;
  it never stops one, because the flag it tests is never set.\<close>

lemma proc_read_never_stops:
  assumes "ndg_reach env ov pad g"
  shows "ndg_proc_read g = start_netdevgen_thread g \<and> stop_req (ndg_proc_read g) = stop_req g"
  using ndg_reach_inv [OF assms] by (simp add: ndg_inv_def ndg_proc_read_def start_stop_def start_netdevgen_thread_def)

definition ndg0 :: ndg where
  "ndg0 = \<lparr>ndg_tsk = None, ndg_thread_running = False, threads = (\<lambda>t. None), next_tid = 0, stop_req = {}, one_shots = 0,
     sent = [], srcip = 0, dstip = 0, ovtype = 0, start = 0\<rparr>"

definition ndg_env0 :: ndg_env where
  "ndg_env0 = \<lparr>pktlen = 46, measure_pps = True, ns_ok = True, alloc_ok = True, ndg_route_ok = True, clone_ok = True, ident = 1\<rparr>"

lemma ndg0_reach: "ndg_reach ndg_env0 (\<lambda>s. 1) (\<lambda>n. 0) ndg0"
  by (rule ndg_reach.load [of ndg0]) (simp_all add: ndg0_def netdevgen_init_def)

lemma proc_read_never_stops_witness:
  "ndg_proc_read ndg0 = start_netdevgen_thread ndg0"
  using proc_read_never_stops [OF ndg0_reach] by simp

text \<open>\<open>n\<close> steps of one thread.\<close>

fun thread_steps :: "ndg_env \<Rightarrow> (nat \<Rightarrow> u8) \<Rightarrow> nat \<Rightarrow> nat \<Rightarrow> ndg \<Rightarrow> ndg option" where
  "thread_steps env pad t 0 g = Some g"
| "thread_steps env pad t (Suc n) g = do { g \<leftarrow> netdevgen_thread_step env pad t g; thread_steps env pad t n g }"

lemma loop_sends:
  assumes "threads g t = Some (Looping b)" "t \<notin> stop_req g" "clone_ok env"
  shows "thread_steps env pad t n g = Some (g\<lparr>sent := sent g @ replicate n b\<rparr>)"
  using assms by (induction n arbitrary: g) (simp_all add: netdevgen_thread_step_def replicate_app_Cons_same)

lemma build_succeeds:
  assumes "ns_ok env" "alloc_ok env" "ndg_route_ok env" "28 \<le> pktlen env"
  shows "\<exists>b. netdevgen_build_packet env pad sip dip = Some (Packet b) \<and> int (length b) = pktlen env"
  using assms by (simp add: netdevgen_build_packet_def ndg_ip_header_def ndg_udp_header_def)

lemma fresh_starts:
  assumes "threads g t = Some Fresh" "t \<notin> stop_req g" "netdevgen_build_packet env pad (srcip g) (dstip g) = Some (Packet b)"
  shows "thread_steps env pad t 2 g = Some (g\<lparr>ndg_thread_running := True, threads := (threads g)(t \<mapsto> Looping b)\<rparr>)"
  using assms by (simp add: numeral_2_eq_2 netdevgen_thread_step_def)

text \<open>Property C40: two start commands in a row, before the first thread has run, leave two threads
  that send: two steps of each set the flag and build the packet. The generator remembers the second only: a stop command ends that one, after which
  the running flag is clear, so that no later stop command does anything, and the first thread
  keeps sending for ever.\<close>

theorem double_start_loses_thread:
  assumes reach: "ndg_reach env ov pad g" and idle: "\<not> ndg_thread_running g"
    and env: "ns_ok env" "alloc_ok env" "ndg_route_ok env" "28 \<le> pktlen env" "clone_ok env"
  shows "\<exists>t u b g3 g4 g5. t \<noteq> u \<and>
    thread_steps env pad t 2 (start_netdevgen_thread (start_netdevgen_thread g)) = Some g3 \<and>
    thread_steps env pad u 2 g3 = Some g4 \<and>
    netdevgen_thread_step env pad u (stop_netdevgen_thread g4) = Some g5 \<and> threads g5 u = Some Ended \<and>
    (\<forall>n. \<exists>h. thread_steps env pad t n g5 = Some h \<and> sent h = sent g5 @ replicate n b \<and> stop_netdevgen_thread h = h)"
proof -
  let ?t = "next_tid g" and ?u = "Suc (next_tid g)" and ?g2 = "start_netdevgen_thread (start_netdevgen_thread g)"
  obtain b where b: "netdevgen_build_packet env pad (srcip g) (dstip g) = Some (Packet b)" using build_succeeds [OF env(1-4)] by blast
  define g3 where "g3 = ?g2\<lparr>ndg_thread_running := True, threads := (threads ?g2)(?t \<mapsto> Looping b)\<rparr>"
  define g4 where "g4 = g3\<lparr>threads := (threads g3)(?u \<mapsto> Looping b)\<rparr>"
  define g5 where "g5 = (stop_netdevgen_thread g4)\<lparr>ndg_thread_running := False, threads := (threads g4)(?u \<mapsto> Ended)\<rparr>"
  have g2: "threads ?g2 ?t = Some Fresh" "threads ?g2 ?u = Some Fresh" "ndg_tsk ?g2 = Some ?u" "stop_req ?g2 = stop_req g"
      "srcip ?g2 = srcip g" "dstip ?g2 = dstip g"
    using idle by (simp_all add: start_netdevgen_thread_def)
  have new: "?t \<notin> stop_req g" "?u \<notin> stop_req g" using ndg_reach_inv [OF reach] by (auto simp: ndg_inv_def)
  have s3: "thread_steps env pad ?t 2 ?g2 = Some g3" using fresh_starts [of ?g2 ?t] g2 b new by (simp add: g3_def)
  have s4: "thread_steps env pad ?u 2 g3 = Some g4" using fresh_starts [of g3 ?u] g2 b new by (simp add: g3_def g4_def)
  have st: "stop_netdevgen_thread g4 = g4\<lparr>stop_req := insert ?u (stop_req g)\<rparr>"
    using g2 by (simp add: stop_netdevgen_thread_def g3_def g4_def)
  have s5: "netdevgen_thread_step env pad ?u (stop_netdevgen_thread g4) = Some g5"
    unfolding g5_def st by (simp add: netdevgen_thread_step_def g4_def)
  have g5: "threads g5 ?t = Some (Looping b)" "\<not> ndg_thread_running g5" "threads g5 ?u = Some Ended"
    by (simp_all add: g5_def g4_def g3_def)
  have run: "?t \<notin> stop_req g5" unfolding g5_def st using new by simp
  have "stop_netdevgen_thread (g5\<lparr>sent := xs\<rparr>) = g5\<lparr>sent := xs\<rparr>" for xs
    using g5(2) by (simp add: stop_netdevgen_thread_def split: option.split)
  with s3 s4 s5 g5(3) loop_sends [OF g5(1) run env(5)] show ?thesis
    by (intro exI [of _ ?t] exI [of _ ?u] exI [of _ b] exI [of _ g3] exI [of _ g4] exI [of _ g5]) simp
qed

theorem double_start_loses_thread_witness:
  "\<exists>t u g3 g4 g5. t \<noteq> u \<and>
    thread_steps ndg_env0 (\<lambda>n. 0) t 2 (start_netdevgen_thread (start_netdevgen_thread ndg0)) = Some g3 \<and>
    thread_steps ndg_env0 (\<lambda>n. 0) u 2 g3 = Some g4 \<and>
    netdevgen_thread_step ndg_env0 (\<lambda>n. 0) u (stop_netdevgen_thread g4) = Some g5 \<and>
    (\<exists>b h. thread_steps ndg_env0 (\<lambda>n. 0) t 3 g5 = Some h \<and> sent h = sent g5 @ [b, b, b] \<and> stop_netdevgen_thread h = h)"
proof -
  have r: "replicate 3 b = [b, b, b]" for b :: "u8 list" by (simp add: numeral_3_eq_3)
  have e: "ns_ok ndg_env0" "alloc_ok ndg_env0" "ndg_route_ok ndg_env0" "28 \<le> pktlen ndg_env0" "clone_ok ndg_env0" "\<not> ndg_thread_running ndg0"
    by (simp_all add: ndg_env0_def ndg0_def)
  show ?thesis using double_start_loses_thread [OF ndg0_reach e(6,1-5)] r by metis
qed

text \<open>A packet that is built has exactly the configured length, and a length below the two headers
  crashes the kernel.\<close>

lemma packet_length:
  "netdevgen_build_packet env pad sip dip = Some (Packet b) \<Longrightarrow> int (length b) = pktlen env"
  "ns_ok env \<Longrightarrow> pktlen env < 28 \<Longrightarrow> netdevgen_build_packet env pad sip dip = None"
  by (auto simp: netdevgen_build_packet_def ndg_ip_header_def ndg_udp_header_def split: if_splits)

end
