(* ===== verification/Patricia_Walk.thy ===== *)
theory Patricia_Walk
  imports Patricia_Spec "HOL-Library.Multiset"
begin

text \<open>
  The traversals of \<^verbatim>\<open>patricia.c\<close>: the macro pair \<^verbatim>\<open>PATRICIA_WALK\<close>/\<^verbatim>\<open>PATRICIA_WALK_END\<close>
  behind \<^verbatim>\<open>patricia_process\<close> and \<^verbatim>\<open>patricia_process2\<close>, the recursive
  \<^verbatim>\<open>patricia_walk_inorder\<close>, and \<^verbatim>\<open>Clear_Patricia\<close> with \<^verbatim>\<open>Destroy_Patricia\<close>. The walks keep
  the right siblings still to be visited in an array of \<^verbatim>\<open>PATRICIA_MAXBITS + 1\<close> slots, whose
  overflow is \<open>None\<close> here as in the searches. The callback is a function on a state of the
  caller, which is where its effects go. The counter \<^verbatim>\<open>num_active_patricia\<close>, which no code
  reads, is left out, as it is in \<^const>\<open>New_Patricia\<close>.

  A walk is related to the tree by the list of the subtrees that are still to be visited:
  the first one is at the current node, the others are on the stack.
\<close>

section \<open>The walks\<close>

text \<open>\<^verbatim>\<open>PATRICIA_WALK_END\<close>: the left child, then the right one, then the newest sibling kept.\<close>

definition walk_next :: "ptr \<Rightarrow> ptr \<Rightarrow> addr list \<Rightarrow> (ptr \<times> addr list) option" where
  "walk_next lp rp stk =
     (case lp of
        Some a \<Rightarrow> (case rp of
                     Some b \<Rightarrow> do { stk \<leftarrow> push_stack stk b; Some (Some a, stk) }
                   | None \<Rightarrow> Some (Some a, stk))
      | None \<Rightarrow> (case rp of
                   Some b \<Rightarrow> Some (Some b, stk)
                 | None \<Rightarrow> (case stk of [] \<Rightarrow> Some (None, []) | a # stk \<Rightarrow> Some (Some a, stk))))"

partial_function (option) walk_loop ::
  "pheap \<Rightarrow> (ptr \<Rightarrow> ptr \<Rightarrow> 'u \<Rightarrow> 'u) \<Rightarrow> ptr \<Rightarrow> addr list \<Rightarrow> 'u \<Rightarrow> 'u option" where
  "walk_loop h func xrn stk u =
     (case xrn of
        None \<Rightarrow> Some u
      | Some a \<Rightarrow> do {
          n \<leftarrow> pnodes h a;
          (xrn, stk) \<leftarrow> walk_next (l_ptr n) (r_ptr n) stk;
          walk_loop h func xrn stk (if prefix n = None then u else func (prefix n) (data n) u) })"

definition patricia_process ::
  "pheap \<Rightarrow> patricia_tree_t \<Rightarrow> (ptr \<Rightarrow> ptr \<Rightarrow> 'u \<Rightarrow> 'u) \<Rightarrow> 'u \<Rightarrow> 'u option" where
  "patricia_process h T func u = walk_loop h func (head T) [] u"

definition patricia_process2 ::
  "pheap \<Rightarrow> patricia_tree_t \<Rightarrow> (ptr \<Rightarrow> ptr \<Rightarrow> ptr \<Rightarrow> ptr \<Rightarrow> 'u \<Rightarrow> 'u) \<Rightarrow> ptr \<Rightarrow> ptr \<Rightarrow> 'u \<Rightarrow> 'u option" where
  "patricia_process2 h T func user1 user2 u = walk_loop h (\<lambda>p d. func p d user1 user2) (head T) [] u"

text \<open>The number returned counts nodes in memory, so the \<^verbatim>\<open>size_t\<close> does not wrap.\<close>

partial_function (option) patricia_walk_inorder ::
  "pheap \<Rightarrow> addr \<Rightarrow> (ptr \<Rightarrow> ptr \<Rightarrow> 'u \<Rightarrow> 'u) \<Rightarrow> 'u \<Rightarrow> (nat \<times> 'u) option" where
  "patricia_walk_inorder h node func u = do {
     n \<leftarrow> pnodes h node;
     (c1, u) \<leftarrow> (case l_ptr n of None \<Rightarrow> Some (0, u) | Some a \<Rightarrow> patricia_walk_inorder h a func u);
     let (c2, u) = (if prefix n = None then (0, u) else (1, func (prefix n) (data n) u));
     (c3, u) \<leftarrow> (case r_ptr n of None \<Rightarrow> Some (0, u) | Some a \<Rightarrow> patricia_walk_inorder h a func u);
     Some (c1 + c2 + c3, u) }"

text \<open>The work of \<^verbatim>\<open>Clear_Patricia\<close> at a node before it is freed: the prefix loses a reference
  and the callback, when there is one, is given the data, when there is some.\<close>

definition clear_prefix ::
  "(addr \<Rightarrow> 'u \<Rightarrow> 'u) option \<Rightarrow> patricia_node_t \<Rightarrow> pheap \<Rightarrow> 'u \<Rightarrow> (pheap \<times> 'u) option" where
  "clear_prefix func n h u =
     (if prefix n = None then Some (h, u)
      else do {
        h \<leftarrow> Deref_Prefix h (prefix n);
        Some (h, (case data n of None \<Rightarrow> u
                  | Some d \<Rightarrow> (case func of None \<Rightarrow> u | Some f \<Rightarrow> f d u))) })"

partial_function (option) clear_loop ::
  "(addr \<Rightarrow> 'u \<Rightarrow> 'u) option \<Rightarrow> ptr \<Rightarrow> addr list \<Rightarrow> pheap \<Rightarrow> patricia_tree_t \<Rightarrow> 'u
    \<Rightarrow> (pheap \<times> patricia_tree_t \<times> 'u) option" where
  "clear_loop func xrn stk h T u =
     (case xrn of
        None \<Rightarrow> Some (h, T, u)
      | Some a \<Rightarrow> do {
          n \<leftarrow> pnodes h a;
          (h, u) \<leftarrow> clear_prefix func n h u;
          h \<leftarrow> free_node h a;
          (xrn, stk) \<leftarrow> walk_next (l_ptr n) (r_ptr n) stk;
          clear_loop func xrn stk h (T\<lparr>num_active_node := num_active_node T - 1\<rparr>) u })"

definition Clear_Patricia ::
  "(addr \<Rightarrow> 'u \<Rightarrow> 'u) option \<Rightarrow> pheap \<Rightarrow> patricia_tree_t \<Rightarrow> 'u \<Rightarrow> (pheap \<times> patricia_tree_t \<times> 'u) option" where
  "Clear_Patricia func h T u =
     (if head T = None then Some (h, T, u) else clear_loop func (head T) [] h T u)"

text \<open>\<^verbatim>\<open>Destroy_Patricia\<close> frees the tree header too, so that only the store remains.\<close>

definition Destroy_Patricia ::
  "(addr \<Rightarrow> 'u \<Rightarrow> 'u) option \<Rightarrow> pheap \<Rightarrow> patricia_tree_t \<Rightarrow> 'u \<Rightarrow> (pheap \<times> 'u) option" where
  "Destroy_Patricia func h T u = do { (h, _, u) \<leftarrow> Clear_Patricia func h T u; Some (h, u) }"

section \<open>The entries of a tree in the order of a walk\<close>

type_synonym pentry = "bool list \<times> addr \<times> addr \<times> ptr"

definition own_entry :: "addr \<Rightarrow> pkey \<Rightarrow> ptr \<Rightarrow> pentry list" where
  "own_entry a pf d = (case pf of None \<Rightarrow> [] | Some (pa, k) \<Rightarrow> [(k, pa, a, d)])"

fun preord :: "ptree \<Rightarrow> pentry list" where
  "preord PLf = []"
| "preord (PNd a b pf d lt rt) = own_entry a pf d @ preord lt @ preord rt"

fun inord :: "ptree \<Rightarrow> pentry list" where
  "inord PLf = []"
| "inord (PNd a b pf d lt rt) = inord lt @ own_entry a pf d @ inord rt"

definition entry_of :: "pentry \<Rightarrow> bool list \<times> addr \<times> ptr" where
  "entry_of e = (case e of (k, pa, a, d) \<Rightarrow> (k, a, d))"

definition call :: "(ptr \<Rightarrow> ptr \<Rightarrow> 'u \<Rightarrow> 'u) \<Rightarrow> pentry \<Rightarrow> 'u \<Rightarrow> 'u" where
  "call func e = (case e of (k, pa, a, d) \<Rightarrow> func (Some pa) d)"

text \<open>Keys in the order of an address list: a prefix before its extensions, 0 before 1.\<close>

abbreviation key_less :: "bool list \<Rightarrow> bool list \<Rightarrow> bool" where
  "key_less k k' \<equiv> (k, k') \<in> lexord {(False, True)}"

lemma entries_set:
  "entry_of ` set (preord t) = ents t" "set (inord t) = set (preord t)" "length (inord t) = length (preord t)"
  by (induction t) (auto simp: own_entry_def own_ents_def entry_of_def image_Un split: option.splits)

lemma preord_key: "e \<in> set (preord t) \<Longrightarrow> fst e \<in> keys t"
  by (induction t) (auto simp: own_entry_def split: option.splits)

lemma preord_addrs: "map (\<lambda>(k, pa, a, d). pa) (preord t) = tprefs t"
  by (induction t) (auto simp: own_entry_def own_prefs_def split: option.splits)

lemma lexord_step:
  assumes "take b k = take b k'" "b < length k'" "b < length k \<longrightarrow> \<not> k ! b \<and> k' ! b" "b \<le> length k"
  shows "key_less k k'"
proof (cases "b < length k")
  case True
  have "k = take b k @ k ! b # drop (Suc b) k" "k' = take b k @ k' ! b # drop (Suc b) k'"
    using True assms(1,2) by (metis id_take_nth_drop)+
  with True assms(3) show ?thesis by (metis (full_types) lexord_append_leftI lexord_cons_cons insertI1)
next
  case False
  then have "k' = k @ k' ! b # drop (Suc b) k'"
    using assms by (metis id_take_nth_drop le_antisym not_less take_all)
  then show ?thesis by (metis lexord_append_rightI)
qed

lemma preord_sorted: "wf_trie t \<Longrightarrow> sorted_wrt (\<lambda>e e'. key_less (fst e) (fst e')) (preord t)"
proof (induction t)
  case (PNd a b pf d lt rt)
  have w: "wf_trie lt" "wf_trie rt" "branch_ok b False lt" "branch_ok b True rt"
      "\<And>pa k. pf = Some (pa, k) \<Longrightarrow> length k = b"
    using PNd.prems by simp_all
  have agr: "take b k = take b k'" if "k \<in> keys (PNd a b pf d lt rt)" "k' \<in> keys (PNd a b pf d lt rt)" for k k'
    using wf_keys_agree [OF PNd.prems that, of b] by simp
  have "key_less k k'" if "k \<in> keys lt" "k' \<in> keys rt" for k k'
    using that w(3,4) agr [of k k'] by (intro lexord_step [of b]) (auto simp: branch_ok_def)
  moreover have "key_less k k'" if "pf = Some (pa, k)" "k' \<in> keys lt \<union> keys rt" for k k' pa
    using that w(3,4) w(5) [OF that(1)] agr [of k k'] by (intro lexord_step [of b]) (auto simp: branch_ok_def)
  ultimately show ?case
    using PNd.IH w(1,2)
    by (auto simp: sorted_wrt_append own_entry_def dest!: preord_key split: option.splits)
qed simp

section \<open>The walk over the subtrees still to be visited\<close>

definition cur :: "ptree list \<Rightarrow> ptr" where
  "cur ts = (case ts of [] \<Rightarrow> None | t # _ \<Rightarrow> troot t)"

definition pend :: "ptree list \<Rightarrow> addr list" where
  "pend ts = map (\<lambda>t. the (troot t)) (tl ts)"

definition below :: "ptree \<Rightarrow> ptree \<Rightarrow> ptree list \<Rightarrow> ptree list" where
  "below lt rt ts = filter (\<lambda>t. t \<noteq> PLf) [lt, rt] @ ts"

text \<open>A subtree with \<open>m\<close> siblings below it on the stack hangs at bit \<open>m\<close> or deeper.\<close>

fun stack_ok :: "pheap \<Rightarrow> nat \<Rightarrow> ptree list \<Rightarrow> bool" where
  "stack_ok h mb [] \<longleftrightarrow> True"
| "stack_ok h mb (t # ts) \<longleftrightarrow> t \<noteq> PLf \<and> wf_trie t \<and> length ts \<le> tbit t \<and> (\<exists>par. rep h mb par t) \<and> stack_ok h mb ts"

lemma stack_ok_below:
  assumes "stack_ok h mb (PNd a b pf d lt rt # ts)"
  shows "stack_ok h mb (below lt rt ts)"
  using assms by (auto simp: below_def branch_ok_def)

lemma walk_next_below:
  assumes "stack_ok h mb (PNd a b pf d lt rt # ts)" "mb \<le> PATRICIA_MAXBITS"
  shows "walk_next (troot lt) (troot rt) (pend (PNd a b pf d lt rt # ts)) =
    Some (cur (below lt rt ts), pend (below lt rt ts))"
proof -
  obtain par where "rep h mb par (PNd a b pf d lt rt)" "wf_trie (PNd a b pf d lt rt)"
    using assms(1) unfolding stack_ok.simps by blast
  from rep_tbit_bound [OF this] have "b \<le> mb" by simp
  then have room: "length ts < PATRICIA_MAXBITS + 1" using assms by simp
  show ?thesis
  proof (cases "lt = PLf \<and> rt = PLf")
    case True
    show ?thesis
    proof (cases ts)
      case Nil
      with True show ?thesis by (simp add: walk_next_def below_def cur_def pend_def)
    next
      case (Cons s ss)
      then obtain c where "troot s = Some c" using assms(1) by (cases s) auto
      with True Cons show ?thesis by (simp add: walk_next_def below_def cur_def pend_def)
    qed
  next
    case False
    with room show ?thesis
      by (cases lt; cases rt) (simp_all add: walk_next_def below_def cur_def pend_def push_stack_def)
  qed
qed

lemma forest_size_below:
  "length (concat (map taddrs (below lt rt ts))) < length (concat (map taddrs (PNd a b pf d lt rt # ts)))"
  by (simp add: below_def)

lemma preord_below: "concat (map preord (below lt rt ts)) = preord lt @ preord rt @ concat (map preord ts)"
  by (simp add: below_def)

lemma walk_loop_forest:
  assumes "stack_ok h mb ts" "mb \<le> PATRICIA_MAXBITS"
  shows "walk_loop h func (cur ts) (pend ts) u = Some (fold (call func) (concat (map preord ts)) u)"
  using assms
proof (induction ts arbitrary: u rule: measure_induct_rule [where f = "\<lambda>ts. length (concat (map taddrs ts))"])
  case (less ts)
  show ?case
  proof (cases ts)
    case Nil
    then show ?thesis by (subst walk_loop.simps) (simp add: cur_def)
  next
    case (Cons t rest)
    with less.prems obtain a b pf d lt rt where t: "t = PNd a b pf d lt rt" by (cases t) auto
    obtain par where n: "pnodes h a = Some (node_of b pf (troot lt) (troot rt) par d)"
      using less.prems(1) by (auto simp: Cons t)
    have ok: "stack_ok h mb (PNd a b pf d lt rt # rest)" using less.prems(1) by (simp add: Cons t)
    have size: "length (concat (map taddrs (below lt rt rest))) < length (concat (map taddrs ts))"
      unfolding Cons t by (rule forest_size_below)
    have "cur ts = Some a" by (simp add: Cons t cur_def)
    then have "walk_loop h func (cur ts) (pend ts) u =
        walk_loop h func (cur (below lt rt rest)) (pend (below lt rt rest))
          (fold (call func) (own_entry a pf d) u)"
      using walk_next_below [OF ok less.prems(2)] n
      by (subst walk_loop.simps) (auto simp: Cons t own_entry_def call_def split: option.splits)
    then show ?thesis
      using less.IH [OF size stack_ok_below [OF ok] less.prems(2)]
      by (simp add: preord_below) (simp add: Cons t)
  qed
qed

lemma stack_ok_tree: "rep h mb None t \<Longrightarrow> wf_trie t \<Longrightarrow> t \<noteq> PLf \<Longrightarrow> stack_ok h mb [t]"
  by auto

lemma process_at:
  assumes "trie_at h T t"
  shows "patricia_process h T func u = Some (fold (call func) (preord t) u)"
proof (cases "t = PLf")
  case True
  with assms show ?thesis
    by (simp add: trie_at_def patricia_process_def) (subst walk_loop.simps, simp)
next
  case False
  with assms have "stack_ok h (maxbits T) [t]" "maxbits T \<le> PATRICIA_MAXBITS" "head T = cur [t]" "pend [t] = []"
    by (auto simp: trie_at_def cur_def pend_def)
  with walk_loop_forest [of h "maxbits T" "[t]" func u] show ?thesis by (simp add: patricia_process_def)
qed

lemma walk_inorder_at:
  "rep h mb par t \<Longrightarrow> troot t = Some a \<Longrightarrow>
    patricia_walk_inorder h a func u = Some (length (inord t), fold (call func) (inord t) u)"
proof (induction t arbitrary: par a u)
  case (PNd x b pf d lt rt)
  have n: "pnodes h a = Some (node_of b pf (troot lt) (troot rt) par d)" using PNd.prems by simp
  have sub: "rep h mb (Some x) lt" "rep h mb (Some x) rt" using PNd.prems(1) by simp_all
  have child: "(case troot s of None \<Rightarrow> Some (0, u) | Some c \<Rightarrow> patricia_walk_inorder h c func u) =
      Some (length (inord s), fold (call func) (inord s) u)" if "s \<in> {lt, rt}" for s u
    using that PNd.IH(1) [OF sub(1)] PNd.IH(2) [OF sub(2)] by (cases s) auto
  have own: "(if map_option fst pf = None then (0, u) else (1, func (map_option fst pf) d u)) =
      (length (own_entry x pf d), fold (call func) (own_entry x pf d) u)" for u
    by (auto simp: own_entry_def call_def split: option.splits)
  show ?case
    unfolding patricia_walk_inorder.simps [of h a]
    by (simp only: n child own Option.bind.bind_lunit patricia_node_t.simps insertI1 insertI2 inord.simps
        case_prod_conv Let_def fold_append o_apply length_append add.assoc)
qed simp

section \<open>Clearing\<close>

lemma rep_taddrs_dom: "rep h mb par t \<Longrightarrow> set (taddrs t) \<subseteq> dom (pnodes h)"
  by (induction t arbitrary: par) (simp, fastforce)

definition drop_ref :: "prefix_t option \<Rightarrow> prefix_t option" where
  "drop_ref pp = (case pp of None \<Rightarrow> None
     | Some p \<Rightarrow> if ref_count p \<le> 1 then None else Some (p\<lparr>ref_count := ref_count p - 1\<rparr>))"

text \<open>The store without the nodes of \<open>A\<close> and with one reference less on each prefix of \<open>P\<close>.\<close>

definition cleared :: "addr set \<Rightarrow> addr set \<Rightarrow> pheap \<Rightarrow> pheap" where
  "cleared A P h = h\<lparr>pnodes := pnodes h |` (- A),
     pprefixes := (\<lambda>pa. if pa \<in> P then drop_ref (pprefixes h pa) else pprefixes h pa)\<rparr>"

definition give :: "(addr \<Rightarrow> 'u \<Rightarrow> 'u) option \<Rightarrow> pentry \<Rightarrow> 'u \<Rightarrow> 'u" where
  "give func e = (case e of (k, pa, a, None) \<Rightarrow> id
     | (k, pa, a, Some d) \<Rightarrow> (case func of None \<Rightarrow> id | Some f \<Rightarrow> f d))"

definition tree_minus :: "nat \<Rightarrow> patricia_tree_t \<Rightarrow> patricia_tree_t" where
  "tree_minus n T = T\<lparr>num_active_node := num_active_node T - int n\<rparr>"

lemma cleared_cleared: "P \<inter> P' = {} \<Longrightarrow> cleared A' P' (cleared A P h) = cleared (A \<union> A') (P \<union> P') h"
  by (rule pheap.equality) (auto simp: cleared_def restrict_map_def fun_eq_iff)

lemma tree_minus_Suc: "tree_minus n (T\<lparr>num_active_node := num_active_node T - 1\<rparr>) = tree_minus (Suc n) T"
  by (simp add: tree_minus_def)

lemma cleared_empty [simp]: "cleared {} {} h = h"
  by (rule pheap.equality) (auto simp: cleared_def restrict_map_def)

lemma rep_cleared:
  "rep h mb par t \<Longrightarrow> A \<inter> set (taddrs t) = {} \<Longrightarrow> P \<inter> set (tprefs t) = {} \<Longrightarrow> rep (cleared A P h) mb par t"
  by (rule rep_frame) (auto simp: same_nodes_def same_prefixes_def cleared_def restrict_map_def)

lemma stack_ok_cleared:
  "stack_ok h mb ts \<Longrightarrow> A \<inter> set (concat (map taddrs ts)) = {} \<Longrightarrow> P \<inter> set (concat (map tprefs ts)) = {} \<Longrightarrow>
    stack_ok (cleared A P h) mb ts"
proof (induction ts)
  case (Cons t ts)
  then obtain par where "rep h mb par t" by auto
  then have "rep (cleared A P h) mb par t" using Cons.prems by (intro rep_cleared) auto
  then show ?case using Cons by (auto simp: Int_Un_distrib)
qed simp

lemma clear_prefix_free:
  assumes "pnodes h a = Some (node_of b pf lp rp par d)" "pkey_ok h mb pf"
  shows "\<exists>h'. clear_prefix func (node_of b pf lp rp par d) h u = Some (h', fold (give func) (own_entry a pf d) u) \<and>
    free_node h' a = Some (cleared {a} (set (own_prefs pf)) h)"
proof (cases pf)
  case None
  with assms(1) show ?thesis
    by (auto simp: clear_prefix_def own_entry_def own_prefs_def cleared_def free_node_def restrict_map_def
        intro!: pheap.equality)
next
  case (Some pk)
  then obtain pa k p where pk: "pf = Some (pa, k)" and p: "pprefixes h pa = Some p"
    using assms(2) by (cases pk) (auto simp: pkey_ok_def prefix_ok_def)
  let ?h = "old_store h pa p (pnodes h)"
  have "clear_prefix func (node_of b pf lp rp par d) h u = Some (?h, fold (give func) (own_entry a pf d) u)"
    using Deref_Prefix_spec [OF p] by (auto simp: pk clear_prefix_def own_entry_def give_def split: option.splits)
  moreover have "free_node ?h a = Some (cleared {a} (set (own_prefs pf)) h)"
    using assms(1) p by (auto simp: pk free_node_def own_prefs_def cleared_def old_store_def drop_ref_def
        restrict_map_def intro!: pheap.equality)
  ultimately show ?thesis by blast
qed

lemma clear_loop_forest:
  assumes "stack_ok h mb ts" "mb \<le> PATRICIA_MAXBITS"
    "distinct (concat (map taddrs ts))" "distinct (concat (map tprefs ts))"
  shows "clear_loop func (cur ts) (pend ts) h T u =
    Some (cleared (set (concat (map taddrs ts))) (set (concat (map tprefs ts))) h,
      tree_minus (length (concat (map taddrs ts))) T, fold (give func) (concat (map preord ts)) u)"
  using assms
proof (induction ts arbitrary: h T u rule: measure_induct_rule [where f = "\<lambda>ts. length (concat (map taddrs ts))"])
  case (less ts)
  show ?case
  proof (cases ts)
    case Nil
    then show ?thesis by (subst clear_loop.simps) (simp add: cur_def tree_minus_def)
  next
    case (Cons t rest)
    with less.prems obtain a b pf d lt rt where t: "t = PNd a b pf d lt rt" by (cases t) auto
    obtain par where n: "pnodes h a = Some (node_of b pf (troot lt) (troot rt) par d)" and pk: "pkey_ok h mb pf"
      using less.prems(1) by (auto simp: Cons t)
    let ?ts = "below lt rt rest" and ?P = "set (own_prefs pf)"
    let ?h = "cleared {a} ?P h" and ?T = "T\<lparr>num_active_node := num_active_node T - 1\<rparr>"
    let ?u = "fold (give func) (own_entry a pf d) u"
    have ok: "stack_ok h mb (PNd a b pf d lt rt # rest)" using less.prems(1) by (simp add: Cons t)
    have addrs: "concat (map taddrs ts) = a # concat (map taddrs ?ts)"
      and prefs: "concat (map tprefs ts) = own_prefs pf @ concat (map tprefs ?ts)"
      and entries: "concat (map preord ts) = own_entry a pf d @ concat (map preord ?ts)"
      by (simp_all add: Cons t below_def)
    have size: "length (concat (map taddrs ?ts)) < length (concat (map taddrs ts))" by (simp add: addrs)
    have dist: "distinct (concat (map taddrs ?ts))" "distinct (concat (map tprefs ?ts))"
      and out: "{a} \<inter> set (concat (map taddrs ?ts)) = {}" "?P \<inter> set (concat (map tprefs ?ts)) = {}"
      using less.prems(3,4) unfolding addrs prefs by (auto simp del: set_concat)
    have ok': "stack_ok ?h mb ?ts" using stack_ok_cleared [OF stack_ok_below [OF ok] out] .
    have cur: "cur ts = Some a" by (simp add: Cons t cur_def)
    obtain h' where h': "clear_prefix func (node_of b pf (troot lt) (troot rt) par d) h u = Some (h', ?u)"
        "free_node h' a = Some ?h"
      using clear_prefix_free [OF n pk, of func u] by (elim exE conjE) (rule that)
    have "clear_loop func (cur ts) (pend ts) h T u = clear_loop func (cur ?ts) (pend ?ts) ?h ?T ?u"
      using walk_next_below [OF ok less.prems(2), folded t, folded Cons]
      by (subst clear_loop.simps) (simp add: cur n h')
    also have "\<dots> = Some (cleared (set (concat (map taddrs ?ts))) (set (concat (map tprefs ?ts))) ?h,
        tree_minus (length (concat (map taddrs ?ts))) ?T, fold (give func) (concat (map preord ?ts)) ?u)"
      by (rule less.IH [OF size ok' less.prems(2) dist])
    also have "\<dots> = Some (cleared (set (concat (map taddrs ts))) (set (concat (map tprefs ts))) h,
        tree_minus (length (concat (map taddrs ts))) T, fold (give func) (concat (map preord ts)) u)"
      unfolding cleared_cleared [OF out(2)] tree_minus_Suc addrs prefs entries
      by (simp only: set_append list.set list.size Un_insert_left Un_empty_left fold_append o_apply Nat.add_0_right
          add_Suc_right)
    finally show ?thesis .
  qed
qed

lemma clear_at:
  assumes "trie_at h T t"
  shows "Clear_Patricia func h T u =
    Some (cleared (set (taddrs t)) (set (tprefs t)) h, T\<lparr>num_active_node := 0\<rparr>, fold (give func) (preord t) u)"
proof (cases "t = PLf")
  case True
  with assms show ?thesis by (simp add: trie_at_def Clear_Patricia_def)
next
  case False
  from assms have T: "rep h (maxbits T) None t" "wf_trie t" "distinct (taddrs t)" "distinct (tprefs t)"
      "maxbits T \<le> PATRICIA_MAXBITS" "head T = troot t" "num_active_node T = int (length (taddrs t))"
    by (auto simp: trie_at_def)
  have "clear_loop func (cur [t]) (pend [t]) h T u =
      Some (cleared (set (taddrs t)) (set (tprefs t)) h, tree_minus (length (taddrs t)) T, fold (give func) (preord t) u)"
    using clear_loop_forest [OF stack_ok_tree [OF T(1,2) False] T(5)] T(3,4) by simp
  then show ?thesis using T(6,7) False by (simp add: Clear_Patricia_def cur_def pend_def tree_minus_def)
qed

section \<open>The properties\<close>

text \<open>The entries of a trie, with their prefix objects, by increasing key.\<close>

definition listing_of :: "pheap \<Rightarrow> lpm_entries \<Rightarrow> addr set \<Rightarrow> pentry list \<Rightarrow> bool" where
  "listing_of h E U es \<longleftrightarrow> sorted_wrt key_less (map fst es) \<and> entry_of ` set es = E \<and>
     (\<lambda>(k, pa, a, d). pa) ` set es = U \<and>
     (\<forall>(k, pa, a, d) \<in> set es. \<exists>p. pprefixes h pa = Some p \<and> key_of p = k)"

lemma preord_prefix:
  "rep h mb par t \<Longrightarrow> (k, pa, a, d) \<in> set (preord t) \<Longrightarrow> \<exists>p. pprefixes h pa = Some p \<and> key_of p = k"
  by (induction t arbitrary: par)
    (auto simp: own_entry_def pkey_ok_def prefix_ok_def split: option.splits)

lemma listing_preord:
  assumes "trie_at h T t"
  shows "listing_of h (ents t) (set (tprefs t)) (preord t)"
  using assms preord_sorted [of t] preord_prefix [of h "maxbits T" None t] arg_cong [OF preord_addrs [of t], of set]
  unfolding listing_of_def trie_at_def by (auto simp: sorted_wrt_map entries_set)

lemma mset_inord: "mset (inord t) = mset (preord t)"
  by (induction t) auto

text \<open>Property C15: on every well-formed trie \<^verbatim>\<open>patricia_process\<close> and \<^verbatim>\<open>patricia_process2\<close> return, without
  a bad dereference or an overflow of their stack, after calling the function exactly once for
  each stored prefix with its data, in increasing order of the prefixes (a prefix before its
  extensions, otherwise by the first bit that differs). \<^verbatim>\<open>patricia_walk_inorder\<close> from the root makes
  the same calls in another order and returns their number.\<close>

theorem process_visits_all:
  assumes "trie_rep h T E U"
  shows "\<exists>es es'. listing_of h E U es \<and> mset es' = mset es \<and>
    (\<forall>func u. patricia_process h T func u = Some (fold (\<lambda>(k, pa, a, d). func (Some pa) d) es u)) \<and>
    (\<forall>func x y v. patricia_process2 h T func x y v = Some (fold (\<lambda>(k, pa, a, d). func (Some pa) d x y) es v)) \<and>
    (\<forall>r func w. head T = Some r \<longrightarrow> patricia_walk_inorder h r func w =
       Some (length es, fold (\<lambda>(k, pa, a, d). func (Some pa) d) es' w))"
proof -
  obtain t where t: "trie_at h T t" "ents t = E" "set (tprefs t) = U" using assms by (auto simp: trie_rep_def)
  have call: "call f = (\<lambda>(k, pa, a, d). f (Some pa) d)" for f :: "ptr \<Rightarrow> ptr \<Rightarrow> 'z \<Rightarrow> 'z"
    by (auto simp: call_def fun_eq_iff)
  have "patricia_walk_inorder h r f w = Some (length (preord t), fold (call f) (inord t) w)" if "head T = Some r" for r f and w :: 'c
    using walk_inorder_at [of h "maxbits T" None t r f w] that t(1) by (simp add: trie_at_def entries_set)
  moreover have "patricia_process2 h T f x y v = patricia_process h T (\<lambda>p d. f p d x y) v" for f x y and v :: 'b
    by (simp add: patricia_process_def patricia_process2_def)
  ultimately show ?thesis
    using listing_preord [OF t(1)] t(2,3) mset_inord [of t]
    by (intro exI [of _ "preord t"] exI [of _ "inord t"]) (simp add: process_at [OF t(1)] call)
qed

theorem process_visits_all_witness:
  "\<exists>es es'. listing_of demo_store {(demo_key, 1, Some 7)} {0} es \<and> mset es' = mset es \<and>
    patricia_process demo_store demo_tree (\<lambda>p d u. u @ [d]) [] = Some (fold (\<lambda>(k, pa, a, d) u. u @ [d]) es []) \<and>
    patricia_walk_inorder demo_store 1 (\<lambda>p d u. u @ [d]) [] =
      Some (length es, fold (\<lambda>(k, pa, a, d) u. u @ [d]) es' [])"
proof -
  have root: "head demo_tree = Some 1" by (simp add: demo_tree_def)
  have "\<exists>es es'. listing_of demo_store {(demo_key, 1, Some 7)} {0} es \<and> mset es' = mset es \<and>
    (\<forall>func u. patricia_process demo_store demo_tree func (u :: ptr list) =
       Some (fold (\<lambda>(k, pa, a, d). func (Some pa) d) es u)) \<and>
    (\<forall>func x y v. patricia_process2 demo_store demo_tree func x y (v :: unit) =
       Some (fold (\<lambda>(k, pa, a, d). func (Some pa) d x y) es v)) \<and>
    (\<forall>r func w. head demo_tree = Some r \<longrightarrow> patricia_walk_inorder demo_store r func (w :: ptr list) =
       Some (length es, fold (\<lambda>(k, pa, a, d). func (Some pa) d) es' w))"
    by (rule process_visits_all [OF demo_holds])
  with root show ?thesis by blast
qed

text \<open>Property C22: on every well-formed trie \<^verbatim>\<open>Clear_Patricia\<close> and \<^verbatim>\<open>Destroy_Patricia\<close> return. They free
  all its nodes and no other, drop one reference of each of its prefixes and no other, and give
  the data of the entries that have some to the function, once each. \<^verbatim>\<open>Clear_Patricia\<close> counts the nodes
  down to 0 but does not reset the head, so that the next search of a trie that had a node uses
  freed memory.\<close>

theorem clear_frees_all:
  assumes "trie_rep h T E U"
  shows "\<exists>es A h' T' u'. Clear_Patricia func h T u = Some (h', T', u') \<and> Destroy_Patricia func h T u = Some (h', u') \<and>
    listing_of h E U es \<and> u' = fold (\<lambda>(k, pa, a, d). case (d, func) of (Some x, Some f) \<Rightarrow> f x | _ \<Rightarrow> id) es u \<and>
    fst ` snd ` E \<subseteq> A \<and> num_active_node T = int (card A) \<and> A \<subseteq> dom (pnodes h) \<and> pnodes h' = pnodes h |` (- A) \<and>
    pprefixes h' = (\<lambda>pa. if pa \<in> U then drop_ref (pprefixes h pa) else pprefixes h pa) \<and>
    T' = T\<lparr>num_active_node := 0\<rparr> \<and>
    (head T \<noteq> None \<longrightarrow> patricia_search_best h' T' p = None \<and> patricia_search_exact h' T' p = None)"
proof -
  obtain t where t: "trie_at h T t" "ents t = E" "set (tprefs t) = U" using assms by (auto simp: trie_rep_def)
  let ?h = "cleared (set (taddrs t)) U h" and ?T = "T\<lparr>num_active_node := 0\<rparr>"
  have clear: "Clear_Patricia func h T u = Some (?h, ?T, fold (give func) (preord t) u)"
    using clear_at [OF t(1), of func u] by (simp add: t(3))
  have give: "give func = (\<lambda>(k, pa, a, d). case (d, func) of (Some x, Some f) \<Rightarrow> f x | _ \<Rightarrow> id)"
    by (auto simp: give_def fun_eq_iff split: option.splits)
  have nodes: "fst ` snd ` E \<subseteq> set (taddrs t)" using ents_addr t(2) by force
  have count: "num_active_node T = int (card (set (taddrs t)))"
    using t(1) by (simp add: trie_at_def distinct_card)
  have dom: "set (taddrs t) \<subseteq> dom (pnodes h)"
    using t(1) rep_taddrs_dom [of h "maxbits T" None t] by (simp add: trie_at_def)
  have gone: "patricia_search_best ?h ?T p = None \<and> patricia_search_exact ?h ?T p = None" if r: "head T \<noteq> None"
  proof -
    obtain a where "head T = Some a" "a \<in> set (taddrs t)"
      using r t(1) troot_in_taddrs by (auto simp: trie_at_def)
    moreover from this have "pnodes ?h a = None" by (simp add: cleared_def)
    ultimately show ?thesis
      by (simp add: patricia_search_best_def patricia_search_best2_def patricia_search_exact_def
          search_best_loop.simps [of _ _ _ a] search_exact_loop.simps [of _ _ _ a])
  qed
  show ?thesis
    using clear listing_preord [OF t(1)] t(2,3) nodes count dom gone
    by (intro exI [of _ "preord t"] exI [of _ "set (taddrs t)"] exI [of _ ?h] exI [of _ ?T]
        exI [of _ "fold (give func) (preord t) u"]) (simp add: Destroy_Patricia_def give cleared_def)
qed

theorem clear_frees_all_witness:
  "\<exists>h' T' u'. Clear_Patricia (Some (\<lambda>d u. d # u)) demo_store demo_tree [] = Some (h', T', u') \<and>
    Destroy_Patricia (Some (\<lambda>d u. d # u)) demo_store demo_tree [] = Some (h', u') \<and>
    patricia_search_best h' T' demo_prefix = None"
proof -
  have "head demo_tree \<noteq> None" by (simp add: demo_tree_def)
  with clear_frees_all [OF demo_holds, of "Some (\<lambda>d u. d # u)" "[]" demo_prefix] show ?thesis by blast
qed

end
