(* ===== verification/Spec2Isabelle.thy ===== *)
theory Spec2Isabelle
  imports Madcap_Stack Nsh_Stack Tunnel_Stack Vxlan_Ports Netdevgen Patricia_Walk
begin

text \<open>
  \<^bold>\<open>A verification of madcap: offloading overlay encapsulation to network devices.\<close>

  Madcap lets an overlay protocol driver (VXLAN, GRE, IPIP, NSH) hand its packets, with their protocol
  headers, to a network device that adds the outer headers itself. The repository holds the core
  that connects the two sides, software implementations of the device side (in two NIC drivers and
  a dummy device), the protocol drivers that use it, a packet generator for measurements and
  user-space commands.

  \<^bold>\<open>Parts and theories.\<close>

  \<^item> \<^verbatim>\<open>device-drivers-4.2.0/ixgbe/patricia.c\<close>, the routing trie. \<open>Patricia\<close> translates searches,
    insertion and removal over an explicit heap of nodes and prefixes; a null or dangling
    dereference, a read past an address or an overflowing stack is the result \<open>None\<close>.
    \<open>Patricia_Bits\<close> relates the bit tests to bit strings, \<open>Patricia_Tree\<close> defines the shape
    invariant, \<open>Patricia_Search\<close>, \<open>Patricia_Insert\<close> and \<open>Patricia_Remove\<close> prove the operations
    correct, and \<open>Patricia_Spec\<close> states the contract \<open>lpm_table\<close> of a longest-prefix-match table
    and interprets it; \<open>Patricia_Walk\<close> translates the walks and the clearing of the trie and shows
    that they visit or free everything once.
  \<^item> \<^verbatim>\<open>include/madcap.h\<close> and \<^verbatim>\<open>madcap/madcap.c\<close>, the core. \<open>Madcap_Obj\<close> has the objects and their bytes,
    \<open>Madcap_Core\<close> the registry of devices, the dispatch and the netlink family. The state of the
    drivers is a type variable. \<open>Madcap_Contract\<close> shows that the registry is a map, that dumps
    enumerate, and states what a driver's locator table promises (\<open>llt_driver\<close>, and
    \<open>llt_map_driver\<close> for a table with one entry per identifier). \<open>Madcap_Props\<close> has the properties.
  \<^item> \<open>Bucket_Table\<close>: hash tables of linked lists, shared by the modules that have one.
  \<^item> \<^verbatim>\<open>device-drivers-4.2.0/ixgbe/sfmc.c\<close>, the software madcap of a NIC driver. \<open>Sfmc\<close> has its state, the
    locator table, the forwarding table and the madcap operations; \<open>Sfmc_Packet\<close> encapsulation,
    switchdev, neighbours, set-up and tear-down. \<open>Sfmc_Table\<close> interprets the driver contract,
    \<open>Sfmc_Fib\<close> and \<open>Sfmc_Safety\<close> prove the invariant \<open>sfmc_ok\<close> (the routes are exactly the entries of
    the trie, cached routes are live, queued works own their object) of every operation, \<open>Sfmc_Steps\<close>
    defines events and reachable states, \<open>Sfmc_Wire\<close> has the checksum and what a receiver reads of the
    headers, \<open>Sfmc_Props\<close> the properties and \<open>Sfmc_Connected\<close> the one about connected routes. \<open>Sfmc_E1000\<close> has the functions in which the copy of the file for e1000 differs, compares
    the two copies, and has the hooks in the transmit functions of both NIC drivers.
  \<^item> \<^verbatim>\<open>raven/raven.c\<close>, the measuring device: \<open>Raven\<close>, \<open>Raven_Proc\<close> (the reports of builds with \<^verbatim>\<open>OVBENCH\<close>)
    and \<open>Raven_Props\<close>, which interprets the driver contract.
  \<^item> \<^verbatim>\<open>protocol-drivers-4.2.0/nsh/nshkmod.c\<close>, the NSH protocol driver: \<open>Nsh\<close> (path table, reception,
    transmission), \<open>Nsh_Ctl\<close> (links, netlink, namespaces, module) and \<open>Nsh_Props\<close>.
  \<^item> \<^verbatim>\<open>netdevgen/netdevgen.c\<close>, the packet generator: \<open>Netdevgen\<close>, a step relation whose threads run
    interleaved with the commands of the proc file.
  \<^item> \<^verbatim>\<open>protocol-drivers-4.2.0/ipip/ipip.c\<close> and \<^verbatim>\<open>gre/ip_gre.c\<close>, the IP tunnels: \<open>Ip_Tunnel\<close> has what they share
    (tunnel parameters, link attributes) and the IPIP driver, \<open>Ip_Gre\<close> the GRE driver; \<open>Tunnel_Stack\<close>
    composes them with the core and the sfmc driver.
  \<^item> \<^verbatim>\<open>protocol-drivers-4.2.0/vxlan/vxlan.c\<close>, the VXLAN driver: \<open>Vxlan_Fdb\<close> (forwarding table), \<open>Vxlan_Net\<close>
    (sockets, header, reception), \<open>Vxlan_Offload\<close> (receive offload, announcement of ports to NICs), \<open>Vxlan_Neigh\<close> (neighbour proxy), \<open>Vxlan_Xmit\<close> (transmission), \<open>Vxlan_Link\<close>
    (sockets and links: creation, open, close, deletion, dump, namespaces, module). \<open>Vxlan_Props\<close> proves the
    invariant \<open>fdb_ok\<close> of the table under every operation, \<open>Vxlan_Wire\<close> relates the headers of both paths,
    \<open>Vxlan_Stack\<close> has sizes and the walk over options, \<open>Vxlan_Path\<close> the properties of frames,
    \<open>Vxlan_Life\<close> those of the life of a device, and \<open>Vxlan_Ports\<close> those of the listening sockets.
  \<^item> \<^verbatim>\<open>iproute2-4.4.0/ip/ipmadcap.c\<close>, the command \<^verbatim>\<open>ip madcap\<close>: \<open>Ipmadcap\<close>. \<open>Madcap_Stack\<close> composes it with
    netlink and the core; its locale \<open>madcap_stack\<close> says what the command does on any driver that
    keeps the contract, and is interpreted for sfmc and raven.
  \<^item> \<^verbatim>\<open>ip/ipnsh.c\<close> and \<^verbatim>\<open>ip/iplink_nsh.c\<close> in the \<^verbatim>\<open>iproute2-3.19.0\<close> of the NSH driver and \<^verbatim>\<open>ip/iplink_raven.c\<close> in
    \<^verbatim>\<open>iproute2-4.4.0\<close>: \<open>Ipnsh\<close>; \<open>Nsh_Stack\<close> composes the first two with netlink and the NSH module.

  This theory has the two properties that span components: the command line, the core and the sfmc
  driver (add, show, del), and the NSH driver on an sfmc device (a frame sent arrives).

  \<^bold>\<open>Conventions.\<close> C integers keep their width (\<open>u8\<close> to \<open>u64\<close>); a field in network order is the word the
  little-endian machine reads from it. Pointers are numbers or null. Errors are the negative errno
  values the code returns. \<open>None\<close> in a result of type \<open>option\<close> is a kernel crash, or a read outside
  the packet; that an operation returns is always proved as \<open>Some\<close>. A field that counts free memory
  decides whether an allocation succeeds. Reference counts do not overflow: they are numbers without
  bound.

  \<^bold>\<open>Recursion and fuel.\<close> Loops over lists and arrays are structural or have a termination measure. The
  loops that follow pointers through the trie, and the entry dump of the core, which restarts its
  scan, are \<open>partial_function\<close>s: not returning is \<open>None\<close>, and their theorems show that they return
  \<open>Some\<close> on every well-formed trie or registry. So is the walk over the options of a neighbour
  solicitation, which need not end; a property says when it does. The dump loops of netlink in
  \<open>Madcap_Stack\<close> and \<open>Nsh_Stack\<close> have fuel; one more than the number of entries is enough.

  \<^bold>\<open>Parameters.\<close> Kernel services are fields of an environment record: \<open>genl_env\<close> (devices by index, room
  in a message), \<open>sfmc_env\<close> (hash function, addresses, and the neighbour table, which may be another one at
  every event of a device), \<open>raven_env\<close> and \<open>nsh_env\<close> (routing,
  head room, tunnel transmission), \<open>ndg_env\<close>, \<open>tnl_kern\<close> (common tunnel code), \<open>vx_kern\<close> (routing, neighbours, sockets,
  groups), and \<open>cli_env\<close> and \<open>nsh_cli\<close> (parsers and printers of the C library). No
  property assumes more of them than that they return values of their types, except where a
  hypothesis says so: room for one message (\<open>roomy\<close>), hardware addresses of six bytes, device
  indices that differ, calls for head room, offload or a clone that succeed, hash values within the
  table, allocations that return memory not in use.

  \<^bold>\<open>Not modelled.\<close> The head room of a packet handed to the sfmc driver, which \<^verbatim>\<open>sfmc_encap_packet\<close> takes for
  granted (\<^verbatim>\<open>__skb_push\<close> does not look at it): packets have room for the outer headers. Locks and RCU: each function is one step, only the generator's threads, the work queue
  and the events of a device interleave. The copies of the protocol drivers for Linux 3.19, older
  versions of the ones modelled. The rest of the NIC drivers and \<^verbatim>\<open>iproute2\<close>, which are third-party code
  with calls of the modelled functions added; scripts and results of benchmarks.
\<close>

section \<open>The tool, the core and a driver\<close>

text \<open>Property C5: from the command line to the driver and back. On a device of the sfmc driver,
  \<^verbatim>\<open>ip madcap add id I dst A dev D\<close> for an identifier that is not in the table ends with success;
  \<^verbatim>\<open>ip madcap show dev D\<close> then prints the lines it printed before and exactly one more, the entry's; a
  second \<^verbatim>\<open>add\<close> of the identifier fails with code -2 and changes nothing; and \<^verbatim>\<open>ip madcap del\<close> with the same
  arguments ends with success and leaves the lines as they were at first.\<close>

theorem cli_add_show_del:
  assumes at: "attached env stk net (sfmc_madcap_ops hash) ifx d" and inv: "sfmc_inv hash d w" and tags: "tagged (sfmc_listing d w)"
    and args: "get_u64 cli istr = Some i" "inet_pton cli astr = Some a" "if_nametoindex cli dev = ifx" "i \<noteq> 0 \<or> a \<noteq> 0"
    and new: "i \<notin> oe_id ` set (sfmc_listing d w)" and mem: "table_mem (netdev_get_sfmc w d) \<noteq> 0"
    and fuel: "Suc (length (sfmc_listing d w)) < fuel"
  shows "\<exists>lns w' lns' w'' lns''.
    ip_madcap cli env stk fuel beyond net [''show'', ''dev'', dev] w = (Done 0, lns, w) \<and>
    ip_madcap cli env stk fuel beyond net (''add'' # entry_args istr astr dev) w = (Done 0, [], w') \<and>
    ip_madcap cli env stk fuel beyond net [''show'', ''dev'', dev] w' = (Done 0, lns', w') \<and>
    mset lns' = add_mset (entry_line cli ifx (cli_entry i a)) (mset lns) \<and>
    ip_madcap cli env stk fuel beyond net (''add'' # entry_args istr astr dev) w' = (Done (- 2), [], w') \<and>
    ip_madcap cli env stk fuel beyond net (''del'' # entry_args istr astr dev) w' = (Done 0, [], w'') \<and>
    ip_madcap cli env stk fuel beyond net [''show'', ''dev'', dev] w'' = (Done 0, lns'', w'') \<and> mset lns'' = mset lns"
proof -
  let ?oe = "cli_entry i a"
  have id: "oe_id ?oe = i" by (simp add: cli_entry_def)
  obtain w' where ok: "sfmc_llt_entry_add hash d ?oe w = (0, w')" using sfmc_add_new [OF inv _ mem, of ?oe] new id by metis
  have inv': "sfmc_inv hash d w'" using sfmc_llt.add_inv [OF inv, of ?oe] ok by simp
  have listed: "?oe \<in> set (sfmc_listing d w')" "set (sfmc_listing d w') = insert ?oe (set (sfmc_listing d w))"
    using sfmc_llt.add_then_listed [OF inv ok] by simp_all
  have again: "sfmc_llt_entry_add hash d ?oe w' = (- EEXIST, w')"
    using listed(1) by (cases rule: sfmc_add_cases [OF inv', of ?oe]) auto
  obtain w'' where del: "sfmc_llt_entry_del hash d ?oe w' = (0, w'')"
    using sfmc_llt.add_then_del [OF inv ok] by (metis prod.collapse)
  have inv'': "sfmc_inv hash d w''" using sfmc_llt.del_inv [OF inv', of ?oe] del by simp
  have ms: "mset (sfmc_listing d w'') = mset (sfmc_listing d w)" using sfmc_llt.add_del_same [OF inv ok] del by simp
  then have "set (sfmc_listing d w'') = set (sfmc_listing d w)" "length (sfmc_listing d w'') = length (sfmc_listing d w)"
    by (metis set_mset_mset, metis size_mset)
  then have "tagged (sfmc_listing d w'')" "length (sfmc_listing d w'') < fuel" using tags fuel by (simp_all add: tagged_def)
  from sfmc_stack.cli_show [OF at inv'' this(1) args(3) this(2)] have s2:
    "ip_madcap cli env stk fuel beyond net [''show'', ''dev'', dev] w'' = (Done 0, map (entry_line cli ifx) (sfmc_listing d w''), w'')" .
  have s0: "ip_madcap cli env stk fuel beyond net [''show'', ''dev'', dev] w = (Done 0, map (entry_line cli ifx) (sfmc_listing d w), w)"
    using sfmc_stack.cli_show [OF at inv tags args(3)] fuel by simp
  show ?thesis
    using s0 s2 sfmc_stack.cli_add_show [OF at inv tags args ok fuel, of beyond] sfmc_stack.cli_add [OF at args, of fuel beyond w']
      sfmc_stack.cli_del [OF at args, of fuel beyond w'] again del ms by auto
qed

text \<open>The device of \<open>demo_world\<close>, registered and with the index 2, and a tool whose parsers know the words used.\<close>

definition demo_net :: "sfmc_world madcap_net" where
  "demo_net = \<lparr>net_ops = Some (sfmc_madcap_ops demo_hash) # replicate 15 None, net_dev = Some 1 # replicate 15 None, kept_dst = {1}\<rparr>"

definition demo_genl :: genl_env where
  "demo_genl = \<lparr>dev_get_by_index = (\<lambda>i. if i = 2 then Some 1 else None), dev_ifindex = (\<lambda>d. if d = 1 then 2 else 0),
     hdr_fits = (\<lambda>skb. True), attr_fits = (\<lambda>skb n. True), msg_bytes = (\<lambda>m. 64)\<rparr>"

definition demo_cli :: cli_env where
  "demo_cli = \<lparr>if_nametoindex = (\<lambda>s. if s = ''eth0'' then 2 else 0), if_indextoname = (\<lambda>i. ''eth0''), get_u8 = (\<lambda>s. None),
     get_u16 = (\<lambda>s. None), get_u64 = (\<lambda>s. if s = ''7'' then Some 7 else None),
     inet_pton = (\<lambda>s. if s = ''10.0.0.9'' then Some 0x0900000A else None), inet_ntop = (\<lambda>a. if a = 0x0900000A then ''10.0.0.9'' else [])\<rparr>"

abbreviation demo_stack :: "nat \<Rightarrow> u8 list" where
  "demo_stack n \<equiv> replicate n 0xAA"

lemma demo_attached: "attached demo_genl demo_stack demo_net (sfmc_madcap_ops demo_hash) 2 1"
proof -
  have "madnet_wf demo_net" by (auto simp: madnet_wf_def demo_net_def slots_distinct_def nth_Cons split: nat.splits)
  then show ?thesis by (simp add: attached_def demo_genl_def demo_net_def get_madcap_ops_def roomy_def)
qed

theorem cli_add_show_del_witness:
  "\<exists>lns w' lns'. ip_madcap demo_cli demo_genl demo_stack 5 [] demo_net [''show'', ''dev'', ''eth0''] demo_world = (Done 0, lns, demo_world) \<and>
    ip_madcap demo_cli demo_genl demo_stack 5 [] demo_net (''add'' # entry_args ''7'' ''10.0.0.9'' ''eth0'') demo_world = (Done 0, [], w') \<and>
    ip_madcap demo_cli demo_genl demo_stack 5 [] demo_net [''show'', ''dev'', ''eth0''] w' = (Done 0, lns', w') \<and>
    mset lns' = add_mset (''dev eth0 id '' @ dec 7 @ '' dst 10.0.0.9'' @ [CHR 0x0A]) (mset lns)"
proof -
  have inv: "sfmc_inv demo_hash 1 demo_world"
    using sfmc_okD(1) [OF demo_world_ok [of 1]] by (simp add: table_ok_def sfmc_inv_def)
  have listing: "tagged (sfmc_listing 1 demo_world)" "7 \<notin> oe_id ` set (sfmc_listing 1 demo_world)"
      "Suc (length (sfmc_listing 1 demo_world)) < 5"
    by (simp_all add: demo_listing tagged_def demo_entry_def)
  have mem: "table_mem (netdev_get_sfmc demo_world 1) \<noteq> 0" by (simp add: demo_world_def demo_sfmc_def sfmc_zero_def)
  have cli: "get_u64 demo_cli ''7'' = Some 7" "inet_pton demo_cli ''10.0.0.9'' = Some 0x0900000A" "if_nametoindex demo_cli ''eth0'' = 2"
      "(7 :: u64) \<noteq> 0 \<or> (0x0900000A :: u32) \<noteq> 0"
    by (simp_all add: demo_cli_def)
  have line: "entry_line demo_cli 2 (cli_entry 7 0x0900000A) = ''dev eth0 id '' @ dec 7 @ '' dst 10.0.0.9'' @ [CHR 0x0A]"
    by (simp add: entry_line_def cli_entry_def demo_cli_def)
  show ?thesis
    using cli_add_show_del [OF demo_attached inv listing(1) cli listing(2) mem listing(3), of "[]"] unfolding line by blast
qed

section \<open>A protocol driver on a madcap device\<close>

text \<open>Property C6: a frame sent on an NSH device whose path is offloaded to a device of the sfmc driver
  arrives. The NSH module queues the frame with its NSH and VXLAN headers on the lower device; the
  driver, acquired by that NSH device, adds UDP, IPv4 and Ethernet headers for the locator of the
  packet's identifier. When the driver is configured for UDP with the port on which the module of
  the machine behind the locator has its socket as destination, the result is an Ethernet frame for
  the route's gateway with an IPv4 packet of protocol 17 from the configured source to the locator
  and in it a datagram from the configured port to that socket around the queued packet; and the
  receive handler of the socket, whose path with the same key ends at one of the machine's devices,
  hands exactly the original frame to it.\<close>

theorem offloaded_frame_arrives:
  assumes nt: "nsh_find_table (ne_hash env) nn (nd_key (nsh_devs nn d)) = Some nt" "nt_rdev nt = None" "nt_rdst nt = Some dst"
      "nt_encap_type nt = NSH_ENCAP_TYPE_VXLAN" "lowerdev dst = Some ld" "nt_mdtype nt \<in> {NSH_BASE_MDTYPE1, NSH_BASE_MDTYPE2}"
    and kernel: "\<forall>n. ne_cow_head env n = 0" "ne_madcap_enable env" "queue_rc env \<ge> 0"
    and core: "madcap_capable env ld \<longleftrightarrow> get_madcap_ops mnet ld \<noteq> None" "get_madcap_ops mnet ld = Some (sfmc_madcap_ops (se_hash senv))"
    and ok: "sfmc_ok (se_hash senv) (netdev_get_sfmc w ld)" and en: "madcap_enable senv"
    and acq: "Some d \<in> set (sfmc_vdev (netdev_get_sfmc w ld))" and udp: "encap_enable (sfmc_ou (netdev_get_sfmc w ld)) \<noteq> 0"
      "oc_proto (sfmc_oc (netdev_get_sfmc w ld)) = IPPROTO_UDP" "nsh_sock nn' = Some (dst_port (sfmc_ou (netdev_get_sfmc w ld)))"
    and i: "extract_id_from_packet (vxlan_header (vni dst) @ nsh_header (nt_mdtype nt) (nd_key (nsh_devs nn d)) (md_hlen (nt_mdtype nt)) @ frame)
        (sfmc_oc (netdev_get_sfmc w ld)) = Some i"
    and st: "encap_lookup (se_hash senv) (netdev_get_sfmc w ld) i = Some st"
    and rt: "st_fib st = Some sfa \<or> st_fib st = None \<and> best_route (netdev_get_sfmc w ld) (oe_dst (st_oe st)) sfa"
      "fibs (netdev_get_sfmc w ld) sfa = Some sf"
    and up: "sf_scope sf = RT_SCOPE_LINK \<longrightarrow> sf_gateway sf = oe_dst (st_oe st)" "sf_nud sf AND NUD_VALID \<noteq> 0"
    and mac: "length (perm_addr senv ld) = 6" "length (sf_mac sf) = 6"
    and peer: "nsh_find_table (ne_hash env') nn' (nd_key (nsh_devs nn d)) = Some nt'" "nt_rdev nt' = Some e"
      "htonl (nd_key (nsh_devs nn d)) AND 0xFF \<noteq> 0"
  shows "\<exists>pkt nn1 skb w' seg port. nsh_xmit env nn d frame = Some (NMadcap ld pkt, nn1) \<and>
    sfmc_encap_packet senv \<lparr>skb_dst = Some d, skb_data = pkt\<rparr> ld w = Some (0, skb, w') \<and>
    ipv4_frame (sf_mac sf) (perm_addr senv ld) 17 (oc_src (sfmc_oc (netdev_get_sfmc w ld))) (oe_dst (st_oe st)) seg (skb_data skb) \<and>
    udp_datagram (src_port (sfmc_ou (netdev_get_sfmc w ld))) port pkt seg \<and> nsh_sock nn' = Some port \<and>
    nsh_vxlan_udp_encap_recv env' nn' seg =
      Some (0, NDelivered e frame, upd_dev nn' e (count_rx (frame_len frame)))"
proof -
  let ?s = "netdev_get_sfmc w ld"
  let ?nsh = "nsh_header (nt_mdtype nt) (nd_key (nsh_devs nn d)) (md_hlen (nt_mdtype nt)) @ frame"
  let ?pkt = "vxlan_header (vni dst) @ ?nsh"
  let ?out = "encap_headers ?s (perm_addr senv ld) (oe_dst (st_oe st)) (sf_mac sf) ?pkt"
  have cap: "madcap_capable env ld" using core by simp
  obtain w' where run: "sfmc_encap_packet senv \<lparr>skb_dst = Some d, skb_data = ?pkt\<rparr> ld w = Some (0, \<lparr>skb_dst = Some d, skb_data = ?out\<rparr>, w')"
    using encap_runs [OF ok en _ acq _ st rt up, where skb = "\<lparr>skb_dst = Some d, skb_data = ?pkt\<rparr>"] i by auto
  obtain seg where seg: "ipv4_frame (sf_mac sf) (perm_addr senv ld) 17 (oc_src (sfmc_oc ?s)) (oe_dst (st_oe st)) seg ?out"
      "udp_datagram (src_port (sfmc_ou ?s)) (dst_port (sfmc_ou ?s)) ?pkt seg"
    using encap_headers_frame [OF mac, of ?s "oe_dst (st_oe st)" ?pkt] udp(1,2) by auto
  then have "length (take 8 seg) = 8" "seg = take 8 seg @ ?pkt"
    unfolding udp_datagram_def by (simp, metis append_take_drop_id)
  then have recv: "nsh_vxlan_udp_encap_recv env' nn' seg = Some (0, NDelivered e frame, upd_dev nn' e (count_rx (frame_len frame)))"
    using vxlan_recv [of "take 8 seg"] recv_header [OF peer(3,1,2)] by metis
  from xmit_offload [OF nt(1-6) kernel(1,2) cap kernel(3), of frame] run recv seg udp(3) show ?thesis by force
qed

text \<open>A path over VXLAN to a peer behind the device of \<open>demo_world\<close>, with UDP from port 7 to the port of the
  NSH module and the first byte of the frame as identifier.\<close>

abbreviation demo_lower :: nsh_dst where
  "demo_lower \<equiv> nsh_peer\<lparr>lowerdev := Some 1\<rparr>"

abbreviation demo_nsh :: nsh_net where
  "demo_nsh \<equiv> nsh_world [nsh_path 1 None (Some demo_lower)]"

abbreviation demo_peer :: nsh_net where
  "demo_peer \<equiv> nsh_world [nsh_path 0 (Some 2) None]"

definition demo_offload :: sfmc_world where
  "demo_offload = put_sfmc demo_world 1 (demo_sfmc\<lparr>sfmc_oc := zero_config\<lparr>oc_offset := 25, oc_length := 8, oc_proto := 17, oc_src := 1\<rparr>,
     sfmc_ou := zero_udp\<lparr>encap_enable := 1, src_port := htons 7, dst_port := VXLAN_GPE_PORT\<rparr>\<rparr>)"

lemma demo_offload_ok: "sfmc_ok demo_hash (netdev_get_sfmc demo_offload 1)"
  unfolding demo_offload_def
  by (simp, rule sfmc_ok_table [OF demo_sfmc_ok])
    (use sfmc_okD [OF demo_sfmc_ok] in \<open>simp_all add: vdev_ok_def table_ok_def cache_ok_def\<close>)

lemma demo_offload_id:
  "extract_id_from_packet (vxlan_header 9 @ nsh_header 1 (path_key 7 3) (md_hlen 1) @ [5, 1, 2]) (sfmc_oc (netdev_get_sfmc demo_offload 1)) = Some 5"
  by (simp add: demo_offload_def extract_id_from_packet_def read_bytes_def zero_config_def dec_config_def field_def
      vxlan_header_def nsh_header_def md_hlen_def) code_simp

theorem offloaded_frame_arrives_witness:
  "\<exists>pkt nn1 skb w' seg. nsh_xmit (nsh_env0\<lparr>ne_madcap_enable := True, madcap_capable := (\<lambda>d. d = 1)\<rparr>) demo_nsh 9 [5, 1, 2] = Some (NMadcap 1 pkt, nn1) \<and>
    sfmc_encap_packet demo_env \<lparr>skb_dst = Some 9, skb_data = pkt\<rparr> 1 demo_offload = Some (0, skb, w') \<and>
    ipv4_frame [2, 0, 0, 0, 0, 1] [2, 0, 0, 0, 0, 9] 17 1 0x0302010A seg (skb_data skb) \<and>
    udp_datagram (htons 7) (htons 4790) pkt seg \<and>
    nsh_vxlan_udp_encap_recv nsh_env0 demo_peer seg =
      Some (0, NDelivered 2 [5, 1, 2], upd_dev demo_peer 2 (count_rx (frame_len [5, 1, 2])))"
proof -
  let ?env = "nsh_env0\<lparr>ne_madcap_enable := True, madcap_capable := (\<lambda>d. d = 1)\<rparr>" and ?s = "netdev_get_sfmc demo_offload 1"
  let ?nt = "nsh_path 1 None (Some demo_lower)" and ?st = "\<lparr>st_oe = demo_entry, st_fib = None\<rparr>"
  have find: "nsh_find_table (ne_hash ?env) demo_nsh (nd_key (nsh_devs demo_nsh 9)) = Some ?nt"
    "nsh_find_table (ne_hash nsh_env0) demo_peer (nd_key (nsh_devs demo_nsh 9)) = Some (nsh_path 0 (Some 2) None)"
    using nsh_world_find by simp_all
  have nt: "nt_rdev ?nt = None" "nt_rdst ?nt = Some demo_lower" "nt_encap_type ?nt = 1" "lowerdev demo_lower = Some 1"
      "nt_mdtype ?nt \<in> {1, 2}" "nt_rdev (nsh_path 0 (Some 2) None) = Some 2"
    by (simp_all add: nsh_path_def)
  have env: "\<forall>n. ne_cow_head ?env n = 0" "ne_madcap_enable ?env" "0 \<le> queue_rc ?env" "madcap_capable ?env 1"
    by (simp_all add: nsh_env0_def)
  have reg: "get_madcap_ops demo_net 1 = Some (sfmc_madcap_ops (se_hash demo_env))"
    by (simp add: get_madcap_ops_def demo_net_def demo_env_def)
  have s: "sfmc_ok (se_hash demo_env) ?s" "madcap_enable demo_env" "Some 9 \<in> set (sfmc_vdev ?s)" "encap_enable (sfmc_ou ?s) \<noteq> 0"
      "oc_proto (sfmc_oc ?s) = 17" "nsh_sock demo_peer = Some (dst_port (sfmc_ou ?s))"
      "length (perm_addr demo_env 1) = 6" "length (sf_mac demo_route) = 6"
    using demo_offload_ok
    by (simp_all add: demo_env_def demo_offload_def demo_sfmc_def sfmc_zero_def demo_route_def nsh_world_def numeral_nat replicate_Suc)
  have i: "extract_id_from_packet (vxlan_header (vni demo_lower) @
      nsh_header (nt_mdtype ?nt) (nd_key (nsh_devs demo_nsh 9)) (md_hlen (nt_mdtype ?nt)) @ [5, 1, 2]) (sfmc_oc ?s) = Some 5"
    using demo_offload_id by (simp add: nsh_path_def)
  have l: "encap_lookup (se_hash demo_env) ?s 5 = Some ?st"
    by (simp add: demo_env_def demo_offload_def encap_lookup_def sfmc_table_find_def sfmc_table_head_def demo_sfmc_def demo_hash_def
        demo_entry_def nth_list_update)
  have b: "best_route ?s (oe_dst (st_oe ?st)) 7" "fibs ?s 7 = Some demo_route"
    using demo_best by (simp_all add: best_route_def route_matches_def demo_offload_def demo_entry_def demo_sfmc_def)
  have up: "sf_scope demo_route = RT_SCOPE_LINK \<longrightarrow> sf_gateway demo_route = oe_dst (st_oe ?st)" "sf_nud demo_route AND NUD_VALID \<noteq> 0"
    by (simp_all add: demo_route_def)
  have cap: "madcap_capable ?env 1 \<longleftrightarrow> get_madcap_ops demo_net 1 \<noteq> None" using env(4) reg by simp
  have idx: "htonl (nd_key (nsh_devs demo_nsh 9)) AND 0xFF \<noteq> 0" using demo_index by simp
  have rt: "st_fib ?st = Some 7 \<or> st_fib ?st = None \<and> best_route ?s (oe_dst (st_oe ?st)) 7" using b(1) by simp
  from offloaded_frame_arrives [OF find(1) nt(1-5) env(1-3) cap reg s(1-6) i l rt b(2) up s(7,8) find(2) nt(6) idx]
  show ?thesis by (simp add: demo_env_def demo_route_def demo_offload_def demo_entry_def nsh_world_def)
qed

end
